(* ===== verification/Prelude.thy ===== *)
theory Prelude
  imports Main "HOL-Library.Char_ord" "HOL-Library.List_Lexorder" "HOL-Library.Word"
begin

section \<open>Shared types, automation and lemmas\<close>

text \<open>
  What every component of the development shares: the names of the model's basic types
  (Rust strings as their UTF-8 bytes, Rust chars as code points, clock readings in
  milliseconds, fixed-width integers as words), the three-way comparison of
  \<open>std::cmp::Ordering\<close>, the result type of fallible code, and generic lemmas on lists,
  options and maps that the component theories use through the collections declared
  here.
\<close>

named_theorems cmp_simps \<open>equations of three-way comparison\<close>
named_theorems window_simps \<open>equations of bounded windows over lists\<close>

subsection \<open>Types\<close>

text \<open>A Rust \<open>str\<close> is its UTF-8 byte sequence; a \<open>char\<close> of HOL is one byte.\<close>

type_synonym str = string

text \<open>Where code looks at Unicode scalar values (\<open>char::is_whitespace\<close>, \<open>trim\<close>), a
  Rust \<open>str\<close> is the list of its scalar values.\<close>

type_synonym chars = "nat list"

text \<open>Clock readings and durations, in milliseconds.\<close>

type_synonym instant = nat
type_synonym duration = nat

type_synonym u8 = "8 word"
type_synonym u16 = "16 word"
type_synonym u32 = "32 word"
type_synonym u64 = "64 word"
type_synonym bytes = "8 word list"

type_synonym ('e, 'a) result = "'e + 'a"

abbreviation Err :: "'e \<Rightarrow> ('e, 'a) result" where
  "Err \<equiv> Inl"

abbreviation Okay :: "'a \<Rightarrow> ('e, 'a) result" where
  "Okay \<equiv> Inr"

definition from_secs :: "nat \<Rightarrow> duration" where
  "from_secs s = 1000 * s"

definition from_millis :: "nat \<Rightarrow> duration" where
  "from_millis m = m"

subsection \<open>Three-way comparison\<close>

datatype Ordering = Less | Equal | Greater

definition cmp :: "'a::linorder \<Rightarrow> 'a \<Rightarrow> Ordering" where
  "cmp a b = (if a < b then Less else if a = b then Equal else Greater)"

lemma cmp_Less [cmp_simps]: "cmp a b = Less \<longleftrightarrow> a < b"
  by (simp add: cmp_def)

lemma cmp_Equal [cmp_simps]: "cmp a b = Equal \<longleftrightarrow> a = b"
  by (auto simp: cmp_def)

lemma cmp_Greater [cmp_simps]: "cmp a b = Greater \<longleftrightarrow> b < a"
  by (auto simp: cmp_def)

lemma cmp_refl [simp]: "cmp a a = Equal"
  by (simp add: cmp_def)

text \<open>\<open>str::as_bytes\<close>.\<close>

definition as_bytes :: "str \<Rightarrow> bytes" where
  "as_bytes s = map of_char s"

lemma length_as_bytes [simp]: "length (as_bytes s) = length s"
  by (simp add: as_bytes_def)

lemma of_char_inj: "(of_char c :: 8 word) = of_char d \<longleftrightarrow> c = d"
proof
  assume "(of_char c :: 8 word) = of_char d"
  then have "unat (of_char c :: 8 word) = unat (of_char d :: 8 word)"
    by simp
  moreover have "unat (of_char c :: 8 word) = of_char c" for c
  proof -
    have "unat (of_nat (of_char c) :: 8 word) = of_char c mod 2 ^ 8"
      by (simp add: unat_of_nat)
    then show ?thesis
      by (simp add: of_nat_of_char)
  qed
  ultimately have "(of_char c :: nat) = of_char d"
    by simp
  then show "c = d"
    by simp
qed simp

lemma as_bytes_inj [simp]: "as_bytes s = as_bytes t \<longleftrightarrow> s = t"
proof
  assume "as_bytes s = as_bytes t"
  then show "s = t"
    unfolding as_bytes_def by (rule map_injective) (auto intro: injI simp: of_char_inj)
qed simp

lemma as_bytes_char_of [simp]: "as_bytes (map (\<lambda>w. char_of (unat w)) bs) = bs"
proof -
  have "(of_char (char_of (unat w)) :: 8 word) = w" for w :: "8 word"
  proof -
    have "unat w < 256" using unsigned_less [of w, where ?'a = nat] by simp
    then have "(of_char (char_of (unat w)) :: nat) = unat w" by simp
    then have "(of_nat (of_char (char_of (unat w))) :: 8 word) = w" by simp
    then show ?thesis by (simp only: of_nat_of_char)
  qed
  then show ?thesis by (simp add: as_bytes_def o_def)
qed

text \<open>Text without a NUL byte, and splitting at separators.\<close>

definition nul_free :: "str \<Rightarrow> bool" where
  "nul_free s \<longleftrightarrow> CHR 0x00 \<notin> set s"

lemma zero_in_as_bytes: "0 \<in> set (as_bytes s) \<longleftrightarrow> \<not> nul_free s"
proof -
  have "(of_char c :: 8 word) = 0 \<longleftrightarrow> c = CHR 0x00" for c
    using of_char_inj [of c "CHR 0x00"] by simp
  then show ?thesis by (auto simp: as_bytes_def nul_free_def image_iff)
qed

lemma sep_left_eq:
  "x \<notin> set xs \<Longrightarrow> x \<notin> set xs' \<Longrightarrow> xs @ x # ys = xs' @ x # ys' \<longleftrightarrow> xs = xs' \<and> ys = ys'"
proof (induction xs arbitrary: xs')
  case Nil
  then show ?case by (cases xs') auto
next
  case (Cons a xs)
  then show ?case by (cases xs') auto
qed

lemma sep_right_eq:
  assumes "x \<notin> set ys" and "x \<notin> set ys'"
  shows "xs @ x # ys = xs' @ x # ys' \<longleftrightarrow> xs = xs' \<and> ys = ys'"
proof -
  have "xs @ x # ys = xs' @ x # ys' \<longleftrightarrow> rev (xs @ x # ys) = rev (xs' @ x # ys')"
    by (simp only: rev_is_rev_conv)
  also have "\<dots> \<longleftrightarrow> rev ys @ x # rev xs = rev ys' @ x # rev xs'" by simp
  also have "\<dots> \<longleftrightarrow> xs = xs' \<and> ys = ys'"
    using sep_left_eq [of x "rev ys" "rev ys'"] assms by auto
  finally show ?thesis .
qed

subsection \<open>Decimal text\<close>

text \<open>\<open>Display\<close> of unsigned integers: decimal digits without leading zeros.\<close>

fun show_nat :: "nat \<Rightarrow> str" where
  "show_nat n =
     (if n < 10 then [char_of (48 + n)] else show_nat (n div 10) @ [char_of (48 + n mod 10)])"

declare show_nat.simps [simp del]

subsection \<open>Bounded windows\<close>

text \<open>
  The contract of a queue that keeps the most recent entries: pushing onto a full window
  drops the oldest entry. What clients rely on is proved here once: the window never
  grows beyond its capacity, and an entry survives as long as fewer than the capacity of
  newer entries have been pushed.
\<close>

locale bounded_window =
  fixes cap :: nat
    and push :: "'a \<Rightarrow> 'w \<Rightarrow> 'w"
    and items :: "'w \<Rightarrow> 'a list"
  assumes cap_pos: "0 < cap"
    and items_push: "length (items w) \<le> cap \<Longrightarrow>
      items (push x w) = (if length (items w) = cap then tl (items w) else items w) @ [x]"
begin

lemma push_bound: "length (items w) \<le> cap \<Longrightarrow> length (items (push x w)) \<le> cap"
  using cap_pos by (auto simp: items_push)

lemma fold_push_bound: "length (items w) \<le> cap \<Longrightarrow> length (items (fold push xs w)) \<le> cap"
  by (induction xs arbitrary: w) (simp_all add: push_bound)

text \<open>The window holds the most recent entries, as many as fit.\<close>

lemma fold_push_items:
  assumes "length (items w) \<le> cap"
  shows "items (fold push xs w) = drop (length (items w) + length xs - cap) (items w @ xs)"
  using assms
proof (induction xs rule: rev_induct)
  case (snoc x xs)
  let ?u = "items (fold push xs w)"
  have ih: "?u = drop (length (items w) + length xs - cap) (items w @ xs)" using snoc by simp
  have len: "length ?u \<le> cap" by (rule fold_push_bound [OF snoc.prems])
  show ?case
  proof (cases "length ?u = cap")
    case True
    let ?k = "length (items w) + length xs - cap" and ?all = "items w @ xs"
    have le: "cap \<le> length ?all" using True by (simp add: ih)
    have "items (fold push (xs @ [x]) w) = tl ?u @ [x]" using True by (simp add: items_push)
    also have "tl ?u = drop (Suc ?k) ?all" by (simp only: ih drop_Suc tl_drop)
    also have "\<dots> @ [x] = drop (Suc ?k) (?all @ [x])"
      using le cap_pos by (subst drop_append [of _ ?all]) (simp del: drop_append append_assoc)
    also have "Suc ?k = length (items w) + length (xs @ [x]) - cap" using le by simp
    finally show ?thesis by simp
  next
    case False
    then have "length (items w) + length xs < cap" using len by (simp add: ih)
    with False ih show ?thesis by (simp add: items_push [OF len])
  qed
qed simp

lemma fold_push_survives:
  assumes "items w = pre @ x # post" and "length (items w) \<le> cap"
    and "length post + length ys < cap"
  shows "x \<in> set (items (fold push ys w))"
proof -
  have "length (items w) + length ys - cap \<le> length pre" using assms by simp
  then show ?thesis unfolding fold_push_items [OF assms(2)] by (simp add: assms(1))
qed

end

end
