(* ===== verification/Glare.thy ===== *)
theory Glare
  imports Prelude "HOL-Library.Product_Lexorder"
begin

section \<open>Glare resolution\<close>

text \<open>
  The model of \<open>crates/mxdx-p2p/src/signaling/glare.rs\<close>: when both peers send an invite,
  each side computes the winner from the two public identifiers. The theorems show that
  the two computations agree and that the winner is the lexicographically least
  \<open>(user_id, call_id)\<close>.
\<close>

datatype GlareResult = WeWin | TheyWin

definition resolve :: "str \<Rightarrow> str \<Rightarrow> str \<Rightarrow> str \<Rightarrow> GlareResult" where
  "resolve our_user_id their_user_id our_call_id their_call_id =
     (case cmp our_user_id their_user_id of
        Less \<Rightarrow> WeWin
      | Greater \<Rightarrow> TheyWin
      | Equal \<Rightarrow>
          (case cmp our_call_id their_call_id of
             Less \<Rightarrow> WeWin
           | Greater \<Rightarrow> TheyWin
           | Equal \<Rightarrow> WeWin))"

fun invert :: "GlareResult \<Rightarrow> GlareResult" where
  "invert WeWin = TheyWin"
| "invert TheyWin = WeWin"

lemma invert_invert [simp]: "invert (invert g) = g"
  by (cases g) simp_all

lemma resolve_eq_pair_order:
  "resolve u v c d = (if (u, c) \<le> (v, d) then WeWin else TheyWin)"
  by (auto simp: resolve_def cmp_def)

text \<open>
  C18. Glare resolution converges: two peers that compute the winner of the same pair of
  different invites, each from its own side, reach opposite results, so exactly one
  invite survives; the surviving invite is the lexicographically least
  \<open>(user_id, call_id)\<close>, with byte order on strings. Only an invite compared with itself
  is won by both sides.
\<close>

theorem glare_agreement:
  "(resolve u v c d = invert (resolve v u d c) \<longleftrightarrow> (u, c) \<noteq> (v, d))
   \<and> (resolve u v c d = WeWin \<longleftrightarrow> (u, c) \<le> (v, d))"
  by (auto simp: resolve_eq_pair_order)

end
