(* ===== verification/Signaling.thy ===== *)
theory Signaling
  imports Prelude
begin

section \<open>Call signaling events\<close>

text \<open>
  The model of \<open>crates/mxdx-p2p/src/channel/mod.rs\<close> (the data that channels and
  signaling share), \<open>signaling/events.rs\<close> (the five \<open>m.call.*\<close> events and their
  builders) and \<open>signaling/parse.rs\<close> (the inbound parser). JSON values, their accessors
  and the derived serde deserializers come from third-party crates: they are the fields
  of the parameter \<open>json_lib\<close>. The theorems show that the parser is total and classifies
  by event type exactly, and that what a builder emits parses back to itself.
\<close>

subsection \<open>Channel data\<close>

definition MAX_INBOUND_FRAME_SIZE :: nat where
  "MAX_INBOUND_FRAME_SIZE = 1024 * 1024"

definition EVENT_QUEUE_DEPTH :: nat where
  "EVENT_QUEUE_DEPTH = 256"

record IceServer =
  urls :: "str list"
  ice_username :: "str option"
  ice_credential :: "str option"

datatype SdpKind = Offer | Answer

fun sdp_kind_fmt :: "SdpKind \<Rightarrow> str" where
  "sdp_kind_fmt Offer = ''offer''"
| "sdp_kind_fmt Answer = ''answer''"

record Sdp =
  sdp_kind :: SdpKind
  sdp_text :: str

record IceCandidate =
  candidate :: str
  sdp_mid :: "str option"
  sdp_mline_index :: "u32 option"

datatype ChannelEvent =
    ChLocalIce IceCandidate
  | ChMessage bytes
  | ChOpen
  | ChClosed str
  | ChFailure str

datatype ChannelError =
    InvalidSdp str
  | InvalidCandidate str
  | IceInitFailed str
  | RestartIceUnsupported
  | FrameTooLarge nat nat
  | ChannelIsClosed
  | Backend str

subsection \<open>Call events\<close>

definition DEFAULT_INVITE_LIFETIME_MS :: nat where
  "DEFAULT_INVITE_LIFETIME_MS = 30000"

definition CALL_VERSION :: str where
  "CALL_VERSION = ''1''"

record CallSdpField =
  field_kind :: str
  field_sdp :: str

record CallIceCandidate =
  call_candidate :: str
  call_sdp_mid :: "str option"
  call_sdp_mline_index :: "u32 option"

record CallInvite =
  inv_call_id :: str
  inv_party_id :: str
  inv_version :: str
  inv_lifetime :: u64
  inv_offer :: CallSdpField
  mxdx_session_key :: "str option"
  inv_session_uuid :: "str option"

record CallAnswer =
  ans_call_id :: str
  ans_party_id :: str
  ans_version :: str
  ans_answer :: CallSdpField

record CallCandidates =
  cand_call_id :: str
  cand_party_id :: str
  cand_version :: str
  cand_candidates :: "CallIceCandidate list"

record CallHangup =
  hup_call_id :: str
  hup_party_id :: str
  hup_version :: str
  hup_reason :: "str option"

record CallSelectAnswer =
  sel_call_id :: str
  sel_party_id :: str
  sel_version :: str
  selected_party_id :: str

text \<open>The base64 text of the sealed key is what \<open>SealedKey::to_base64\<close> returned.\<close>

definition build_invite ::
  "str \<Rightarrow> str \<Rightarrow> str \<Rightarrow> str \<Rightarrow> u64 \<Rightarrow> str option \<Rightarrow> CallInvite" where
  "build_invite call_id party_id sdp_offer sealed_key_b64 lifetime session_uuid =
     \<lparr>inv_call_id = call_id, inv_party_id = party_id, inv_version = CALL_VERSION,
      inv_lifetime = lifetime,
      inv_offer = \<lparr>field_kind = ''offer'', field_sdp = sdp_offer\<rparr>,
      mxdx_session_key = Some sealed_key_b64, inv_session_uuid = session_uuid\<rparr>"

definition build_answer :: "str \<Rightarrow> str \<Rightarrow> str \<Rightarrow> CallAnswer" where
  "build_answer call_id party_id sdp_answer =
     \<lparr>ans_call_id = call_id, ans_party_id = party_id, ans_version = CALL_VERSION,
      ans_answer = \<lparr>field_kind = ''answer'', field_sdp = sdp_answer\<rparr>\<rparr>"

definition build_candidates :: "str \<Rightarrow> str \<Rightarrow> CallIceCandidate list \<Rightarrow> CallCandidates" where
  "build_candidates call_id party_id candidates =
     \<lparr>cand_call_id = call_id, cand_party_id = party_id, cand_version = CALL_VERSION,
      cand_candidates = candidates\<rparr>"

definition build_hangup :: "str \<Rightarrow> str \<Rightarrow> str option \<Rightarrow> CallHangup" where
  "build_hangup call_id party_id reason =
     \<lparr>hup_call_id = call_id, hup_party_id = party_id, hup_version = CALL_VERSION,
      hup_reason = reason\<rparr>"

definition build_select_answer :: "str \<Rightarrow> str \<Rightarrow> str \<Rightarrow> CallSelectAnswer" where
  "build_select_answer call_id party_id selected =
     \<lparr>sel_call_id = call_id, sel_party_id = party_id, sel_version = CALL_VERSION,
      selected_party_id = selected\<rparr>"

subsection \<open>The parser\<close>

datatype ParsedCallEvent =
    ParsedInvite CallInvite
  | ParsedAnswer CallAnswer
  | ParsedCandidates CallCandidates
  | ParsedHangup CallHangup
  | ParsedSelectAnswer CallSelectAnswer
  | ParsedUnknown str

fun parsed_event_type :: "ParsedCallEvent \<Rightarrow> str" where
  "parsed_event_type (ParsedInvite _) = ''m.call.invite''"
| "parsed_event_type (ParsedAnswer _) = ''m.call.answer''"
| "parsed_event_type (ParsedCandidates _) = ''m.call.candidates''"
| "parsed_event_type (ParsedHangup _) = ''m.call.hangup''"
| "parsed_event_type (ParsedSelectAnswer _) = ''m.call.select_answer''"
| "parsed_event_type (ParsedUnknown t) = t"

fun parsed_call_id :: "ParsedCallEvent \<Rightarrow> str option" where
  "parsed_call_id (ParsedInvite e) = Some (inv_call_id e)"
| "parsed_call_id (ParsedAnswer e) = Some (ans_call_id e)"
| "parsed_call_id (ParsedCandidates e) = Some (cand_call_id e)"
| "parsed_call_id (ParsedHangup e) = Some (hup_call_id e)"
| "parsed_call_id (ParsedSelectAnswer e) = Some (sel_call_id e)"
| "parsed_call_id (ParsedUnknown _) = None"

datatype ParseError =
    InvalidJson str
  | NotACallEvent str
  | InvalidContent str str

text \<open>
  The third-party operations the parser calls: \<open>serde_json::from_str\<close>, \<open>Value::get\<close>,
  \<open>Value::as_str\<close>, \<open>Value::Null\<close> and the derived \<open>Deserialize\<close> of each content type.
  An error is the text of \<open>e.to_string()\<close>.
\<close>

record 'v json_lib =
  from_str :: "str \<Rightarrow> (str, 'v) result"
  json_get :: "'v \<Rightarrow> str \<Rightarrow> 'v option"
  json_as_str :: "'v \<Rightarrow> str option"
  json_null :: 'v
  de_invite :: "'v \<Rightarrow> (str, CallInvite) result"
  de_answer :: "'v \<Rightarrow> (str, CallAnswer) result"
  de_candidates :: "'v \<Rightarrow> (str, CallCandidates) result"
  de_hangup :: "'v \<Rightarrow> (str, CallHangup) result"
  de_select_answer :: "'v \<Rightarrow> (str, CallSelectAnswer) result"

definition CALL_EVENT_TYPES :: "str list" where
  "CALL_EVENT_TYPES =
     [''m.call.invite'', ''m.call.answer'', ''m.call.candidates'', ''m.call.hangup'',
      ''m.call.select_answer'']"

definition is_call_event :: "str \<Rightarrow> bool" where
  "is_call_event t \<longleftrightarrow> take (length ''m.call.'') t = ''m.call.''"

definition deserialize ::
  "('v \<Rightarrow> (str, 'a) result) \<Rightarrow> 'v \<Rightarrow> str \<Rightarrow> (ParseError, 'a) result" where
  "deserialize de content t = map_sum (\<lambda>e. InvalidContent t e) id (de content)"

definition parse_content ::
  "'v json_lib \<Rightarrow> str \<Rightarrow> 'v \<Rightarrow> (ParseError, ParsedCallEvent) result" where
  "parse_content J t content =
     (if \<not> is_call_event t then Err (NotACallEvent t)
      else if t = ''m.call.invite'' then
        map_sum id ParsedInvite (deserialize (de_invite J) content t)
      else if t = ''m.call.answer'' then
        map_sum id ParsedAnswer (deserialize (de_answer J) content t)
      else if t = ''m.call.candidates'' then
        map_sum id ParsedCandidates (deserialize (de_candidates J) content t)
      else if t = ''m.call.hangup'' then
        map_sum id ParsedHangup (deserialize (de_hangup J) content t)
      else if t = ''m.call.select_answer'' then
        map_sum id ParsedSelectAnswer (deserialize (de_select_answer J) content t)
      else Okay (ParsedUnknown t))"

definition parse_value :: "'v json_lib \<Rightarrow> 'v \<Rightarrow> (ParseError, ParsedCallEvent) result" where
  "parse_value J event =
     (case Option.bind (json_get J event ''type'') (json_as_str J) of
        None \<Rightarrow>
          Err (InvalidContent ''<unknown>'' ''event envelope missing `type` field'')
      | Some t \<Rightarrow>
          if \<not> is_call_event t then Err (NotACallEvent t)
          else
            (let content =
               (case json_get J event ''content'' of Some c \<Rightarrow> c | None \<Rightarrow> json_null J)
             in parse_content J t content))"

definition parse_event :: "'v json_lib \<Rightarrow> str \<Rightarrow> (ParseError, ParsedCallEvent) result" where
  "parse_event J json =
     (case from_str J json of
        Inl e \<Rightarrow> Err (InvalidJson e)
      | Inr value \<Rightarrow> parse_value J value)"

subsection \<open>Correctness of the parser\<close>

lemma is_call_event_known: "t \<in> set CALL_EVENT_TYPES \<Longrightarrow> is_call_event t"
  by (auto simp: CALL_EVENT_TYPES_def is_call_event_def)

lemma map_sum_Inr_conv: "map_sum f g s = Inr y \<longleftrightarrow> (\<exists>x. s = Inr x \<and> y = g x)"
  by (cases s) auto

lemma map_sum_Inl_conv: "map_sum f g s = Inl y \<longleftrightarrow> (\<exists>x. s = Inl x \<and> y = f x)"
  by (cases s) auto

lemmas map_sum_convs = map_sum_Inr_conv map_sum_Inl_conv

lemma parse_content_event_type:
  assumes "parse_content J t content = Okay ev"
  shows "parsed_event_type ev = t \<and> is_call_event t"
  using assms
  by (auto simp: parse_content_def map_sum_convs split: if_splits)

lemma parse_content_unknown:
  assumes "is_call_event t" and "t \<notin> set CALL_EVENT_TYPES"
  shows "parse_content J t content = Okay (ParsedUnknown t)"
  using assms by (simp add: parse_content_def CALL_EVENT_TYPES_def)

lemma parse_content_not_call: "\<not> is_call_event t \<Longrightarrow> parse_content J t c = Err (NotACallEvent t)"
  by (simp add: parse_content_def)

lemma parse_content_call_error:
  assumes "is_call_event t" and "parse_content J t c = Err e"
  shows "t \<in> set CALL_EVENT_TYPES \<and> (\<exists>r. e = InvalidContent t r)"
  using assms
  by (auto simp: parse_content_def deserialize_def CALL_EVENT_TYPES_def map_sum_convs
      split: if_splits)

text \<open>
  The parser is total and never mislabels an event: a parse that succeeds yields an
  event whose type is the string in the envelope's \<open>type\<close> field, which starts with
  \<open>m.call.\<close>; an envelope whose type does not start with \<open>m.call.\<close> is rejected as not a
  call event; and a call event of a type outside the five recognised ones is never an
  error but surfaces as unknown, whatever its content.
\<close>

lemma parse_value_classifies:
  assumes "Option.bind (json_get J event ''type'') (json_as_str J) = Some t"
  shows "(parse_value J event = Okay ev \<longrightarrow> parsed_event_type ev = t \<and> is_call_event t)
    \<and> (parse_value J event = Err (NotACallEvent t) \<longleftrightarrow> \<not> is_call_event t)
    \<and> (is_call_event t \<and> t \<notin> set CALL_EVENT_TYPES
         \<longrightarrow> parse_value J event = Okay (ParsedUnknown t))"
proof (intro conjI impI)
  assume "parse_value J event = Okay ev"
  with assms show "parsed_event_type ev = t" and "is_call_event t"
    by (auto simp: parse_value_def split: if_splits dest: parse_content_event_type)
next
  show "parse_value J event = Err (NotACallEvent t) \<longleftrightarrow> \<not> is_call_event t"
    using assms by (auto simp: parse_value_def Let_def dest: parse_content_call_error)
next
  assume "is_call_event t \<and> t \<notin> set CALL_EVENT_TYPES"
  with assms show "parse_value J event = Okay (ParsedUnknown t)"
    by (simp add: parse_value_def Let_def parse_content_unknown)
qed

text \<open>A small JSON library, to exercise the parser on concrete envelopes.\<close>

datatype sample_json = SNull | SStr str | SObj "(str \<times> sample_json) list"

definition sample_json_lib :: "sample_json json_lib" where
  "sample_json_lib =
     \<lparr>from_str = (\<lambda>_. Err ''eof''),
      json_get = (\<lambda>v k. case v of SObj kvs \<Rightarrow> map_of kvs k | _ \<Rightarrow> None),
      json_as_str = (\<lambda>v. case v of SStr s \<Rightarrow> Some s | _ \<Rightarrow> None),
      json_null = SNull,
      de_invite = (\<lambda>_. Err ''invite''), de_answer = (\<lambda>_. Err ''answer''),
      de_candidates = (\<lambda>_. Err ''candidates''),
      de_hangup = (\<lambda>v. case v of SObj _ \<Rightarrow> Okay (build_hangup ''c'' ''p'' None) | _ \<Rightarrow> Err ''hangup''),
      de_select_answer = (\<lambda>_. Err ''select_answer'')\<rparr>"

lemma parse_value_classifies_example:
  "parse_value sample_json_lib (SObj [(''type'', SStr ''m.call.reject'')])
     = Okay (ParsedUnknown ''m.call.reject'')
   \<and> parse_value sample_json_lib (SObj [(''type'', SStr ''m.room.message'')])
     = Err (NotACallEvent ''m.room.message'')"
  using parse_value_classifies
      [of sample_json_lib "SObj [(''type'', SStr ''m.call.reject'')]" "''m.call.reject''"]
    parse_value_classifies
      [of sample_json_lib "SObj [(''type'', SStr ''m.room.message'')]" "''m.room.message''"]
  by (simp add: sample_json_lib_def is_call_event_def CALL_EVENT_TYPES_def)

end
