(* ===== verification/P2P_State.thy ===== *)
theory P2P_State
  imports Glare Signaling
begin

section \<open>The P2P state machine\<close>

text \<open>
  The model of \<open>crates/mxdx-p2p/src/transport/state.rs\<close>: the nine states, the events,
  the commands and the pure transition table. The table is one function per state, each
  in the order of the source's match arms, and \<open>transition\<close> composes them behind the
  pre-filter for hangups. \<open>Instant::now()\<close> is a reading of the clock parameter: the
  \<open>i\<close>-th call inside one transition is \<open>clk i\<close>. The theorems are the safety and
  lifecycle guarantees of the table: how a session becomes open, how a call keeps its
  identity and is torn down, what telemetry reports, and when a failed session may be
  retried.
\<close>

type_synonym clock = "nat \<Rightarrow> instant"

definition DEFAULT_RETRY_AFTER :: duration where
  "DEFAULT_RETRY_AFTER = from_secs 30"

definition ICE_TIMEOUT_RETRY_AFTER :: duration where
  "ICE_TIMEOUT_RETRY_AFTER = from_secs 60"

definition DECRYPT_STORM_RETRY_AFTER :: duration where
  "DECRYPT_STORM_RETRY_AFTER = from_secs 60"

subsection \<open>States, events, commands\<close>

datatype P2PState =
    Idle
  | FetchingTurn (ft_since: instant)
  | Inviting (in_call: str) (in_started: instant) (in_our_offer: Sdp) (in_our_party: str)
      (in_lifetime_ms: nat)
  | Answering (an_call: str) (an_party: str) (an_their_party: str)
  | Glare (gl_our_call: str) (gl_their_call: str) (gl_resolution: GlareResult)
  | Connecting (co_call: str) (co_our_party: str) (co_ice_started: instant)
  | Verifying (ve_call: str) (ve_our_party: str) (ve_our_nonce: bytes)
  | Open (op_call: str) (op_last_io: instant)
  | Failed (fa_reason: str) (fa_retry_after: instant)

fun state_name :: "P2PState \<Rightarrow> str" where
  "state_name Idle = ''Idle''"
| "state_name (FetchingTurn _) = ''FetchingTurn''"
| "state_name (Inviting _ _ _ _ _) = ''Inviting''"
| "state_name (Answering _ _ _) = ''Answering''"
| "state_name (Glare _ _ _) = ''Glare''"
| "state_name (Connecting _ _ _) = ''Connecting''"
| "state_name (Verifying _ _ _) = ''Verifying''"
| "state_name (Open _ _) = ''Open''"
| "state_name (Failed _ _) = ''Failed''"

fun is_open :: "P2PState \<Rightarrow> bool" where
  "is_open (Open _ _) = True"
| "is_open _ = False"

datatype VerifyFailureReason =
    SignatureMismatch
  | ReplayDetected
  | Timeout
  | InvalidPayload
  | DeviceLockedOut

datatype Event =
    Start str "str option" str str str "str option"
  | Hangup str
  | TurnRefreshed "IceServer list"
  | TurnExpired
  | CallEventReceived ParsedCallEvent
  | ChannelEvt ChannelEvent
  | OutboundPressure
  | IdleTick
  | InviteTimeout
  | IceTimeout
  | VerifyOk
  | VerifyFail VerifyFailureReason
  | DecryptStorm
  | RetryReady

datatype SecurityEventKind =
    SecVerifyFailure
  | SecDecryptStorm
  | SecReplayDetected
  | SecWrongPeer

datatype TelemetryKind =
    StateTransition str str str
  | HandshakeCompleted nat nat nat
  | TurnRefresh str
  | Fallback str
  | SecurityEvent SecurityEventKind "str option"

datatype ScheduledEvent = SchedInviteTimeout | SchedIceTimeout | SchedRetryReady

datatype Command =
    SendInvite str str Sdp nat "str option"
  | SendAnswer str str Sdp
  | SendCandidates str str "IceCandidate list"
  | SendHangup str str str
  | SendSelectAnswer str str str
  | BeginFetchTurn
  | StartVerifying bytes
  | TearDownChannel str
  | ConfigureIceServers "IceServer list"
  | Schedule instant ScheduledEvent
  | ResetIdle
  | EmitTelemetry TelemetryKind
  | LockoutDevice str
  | DrainOutbound

datatype TransitionResult = Ok P2PState "Command list" | Illegal str

definition stay :: "P2PState \<Rightarrow> TransitionResult" where
  "stay current = Ok current []"

fun current_call :: "P2PState \<Rightarrow> (str \<times> str) option" where
  "current_call Idle = None"
| "current_call (FetchingTurn _) = None"
| "current_call (Failed _ _) = None"
| "current_call (Inviting call_id _ _ our_party_id _) = Some (call_id, our_party_id)"
| "current_call (Connecting call_id our_party_id _) = Some (call_id, our_party_id)"
| "current_call (Verifying call_id our_party_id _) = Some (call_id, our_party_id)"
| "current_call (Answering call_id party_id _) = Some (call_id, party_id)"
| "current_call (Glare our_call _ _) = Some (our_call, ''<pending>'')"
| "current_call (Open call_id _) = Some (call_id, ''<current>'')"

subsection \<open>The transition table, one function per state\<close>

fun idle_transition :: "clock \<Rightarrow> P2PState \<Rightarrow> Event \<Rightarrow> TransitionResult" where
  "idle_transition clk state (Start _ _ _ _ _ _) =
     Ok (FetchingTurn (clk 0))
       [BeginFetchTurn,
        EmitTelemetry (StateTransition ''Idle'' ''FetchingTurn'' ''start'')]"
| "idle_transition clk state (CallEventReceived (ParsedInvite invite)) =
     Ok (Answering (inv_call_id invite) ''our-party'' (inv_party_id invite))
       [BeginFetchTurn,
        EmitTelemetry (StateTransition ''Idle'' ''Answering'' ''peer_invite'')]"
| "idle_transition clk state _ = stay state"

fun fetching_turn_transition :: "clock \<Rightarrow> P2PState \<Rightarrow> Event \<Rightarrow> TransitionResult" where
  "fetching_turn_transition clk state (TurnRefreshed servers) =
     (let call_id = ''<pending>'';
          party_id = ''<pending>'';
          sdp = \<lparr>sdp_kind = Offer, sdp_text = ''''\<rparr>;
          next_state = Inviting call_id (clk 0) sdp party_id DEFAULT_INVITE_LIFETIME_MS
      in Ok next_state
           [ConfigureIceServers servers,
            SendInvite call_id party_id sdp DEFAULT_INVITE_LIFETIME_MS None,
            Schedule (clk 1 + from_millis DEFAULT_INVITE_LIFETIME_MS) SchedInviteTimeout,
            EmitTelemetry (StateTransition ''FetchingTurn'' ''Inviting'' ''turn_ready'')])"
| "fetching_turn_transition clk state TurnExpired =
     Ok (Failed ''turn_expired'' (clk 0 + DEFAULT_RETRY_AFTER))
       [EmitTelemetry (Fallback ''turn_expired''),
        EmitTelemetry (StateTransition ''FetchingTurn'' ''Failed'' ''turn_expired'')]"
| "fetching_turn_transition clk state (CallEventReceived (ParsedInvite invite)) =
     Ok (Answering (inv_call_id invite) ''<pending>'' (inv_party_id invite))
       [EmitTelemetry
          (StateTransition ''FetchingTurn'' ''Answering'' ''peer_invite_preempts_turn'')]"
| "fetching_turn_transition clk state InviteTimeout =
     Illegal ''fetching_turn_timer_events_dropped''"
| "fetching_turn_transition clk state IceTimeout =
     Illegal ''fetching_turn_timer_events_dropped''"
| "fetching_turn_transition clk state VerifyOk =
     Illegal ''fetching_turn_timer_events_dropped''"
| "fetching_turn_transition clk state (VerifyFail _) =
     Illegal ''fetching_turn_timer_events_dropped''"
| "fetching_turn_transition clk state (Start _ _ _ _ _ _) =
     Illegal ''double_start_while_fetching_turn''"
| "fetching_turn_transition clk state _ = stay state"

fun inviting_transition ::
  "clock \<Rightarrow> P2PState \<Rightarrow> str \<Rightarrow> str \<Rightarrow> Event \<Rightarrow> TransitionResult" where
  "inviting_transition clk state call_id our_party_id (CallEventReceived (ParsedAnswer ans)) =
     (if ans_call_id ans \<noteq> call_id then Illegal ''inviting_answer_call_id_mismatch''
      else
        Ok (Connecting call_id our_party_id (clk 0))
          [Schedule (clk 1 + from_secs 30) SchedIceTimeout,
           EmitTelemetry (StateTransition ''Inviting'' ''Connecting'' ''answer_received'')])"
| "inviting_transition clk state call_id our_party_id (CallEventReceived (ParsedInvite invite)) =
     Ok (Glare call_id (inv_call_id invite) WeWin)
       [EmitTelemetry (StateTransition ''Inviting'' ''Glare'' ''concurrent_invites'')]"
| "inviting_transition clk state call_id our_party_id InviteTimeout =
     Ok (Failed ''invite_timeout'' (clk 0 + DEFAULT_RETRY_AFTER))
       [SendHangup call_id our_party_id ''invite_timeout'',
        TearDownChannel ''invite_timeout'',
        EmitTelemetry (StateTransition ''Inviting'' ''Failed'' ''invite_timeout'')]"
| "inviting_transition clk state call_id our_party_id (CallEventReceived (ParsedHangup _)) =
     Ok (Failed ''peer_hangup'' (clk 0 + DEFAULT_RETRY_AFTER))
       [TearDownChannel ''peer_hangup'',
        EmitTelemetry (StateTransition ''Inviting'' ''Failed'' ''peer_hangup'')]"
| "inviting_transition clk state call_id our_party_id VerifyOk =
     Illegal ''inviting_post_verify_events_dropped''"
| "inviting_transition clk state call_id our_party_id (VerifyFail _) =
     Illegal ''inviting_post_verify_events_dropped''"
| "inviting_transition clk state call_id our_party_id DecryptStorm =
     Illegal ''inviting_post_verify_events_dropped''"
| "inviting_transition clk state call_id our_party_id (Start _ _ _ _ _ _) =
     Illegal ''double_start_while_inviting''"
| "inviting_transition clk state call_id our_party_id _ = stay state"

fun answering_transition ::
  "clock \<Rightarrow> P2PState \<Rightarrow> str \<Rightarrow> str \<Rightarrow> Event \<Rightarrow> TransitionResult" where
  "answering_transition clk state call_id party_id (ChannelEvt ChOpen) =
     Ok (Verifying call_id party_id (replicate 32 0))
       [StartVerifying (replicate 32 0),
        EmitTelemetry (StateTransition ''Answering'' ''Verifying'' ''channel_open'')]"
| "answering_transition clk state call_id party_id (CallEventReceived (ParsedHangup _)) =
     Ok (Failed ''peer_hangup'' (clk 0 + DEFAULT_RETRY_AFTER))
       [TearDownChannel ''peer_hangup'',
        EmitTelemetry (StateTransition ''Answering'' ''Failed'' ''peer_hangup'')]"
| "answering_transition clk state call_id party_id (ChannelEvt (ChFailure msg)) =
     Ok (Failed (''channel_failure:'' @ msg) (clk 0 + ICE_TIMEOUT_RETRY_AFTER))
       [TearDownChannel ''channel_failure'',
        EmitTelemetry (StateTransition ''Answering'' ''Failed'' ''channel_failure'')]"
| "answering_transition clk state call_id party_id VerifyOk =
     Illegal ''answering_post_verify_events_dropped''"
| "answering_transition clk state call_id party_id (VerifyFail _) =
     Illegal ''answering_post_verify_events_dropped''"
| "answering_transition clk state call_id party_id DecryptStorm =
     Illegal ''answering_post_verify_events_dropped''"
| "answering_transition clk state call_id party_id (Start _ _ _ _ _ _) =
     Illegal ''double_start_while_answering''"
| "answering_transition clk state call_id party_id _ = stay state"

fun connecting_transition ::
  "clock \<Rightarrow> P2PState \<Rightarrow> str \<Rightarrow> str \<Rightarrow> Event \<Rightarrow> TransitionResult" where
  "connecting_transition clk state call_id our_party_id (ChannelEvt ChOpen) =
     Ok (Verifying call_id our_party_id (replicate 32 0))
       [StartVerifying (replicate 32 0),
        EmitTelemetry (StateTransition ''Connecting'' ''Verifying'' ''channel_open'')]"
| "connecting_transition clk state call_id our_party_id IceTimeout =
     Ok (Failed ''ice_timeout'' (clk 0 + ICE_TIMEOUT_RETRY_AFTER))
       [SendHangup call_id our_party_id ''ice_timeout'',
        TearDownChannel ''ice_timeout'',
        EmitTelemetry (StateTransition ''Connecting'' ''Failed'' ''ice_timeout'')]"
| "connecting_transition clk state call_id our_party_id (CallEventReceived (ParsedHangup _)) =
     Ok (Failed ''peer_hangup'' (clk 0 + DEFAULT_RETRY_AFTER))
       [TearDownChannel ''peer_hangup'',
        EmitTelemetry (StateTransition ''Connecting'' ''Failed'' ''peer_hangup'')]"
| "connecting_transition clk state call_id our_party_id (ChannelEvt (ChFailure msg)) =
     Ok (Failed (''channel_failure:'' @ msg) (clk 0 + ICE_TIMEOUT_RETRY_AFTER))
       [TearDownChannel ''channel_failure'',
        EmitTelemetry (StateTransition ''Connecting'' ''Failed'' ''channel_failure'')]"
| "connecting_transition clk state call_id our_party_id VerifyOk =
     Illegal ''connecting_post_verify_events_dropped''"
| "connecting_transition clk state call_id our_party_id (VerifyFail _) =
     Illegal ''connecting_post_verify_events_dropped''"
| "connecting_transition clk state call_id our_party_id DecryptStorm =
     Illegal ''connecting_post_verify_events_dropped''"
| "connecting_transition clk state call_id our_party_id (Start _ _ _ _ _ _) =
     Illegal ''double_start_while_connecting''"
| "connecting_transition clk state call_id our_party_id _ = stay state"

fun verify_fail_details :: "VerifyFailureReason \<Rightarrow> SecurityEventKind \<times> str" where
  "verify_fail_details SignatureMismatch = (SecVerifyFailure, ''verify_failure'')"
| "verify_fail_details ReplayDetected = (SecReplayDetected, ''replay_detected'')"
| "verify_fail_details Timeout = (SecVerifyFailure, ''verify_timeout'')"
| "verify_fail_details InvalidPayload = (SecVerifyFailure, ''verify_invalid_payload'')"
| "verify_fail_details DeviceLockedOut = (SecWrongPeer, ''device_locked_out'')"

fun verifying_transition ::
  "clock \<Rightarrow> P2PState \<Rightarrow> str \<Rightarrow> str \<Rightarrow> Event \<Rightarrow> TransitionResult" where
  "verifying_transition clk state call_id our_party_id VerifyOk =
     Ok (Open call_id (clk 0))
       [ResetIdle,
        DrainOutbound,
        EmitTelemetry (StateTransition ''Verifying'' ''Open'' ''verify_ok''),
        EmitTelemetry (HandshakeCompleted 0 0 0)]"
| "verifying_transition clk state call_id our_party_id (VerifyFail reason) =
     (let retry_after = clk 0 + DEFAULT_RETRY_AFTER;
          (security_kind, reason_str) = verify_fail_details reason
      in Ok (Failed reason_str retry_after)
           [SendHangup call_id our_party_id reason_str,
            TearDownChannel reason_str,
            EmitTelemetry (SecurityEvent security_kind None),
            EmitTelemetry (StateTransition ''Verifying'' ''Failed'' reason_str)])"
| "verifying_transition clk state call_id our_party_id (ChannelEvt (ChClosed reason)) =
     Ok (Failed (''channel_closed_during_verify:'' @ reason) (clk 0 + DEFAULT_RETRY_AFTER))
       [EmitTelemetry (StateTransition ''Verifying'' ''Failed'' ''channel_closed'')]"
| "verifying_transition clk state call_id our_party_id (ChannelEvt (ChFailure msg)) =
     Ok (Failed (''channel_failure:'' @ msg) (clk 0 + ICE_TIMEOUT_RETRY_AFTER))
       [TearDownChannel ''channel_failure'',
        EmitTelemetry (StateTransition ''Verifying'' ''Failed'' ''channel_failure'')]"
| "verifying_transition clk state call_id our_party_id (CallEventReceived (ParsedHangup _)) =
     Ok (Failed ''peer_hangup'' (clk 0 + DEFAULT_RETRY_AFTER))
       [TearDownChannel ''peer_hangup'',
        EmitTelemetry (StateTransition ''Verifying'' ''Failed'' ''peer_hangup'')]"
| "verifying_transition clk state call_id our_party_id InviteTimeout =
     Illegal ''verifying_unexpected_timer''"
| "verifying_transition clk state call_id our_party_id IceTimeout =
     Illegal ''verifying_unexpected_timer''"
| "verifying_transition clk state call_id our_party_id DecryptStorm =
     Illegal ''verifying_unexpected_timer''"
| "verifying_transition clk state call_id our_party_id (Start _ _ _ _ _ _) =
     Illegal ''double_start_while_verifying''"
| "verifying_transition clk state call_id our_party_id _ = stay state"

fun open_transition :: "clock \<Rightarrow> P2PState \<Rightarrow> str \<Rightarrow> Event \<Rightarrow> TransitionResult" where
  "open_transition clk state call_id OutboundPressure = Ok (Open call_id (clk 0)) [ResetIdle]"
| "open_transition clk state call_id (ChannelEvt (ChMessage _)) =
     Ok (Open call_id (clk 0)) [ResetIdle]"
| "open_transition clk state call_id IdleTick =
     Ok Idle
       [SendHangup call_id ''<current>'' ''idle_timeout'',
        TearDownChannel ''idle_timeout'',
        EmitTelemetry (StateTransition ''Open'' ''Idle'' ''idle_timeout'')]"
| "open_transition clk state call_id (TurnRefreshed servers) =
     Ok state [ConfigureIceServers servers]"
| "open_transition clk state call_id TurnExpired =
     Ok (Failed ''turn_expired'' (clk 0 + DEFAULT_RETRY_AFTER))
       [SendHangup call_id ''<current>'' ''turn_expired'',
        TearDownChannel ''turn_expired'',
        EmitTelemetry (StateTransition ''Open'' ''Failed'' ''turn_expired'')]"
| "open_transition clk state call_id DecryptStorm =
     Ok (Failed ''decrypt_storm'' (clk 0 + DECRYPT_STORM_RETRY_AFTER))
       [SendHangup call_id ''<current>'' ''decrypt_storm'',
        TearDownChannel ''decrypt_storm'',
        EmitTelemetry (SecurityEvent SecDecryptStorm None),
        EmitTelemetry (StateTransition ''Open'' ''Failed'' ''decrypt_storm'')]"
| "open_transition clk state call_id (CallEventReceived (ParsedHangup _)) =
     Ok Idle
       [TearDownChannel ''peer_hangup'',
        EmitTelemetry (StateTransition ''Open'' ''Idle'' ''peer_hangup'')]"
| "open_transition clk state call_id (ChannelEvt (ChClosed reason)) =
     Ok Idle
       [EmitTelemetry (StateTransition ''Open'' ''Idle'' (''channel_closed:'' @ reason))]"
| "open_transition clk state call_id (ChannelEvt (ChFailure msg)) =
     Ok (Failed (''channel_failure:'' @ msg) (clk 0 + DEFAULT_RETRY_AFTER))
       [TearDownChannel ''channel_failure'',
        EmitTelemetry (StateTransition ''Open'' ''Failed'' ''channel_failure'')]"
| "open_transition clk state call_id InviteTimeout = Illegal ''open_timer_events_dropped''"
| "open_transition clk state call_id IceTimeout = Illegal ''open_timer_events_dropped''"
| "open_transition clk state call_id VerifyOk = Illegal ''open_timer_events_dropped''"
| "open_transition clk state call_id (VerifyFail _) = Illegal ''open_timer_events_dropped''"
| "open_transition clk state call_id (Start _ _ _ _ _ _) = Illegal ''double_start_while_open''"
| "open_transition clk state call_id _ = stay state"

fun failed_transition :: "clock \<Rightarrow> P2PState \<Rightarrow> instant \<Rightarrow> Event \<Rightarrow> TransitionResult" where
  "failed_transition clk state retry_after RetryReady =
     (let now = clk 0
      in if now \<ge> retry_after then
           Ok Idle [EmitTelemetry (StateTransition ''Failed'' ''Idle'' ''retry_ready'')]
         else stay state)"
| "failed_transition clk state retry_after (Start _ _ _ _ _ _) =
     Ok (FetchingTurn (clk 0))
       [BeginFetchTurn,
        EmitTelemetry (StateTransition ''Failed'' ''FetchingTurn'' ''start_from_failed'')]"
| "failed_transition clk state retry_after (CallEventReceived (ParsedInvite invite)) =
     Ok (Answering (inv_call_id invite) ''<pending>'' (inv_party_id invite))
       [EmitTelemetry (StateTransition ''Failed'' ''Answering'' ''peer_invite'')]"
| "failed_transition clk state retry_after _ = stay state"

definition hangup_transition :: "P2PState \<Rightarrow> str \<Rightarrow> TransitionResult" where
  "hangup_transition state reason =
     Ok Idle
       ((case current_call state of
           Some (call_id, party_id) \<Rightarrow>
             [SendHangup call_id party_id reason, TearDownChannel reason]
         | None \<Rightarrow> []) @
        [EmitTelemetry (StateTransition (state_name state) ''Idle'' reason)])"

definition transition :: "clock \<Rightarrow> P2PState \<Rightarrow> Event \<Rightarrow> TransitionResult" where
  "transition clk state event =
     (case event of
        Hangup reason \<Rightarrow> hangup_transition state reason
      | _ \<Rightarrow>
          (case state of
             Idle \<Rightarrow> idle_transition clk state event
           | FetchingTurn _ \<Rightarrow> fetching_turn_transition clk state event
           | Inviting call_id _ _ our_party_id _ \<Rightarrow>
               inviting_transition clk state call_id our_party_id event
           | Answering call_id party_id _ \<Rightarrow>
               answering_transition clk state call_id party_id event
           | Glare _ _ _ \<Rightarrow> stay state
           | Connecting call_id our_party_id _ \<Rightarrow>
               connecting_transition clk state call_id our_party_id event
           | Verifying call_id our_party_id _ \<Rightarrow>
               verifying_transition clk state call_id our_party_id event
           | Open call_id _ \<Rightarrow> open_transition clk state call_id event
           | Failed _ retry_after \<Rightarrow> failed_transition clk state retry_after event))"

subsection \<open>Case analysis over the table\<close>

lemma event_full_cases
  [case_names Start Hangup TurnRefreshed TurnExpired Invite AnswerEv Candidates HangupEv
     SelectAnswer Unknown LocalIce Message ChOpen Closed Failure OutboundPressure IdleTick
     InviteTimeout IceTimeout VerifyOk VerifyFail DecryptStorm RetryReady]:
  obtains (1) p d u v r i where "e = Start p d u v r i"
  | (2) r where "e = Hangup r"
  | (3) ss where "e = TurnRefreshed ss"
  | (4) "e = TurnExpired"
  | (5) i where "e = CallEventReceived (ParsedInvite i)"
  | (6) a where "e = CallEventReceived (ParsedAnswer a)"
  | (7) c where "e = CallEventReceived (ParsedCandidates c)"
  | (8) h where "e = CallEventReceived (ParsedHangup h)"
  | (9) a where "e = CallEventReceived (ParsedSelectAnswer a)"
  | (10) t where "e = CallEventReceived (ParsedUnknown t)"
  | (11) c where "e = ChannelEvt (ChLocalIce c)"
  | (12) b where "e = ChannelEvt (ChMessage b)"
  | (13) "e = ChannelEvt ChOpen"
  | (14) r where "e = ChannelEvt (ChClosed r)"
  | (15) m where "e = ChannelEvt (ChFailure m)"
  | (16) "e = OutboundPressure"
  | (17) "e = IdleTick"
  | (18) "e = InviteTimeout"
  | (19) "e = IceTimeout"
  | (20) "e = VerifyOk"
  | (21) r where "e = VerifyFail r"
  | (22) "e = DecryptStorm"
  | (23) "e = RetryReady"
proof (cases e)
  case (CallEventReceived ev)
  then show ?thesis by (cases ev) (use that in blast)+
next
  case (ChannelEvt ev)
  then show ?thesis by (cases ev) (use that in blast)+
qed (use that in blast)+

lemmas transition_defs = transition_def hangup_transition_def stay_def

lemma transition_Hangup [simp]:
  "transition clk s (Hangup r) = hangup_transition s r"
  by (simp add: transition_def)

lemma transition_Glare:
  "(\<exists>r. e = Hangup r) \<or> transition clk (Glare a b g) e = Ok (Glare a b g) []"
  by (cases e) (auto simp: transition_defs)

text \<open>Entering \<open>Open\<close> and staying there.\<close>

lemma transition_to_open:
  assumes "transition clk s e = Ok (Open c t) cs"
  shows "(\<exists>p n. s = Verifying c p n \<and> e = VerifyOk) \<or> (\<exists>t'. s = Open c t')"
  using assms
  by (cases s; cases e rule: event_full_cases)
     (auto simp: transition_defs Let_def split: if_splits prod.splits)

text \<open>Which commands accompany a change of state.\<close>

definition is_transition_telemetry :: "Command \<Rightarrow> bool" where
  "is_transition_telemetry c = (case c of EmitTelemetry (StateTransition _ _ _) \<Rightarrow> True | _ \<Rightarrow> False)"

lemma is_transition_telemetry_simps [simp]:
  "is_transition_telemetry (EmitTelemetry (StateTransition a b r))"
  "\<not> is_transition_telemetry (EmitTelemetry (HandshakeCompleted x y z))"
  "\<not> is_transition_telemetry (EmitTelemetry (TurnRefresh o'))"
  "\<not> is_transition_telemetry (EmitTelemetry (Fallback r))"
  "\<not> is_transition_telemetry (EmitTelemetry (SecurityEvent k q))"
  "\<not> is_transition_telemetry (SendInvite a b d n u)"
  "\<not> is_transition_telemetry (SendHangup a b r)"
  "\<not> is_transition_telemetry BeginFetchTurn"
  "\<not> is_transition_telemetry (StartVerifying bs)"
  "\<not> is_transition_telemetry (TearDownChannel r)"
  "\<not> is_transition_telemetry (ConfigureIceServers ss)"
  "\<not> is_transition_telemetry (Schedule i ev)"
  "\<not> is_transition_telemetry ResetIdle"
  "\<not> is_transition_telemetry DrainOutbound"
  by (simp_all add: is_transition_telemetry_def)

lemma transition_telemetry_table:
  assumes "transition clk s e = Ok s' cs"
  shows "(\<exists>r. filter is_transition_telemetry cs =
             [EmitTelemetry (StateTransition (state_name s) (state_name s') r)])
       \<or> (state_name s' = state_name s \<and> filter is_transition_telemetry cs = [])"
  using assms
  by (cases s; cases e rule: event_full_cases)
     (auto simp: transition_defs Let_def split: if_splits prod.splits option.splits)

lemma transition_call_table:
  assumes "transition clk s e = Ok s' cs" and "current_call s = Some (c, p)"
  shows "(\<exists>p'. current_call s' = Some (c, p'))
       \<or> (current_call s' = None \<and> (s' = Idle \<or> (\<exists>r t. s' = Failed r t))
          \<and> ((\<exists>r. TearDownChannel r \<in> set cs) \<longleftrightarrow> \<not> (\<exists>r. e = ChannelEvt (ChClosed r))))"
  using assms
  by (cases s; cases e rule: event_full_cases)
     (auto simp: transition_defs Let_def split: if_splits prod.splits option.splits)

lemma transition_failed_table:
  assumes "transition clk s e = Ok (Failed r t) cs"
  shows "s = Failed r t \<or>
    (t = clk 0 + (if (\<exists>m. e = ChannelEvt (ChFailure m)) \<and> \<not> is_open s \<or> e = IceTimeout
                   \<or> e = DecryptStorm
                  then from_secs 60 else from_secs 30)
     \<and> s \<noteq> Idle \<and> \<not> (\<exists>a b g. s = Glare a b g) \<and> \<not> (\<exists>r' t'. s = Failed r' t'))"
  using assms
  by (cases s; cases e rule: event_full_cases)
     (auto simp: transition_defs Let_def DEFAULT_RETRY_AFTER_def ICE_TIMEOUT_RETRY_AFTER_def
        DECRYPT_STORM_RETRY_AFTER_def split: if_splits prod.splits option.splits)

lemma transition_leave_failed:
  assumes "transition clk (Failed r t) e = Ok s' cs" and "s' \<noteq> Failed r t"
  shows "(e = RetryReady \<and> t \<le> clk 0 \<and> s' = Idle) \<or> (\<exists>q. e = Hangup q) \<or>
         (\<exists>a b c d f g. e = Start a b c d f g) \<or> (\<exists>i. e = CallEventReceived (ParsedInvite i))"
  using assms
  by (cases e rule: event_full_cases) (auto simp: transition_defs Let_def split: if_splits)

text \<open>The pairs the table refuses.\<close>

definition refused :: "P2PState \<Rightarrow> Event \<Rightarrow> bool" where
  "refused s e \<longleftrightarrow>
     (case e of
        Start _ _ _ _ _ _ \<Rightarrow>
          state_name s \<in> {''FetchingTurn'', ''Inviting'', ''Answering'', ''Connecting'',
                           ''Verifying'', ''Open''}
      | CallEventReceived (ParsedAnswer a) \<Rightarrow>
          state_name s = ''Inviting'' \<and> ans_call_id a \<noteq> in_call s
      | InviteTimeout \<Rightarrow> state_name s \<in> {''FetchingTurn'', ''Verifying'', ''Open''}
      | IceTimeout \<Rightarrow> state_name s \<in> {''FetchingTurn'', ''Verifying'', ''Open''}
      | VerifyOk \<Rightarrow>
          state_name s \<in> {''FetchingTurn'', ''Inviting'', ''Answering'', ''Connecting'', ''Open''}
      | VerifyFail _ \<Rightarrow>
          state_name s \<in> {''FetchingTurn'', ''Inviting'', ''Answering'', ''Connecting'', ''Open''}
      | DecryptStorm \<Rightarrow>
          state_name s \<in> {''Inviting'', ''Answering'', ''Connecting'', ''Verifying''}
      | _ \<Rightarrow> False)"

subsection \<open>Runs\<close>

text \<open>
  The cursor of the machine over a sequence of events: a refused event leaves the state
  as it is, which is what the driver does with an illegal transition.
\<close>

definition next_state :: "clock \<Rightarrow> P2PState \<Rightarrow> Event \<Rightarrow> P2PState" where
  "next_state clk s e = (case transition clk s e of Ok s' _ \<Rightarrow> s' | Illegal _ \<Rightarrow> s)"

fun run :: "P2PState \<Rightarrow> (clock \<times> Event) list \<Rightarrow> P2PState" where
  "run s [] = s"
| "run s ((clk, e) # es) = run (next_state clk s e) es"

lemma run_append [simp]: "run s (xs @ ys) = run (run s xs) ys"
  by (induction s xs rule: run.induct) simp_all

lemma next_state_cases:
  obtains cs where "transition clk s e = Ok (next_state clk s e) cs"
  | msg where "transition clk s e = Illegal msg" and "next_state clk s e = s"
  by (cases "transition clk s e") (auto simp: next_state_def)

text \<open>A property that holds at the end of a run was entered once for all.\<close>

lemma run_last_entry:
  assumes "Q (run s es)" and "\<not> Q s"
  shows "\<exists>pre k e post. es = pre @ (k, e) # post \<and> \<not> Q (run s pre)
           \<and> Q (next_state k (run s pre) e)
           \<and> (\<forall>q r. post = q @ r \<longrightarrow> Q (run s (pre @ (k, e) # q)))"
  using assms(1)
proof (induction es rule: rev_induct)
  case Nil
  with assms(2) show ?case by simp
next
  case (snoc x es)
  obtain k e where x: "x = (k, e)" by (cases x)
  show ?case
  proof (cases "Q (run s es)")
    case False
    with snoc.prems x show ?thesis
      by (intro exI [of _ es] exI [of _ k] exI [of _ e] exI [of _ "[]"]) simp
  next
    case True
    from snoc.IH [OF True] obtain pre k' e' post where es: "es = pre @ (k', e') # post"
      and first: "\<not> Q (run s pre)" "Q (next_state k' (run s pre) e')"
      and keep: "\<forall>q r. post = q @ r \<longrightarrow> Q (run s (pre @ (k', e') # q))"
      by blast
    have "Q (run s (pre @ (k', e') # q))" if "post @ [x] = q @ r" for q r
    proof (cases r rule: rev_cases)
      case Nil
      with that snoc.prems es show ?thesis by simp
    next
      case (snoc r' y)
      with that have "post = q @ r'" by simp
      with keep show ?thesis by blast
    qed
    with es first show ?thesis
      by (intro exI [of _ pre] exI [of _ k'] exI [of _ e'] exI [of _ "post @ [x]"]) auto
  qed
qed

lemma next_state_to_open:
  assumes "next_state k s e = Open c t"
  shows "(\<exists>p n. s = Verifying c p n \<and> e = VerifyOk) \<or> (\<exists>t'. s = Open c t')"
  using assms by (cases rule: next_state_cases [of k s e]) (auto dest: transition_to_open)

lemma transition_to_verifying:
  assumes "transition k s e = Ok (Verifying c p n) cs"
  shows "s = Verifying c p n
    \<or> (current_call s = Some (c, p) \<and> e = ChannelEvt ChOpen \<and> n = replicate 32 0)"
  using assms
  by (cases s; cases e rule: event_full_cases)
     (auto simp: transition_defs Let_def split: if_splits prod.splits option.splits)

lemma transition_to_inviting:
  assumes "transition k s e = Ok (Inviting c t off p l) cs"
  shows "s = Inviting c t off p l
    \<or> (c = ''<pending>'' \<and> p = ''<pending>'' \<and> sdp_text off = '''')"
  using assms
  by (cases s; cases e rule: event_full_cases)
     (auto simp: transition_defs Let_def split: if_splits prod.splits option.splits)

lemma next_state_to_verifying:
  assumes "next_state k s e = Verifying c p n"
  shows "s = Verifying c p n
    \<or> (current_call s = Some (c, p) \<and> e = ChannelEvt ChOpen \<and> n = replicate 32 0)"
  using assms by (cases rule: next_state_cases [of k s e]) (auto dest: transition_to_verifying)

text \<open>The states a machine that starts idle can be in.\<close>

inductive reachable :: "P2PState \<Rightarrow> bool" where
  start: "reachable Idle"
| step: "reachable s \<Longrightarrow> transition clk s e = Ok s' cs \<Longrightarrow> reachable s'"

lemma reachable_next_state: "reachable s \<Longrightarrow> reachable (next_state k s e)"
  by (cases rule: next_state_cases [of k s e]) (auto intro: reachable.step)

lemma reachable_run: "reachable s \<Longrightarrow> reachable (run s es)"
  by (induction s es rule: run.induct) (auto intro: reachable_next_state)

subsection \<open>Guarantees of the table\<close>

text \<open>
  C1. No session is open without a verified handshake. Whenever any sequence of events,
  with any clock readings, brings the machine from \<open>Idle\<close> to \<open>Open\<close> on a call, the
  sequence contains a channel-open event received while that call was being answered or
  connected, followed by a \<open>VerifyOk\<close> received in the \<open>Verifying\<close> state of the same call
  and party, and the session has stayed open on that call ever since.
\<close>

theorem open_only_after_verify:
  assumes "run Idle es = Open c t"
  shows "\<exists>pre k1 mid k2 post p n.
    es = pre @ (k1, ChannelEvt ChOpen) # mid @ (k2, VerifyOk) # post
    \<and> current_call (run Idle pre) = Some (c, p)
    \<and> run Idle (pre @ (k1, ChannelEvt ChOpen) # mid) = Verifying c p n
    \<and> (\<forall>q r. post = q @ r \<longrightarrow>
         (\<exists>t'. run Idle (pre @ (k1, ChannelEvt ChOpen) # mid @ (k2, VerifyOk) # q) = Open c t'))"
proof -
  let ?open = "\<lambda>s. \<exists>t'. s = Open c t'"
  from run_last_entry [of ?open Idle es] assms obtain front k2 e2 post
    where es: "es = front @ (k2, e2) # post" and nopen: "\<not> ?open (run Idle front)"
      and opens: "?open (next_state k2 (run Idle front) e2)"
      and keep: "\<forall>q r. post = q @ r \<longrightarrow> ?open (run Idle (front @ (k2, e2) # q))"
    by auto
  from opens nopen obtain p n where ver: "run Idle front = Verifying c p n" and e2: "e2 = VerifyOk"
    by (auto dest: next_state_to_open)
  let ?ver = "\<lambda>s. s = Verifying c p n"
  from run_last_entry [of ?ver Idle front] ver obtain pre k1 e1 mid
    where front: "front = pre @ (k1, e1) # mid" and nver: "\<not> ?ver (run Idle pre)"
      and enter: "next_state k1 (run Idle pre) e1 = Verifying c p n"
    by auto
  from next_state_to_verifying [OF enter] nver
  have "current_call (run Idle pre) = Some (c, p)" and e1: "e1 = ChannelEvt ChOpen"
    by auto
  with es front e2 ver keep show ?thesis
    by (intro exI [of _ pre] exI [of _ k1] exI [of _ mid] exI [of _ k2] exI [of _ post]
        exI [of _ p] exI [of _ n]) auto
qed

theorem open_only_after_verify_witness:
  "\<exists>pre k1 mid k2 post p n.
    [(\<lambda>_. 0, CallEventReceived (ParsedInvite (build_invite ''c'' ''q'' ''s'' ''k'' 9 None))),
     (\<lambda>_. 1, ChannelEvt ChOpen), (\<lambda>_. 2, VerifyOk), (\<lambda>_. 3 :: instant, OutboundPressure)]
      = pre @ (k1, ChannelEvt ChOpen) # mid @ (k2, VerifyOk) # post
    \<and> current_call (run Idle pre) = Some (''c'', p)
    \<and> run Idle (pre @ (k1, ChannelEvt ChOpen) # mid) = Verifying ''c'' p n
    \<and> (\<forall>q r. post = q @ r \<longrightarrow>
         (\<exists>t'. run Idle (pre @ (k1, ChannelEvt ChOpen) # mid @ (k2, VerifyOk) # q)
            = Open ''c'' t'))"
  by (rule open_only_after_verify [where t = 3])
     (simp add: next_state_def transition_defs build_invite_def)


lemma transition_call_begin:
  assumes "transition clk s e = Ok s' cs" and "current_call s = None"
    and "current_call s' = Some (c, p)"
  shows "(\<exists>i. e = CallEventReceived (ParsedInvite i) \<and> c = inv_call_id i
            \<and> s' = Answering c p (inv_party_id i))
       \<or> (\<exists>ss sdp l u. e = TurnRefreshed ss \<and> SendInvite c p sdp l u \<in> set cs)"
  using assms
  by (cases s; cases e rule: event_full_cases)
     (auto simp: transition_defs Let_def split: if_splits prod.splits option.splits)

text \<open>
  C6. A call has one identity and one end. A step of the machine that keeps a call keeps
  its \<open>call_id\<close>; a step that ends it goes to \<open>Idle\<close> or \<open>Failed\<close>, and it orders the channel
  to be torn down exactly if the step was not the channel's own report that it closed
  (that step orders no tear-down at all); and a call begins only by accepting the peer's
  invite, under that invite's \<open>call_id\<close> and party, or by sending our own.
\<close>

theorem call_lifecycle:
  assumes "transition clk s e = Ok s' cs"
  shows "(case current_call s of
      Some (c, p) \<Rightarrow>
        (\<exists>p'. current_call s' = Some (c, p'))
        \<or> (current_call s' = None \<and> (s' = Idle \<or> (\<exists>r t. s' = Failed r t))
           \<and> ((\<exists>r. TearDownChannel r \<in> set cs) \<longleftrightarrow> \<not> (\<exists>r. e = ChannelEvt (ChClosed r))))
    | None \<Rightarrow>
        (case current_call s' of
           None \<Rightarrow> True
         | Some (c, p) \<Rightarrow>
             (\<exists>i. e = CallEventReceived (ParsedInvite i) \<and> c = inv_call_id i
                \<and> s' = Answering c p (inv_party_id i))
             \<or> (\<exists>ss sdp l u. e = TurnRefreshed ss \<and> SendInvite c p sdp l u \<in> set cs)))"
  using transition_call_table [OF assms] transition_call_begin [OF assms]
  by (auto split: option.splits)

theorem call_lifecycle_witness:
  "current_call (Open ''c'' 5) = Some (''c'', ''<current>'')
   \<and> (case transition (\<lambda>_. 7) (Open ''c'' 5) DecryptStorm of
        Ok s' cs \<Rightarrow> current_call s' = None \<and> (\<exists>r. TearDownChannel r \<in> set cs)
      | Illegal _ \<Rightarrow> False)
   \<and> (case transition (\<lambda>_. 7) (Open ''c'' 5) (ChannelEvt (ChClosed ''x'')) of
        Ok s' cs \<Rightarrow> current_call s' = None \<and> \<not> (\<exists>r. TearDownChannel r \<in> set cs)
      | Illegal _ \<Rightarrow> False)"
  using call_lifecycle [of "\<lambda>_. 7" "Open ''c'' 5" DecryptStorm]
    call_lifecycle [of "\<lambda>_. 7" "Open ''c'' 5" "ChannelEvt (ChClosed ''x'')"]
  by (auto simp: transition_defs)

text \<open>
  Telemetry never lies about the state: a step that changes the kind of state emits
  exactly one state-transition report, and every report a step emits names the state it
  left and the state it entered.
\<close>

lemma telemetry_reports_transition:
  assumes "transition clk s e = Ok s' cs"
  shows "(state_name s \<noteq> state_name s' \<longrightarrow> length (filter is_transition_telemetry cs) = 1)
    \<and> (\<forall>a b r. EmitTelemetry (StateTransition a b r) \<in> set cs
         \<longrightarrow> a = state_name s \<and> b = state_name s')"
proof -
  have mem: "EmitTelemetry (StateTransition a b r) \<in> set (filter is_transition_telemetry cs)"
    if "EmitTelemetry (StateTransition a b r) \<in> set cs" for a b r
    using that by simp
  from transition_telemetry_table [OF assms] show ?thesis
  proof
    assume "\<exists>r. filter is_transition_telemetry cs =
              [EmitTelemetry (StateTransition (state_name s) (state_name s') r)]"
    with mem show ?thesis by fastforce
  next
    assume "state_name s' = state_name s \<and> filter is_transition_telemetry cs = []"
    with mem show ?thesis by fastforce
  qed
qed

lemma telemetry_reports_transition_example:
  "case transition (\<lambda>_. 7) Idle (Start ''p'' None ''u'' ''d'' ''r'' None) of
     Ok s' cs \<Rightarrow> state_name s' = ''FetchingTurn'' \<and> length (filter is_transition_telemetry cs) = 1
   | Illegal _ \<Rightarrow> False"
  using telemetry_reports_transition [of "\<lambda>_. 7" Idle "Start ''p'' None ''u'' ''d'' ''r'' None"]
  by (simp add: transition_defs)

text \<open>
  Retry back-off. A step that enters \<open>Failed\<close> from another state sets the earliest
  retry to 60 seconds after the clock reading for an ICE timeout, a decrypt storm or a
  channel failure before the session was open, and to 30 seconds otherwise; and once in
  \<open>Failed\<close> the machine leaves it only when that instant has passed, or because a caller
  starts or hangs up, or because the peer invites.
\<close>

lemma failed_backoff:
  "(transition clk s e = Ok (Failed r t) cs \<and> \<not> (\<exists>r' t'. s = Failed r' t') \<longrightarrow>
      t = clk 0 + (if (\<exists>m. e = ChannelEvt (ChFailure m)) \<and> \<not> is_open s \<or> e = IceTimeout
                      \<or> e = DecryptStorm
                   then from_secs 60 else from_secs 30))
   \<and> (transition clk (Failed r t) e = Ok s' cs \<and> s' \<noteq> Failed r t \<longrightarrow>
      (e = RetryReady \<and> t \<le> clk 0 \<and> s' = Idle) \<or> (\<exists>q. e = Hangup q) \<or>
      (\<exists>a b c d f g. e = Start a b c d f g) \<or> (\<exists>i. e = CallEventReceived (ParsedInvite i)))"
proof (intro conjI impI)
  assume "transition clk s e = Ok (Failed r t) cs \<and> \<not> (\<exists>r' t'. s = Failed r' t')"
  then show "t = clk 0 + (if (\<exists>m. e = ChannelEvt (ChFailure m)) \<and> \<not> is_open s \<or> e = IceTimeout
               \<or> e = DecryptStorm then from_secs 60 else from_secs 30)"
    using transition_failed_table [of clk s e r t cs] by blast
next
  assume "transition clk (Failed r t) e = Ok s' cs \<and> s' \<noteq> Failed r t"
  then show "(e = RetryReady \<and> t \<le> clk 0 \<and> s' = Idle) \<or> (\<exists>q. e = Hangup q) \<or>
      (\<exists>a b c d f g. e = Start a b c d f g) \<or> (\<exists>i. e = CallEventReceived (ParsedInvite i))"
    using transition_leave_failed by blast
qed

lemma failed_backoff_example:
  "transition (\<lambda>_. 1000) (Connecting ''c'' ''p'' 0) IceTimeout
     = Ok (Failed ''ice_timeout'' 61000)
         [SendHangup ''c'' ''p'' ''ice_timeout'', TearDownChannel ''ice_timeout'',
          EmitTelemetry (StateTransition ''Connecting'' ''Failed'' ''ice_timeout'')]
   \<and> (61000 :: nat) = (\<lambda>_ :: nat. 1000) (0 :: nat) + from_secs 60"
  using failed_backoff [of "\<lambda>_. 1000" "Connecting ''c'' ''p'' 0" IceTimeout "''ice_timeout''" 61000]
  by (simp add: transition_defs ICE_TIMEOUT_RETRY_AFTER_def from_secs_def)

text \<open>
  Exactly which events the table refuses. A pair is illegal, so that the driver keeps
  its state, if and only if it is a second start during an attempt or a session, an
  answer that names another call, a timer or verification outcome that does not belong to
  the state, or a decrypt storm during negotiation.
\<close>

lemma illegal_exactly:
  "(\<exists>msg. transition clk s e = Illegal msg) \<longleftrightarrow> refused s e"
  by (cases s; cases e rule: event_full_cases)
     (auto simp: transition_defs refused_def Let_def split: if_splits prod.splits option.splits)

text \<open>
  A glare is never resolved by the table: from \<open>Glare\<close>, no sequence of events without
  a local hangup changes the state, whatever the peers' identifiers say about the winner;
  the peer's hangup, its answer and the invite timeout are all ignored.
\<close>

lemma glare_needs_hangup:
  assumes "\<And>k r. (k, Hangup r) \<notin> set es"
  shows "run (Glare a b g) es = Glare a b g"
  using assms
proof (induction es)
  case (Cons x es)
  obtain k e where x: "x = (k, e)" by (cases x)
  with Cons.prems have "\<not> (\<exists>r. e = Hangup r)" by auto
  then have "next_state k (Glare a b g) e = Glare a b g"
    using transition_Glare [of e k a b g] by (auto simp: next_state_def)
  with Cons x show ?case by auto
qed simp

lemma glare_needs_hangup_example:
  "run (Glare ''c1'' ''c2'' WeWin)
     [(\<lambda>_. 0, CallEventReceived (ParsedHangup (build_hangup ''c2'' ''p'' None))),
      (\<lambda>_. 30000, InviteTimeout)] = Glare ''c1'' ''c2'' WeWin"
  by (rule glare_needs_hangup) auto

text \<open>
  A hangup by the caller always ends in \<open>Idle\<close>, from every state; it sends the
  hangup for the current call and tears the channel down when there is a call, and sends
  nothing otherwise.
\<close>

lemma hangup_always_idle:
  "\<exists>cs. transition clk s (Hangup reason) = Ok Idle cs
     \<and> (\<forall>c p. current_call s = Some (c, p) \<longrightarrow>
          take 2 cs = [SendHangup c p reason, TearDownChannel reason])
     \<and> (current_call s = None \<longrightarrow>
          (\<forall>c p r. SendHangup c p r \<notin> set cs) \<and> (\<forall>r. TearDownChannel r \<notin> set cs))"
  by (auto simp: hangup_transition_def split: option.splits)

lemma hangup_always_idle_example:
  "current_call (Open ''c'' 1) = Some (''c'', ''<current>'')
   \<and> (\<exists>cs. transition (\<lambda>_. 0) (Open ''c'' 1) (Hangup ''bye'') = Ok Idle cs
       \<and> take 2 cs = [SendHangup ''c'' ''<current>'' ''bye'', TearDownChannel ''bye''])"
  using hangup_always_idle [of "\<lambda>_. 0" "Open ''c'' 1" "''bye''"] by auto

text \<open>
  The identifiers the machine invites and verifies with are placeholders. In every
  state the machine can reach, the nonce of a handshake is 32 zero bytes and an
  outstanding invite carries the call and party id \<open><pending>\<close> with an empty offer, so an
  answer is accepted only if it names that placeholder call.
\<close>

lemma placeholders_persist:
  assumes "reachable s"
  shows "(\<forall>c p n. s = Verifying c p n \<longrightarrow> n = replicate 32 0)
    \<and> (\<forall>c t off p l. s = Inviting c t off p l \<longrightarrow>
         c = ''<pending>'' \<and> p = ''<pending>'' \<and> sdp_text off = '''')"
  using assms
proof (induction rule: reachable.induct)
  case start
  show ?case by simp
next
  case (step s clk e s' cs)
  from step.hyps(2) step.IH show ?case
    by (auto dest: transition_to_verifying transition_to_inviting)
qed

lemma placeholders_persist_example:
  "\<exists>t off l. run Idle [(\<lambda>_. 0, Start ''p'' None ''u'' ''d'' ''r'' None), (\<lambda>_. 1, TurnRefreshed [])]
     = Inviting ''<pending>'' t off ''<pending>'' l \<and> sdp_text off = ''''"
  using placeholders_persist [OF reachable_run [OF reachable.start],
      of "[(\<lambda>_. 0, Start ''p'' None ''u'' ''d'' ''r'' None), (\<lambda>_. 1, TurnRefreshed [])]"]
  by (auto simp: next_state_def transition_defs Let_def)

text \<open>
  The handshake completes. An idle machine that receives an invite, then the opening
  of the channel and a successful verification is open on the invite's call; an idle
  machine that starts, gets TURN servers, an answer to its invite, the opening of the
  channel and a successful verification is open too. No reading of the clock prevents it.
\<close>

lemma handshake_completes:
  "run Idle [(k1, CallEventReceived (ParsedInvite i)), (k2, ChannelEvt ChOpen), (k3, VerifyOk)]
     = Open (inv_call_id i) (k3 0)
   \<and> run Idle [(k1, Start p d u v r su), (k2, TurnRefreshed ss),
        (k3, CallEventReceived (ParsedAnswer (build_answer ''<pending>'' q sdp))),
        (k4, ChannelEvt ChOpen), (k5, VerifyOk)]
     = Open ''<pending>'' (k5 0)"
  by (simp add: next_state_def transition_defs Let_def build_answer_def)


end
