(* ===== verification/P2P_Crypto.thy ===== *)
theory P2P_Crypto
  imports Signaling
begin

section \<open>The P2P frame cipher\<close>

text \<open>
  The model of \<open>crates/mxdx-p2p/src/crypto.rs\<close>: sealed session keys, their transport as
  base64 text and the AES-256-GCM frame format. The base64 engine and the AEAD are
  third-party crates: they are the fields of the parameter \<open>crypto_lib\<close>. Random bytes are
  arguments: the caller passes what \<open>OsRng\<close> filled in. The theorems show that a frame
  decrypts on the other side of the call, once the key has travelled inside the invite,
  and exactly which frames are rejected, and why.
\<close>

record crypto_lib =
  b64_encode :: "bytes \<Rightarrow> str"
  b64_decode :: "str \<Rightarrow> (str, bytes) result"
  aead_encrypt :: "bytes \<Rightarrow> bytes \<Rightarrow> bytes \<Rightarrow> bytes option"
  aead_decrypt :: "bytes \<Rightarrow> bytes \<Rightarrow> bytes \<Rightarrow> bytes option"

datatype CryptoError =
    AeadFailure
  | InvalidBase64 str str
  | InvalidIvLength nat
  | InvalidKeyLength nat

record EncryptedFrame =
  ciphertext :: str
  iv :: str

datatype SealedKey = SealedKey bytes

fun as_key :: "SealedKey \<Rightarrow> bytes" where
  "as_key (SealedKey key) = key"

record P2PCrypto =
  cipher :: bytes

definition sealed_random :: "bytes \<Rightarrow> SealedKey" where
  "sealed_random raw = SealedKey raw"

definition sealed_from_bytes :: "bytes \<Rightarrow> SealedKey" where
  "sealed_from_bytes bs = SealedKey bs"

definition sealed_as_bytes :: "SealedKey \<Rightarrow> bytes" where
  "sealed_as_bytes k = as_key k"

definition to_base64 :: "crypto_lib \<Rightarrow> SealedKey \<Rightarrow> str" where
  "to_base64 L k = b64_encode L (sealed_as_bytes k)"

definition from_base64 :: "crypto_lib \<Rightarrow> str \<Rightarrow> (CryptoError, SealedKey) result" where
  "from_base64 L b64 =
     (case b64_decode L b64 of
        Inl e \<Rightarrow> Err (InvalidBase64 ''mxdx_session_key'' e)
      | Inr raw \<Rightarrow>
          if length raw \<noteq> 32 then Err (InvalidKeyLength (length raw))
          else Okay (sealed_from_bytes raw))"

definition crypto_generate :: "bytes \<Rightarrow> P2PCrypto \<times> SealedKey" where
  "crypto_generate raw =
     (let sealed = sealed_random raw in (\<lparr>cipher = as_key sealed\<rparr>, sealed))"

definition from_sealed :: "SealedKey \<Rightarrow> P2PCrypto" where
  "from_sealed k = \<lparr>cipher = as_key k\<rparr>"

definition encrypt ::
  "crypto_lib \<Rightarrow> P2PCrypto \<Rightarrow> bytes \<Rightarrow> bytes \<Rightarrow> (CryptoError, EncryptedFrame) result" where
  "encrypt L c iv_bytes plaintext =
     (case aead_encrypt L (cipher c) iv_bytes plaintext of
        None \<Rightarrow> Err AeadFailure
      | Some ct \<Rightarrow> Okay \<lparr>ciphertext = b64_encode L ct, iv = b64_encode L iv_bytes\<rparr>)"

definition decrypt ::
  "crypto_lib \<Rightarrow> P2PCrypto \<Rightarrow> EncryptedFrame \<Rightarrow> (CryptoError, bytes) result" where
  "decrypt L c frame =
     (case b64_decode L (ciphertext frame) of
        Inl e \<Rightarrow> Err (InvalidBase64 ''c'' e)
      | Inr ct \<Rightarrow>
          (case b64_decode L (iv frame) of
             Inl e \<Rightarrow> Err (InvalidBase64 ''iv'' e)
           | Inr iv_bytes \<Rightarrow>
               if length iv_bytes \<noteq> 12 then Err (InvalidIvLength (length iv_bytes))
               else
                 (case aead_decrypt L (cipher c) iv_bytes ct of
                    None \<Rightarrow> Err AeadFailure
                  | Some plaintext \<Rightarrow> Okay plaintext)))"

text \<open>What the code relies on: base64 decodes what it encoded, and AES-GCM opens what it sealed.\<close>

definition base64_law :: "crypto_lib \<Rightarrow> bool" where
  "base64_law L \<longleftrightarrow> (\<forall>bs. b64_decode L (b64_encode L bs) = Okay bs)"

definition aead_law :: "crypto_lib \<Rightarrow> bool" where
  "aead_law L \<longleftrightarrow>
     (\<forall>k n p c. aead_encrypt L k n p = Some c \<longrightarrow> aead_decrypt L k n c = Some p)"

lemma decode_encode: "base64_law L \<Longrightarrow> b64_decode L (b64_encode L bs) = Okay bs"
  by (simp add: base64_law_def)

lemma from_base64_to_base64:
  assumes "base64_law L" and "length (as_key k) = 32"
  shows "from_base64 L (to_base64 L k) = Okay k"
  using assms
  by (cases k) (simp add: from_base64_def to_base64_def decode_encode sealed_as_bytes_def
      sealed_from_bytes_def)

text \<open>
  C11. A frame sealed by the caller opens at the peer. The caller generates a session key
  and sends it in the invite's \<open>mxdx_session_key\<close>; the peer rebuilds the key from the
  invite it parsed; then every frame that the caller encrypts with a 12-byte IV decrypts
  at the peer to the plaintext, given that base64 and AES-GCM invert themselves.
\<close>

theorem frame_roundtrip:
  assumes "base64_law L" and "aead_law L" and "length raw = 32" and "length iv_bytes = 12"
    and "crypto_generate raw = (ours, sealed)"
    and "mxdx_session_key (build_invite c p sdp (to_base64 L sealed) lt u) = Some b64"
    and "encrypt L ours iv_bytes plaintext = Okay frame"
  shows "\<exists>k. from_base64 L b64 = Okay k \<and> decrypt L (from_sealed k) frame = Okay plaintext"
proof -
  from assms(5,6) have sealed: "sealed = SealedKey raw" and ours: "ours = \<lparr>cipher = raw\<rparr>"
    and b64: "b64 = to_base64 L sealed"
    by (auto simp: crypto_generate_def sealed_random_def build_invite_def Let_def)
  have "from_base64 L b64 = Okay sealed"
    using assms(1,3) by (simp add: b64 sealed from_base64_to_base64)
  moreover have "decrypt L (from_sealed sealed) frame = Okay plaintext"
    using assms(1,2,4,7)
    by (auto simp: encrypt_def decrypt_def from_sealed_def sealed ours decode_encode aead_law_def
        split: option.splits)
  ultimately show ?thesis by blast
qed

definition sample_crypto_lib :: crypto_lib where
  "sample_crypto_lib =
     \<lparr>b64_encode = map (\<lambda>w. char_of (unat w)), b64_decode = (\<lambda>s. Okay (as_bytes s)),
      aead_encrypt = (\<lambda>k n p. Some (k @ p)), aead_decrypt = (\<lambda>k n c. Some (drop (length k) c))\<rparr>"

lemma sample_crypto_laws: "base64_law sample_crypto_lib" "aead_law sample_crypto_lib"
  by (auto simp: base64_law_def aead_law_def sample_crypto_lib_def)

theorem frame_roundtrip_witness:
  "\<exists>k. from_base64 sample_crypto_lib (to_base64 sample_crypto_lib (SealedKey (replicate 32 7))) = Okay k
     \<and> decrypt sample_crypto_lib (from_sealed k)
         \<lparr>ciphertext = b64_encode sample_crypto_lib (replicate 32 7 @ [1, 2]),
          iv = b64_encode sample_crypto_lib (replicate 12 5)\<rparr> = Okay [1, 2]"
  by (rule frame_roundtrip [OF sample_crypto_laws, where raw = "replicate 32 7"
        and iv_bytes = "replicate 12 5" and ours = "\<lparr>cipher = replicate 32 7\<rparr>"
        and c = "[]" and p = "[]" and sdp = "[]" and lt = 0 and u = None])
     (simp_all add: crypto_generate_def sealed_random_def build_invite_def encrypt_def
        sample_crypto_lib_def Let_def)

text \<open>
  Exactly which frames are rejected: decryption succeeds if and only if both fields
  are base64, the IV has 12 bytes and the AEAD accepts; otherwise the error names the
  first of these checks that failed.
\<close>

lemma decrypt_outcome:
  "(decrypt L c frame = Okay p \<longleftrightarrow>
      (\<exists>ct n. b64_decode L (ciphertext frame) = Okay ct \<and> b64_decode L (iv frame) = Okay n
         \<and> length n = 12 \<and> aead_decrypt L (cipher c) n ct = Some p))
   \<and> (decrypt L c frame = Err e \<longleftrightarrow>
      (\<exists>m. b64_decode L (ciphertext frame) = Err m \<and> e = InvalidBase64 ''c'' m)
      \<or> (\<exists>ct m. b64_decode L (ciphertext frame) = Okay ct \<and> b64_decode L (iv frame) = Err m
           \<and> e = InvalidBase64 ''iv'' m)
      \<or> (\<exists>ct n. b64_decode L (ciphertext frame) = Okay ct \<and> b64_decode L (iv frame) = Okay n
           \<and> length n \<noteq> 12 \<and> e = InvalidIvLength (length n))
      \<or> (\<exists>ct n. b64_decode L (ciphertext frame) = Okay ct \<and> b64_decode L (iv frame) = Okay n
           \<and> length n = 12 \<and> aead_decrypt L (cipher c) n ct = None \<and> e = AeadFailure))"
  by (auto simp: decrypt_def split: sum.splits option.splits)

end
