(* ===== verification/P2P_Driver.thy ===== *)
theory P2P_Driver
  imports P2P_State P2P_Crypto
begin

section \<open>The P2P driver\<close>

text \<open>
  The model of \<open>crates/mxdx-p2p/src/transport/driver.rs\<close> and of the public types of
  \<open>transport/mod.rs\<close>: the driver task's state as a record, one function per method, and
  the arms of its \<open>select!\<close> loop. Everything the driver does to the outside (telemetry,
  logged signaling commands, frames written to the channel, closing the channel,
  spawning, resetting and stopping the idle watchdog) is an entry of the field \<open>effects\<close>,
  in the order it happens. The WebRTC channel, \<open>serde_json::to_vec\<close> and the random IVs are
  the fields of the parameter \<open>driver_env\<close>.
\<close>

subsection \<open>Data\<close>

datatype SendOutcome = SentP2P | FallbackToMatrix | ChannelClosed

record P2PStateSnapshot =
  snap_name :: str
  snap_is_open :: bool

definition snapshot_from :: "P2PState \<Rightarrow> P2PStateSnapshot" where
  "snapshot_from s = \<lparr>snap_name = state_name s, snap_is_open = is_open s\<rparr>"

definition OUTBOUND_QUEUE_DEPTH :: nat where
  "OUTBOUND_QUEUE_DEPTH = 256"

definition DECRYPT_FAILURE_RATE_PER_SEC :: nat where
  "DECRYPT_FAILURE_RATE_PER_SEC = 3"

definition INBOUND_QUEUE_DEPTH :: nat where
  "INBOUND_QUEUE_DEPTH = 256"

definition REPLAY_WINDOW_SIZE :: nat where
  "REPLAY_WINDOW_SIZE = 16"

definition DEFAULT_IDLE_WINDOW :: duration where
  "DEFAULT_IDLE_WINDOW = from_secs 300"

record P2PTransportConfig =
  cfg_our_user_id :: str
  cfg_our_device_id :: str
  cfg_room_id :: str
  cfg_session_uuid :: "str option"
  idle_window :: duration
  outbound_queue_depth :: nat
  inbound_queue_depth :: nat

definition config_new :: "str \<Rightarrow> str \<Rightarrow> str \<Rightarrow> P2PTransportConfig" where
  "config_new our_user_id our_device_id room_id =
     \<lparr>cfg_our_user_id = our_user_id, cfg_our_device_id = our_device_id, cfg_room_id = room_id,
      cfg_session_uuid = None, idle_window = DEFAULT_IDLE_WINDOW,
      outbound_queue_depth = OUTBOUND_QUEUE_DEPTH, inbound_queue_depth = INBOUND_QUEUE_DEPTH\<rparr>"

record OutboundRequest =
  req_event_type :: str
  req_payload :: bytes

datatype ControlMsg = CtlStart str "str option" | CtlHangup str

datatype Effect =
    Signaled Command
  | Telemetry TelemetryKind
  | ChannelSend bytes
  | ChannelClose str
  | WatchdogSpawn duration
  | WatchdogReset
  | WatchdogShutdown

record 'ch DriverTask =
  config :: P2PTransportConfig
  state :: P2PState
  snapshot :: P2PStateSnapshot
  channel :: "'ch option"
  crypto :: "P2PCrypto option"
  pending_outbound :: "OutboundRequest list"
  recent_nonces :: "(bytes \<times> str) list"
  locked_peers :: "str set"
  verify_failures :: "str \<rightharpoonup> u32"
  last_decrypt_failures :: "instant list"
  idle_watchdog :: "duration option"
  effects :: "Effect list"

text \<open>
  The operations of the current channel, the frame serializer, the crypto library and the
  random IVs (\<open>ivs i\<close> for the \<open>i\<close>-th frame of a drain).
\<close>

record 'ch driver_env =
  restart_ice :: "'ch \<Rightarrow> IceServer list \<Rightarrow> (ChannelError, Sdp) result \<times> 'ch"
  channel_send :: "'ch \<Rightarrow> bytes \<Rightarrow> (ChannelError, unit) result"
  frame_to_vec :: "EncryptedFrame \<Rightarrow> (str, bytes) result"
  lib :: crypto_lib
  ivs :: "nat \<Rightarrow> bytes"

fun channel_error_fmt :: "ChannelError \<Rightarrow> str" where
  "channel_error_fmt (InvalidSdp s) = ''invalid SDP: '' @ s"
| "channel_error_fmt (InvalidCandidate s) = ''invalid ICE candidate: '' @ s"
| "channel_error_fmt (IceInitFailed s) = ''ICE initialisation failed: '' @ s"
| "channel_error_fmt RestartIceUnsupported = ''restart_ice not supported by this backend''"
| "channel_error_fmt (FrameTooLarge mx actual) =
     ''frame exceeds '' @ show_nat mx @ ''-byte limit ('' @ show_nat actual @ '' bytes)''"
| "channel_error_fmt ChannelIsClosed = ''channel is closed''"
| "channel_error_fmt (Backend s) = ''backend error: '' @ s"

subsection \<open>Operations\<close>

definition spawn :: "P2PTransportConfig \<Rightarrow> 'ch DriverTask" where
  "spawn cfg =
     \<lparr>config = cfg, state = Idle, snapshot = snapshot_from Idle, channel = None, crypto = None,
      pending_outbound = [], recent_nonces = [], locked_peers = {}, verify_failures = Map.empty,
      last_decrypt_failures = [], idle_watchdog = None, effects = []\<rparr>"

definition effect :: "Effect \<Rightarrow> 'ch DriverTask \<Rightarrow> 'ch DriverTask" where
  "effect e d = d\<lparr>effects := effects d @ [e]\<rparr>"

definition emit_telemetry :: "TelemetryKind \<Rightarrow> 'ch DriverTask \<Rightarrow> 'ch DriverTask" where
  "emit_telemetry kind d = effect (Telemetry kind) d"

definition update_snapshot :: "'ch DriverTask \<Rightarrow> 'ch DriverTask" where
  "update_snapshot d = d\<lparr>snapshot := snapshot_from (state d)\<rparr>"

definition stop_watchdog :: "'ch DriverTask \<Rightarrow> 'ch DriverTask" where
  "stop_watchdog d =
     (case idle_watchdog d of
        Some _ \<Rightarrow> effect WatchdogShutdown (d\<lparr>idle_watchdog := None\<rparr>)
      | None \<Rightarrow> d)"

definition tear_down :: "str \<Rightarrow> 'ch DriverTask \<Rightarrow> 'ch DriverTask" where
  "tear_down reason d =
     (let d1 = (case channel d of
                  Some _ \<Rightarrow> effect (ChannelClose reason) (d\<lparr>channel := None\<rparr>)
                | None \<Rightarrow> d);
          d2 = d1\<lparr>crypto := None, pending_outbound := []\<rparr>
      in stop_watchdog d2)"

text \<open>The first loop of \<open>drain_outbound\<close>: seal and serialize every pending payload.\<close>

fun seal_all ::
  "'ch driver_env \<Rightarrow> P2PCrypto \<Rightarrow> nat \<Rightarrow> OutboundRequest list \<Rightarrow> bytes list \<times> Effect list" where
  "seal_all env c i [] = ([], [])"
| "seal_all env c i (req # reqs) =
     (let (wires, effs) = seal_all env c (Suc i) reqs
      in case encrypt (lib env) c (ivs env i) (req_payload req) of
           Inl e \<Rightarrow> (wires, Telemetry (Fallback ''encrypt_failed'') # effs)
         | Inr frame \<Rightarrow>
             (case frame_to_vec env frame of
                Inl e \<Rightarrow> (wires, effs)
              | Inr b \<Rightarrow> (b # wires, effs)))"

text \<open>The second loop: write the frames one by one.\<close>

fun send_all :: "'ch driver_env \<Rightarrow> 'ch \<Rightarrow> bytes list \<Rightarrow> Effect list" where
  "send_all env ch [] = []"
| "send_all env ch (wire # wires) =
     ChannelSend wire #
     (case channel_send env ch wire of
        Inl e \<Rightarrow> [Telemetry (Fallback ''channel_send_failed'')]
      | Inr _ \<Rightarrow> []) @ send_all env ch wires"

definition drain_outbound :: "'ch driver_env \<Rightarrow> 'ch DriverTask \<Rightarrow> 'ch DriverTask" where
  "drain_outbound env d =
     (if \<not> is_open (state d) then d
      else
        (case (crypto d, channel d) of
           (Some c, Some ch) \<Rightarrow>
             (let (wires, effs) = seal_all env c 0 (pending_outbound d)
              in d\<lparr>pending_outbound := [],
                   effects := effects d @ effs @ send_all env ch wires\<rparr>)
         | _ \<Rightarrow> d))"

definition teardown_for_turn_refresh :: "str \<Rightarrow> 'ch DriverTask \<Rightarrow> 'ch DriverTask" where
  "teardown_for_turn_refresh reason d =
     (let d1 = tear_down reason d;
          d2 = update_snapshot (d1\<lparr>state := Idle\<rparr>);
          d3 = emit_telemetry (Fallback reason) d2
      in emit_telemetry (StateTransition ''Open'' ''Idle'' reason) d3)"

definition handle_configure_ice_servers ::
  "'ch driver_env \<Rightarrow> IceServer list \<Rightarrow> 'ch DriverTask \<Rightarrow> 'ch DriverTask" where
  "handle_configure_ice_servers env servers d =
     (if \<not> is_open (state d) then d
      else
        (case channel d of
           None \<Rightarrow> d
         | Some ch \<Rightarrow>
             (let (r, ch') = restart_ice env ch servers;
                  d1 = d\<lparr>channel := Some ch'\<rparr>
              in case r of
                   Inr _ \<Rightarrow> d1
                 | Inl e \<Rightarrow>
                     if e = RestartIceUnsupported
                     then teardown_for_turn_refresh ''turn_refresh_teardown'' d1
                     else teardown_for_turn_refresh
                            (''ice_restart_failed:'' @ channel_error_fmt e) d1)))"

fun apply_command :: "'ch driver_env \<Rightarrow> Command \<Rightarrow> 'ch DriverTask \<Rightarrow> 'ch DriverTask" where
  "apply_command env (StartVerifying n) d = d"
| "apply_command env BeginFetchTurn d = d"
| "apply_command env (ConfigureIceServers servers) d = handle_configure_ice_servers env servers d"
| "apply_command env (TearDownChannel reason) d = tear_down reason d"
| "apply_command env ResetIdle d =
     (if idle_watchdog d = None \<and> is_open (state d)
      then effect (WatchdogSpawn (idle_window (config d)))
             (d\<lparr>idle_watchdog := Some (idle_window (config d))\<rparr>)
      else if idle_watchdog d \<noteq> None then effect WatchdogReset d
      else d)"
| "apply_command env DrainOutbound d = drain_outbound env d"
| "apply_command env (EmitTelemetry kind) d = emit_telemetry kind d"
| "apply_command env (Schedule at ev) d = d"
| "apply_command env (LockoutDevice peer) d = d\<lparr>locked_peers := insert peer (locked_peers d)\<rparr>"
| "apply_command env cmd d = effect (Signaled cmd) d"

text \<open>The \<open>Ok\<close> branch of \<open>dispatch\<close>, and \<open>dispatch\<close> itself.\<close>

definition absorb ::
  "'ch driver_env \<Rightarrow> P2PState \<Rightarrow> Command list \<Rightarrow> 'ch DriverTask \<Rightarrow> 'ch DriverTask" where
  "absorb env next_st commands d =
     (let was_open = is_open (state d);
          d1 = update_snapshot (d\<lparr>state := next_st\<rparr>);
          d2 = fold (apply_command env) commands d1
      in if was_open \<and> \<not> is_open (state d2) then stop_watchdog d2 else d2)"

definition dispatch ::
  "'ch driver_env \<Rightarrow> clock \<Rightarrow> Event \<Rightarrow> 'ch DriverTask \<Rightarrow> 'ch DriverTask" where
  "dispatch env clk event d =
     (case transition clk (state d) event of
        Ok next_st commands \<Rightarrow> absorb env next_st commands d
      | Illegal _ \<Rightarrow> d)"

fun handle_control ::
  "'ch driver_env \<Rightarrow> clock \<Rightarrow> ControlMsg \<Rightarrow> 'ch DriverTask \<Rightarrow> 'ch DriverTask" where
  "handle_control env clk (CtlStart peer_user_id peer_device_id) d =
     (if peer_user_id \<in> locked_peers d
      then emit_telemetry (SecurityEvent SecWrongPeer (Some peer_user_id)) d
      else
        dispatch env clk
          (Start peer_user_id peer_device_id (cfg_our_user_id (config d))
             (cfg_our_device_id (config d)) (cfg_room_id (config d)) (cfg_session_uuid (config d)))
          d)"
| "handle_control env clk (CtlHangup reason) d = dispatch env clk (Hangup reason) d"

text \<open>
  One round of the \<open>select!\<close> loop. The fields say what each awaited future would yield;
  the selection is biased, so the first that is ready wins. The flag of the result says
  whether the loop goes on: it returns after the tear-down of a shutdown.
\<close>

record ready =
  rdy_shutdown :: bool
  rdy_idle :: bool
  rdy_control :: "ControlMsg option"
  rdy_call_event :: "ParsedCallEvent option"
  rdy_outbound :: "OutboundRequest option"

definition handle_outbound ::
  "'ch driver_env \<Rightarrow> OutboundRequest \<Rightarrow> 'ch DriverTask \<Rightarrow> 'ch DriverTask" where
  "handle_outbound env out d =
     (let d1 = d\<lparr>pending_outbound := pending_outbound d @ [out]\<rparr>
      in if is_open (state d1) then
           (let d2 = drain_outbound env d1
            in if idle_watchdog d2 \<noteq> None then effect WatchdogReset d2 else d2)
         else d1\<lparr>pending_outbound := []\<rparr>)"

definition run_once ::
  "'ch driver_env \<Rightarrow> clock \<Rightarrow> ready \<Rightarrow> 'ch DriverTask \<Rightarrow> bool \<times> 'ch DriverTask" where
  "run_once env clk r d =
     (if rdy_shutdown r then (False, tear_down ''shutdown'' d)
      else
        (let d' =
           (if rdy_idle r then dispatch env clk IdleTick d
            else case rdy_control r of
                Some ctl \<Rightarrow> handle_control env clk ctl d
              | None \<Rightarrow>
                  (case rdy_call_event r of
                     Some ev \<Rightarrow> dispatch env clk (CallEventReceived ev) d
                   | None \<Rightarrow>
                       (case rdy_outbound r of
                          Some out \<Rightarrow> handle_outbound env out d
                        | None \<Rightarrow> d)))
         in (True, d')))"

datatype TrySendResult = QueueOk | QueueFull | QueueClosed

text \<open>\<open>P2PTransport::try_send\<close>: what the caller sees, given the outcome of the queue.\<close>

definition try_send :: "P2PStateSnapshot \<Rightarrow> (unit \<Rightarrow> TrySendResult) \<Rightarrow> SendOutcome \<times> bool" where
  "try_send snap enqueue =
     (if \<not> snap_is_open snap then (FallbackToMatrix, False)
      else
        (case enqueue () of
           QueueOk \<Rightarrow> (SentP2P, True)
         | QueueFull \<Rightarrow> (FallbackToMatrix, True)
         | QueueClosed \<Rightarrow> (ChannelClosed, True)))"

subsection \<open>Rate limit, replay window, lockout\<close>

definition record_decrypt_failure :: "instant \<Rightarrow> 'ch DriverTask \<Rightarrow> bool \<times> 'ch DriverTask" where
  "record_decrypt_failure now d =
     (let one_sec_ago = (if now \<ge> from_secs 1 then now - from_secs 1 else now);
          kept = dropWhile (\<lambda>t. t < one_sec_ago) (last_decrypt_failures d);
          fs = kept @ [now]
      in (length fs > DECRYPT_FAILURE_RATE_PER_SEC, d\<lparr>last_decrypt_failures := fs\<rparr>))"

definition push_nonce :: "bytes \<times> str \<Rightarrow> (bytes \<times> str) list \<Rightarrow> (bytes \<times> str) list" where
  "push_nonce x ws = (if length ws \<ge> REPLAY_WINDOW_SIZE then tl ws else ws) @ [x]"

definition check_replay :: "str \<Rightarrow> bytes \<Rightarrow> 'ch DriverTask \<Rightarrow> bool \<times> 'ch DriverTask" where
  "check_replay cid nonce d =
     (if \<exists>(n, c) \<in> set (recent_nonces d). n = nonce \<and> c = cid then (True, d)
      else
        (False, d\<lparr>recent_nonces := push_nonce (nonce, cid) (recent_nonces d)\<rparr>))"

definition bump_verify_failure :: "str \<Rightarrow> 'ch DriverTask \<Rightarrow> bool \<times> 'ch DriverTask" where
  "bump_verify_failure peer d =
     (let counter = (case verify_failures d peer of Some n \<Rightarrow> n | None \<Rightarrow> 0) + 1;
          d1 = d\<lparr>verify_failures := (verify_failures d)(peer \<mapsto> counter)\<rparr>
      in if counter \<ge> 3 then
           (True, emit_telemetry (SecurityEvent SecWrongPeer (Some peer))
                    (d1\<lparr>locked_peers := insert peer (locked_peers d1)\<rparr>))
         else (False, d1))"

subsection \<open>Frame lemmas\<close>

lemma effect_fields [simp]:
  "state (effect e d) = state d" "snapshot (effect e d) = snapshot d"
  "channel (effect e d) = channel d" "crypto (effect e d) = crypto d"
  "pending_outbound (effect e d) = pending_outbound d"
  "locked_peers (effect e d) = locked_peers d" "idle_watchdog (effect e d) = idle_watchdog d"
  "config (effect e d) = config d" "effects (effect e d) = effects d @ [e]"
  "verify_failures (effect e d) = verify_failures d" "recent_nonces (effect e d) = recent_nonces d"
  by (simp_all add: effect_def)

lemma stop_watchdog_fields [simp]:
  "state (stop_watchdog d) = state d" "snapshot (stop_watchdog d) = snapshot d"
  "channel (stop_watchdog d) = channel d" "crypto (stop_watchdog d) = crypto d"
  "pending_outbound (stop_watchdog d) = pending_outbound d"
  "locked_peers (stop_watchdog d) = locked_peers d" "idle_watchdog (stop_watchdog d) = None"
  "config (stop_watchdog d) = config d" "recent_nonces (stop_watchdog d) = recent_nonces d"
  by (simp_all add: stop_watchdog_def split: option.splits)

lemma tear_down_fields [simp]:
  "state (tear_down r d) = state d" "snapshot (tear_down r d) = snapshot d"
  "channel (tear_down r d) = None" "crypto (tear_down r d) = None"
  "pending_outbound (tear_down r d) = []" "locked_peers (tear_down r d) = locked_peers d"
  "idle_watchdog (tear_down r d) = None" "config (tear_down r d) = config d"
  by (simp_all add: tear_down_def Let_def split: option.splits)

lemma update_snapshot_fields [simp]:
  "state (update_snapshot d) = state d" "snapshot (update_snapshot d) = snapshot_from (state d)"
  "channel (update_snapshot d) = channel d" "crypto (update_snapshot d) = crypto d"
  "pending_outbound (update_snapshot d) = pending_outbound d"
  "locked_peers (update_snapshot d) = locked_peers d"
  "idle_watchdog (update_snapshot d) = idle_watchdog d" "config (update_snapshot d) = config d"
  "effects (update_snapshot d) = effects d"
  by (simp_all add: update_snapshot_def)

lemma teardown_for_turn_refresh_fields [simp]:
  "state (teardown_for_turn_refresh r d) = Idle"
  "snapshot (teardown_for_turn_refresh r d) = snapshot_from Idle"
  "channel (teardown_for_turn_refresh r d) = None" "crypto (teardown_for_turn_refresh r d) = None"
  "pending_outbound (teardown_for_turn_refresh r d) = []"
  "locked_peers (teardown_for_turn_refresh r d) = locked_peers d"
  "idle_watchdog (teardown_for_turn_refresh r d) = None"
  by (simp_all add: teardown_for_turn_refresh_def emit_telemetry_def Let_def)

lemma drain_outbound_fields [simp]:
  "state (drain_outbound env d) = state d" "snapshot (drain_outbound env d) = snapshot d"
  "channel (drain_outbound env d) = channel d" "crypto (drain_outbound env d) = crypto d"
  "locked_peers (drain_outbound env d) = locked_peers d"
  "idle_watchdog (drain_outbound env d) = idle_watchdog d"
  by (simp_all add: drain_outbound_def split: option.splits prod.splits)

lemma emit_telemetry_fields [simp]:
  "state (emit_telemetry k d) = state d" "snapshot (emit_telemetry k d) = snapshot d"
  "channel (emit_telemetry k d) = channel d" "crypto (emit_telemetry k d) = crypto d"
  "pending_outbound (emit_telemetry k d) = pending_outbound d"
  "locked_peers (emit_telemetry k d) = locked_peers d"
  "idle_watchdog (emit_telemetry k d) = idle_watchdog d"
  "effects (emit_telemetry k d) = effects d @ [Telemetry k]"
  by (simp_all add: emit_telemetry_def)

text \<open>Reconfiguring ICE either keeps the cursor or tears everything down.\<close>

lemma configure_cases:
  obtains (kept) "state (handle_configure_ice_servers env ss d) = state d"
      "snapshot (handle_configure_ice_servers env ss d) = snapshot d"
      "crypto (handle_configure_ice_servers env ss d) = crypto d"
      "pending_outbound (handle_configure_ice_servers env ss d) = pending_outbound d"
      "idle_watchdog (handle_configure_ice_servers env ss d) = idle_watchdog d"
      "channel (handle_configure_ice_servers env ss d) = None \<longleftrightarrow> channel d = None"
  | (torn) r d1 where "is_open (state d)" "channel d \<noteq> None"
      "handle_configure_ice_servers env ss d = teardown_for_turn_refresh r d1"
      "locked_peers d1 = locked_peers d"
proof (cases "is_open (state d) \<and> channel d \<noteq> None")
  case False
  then show ?thesis
    using that(1) by (auto simp: handle_configure_ice_servers_def split: option.splits)
next
  case True
  then obtain ch where ch: "channel d = Some ch" and open_d: "is_open (state d)" by auto
  obtain r ch' where r: "restart_ice env ch ss = (r, ch')" by (cases "restart_ice env ch ss")
  show ?thesis
  proof (cases r)
    case (Inr a)
    with ch open_d r that(1) show ?thesis by (simp add: handle_configure_ice_servers_def)
  next
    case (Inl e)
    with ch open_d r that(2) [of _ "d\<lparr>channel := Some ch'\<rparr>"] show ?thesis
      by (cases "e = RestartIceUnsupported") (simp_all add: handle_configure_ice_servers_def)
  qed
qed

lemma configure_locked [simp]:
  "locked_peers (handle_configure_ice_servers env ss d) = locked_peers d"
  by (simp add: handle_configure_ice_servers_def Let_def
      split: option.splits prod.splits sum.splits)

lemma configure_snapshot:
  "snapshot d = snapshot_from (state d) \<Longrightarrow>
   snapshot (handle_configure_ice_servers env ss d) =
     snapshot_from (state (handle_configure_ice_servers env ss d))"
  by (cases rule: configure_cases [of env ss d]) simp_all

lemma configure_guarded:
  "(idle_watchdog d \<noteq> None \<longrightarrow> is_open (state d)) \<Longrightarrow>
   idle_watchdog (handle_configure_ice_servers env ss d) \<noteq> None \<longrightarrow>
     is_open (state (handle_configure_ice_servers env ss d))"
  by (cases rule: configure_cases [of env ss d]) simp_all

lemma configure_armed:
  "(is_open (state d) \<longrightarrow> idle_watchdog d \<noteq> None) \<Longrightarrow>
   is_open (state (handle_configure_ice_servers env ss d)) \<longrightarrow>
     idle_watchdog (handle_configure_ice_servers env ss d) \<noteq> None"
  by (cases rule: configure_cases [of env ss d]) simp_all

lemma apply_command_locked: "locked_peers d \<subseteq> locked_peers (apply_command env c d)"
  by (cases c) auto

lemma fold_apply_locked: "locked_peers d \<subseteq> locked_peers (fold (apply_command env) cs d)"
  by (induction cs arbitrary: d) (auto dest: subsetD [OF apply_command_locked])

lemma apply_command_snapshot:
  "snapshot d = snapshot_from (state d) \<Longrightarrow>
   snapshot (apply_command env c d) = snapshot_from (state (apply_command env c d))"
  by (cases c) (simp_all add: configure_snapshot)

lemma apply_command_closed:
  "\<not> is_open (state d) \<Longrightarrow> state (apply_command env c d) = state d"
  by (cases c) (simp_all add: handle_configure_ice_servers_def)

lemma fold_apply_closed:
  "\<not> is_open (state d) \<Longrightarrow> state (fold (apply_command env) cs d) = state d"
  by (induction cs arbitrary: d) (simp_all add: apply_command_closed)

lemma fold_apply_snapshot:
  "snapshot d = snapshot_from (state d) \<Longrightarrow>
   snapshot (fold (apply_command env) cs d) = snapshot_from (state (fold (apply_command env) cs d))"
  by (induction cs arbitrary: d) (simp_all add: apply_command_snapshot)

text \<open>A watchdog runs only while open, and one runs once it has been reset.\<close>

abbreviation guarded :: "'ch DriverTask \<Rightarrow> bool" where
  "guarded d \<equiv> idle_watchdog d \<noteq> None \<longrightarrow> is_open (state d)"

abbreviation armed :: "'ch DriverTask \<Rightarrow> bool" where
  "armed d \<equiv> is_open (state d) \<longrightarrow> idle_watchdog d \<noteq> None"

lemma apply_command_guarded: "guarded d \<Longrightarrow> guarded (apply_command env c d)"
  using configure_guarded [of d env] by (cases c) simp_all

lemma fold_apply_guarded: "guarded d \<Longrightarrow> guarded (fold (apply_command env) cs d)"
proof (induction cs arbitrary: d)
  case (Cons c cs)
  from Cons.IH [OF apply_command_guarded [OF Cons.prems]] show ?case by simp
qed simp

lemma apply_command_armed:
  assumes "armed d \<or> c = ResetIdle" and "\<And>r. c \<noteq> TearDownChannel r"
  shows "armed (apply_command env c d)"
  using assms configure_armed [of d env] by (cases c) auto

lemma fold_apply_armed:
  assumes "armed d \<or> ResetIdle \<in> set cs" and "\<And>r. TearDownChannel r \<notin> set cs"
  shows "armed (fold (apply_command env) cs d)"
  using assms
proof (induction cs arbitrary: d)
  case (Cons c cs)
  have "armed (apply_command env c d) \<or> ResetIdle \<in> set cs"
    using apply_command_armed [of d c env] Cons.prems by auto
  with Cons show ?case by simp
qed simp


end
