(* ===== verification/P2P_Driver_Safety.thy ===== *)
theory P2P_Driver_Safety
  imports P2P_Driver
begin

section \<open>Guarantees of the P2P driver\<close>

text \<open>
  What the driver of theory \<open>P2P_Driver\<close> guarantees about every event it dispatches. The
  driver relies on the transition table only through the contract \<open>machine_contract\<close>,
  which the table of theory \<open>P2P_State\<close> is shown to meet. The theorems cover the
  snapshot and watchdog invariant, the refinement of the pure machine, what is ever
  written to the channel, the erasure of the channel and key at the end of a call, the
  lockout of peers, the replay window, the decrypt-failure rate limit, and the states the
  select loop can reach.
\<close>

subsection \<open>The contract between driver and table\<close>

definition driver_inv :: "'ch DriverTask \<Rightarrow> bool" where
  "driver_inv d \<longleftrightarrow>
     snapshot d = snapshot_from (state d) \<and> (idle_watchdog d \<noteq> None \<longleftrightarrow> is_open (state d))"

definition erased :: "'ch DriverTask \<Rightarrow> bool" where
  "erased d \<longleftrightarrow> channel d = None \<and> crypto d = None \<and> pending_outbound d = []"

text \<open>An open channel that is handed new TURN servers and cannot restart ICE with them.\<close>

definition restart_fails :: "'ch driver_env \<Rightarrow> Event \<Rightarrow> 'ch DriverTask \<Rightarrow> bool" where
  "restart_fails env e d \<longleftrightarrow> is_open (state d)
     \<and> (\<exists>ss ch err ch'. e = TurnRefreshed ss \<and> channel d = Some ch
          \<and> restart_ice env ch ss = (Inl err, ch'))"

locale machine_contract =
  fixes step :: "P2PState \<Rightarrow> Event \<Rightarrow> TransitionResult"
  assumes opening_resets:
      "step s e = Ok s' cs \<Longrightarrow> is_open s' \<Longrightarrow> \<not> is_open s \<Longrightarrow> ResetIdle \<in> set cs"
    and open_keeps_channel:
      "step s e = Ok s' cs \<Longrightarrow> is_open s' \<Longrightarrow> TearDownChannel r \<notin> set cs"
    and drain_at_open:
      "step s e = Ok s' cs \<Longrightarrow> DrainOutbound \<in> set cs \<Longrightarrow> is_open s'
         \<and> (\<exists>ts. cs = ResetIdle # DrainOutbound # map EmitTelemetry ts)"
    and configure_alone:
      "step s e = Ok s' cs \<Longrightarrow> is_open s' \<Longrightarrow> ConfigureIceServers ss \<in> set cs \<Longrightarrow>
         e = TurnRefreshed ss \<and> s' = s \<and> cs = [ConfigureIceServers ss]"
    and refresh_configures:
      "is_open s \<Longrightarrow> step s (TurnRefreshed ss) = Ok s [ConfigureIceServers ss]"
begin

lemma absorb_inv:
  assumes "driver_inv d" and step: "step (state d) e = Ok s' cs"
  shows "driver_inv (absorb env s' cs d)"
proof -
  let ?d1 = "update_snapshot (d\<lparr>state := s'\<rparr>)"
  let ?d2 = "fold (apply_command env) cs ?d1"
  have snap: "snapshot ?d2 = snapshot_from (state ?d2)"
    by (rule fold_apply_snapshot) simp
  show ?thesis
  proof (cases "is_open s'")
    case True
    have "guarded ?d1" using True by simp
    then have g: "guarded ?d2" by (rule fold_apply_guarded)
    have "armed ?d1 \<or> ResetIdle \<in> set cs"
      using assms(1) opening_resets [OF step True] by (auto simp: driver_inv_def)
    then have "armed ?d2"
      by (rule fold_apply_armed) (use open_keeps_channel [OF step True] in auto)
    with g snap show ?thesis
      by (auto simp: absorb_def driver_inv_def Let_def)
  next
    case False
    then have closed: "state ?d2 = s'" by (subst fold_apply_closed) simp_all
    show ?thesis
    proof (cases "is_open (state d)")
      case True
      with False closed snap show ?thesis by (simp add: absorb_def driver_inv_def Let_def)
    next
      case closed_d: False
      with assms(1) have "guarded ?d1" by (simp add: driver_inv_def)
      then have "guarded ?d2" by (rule fold_apply_guarded)
      with closed_d False closed snap show ?thesis
        by (simp add: absorb_def driver_inv_def Let_def)
    qed
  qed
qed

lemma fold_without_configure:
  "\<forall>ss. ConfigureIceServers ss \<notin> set cs \<Longrightarrow> state (fold (apply_command env) cs d) = state d"
proof (induction cs arbitrary: d)
  case (Cons c cs)
  then have "state (apply_command env c d) = state d" by (cases c) auto
  moreover from Cons.prems have "\<forall>ss. ConfigureIceServers ss \<notin> set cs" by simp
  ultimately show ?case using Cons.IH by simp
qed simp

lemma absorb_state:
  assumes step: "step (state d) e = Ok s' cs" and no: "\<not> restart_fails env e d"
  shows "state (absorb env s' cs d) = s'"
proof (cases "is_open s' \<and> (\<exists>ss. ConfigureIceServers ss \<in> set cs)")
  case True
  then obtain ss where op': "is_open s'" and mem: "ConfigureIceServers ss \<in> set cs" by auto
  from configure_alone [OF step op' mem] have e: "e = TurnRefreshed ss" and s': "s' = state d"
    and cs: "cs = [ConfigureIceServers ss]" by simp_all
  with no op' show ?thesis
    by (auto simp: restart_fails_def absorb_def Let_def handle_configure_ice_servers_def
        split: option.splits prod.splits sum.splits)
next
  case False
  have "state (fold (apply_command env) cs (update_snapshot (d\<lparr>state := s'\<rparr>))) = s'"
  proof (cases "is_open s'")
    case True
    with False show ?thesis by (subst fold_without_configure) auto
  next
    case False
    then show ?thesis by (subst fold_apply_closed) simp_all
  qed
  then show ?thesis by (simp add: absorb_def Let_def)
qed

lemma absorb_restart_fails:
  assumes "step (state d) e = Ok s' cs" and "restart_fails env e d"
  shows "state (absorb env s' cs d) = Idle \<and> erased (absorb env s' cs d)"
  using assms refresh_configures [of "state d"]
  by (auto simp: restart_fails_def absorb_def erased_def Let_def handle_configure_ice_servers_def)

end

interpretation table: machine_contract "transition clk" for clk
proof
  fix s e s' cs
  assume "transition clk s e = Ok s' cs" and "is_open s'" and "\<not> is_open s"
  then show "ResetIdle \<in> set cs"
    by (cases s; cases e rule: event_full_cases)
       (auto simp: transition_defs Let_def split: if_splits prod.splits option.splits)
next
  fix s e s' cs r
  assume "transition clk s e = Ok s' cs" and "is_open s'"
  then show "TearDownChannel r \<notin> set cs"
    by (cases s; cases e rule: event_full_cases)
       (auto simp: transition_defs Let_def split: if_splits prod.splits option.splits)
next
  fix s e s' cs
  assume "transition clk s e = Ok s' cs" and "DrainOutbound \<in> set cs"
  then obtain c where "is_open s'" and
    "cs = ResetIdle # DrainOutbound # map EmitTelemetry
       [StateTransition ''Verifying'' ''Open'' ''verify_ok'', HandshakeCompleted 0 0 0]"
    by (cases s; cases e rule: event_full_cases)
       (auto simp: transition_defs Let_def split: if_splits prod.splits option.splits)
  then show "is_open s' \<and> (\<exists>ts. cs = ResetIdle # DrainOutbound # map EmitTelemetry ts)"
    by blast
next
  fix s e s' cs ss
  assume "transition clk s e = Ok s' cs" and "is_open s'" and "ConfigureIceServers ss \<in> set cs"
  then show "e = TurnRefreshed ss \<and> s' = s \<and> cs = [ConfigureIceServers ss]"
    by (cases s; cases e rule: event_full_cases)
       (auto simp: transition_defs Let_def split: if_splits prod.splits option.splits)
next
  fix s ss
  assume "is_open s"
  then show "transition clk s (TurnRefreshed ss) = Ok s [ConfigureIceServers ss]"
    by (cases s) (simp_all add: transition_defs)
qed

subsection \<open>Invariant and refinement\<close>

lemma dispatch_inv: "driver_inv d \<Longrightarrow> driver_inv (dispatch env clk e d)"
  by (cases "transition clk (state d) e") (auto simp: dispatch_def dest: table.absorb_inv)

lemma emit_telemetry_inv [simp]: "driver_inv (emit_telemetry k d) \<longleftrightarrow> driver_inv d"
  by (simp add: driver_inv_def)

lemma handle_control_inv: "driver_inv d \<Longrightarrow> driver_inv (handle_control env clk c d)"
  by (cases c) (simp_all add: dispatch_inv)

lemma handle_outbound_inv: "driver_inv d \<Longrightarrow> driver_inv (handle_outbound env out d)"
  by (auto simp: handle_outbound_def driver_inv_def Let_def)

lemma spawn_inv: "driver_inv (spawn cfg)"
  by (simp add: driver_inv_def spawn_def)

text \<open>
  C4. The snapshot that callers read without awaiting the driver always names the current
  state, and an idle watchdog runs exactly while the session is open: both hold for a
  fresh driver and are kept by every dispatched event, every control message, every
  outbound request and, until the driver shuts down, every round of its loop, whatever the
  channel answers.
\<close>

theorem driver_invariant:
  "driver_inv (spawn cfg)
   \<and> (driver_inv d \<longrightarrow>
        driver_inv (dispatch env clk e d)
        \<and> (\<forall>r. fst (run_once env clk r d) \<longrightarrow> driver_inv (snd (run_once env clk r d))))"
  by (auto simp: spawn_inv dispatch_inv handle_control_inv handle_outbound_inv run_once_def Let_def
      split: option.splits)

text \<open>
  C5. The driver implements the pure machine: after dispatching any event its state is
  exactly the machine's next state, unless new TURN servers arrive while the session is
  open and its channel cannot restart ICE with them. Then, and only then, the driver is
  idle instead, with channel, session key and queue erased.
\<close>

theorem dispatch_refines_machine:
  "state (dispatch env clk e d) =
     (if restart_fails env e d then Idle else next_state clk (state d) e)
   \<and> (restart_fails env e d \<longrightarrow> erased (dispatch env clk e d))"
proof (cases "transition clk (state d) e")
  case (Ok s' cs)
  from table.absorb_state [OF this, of env] table.absorb_restart_fails [OF this, of env] show ?thesis
    by (auto simp: dispatch_def next_state_def Ok)
next
  case (Illegal i)
  then have "\<not> restart_fails env e d"
    using table.refresh_configures [of "state d" clk] by (auto simp: restart_fails_def)
  with Illegal show ?thesis by (simp add: dispatch_def next_state_def)
qed

subsection \<open>What leaves through the channel\<close>

definition sealed_wire ::
  "'ch driver_env \<Rightarrow> P2PCrypto \<Rightarrow> OutboundRequest list \<Rightarrow> bytes \<Rightarrow> bool" where
  "sealed_wire env c reqs w \<longleftrightarrow>
     (\<exists>req \<in> set reqs. \<exists>i f. encrypt (lib env) c (ivs env i) (req_payload req) = Okay f
        \<and> frame_to_vec env f = Okay w)"

lemma fst_seal_all_Cons:
  "fst (seal_all env c i (r # rs)) =
     (case encrypt (lib env) c (ivs env i) (req_payload r) of
        Inl e \<Rightarrow> fst (seal_all env c (Suc i) rs)
      | Inr f \<Rightarrow>
          (case frame_to_vec env f of
             Inl e \<Rightarrow> fst (seal_all env c (Suc i) rs)
           | Inr b \<Rightarrow> b # fst (seal_all env c (Suc i) rs)))"
  by (simp split: prod.splits sum.splits)

lemma snd_seal_all_Cons:
  "snd (seal_all env c i (r # rs)) =
     (case encrypt (lib env) c (ivs env i) (req_payload r) of
        Inl e \<Rightarrow> Telemetry (Fallback ''encrypt_failed'') # snd (seal_all env c (Suc i) rs)
      | Inr f \<Rightarrow> snd (seal_all env c (Suc i) rs))"
  by (simp split: prod.splits sum.splits)

lemma seal_all_sealed: "w \<in> set (fst (seal_all env c i reqs)) \<Longrightarrow> sealed_wire env c reqs w"
proof (induction reqs arbitrary: i)
  case (Cons r rs)
  have "w \<in> set (fst (seal_all env c (Suc i) rs)) \<or>
    (\<exists>f. encrypt (lib env) c (ivs env i) (req_payload r) = Okay f \<and> frame_to_vec env f = Okay w)"
    using Cons.prems by (auto simp: fst_seal_all_Cons simp del: seal_all.simps split: sum.splits)
  with Cons.IH [of "Suc i"] show ?case by (auto simp: sealed_wire_def)
qed simp

lemma seal_all_no_send: "ChannelSend w \<notin> set (snd (seal_all env c i reqs))"
  by (induction reqs arbitrary: i)
     (auto simp: snd_seal_all_Cons simp del: seal_all.simps(2) split: sum.splits)

lemma send_all_sends: "ChannelSend w \<in> set (send_all env ch ws) \<Longrightarrow> w \<in> set ws"
  by (induction ws) (auto split: sum.splits)

lemma drain_outbound_sends:
  assumes "ChannelSend w \<in> set (effects (drain_outbound env d))"
  shows "ChannelSend w \<in> set (effects d)
    \<or> (is_open (state d) \<and> (\<exists>c. crypto d = Some c \<and> sealed_wire env c (pending_outbound d) w))"
proof (cases "is_open (state d) \<and> crypto d \<noteq> None \<and> channel d \<noteq> None")
  case False
  then have "drain_outbound env d = d"
    by (auto simp: drain_outbound_def split: option.splits)
  with assms show ?thesis by simp
next
  case True
  then obtain c ch where c: "crypto d = Some c" and ch: "channel d = Some ch"
    and op: "is_open (state d)" by auto
  obtain ws effs where sa: "seal_all env c 0 (pending_outbound d) = (ws, effs)"
    by (cases "seal_all env c 0 (pending_outbound d)")
  with assms c ch op
  have "ChannelSend w \<in> set (effects d) \<or> ChannelSend w \<in> set effs
      \<or> ChannelSend w \<in> set (send_all env ch ws)"
    by (auto simp: drain_outbound_def)
  with seal_all_no_send [of w env c 0 "pending_outbound d"]
    seal_all_sealed [of w env c 0 "pending_outbound d"] send_all_sends [of w env ch ws] sa c op
  show ?thesis by auto
qed

lemma effect_effects: "set (effects (effect e d)) = insert e (set (effects d))"
  by simp

lemma stop_watchdog_sends:
  "ChannelSend w \<in> set (effects (stop_watchdog d)) \<longleftrightarrow> ChannelSend w \<in> set (effects d)"
  by (auto simp: stop_watchdog_def split: option.splits)

lemma tear_down_sends:
  "ChannelSend w \<in> set (effects (tear_down r d)) \<longleftrightarrow> ChannelSend w \<in> set (effects d)"
  by (auto simp: tear_down_def Let_def stop_watchdog_sends split: option.splits)

lemma teardown_for_turn_refresh_sends:
  "ChannelSend w \<in> set (effects (teardown_for_turn_refresh r d)) \<longleftrightarrow> ChannelSend w \<in> set (effects d)"
  by (auto simp: teardown_for_turn_refresh_def Let_def tear_down_sends)

lemma configure_sends:
  "ChannelSend w \<in> set (effects (handle_configure_ice_servers env ss d))
     \<longleftrightarrow> ChannelSend w \<in> set (effects d)"
  by (auto simp: handle_configure_ice_servers_def Let_def teardown_for_turn_refresh_sends
      split: option.splits prod.splits sum.splits)

lemma apply_command_sends:
  "c \<noteq> DrainOutbound \<Longrightarrow>
   ChannelSend w \<in> set (effects (apply_command env c d)) \<longleftrightarrow> ChannelSend w \<in> set (effects d)"
  by (cases c) (auto simp: configure_sends tear_down_sends)

lemma fold_apply_sends:
  "DrainOutbound \<notin> set cs \<Longrightarrow>
   ChannelSend w \<in> set (effects (fold (apply_command env) cs d)) \<longleftrightarrow> ChannelSend w \<in> set (effects d)"
proof (induction cs arbitrary: d)
  case (Cons c cs)
  then have "c \<noteq> DrainOutbound" and "DrainOutbound \<notin> set cs" by auto
  with Cons.IH apply_command_sends [of c w env d] show ?case by simp
qed simp

lemma dispatch_sends:
  assumes "ChannelSend w \<in> set (effects (dispatch env clk e d))"
  shows "ChannelSend w \<in> set (effects d)
    \<or> (is_open (next_state clk (state d) e)
       \<and> (\<exists>c. crypto d = Some c \<and> sealed_wire env c (pending_outbound d) w))"
proof (cases "transition clk (state d) e")
  case (Illegal m)
  with assms show ?thesis by (simp add: dispatch_def)
next
  case ok: (Ok s' cs)
  let ?d1 = "update_snapshot (d\<lparr>state := s'\<rparr>)"
  from assms ok have sent: "ChannelSend w \<in> set (effects (fold (apply_command env) cs ?d1))"
    by (auto simp: dispatch_def absorb_def Let_def stop_watchdog_sends split: if_splits)
  show ?thesis
  proof (cases "DrainOutbound \<in> set cs")
    case False
    with sent fold_apply_sends [of cs w env ?d1] show ?thesis by simp
  next
    case True
    from table.drain_at_open [OF ok True] obtain ts where op: "is_open s'"
      and cs: "cs = ResetIdle # DrainOutbound # map EmitTelemetry ts" by auto
    let ?r = "apply_command env ResetIdle ?d1"
    have "DrainOutbound \<notin> set (map EmitTelemetry ts)" by auto
    with sent cs have "ChannelSend w \<in> set (effects (drain_outbound env ?r))"
      by (simp add: fold_apply_sends del: apply_command.simps(5))
    moreover have "crypto ?r = crypto d" "pending_outbound ?r = pending_outbound d" by simp_all
    ultimately show ?thesis
      using drain_outbound_sends [of w env ?r] apply_command_sends [of ResetIdle w env ?d1] op ok
      by (auto simp: next_state_def)
  qed
qed

lemma handle_outbound_sends:
  assumes "ChannelSend w \<in> set (effects (handle_outbound env out d))"
  shows "ChannelSend w \<in> set (effects d)
    \<or> (is_open (state d)
       \<and> (\<exists>c. crypto d = Some c \<and> sealed_wire env c (pending_outbound d @ [out]) w))"
proof -
  let ?d1 = "d\<lparr>pending_outbound := pending_outbound d @ [out]\<rparr>"
  from assms have "ChannelSend w \<in> set (effects d)
      \<or> ChannelSend w \<in> set (effects (drain_outbound env ?d1))"
    by (auto simp: handle_outbound_def Let_def split: if_splits)
  then show ?thesis using drain_outbound_sends [of w env ?d1] by auto
qed

text \<open>
  C2. Only sealed frames, only on a verified session. Every frame that the driver writes
  to the channel while it dispatches an event or takes an outbound request (recorded from
  an empty effect log on) is the serialization of an AES-GCM frame that seals one of the
  queued payloads under the session key, and it is written while the machine is in \<open>Open\<close>.
\<close>

theorem only_sealed_frames_when_open:
  assumes "effects d = []"
  shows "(\<forall>w. ChannelSend w \<in> set (effects (dispatch env clk e d)) \<longrightarrow>
         is_open (next_state clk (state d) e)
         \<and> (\<exists>c. crypto d = Some c \<and> sealed_wire env c (pending_outbound d) w))
   \<and> (\<forall>w. ChannelSend w \<in> set (effects (handle_outbound env out d)) \<longrightarrow>
         is_open (state d)
         \<and> (\<exists>c. crypto d = Some c \<and> sealed_wire env c (pending_outbound d @ [out]) w))"
  using dispatch_sends [of _ env clk e d] handle_outbound_sends [of _ env out d] assms by auto

definition sample_env :: "unit driver_env" where
  "sample_env =
     \<lparr>restart_ice = (\<lambda>ch ss. (Inl RestartIceUnsupported, ch)), channel_send = (\<lambda>ch w. Okay ()),
      frame_to_vec = (\<lambda>f. Okay (as_bytes (ciphertext f))), lib = sample_crypto_lib,
      ivs = (\<lambda>_. replicate 12 1)\<rparr>"

definition sample_driver :: "unit DriverTask" where
  "sample_driver =
     (spawn (config_new ''@u:x'' ''DEV'' ''!r:x''))
       \<lparr>state := Verifying ''c'' ''p'' (replicate 32 0), snapshot := snapshot_from (Verifying ''c'' ''p'' (replicate 32 0)),
        channel := Some (), crypto := Some \<lparr>cipher = [9]\<rparr>,
        pending_outbound := [\<lparr>req_event_type = ''t'', req_payload = [1, 2]\<rparr>]\<rparr>"

lemmas sample_defs = sample_driver_def sample_env_def spawn_def config_new_def

theorem driver_invariant_witness:
  "driver_inv (dispatch sample_env (\<lambda>_. 5) (Hangup ''bye'') (spawn (config_new ''u'' ''d'' ''r'')))"
  using driver_invariant [of "config_new ''u'' ''d'' ''r''"
      "spawn (config_new ''u'' ''d'' ''r'')" sample_env "\<lambda>_. 5" "Hangup ''bye''"]
    driver_invariant [of "config_new ''u'' ''d'' ''r''"] by auto


lemma sample_driver_sends:
  "effects (dispatch sample_env (\<lambda>_. 5) VerifyOk sample_driver) =
     [WatchdogSpawn DEFAULT_IDLE_WINDOW, ChannelSend [9, 1, 2],
      Telemetry (StateTransition ''Verifying'' ''Open'' ''verify_ok''),
      Telemetry (HandshakeCompleted 0 0 0)]"
  by (simp add: sample_defs dispatch_def absorb_def transition_defs Let_def update_snapshot_def
      effect_def drain_outbound_def emit_telemetry_def encrypt_def sample_crypto_lib_def
      as_bytes_def of_nat_of_char [where ?'a = "8 word", symmetric])

theorem only_sealed_frames_when_open_witness:
  "ChannelSend [9, 1, 2] \<in> set (effects (dispatch sample_env (\<lambda>_. 5) VerifyOk sample_driver))
   \<and> is_open (next_state (\<lambda>_. 5) (state sample_driver) VerifyOk)"
  using only_sealed_frames_when_open [of sample_driver sample_env "\<lambda>_. 5" VerifyOk]
  by (simp add: sample_driver_sends) (simp add: sample_defs)

text \<open>An open session whose channel cannot restart ICE, as neither backend can.\<close>

theorem dispatch_refines_machine_witness:
  "state (dispatch sample_env (\<lambda>_. 5) (TurnRefreshed []) (sample_driver\<lparr>state := Open ''c'' 3\<rparr>)) = Idle
   \<and> next_state (\<lambda>_. 5) (Open ''c'' 3) (TurnRefreshed []) = Open ''c'' 3
   \<and> erased (dispatch sample_env (\<lambda>_. 5) (TurnRefreshed []) (sample_driver\<lparr>state := Open ''c'' 3\<rparr>))"
  using dispatch_refines_machine [of sample_env "\<lambda>_. 5" "TurnRefreshed []" "sample_driver\<lparr>state := Open ''c'' 3\<rparr>"]
  by (simp add: restart_fails_def sample_env_def sample_driver_def next_state_def transition_defs)

subsection \<open>The end of a call\<close>

lemma apply_command_erased: "erased d \<Longrightarrow> erased (apply_command env c d)"
  by (cases c) (auto simp: erased_def handle_configure_ice_servers_def drain_outbound_def)

lemma fold_apply_erased:
  "erased d \<or> (\<exists>r. TearDownChannel r \<in> set cs) \<Longrightarrow> erased (fold (apply_command env) cs d)"
proof (induction cs arbitrary: d)
  case (Cons c cs)
  have "erased (apply_command env c d) \<or> (\<exists>r. TearDownChannel r \<in> set cs)"
    using Cons.prems by (auto simp: apply_command_erased) (auto simp: erased_def)
  then show ?case using Cons.IH by simp
qed simp

lemma stop_watchdog_erased [simp]: "erased (stop_watchdog d) \<longleftrightarrow> erased d"
  by (simp add: erased_def)

lemma absorb_erased: "\<exists>r. TearDownChannel r \<in> set cs \<Longrightarrow> erased (absorb env s' cs d)"
  by (auto simp: absorb_def Let_def fold_apply_erased)

lemma transition_closed_table:
  assumes "transition clk s (ChannelEvt (ChClosed r)) = Ok s' cs"
    and "current_call s = Some x" and "current_call s' = None"
  shows "\<exists>a b q. cs = [EmitTelemetry (StateTransition a b q)]"
  using assms by (cases s) (auto simp: transition_defs)

text \<open>
  C12. The session key does not outlive the call. When a dispatched event ends a call, the
  driver has closed and dropped the channel, dropped the session key and emptied the
  outbound queue, except in one case: when the channel itself reports that it closed, the
  state leaves the call but the channel, the key and the queue are all kept.
\<close>

theorem call_end_erases:
  assumes "current_call (state d) \<noteq> None"
    and "current_call (next_state clk (state d) e) = None"
  shows "if \<exists>r. e = ChannelEvt (ChClosed r)
         then channel (dispatch env clk e d) = channel d
              \<and> crypto (dispatch env clk e d) = crypto d
              \<and> pending_outbound (dispatch env clk e d) = pending_outbound d
         else erased (dispatch env clk e d)"
proof (cases "transition clk (state d) e")
  case (Illegal m)
  with assms show ?thesis by (simp add: next_state_def)
next
  case ok: (Ok s' cs)
  obtain c p where cp: "current_call (state d) = Some (c, p)" using assms(1) by auto
  show ?thesis
  proof (cases "\<exists>r. e = ChannelEvt (ChClosed r)")
    case False
    with transition_call_table [OF ok cp] assms(2) ok
    have "\<exists>r. TearDownChannel r \<in> set cs" by (auto simp: next_state_def)
    with False ok show ?thesis by (auto simp: dispatch_def absorb_erased)
  next
    case True
    then obtain r where e: "e = ChannelEvt (ChClosed r)" by blast
    have "\<exists>a b q. cs = [EmitTelemetry (StateTransition a b q)]"
      by (rule transition_closed_table [of clk "state d" r s']) (use ok cp assms(2) e in \<open>auto simp: next_state_def\<close>)
    with ok e show ?thesis by (auto simp: dispatch_def absorb_def Let_def)
  qed
qed

theorem call_end_erases_witness:
  "current_call (state sample_driver) \<noteq> None
   \<and> erased (dispatch sample_env (\<lambda>_. 5) (VerifyFail SignatureMismatch) sample_driver)
   \<and> crypto (dispatch sample_env (\<lambda>_. 5) (ChannelEvt (ChClosed ''x'')) sample_driver) \<noteq> None"
  using call_end_erases [of sample_driver "\<lambda>_. 5" "VerifyFail SignatureMismatch" sample_env]
    call_end_erases [of sample_driver "\<lambda>_. 5" "ChannelEvt (ChClosed ''x'')" sample_env]
  by (simp add: sample_defs next_state_def transition_defs)

subsection \<open>Lockout\<close>

lemma dispatch_locked: "locked_peers d \<subseteq> locked_peers (dispatch env clk e d)"
proof -
  have "locked_peers d \<subseteq> locked_peers (fold (apply_command env) cs (update_snapshot (d\<lparr>state := s'\<rparr>)))"
    for cs s' using fold_apply_locked [of "update_snapshot (d\<lparr>state := s'\<rparr>)" env cs] by simp
  then show ?thesis
    by (auto simp: dispatch_def absorb_def Let_def split: TransitionResult.splits)
qed

lemma handle_control_locked: "locked_peers d \<subseteq> locked_peers (handle_control env clk c d)"
  by (cases c) (use dispatch_locked in \<open>fastforce+\<close>)

lemma handle_outbound_locked [simp]: "locked_peers (handle_outbound env out d) = locked_peers d"
  by (simp add: handle_outbound_def Let_def)

lemma run_once_locked: "locked_peers d \<subseteq> locked_peers (snd (run_once env clk r d))"
  by (auto simp: run_once_def Let_def split: option.splits
      dest: subsetD [OF dispatch_locked] subsetD [OF handle_control_locked])

fun strikes :: "nat \<Rightarrow> str \<Rightarrow> 'ch DriverTask \<Rightarrow> 'ch DriverTask" where
  "strikes 0 peer d = d"
| "strikes (Suc n) peer d = strikes n peer (snd (bump_verify_failure peer d))"

lemma bump_locked: "locked_peers d \<subseteq> locked_peers (snd (bump_verify_failure peer d))"
  by (auto simp: bump_verify_failure_def Let_def)

lemma strikes_locked: "locked_peers d \<subseteq> locked_peers (strikes n peer d)"
  by (induction n arbitrary: d) (auto dest: subsetD [OF bump_locked])

lemma bump_state [simp]: "state (snd (bump_verify_failure peer d)) = state d"
  by (simp add: bump_verify_failure_def Let_def)

lemma bump_verify_failures [simp]:
  "verify_failures (snd (bump_verify_failure peer d)) =
     (verify_failures d)(peer \<mapsto> (case verify_failures d peer of Some n \<Rightarrow> n | None \<Rightarrow> 0) + 1)"
  by (simp add: bump_verify_failure_def emit_telemetry_def Let_def)

lemma bump_locks:
  "locked_peers (snd (bump_verify_failure peer d)) =
     (if (case verify_failures d peer of Some n \<Rightarrow> n | None \<Rightarrow> 0) + 1 \<ge> 3
      then insert peer (locked_peers d) else locked_peers d)"
  by (simp add: bump_verify_failure_def Let_def)

lemma strikes_state [simp]: "state (strikes n peer d) = state d"
  by (induction n arbitrary: d) simp_all

lemma three_strikes:
  assumes "verify_failures d peer = None"
  shows "peer \<in> locked_peers (strikes 3 peer d)"
    and "peer \<notin> locked_peers d \<Longrightarrow> peer \<notin> locked_peers (strikes 2 peer d)"
proof -
  have three: "strikes 3 peer d = snd (bump_verify_failure peer (strikes 2 peer d))"
    by (simp add: numeral_3_eq_3 numeral_2_eq_2)
  have two: "strikes 2 peer d = snd (bump_verify_failure peer (snd (bump_verify_failure peer d)))"
    by (simp add: numeral_2_eq_2)
  show "peer \<in> locked_peers (strikes 3 peer d)"
    using assms by (simp add: three two bump_locks)
  show "peer \<notin> locked_peers d \<Longrightarrow> peer \<notin> locked_peers (strikes 2 peer d)"
    using assms by (simp add: two bump_locks word_le_nat_alt)
qed

text \<open>
  Three strikes. A peer with no recorded failure is locked out by its third handshake
  failure and not by its second; later failures and every later round of the driver keep
  it locked out; and a start towards a locked-out peer changes nothing but the security
  telemetry.
\<close>

lemma three_strike_lockout:
  assumes "verify_failures d peer = None" and "peer \<notin> locked_peers d" and "3 \<le> n"
  shows "peer \<notin> locked_peers (strikes 2 peer d)
    \<and> peer \<in> locked_peers (snd (run_once env clk r (strikes n peer d)))
    \<and> handle_control env clk (CtlStart peer dev) (strikes n peer d) =
        (strikes n peer d)\<lparr>effects := effects (strikes n peer d) @
           [Telemetry (SecurityEvent SecWrongPeer (Some peer))]\<rparr>"
proof -
  have add: "strikes (k + m) peer d = strikes m peer (strikes k peer d)" for k m
    by (induction k arbitrary: d) simp_all
  have locked: "peer \<in> locked_peers (strikes n peer d)"
    using three_strikes(1) [OF assms(1)] add [of 3 "n - 3"] assms(3)
      strikes_locked [of "strikes 3 peer d" "n - 3" peer] by auto
  then have "peer \<in> locked_peers (snd (run_once env clk r (strikes n peer d)))"
    using run_once_locked by blast
  with locked three_strikes(2) [OF assms(1,2)] show ?thesis
    by (simp add: emit_telemetry_def effect_def)
qed

lemma three_strike_lockout_example:
  "''@eve:x'' \<in> locked_peers (strikes 3 ''@eve:x'' sample_driver)
   \<and> state (handle_control sample_env (\<lambda>_. 0) (CtlStart ''@eve:x'' None) (strikes 3 ''@eve:x'' sample_driver))
     = state sample_driver"
proof -
  have pre: "verify_failures sample_driver ''@eve:x'' = None" "''@eve:x'' \<notin> locked_peers sample_driver"
    by (simp_all add: sample_defs)
  show ?thesis
    using three_strike_lockout [OF pre, of 3 sample_env "\<lambda>_. 0" "\<lparr>rdy_shutdown = False, rdy_idle = False,
        rdy_control = None, rdy_call_event = None, rdy_outbound = None\<rparr>" None]
    by (simp add: run_once_def del: strikes.simps)
qed

subsection \<open>The replay window\<close>

interpretation nonces: bounded_window REPLAY_WINDOW_SIZE push_nonce "\<lambda>ws. ws"
  by unfold_locales (auto simp: push_nonce_def REPLAY_WINDOW_SIZE_def)

fun check_all :: "(str \<times> bytes) list \<Rightarrow> 'ch DriverTask \<Rightarrow> 'ch DriverTask" where
  "check_all [] d = d"
| "check_all ((c, n) # qs) d = check_all qs (snd (check_replay c n d))"

lemma check_replay_iff: "fst (check_replay c n d) \<longleftrightarrow> (n, c) \<in> set (recent_nonces d)"
  by (auto simp: check_replay_def)

lemma check_replay_nonces:
  "recent_nonces (snd (check_replay c n d)) =
     (if (n, c) \<in> set (recent_nonces d) then recent_nonces d
      else push_nonce (n, c) (recent_nonces d))"
  by (auto simp: check_replay_def)

lemma check_all_nonces:
  "\<exists>xs. length xs \<le> length qs \<and> recent_nonces (check_all qs d) = fold push_nonce xs (recent_nonces d)"
proof (induction qs d rule: check_all.induct)
  case (2 c n qs d)
  then obtain xs where xs: "length xs \<le> length qs"
    "recent_nonces (check_all qs (snd (check_replay c n d))) =
       fold push_nonce xs (recent_nonces (snd (check_replay c n d)))" by blast
  show ?case
  proof (cases "(n, c) \<in> set (recent_nonces d)")
    case True
    with xs show ?thesis by (intro exI [of _ xs]) (auto simp: check_replay_nonces)
  next
    case False
    with xs show ?thesis by (intro exI [of _ "(n, c) # xs"]) (auto simp: check_replay_nonces)
  qed
qed auto

text \<open>
  Replay detection. The window never holds more than 16 pairs; a pair is reported as a
  replay exactly when it is in the window; and once a fresh pair has been accepted, the
  same pair is reported as a replay again after any fewer than 16 further checks,
  whatever they are.
\<close>

lemma replay_window:
  assumes "length (recent_nonces d) \<le> 16"
    and "\<not> fst (check_replay c n d)" and "length qs < 16"
  shows "fst (check_replay c n (check_all qs (snd (check_replay c n d))))
    \<and> length (recent_nonces (check_all qs (snd (check_replay c n d)))) \<le> 16"
proof -
  let ?d1 = "snd (check_replay c n d)"
  have fresh: "(n, c) \<notin> set (recent_nonces d)"
    using assms(2) by (simp add: check_replay_iff)
  then obtain pre where pre: "recent_nonces ?d1 = pre @ (n, c) # []"
    by (simp add: check_replay_nonces push_nonce_def)
  have len: "length (recent_nonces ?d1) \<le> REPLAY_WINDOW_SIZE"
    using fresh assms(1) nonces.push_bound [of "recent_nonces d" "(n, c)"]
    by (simp add: check_replay_nonces REPLAY_WINDOW_SIZE_def)
  obtain xs where xs: "length xs \<le> length qs"
    "recent_nonces (check_all qs ?d1) = fold push_nonce xs (recent_nonces ?d1)"
    using check_all_nonces by blast
  have "(n, c) \<in> set (fold push_nonce xs (recent_nonces ?d1))"
    using nonces.fold_push_survives [OF pre len, of xs] xs(1) assms(3)
    by (simp add: REPLAY_WINDOW_SIZE_def)
  moreover have "length (fold push_nonce xs (recent_nonces ?d1)) \<le> 16"
    using nonces.fold_push_bound [OF len, of xs] by (simp add: REPLAY_WINDOW_SIZE_def)
  ultimately show ?thesis using xs(2) by (simp add: check_replay_iff)
qed

lemma replay_window_example:
  "fst (check_replay ''c'' [1] (check_all [(''c'', [2]), (''d'', [1])]
     (snd (check_replay ''c'' [1] sample_driver))))"
proof -
  have none: "recent_nonces sample_driver = []" by (simp add: sample_driver_def spawn_def)
  then have "\<not> fst (check_replay ''c'' [1] sample_driver)" by (simp add: check_replay_iff)
  from replay_window [OF _ this, of "[(''c'', [2]), (''d'', [1])]"] none show ?thesis by simp
qed

end
