(* ===== verification/P2P_Driver_Loop.thy ===== *)
theory P2P_Driver_Loop
  imports P2P_Driver_Safety
begin

section \<open>The driver's loop and its rate limit\<close>

text \<open>
  What the \<open>select!\<close> loop of \<open>driver.rs\<close> can and cannot reach: the states of a driver that
  is spawned and then only driven by rounds of the loop, as an inductive predicate, with
  an invariant proved by rule induction; what callers of \<open>try_send\<close> see in those states;
  and the sliding one-second window that counts decrypt failures.
\<close>

subsection \<open>States of the running loop\<close>

inductive loop_reach :: "'ch driver_env \<Rightarrow> P2PTransportConfig \<Rightarrow> 'ch DriverTask \<Rightarrow> bool"
  for env cfg where
  spawned: "loop_reach env cfg (spawn cfg)"
| round: "loop_reach env cfg d \<Longrightarrow> run_once env clk r d = (True, d') \<Longrightarrow> loop_reach env cfg d'"

definition dormant :: "P2PState \<Rightarrow> bool" where
  "dormant s \<longleftrightarrow> state_name s \<in> {''Idle'', ''FetchingTurn'', ''Answering'', ''Failed''}"

lemma dormant_not_open: "dormant s \<Longrightarrow> \<not> is_open s"
  by (cases s) (simp_all add: dormant_def)

definition loop_event :: "Event \<Rightarrow> bool" where
  "loop_event e =
     (case e of Start _ _ _ _ _ _ \<Rightarrow> True | Hangup _ \<Rightarrow> True | CallEventReceived _ \<Rightarrow> True
      | IdleTick \<Rightarrow> True | _ \<Rightarrow> False)"

lemma dormant_next: "dormant s \<Longrightarrow> loop_event e \<Longrightarrow> dormant (next_state clk s e)"
  by (cases s; cases e rule: event_full_cases)
     (simp_all add: dormant_def loop_event_def next_state_def transition_defs)

text \<open>A driver without a channel, a key or anything queued.\<close>

definition unconnected :: "'ch DriverTask \<Rightarrow> bool" where
  "unconnected d \<longleftrightarrow>
     dormant (state d) \<and> channel d = None \<and> crypto d = None \<and> pending_outbound d = []
     \<and> snapshot d = snapshot_from (state d) \<and> (\<forall>w. ChannelSend w \<notin> set (effects d))"

lemma apply_command_unconnected:
  assumes "unconnected d"
  shows "unconnected (apply_command env c d)"
proof -
  from assms have closed: "\<not> is_open (state d)" and ch: "channel d = None" and k: "crypto d = None"
    by (simp_all add: unconnected_def dormant_not_open)
  then have "handle_configure_ice_servers env ss d = d" and "drain_outbound env d = d" for ss
    by (simp_all add: handle_configure_ice_servers_def drain_outbound_def)
  with assms closed show ?thesis
    by (cases c) (auto simp: unconnected_def tear_down_sends)
qed

lemma fold_apply_unconnected: "unconnected d \<Longrightarrow> unconnected (fold (apply_command env) cs d)"
  by (induction cs arbitrary: d) (simp_all add: apply_command_unconnected)

lemma dispatch_unconnected:
  assumes "unconnected d" and "loop_event e"
  shows "unconnected (dispatch env clk e d)"
proof (cases "transition clk (state d) e")
  case (Ok s' cs)
  then have "dormant s'"
    using dormant_next [of "state d" e clk] assms by (simp add: unconnected_def next_state_def)
  with assms(1) have "unconnected (update_snapshot (d\<lparr>state := s'\<rparr>))"
    by (simp add: unconnected_def)
  from fold_apply_unconnected [OF this, of env cs] Ok assms(1) show ?thesis
    by (simp add: dispatch_def absorb_def Let_def unconnected_def dormant_not_open)
qed (use assms in \<open>simp add: dispatch_def\<close>)

lemma handle_control_unconnected: "unconnected d \<Longrightarrow> unconnected (handle_control env clk c d)"
  by (cases c) (auto simp: dispatch_unconnected loop_event_def, simp add: unconnected_def)

lemma handle_outbound_unconnected: "unconnected d \<Longrightarrow> unconnected (handle_outbound env out d)"
  by (auto simp: unconnected_def handle_outbound_def Let_def dormant_not_open)

lemma loop_unconnected: "loop_reach env cfg d \<Longrightarrow> unconnected d"
proof (induction rule: loop_reach.induct)
  case spawned
  then show ?case by (simp add: unconnected_def spawn_def dormant_def)
next
  case (round d clk r d')
  then show ?case
    by (auto simp: run_once_def Let_def dispatch_unconnected handle_control_unconnected
        handle_outbound_unconnected loop_event_def split: if_splits option.splits)
qed

text \<open>
  The loop as it stands never connects. A driver that is spawned and then runs any
  number of rounds of its loop, whatever arrives, is in \<open>Idle\<close>, \<open>FetchingTurn\<close>,
  \<open>Answering\<close> or \<open>Failed\<close>; it holds no channel and no session key, keeps nothing queued and
  has written nothing to a channel; and every \<open>try_send\<close> falls back to Matrix without
  queueing the payload. The loop has no arm for channel events, TURN credentials or
  verification outcomes, which are what the table needs to go further.
\<close>

lemma loop_never_connects:
  assumes "loop_reach env cfg d"
  shows "state_name (state d) \<in> {''Idle'', ''FetchingTurn'', ''Answering'', ''Failed''}
    \<and> channel d = None \<and> crypto d = None \<and> pending_outbound d = []
    \<and> (\<forall>w. ChannelSend w \<notin> set (effects d))
    \<and> try_send (snapshot d) enqueue = (FallbackToMatrix, False)"
  using loop_unconnected [OF assms] dormant_not_open [of "state d"]
  by (simp add: unconnected_def dormant_def try_send_def snapshot_from_def)

definition sample_round :: ready where
  "sample_round = \<lparr>rdy_shutdown = False, rdy_idle = False, rdy_control = Some (CtlStart ''@p:x'' None),
     rdy_call_event = None, rdy_outbound = None\<rparr>"

lemma loop_never_connects_example:
  "let d = snd (run_once sample_env (\<lambda>_. 0) sample_round (spawn (config_new ''u'' ''d'' ''r'')))
   in state d = FetchingTurn 0 \<and> try_send (snapshot d) (\<lambda>_. QueueOk) = (FallbackToMatrix, False)"
proof -
  let ?cfg = "config_new ''u'' ''d'' ''r''"
  let ?x = "run_once sample_env (\<lambda>_. 0) sample_round (spawn ?cfg)"
  have x: "?x = (True, dispatch sample_env (\<lambda>_. 0) (Start ''@p:x'' None ''u'' ''d'' ''r'' None) (spawn ?cfg))"
    by (simp add: run_once_def sample_round_def spawn_def config_new_def)
  have "loop_reach sample_env ?cfg (snd ?x)"
    by (rule loop_reach.round [OF loop_reach.spawned, where clk = "\<lambda>_. 0" and r = sample_round])
       (simp add: x)
  from loop_never_connects [OF this, of "\<lambda>_. QueueOk"] show ?thesis
    by (simp add: x) (simp add: dispatch_def absorb_def transition_defs spawn_def Let_def)
qed

subsection \<open>The decrypt-failure window\<close>

fun record_all :: "instant list \<Rightarrow> 'ch DriverTask \<Rightarrow> 'ch DriverTask" where
  "record_all [] d = d"
| "record_all (t # ts) d = record_all ts (snd (record_decrypt_failure t d))"

lemma dropWhile_sorted:
  "sorted ts \<Longrightarrow> dropWhile (\<lambda>t. t < x) ts = filter (\<lambda>t. x \<le> t) (ts :: nat list)"
proof (induction ts)
  case (Cons t ts)
  show ?case
  proof (cases "t < x")
    case False
    with Cons.prems have "\<forall>u \<in> set ts. x \<le> u" by auto
    with False show ?thesis by simp
  qed (use Cons in simp)
qed simp

lemma record_decrypt_failures:
  "sorted (last_decrypt_failures d) \<Longrightarrow> 1000 \<le> now \<Longrightarrow>
   last_decrypt_failures (snd (record_decrypt_failure now d)) =
     filter (\<lambda>t. now - 1000 \<le> t) (last_decrypt_failures d) @ [now]"
  by (simp add: record_decrypt_failure_def Let_def from_secs_def dropWhile_sorted)

lemma record_all_window:
  assumes "sorted (ts @ [now])" and "\<forall>t \<in> set (ts @ [now]). 1000 \<le> t" and "last_decrypt_failures d = []"
  shows "filter (\<lambda>t. now - 1000 \<le> t) (last_decrypt_failures (record_all ts d)) =
           filter (\<lambda>t. now - 1000 \<le> t) ts \<and> sorted (last_decrypt_failures (record_all ts d))"
  using assms
proof (induction ts arbitrary: now rule: rev_induct)
  case (snoc t ts)
  have step: "record_all (xs @ [u]) d = snd (record_decrypt_failure u (record_all xs d))" for xs u
    by (induction xs arbitrary: d) simp_all
  from snoc.prems have sorted_t: "sorted (ts @ [t])" and le: "t \<le> now"
    by (auto simp: sorted_append)
  from snoc.IH [OF sorted_t] snoc.prems(2,3)
  have w: "filter (\<lambda>u. t - 1000 \<le> u) (last_decrypt_failures (record_all ts d)) =
      filter (\<lambda>u. t - 1000 \<le> u) ts" and so: "sorted (last_decrypt_failures (record_all ts d))"
    by auto
  have new: "last_decrypt_failures (record_all (ts @ [t]) d) = filter (\<lambda>u. t - 1000 \<le> u) ts @ [t]"
    using record_decrypt_failures [OF so, of t] snoc.prems(2) by (simp add: step w)
  have "filter (\<lambda>u. now - 1000 \<le> u \<and> t - 1000 \<le> u) ts = filter (\<lambda>u. now - 1000 \<le> u) ts"
    using le by (intro filter_cong) auto
  with new sorted_t show ?case
    by (auto simp: sorted_append conj_commute intro: sorted_filter [where f = id, simplified])
qed simp

text \<open>
  The decrypt-storm trigger counts exactly the failures of the last second. After any
  failures at nondecreasing clock readings of at least one second, the next failure
  reports a storm if and only if more than three failures, itself included, lie in the
  second that ends with it; and the window kept holds all of those, however many.
\<close>

lemma decrypt_storm_counts_last_second:
  assumes "sorted (ts @ [now])" and "\<forall>t \<in> set (ts @ [now]). from_secs 1 \<le> t"
    and "last_decrypt_failures d = []"
  shows "(fst (record_decrypt_failure now (record_all ts d)) \<longleftrightarrow>
            3 < length (filter (\<lambda>t. now \<le> t + from_secs 1) (ts @ [now])))
    \<and> last_decrypt_failures (snd (record_decrypt_failure now (record_all ts d))) =
        filter (\<lambda>t. now \<le> t + from_secs 1) (ts @ [now])"
proof -
  have now: "1000 \<le> now" using assms(2) by (simp add: from_secs_def)
  have w: "filter (\<lambda>t. now - 1000 \<le> t) (last_decrypt_failures (record_all ts d)) =
      filter (\<lambda>t. now - 1000 \<le> t) ts" and so: "sorted (last_decrypt_failures (record_all ts d))"
    using record_all_window [OF assms(1) _ assms(3)] assms(2) by (simp_all add: from_secs_def)
  have keep: "last_decrypt_failures (snd (record_decrypt_failure now (record_all ts d))) =
      filter (\<lambda>t. now \<le> t + from_secs 1) (ts @ [now])"
    using w now by (simp add: record_decrypt_failures [OF so now] from_secs_def le_diff_conv)
  have "fst (record_decrypt_failure now (record_all ts d)) \<longleftrightarrow>
      3 < length (last_decrypt_failures (snd (record_decrypt_failure now (record_all ts d))))"
    by (simp add: record_decrypt_failure_def Let_def DECRYPT_FAILURE_RATE_PER_SEC_def)
  then show ?thesis unfolding keep by blast
qed

lemma decrypt_storm_counts_last_second_example:
  "fst (record_decrypt_failure 2900 (record_all [1000, 2000, 2500, 2600] sample_driver))
   \<and> length (last_decrypt_failures (snd (record_decrypt_failure 2900
        (record_all [1000, 2000, 2500, 2600, 2700] sample_driver)))) = 5"
proof -
  have d: "last_decrypt_failures sample_driver = []" by (simp add: sample_driver_def spawn_def)
  show ?thesis
    using decrypt_storm_counts_last_second [of "[1000, 2000, 2500, 2600]" 2900, OF _ _ d]
      decrypt_storm_counts_last_second [of "[1000, 2000, 2500, 2600, 2700]" 2900, OF _ _ d]
    by (simp add: from_secs_def)
qed

end
