(* ===== verification/Verify.thy ===== *)
theory Verify
  imports P2P_Crypto P2P_State
begin

section \<open>The verifying handshake\<close>

text \<open>
  The model of \<open>crates/mxdx-p2p/src/transport/verify.rs\<close>: the canonical transcript, the
  extraction of DTLS fingerprints from SDP text, the base64 codecs with their length
  checks, the signer and the key source, and the two sides of the handshake. Ed25519 is a
  third-party crate: its operations are the fields of the parameter \<open>ed_lib\<close>, and what the
  code relies on is \<open>ed_law\<close>. Base64 is the field of \<open>crypto_lib\<close>. SDP text is modelled as its
  Unicode scalar values, since the extraction trims by \<open>char::is_whitespace\<close>; every other
  string is its UTF-8 bytes.
\<close>

subsection \<open>Constants and errors\<close>

definition DOMAIN_SEPARATION_TAG :: bytes where
  "DOMAIN_SEPARATION_TAG = as_bytes ''mxdx.p2p.verify.v1''"

definition FIELD_SEP :: u8 where
  "FIELD_SEP = 0"

definition NONCE_LEN :: nat where
  "NONCE_LEN = 32"

definition ED25519_SIGNATURE_LEN :: nat where
  "ED25519_SIGNATURE_LEN = 64"

definition ED25519_PUBLIC_KEY_LEN :: nat where
  "ED25519_PUBLIC_KEY_LEN = 32"

datatype VerifyError =
    VeInvalidBase64 str
  | VeInvalidSignatureLength nat
  | VeInvalidPublicKeyLength nat
  | VeInvalidNonceLength nat
  | VeInvalidPublicKey str
  | VeSignatureMismatch
  | VeMissingSdpFingerprint
  | VeSigningFailed str

datatype HandshakeMsg =
    Challenge (ch_nonce_b64: str) (ch_device_id: str)
  | Response (re_signature_b64: str) (re_signer_ed25519_b64: str) (re_device_id: str)

subsection \<open>The transcript\<close>

definition build_transcript ::
  "str \<Rightarrow> str \<Rightarrow> str \<Rightarrow> bytes \<Rightarrow> bytes \<Rightarrow> str \<Rightarrow> str \<Rightarrow> str \<Rightarrow> str \<Rightarrow> bytes" where
  "build_transcript room_id session_uuid call_id offerer_nonce answerer_nonce
     offerer_party_id answerer_party_id offerer_fp answerer_fp =
     DOMAIN_SEPARATION_TAG
     @ [FIELD_SEP] @ as_bytes room_id
     @ [FIELD_SEP] @ as_bytes session_uuid
     @ [FIELD_SEP] @ as_bytes call_id
     @ offerer_nonce
     @ answerer_nonce
     @ [FIELD_SEP] @ as_bytes offerer_party_id
     @ [FIELD_SEP] @ as_bytes answerer_party_id
     @ [FIELD_SEP] @ as_bytes offerer_fp
     @ [FIELD_SEP] @ as_bytes answerer_fp"

subsection \<open>Fingerprints in SDP text\<close>

text \<open>\<open>char::is_whitespace\<close>: the Unicode property White_Space.\<close>

definition is_whitespace :: "nat \<Rightarrow> bool" where
  "is_whitespace c \<longleftrightarrow>
     (9 \<le> c \<and> c \<le> 13) \<or> c = 32 \<or> c = 133 \<or> c = 160 \<or> c = 5760 \<or> (8192 \<le> c \<and> c \<le> 8202)
     \<or> c = 8232 \<or> c = 8233 \<or> c = 8239 \<or> c = 8287 \<or> c = 12288"

text \<open>\<open>str::trim\<close>.\<close>

definition trim :: "chars \<Rightarrow> chars" where
  "trim s = rev (dropWhile is_whitespace (rev (dropWhile is_whitespace s)))"

text \<open>
  \<open>str::lines\<close>: a line ends at a line feed, which is dropped together with a carriage
  return right before it; the rest after the last line feed is a line when it is not empty.
\<close>

definition strip_cr :: "chars \<Rightarrow> chars" where
  "strip_cr l = (if l \<noteq> [] \<and> last l = 13 then butlast l else l)"

function lines :: "chars \<Rightarrow> chars list" where
  "lines s =
     (if s = [] then []
      else
        (case dropWhile (\<lambda>c. c \<noteq> 10) s of
           [] \<Rightarrow> [s]
         | _ # rest \<Rightarrow> strip_cr (takeWhile (\<lambda>c. c \<noteq> 10) s) # lines rest))"
  by auto
termination
proof (relation "measure length")
  fix s :: chars and x rest
  assume "dropWhile (\<lambda>c. c \<noteq> 10) s = x # rest"
  then have "length (x # rest) \<le> length s" by (metis length_dropWhile_le)
  then show "(rest, s) \<in> measure length" by simp
qed simp

declare lines.simps [simp del]

definition strip_prefix :: "'a list \<Rightarrow> 'a list \<Rightarrow> 'a list option" where
  "strip_prefix p s = (if take (length p) s = p then Some (drop (length p) s) else None)"

definition to_ascii_uppercase :: "chars \<Rightarrow> chars" where
  "to_ascii_uppercase = map (\<lambda>c. if 97 \<le> c \<and> c \<le> 122 then c - 32 else c)"

definition eq_ignore_ascii_case :: "chars \<Rightarrow> chars \<Rightarrow> bool" where
  "eq_ignore_ascii_case a b \<longleftrightarrow> to_ascii_uppercase a = to_ascii_uppercase b"

definition char_codes :: "str \<Rightarrow> chars" where
  "char_codes s = map of_char s"

text \<open>The body of the loop: what one line contributes.\<close>

definition line_fingerprint :: "chars \<Rightarrow> chars option" where
  "line_fingerprint line =
     (case strip_prefix (char_codes ''a=fingerprint:'') (trim line) of
        None \<Rightarrow> None
      | Some rest \<Rightarrow>
          (let algo = takeWhile (\<lambda>c. \<not> is_whitespace c) rest;
               fp = trim (tl (dropWhile (\<lambda>c. \<not> is_whitespace c) rest))
           in if eq_ignore_ascii_case algo (char_codes ''sha-256'') \<and> fp \<noteq> []
              then Some (to_ascii_uppercase fp) else None))"

definition extract_sdp_fingerprint :: "chars \<Rightarrow> (VerifyError, chars) result" where
  "extract_sdp_fingerprint sdp =
     (let candidates = List.map_filter line_fingerprint (lines sdp)
      in if candidates = [] then Err VeMissingSdpFingerprint else Okay (hd (sort candidates)))"

definition canonical_sdp_fingerprints ::
  "chars \<Rightarrow> chars \<Rightarrow> (VerifyError, chars \<times> chars) result" where
  "canonical_sdp_fingerprints offer_sdp answer_sdp =
     (case extract_sdp_fingerprint offer_sdp of
        Inl e \<Rightarrow> Err e
      | Inr offerer_fp \<Rightarrow>
          (case extract_sdp_fingerprint answer_sdp of
             Inl e \<Rightarrow> Err e
           | Inr answerer_fp \<Rightarrow> Okay (offerer_fp, answerer_fp)))"

definition canonical_ordering :: "'a \<Rightarrow> 'a \<Rightarrow> bool \<Rightarrow> 'a \<times> 'a" where
  "canonical_ordering our theirs offerer = (if offerer then (our, theirs) else (theirs, our))"

fun we_are_offerer :: "GlareResult option \<Rightarrow> bool \<Rightarrow> bool" where
  "we_are_offerer (Some WeWin) sent_invite = True"
| "we_are_offerer (Some TheyWin) sent_invite = False"
| "we_are_offerer None sent_invite = sent_invite"

subsection \<open>Ed25519 and base64\<close>

text \<open>\<open>ed25519_dalek\<close>: parsing a verifying key, verifying, signing with a seed, its public key.\<close>

record ed_lib =
  ed_parse_key :: "bytes \<Rightarrow> (str, unit) result"
  ed_verify :: "bytes \<Rightarrow> bytes \<Rightarrow> bytes \<Rightarrow> bool"
  ed_sign :: "bytes \<Rightarrow> bytes \<Rightarrow> bytes"
  ed_public :: "bytes \<Rightarrow> bytes"

definition ed_law :: "ed_lib \<Rightarrow> bool" where
  "ed_law E \<longleftrightarrow>
     (\<forall>seed m. length (ed_sign E seed m) = 64 \<and> length (ed_public E seed) = 32
        \<and> ed_parse_key E (ed_public E seed) = Okay ()
        \<and> ed_verify E (ed_public E seed) m (ed_sign E seed m))"

definition verify_peer_signature ::
  "ed_lib \<Rightarrow> bytes \<Rightarrow> bytes \<Rightarrow> bytes \<Rightarrow> (VerifyError, unit) result" where
  "verify_peer_signature E pk sig transcript =
     (case ed_parse_key E pk of
        Inl e \<Rightarrow> Err (VeInvalidPublicKey e)
      | Inr _ \<Rightarrow> if ed_verify E pk transcript sig then Okay () else Err VeSignatureMismatch)"

definition decode_nonce_b64 :: "crypto_lib \<Rightarrow> str \<Rightarrow> (VerifyError, bytes) result" where
  "decode_nonce_b64 L b64 =
     (case b64_decode L b64 of
        Inl e \<Rightarrow> Err (VeInvalidBase64 e)
      | Inr raw \<Rightarrow> if length raw = NONCE_LEN then Okay raw else Err (VeInvalidNonceLength (length raw)))"

definition decode_signature_b64 :: "crypto_lib \<Rightarrow> str \<Rightarrow> (VerifyError, bytes) result" where
  "decode_signature_b64 L b64 =
     (case b64_decode L b64 of
        Inl e \<Rightarrow> Err (VeInvalidBase64 e)
      | Inr raw \<Rightarrow>
          if length raw = ED25519_SIGNATURE_LEN then Okay raw
          else Err (VeInvalidSignatureLength (length raw)))"

definition decode_public_key_b64 :: "crypto_lib \<Rightarrow> str \<Rightarrow> (VerifyError, bytes) result" where
  "decode_public_key_b64 L b64 =
     (case b64_decode L b64 of
        Inl e \<Rightarrow> Err (VeInvalidBase64 e)
      | Inr raw \<Rightarrow>
          if length raw = ED25519_PUBLIC_KEY_LEN then Okay raw
          else Err (VeInvalidPublicKeyLength (length raw)))"

definition encode_nonce :: "crypto_lib \<Rightarrow> bytes \<Rightarrow> str" where
  "encode_nonce L nonce = b64_encode L nonce"

definition encode_signature :: "crypto_lib \<Rightarrow> bytes \<Rightarrow> str" where
  "encode_signature L sig = b64_encode L sig"

definition encode_public_key :: "crypto_lib \<Rightarrow> bytes \<Rightarrow> str" where
  "encode_public_key L pk = b64_encode L pk"

subsection \<open>Signers and key sources\<close>

text \<open>The trait \<open>HandshakeSigner\<close> is its one method; the trait object of the key source too.\<close>

type_synonym HandshakeSigner = "bytes \<Rightarrow> (VerifyError, bytes \<times> bytes) result"
type_synonym HandshakePeerKeySource = "str \<Rightarrow> str \<Rightarrow> bytes option"

record EphemeralKeySigner =
  signing_key :: bytes

definition ephemeral_new :: "bytes \<Rightarrow> EphemeralKeySigner" where
  "ephemeral_new seed = \<lparr>signing_key = seed\<rparr>"

definition public_key :: "ed_lib \<Rightarrow> EphemeralKeySigner \<Rightarrow> bytes" where
  "public_key E s = ed_public E (signing_key s)"

definition ephemeral_sign :: "ed_lib \<Rightarrow> EphemeralKeySigner \<Rightarrow> HandshakeSigner" where
  "ephemeral_sign E s transcript =
     Okay (ed_sign E (signing_key s) transcript, ed_public E (signing_key s))"

record InMemoryPeerKeySource =
  keys :: "str \<times> str \<rightharpoonup> bytes"

definition key_source_new :: InMemoryPeerKeySource where
  "key_source_new = \<lparr>keys = Map.empty\<rparr>"

definition key_source_insert ::
  "str \<Rightarrow> str \<Rightarrow> bytes \<Rightarrow> InMemoryPeerKeySource \<Rightarrow> InMemoryPeerKeySource" where
  "key_source_insert user_id device_id key src = src\<lparr>keys := (keys src)((user_id, device_id) \<mapsto> key)\<rparr>"

definition peer_public_key :: "InMemoryPeerKeySource \<Rightarrow> HandshakePeerKeySource" where
  "peer_public_key src user device = keys src (user, device)"

subsection \<open>The two sides of the handshake\<close>

record HandshakeParams =
  hp_room_id :: str
  hp_session_uuid :: str
  hp_call_id :: str
  hp_our_nonce :: bytes
  hp_our_party_id :: str
  hp_our_user_id :: str
  hp_our_device_id :: str
  hp_peer_user_id :: str
  hp_peer_device_id :: str
  hp_our_sdp_fingerprint :: str
  hp_we_are_offerer :: bool

datatype HandshakeOutcome =
    HoVerified
  | HoSignatureMismatch
  | HoReplayDetected
  | HoPeerDeviceUnknown
  | HoInvalidPayload
  | HoPeerKeyMismatch

fun to_event :: "HandshakeOutcome \<Rightarrow> VerifyFailureReason option" where
  "to_event HoVerified = None"
| "to_event HoSignatureMismatch = Some SignatureMismatch"
| "to_event HoReplayDetected = Some ReplayDetected"
| "to_event HoPeerDeviceUnknown = Some SignatureMismatch"
| "to_event HoInvalidPayload = Some InvalidPayload"
| "to_event HoPeerKeyMismatch = Some SignatureMismatch"

text \<open>The transcript both functions below build from the parameters and the peer's values.\<close>

definition params_transcript :: "HandshakeParams \<Rightarrow> bytes \<Rightarrow> str \<Rightarrow> str \<Rightarrow> bytes" where
  "params_transcript params peer_nonce peer_party_id peer_fp =
     (let (off_nonce, ans_nonce) =
            canonical_ordering (hp_our_nonce params) peer_nonce (hp_we_are_offerer params);
          (off_party, ans_party) =
            canonical_ordering (hp_our_party_id params) peer_party_id (hp_we_are_offerer params);
          (off_fp, ans_fp) =
            canonical_ordering (hp_our_sdp_fingerprint params) peer_fp (hp_we_are_offerer params)
      in build_transcript (hp_room_id params) (hp_session_uuid params) (hp_call_id params)
           off_nonce ans_nonce off_party ans_party off_fp ans_fp)"

definition verify_handshake_response ::
  "crypto_lib \<Rightarrow> ed_lib \<Rightarrow> HandshakeParams \<Rightarrow> bytes \<Rightarrow> str \<Rightarrow> str \<Rightarrow> HandshakeMsg
     \<Rightarrow> HandshakePeerKeySource \<Rightarrow> HandshakeOutcome" where
  "verify_handshake_response L E params peer_nonce peer_party_id peer_fp peer_response peer_keys =
     (case peer_response of
        Challenge _ _ \<Rightarrow> HoInvalidPayload
      | Response signature_b64 signer_pk_b64 response_device_id \<Rightarrow>
          (case decode_public_key_b64 L signer_pk_b64 of
             Inl _ \<Rightarrow> HoInvalidPayload
           | Inr wire_pk \<Rightarrow>
               (case decode_signature_b64 L signature_b64 of
                  Inl _ \<Rightarrow> HoInvalidPayload
                | Inr signature \<Rightarrow>
                    (case peer_keys (hp_peer_user_id params) response_device_id of
                       None \<Rightarrow> HoPeerDeviceUnknown
                     | Some matrix_pk \<Rightarrow>
                         if wire_pk \<noteq> matrix_pk then HoPeerKeyMismatch
                         else
                           (case verify_peer_signature E matrix_pk signature
                                   (params_transcript params peer_nonce peer_party_id peer_fp) of
                              Inr _ \<Rightarrow> HoVerified
                            | Inl _ \<Rightarrow> HoSignatureMismatch)))))"

definition build_handshake_response ::
  "crypto_lib \<Rightarrow> HandshakeParams \<Rightarrow> bytes \<Rightarrow> str \<Rightarrow> str \<Rightarrow> HandshakeSigner
     \<Rightarrow> (VerifyError, HandshakeMsg) result" where
  "build_handshake_response L params peer_nonce peer_party_id peer_fp signer =
     (case signer (params_transcript params peer_nonce peer_party_id peer_fp) of
        Inl e \<Rightarrow> Err e
      | Inr (sig, pk) \<Rightarrow>
          Okay (Response (encode_signature L sig) (encode_public_key L pk) (hp_our_device_id params)))"

definition build_handshake_challenge :: "crypto_lib \<Rightarrow> HandshakeParams \<Rightarrow> HandshakeMsg" where
  "build_handshake_challenge L params =
     Challenge (encode_nonce L (hp_our_nonce params)) (hp_our_device_id params)"

subsection \<open>Contracts of signers and key stores\<close>

text \<open>
  What \<open>verify_handshake_response\<close> needs of the peer's signer: the key it names is fixed,
  parses, and verifies what it signs.
\<close>

locale handshake_signer =
  fixes sign :: "ed_lib \<Rightarrow> HandshakeSigner" and pk :: "ed_lib \<Rightarrow> bytes"
  assumes key_length: "ed_law E \<Longrightarrow> length (pk E) = 32"
    and key_parses: "ed_law E \<Longrightarrow> ed_parse_key E (pk E) = Okay ()"
    and signs: "ed_law E \<Longrightarrow>
      \<exists>sg. sign E t = Okay (sg, pk E) \<and> length sg = 64 \<and> ed_verify E (pk E) t sg"
begin

lemma response_accepted:
  assumes laws: "base64_law L" "ed_law E"
    and same: "params_transcript p n1 party1 fp1 = params_transcript q n2 party2 fp2"
    and known: "peer_keys (hp_peer_user_id q) (hp_our_device_id p) = Some (pk E)"
  shows "\<exists>msg. build_handshake_response L p n1 party1 fp1 (sign E) = Okay msg
    \<and> verify_handshake_response L E q n2 party2 fp2 msg peer_keys = HoVerified"
proof -
  obtain sg where sg: "sign E (params_transcript p n1 party1 fp1) = Okay (sg, pk E)"
    "length sg = 64" "ed_verify E (pk E) (params_transcript p n1 party1 fp1) sg"
    using signs [OF laws(2)] by blast
  then show ?thesis
    using same known key_length [OF laws(2)] key_parses [OF laws(2)] decode_encode [OF laws(1)]
    by (simp add: build_handshake_response_def verify_handshake_response_def
        encode_signature_def encode_public_key_def decode_signature_b64_def
        decode_public_key_b64_def verify_peer_signature_def ED25519_SIGNATURE_LEN_def
        ED25519_PUBLIC_KEY_LEN_def)
qed

lemma response_shape:
  assumes "ed_law E" and "build_handshake_response L p n party fp (sign E) = Okay msg"
  obtains sg where "sign E (params_transcript p n party fp) = Okay (sg, pk E)" "length sg = 64"
    "msg = Response (b64_encode L sg) (b64_encode L (pk E)) (hp_our_device_id p)"
  using assms(2) signs [OF assms(1), of "params_transcript p n party fp"]
  by (auto simp: build_handshake_response_def encode_signature_def encode_public_key_def)

end

interpretation ephemeral: handshake_signer "\<lambda>E. ephemeral_sign E s" "\<lambda>E. public_key E s" for s
  by unfold_locales (auto simp: ed_law_def ephemeral_sign_def public_key_def)

text \<open>A store of device keys answers exactly with what was last inserted for the device.\<close>

locale key_store =
  fixes new :: 's
    and insert_key :: "str \<Rightarrow> str \<Rightarrow> bytes \<Rightarrow> 's \<Rightarrow> 's"
    and lookup_key :: "'s \<Rightarrow> HandshakePeerKeySource"
  assumes lookup_new: "lookup_key new u d = None"
    and lookup_insert: "lookup_key (insert_key u d k s) u' d' =
      (if u' = u \<and> d' = d then Some k else lookup_key s u' d')"
begin

lemma filled_registered:
  "lookup_key (fold (\<lambda>(u, d, k). insert_key u d k) regs new) u d = Some k \<Longrightarrow> (u, d, k) \<in> set regs"
proof (induction regs rule: rev_induct)
  case Nil
  then show ?case by (simp add: lookup_new)
next
  case (snoc x regs)
  obtain u' d' k' where "x = (u', d', k')" by (cases x)
  with snoc show ?case by (auto simp: lookup_insert split: if_splits)
qed

end

interpretation in_memory: key_store key_source_new key_source_insert peer_public_key
  by unfold_locales (auto simp: key_source_new_def key_source_insert_def peer_public_key_def)

definition registered_keys :: "(str \<times> str \<times> bytes) list \<Rightarrow> InMemoryPeerKeySource" where
  "registered_keys regs = fold (\<lambda>(u, d, k). key_source_insert u d k) regs key_source_new"

lemma registered_keys_only:
  "peer_public_key (registered_keys regs) u d = Some k \<Longrightarrow> (u, d, k) \<in> set regs"
  using in_memory.filled_registered [of regs u d k]
  by (simp add: registered_keys_def)

subsection \<open>Guarantees of the handshake\<close>

lemma verified_iff:
  "verify_handshake_response L E p n party fp msg peer_keys = HoVerified \<longleftrightarrow>
     (\<exists>sig_b64 pk_b64 dev sg pk. msg = Response sig_b64 pk_b64 dev
        \<and> b64_decode L pk_b64 = Okay pk \<and> length pk = 32
        \<and> b64_decode L sig_b64 = Okay sg \<and> length sg = 64
        \<and> peer_keys (hp_peer_user_id p) dev = Some pk
        \<and> ed_parse_key E pk = Okay ()
        \<and> ed_verify E pk (params_transcript p n party fp) sg)"
  by (auto simp: verify_handshake_response_def decode_public_key_b64_def decode_signature_b64_def
      verify_peer_signature_def ED25519_SIGNATURE_LEN_def ED25519_PUBLIC_KEY_LEN_def
      split: HandshakeMsg.splits sum.splits option.splits if_splits)

text \<open>
  C9. The key on the wire is never trusted. Against a key source filled with any device
  keys, a response is accepted only if it carries a well-formed key that was registered
  for a device of the expected user and a 64-byte signature that this key verifies over
  our own view of the transcript; and the outcome is mapped to no failure event exactly
  then.
\<close>

theorem verified_only_registered:
  "to_event (verify_handshake_response L E p n party fp msg (peer_public_key (registered_keys regs)))
     = None \<longleftrightarrow>
   (\<exists>sig_b64 pk_b64 dev sg pk. msg = Response sig_b64 pk_b64 dev
       \<and> (hp_peer_user_id p, dev, pk) \<in> set regs
       \<and> peer_public_key (registered_keys regs) (hp_peer_user_id p) dev = Some pk
       \<and> b64_decode L pk_b64 = Okay pk \<and> length pk = 32
       \<and> b64_decode L sig_b64 = Okay sg \<and> length sg = 64
       \<and> ed_parse_key E pk = Okay ()
       \<and> ed_verify E pk (params_transcript p n party fp) sg)"
proof -
  have "to_event out = None \<longleftrightarrow> out = HoVerified" for out by (cases out) simp_all
  then show ?thesis
    using verified_iff [of L E p n party fp msg "peer_public_key (registered_keys regs)"]
      registered_keys_only [of regs] by auto
qed

text \<open>The two ends of one call: same room, session and call, opposite roles.\<close>

definition mirrored :: "HandshakeParams \<Rightarrow> HandshakeParams \<Rightarrow> bool" where
  "mirrored p q \<longleftrightarrow>
     hp_room_id p = hp_room_id q \<and> hp_session_uuid p = hp_session_uuid q
     \<and> hp_call_id p = hp_call_id q \<and> hp_we_are_offerer p = (\<not> hp_we_are_offerer q)"

abbreviation transcript_with :: "HandshakeParams \<Rightarrow> HandshakeParams \<Rightarrow> bytes" where
  "transcript_with p q \<equiv>
     params_transcript p (hp_our_nonce q) (hp_our_party_id q) (hp_our_sdp_fingerprint q)"

lemma transcript_mirrored: "mirrored p q \<Longrightarrow> transcript_with p q = transcript_with q p"
  by (auto simp: mirrored_def params_transcript_def canonical_ordering_def)

text \<open>A library whose signatures single out one message, and a call between two devices of it.\<close>

definition sample_ed :: "bytes \<Rightarrow> ed_lib" where
  "sample_ed T =
     \<lparr>ed_parse_key = (\<lambda>_. Okay ()),
      ed_verify = (\<lambda>pk m sg. sg = (if m = T then replicate 64 1 else replicate 64 0)),
      ed_sign = (\<lambda>seed m. if m = T then replicate 64 1 else replicate 64 0),
      ed_public = (\<lambda>seed. replicate 32 5)\<rparr>"

lemma sample_ed_law: "ed_law (sample_ed T)"
  by (simp add: ed_law_def sample_ed_def)

definition sample_offerer :: HandshakeParams where
  "sample_offerer =
     \<lparr>hp_room_id = ''!r:x'', hp_session_uuid = '''', hp_call_id = ''c1'', hp_our_nonce = replicate 32 1,
      hp_our_party_id = ''a'', hp_our_user_id = ''@u:x'', hp_our_device_id = ''A'',
      hp_peer_user_id = ''@u:x'', hp_peer_device_id = ''B'', hp_our_sdp_fingerprint = ''AA'',
      hp_we_are_offerer = True\<rparr>"

definition sample_answerer :: HandshakeParams where
  "sample_answerer =
     \<lparr>hp_room_id = ''!r:x'', hp_session_uuid = '''', hp_call_id = ''c1'', hp_our_nonce = replicate 32 2,
      hp_our_party_id = ''b'', hp_our_user_id = ''@u:x'', hp_our_device_id = ''B'',
      hp_peer_user_id = ''@u:x'', hp_peer_device_id = ''A'', hp_our_sdp_fingerprint = ''BB'',
      hp_we_are_offerer = False\<rparr>"

text \<open>
  C8. Honest peers accept each other. Two ends of the same call with opposite roles, which
  have learned each other's nonce, party and fingerprint, build the same transcript; the
  response that one end signs with its key verifies at the other end as soon as that
  key is registered for the signer's user and device, whatever else is registered.
\<close>

theorem handshake_roundtrip:
  assumes "base64_law L" and "ed_law E" and "mirrored p q" and "hp_peer_user_id q = hp_our_user_id p"
  shows "\<exists>msg. build_handshake_response L p (hp_our_nonce q) (hp_our_party_id q)
                 (hp_our_sdp_fingerprint q) (ephemeral_sign E s) = Okay msg
    \<and> verify_handshake_response L E q (hp_our_nonce p) (hp_our_party_id p)
        (hp_our_sdp_fingerprint p) msg
        (peer_public_key (key_source_insert (hp_our_user_id p) (hp_our_device_id p) (public_key E s) src))
      = HoVerified"
  by (rule ephemeral.response_accepted [OF assms(1,2)])
     (use assms(3,4) in \<open>simp_all add: transcript_mirrored [of p q] in_memory.lookup_insert\<close>)

theorem handshake_roundtrip_witness:
  "\<exists>msg. build_handshake_response sample_crypto_lib sample_answerer (replicate 32 1) ''a'' ''AA''
            (ephemeral_sign (sample_ed []) (ephemeral_new [7])) = Okay msg
     \<and> verify_handshake_response sample_crypto_lib (sample_ed []) sample_offerer (replicate 32 2) ''b'' ''BB'' msg
         (peer_public_key (key_source_insert ''@u:x'' ''B'' (replicate 32 5) key_source_new)) = HoVerified"
  using handshake_roundtrip [OF sample_crypto_laws(1) sample_ed_law [of "[]"],
      of sample_answerer sample_offerer "ephemeral_new [7]" key_source_new]
  by (simp add: sample_offerer_def sample_answerer_def mirrored_def public_key_def sample_ed_def)

text \<open>
  C34. A captured answer is not bound to the other device. When both ends belong to the
  same Matrix user, the response we sign ourselves, played back to us, is accepted as the
  peer's, as soon as our own device key is in the key source: the key is looked up under
  the device named in the message and not under the peer device of the handshake.
\<close>

theorem reflection_same_user:
  assumes "base64_law L" and "ed_law E" and "hp_peer_user_id p = hp_our_user_id p"
  shows "\<exists>msg. build_handshake_response L p n party fp (ephemeral_sign E s) = Okay msg
    \<and> verify_handshake_response L E p n party fp msg
        (peer_public_key (key_source_insert (hp_our_user_id p) (hp_our_device_id p) (public_key E s) src))
      = HoVerified"
  by (rule ephemeral.response_accepted [OF assms(1,2)])
     (use assms(3) in \<open>simp_all add: in_memory.lookup_insert\<close>)


theorem reflection_same_user_witness:
  "\<exists>msg. build_handshake_response sample_crypto_lib sample_offerer (replicate 32 2) ''b'' ''BB''
            (ephemeral_sign (sample_ed []) (ephemeral_new [7])) = Okay msg
     \<and> verify_handshake_response sample_crypto_lib (sample_ed []) sample_offerer (replicate 32 2) ''b'' ''BB'' msg
         (peer_public_key (key_source_insert ''@u:x'' ''A'' (replicate 32 5) key_source_new)) = HoVerified"
  using reflection_same_user [OF sample_crypto_laws(1) sample_ed_law [of "[]"],
      of sample_offerer "replicate 32 2" "''b''" "''BB''" "ephemeral_new [7]" key_source_new]
  by (simp add: sample_offerer_def public_key_def sample_ed_def)

subsection \<open>The transcript determines its fields\<close>

lemma transcript_shape:
  "build_transcript r u c n1 n2 p1 p2 f1 f2 =
     (((((DOMAIN_SEPARATION_TAG @ 0 # as_bytes r @ 0 # as_bytes u @ 0 # as_bytes c @ n1 @ n2)
        @ 0 # as_bytes p1) @ 0 # as_bytes p2) @ 0 # as_bytes f1) @ 0 # as_bytes f2)"
  by (simp add: build_transcript_def FIELD_SEP_def)

lemma transcript_fields:
  assumes eq: "build_transcript r u c n1 n2 p1 p2 f1 f2 = build_transcript r' u' c' n1' n2' p1' p2' f1' f2'"
    and free: "\<forall>s \<in> {r, u, p1, p2, f1, f2, r', u', p1', p2', f1', f2'}. nul_free s"
    and len: "length n1 = length n1'" "length n2 = length n2'"
  shows "r = r' \<and> u = u' \<and> c = c' \<and> n1 = n1' \<and> n2 = n2' \<and> p1 = p1' \<and> p2 = p2' \<and> f1 = f1' \<and> f2 = f2'"
proof -
  let ?head = "\<lambda>r u c n1 n2. DOMAIN_SEPARATION_TAG @ 0 # as_bytes r @ 0 # as_bytes u @ 0 # as_bytes c @ n1 @ n2"
  have nz: "0 \<notin> set (as_bytes r)" "0 \<notin> set (as_bytes u)" "0 \<notin> set (as_bytes p1)" "0 \<notin> set (as_bytes p2)" "0 \<notin> set (as_bytes f1)" "0 \<notin> set (as_bytes f2)"
    "0 \<notin> set (as_bytes r')" "0 \<notin> set (as_bytes u')" "0 \<notin> set (as_bytes p1')" "0 \<notin> set (as_bytes p2')" "0 \<notin> set (as_bytes f1')" "0 \<notin> set (as_bytes f2')"
    using free by (simp_all add: zero_in_as_bytes)
  have "?head r u c n1 n2 = ?head r' u' c' n1' n2' \<and> p1 = p1' \<and> p2 = p2' \<and> f1 = f1' \<and> f2 = f2'"
    using eq by (simp only: transcript_shape sep_right_eq [OF nz(3) nz(9)] sep_right_eq [OF nz(4) nz(10)]
        sep_right_eq [OF nz(5) nz(11)] sep_right_eq [OF nz(6) nz(12)] as_bytes_inj)
  then have tail: "?head r u c n1 n2 = ?head r' u' c' n1' n2'" "p1 = p1'" "p2 = p2'" "f1 = f1'" "f2 = f2'"
    by blast+
  from tail(1) have "as_bytes r @ 0 # as_bytes u @ 0 # as_bytes c @ n1 @ n2 =
      as_bytes r' @ 0 # as_bytes u' @ 0 # as_bytes c' @ n1' @ n2'" by simp
  then have ru: "r = r'" "u = u'" and rest: "as_bytes c @ n1 @ n2 = as_bytes c' @ n1' @ n2'"
    using nz by (simp_all add: sep_left_eq)
  have "as_bytes c = as_bytes c' \<and> n1 @ n2 = n1' @ n2'"
    using rest len append_eq_append_conv [of "n1 @ n2" "n1' @ n2'" "as_bytes c" "as_bytes c'"] by auto
  with len tail ru show ?thesis by simp
qed

text \<open>
  C10. The transcript is injective: for fields without NUL bytes (the call id may hold
  anything) and nonces of 32 bytes, two equal transcripts have the same room, session,
  call, nonces, parties and fingerprints, although the nonces carry no separator.
\<close>

theorem transcript_injective:
  assumes "\<forall>s \<in> {r, u, p1, p2, f1, f2, r', u', p1', p2', f1', f2'}. nul_free s"
    and "\<forall>n \<in> {n1, n2, n1', n2'}. length n = NONCE_LEN"
  shows "build_transcript r u c n1 n2 p1 p2 f1 f2 = build_transcript r' u' c' n1' n2' p1' p2' f1' f2' \<longleftrightarrow>
    (r, u, c, n1, n2, p1, p2, f1, f2) = (r', u', c', n1', n2', p1', p2', f1', f2')"
  using transcript_fields [OF _ assms(1), of c n1 n2 c' n1' n2'] assms(2) by auto

theorem transcript_injective_witness:
  "build_transcript ''!r'' [] ''c'' (replicate 32 0) (replicate 32 1) ''a'' ''b'' ''AA'' ''BB''
   \<noteq> build_transcript ''!r'' [] ''c'' (replicate 32 1) (replicate 32 0) ''a'' ''b'' ''AA'' ''BB''"
  using transcript_injective [of "''!r''" "[]" "''a''" "''b''" "''AA''" "''BB''" "''!r''" "[]" "''a''"
      "''b''" "''AA''" "''BB''" "replicate 32 0" "replicate 32 1" "replicate 32 1" "replicate 32 0"
      "''c''" "''c''"]
  by (simp add: nul_free_def NONCE_LEN_def)

text \<open>
  NUL bytes are not excluded by the code. A fingerprint line with a NUL in it is
  extracted as it is, and with such a field two handshakes with different parties and
  fingerprints have the same transcript.
\<close>

lemma transcript_ambiguous_with_nul:
  "extract_sdp_fingerprint (char_codes ''a=fingerprint:sha-256 A'' @ [0] @ char_codes ''B'')
     = Okay (char_codes ''A'' @ [0] @ char_codes ''B'')
   \<and> build_transcript r u c n1 n2 p1 ''x'' (''A'' @ [CHR 0x00] @ ''B'') f2
     = build_transcript r u c n1 n2 p1 (''x'' @ [CHR 0x00] @ ''A'') ''B'' f2"
proof
  show "extract_sdp_fingerprint (char_codes ''a=fingerprint:sha-256 A'' @ [0] @ char_codes ''B'')
     = Okay (char_codes ''A'' @ [0] @ char_codes ''B'')"
    by (simp add: extract_sdp_fingerprint_def lines.simps line_fingerprint_def strip_prefix_def
        trim_def char_codes_def is_whitespace_def eq_ignore_ascii_case_def to_ascii_uppercase_def
        List.map_filter_def Let_def)
  show "build_transcript r u c n1 n2 p1 ''x'' (''A'' @ [CHR 0x00] @ ''B'') f2
     = build_transcript r u c n1 n2 p1 (''x'' @ [CHR 0x00] @ ''A'') ''B'' f2"
    by (simp add: build_transcript_def as_bytes_def FIELD_SEP_def)
qed


subsection \<open>What an accepted response says about the signer\<close>

definition clean_params :: "HandshakeParams \<Rightarrow> bool" where
  "clean_params p \<longleftrightarrow>
     nul_free (hp_room_id p) \<and> nul_free (hp_session_uuid p) \<and> nul_free (hp_our_party_id p)
     \<and> nul_free (hp_our_sdp_fingerprint p) \<and> length (hp_our_nonce p) = 32"

lemma params_transcript_eq:
  assumes "params_transcript p n party fp = params_transcript q n' party' fp'"
    and "clean_params p" "clean_params q"
    and "nul_free party" "nul_free fp" "length n = 32" "nul_free party'" "nul_free fp'" "length n' = 32"
  shows "hp_room_id p = hp_room_id q \<and> hp_session_uuid p = hp_session_uuid q \<and> hp_call_id p = hp_call_id q
    \<and> (if hp_we_are_offerer p = hp_we_are_offerer q
       then (hp_our_nonce p, hp_our_party_id p, hp_our_sdp_fingerprint p)
              = (hp_our_nonce q, hp_our_party_id q, hp_our_sdp_fingerprint q)
            \<and> (n, party, fp) = (n', party', fp')
       else (n, party, fp) = (hp_our_nonce q, hp_our_party_id q, hp_our_sdp_fingerprint q)
            \<and> (n', party', fp') = (hp_our_nonce p, hp_our_party_id p, hp_our_sdp_fingerprint p))"
  using assms
  by (cases "hp_we_are_offerer p"; cases "hp_we_are_offerer q")
     (auto simp: params_transcript_def canonical_ordering_def clean_params_def
        dest!: transcript_fields)

text \<open>
  C3. An accepted response binds the whole call. When the response that a signer built
  from its own parameters is accepted at our end, and its signature is valid for no
  message but the one that was signed, then both ends agree on the room, the session and
  the call; and if the roles are opposite, each end holds exactly the other's nonce,
  party and DTLS fingerprint, so that no relay can have exchanged them. Equal roles are
  accepted only when the signer used our own nonce, party and fingerprint as its own.
\<close>

theorem verified_binds_context:
  assumes "base64_law L" and "ed_law E"
    and "build_handshake_response L q n' party' fp' (ephemeral_sign E s) = Okay msg"
    and "verify_handshake_response L E p n party fp msg peer_keys = HoVerified"
    and "\<And>t. ed_verify E (public_key E s) t
               (ed_sign E (signing_key s) (params_transcript q n' party' fp'))
             \<Longrightarrow> t = params_transcript q n' party' fp'"
    and "clean_params p" and "clean_params q"
    and "nul_free party" "nul_free fp" "length n = 32" "nul_free party'" "nul_free fp'" "length n' = 32"
  shows "hp_room_id p = hp_room_id q \<and> hp_session_uuid p = hp_session_uuid q \<and> hp_call_id p = hp_call_id q
    \<and> (if hp_we_are_offerer p = hp_we_are_offerer q
       then (hp_our_nonce p, hp_our_party_id p, hp_our_sdp_fingerprint p)
              = (hp_our_nonce q, hp_our_party_id q, hp_our_sdp_fingerprint q)
            \<and> (n, party, fp) = (n', party', fp')
       else (n, party, fp) = (hp_our_nonce q, hp_our_party_id q, hp_our_sdp_fingerprint q)
            \<and> (n', party', fp') = (hp_our_nonce p, hp_our_party_id p, hp_our_sdp_fingerprint p))"
proof -
  let ?T = "params_transcript q n' party' fp'"
  obtain sg where sg: "ephemeral_sign E s ?T = Okay (sg, public_key E s)"
    and msg: "msg = Response (b64_encode L sg) (b64_encode L (public_key E s)) (hp_our_device_id q)"
    by (rule ephemeral.response_shape [OF assms(2,3)])
  from sg have "sg = ed_sign E (signing_key s) ?T" by (simp add: ephemeral_sign_def)
  moreover have "ed_verify E (public_key E s) (params_transcript p n party fp) sg"
    using assms(4) decode_encode [OF assms(1)] by (auto simp: verified_iff msg)
  ultimately have "params_transcript p n party fp = ?T" using assms(5) by blast
  then show ?thesis by (rule params_transcript_eq) (use assms in auto)
qed

theorem verified_binds_context_witness:
  "let T = transcript_with sample_answerer sample_offerer;
       keys = peer_public_key (key_source_insert ''@u:x'' ''B'' (replicate 32 5) key_source_new)
   in verify_handshake_response sample_crypto_lib (sample_ed T) sample_offerer (replicate 32 2) ''b'' ''BB''
        (Response (b64_encode sample_crypto_lib (replicate 64 1))
           (b64_encode sample_crypto_lib (replicate 32 5)) ''B'') keys = HoVerified
      \<and> (replicate 32 2, ''b'', ''BB'') = (hp_our_nonce sample_answerer,
          hp_our_party_id sample_answerer, hp_our_sdp_fingerprint sample_answerer)"
proof -
  let ?T = "transcript_with sample_answerer sample_offerer"
  let ?E = "sample_ed ?T"
  let ?keys = "peer_public_key (key_source_insert ''@u:x'' ''B'' (replicate 32 5) key_source_new)"
  let ?msg = "Response (b64_encode sample_crypto_lib (replicate 64 1))
           (b64_encode sample_crypto_lib (replicate 32 5)) ''B''"
  have built: "build_handshake_response sample_crypto_lib sample_answerer (replicate 32 1) ''a'' ''AA''
      (ephemeral_sign ?E (ephemeral_new [7])) = Okay ?msg"
    by (simp add: build_handshake_response_def ephemeral_sign_def sample_ed_def encode_signature_def
        encode_public_key_def sample_offerer_def sample_answerer_def)
  have same: "params_transcript sample_offerer (replicate 32 2) ''b'' ''BB'' = ?T"
    by (simp add: sample_offerer_def sample_answerer_def params_transcript_def canonical_ordering_def)
  have ver: "verify_handshake_response sample_crypto_lib ?E sample_offerer (replicate 32 2) ''b'' ''BB''
      ?msg ?keys = HoVerified"
    unfolding verified_iff same
    by (simp add: decode_encode [OF sample_crypto_laws(1)] in_memory.lookup_insert sample_ed_def)
       (simp add: sample_offerer_def)
  have "(replicate 32 2, ''b'', ''BB'') = (hp_our_nonce sample_answerer,
          hp_our_party_id sample_answerer, hp_our_sdp_fingerprint sample_answerer)"
    using verified_binds_context [OF sample_crypto_laws(1) sample_ed_law built ver]
    by (simp add: sample_offerer_def sample_answerer_def sample_ed_def clean_params_def nul_free_def
        split: if_splits)
  with ver show ?thesis by simp
qed

subsection \<open>Fingerprints of an SDP\<close>

lemma takeWhile_no_lf: "10 \<notin> set l \<Longrightarrow> takeWhile (\<lambda>c. c \<noteq> 10) (l @ 10 # r) = (l :: chars)"
  by (induction l) auto

lemma dropWhile_no_lf: "10 \<notin> set l \<Longrightarrow> dropWhile (\<lambda>c. c \<noteq> 10) (l @ 10 # r) = (10 :: nat) # r"
  by (induction l) auto

lemma lines_crlf:
  assumes "\<forall>l \<in> set ls. 10 \<notin> set l"
  shows "lines (concat (map (\<lambda>l. l @ [13, 10]) ls)) = ls"
  using assms
proof (induction ls)
  case Nil
  then show ?case by (simp add: lines.simps)
next
  case (Cons l ls)
  let ?rest = "concat (map (\<lambda>l. l @ [13, 10]) ls)"
  have no: "10 \<notin> set (l @ [13])" using Cons.prems by simp
  have "lines ((l @ [13]) @ 10 # ?rest) = strip_cr (l @ [13]) # lines ?rest"
    by (subst lines.simps) (simp only: takeWhile_no_lf [OF no] dropWhile_no_lf [OF no], simp)
  with Cons show ?case by (simp add: strip_cr_def)
qed

lemma set_map_filter: "set (List.map_filter f xs) = {y. \<exists>x \<in> set xs. f x = Some y}"
  by (auto simp: List.map_filter_def image_iff) (metis option.sel)+

lemma hd_sort_Min: "xs \<noteq> [] \<Longrightarrow> hd (sort xs) = Min (set xs)"
proof -
  assume "xs \<noteq> []"
  then obtain y ys where s: "sort xs = y # ys" by (metis length_0_conv length_sort neq_Nil_conv)
  then have "y \<in> set xs" by (metis list.set_intros(1) set_sort)
  moreover have "\<forall>z \<in> set xs. y \<le> z"
    using s sorted_sort [of xs] by (metis set_ConsD set_sort sorted_simps(2) order_refl)
  ultimately have "Min (set xs) = y" by (intro Min_eqI) auto
  with s show ?thesis by simp
qed

lemma dropWhile_hd: "l \<noteq> [] \<Longrightarrow> \<not> P (hd l) \<Longrightarrow> dropWhile P l = l"
  by (cases l) simp_all

lemma trim_id: "l \<noteq> [] \<Longrightarrow> \<not> is_whitespace (hd l) \<Longrightarrow> \<not> is_whitespace (last l) \<Longrightarrow> trim l = l"
  by (simp add: trim_def dropWhile_hd hd_rev)

lemma line_fingerprint_sha256:
  assumes "fp \<noteq> []" and "\<not> is_whitespace (hd fp)" and "\<not> is_whitespace (last fp)"
  shows "line_fingerprint (char_codes ''a=fingerprint:sha-256 '' @ fp) = Some (to_ascii_uppercase fp)"
proof -
  have "trim (char_codes ''a=fingerprint:sha-256 '' @ fp) = char_codes ''a=fingerprint:sha-256 '' @ fp"
    by (rule trim_id) (use assms in \<open>simp_all add: char_codes_def is_whitespace_def\<close>)
  then show ?thesis
    using trim_id [OF assms] assms(1)
    by (simp add: line_fingerprint_def strip_prefix_def char_codes_def is_whitespace_def
        eq_ignore_ascii_case_def to_ascii_uppercase_def Let_def)
qed

text \<open>
  The canonical fingerprint. For an SDP of any lines, each ended by CR LF, the
  extraction fails exactly when no line carries a sha-256 fingerprint, and otherwise
  returns the smallest of the normalized fingerprints of its lines, so it depends on
  neither the order nor the repetition of the lines; and a line
  \<open>a=fingerprint:sha-256 <fp>\<close> contributes its value in upper case.
\<close>

lemma fingerprint_canonical:
  assumes "\<forall>l \<in> set ls. 10 \<notin> set l"
  shows "extract_sdp_fingerprint (concat (map (\<lambda>l. l @ [13, 10]) ls)) =
      (if {fp. \<exists>l \<in> set ls. line_fingerprint l = Some fp} = {} then Err VeMissingSdpFingerprint
       else Okay (Min {fp. \<exists>l \<in> set ls. line_fingerprint l = Some fp}))
    \<and> (fp \<noteq> [] \<and> \<not> is_whitespace (hd fp) \<and> \<not> is_whitespace (last fp) \<longrightarrow>
         line_fingerprint (char_codes ''a=fingerprint:sha-256 '' @ fp) = Some (to_ascii_uppercase fp))"
proof -
  let ?cands = "List.map_filter line_fingerprint ls"
  have cands: "{fp. \<exists>l \<in> set ls. line_fingerprint l = Some fp} = set ?cands"
    by (simp add: set_map_filter)
  show ?thesis
    unfolding cands using hd_sort_Min [of ?cands] line_fingerprint_sha256 [of fp]
    by (simp add: extract_sdp_fingerprint_def lines_crlf [OF assms])
qed

lemma fingerprint_canonical_example:
  "extract_sdp_fingerprint (concat (map (\<lambda>l. l @ [13, 10])
     [char_codes ''v=0'', char_codes ''a=fingerprint:sha-256 bb:01'',
      char_codes ''a=fingerprint:SHA-256 AA:02'', char_codes ''a=fingerprint:sha-1 00:00'']))
   = Okay (char_codes ''AA:02'')"
proof -
  let ?ls = "[char_codes ''v=0'', char_codes ''a=fingerprint:sha-256 bb:01'',
      char_codes ''a=fingerprint:SHA-256 AA:02'', char_codes ''a=fingerprint:sha-1 00:00'']"
  have no_lf: "\<forall>l \<in> set ?ls. 10 \<notin> set l" by (simp add: char_codes_def)
  have cands: "{fp. \<exists>l \<in> set ?ls. line_fingerprint l = Some fp} = {char_codes ''BB:01'', char_codes ''AA:02''}"
    by (auto simp: line_fingerprint_def strip_prefix_def trim_def char_codes_def is_whitespace_def
        eq_ignore_ascii_case_def to_ascii_uppercase_def Let_def)
  have "Min {char_codes ''BB:01'', char_codes ''AA:02''} = char_codes ''AA:02''"
    by (simp add: char_codes_def)
  with fingerprint_canonical [OF no_lf, unfolded cands, of "[]"] show ?thesis by simp
qed


end
