(* ===== verification/Turn.thy ===== *)
theory Turn
  imports Prelude
begin

section \<open>TURN credentials and their refresh loop\<close>

text \<open>
  The model of \<open>crates/mxdx-p2p/src/turn.rs\<close> (the native target): the credentials and
  their times, the guarded fetch from the homeserver and the refresh loop. The \<open>url\<close> and
  \<open>reqwest\<close> crates are the fields of the parameter \<open>turn_env\<close>; the fetch also returns the
  requests it sent, since what leaves the machine is what its policy is about. Adding a
  duration to a \<open>SystemTime\<close> panics beyond 64-bit seconds, so the two times of a credential
  are optional. One round of the loop takes what its awaited futures and clocks yield.
\<close>

subsection \<open>Credentials\<close>

definition LOOPBACK_HOSTS :: "str list" where
  "LOOPBACK_HOSTS = [''localhost'', ''127.0.0.1'', ''::1'', ''[::1]'']"

definition TURN_ENDPOINT_PATH :: str where
  "TURN_ENDPOINT_PATH = ''/_matrix/client/v3/voip/turnServer''"

datatype TurnError = TurnHttp str | WasmUnsupported

record TurnCredentials =
  uris :: "str list"
  username :: str
  password :: str
  ttl :: duration
  fetched_at :: instant

text \<open>\<open>SystemTime + Duration\<close>: seconds are signed 64-bit; an overflow panics.\<close>

definition system_time_add :: "instant \<Rightarrow> duration \<Rightarrow> instant option" where
  "system_time_add t d = (if t + d < from_secs (2 ^ 63) then Some (t + d) else None)"

definition expires_at :: "TurnCredentials \<Rightarrow> instant option" where
  "expires_at c = system_time_add (fetched_at c) (ttl c)"

definition refresh_at :: "TurnCredentials \<Rightarrow> instant option" where
  "refresh_at c = system_time_add (fetched_at c) (ttl c div 2)"

definition is_expired :: "instant \<Rightarrow> TurnCredentials \<Rightarrow> bool option" where
  "is_expired now c = map_option (\<lambda>e. now \<ge> e) (expires_at c)"

subsection \<open>Fetching\<close>

record TurnResponse =
  tr_uris :: "str list"
  tr_username :: str
  tr_password :: str
  tr_ttl :: u64

record http_response =
  status :: nat
  body_json :: "(str, TurnResponse) result"

text \<open>
  The HTTP client is the \<open>reqwest\<close> crate. \<open>get\<close> is one exchange with a server; \<open>redirected\<close> is where a
  redirect answer leads and the token the crate sends there. Under the policy \<open>none\<close> the client
  returns the first answer, whatever it is; under a limited policy it follows redirects.
\<close>

datatype redirect_policy = PolicyNone | PolicyLimited nat

record 'u turn_env =
  redirected :: "http_response \<Rightarrow> ('u \<times> str) option"
  too_many_redirects :: str
  scheme :: "'u \<Rightarrow> str"
  host_str :: "'u \<Rightarrow> str option"
  set_path :: "str \<Rightarrow> 'u \<Rightarrow> 'u"
  build_client :: "(str, unit) result"
  get :: "'u \<Rightarrow> str \<Rightarrow> (str, http_response) result"

fun limited_get :: "'u turn_env \<Rightarrow> nat \<Rightarrow> 'u \<Rightarrow> str \<Rightarrow> (str, http_response) result \<times> ('u \<times> str) list" where
  "limited_get env hops url token =
     (case get env url token of
        Inl e \<Rightarrow> (Err e, [(url, token)])
      | Inr resp \<Rightarrow>
          (case (redirected env resp, hops) of
             (None, _) \<Rightarrow> (Okay resp, [(url, token)])
           | (Some _, 0) \<Rightarrow> (Err (too_many_redirects env), [(url, token)])
           | (Some (next, token'), Suc n) \<Rightarrow> apsnd (Cons (url, token)) (limited_get env n next token')))"

fun client_get ::
  "'u turn_env \<Rightarrow> redirect_policy \<Rightarrow> 'u \<Rightarrow> str \<Rightarrow> (str, http_response) result \<times> ('u \<times> str) list" where
  "client_get env PolicyNone url token = (get env url token, [(url, token)])"
| "client_get env (PolicyLimited n) url token = limited_get env n url token"

definition is_safe_scheme :: "'u turn_env \<Rightarrow> 'u \<Rightarrow> bool" where
  "is_safe_scheme env url =
     (if scheme env url = ''https'' then True
      else if scheme env url = ''http'' then
        (case host_str env url of Some h \<Rightarrow> h | None \<Rightarrow> '''') \<in> set LOOPBACK_HOSTS
      else False)"

definition is_success :: "nat \<Rightarrow> bool" where
  "is_success st \<longleftrightarrow> 200 \<le> st \<and> st < 300"

definition fetch_turn_credentials ::
  "'u turn_env \<Rightarrow> 'u \<Rightarrow> str \<Rightarrow> instant
     \<Rightarrow> (TurnError, TurnCredentials option) result \<times> ('u \<times> str) list" where
  "fetch_turn_credentials env homeserver access_token now =
     (if \<not> is_safe_scheme env homeserver then (Okay None, [])
      else
        (let endpoint = set_path env TURN_ENDPOINT_PATH homeserver
         in case build_client env of
              Inl e \<Rightarrow> (Err (TurnHttp e), [])
            | Inr _ \<Rightarrow>
                (case client_get env PolicyNone endpoint access_token of
                   (Inl _, sent) \<Rightarrow> (Okay None, sent)
                 | (Inr resp, sent) \<Rightarrow>
                     (if \<not> is_success (status resp) then Okay None
                      else
                        (case body_json resp of
                           Inl _ \<Rightarrow> Okay None
                         | Inr body \<Rightarrow>
                             if tr_uris body = [] then Okay None
                             else
                               Okay (Some \<lparr>uris = tr_uris body, username = tr_username body,
                                 password = tr_password body, ttl = from_secs (unat (tr_ttl body)),
                                 fetched_at = now\<rparr>)),
                      sent))))"

subsection \<open>The refresh loop\<close>

datatype TurnRefreshOutcome = Refreshed TurnCredentials | RetryPending | Expired

definition REFRESH_BACKOFF_SECS :: "nat list" where
  "REFRESH_BACKOFF_SECS = [5, 10, 20, 40, 60]"

record RefreshLoop =
  hard_expiry :: instant
  next_wake :: instant
  backoff_idx :: nat

text \<open>The prologue of \<open>run_refresh_loop\<close>, at the given readings of the two clocks.\<close>

definition refresh_start :: "TurnCredentials \<Rightarrow> instant \<Rightarrow> instant \<Rightarrow> RefreshLoop option" where
  "refresh_start initial now_tokio seed_now_wall =
     (case expires_at initial of
        None \<Rightarrow> None
      | Some e \<Rightarrow>
          (case refresh_at initial of
             None \<Rightarrow> None
           | Some r \<Rightarrow>
               Some \<lparr>hard_expiry = now_tokio + (e - seed_now_wall),
                     next_wake = now_tokio + (r - seed_now_wall), backoff_idx = 0\<rparr>))"

datatype Wake = WakeShutdown | WakeTrigger | WakeTimer

text \<open>
  What one round sees: which arm of the \<open>select!\<close> fired, the clock at the expiry check, the
  result of the fetch, both clocks after it, and whether the receiver still listens.
\<close>

record round_input =
  wake :: Wake
  at_check :: instant
  fetched :: "(TurnError, TurnCredentials option) result"
  wall_now :: instant
  tokio_now :: instant
  listening :: bool

datatype RoundResult =
    Stopped "TurnRefreshOutcome option"
  | Panicked
  | Continue TurnRefreshOutcome RefreshLoop

definition refresh_round :: "round_input \<Rightarrow> RefreshLoop \<Rightarrow> RoundResult" where
  "refresh_round i l =
     (if wake i = WakeShutdown then Stopped None
      else if at_check i \<ge> hard_expiry l then
        Stopped (if listening i then Some Expired else None)
      else
        (let after =
           (case fetched i of
              Inr (Some new_creds) \<Rightarrow>
                (case refresh_at new_creds of
                   None \<Rightarrow> None
                 | Some r \<Rightarrow>
                     Some (Refreshed new_creds,
                           l\<lparr>backoff_idx := 0, next_wake := tokio_now i + (r - wall_now i)\<rparr>))
            | _ \<Rightarrow>
                (if backoff_idx l < length REFRESH_BACKOFF_SECS then
                   (let backoff = from_secs (REFRESH_BACKOFF_SECS ! backoff_idx l);
                        candidate_wake = tokio_now i + backoff
                    in Some (RetryPending,
                         l\<lparr>backoff_idx := min (backoff_idx l + 1) (length REFRESH_BACKOFF_SECS - 1),
                           next_wake :=
                             (if candidate_wake \<ge> hard_expiry l then hard_expiry l
                              else candidate_wake)\<rparr>))
                 else None))
         in case after of
              None \<Rightarrow> Panicked
            | Some (outcome, l') \<Rightarrow>
                if listening i then Continue outcome l' else Stopped None))"

text \<open>The loop over the rounds that happen: the outcomes delivered, and how it stands.\<close>

datatype LoopStatus = Running RefreshLoop | Ended | Crashed

fun refresh_run :: "round_input list \<Rightarrow> RefreshLoop \<Rightarrow> TurnRefreshOutcome list \<times> LoopStatus" where
  "refresh_run [] l = ([], Running l)"
| "refresh_run (i # is) l =
     (case refresh_round i l of
        Stopped None \<Rightarrow> ([], Ended)
      | Stopped (Some oc) \<Rightarrow> ([oc], Ended)
      | Panicked \<Rightarrow> ([], Crashed)
      | Continue oc l' \<Rightarrow> (let (os, st) = refresh_run is l' in (oc # os, st)))"

subsection \<open>The token never leaves for an unsafe origin\<close>

text \<open>
  C13. The access token is sent at most once, only to the TURN endpoint of the configured
  homeserver, and only if that homeserver is reached over \<open>https\<close> or over \<open>http\<close> on a
  loopback host; and the fetch returns credentials exactly when such a request got a
  success status and a well-formed body with at least one URI. Every other answer of the
  server, a redirect to another origin included, is reported as no TURN, never as an error
  and without a further request.
\<close>

theorem fetch_guarded:
  "(snd (fetch_turn_credentials env hs token now) = [] \<or>
    (snd (fetch_turn_credentials env hs token now) = [(set_path env TURN_ENDPOINT_PATH hs, token)]
     \<and> (scheme env hs = ''https'' \<or>
        (scheme env hs = ''http'' \<and> (\<exists>h. host_str env hs = Some h \<and> h \<in> set LOOPBACK_HOSTS)))))
   \<and> (\<forall>c. fst (fetch_turn_credentials env hs token now) = Okay (Some c) \<longleftrightarrow>
        is_safe_scheme env hs \<and> build_client env = Okay () \<and>
        (\<exists>resp body. get env (set_path env TURN_ENDPOINT_PATH hs) token = Okay resp
           \<and> is_success (status resp) \<and> body_json resp = Okay body \<and> tr_uris body \<noteq> []
           \<and> c = \<lparr>uris = tr_uris body, username = tr_username body, password = tr_password body,
                  ttl = from_secs (unat (tr_ttl body)), fetched_at = now\<rparr>))
   \<and> (\<forall>e. fst (fetch_turn_credentials env hs token now) = Err e \<longleftrightarrow>
        is_safe_scheme env hs \<and> (\<exists>m. build_client env = Err m \<and> e = TurnHttp m))"
proof (intro conjI)
  show "snd (fetch_turn_credentials env hs token now) = [] \<or>
    (snd (fetch_turn_credentials env hs token now) = [(set_path env TURN_ENDPOINT_PATH hs, token)]
     \<and> (scheme env hs = ''https'' \<or>
        (scheme env hs = ''http'' \<and> (\<exists>h. host_str env hs = Some h \<and> h \<in> set LOOPBACK_HOSTS))))"
    by (auto simp: fetch_turn_credentials_def is_safe_scheme_def LOOPBACK_HOSTS_def Let_def
        split: sum.splits option.splits if_splits)
qed (auto simp: fetch_turn_credentials_def Let_def split: sum.splits if_splits)

subsection \<open>The loop\<close>

lemma refresh_round_Continue:
  assumes "refresh_round i l = Continue oc l'"
  shows "wake i \<noteq> WakeShutdown \<and> at_check i < hard_expiry l \<and> listening i
    \<and> hard_expiry l' = hard_expiry l
    \<and> (case oc of
         Refreshed c \<Rightarrow> fetched i = Okay (Some c) \<and> backoff_idx l' = 0 \<and>
           (\<exists>r. refresh_at c = Some r \<and> next_wake l' = tokio_now i + (r - wall_now i))
       | RetryPending \<Rightarrow> (\<nexists>c. fetched i = Okay (Some c)) \<and> backoff_idx l < 5
           \<and> backoff_idx l' = min (backoff_idx l + 1) 4
           \<and> next_wake l' = min (tokio_now i + from_secs (REFRESH_BACKOFF_SECS ! backoff_idx l)) (hard_expiry l)
       | Expired \<Rightarrow> False)"
  using assms
  by (auto simp: refresh_round_def Let_def REFRESH_BACKOFF_SECS_def
      split: if_splits sum.splits option.splits)

lemma refresh_run_Running_Cons:
  assumes "refresh_run (i # is) l = (os, Running m)"
  obtains oc l' os' where "refresh_round i l = Continue oc l'" "os = oc # os'"
    "refresh_run is l' = (os', Running m)"
proof (cases "refresh_round i l")
  case (Stopped r)
  with assms show ?thesis by (cases r) simp_all
next
  case (Continue oc l')
  with assms that show ?thesis by (auto split: prod.splits)
qed (use assms in simp)

text \<open>
  Expiry is fixed at the first credentials. Whatever refreshes succeed in between, a
  running loop still has the expiry of the credentials it was started with; so the first
  wake-up at or after that instant reports \<open>Expired\<close> and ends the loop, however long the
  credentials of the last successful refresh are still valid.
\<close>

lemma refresh_never_extends_expiry:
  assumes "refresh_run is l = (os, Running m)"
  shows "hard_expiry m = hard_expiry l
    \<and> (wake i \<noteq> WakeShutdown \<and> listening i \<and> hard_expiry l \<le> at_check i \<longrightarrow>
         refresh_run (is @ [i]) l = (os @ [Expired], Ended))"
  using assms
proof (induction "is" arbitrary: l os)
  case Nil
  then show ?case by (auto simp: refresh_round_def)
next
  case (Cons j js)
  from Cons.prems obtain oc l' os' where step: "refresh_round j l = Continue oc l'"
    and os: "os = oc # os'" and rest: "refresh_run js l' = (os', Running m)"
    by (rule refresh_run_Running_Cons)
  from refresh_round_Continue [OF step] have "hard_expiry l' = hard_expiry l" by simp
  with Cons.IH [OF rest] step os show ?case by auto
qed

definition sample_seed :: TurnCredentials where
  "sample_seed = \<lparr>uris = [''turn:t''], username = ''u'', password = ''p'', ttl = from_secs 100,
     fetched_at = 0\<rparr>"

definition sample_fresh :: TurnCredentials where
  "sample_fresh = \<lparr>uris = [''turn:t''], username = ''u'', password = ''p'', ttl = from_secs 86400,
     fetched_at = from_secs 50\<rparr>"

definition sample_refresh :: round_input where
  "sample_refresh = \<lparr>wake = WakeTimer, at_check = from_secs 50, fetched = Okay (Some sample_fresh),
     wall_now = from_secs 50, tokio_now = from_secs 50, listening = True\<rparr>"

lemmas turn_sample_defs = sample_seed_def sample_fresh_def sample_refresh_def

lemma refresh_never_extends_expiry_example:
  "\<exists>l. refresh_start sample_seed 0 0 = Some l
     \<and> refresh_run [sample_refresh, sample_refresh\<lparr>at_check := from_secs 43250\<rparr>] l
         = ([Refreshed sample_fresh, Expired], Ended)
     \<and> is_expired (from_secs 43250) sample_fresh = Some False"
proof -
  let ?l = "\<lparr>hard_expiry = 100000, next_wake = 50000, backoff_idx = 0\<rparr>"
  have start: "refresh_start sample_seed 0 0 = Some ?l"
    by (simp add: refresh_start_def expires_at_def refresh_at_def system_time_add_def
        turn_sample_defs from_secs_def)
  have run: "refresh_run [sample_refresh] ?l =
      ([Refreshed sample_fresh], Running (?l\<lparr>next_wake := 43250000\<rparr>))"
    by (simp add: refresh_round_def refresh_at_def system_time_add_def turn_sample_defs from_secs_def)
  have "is_expired (from_secs 43250) sample_fresh = Some False"
    by (simp add: is_expired_def expires_at_def system_time_add_def turn_sample_defs from_secs_def)
  with start refresh_never_extends_expiry [OF run, of "sample_refresh\<lparr>at_check := from_secs 43250\<rparr>"]
  show ?thesis by (simp add: turn_sample_defs from_secs_def)
qed

text \<open>The delay after the \<open>k\<close>-th failure in a row, counted from zero.\<close>

definition backoff_after :: "nat \<Rightarrow> duration" where
  "backoff_after k = from_secs (if k < 4 then 5 * 2 ^ k else 60)"

lemma backoff_table: "k < 5 \<Longrightarrow> from_secs (REFRESH_BACKOFF_SECS ! k) = backoff_after k"
  by (auto simp: REFRESH_BACKOFF_SECS_def backoff_after_def numeral_eq_Suc less_Suc_eq)

definition failures_in_row :: "TurnRefreshOutcome list \<Rightarrow> nat" where
  "failures_in_row os = length (takeWhile (\<lambda>oc. oc = RetryPending) (rev os))"

lemma failures_in_row_snoc [simp]:
  "failures_in_row [] = 0"
  "failures_in_row (os @ [RetryPending]) = Suc (failures_in_row os)"
  "failures_in_row (os @ [Refreshed c]) = 0"
  by (simp_all add: failures_in_row_def)

lemma refresh_run_append:
  "refresh_run (is @ js) l =
     (case refresh_run is l of
        (os, Running m) \<Rightarrow> (let (os', st) = refresh_run js m in (os @ os', st))
      | (os, st) \<Rightarrow> (os, st))"
  by (induction "is" l rule: refresh_run.induct)
     (auto simp: Let_def split: RoundResult.splits option.splits prod.splits LoopStatus.splits)

lemma refresh_run_index:
  assumes "refresh_run is l = (os, Running m)" and "backoff_idx l = 0"
  shows "backoff_idx m = min (failures_in_row os) 4"
  using assms(1)
proof (induction "is" arbitrary: os m rule: rev_induct)
  case (snoc i "is")
  obtain os1 st where run: "refresh_run is l = (os1, st)" by (cases "refresh_run is l")
  with snoc.prems obtain k where st: "st = Running k"
    by (cases st) (auto simp: refresh_run_append)
  from snoc.prems run st have "refresh_run [i] k = (drop (length os1) os, Running m)"
    "take (length os1) os = os1"
    by (auto simp: refresh_run_append simp del: refresh_run.simps split: prod.splits)
  then obtain oc where step: "refresh_round i k = Continue oc m" and os: "os = os1 @ [oc]"
    by (metis append_take_drop_id list.inject refresh_run.simps(1) refresh_run_Running_Cons
        prod.inject LoopStatus.inject)
  from snoc.IH [of os1 k] run st have "backoff_idx k = min (failures_in_row os1) 4" by simp
  with refresh_round_Continue [OF step] os show ?case by (cases oc) auto
qed (use assms(2) in auto)

lemma refresh_round_panics:
  "refresh_round i l = Panicked \<Longrightarrow> backoff_idx l < 5 \<Longrightarrow>
   \<exists>c. fetched i = Okay (Some c) \<and> refresh_at c = None"
  by (auto simp: refresh_round_def Let_def REFRESH_BACKOFF_SECS_def
      split: if_splits sum.splits option.splits)

lemma refresh_run_hard_expiry:
  "refresh_run is l = (os, Running m) \<Longrightarrow> hard_expiry m = hard_expiry l"
proof (induction "is" arbitrary: l os)
  case (Cons j js)
  then show ?case by (metis refresh_round_Continue refresh_run_Running_Cons)
qed simp

lemma refresh_run_crashed:
  assumes "refresh_run is l = (os, Crashed)"
  shows "\<exists>pre j post os' m. is = pre @ j # post \<and> refresh_run pre l = (os', Running m)
      \<and> refresh_round j m = Panicked"
  using assms
proof (induction "is" arbitrary: l os)
  case (Cons j js)
  show ?case
  proof (cases "refresh_round j l")
    case (Continue oc l')
    with Cons.prems obtain os' where "refresh_run js l' = (os', Crashed)"
      by (auto split: prod.splits)
    from Cons.IH [OF this] obtain pre k post os2 m where
      "js = pre @ k # post" "refresh_run pre l' = (os2, Running m)" "refresh_round k m = Panicked"
      by blast
    with Continue show ?thesis
      by (intro exI [of _ "j # pre"] exI [of _ k] exI [of _ post] exI [of _ "oc # os2"] exI [of _ m]) simp
  next
    case Panicked
    then show ?thesis by (intro exI [of _ "[]"]) auto
  qed (use Cons.prems in \<open>auto split: option.splits\<close>)
qed simp

text \<open>
  The loop keeps its index inside the back-off schedule, so it never panics there: it
  crashes only on credentials whose half-life does not fit a \<open>SystemTime\<close>. After the
  \<open>k\<close>-th failure in a row the next wake-up is 5, 10, 20, 40 and then always 60 seconds
  after the failed fetch, but never beyond the expiry.
\<close>

lemma refresh_backoff:
  assumes "refresh_start c t w = Some l"
  shows "(\<forall>os. refresh_run is l = (os, Crashed) \<longrightarrow>
            (\<exists>i \<in> set is. \<exists>c'. fetched i = Okay (Some c') \<and> refresh_at c' = None))
    \<and> (\<forall>os m. refresh_run (is @ [i]) l = (os @ [RetryPending], Running m) \<longrightarrow>
         next_wake m = min (tokio_now i + backoff_after (failures_in_row os)) (hard_expiry l))"
proof (intro conjI allI impI)
  from assms have zero: "backoff_idx l = 0"
    by (auto simp: refresh_start_def split: option.splits)
  fix os
  assume "refresh_run is l = (os, Crashed)"
  from refresh_run_crashed [OF this] obtain pre j post os' m where split: "is = pre @ j # post"
    "refresh_run pre l = (os', Running m)" "refresh_round j m = Panicked" by blast
  from refresh_run_index [OF split(2) zero] have "backoff_idx m < 5" by simp
  with refresh_round_panics [OF split(3)] split(1)
  show "\<exists>i \<in> set is. \<exists>c'. fetched i = Okay (Some c') \<and> refresh_at c' = None" by auto
next
  from assms have zero: "backoff_idx l = 0"
    by (auto simp: refresh_start_def split: option.splits)
  fix os m
  assume run: "refresh_run (is @ [i]) l = (os @ [RetryPending], Running m)"
  then obtain k where pre: "refresh_run is l = (os, Running k)"
    and step: "refresh_round i k = Continue RetryPending m"
    by (auto simp: refresh_run_append split: prod.splits LoopStatus.splits RoundResult.splits option.splits)
  from refresh_run_index [OF pre zero]
  have "from_secs (REFRESH_BACKOFF_SECS ! backoff_idx k) = backoff_after (failures_in_row os)"
    using backoff_table [of "backoff_idx k"] by (auto simp: backoff_after_def)
  then show "next_wake m = min (tokio_now i + backoff_after (failures_in_row os)) (hard_expiry l)"
    using refresh_round_Continue [OF step] refresh_run_hard_expiry [OF pre] by simp
qed

definition sample_failure :: round_input where
  "sample_failure = sample_refresh\<lparr>fetched := Okay None\<rparr>"

lemma refresh_backoff_example:
  "\<exists>l. refresh_start sample_seed 0 0 = Some l
     \<and> (\<exists>m. refresh_run ([sample_failure] @ [sample_failure]) l = ([RetryPending] @ [RetryPending], Running m)
          \<and> next_wake m = from_secs 60)"
proof -
  let ?l = "\<lparr>hard_expiry = 100000, next_wake = 50000, backoff_idx = 0\<rparr>"
  let ?m = "\<lparr>hard_expiry = 100000, next_wake = 60000, backoff_idx = 2\<rparr>"
  have start: "refresh_start sample_seed 0 0 = Some ?l"
    by (simp add: refresh_start_def expires_at_def refresh_at_def system_time_add_def
        turn_sample_defs from_secs_def)
  have run: "refresh_run ([sample_failure] @ [sample_failure]) ?l = ([RetryPending] @ [RetryPending], Running ?m)"
    by (simp add: sample_failure_def turn_sample_defs refresh_round_def REFRESH_BACKOFF_SECS_def from_secs_def)
  have one: "failures_in_row [RetryPending] = 1" by (simp add: failures_in_row_def)
  have "next_wake ?m = min (tokio_now sample_failure + backoff_after (failures_in_row [RetryPending])) (hard_expiry ?l)"
    using refresh_backoff [OF start, of "[sample_failure]" sample_failure] run by blast
  then have "next_wake ?m = from_secs 60"
    by (simp add: one sample_failure_def turn_sample_defs backoff_after_def from_secs_def)
  with start run show ?thesis by blast
qed

text \<open>
  Rounds with an unreachable homeserver: the timer fires no earlier than asked, every
  fetch fails, and the clock does not run backwards.
\<close>

fun silent :: "round_input list \<Rightarrow> RefreshLoop \<Rightarrow> bool" where
  "silent [] l = True"
| "silent (i # is) l \<longleftrightarrow>
     wake i = WakeTimer \<and> listening i \<and> (case fetched i of Inr (Some _) \<Rightarrow> False | _ \<Rightarrow> True)
     \<and> next_wake l \<le> at_check i \<and> at_check i \<le> tokio_now i
     \<and> (case refresh_round i l of Continue _ l' \<Rightarrow> silent is l' | _ \<Rightarrow> True)"

lemma silent_round:
  assumes "silent (i # is) l" and "backoff_idx l < 5" and "at_check i < hard_expiry l"
  obtains l' where "refresh_round i l = Continue RetryPending l'" "silent is l'"
    "hard_expiry l' = hard_expiry l" "backoff_idx l' < 5"
    "min (next_wake l + 5000) (hard_expiry l) \<le> next_wake l'"
proof -
  have "backoff_after k \<ge> 5000" for k
    by (auto simp: backoff_after_def from_secs_def)
  then have delay: "from_secs (REFRESH_BACKOFF_SECS ! backoff_idx l) \<ge> 5000"
    using backoff_table [OF assms(2)] by simp
  from assms obtain l' where step: "refresh_round i l = Continue RetryPending l'"
    by (auto simp: refresh_round_def REFRESH_BACKOFF_SECS_def Let_def split: sum.splits option.splits)
  from refresh_round_Continue [OF step] delay assms(1) that [OF step] step show ?thesis
    by auto
qed

text \<open>
  C14. With an unreachable homeserver the loop ends. When every fetch fails, the loop only
  reports pending retries and then \<open>Expired\<close>, and it stops after at most one round for
  every five seconds left until the expiry, plus one.
\<close>

theorem refresh_expires_eventually:
  assumes "backoff_idx l < 5" and "silent is l" and "is \<noteq> []"
    and "hard_expiry l + from_secs 5 \<le> next_wake l + from_secs 5 * length is"
  shows "\<exists>k < length is. refresh_run is l = (replicate k RetryPending @ [Expired], Ended)"
  using assms
proof (induction "is" arbitrary: l)
  case (Cons i js)
  show ?case
  proof (cases "hard_expiry l \<le> at_check i")
    case True
    with Cons.prems have "refresh_run (i # js) l = (replicate 0 RetryPending @ [Expired], Ended)"
      by (simp add: refresh_round_def)
    then show ?thesis by blast
  next
    case False
    then have before: "at_check i < hard_expiry l" by simp
    obtain l' where l': "refresh_round i l = Continue RetryPending l'" "silent js l'"
      "hard_expiry l' = hard_expiry l" "backoff_idx l' < 5"
      "min (next_wake l + 5000) (hard_expiry l) \<le> next_wake l'"
      by (rule silent_round [OF Cons.prems(2,1) before])
    have "js \<noteq> []" using Cons.prems(2,4) before by (auto simp: from_secs_def)
    then have len: "1 \<le> length js" by (cases js) simp_all
    then have "hard_expiry l' + from_secs 5 \<le> next_wake l' + from_secs 5 * length js"
      using Cons.prems(4) l'(3,5) by (auto simp: from_secs_def min_def split: if_splits)
    from Cons.IH [OF l'(4,2) \<open>js \<noteq> []\<close> this] obtain k where "k < length js"
      "refresh_run js l' = (replicate k RetryPending @ [Expired], Ended)" by blast
    with l'(1) show ?thesis by (intro exI [of _ "Suc k"]) simp
  qed
qed simp

definition sample_timer :: "nat \<Rightarrow> round_input" where
  "sample_timer t = \<lparr>wake = WakeTimer, at_check = t, fetched = Okay None, wall_now = t, tokio_now = t,
     listening = True\<rparr>"

theorem refresh_expires_eventually_witness:
  "\<exists>k < 3. refresh_run [sample_timer 50000, sample_timer 55000, sample_timer 60000]
      \<lparr>hard_expiry = 60000, next_wake = 50000, backoff_idx = 0\<rparr>
    = (replicate k RetryPending @ [Expired], Ended)"
  using refresh_expires_eventually [of "\<lparr>hard_expiry = 60000, next_wake = 50000, backoff_idx = 0\<rparr>"
      "[sample_timer 50000, sample_timer 55000, sample_timer 60000]"]
  by (simp add: sample_timer_def refresh_round_def REFRESH_BACKOFF_SECS_def from_secs_def numeral_3_eq_3)

end
