(* ===== verification/Session_Types.thy ===== *)
theory Session_Types
  imports Prelude
begin

section \<open>Event types of the session protocol\<close>

text \<open>
  The data of \<open>crates/mxdx-types/src/events\<close> that the coordinator and the worker exchange:
  tasks, session states and results (\<open>session.rs\<close>), worker descriptions (\<open>worker_info.rs\<close>,
  \<open>capability.rs\<close>) and failure policies (\<open>fabric.rs\<close>), and the two contracts their trackers
  share: a table in which a key has at most one owner, and the iteration over a hash map.
  Field prefixes keep the records apart.
\<close>

subsection \<open>Tasks and sessions\<close>

datatype FailurePolicy = PolEscalate | PolRespawn (max_retries: u8) | PolRespawnWithContext | PolAbandon

datatype RoutingMode = Direct | Brokered | Auto

datatype OutputStream = Stdout | Stderr

datatype SessionStatus = StSuccess | StFailed | StTimeout | StCancelled

record SessionTask =
  st_uuid :: str
  st_sender_id :: str
  st_bin :: str
  st_args :: "str list"
  st_env :: "(str \<rightharpoonup> str) option"
  st_cwd :: "str option"
  st_interactive :: bool
  st_no_room_output :: bool
  st_timeout_seconds :: "u64 option"
  st_heartbeat_interval_seconds :: u64
  st_plan :: "str option"
  st_required_capabilities :: "str list"
  st_routing_mode :: "RoutingMode option"
  st_on_timeout :: "FailurePolicy option"
  st_on_heartbeat_miss :: "FailurePolicy option"

definition default_heartbeat_interval :: u64 where
  "default_heartbeat_interval = 30"

record ActiveSessionState =
  as_bin :: str
  as_args :: "str list"
  as_pid :: "u32 option"
  as_start_time :: u64
  as_client_id :: str
  as_interactive :: bool
  as_worker_id :: str

record CompletedSessionState =
  cs_exit_code :: "32 word option"
  cs_duration_seconds :: u64
  cs_completion_time :: u64

record SessionHeartbeat =
  hb_session_uuid :: str
  hb_worker_id :: str
  hb_timestamp :: u64
  hb_progress :: "str option"

record SessionResult =
  sr_session_uuid :: str
  sr_worker_id :: str
  sr_status :: SessionStatus
  sr_exit_code :: "32 word option"
  sr_duration_seconds :: u64
  sr_tail :: "str option"

record SessionStart =
  sg_session_uuid :: str
  sg_worker_id :: str
  sg_tmux_session :: "str option"
  sg_pid :: "u32 option"
  sg_started_at :: u64
  sg_dm_room_id :: "str option"

subsection \<open>Workers\<close>

record SchemaProperty =
  sp_type :: str
  sp_description :: str

record InputSchema =
  is_type :: str
  is_properties :: "str \<rightharpoonup> SchemaProperty"
  is_required :: "str list"

record WorkerTool =
  wt_name :: str
  wt_version :: "str option"
  wt_description :: str
  wt_healthy :: bool
  wt_input_schema :: InputSchema

record WorkerInfo =
  wi_worker_id :: str
  wi_host :: str
  wi_os :: str
  wi_arch :: str
  wi_cpu_count :: u32
  wi_memory_total_mb :: u64
  wi_disk_available_mb :: u64
  wi_tools :: "WorkerTool list"
  wi_capabilities :: "str list"
  wi_updated_at :: u64

subsection \<open>Unsigned arithmetic\<close>

text \<open>\<open>u64::saturating_sub\<close>.\<close>

definition saturating_sub :: "u64 \<Rightarrow> u64 \<Rightarrow> u64" where
  "saturating_sub a b = (if b \<le> a then a - b else 0)"

lemma unat_saturating_sub [simp]: "unat (saturating_sub a b) = unat a - unat b"
  by (auto simp: saturating_sub_def unat_sub word_le_nat_alt)

subsection \<open>Iteration over a hash map\<close>

text \<open>
  The order in which a \<open>HashMap\<close> yields its keys is not specified: it is a parameter, an
  enumeration of finite sets without repetition.
\<close>

type_synonym key_order = "str set \<Rightarrow> str list"

definition iterates :: "key_order \<Rightarrow> bool" where
  "iterates it \<longleftrightarrow> (\<forall>A. finite A \<longrightarrow> set (it A) = A \<and> distinct (it A))"

lemma iterates_set: "iterates it \<Longrightarrow> finite A \<Longrightarrow> set (it A) = A"
  by (simp add: iterates_def)

lemma iterates_sorted: "iterates sorted_list_of_set"
  by (simp add: iterates_def)

subsection \<open>Tables with one owner per key\<close>

text \<open>
  Requests against a table in which a key is taken by the first claim and stays taken
  until it is released, and who holds a key after a sequence of requests.
\<close>

datatype 'c claim_op = Claim 'c | Release str

fun run_claims ::
  "('c \<Rightarrow> 's \<Rightarrow> bool \<times> 's) \<Rightarrow> (str \<Rightarrow> 's \<Rightarrow> 's) \<Rightarrow> 'c claim_op list \<Rightarrow> 's \<Rightarrow> 's" where
  "run_claims claim release [] s = s"
| "run_claims claim release (Claim c # ops) s = run_claims claim release ops (snd (claim c s))"
| "run_claims claim release (Release k # ops) s = run_claims claim release ops (release k s)"

fun holder :: "('c \<Rightarrow> str) \<Rightarrow> ('c \<Rightarrow> 'o) \<Rightarrow> str \<Rightarrow> 'c claim_op list \<Rightarrow> 'o option \<Rightarrow> 'o option" where
  "holder key who k [] cur = cur"
| "holder key who k (Claim c # ops) cur =
     holder key who k ops (if key c = k \<and> cur = None then Some (who c) else cur)"
| "holder key who k (Release k' # ops) cur = holder key who k ops (if k' = k then None else cur)"

locale exclusive_table =
  fixes owner :: "'s \<Rightarrow> str \<rightharpoonup> 'o"
    and claim :: "'c \<Rightarrow> 's \<Rightarrow> bool \<times> 's"
    and release :: "str \<Rightarrow> 's \<Rightarrow> 's"
    and key :: "'c \<Rightarrow> str"
    and who :: "'c \<Rightarrow> 'o"
  assumes claim_free: "owner s (key c) = None \<Longrightarrow>
      fst (claim c s) \<and> owner (snd (claim c s)) = (owner s)(key c \<mapsto> who c)"
    and claim_taken: "owner s (key c) \<noteq> None \<Longrightarrow> \<not> fst (claim c s) \<and> snd (claim c s) = s"
    and release_frees: "owner (release k s) = (owner s)(k := None)"
begin

lemma claim_succeeds_iff: "fst (claim c s) \<longleftrightarrow> owner s (key c) = None"
  using claim_free [of s c] claim_taken [of s c] by blast

lemma owner_claim:
  "owner (snd (claim c s)) k = (if key c = k \<and> owner s k = None then Some (who c) else owner s k)"
  using claim_free [of s c] claim_taken [of s c] by (cases "owner s (key c)") auto

lemma owner_is_holder: "owner (run_claims claim release ops s) k = holder key who k ops (owner s k)"
proof (induction ops arbitrary: s)
  case (Cons opn ops)
  then show ?case
    by (cases opn) (simp_all add: owner_claim release_frees)
qed simp

lemma claim_after:
  "fst (claim c (run_claims claim release ops s)) \<longleftrightarrow> holder key who (key c) ops (owner s (key c)) = None"
  by (simp add: claim_succeeds_iff owner_is_holder)

end

lemma holder_kept:
  assumes "Release k \<notin> set ops"
  shows "holder key who k ops (Some x) = Some x"
  using assms
proof (induction ops)
  case (Cons opn ops)
  then show ?case by (cases opn) auto
qed simp

end
