(* ===== verification/Coordinator.thy ===== *)
theory Coordinator
  imports Session_Types
begin

section \<open>The coordinator\<close>

text \<open>
  The model of \<open>crates/mxdx-coordinator/src\<close>: the capability index (\<open>index.rs\<close>), the router
  (\<open>router.rs\<close>), the claim tracker (\<open>claim.rs\<close>), the watchlist (\<open>watchlist.rs\<close>) and the
  failure policies (\<open>failure.rs\<close>). Hash maps are maps; where the code iterates over one, the
  order is a parameter. The clock (seconds since the epoch, \<open>u64\<close>) is an argument.
\<close>

subsection \<open>Capability index\<close>

record CapabilityIndex =
  by_capability :: "str \<rightharpoonup> str list"
  ci_workers :: "str \<rightharpoonup> WorkerInfo"

definition index_new :: CapabilityIndex where
  "index_new = \<lparr>by_capability = Map.empty, ci_workers = Map.empty\<rparr>"

definition index_remove :: "str \<Rightarrow> CapabilityIndex \<Rightarrow> CapabilityIndex" where
  "index_remove wid ix =
     \<lparr>by_capability =
        (\<lambda>cap. case by_capability ix cap of
                 None \<Rightarrow> None
               | Some ws \<Rightarrow>
                   (let ws' = filter (\<lambda>i. i \<noteq> wid) ws in if ws' = [] then None else Some ws')),
      ci_workers = (ci_workers ix)(wid := None)\<rparr>"

text \<open>\<open>entry(cap).or_default().push(id)\<close>.\<close>

definition push_entry :: "str \<Rightarrow> str \<Rightarrow> (str \<rightharpoonup> str list) \<Rightarrow> (str \<rightharpoonup> str list)" where
  "push_entry wid cap m =
     m(cap \<mapsto> (case m cap of None \<Rightarrow> [] | Some ws \<Rightarrow> ws) @ [wid])"

definition index_update :: "WorkerInfo \<Rightarrow> CapabilityIndex \<Rightarrow> CapabilityIndex" where
  "index_update info ix =
     (let wid = wi_worker_id info;
          ix1 = index_remove wid ix;
          m1 = fold (push_entry wid) (wi_capabilities info) (by_capability ix1);
          m2 = fold (\<lambda>tool m. if wt_healthy tool then push_entry wid (wt_name tool) m else m)
                 (wi_tools info) m1
      in \<lparr>by_capability = m2, ci_workers = (ci_workers ix1)(wid \<mapsto> info)\<rparr>)"

definition workers_with_capability :: "CapabilityIndex \<Rightarrow> str \<Rightarrow> str list" where
  "workers_with_capability ix cap = (case by_capability ix cap of None \<Rightarrow> [] | Some ws \<Rightarrow> ws)"

text \<open>The loop of \<open>workers_with_all\<close>, with its running intersection.\<close>

fun intersect_all :: "CapabilityIndex \<Rightarrow> str list \<Rightarrow> str list option \<Rightarrow> str list option" where
  "intersect_all ix [] result = result"
| "intersect_all ix (cap # caps) result =
     (let workers = workers_with_capability ix cap
      in intersect_all ix caps
           (Some (case result of
                    None \<Rightarrow> workers
                  | Some prev \<Rightarrow> filter (\<lambda>i. i \<in> set workers) prev)))"

definition workers_with_all :: "key_order \<Rightarrow> CapabilityIndex \<Rightarrow> str list \<Rightarrow> str list" where
  "workers_with_all it ix caps =
     (if caps = [] then it (dom (ci_workers ix))
      else (case intersect_all ix caps None of None \<Rightarrow> [] | Some ws \<Rightarrow> ws))"

definition get_worker :: "CapabilityIndex \<Rightarrow> str \<Rightarrow> WorkerInfo option" where
  "get_worker ix wid = ci_workers ix wid"

definition worker_count :: "CapabilityIndex \<Rightarrow> nat" where
  "worker_count ix = card (dom (ci_workers ix))"

subsection \<open>Router\<close>

record WorkerEntry =
  we_room_id :: str
  we_info :: WorkerInfo

record Router =
  rt_workers :: "WorkerEntry list"

definition router_new :: Router where
  "router_new = \<lparr>rt_workers = []\<rparr>"

abbreviation entry_id :: "WorkerEntry \<Rightarrow> str" where
  "entry_id w \<equiv> wi_worker_id (we_info w)"

text \<open>\<open>iter_mut().find(..)\<close> and the assignment through it: the first match is replaced.\<close>

fun replace_first :: "('a \<Rightarrow> bool) \<Rightarrow> 'a \<Rightarrow> 'a list \<Rightarrow> 'a list option" where
  "replace_first P y [] = None"
| "replace_first P y (x # xs) = (if P x then Some (y # xs) else map_option (Cons x) (replace_first P y xs))"

definition update_worker :: "str \<Rightarrow> WorkerInfo \<Rightarrow> Router \<Rightarrow> Router" where
  "update_worker room info r =
     (let entry = \<lparr>we_room_id = room, we_info = info\<rparr>
      in case replace_first (\<lambda>w. entry_id w = wi_worker_id info) entry (rt_workers r) of
           Some ws \<Rightarrow> r\<lparr>rt_workers := ws\<rparr>
         | None \<Rightarrow> r\<lparr>rt_workers := rt_workers r @ [entry]\<rparr>)"

definition remove_worker :: "str \<Rightarrow> Router \<Rightarrow> Router" where
  "remove_worker wid r = r\<lparr>rt_workers := filter (\<lambda>w. entry_id w \<noteq> wid) (rt_workers r)\<rparr>"

definition route :: "Router \<Rightarrow> SessionTask \<Rightarrow> WorkerEntry option" where
  "route r task =
     (if st_required_capabilities task = [] then
        (case rt_workers r of [] \<Rightarrow> None | w # _ \<Rightarrow> Some w)
      else
        (case filter (\<lambda>w. \<forall>req \<in> set (st_required_capabilities task).
                            req \<in> set (wi_capabilities (we_info w))
                            \<or> (\<exists>t \<in> set (wi_tools (we_info w)). wt_name t = req \<and> wt_healthy t))
                (rt_workers r) of
           [] \<Rightarrow> None
         | w # _ \<Rightarrow> Some w))"

subsection \<open>Claim tracker\<close>

record ClaimRecord =
  cr_session_uuid :: str
  cr_worker_id :: str
  cr_claimed_at :: u64

record ClaimTracker =
  claims :: "str \<rightharpoonup> ClaimRecord"

definition tracker_new :: ClaimTracker where
  "tracker_new = \<lparr>claims = Map.empty\<rparr>"

definition record_claim :: "u64 \<Rightarrow> str \<Rightarrow> str \<Rightarrow> ClaimTracker \<Rightarrow> bool \<times> ClaimTracker" where
  "record_claim now session_uuid worker_id tr =
     (if claims tr session_uuid \<noteq> None then (False, tr)
      else
        (True, tr\<lparr>claims := (claims tr)(session_uuid \<mapsto>
           \<lparr>cr_session_uuid = session_uuid, cr_worker_id = worker_id, cr_claimed_at = now\<rparr>)\<rparr>))"

definition get_claim :: "ClaimTracker \<Rightarrow> str \<Rightarrow> ClaimRecord option" where
  "get_claim tr session_uuid = claims tr session_uuid"

definition release_claim :: "str \<Rightarrow> ClaimTracker \<Rightarrow> ClaimTracker" where
  "release_claim session_uuid tr = tr\<lparr>claims := (claims tr)(session_uuid := None)\<rparr>"

definition is_claimed :: "ClaimTracker \<Rightarrow> str \<Rightarrow> bool" where
  "is_claimed tr session_uuid \<longleftrightarrow> claims tr session_uuid \<noteq> None"

subsection \<open>Watchlist\<close>

record WatchedSession =
  ws_session_uuid :: str
  ws_worker_id :: str
  ws_room_id :: str
  ws_started_at :: u64
  ws_last_heartbeat :: u64
  ws_heartbeat_interval_seconds :: u64
  ws_timeout_seconds :: "u64 option"

datatype WatchAlert =
    HeartbeatMiss (hm_session: str) (hm_worker: str) (hm_seconds_since_last: u64)
  | TimeoutAlert (ta_session: str) (ta_worker: str) (ta_elapsed_seconds: u64)

record Watchlist =
  wl_sessions :: "str \<rightharpoonup> WatchedSession"

definition watchlist_new :: Watchlist where
  "watchlist_new = \<lparr>wl_sessions = Map.empty\<rparr>"

definition watch :: "WatchedSession \<Rightarrow> Watchlist \<Rightarrow> Watchlist" where
  "watch s wl = wl\<lparr>wl_sessions := (wl_sessions wl)(ws_session_uuid s \<mapsto> s)\<rparr>"

definition unwatch :: "str \<Rightarrow> Watchlist \<Rightarrow> Watchlist" where
  "unwatch uuid wl = wl\<lparr>wl_sessions := (wl_sessions wl)(uuid := None)\<rparr>"

definition record_heartbeat :: "u64 \<Rightarrow> str \<Rightarrow> Watchlist \<Rightarrow> Watchlist" where
  "record_heartbeat now uuid wl =
     (case wl_sessions wl uuid of
        None \<Rightarrow> wl
      | Some s \<Rightarrow> wl\<lparr>wl_sessions := (wl_sessions wl)(uuid \<mapsto> s\<lparr>ws_last_heartbeat := now\<rparr>)\<rparr>)"

text \<open>The body of the loop of \<open>check_at\<close>: the alerts of one session. The product wraps.\<close>

definition session_alerts :: "u64 \<Rightarrow> WatchedSession \<Rightarrow> WatchAlert list" where
  "session_alerts now s =
     (let since_last = saturating_sub now (ws_last_heartbeat s)
      in if since_last > ws_heartbeat_interval_seconds s * 2
         then [HeartbeatMiss (ws_session_uuid s) (ws_worker_id s) since_last] else []) @
     (case ws_timeout_seconds s of
        None \<Rightarrow> []
      | Some timeout \<Rightarrow>
          (let elapsed = saturating_sub now (ws_started_at s)
           in if elapsed > timeout
              then [TimeoutAlert (ws_session_uuid s) (ws_worker_id s) elapsed] else []))"

definition check_at :: "key_order \<Rightarrow> u64 \<Rightarrow> Watchlist \<Rightarrow> WatchAlert list" where
  "check_at it now wl =
     concat (map (\<lambda>k. case wl_sessions wl k of None \<Rightarrow> [] | Some s \<Rightarrow> session_alerts now s)
       (it (dom (wl_sessions wl))))"

definition watched_count :: "Watchlist \<Rightarrow> nat" where
  "watched_count wl = card (dom (wl_sessions wl))"

subsection \<open>Failure policies\<close>

datatype FailureAction =
    Escalate (fa_session_uuid: str) (fa_why: str)
  | Respawn (fa_task: SessionTask) (fa_attempt: u8) (fa_max_retries: u8)
  | RespawnWithContext SessionTask "str option"
  | Abandon

definition apply_policy :: "FailurePolicy \<Rightarrow> SessionTask \<Rightarrow> str \<Rightarrow> u8 \<Rightarrow> FailureAction" where
  "apply_policy policy task failure_reason attempt =
     (case policy of
        PolEscalate \<Rightarrow> Escalate (st_uuid task) failure_reason
      | PolRespawn mx \<Rightarrow>
          if attempt \<ge> mx then
            Escalate (st_uuid task)
              (''max retries ('' @ show_nat (unat mx) @ '') exceeded: '' @ failure_reason)
          else Respawn task (attempt + 1) mx
      | PolRespawnWithContext \<Rightarrow> RespawnWithContext task (st_plan task)
      | PolAbandon \<Rightarrow> Abandon)"

subsection \<open>Registries of workers\<close>

text \<open>
  The index and the router are both fed the same worker events. What they promise is a map
  from worker ids to the latest description.
\<close>

datatype registry_op = RegUpdate str WorkerInfo | RegRemove str

fun run_registry ::
  "(str \<Rightarrow> WorkerInfo \<Rightarrow> 's \<Rightarrow> 's) \<Rightarrow> (str \<Rightarrow> 's \<Rightarrow> 's) \<Rightarrow> registry_op list \<Rightarrow> 's \<Rightarrow> 's" where
  "run_registry upd rem [] s = s"
| "run_registry upd rem (RegUpdate room info # ops) s = run_registry upd rem ops (upd room info s)"
| "run_registry upd rem (RegRemove w # ops) s = run_registry upd rem ops (rem w s)"

fun registered :: "registry_op list \<Rightarrow> (str \<rightharpoonup> WorkerInfo) \<Rightarrow> (str \<rightharpoonup> WorkerInfo)" where
  "registered [] m = m"
| "registered (RegUpdate room info # ops) m = registered ops (m(wi_worker_id info \<mapsto> info))"
| "registered (RegRemove w # ops) m = registered ops (m(w := None))"

locale worker_registry =
  fixes ok :: "'s \<Rightarrow> bool"
    and view :: "'s \<Rightarrow> str \<rightharpoonup> WorkerInfo"
    and upd :: "str \<Rightarrow> WorkerInfo \<Rightarrow> 's \<Rightarrow> 's"
    and rem :: "str \<Rightarrow> 's \<Rightarrow> 's"
  assumes upd_ok: "ok s \<Longrightarrow> ok (upd room info s)"
    and upd_view: "ok s \<Longrightarrow> view (upd room info s) = (view s)(wi_worker_id info \<mapsto> info)"
    and rem_ok: "ok s \<Longrightarrow> ok (rem w s)"
    and rem_view: "ok s \<Longrightarrow> view (rem w s) = (view s)(w := None)"
begin

lemma run_refines:
  "ok s \<Longrightarrow> ok (run_registry upd rem ops s) \<and> view (run_registry upd rem ops s) = registered ops (view s)"
proof (induction ops arbitrary: s)
  case (Cons opn ops)
  then show ?case
    by (cases opn) (simp_all only: run_registry.simps registered.simps upd_ok upd_view rem_ok rem_view simp_thms)
qed simp

end

definition offers :: "WorkerInfo \<Rightarrow> str \<Rightarrow> bool" where
  "offers info cap \<longleftrightarrow>
     cap \<in> set (wi_capabilities info) \<or> (\<exists>t \<in> set (wi_tools info). wt_name t = cap \<and> wt_healthy t)"

subsection \<open>The index implements a registry\<close>

definition ids_of :: "(str \<rightharpoonup> str list) \<Rightarrow> str \<Rightarrow> str list" where
  "ids_of m cap = (case m cap of None \<Rightarrow> [] | Some ws \<Rightarrow> ws)"

lemma workers_with_capability_ids: "workers_with_capability ix cap = ids_of (by_capability ix) cap"
  by (simp add: workers_with_capability_def ids_of_def)

lemma ids_of_push: "ids_of (push_entry w cap m) c = ids_of m c @ (if c = cap then [w] else [])"
  by (simp add: push_entry_def ids_of_def)

lemma ids_of_push_fold:
  "set (ids_of (fold (push_entry w) caps m) c) = set (ids_of m c) \<union> (if c \<in> set caps then {w} else {})"
  by (induction caps arbitrary: m) (auto simp: ids_of_push)

lemma ids_of_tool_fold:
  "set (ids_of (fold (\<lambda>tool m. if wt_healthy tool then push_entry w (wt_name tool) m else m) tools m) c) =
     set (ids_of m c) \<union> (if \<exists>t \<in> set tools. wt_name t = c \<and> wt_healthy t then {w} else {})"
  by (induction tools arbitrary: m) (auto simp: ids_of_push)

lemma index_remove_ids:
  "workers_with_capability (index_remove w ix) cap = filter (\<lambda>i. i \<noteq> w) (workers_with_capability ix cap)"
  by (simp add: workers_with_capability_def index_remove_def Let_def split: option.splits)

lemma index_update_ids:
  "set (workers_with_capability (index_update info ix) cap) =
     (set (workers_with_capability ix cap) - {wi_worker_id info})
     \<union> (if offers info cap then {wi_worker_id info} else {})"
proof -
  have "set (workers_with_capability (index_update info ix) cap) =
      set (workers_with_capability (index_remove (wi_worker_id info) ix) cap)
      \<union> (if cap \<in> set (wi_capabilities info) then {wi_worker_id info} else {})
      \<union> (if \<exists>t \<in> set (wi_tools info). wt_name t = cap \<and> wt_healthy t then {wi_worker_id info} else {})"
    by (simp only: workers_with_capability_ids index_update_def Let_def CapabilityIndex.simps
        ids_of_tool_fold ids_of_push_fold)
  then show ?thesis by (auto simp: index_remove_ids offers_def)
qed

definition index_ok :: "CapabilityIndex \<Rightarrow> bool" where
  "index_ok ix \<longleftrightarrow>
     finite (dom (ci_workers ix))
     \<and> (\<forall>w info. ci_workers ix w = Some info \<longrightarrow> wi_worker_id info = w)
     \<and> (\<forall>cap w. w \<in> set (workers_with_capability ix cap) \<longleftrightarrow>
          (\<exists>info. ci_workers ix w = Some info \<and> offers info cap))"

lemma ci_workers_update [simp]:
  "ci_workers (index_update info ix) = (ci_workers ix)(wi_worker_id info \<mapsto> info)"
  by (simp add: index_update_def index_remove_def Let_def)

lemma ci_workers_remove [simp]: "ci_workers (index_remove w ix) = (ci_workers ix)(w := None)"
  by (simp add: index_remove_def)

lemma index_new_ok: "index_ok index_new"
  by (simp add: index_ok_def index_new_def workers_with_capability_def)

lemma index_update_ok: "index_ok ix \<Longrightarrow> index_ok (index_update info ix)"
  by (auto simp: index_ok_def index_update_ids)

lemma index_remove_ok: "index_ok ix \<Longrightarrow> index_ok (index_remove w ix)"
  by (auto simp: index_ok_def index_remove_ids)

interpretation index_registry:
  worker_registry index_ok ci_workers "\<lambda>room. index_update" index_remove
  by unfold_locales (simp_all add: index_update_ok index_remove_ok)

lemma intersect_all_set:
  "\<exists>ws. intersect_all ix caps (Some prev) = Some ws
     \<and> set ws = set prev \<inter> {w. \<forall>c \<in> set caps. w \<in> set (workers_with_capability ix c)}"
proof (induction caps arbitrary: prev)
  case (Cons c cs)
  from Cons [of "filter (\<lambda>i. i \<in> set (workers_with_capability ix c)) prev"] show ?case
    by (auto simp: Let_def)
qed simp

lemma workers_with_all_set:
  assumes "index_ok ix" and "iterates it"
  shows "set (workers_with_all it ix caps) =
    {w. \<exists>info. ci_workers ix w = Some info \<and> (\<forall>c \<in> set caps. offers info c)}"
proof (cases caps)
  case Nil
  with assms show ?thesis
    by (auto simp: workers_with_all_def index_ok_def iterates_set)
next
  case (Cons c cs)
  from intersect_all_set [of ix cs "workers_with_capability ix c"] obtain ws
    where ws: "intersect_all ix cs (Some (workers_with_capability ix c)) = Some ws"
      "set ws = set (workers_with_capability ix c)
         \<inter> {w. \<forall>c \<in> set cs. w \<in> set (workers_with_capability ix c)}" by blast
  then have "set (workers_with_all it ix caps) = {w. \<forall>c \<in> set caps. w \<in> set (workers_with_capability ix c)}"
    by (auto simp: workers_with_all_def Cons Let_def)
  with assms(1) Cons show ?thesis by (fastforce simp: index_ok_def)
qed

subsection \<open>The router implements a registry\<close>

definition router_ok :: "Router \<Rightarrow> bool" where
  "router_ok r \<longleftrightarrow> distinct (map entry_id (rt_workers r))"

definition router_view :: "Router \<Rightarrow> str \<rightharpoonup> WorkerInfo" where
  "router_view r w = map_option we_info (find (\<lambda>e. entry_id e = w) (rt_workers r))"

lemma replace_first_None: "replace_first P y xs = None \<longleftrightarrow> (\<forall>x \<in> set xs. \<not> P x)"
  by (induction xs) auto

lemma replace_first_ids:
  "replace_first (\<lambda>e. entry_id e = entry_id y) y xs = Some ys \<Longrightarrow> map entry_id ys = map entry_id xs"
  by (induction xs arbitrary: ys) (auto split: if_splits)

lemma replace_first_find:
  "replace_first (\<lambda>e. entry_id e = entry_id y) y xs = Some ys \<Longrightarrow>
   find (\<lambda>e. entry_id e = w) ys = (if w = entry_id y then Some y else find (\<lambda>e. entry_id e = w) xs)"
  by (induction xs arbitrary: ys) (auto split: if_splits)

lemma find_snoc: "find P (xs @ [y]) = (case find P xs of Some x \<Rightarrow> Some x | None \<Rightarrow> if P y then Some y else None)"
  by (induction xs) auto

lemma find_filter_other:
  "find (\<lambda>e. entry_id e = w) (filter (\<lambda>e. entry_id e \<noteq> v) xs) =
     (if w = v then None else find (\<lambda>e. entry_id e = w) xs)"
  by (induction xs) auto

interpretation router_registry: worker_registry router_ok router_view update_worker remove_worker
proof
  fix r room info
  assume ok: "router_ok r"
  let ?e = "\<lparr>we_room_id = room, we_info = info\<rparr>"
  show "router_ok (update_worker room info r)"
  proof (cases "replace_first (\<lambda>w. entry_id w = entry_id ?e) ?e (rt_workers r)")
    case None
    then have "entry_id ?e \<notin> entry_id ` set (rt_workers r)" by (auto simp: replace_first_None)
    with None ok show ?thesis by (simp add: router_ok_def update_worker_def)
  next
    case (Some ws)
    from replace_first_ids [OF Some] Some ok show ?thesis by (simp add: router_ok_def update_worker_def)
  qed
  show "router_view (update_worker room info r) = (router_view r)(wi_worker_id info \<mapsto> info)"
  proof (cases "replace_first (\<lambda>w. entry_id w = entry_id ?e) ?e (rt_workers r)")
    case None
    then have "find (\<lambda>e. entry_id e = wi_worker_id info) (rt_workers r) = None"
      by (auto simp: replace_first_None find_None_iff)
    with None show ?thesis
      by (auto simp: router_view_def update_worker_def find_snoc fun_eq_iff split: option.splits)
  next
    case (Some ws)
    from replace_first_find [OF Some] Some show ?thesis
      by (simp add: router_view_def update_worker_def fun_eq_iff)
  qed
next
  fix r w
  assume "router_ok r"
  then show "router_ok (remove_worker w r)"
    by (simp add: router_ok_def remove_worker_def distinct_map_filter)
  show "router_view (remove_worker w r) = (router_view r)(w := None)"
    by (simp add: router_view_def remove_worker_def find_filter_other fun_eq_iff)
qed


subsection \<open>Routing\<close>

lemma route_first:
  "route r task =
     (case filter (\<lambda>w. \<forall>c \<in> set (st_required_capabilities task). offers (we_info w) c) (rt_workers r) of
        [] \<Rightarrow> None | w # _ \<Rightarrow> Some w)"
  by (simp add: route_def offers_def)

lemma router_view_entry:
  assumes "router_ok r"
  shows "router_view r w = Some info \<longleftrightarrow> (\<exists>e \<in> set (rt_workers r). entry_id e = w \<and> we_info e = info)"
proof
  assume "router_view r w = Some info"
  then show "\<exists>e \<in> set (rt_workers r). entry_id e = w \<and> we_info e = info"
    by (auto simp: router_view_def find_Some_iff)
next
  assume "\<exists>e \<in> set (rt_workers r). entry_id e = w \<and> we_info e = info"
  then obtain e where e: "e \<in> set (rt_workers r)" "entry_id e = w" "we_info e = info" by blast
  then obtain e' where find: "find (\<lambda>e. entry_id e = w) (rt_workers r) = Some e'"
    by (cases "find (\<lambda>e. entry_id e = w) (rt_workers r)") (auto simp: find_None_iff)
  then have "e' \<in> set (rt_workers r)" "entry_id e' = w" by (auto simp: find_Some_iff)
  with e assms have "e' = e" by (auto simp: router_ok_def distinct_map inj_on_def)
  with find e show "router_view r w = Some info" by (simp add: router_view_def)
qed

lemma registries_after:
  "index_ok (run_registry (\<lambda>room. index_update) index_remove ops index_new)"
  "ci_workers (run_registry (\<lambda>room. index_update) index_remove ops index_new) = registered ops Map.empty"
  "router_ok (run_registry update_worker remove_worker ops router_new)"
  "router_view (run_registry update_worker remove_worker ops router_new) = registered ops Map.empty"
  using index_registry.run_refines [OF index_new_ok, of ops]
    router_registry.run_refines [of router_new ops]
  by (simp_all add: index_new_def router_new_def router_ok_def router_view_def [abs_def])

text \<open>
  C7. The router and the capability index agree. Fed with the same worker updates and
  removals, in any order, the index lists for any capabilities exactly the workers whose
  latest description offers all of them, a healthy tool counting by its name; and the
  router finds a worker for a task exactly if the index lists one for the task's
  requirements, and then one of those, with its latest description.
\<close>

theorem router_agrees_with_index:
  assumes "iterates it"
    and "ix = run_registry (\<lambda>room. index_update) index_remove ops index_new"
    and "r = run_registry update_worker remove_worker ops router_new"
  shows "set (workers_with_all it ix caps) =
      {w. \<exists>info. registered ops Map.empty w = Some info \<and> (\<forall>c \<in> set caps. offers info c)}
    \<and> (case route r task of
         None \<Rightarrow> workers_with_all it ix (st_required_capabilities task) = []
       | Some e \<Rightarrow> entry_id e \<in> set (workers_with_all it ix (st_required_capabilities task))
           \<and> get_worker ix (entry_id e) = Some (we_info e))"
proof -
  note regs = registries_after [of ops, folded assms(2,3)]
  have all: "set (workers_with_all it ix cs) =
      {w. \<exists>info. registered ops Map.empty w = Some info \<and> (\<forall>c \<in> set cs. offers info c)}" for cs
    using workers_with_all_set [OF regs(1) assms(1)] regs(2) by simp
  let ?fits = "\<lambda>w. \<forall>c \<in> set (st_required_capabilities task). offers (we_info w) c"
  have known: "registered ops Map.empty (entry_id e) = Some (we_info e)" if "e \<in> set (rt_workers r)" for e
    using router_view_entry [OF regs(3), of "entry_id e" "we_info e"] that regs(4) by auto
  show ?thesis
  proof (cases "filter ?fits (rt_workers r)")
    case Nil
    have "set (workers_with_all it ix (st_required_capabilities task)) = {}"
    proof (rule ccontr)
      assume "\<not> ?thesis"
      then obtain w info where w: "registered ops Map.empty w = Some info"
        "\<forall>c \<in> set (st_required_capabilities task). offers info c" by (auto simp: all)
      with router_view_entry [OF regs(3), of w info] regs(4)
      obtain e where "e \<in> set (rt_workers r)" "we_info e = info" by auto
      with w Nil show False by (auto simp: filter_empty_conv)
    qed
    with Nil all [of caps] show ?thesis by (simp add: route_first)
  next
    case (Cons e es)
    then have "e \<in> set (filter ?fits (rt_workers r))" by simp
    then have "e \<in> set (rt_workers r)" "?fits e" by simp_all
    with Cons all known regs(2) show ?thesis by (simp add: route_first get_worker_def)
  qed
qed

definition sample_worker :: "str \<Rightarrow> str list \<Rightarrow> WorkerInfo" where
  "sample_worker w caps =
     \<lparr>wi_worker_id = w, wi_host = ''h'', wi_os = ''linux'', wi_arch = ''x86_64'', wi_cpu_count = 4,
      wi_memory_total_mb = 1, wi_disk_available_mb = 1, wi_tools = [], wi_capabilities = caps,
      wi_updated_at = 0\<rparr>"

definition sample_task :: "str list \<Rightarrow> SessionTask" where
  "sample_task caps =
     \<lparr>st_uuid = ''t'', st_sender_id = ''@a:x'', st_bin = ''echo'', st_args = [], st_env = None,
      st_cwd = None, st_interactive = False, st_no_room_output = False, st_timeout_seconds = None,
      st_heartbeat_interval_seconds = 30, st_plan = None, st_required_capabilities = caps,
      st_routing_mode = None, st_on_timeout = None, st_on_heartbeat_miss = None\<rparr>"

theorem router_agrees_with_index_witness:
  "let ops = [RegUpdate ''!r1'' (sample_worker ''w1'' [''linux'']),
              RegUpdate ''!r2'' (sample_worker ''w2'' [''linux'', ''gpu'']), RegRemove ''w1''];
       ix = run_registry (\<lambda>room. index_update) index_remove ops index_new;
       r = run_registry update_worker remove_worker ops router_new
   in map_option entry_id (route r (sample_task [''gpu''])) = Some ''w2''
      \<and> ''w2'' \<in> set (workers_with_all sorted_list_of_set ix [''gpu''])"
proof -
  let ?ops = "[RegUpdate ''!r1'' (sample_worker ''w1'' [''linux'']),
              RegUpdate ''!r2'' (sample_worker ''w2'' [''linux'', ''gpu'']), RegRemove ''w1'']"
  have route: "route (run_registry update_worker remove_worker ?ops router_new) (sample_task [''gpu'']) =
      Some \<lparr>we_room_id = ''!r2'', we_info = sample_worker ''w2'' [''linux'', ''gpu'']\<rparr>"
    by (simp add: route_def sample_worker_def sample_task_def update_worker_def remove_worker_def
        router_new_def)
  show ?thesis
    using router_agrees_with_index [OF iterates_sorted refl refl, of ?ops "[]" "sample_task [''gpu'']"]
    unfolding route Let_def by (simp add: sample_worker_def sample_task_def)
qed

subsection \<open>Claims\<close>

type_synonym claim_request = "u64 \<times> str \<times> str"

interpretation claim_table:
  exclusive_table "\<lambda>tr k. map_option cr_worker_id (claims tr k)"
    "\<lambda>(now, session, worker). record_claim now session worker" release_claim
    "\<lambda>(now, session, worker). session" "\<lambda>(now, session, worker). worker"
  by unfold_locales (auto simp: record_claim_def release_claim_def)

text \<open>
  A session belongs to one worker at a time. After any sequence of claims and releases
  the tracker names, for every session, the worker of the first claim since its last
  release; a further claim succeeds exactly if there is none, and a refused claim changes
  nothing.
\<close>

lemma claims_exclusive:
  "map_option cr_worker_id (get_claim (run_claims (\<lambda>(now, session, worker). record_claim now session worker)
       release_claim ops tracker_new) s)
     = holder (\<lambda>(now, session, worker). session) (\<lambda>(now, session, worker). worker) s ops None
   \<and> (fst (record_claim t s w (run_claims (\<lambda>(now, session, worker). record_claim now session worker)
        release_claim ops tracker_new))
      \<longleftrightarrow> holder (\<lambda>(now, session, worker). session) (\<lambda>(now, session, worker). worker) s ops None = None)
   \<and> (\<not> fst (record_claim t s w tr) \<longleftrightarrow> is_claimed tr s)
   \<and> (is_claimed tr s \<longrightarrow> snd (record_claim t s w tr) = tr)"
  using claim_table.owner_is_holder [of ops tracker_new s]
    claim_table.claim_after [of "(t, s, w)" ops tracker_new]
  by (simp add: tracker_new_def get_claim_def) (simp add: record_claim_def is_claimed_def)

lemma claims_exclusive_example:
  "\<not> fst (record_claim 2 ''s'' ''w2'' (snd (record_claim 1 ''s'' ''w1'' tracker_new)))
   \<and> snd (record_claim 2 ''s'' ''w2'' (snd (record_claim 1 ''s'' ''w1'' tracker_new)))
       = snd (record_claim 1 ''s'' ''w1'' tracker_new)"
  using claims_exclusive [of "[]" "''s''" 2 "''w2''" "snd (record_claim 1 ''s'' ''w1'' tracker_new)"]
  by (simp add: is_claimed_def record_claim_def tracker_new_def)

subsection \<open>Alerts\<close>

datatype watch_op = OpWatch WatchedSession | OpUnwatch str | OpHeartbeat u64 str

fun apply_watch :: "watch_op \<Rightarrow> Watchlist \<Rightarrow> Watchlist" where
  "apply_watch (OpWatch s) wl = watch s wl"
| "apply_watch (OpUnwatch u) wl = unwatch u wl"
| "apply_watch (OpHeartbeat t u) wl = record_heartbeat t u wl"

definition watch_ok :: "Watchlist \<Rightarrow> bool" where
  "watch_ok wl \<longleftrightarrow> finite (dom (wl_sessions wl))
     \<and> (\<forall>k s. wl_sessions wl k = Some s \<longrightarrow> ws_session_uuid s = k)"

lemma apply_watch_ok: "watch_ok wl \<Longrightarrow> watch_ok (apply_watch opn wl)"
  by (cases opn) (auto simp: watch_ok_def watch_def unwatch_def record_heartbeat_def split: option.splits)

lemma watch_run_ok: "watch_ok wl \<Longrightarrow> watch_ok (fold apply_watch ops wl)"
  by (induction ops arbitrary: wl) (simp_all add: apply_watch_ok)

lemma watch_new_ok: "watch_ok watchlist_new"
  by (simp add: watch_ok_def watchlist_new_def)

lemma check_at_set:
  assumes "iterates it" and "watch_ok wl"
  shows "a \<in> set (check_at it now wl) \<longleftrightarrow> (\<exists>k s. wl_sessions wl k = Some s \<and> a \<in> set (session_alerts now s))"
proof -
  have keys: "set (it (dom (wl_sessions wl))) = dom (wl_sessions wl)"
    using assms by (simp add: watch_ok_def iterates_set)
  have "a \<in> set (check_at it now wl) \<longleftrightarrow> (\<exists>k \<in> dom (wl_sessions wl). a \<in> set (session_alerts now (the (wl_sessions wl k))))"
    unfolding check_at_def set_concat set_map keys by (intro iffI) (auto simp: dom_def)
  then show ?thesis by (metis domD domI option.sel)
qed

lemma unat_double: "unat (i :: u64) < 2 ^ 63 \<Longrightarrow> unat (i * 2) = 2 * unat i"
  by (subst unat_mult_lem [THEN iffD1]) simp_all

lemma session_alerts_miss:
  assumes "unat (ws_heartbeat_interval_seconds s) < 2 ^ 63"
  shows "HeartbeatMiss u w n \<in> set (session_alerts now s) \<longleftrightarrow>
    u = ws_session_uuid s \<and> w = ws_worker_id s \<and> n = saturating_sub now (ws_last_heartbeat s)
    \<and> 2 * unat (ws_heartbeat_interval_seconds s) < unat now - unat (ws_last_heartbeat s)"
  by (auto simp: session_alerts_def Let_def word_less_nat_alt unat_double [OF assms] split: option.splits)

lemma session_alerts_timeout:
  "TimeoutAlert u w n \<in> set (session_alerts now s) \<longleftrightarrow>
    u = ws_session_uuid s \<and> w = ws_worker_id s \<and> n = saturating_sub now (ws_started_at s)
    \<and> (\<exists>t. ws_timeout_seconds s = Some t \<and> unat t < unat now - unat (ws_started_at s))"
  by (cases "ws_timeout_seconds s") (auto simp: session_alerts_def Let_def word_less_nat_alt)

lemma check_at_own:
  assumes "iterates it" and "watch_ok wl" and "\<And>s. a \<in> set (session_alerts now s) \<Longrightarrow> ws_session_uuid s = u"
  shows "a \<in> set (check_at it now wl) \<longleftrightarrow> (\<exists>s. wl_sessions wl u = Some s \<and> a \<in> set (session_alerts now s))"
proof -
  have "k = u" if "wl_sessions wl k = Some s" "a \<in> set (session_alerts now s)" for k s
    using that assms(2) assms(3) [of s] by (auto simp: watch_ok_def)
  then show ?thesis unfolding check_at_set [OF assms(1,2)] by metis
qed

text \<open>
  Alerts are exact. After any sequence of watch, unwatch and heartbeat operations, and
  as long as no watched interval exceeds 63 bits, a session is reported for a missed
  heartbeat exactly when more than two intervals have passed since its last heartbeat,
  and for a timeout exactly when it has a limit and has run longer than it.
\<close>

lemma alerts_exact:
  assumes "iterates it" and "wl = fold apply_watch ops watchlist_new"
    and "\<forall>s \<in> ran (wl_sessions wl). unat (ws_heartbeat_interval_seconds s) < 2 ^ 63"
  shows "(HeartbeatMiss u w n \<in> set (check_at it now wl) \<longleftrightarrow>
      (\<exists>s. wl_sessions wl u = Some s \<and> w = ws_worker_id s \<and> n = saturating_sub now (ws_last_heartbeat s)
        \<and> 2 * unat (ws_heartbeat_interval_seconds s) < unat now - unat (ws_last_heartbeat s)))
    \<and> (TimeoutAlert u w n \<in> set (check_at it now wl) \<longleftrightarrow>
      (\<exists>s t. wl_sessions wl u = Some s \<and> w = ws_worker_id s \<and> n = saturating_sub now (ws_started_at s)
        \<and> ws_timeout_seconds s = Some t \<and> unat t < unat now - unat (ws_started_at s)))"
proof -
  have ok: "watch_ok wl" unfolding assms(2) by (rule watch_run_ok [OF watch_new_ok])
  have small: "unat (ws_heartbeat_interval_seconds s) < 2 ^ 63" if "wl_sessions wl u = Some s" for s
    using assms(3) that by (auto simp: ran_def)
  have uuid: "ws_session_uuid s = u"
    if "HeartbeatMiss u w n \<in> set (session_alerts now s) \<or> TimeoutAlert u w n \<in> set (session_alerts now s)" for s
    using that by (cases "ws_timeout_seconds s") (auto simp: session_alerts_def Let_def split: if_splits)
  have key: "wl_sessions wl u = Some s \<Longrightarrow> ws_session_uuid s = u" for s
    using ok by (simp add: watch_ok_def)
  have miss: "HeartbeatMiss u w n \<in> set (check_at it now wl) \<longleftrightarrow>
      (\<exists>s. wl_sessions wl u = Some s \<and> HeartbeatMiss u w n \<in> set (session_alerts now s))"
    by (rule check_at_own [OF assms(1) ok]) (use uuid in blast)
  have timeout: "TimeoutAlert u w n \<in> set (check_at it now wl) \<longleftrightarrow>
      (\<exists>s. wl_sessions wl u = Some s \<and> TimeoutAlert u w n \<in> set (session_alerts now s))"
    by (rule check_at_own [OF assms(1) ok]) (use uuid in blast)
  show ?thesis
  proof (cases "wl_sessions wl u")
    case None
    then show ?thesis by (simp add: miss timeout)
  next
    case (Some s)
    then show ?thesis
      by (simp add: miss timeout session_alerts_miss [OF small [OF Some]] session_alerts_timeout key [OF Some])
  qed
qed

definition sample_watched :: WatchedSession where
  "sample_watched = \<lparr>ws_session_uuid = ''s'', ws_worker_id = ''w'', ws_room_id = ''!r'', ws_started_at = 100,
     ws_last_heartbeat = 100, ws_heartbeat_interval_seconds = 30, ws_timeout_seconds = None\<rparr>"

lemma alerts_exact_example:
  "HeartbeatMiss ''s'' ''w'' 61 \<in> set (check_at sorted_list_of_set 181
     (fold apply_watch [OpWatch sample_watched, OpHeartbeat 120 ''s''] watchlist_new))"
proof -
  let ?wl = "fold apply_watch [OpWatch sample_watched, OpHeartbeat 120 ''s''] watchlist_new"
  have wl: "wl_sessions ?wl = [''s'' \<mapsto> sample_watched\<lparr>ws_last_heartbeat := 120\<rparr>]"
    by (simp add: watch_def record_heartbeat_def watchlist_new_def sample_watched_def)
  then have small: "\<forall>s \<in> ran (wl_sessions ?wl). unat (ws_heartbeat_interval_seconds s) < 2 ^ 63"
    by (simp add: sample_watched_def)
  show ?thesis
    using alerts_exact [OF iterates_sorted refl small, of "''s''" "''w''" 61 181]
    unfolding wl by (simp add: sample_watched_def saturating_sub_def)
qed

text \<open>A long interval overflows the doubled limit: the session is reported at once.\<close>

lemma long_interval_alerts:
  "ws_heartbeat_interval_seconds s = 2 ^ 63 \<Longrightarrow> unat (ws_last_heartbeat s) < unat now \<Longrightarrow>
   HeartbeatMiss (ws_session_uuid s) (ws_worker_id s) (now - ws_last_heartbeat s) \<in> set (session_alerts now s)"
  by (auto simp: session_alerts_def Let_def saturating_sub_def word_less_nat_alt word_le_nat_alt unat_sub)

subsection \<open>Retries\<close>

text \<open>
  What happens to a task that keeps failing: every respawned attempt fails again and is
  judged under the same policy.
\<close>

fun failure_run :: "nat \<Rightarrow> FailurePolicy \<Rightarrow> SessionTask \<Rightarrow> str \<Rightarrow> u8 \<Rightarrow> FailureAction list" where
  "failure_run 0 policy task why attempt = []"
| "failure_run (Suc fuel) policy task why attempt =
     (let action = apply_policy policy task why attempt
      in action #
         (case action of
            Respawn task' attempt' _ \<Rightarrow> failure_run fuel policy task' why attempt'
          | _ \<Rightarrow> []))"

lemma unat_plus1: "unat (a :: u8) < unat (b :: u8) \<Longrightarrow> unat (a + 1) = unat a + 1"
proof -
  assume "unat a < unat b"
  moreover have "unat b < 256" using unsigned_less [of b, where ?'a = nat] by simp
  ultimately show ?thesis by (subst unat_add_lem [THEN iffD1]) simp_all
qed

text \<open>
  C15. Retries are bounded. Under the respawn policy with a limit, a task that always fails
  is respawned with the attempt numbers up to the limit, each exactly once and without
  overflow of the 8-bit counter, and is then escalated with the limit in the reason.
\<close>

theorem retries_bounded:
  assumes "unat mx - unat attempt < fuel"
  shows "failure_run fuel (PolRespawn mx) task why attempt =
    map (\<lambda>i. Respawn task (of_nat i) mx) [unat attempt + 1 ..< unat mx + 1]
    @ [Escalate (st_uuid task) (''max retries ('' @ show_nat (unat mx) @ '') exceeded: '' @ why)]"
  using assms
proof (induction fuel arbitrary: attempt)
  case (Suc fuel)
  show ?case
  proof (cases "mx \<le> attempt")
    case True
    then show ?thesis by (simp add: apply_policy_def word_le_nat_alt)
  next
    case False
    then have lt: "unat attempt < unat mx" by (simp add: word_le_nat_alt)
    have next_att: "unat (attempt + 1) = unat attempt + 1" by (rule unat_plus1 [OF lt])
    have "of_nat (unat attempt + 1) = attempt + 1" by simp
    moreover have "[unat attempt + 1 ..< unat mx + 1] = (unat attempt + 1) # [unat (attempt + 1) + 1 ..< unat mx + 1]"
      using lt by (simp add: next_att upt_conv_Cons)
    moreover have "failure_run fuel (PolRespawn mx) task why (attempt + 1) =
      map (\<lambda>i. Respawn task (of_nat i) mx) [unat (attempt + 1) + 1 ..< unat mx + 1]
      @ [Escalate (st_uuid task) (''max retries ('' @ show_nat (unat mx) @ '') exceeded: '' @ why)]"
      by (rule Suc.IH) (use Suc.prems lt next_att in simp)
    ultimately show ?thesis using False by (simp add: apply_policy_def del: upt_Suc)
  qed
qed simp

theorem retries_bounded_witness:
  "length (failure_run 256 (PolRespawn 255) (sample_task []) ''crash'' 0) = 256"
  using retries_bounded [of 255 0 256 "sample_task []" "''crash''"] by simp

end
