(* ===== verification/Worker_Session.thy ===== *)
theory Worker_Session
  imports Session_Types
begin

section \<open>Sessions of a worker\<close>

text \<open>
  The model of four modules of \<open>crates/mxdx-worker/src\<close>: the session manager (\<open>session.rs\<close>),
  the multiplexer of interactive sessions (\<open>session_mux.rs\<close>), the retention sweeper
  (\<open>retention.rs\<close>) and the heartbeat poster (\<open>heartbeat.rs\<close>). The clock is an argument:
  seconds since the epoch, or none when the system clock is before it. JSON parsing is the
  parameter \<open>mux_json\<close>.
\<close>

subsection \<open>Session manager\<close>

datatype SessionState = Claimed | Running | Completed

record TmuxSession =
  session_name :: str
  socket_path :: str
  exit_notify_path :: str

record Session =
  se_uuid :: str
  se_task :: SessionTask
  se_state :: SessionState
  se_tmux :: "TmuxSession option"
  se_started_at :: u64
  se_worker_id :: str
  se_pid :: "u32 option"

record SessionManager =
  sm_sessions :: "str \<rightharpoonup> Session"
  sm_worker_id :: str

datatype SessionError =
    SessionExists str
  | SessionNotFound str
  | SessionNotClaimed str SessionState
  | SessionAlreadyCompleted str
  | ClockBeforeEpoch

definition manager_new :: "str \<Rightarrow> SessionManager" where
  "manager_new worker_id = \<lparr>sm_sessions = Map.empty, sm_worker_id = worker_id\<rparr>"

definition contains_session :: "SessionManager \<Rightarrow> str \<Rightarrow> bool" where
  "contains_session m uuid \<longleftrightarrow> sm_sessions m uuid \<noteq> None"

definition claim ::
  "u64 option \<Rightarrow> SessionTask \<Rightarrow> SessionManager
     \<Rightarrow> (SessionError, ActiveSessionState) result \<times> SessionManager" where
  "claim clock task m =
     (let uuid = st_uuid task
      in if sm_sessions m uuid \<noteq> None then (Err (SessionExists uuid), m)
         else
           (case clock of
              None \<Rightarrow> (Err ClockBeforeEpoch, m)
            | Some now \<Rightarrow>
                (Okay \<lparr>as_bin = st_bin task, as_args = st_args task, as_pid = None, as_start_time = now,
                       as_client_id = st_sender_id task, as_interactive = st_interactive task,
                       as_worker_id = sm_worker_id m\<rparr>,
                 m\<lparr>sm_sessions := (sm_sessions m)(uuid \<mapsto>
                     \<lparr>se_uuid = uuid, se_task = task, se_state = Claimed, se_tmux = None,
                      se_started_at = now, se_worker_id = sm_worker_id m, se_pid = None\<rparr>)\<rparr>)))"

definition mark_running ::
  "str \<Rightarrow> u32 option \<Rightarrow> TmuxSession \<Rightarrow> SessionManager
     \<Rightarrow> (SessionError, unit) result \<times> SessionManager" where
  "mark_running uuid pid tmux m =
     (case sm_sessions m uuid of
        None \<Rightarrow> (Err (SessionNotFound uuid), m)
      | Some s \<Rightarrow>
          if se_state s \<noteq> Claimed then (Err (SessionNotClaimed uuid (se_state s)), m)
          else
            (Okay (),
             m\<lparr>sm_sessions := (sm_sessions m)(uuid \<mapsto>
                 s\<lparr>se_state := Running, se_pid := pid, se_tmux := Some tmux\<rparr>)\<rparr>))"

definition complete ::
  "u64 option \<Rightarrow> str \<Rightarrow> SessionStatus \<Rightarrow> 32 word option \<Rightarrow> SessionManager
     \<Rightarrow> (SessionError, CompletedSessionState) result \<times> SessionManager" where
  "complete clock uuid status exit_code m =
     (case sm_sessions m uuid of
        None \<Rightarrow> (Err (SessionNotFound uuid), m)
      | Some s \<Rightarrow>
          if se_state s = Completed then (Err (SessionAlreadyCompleted uuid), m)
          else
            (case clock of
               None \<Rightarrow> (Err ClockBeforeEpoch, m)
             | Some now \<Rightarrow>
                 (Okay \<lparr>cs_exit_code = exit_code,
                        cs_duration_seconds = saturating_sub now (se_started_at s),
                        cs_completion_time = now\<rparr>,
                  m\<lparr>sm_sessions := (sm_sessions m)(uuid \<mapsto> s\<lparr>se_state := Completed\<rparr>)\<rparr>)))"

definition active_sessions :: "key_order \<Rightarrow> SessionManager \<Rightarrow> Session list" where
  "active_sessions it m =
     filter (\<lambda>s. se_state s \<noteq> Completed)
       (map (\<lambda>k. the (sm_sessions m k)) (it (dom (sm_sessions m))))"

definition manager_get :: "SessionManager \<Rightarrow> str \<Rightarrow> Session option" where
  "manager_get m uuid = sm_sessions m uuid"

definition manager_remove :: "str \<Rightarrow> SessionManager \<Rightarrow> Session option \<times> SessionManager" where
  "manager_remove uuid m = (sm_sessions m uuid, m\<lparr>sm_sessions := (sm_sessions m)(uuid := None)\<rparr>)"

subsection \<open>Session multiplexer\<close>

record SessionMuxEntry =
  me_session_id :: str
  me_dm_room_id :: str
  me_client_user_id :: str

record SessionMux =
  mx_sessions :: "str \<rightharpoonup> SessionMuxEntry"
  room_sessions :: "str \<rightharpoonup> str list"

datatype MuxAction =
    ForwardInput str str
  | Resize str u16 u16
  | Signal str str
  | NoMatch

record 'v mux_json =
  from_str :: "str \<Rightarrow> (str, 'v) result"
  get_field :: "'v \<Rightarrow> str \<Rightarrow> 'v option"
  as_str :: "'v \<Rightarrow> str option"
  as_u64 :: "'v \<Rightarrow> u64 option"

definition mux_new :: SessionMux where
  "mux_new = \<lparr>mx_sessions = Map.empty, room_sessions = Map.empty\<rparr>"

definition add_session :: "str \<Rightarrow> str \<Rightarrow> str \<Rightarrow> SessionMux \<Rightarrow> SessionMux" where
  "add_session session_id dm_room_id client_user_id mx =
     \<lparr>mx_sessions = (mx_sessions mx)(session_id \<mapsto>
        \<lparr>me_session_id = session_id, me_dm_room_id = dm_room_id, me_client_user_id = client_user_id\<rparr>),
      room_sessions = (room_sessions mx)(dm_room_id \<mapsto>
        (case room_sessions mx dm_room_id of None \<Rightarrow> [] | Some ids \<Rightarrow> ids) @ [session_id])\<rparr>"

definition remove_session :: "str \<Rightarrow> SessionMux \<Rightarrow> SessionMux" where
  "remove_session session_id mx =
     (case mx_sessions mx session_id of
        None \<Rightarrow> mx
      | Some entry \<Rightarrow>
          (let mx1 = mx\<lparr>mx_sessions := (mx_sessions mx)(session_id := None)\<rparr>
           in case room_sessions mx1 (me_dm_room_id entry) of
                None \<Rightarrow> mx1
              | Some ids \<Rightarrow>
                  (let ids' = filter (\<lambda>i. i \<noteq> session_id) ids
                   in mx1\<lparr>room_sessions := (room_sessions mx1)(me_dm_room_id entry :=
                        (if ids' = [] then None else Some ids'))\<rparr>)))"

definition str_field :: "'v mux_json \<Rightarrow> 'v \<Rightarrow> str \<Rightarrow> str option" where
  "str_field J v k = Option.bind (get_field J v k) (as_str J)"

definition u64_field :: "'v mux_json \<Rightarrow> 'v \<Rightarrow> str \<Rightarrow> u64 option" where
  "u64_field J v k = Option.bind (get_field J v k) (as_u64 J)"

definition unwrap_or :: "'a option \<Rightarrow> 'a \<Rightarrow> 'a" where
  "unwrap_or x d = (case x of Some v \<Rightarrow> v | None \<Rightarrow> d)"

definition route_event :: "'v mux_json \<Rightarrow> SessionMux \<Rightarrow> str \<Rightarrow> str \<Rightarrow> MuxAction" where
  "route_event J mx event_type content_json =
     (case from_str J content_json of
        Inl _ \<Rightarrow> NoMatch
      | Inr content \<Rightarrow>
          (case str_field J content ''session_uuid'' of
             None \<Rightarrow> NoMatch
           | Some session_id \<Rightarrow>
               if mx_sessions mx session_id = None then NoMatch
               else if event_type = ''org.mxdx.session.input'' then
                 ForwardInput session_id (unwrap_or (str_field J content ''data'') '''')
               else if event_type = ''org.mxdx.session.resize'' then
                 Resize session_id
                   (ucast (unwrap_or (u64_field J content ''cols'') 80))
                   (ucast (unwrap_or (u64_field J content ''rows'') 24))
               else if event_type = ''org.mxdx.session.signal'' then
                 Signal session_id (unwrap_or (str_field J content ''signal'') ''SIGTERM'')
               else NoMatch))"

definition sessions_in_room :: "SessionMux \<Rightarrow> str \<Rightarrow> str list" where
  "sessions_in_room mx room = (case room_sessions mx room of None \<Rightarrow> [] | Some ids \<Rightarrow> ids)"

definition has_session :: "SessionMux \<Rightarrow> str \<Rightarrow> bool" where
  "has_session mx session_id \<longleftrightarrow> mx_sessions mx session_id \<noteq> None"

definition session_count :: "SessionMux \<Rightarrow> nat" where
  "session_count mx = card (dom (mx_sessions mx))"

subsection \<open>Retention and heartbeats\<close>

record RetentionSweeper =
  retention_days :: u64

definition is_expired :: "u64 \<Rightarrow> RetentionSweeper \<Rightarrow> CompletedSessionState \<Rightarrow> bool" where
  "is_expired now sw completed \<longleftrightarrow>
     saturating_sub now (cs_completion_time completed) > retention_days sw * 24 * 60 * 60"

text \<open>The clock is read once per entry: \<open>clk i\<close> at the \<open>i\<close>-th.\<close>

definition find_expired ::
  "(nat \<Rightarrow> u64) \<Rightarrow> RetentionSweeper \<Rightarrow> (str \<times> CompletedSessionState) list \<Rightarrow> str list" where
  "find_expired clk sw sessions =
     map (fst \<circ> snd)
       (filter (\<lambda>(i, key, s). is_expired (clk i) sw s) (zip [0..<length sessions] sessions))"

record HeartbeatPoster =
  interval_seconds :: u64

definition create_heartbeat :: "u64 \<Rightarrow> str \<Rightarrow> str \<Rightarrow> str option \<Rightarrow> SessionHeartbeat" where
  "create_heartbeat now session_uuid worker_id progress =
     \<lparr>hb_session_uuid = session_uuid, hb_worker_id = worker_id, hb_timestamp = now,
      hb_progress = progress\<rparr>"

subsection \<open>Life of a session\<close>

datatype mgr_op =
    MClaim "u64 option" SessionTask
  | MRun str "u32 option" TmuxSession
  | MComplete "u64 option" str SessionStatus "32 word option"
  | MRemove str

fun apply_mgr :: "mgr_op \<Rightarrow> SessionManager \<Rightarrow> SessionManager" where
  "apply_mgr (MClaim clock task) m = snd (claim clock task m)"
| "apply_mgr (MRun uuid pid tmux) m = snd (mark_running uuid pid tmux m)"
| "apply_mgr (MComplete clock uuid status code) m = snd (complete clock uuid status code m)"
| "apply_mgr (MRemove uuid) m = snd (manager_remove uuid m)"

fun rank :: "SessionState \<Rightarrow> nat" where
  "rank Claimed = 0"
| "rank Running = 1"
| "rank Completed = 2"

text \<open>The life of a session orders its states.\<close>

instantiation SessionState :: linorder
begin

definition less_eq_SessionState :: "SessionState \<Rightarrow> SessionState \<Rightarrow> bool" where
  "less_eq_SessionState s t \<longleftrightarrow> rank s \<le> rank t"

definition less_SessionState :: "SessionState \<Rightarrow> SessionState \<Rightarrow> bool" where
  "less_SessionState s t \<longleftrightarrow> rank s < rank t"

instance
proof
  fix s t :: SessionState
  show "s \<le> t \<Longrightarrow> t \<le> s \<Longrightarrow> s = t"
    by (cases s; cases t) (simp_all add: less_eq_SessionState_def)
qed (auto simp: less_eq_SessionState_def less_SessionState_def)

end

lemma Completed_greatest [simp]: "s \<le> Completed"
  by (cases s) (simp_all add: less_eq_SessionState_def)

lemma Claimed_least [simp]: "Claimed \<le> s"
  by (cases s) (simp_all add: less_eq_SessionState_def)

lemma Completed_le [simp]: "Completed \<le> s \<longleftrightarrow> s = Completed"
  by (cases s) (simp_all add: less_eq_SessionState_def)

lemma le_Claimed [simp]: "s \<le> Claimed \<longleftrightarrow> s = Claimed"
  by (cases s) (simp_all add: less_eq_SessionState_def)

definition grown :: "Session \<Rightarrow> Session \<Rightarrow> bool" where
  "grown s s' \<longleftrightarrow> se_state s \<le> se_state s' \<and> se_uuid s' = se_uuid s
     \<and> se_task s' = se_task s \<and> se_started_at s' = se_started_at s \<and> se_worker_id s' = se_worker_id s
     \<and> (se_state s \<noteq> Claimed \<longrightarrow> se_pid s' = se_pid s \<and> se_tmux s' = se_tmux s)"

lemma grown_refl [simp]: "grown s s"
  by (simp add: grown_def)

lemma grown_trans: "grown s t \<Longrightarrow> grown t u \<Longrightarrow> grown s u"
  by (cases "se_state s"; cases "se_state t") (auto simp: grown_def)

lemma apply_mgr_grown:
  assumes "sm_sessions m u = Some s" and "opn \<noteq> MRemove u"
  shows "\<exists>s'. sm_sessions (apply_mgr opn m) u = Some s' \<and> grown s s'"
proof (cases opn)
  case (MClaim clock task)
  with assms show ?thesis by (auto simp: claim_def Let_def split: option.splits)
next
  case (MRun uuid pid tmux)
  with assms show ?thesis by (auto simp: mark_running_def grown_def split: option.splits)
next
  case (MComplete clock uuid status code)
  with assms show ?thesis
    by (cases clock; cases "se_state s") (auto simp: complete_def grown_def split: option.splits)
next
  case (MRemove uuid)
  with assms show ?thesis by (auto simp: manager_remove_def)
qed

lemma fold_mgr_grown:
  assumes "sm_sessions m u = Some s" and "MRemove u \<notin> set ops"
  shows "\<exists>s'. sm_sessions (fold apply_mgr ops m) u = Some s' \<and> grown s s'"
  using assms
proof (induction ops arbitrary: m s)
  case (Cons opn ops)
  then obtain t where t: "sm_sessions (apply_mgr opn m) u = Some t" "grown s t"
    using apply_mgr_grown [of m u s opn] by auto
  from Cons.IH [OF t(1)] Cons.prems(2) t(2) show ?case by (auto intro: grown_trans)
qed auto

text \<open>
  A session only moves forward. Whatever claims, starts, completions and removals of
  other sessions happen, a tracked session stays tracked, keeps its task, worker and start
  time, and its state never goes back; once it has left \<open>Claimed\<close>, its process id and
  terminal are fixed.
\<close>

lemma session_lifecycle:
  assumes "sm_sessions m u = Some s" and "MRemove u \<notin> set ops"
  shows "\<exists>s'. manager_get (fold apply_mgr ops m) u = Some s'
    \<and> se_state s \<le> se_state s'
    \<and> se_task s' = se_task s \<and> se_started_at s' = se_started_at s \<and> se_worker_id s' = se_worker_id s
    \<and> (se_state s \<noteq> Claimed \<longrightarrow> se_pid s' = se_pid s \<and> se_tmux s' = se_tmux s)"
  using fold_mgr_grown [OF assms] by (auto simp: grown_def manager_get_def)

definition sample_session_task :: SessionTask where
  "sample_session_task =
     \<lparr>st_uuid = ''t'', st_sender_id = ''@a:x'', st_bin = ''echo'', st_args = [], st_env = None,
      st_cwd = None, st_interactive = False, st_no_room_output = False, st_timeout_seconds = None,
      st_heartbeat_interval_seconds = 30, st_plan = None, st_required_capabilities = [],
      st_routing_mode = None, st_on_timeout = None, st_on_heartbeat_miss = None\<rparr>"

definition sample_manager :: SessionManager where
  "sample_manager = snd (claim (Some 100) sample_session_task (manager_new ''w''))"

lemma sample_manager_session:
  "sm_sessions sample_manager ''t'' =
     Some \<lparr>se_uuid = ''t'', se_task = sample_session_task, se_state = Claimed, se_tmux = None,
           se_started_at = 100, se_worker_id = ''w'', se_pid = None\<rparr>"
  by (simp add: sample_manager_def sample_session_task_def manager_new_def claim_def Let_def)

lemma session_lifecycle_example:
  "\<exists>s'. manager_get (fold apply_mgr [MComplete (Some 160) ''t'' StSuccess (Some 0), MRemove ''o'']
      sample_manager) ''t'' = Some s' \<and> se_started_at s' = 100"
  using session_lifecycle [OF sample_manager_session,
      of "[MComplete (Some 160) ''t'' StSuccess (Some 0), MRemove ''o'']"] by auto

text \<open>
  A session completes once. When a completion succeeds, it reports the time since the
  claim; and until the session is removed, whatever else happens, a second completion, a
  start and a new claim of the same id are all refused.
\<close>

lemma completes_once:
  assumes "sm_sessions m u = Some s" and "complete (Some now) u status code m = (Okay c, m')"
    and "MRemove u \<notin> set ops" and "st_uuid task = u"
  shows "unat (cs_duration_seconds c) = unat now - unat (se_started_at s) \<and> cs_completion_time c = now
    \<and> fst (complete clock u status' code' (fold apply_mgr ops m')) = Err (SessionAlreadyCompleted u)
    \<and> fst (mark_running u pid tmux (fold apply_mgr ops m')) = Err (SessionNotClaimed u Completed)
    \<and> fst (claim clock task (fold apply_mgr ops m')) = Err (SessionExists u)"
proof -
  from assms(1,2) have c: "c = \<lparr>cs_exit_code = code,
        cs_duration_seconds = saturating_sub now (se_started_at s), cs_completion_time = now\<rparr>"
    and m': "sm_sessions m' u = Some (s\<lparr>se_state := Completed\<rparr>)"
    by (auto simp: complete_def split: if_splits)
  from fold_mgr_grown [OF m' assms(3)] obtain s' where
    s': "sm_sessions (fold apply_mgr ops m') u = Some s'" "grown (s\<lparr>se_state := Completed\<rparr>) s'" by blast
  then have "se_state s' = Completed" by (cases "se_state s'") (auto simp: grown_def)
  with s' c assms(4) show ?thesis
    by (simp add: complete_def mark_running_def claim_def Let_def)
qed

lemma completes_once_example:
  "fst (complete (Some 200) ''t'' StFailed None
      (snd (complete (Some 160) ''t'' StSuccess (Some 0) sample_manager))) = Err (SessionAlreadyCompleted ''t'')
   \<and> unat (60 :: u64) = unat (160 :: u64) - unat (100 :: u64)"
proof -
  let ?r = "complete (Some 160) ''t'' StSuccess (Some 0) sample_manager"
  have r: "?r = (Okay \<lparr>cs_exit_code = Some 0, cs_duration_seconds = 60, cs_completion_time = 160\<rparr>, snd ?r)"
    by (simp add: complete_def sample_manager_session saturating_sub_def)
  show ?thesis
    using completes_once [OF sample_manager_session r, of "[]" sample_session_task "Some 200" StFailed None
        None "\<lparr>session_name = [], socket_path = [], exit_notify_path = []\<rparr>"]
    by (simp add: sample_session_task_def)
qed

definition try_claim :: "u64 \<times> SessionTask \<Rightarrow> SessionManager \<Rightarrow> bool \<times> SessionManager" where
  "try_claim q m =
     (case claim (Some (fst q)) (snd q) m of
        (Inl _, m') \<Rightarrow> (False, m')
      | (Inr _, m') \<Rightarrow> (True, m'))"

interpretation task_table:
  exclusive_table "\<lambda>m k. map_option se_task (sm_sessions m k)" try_claim
    "\<lambda>k m. snd (manager_remove k m)" "\<lambda>q. st_uuid (snd q)" snd
  by unfold_locales (auto simp: try_claim_def claim_def manager_remove_def Let_def)

text \<open>
  Redelivered tasks are ignored. After any deliveries of tasks and removals of sessions
  the manager holds, for every id, the task that was delivered first since the id was last
  removed; a delivery is accepted exactly if there is none.
\<close>

lemma redelivery_ignored:
  "map_option se_task (sm_sessions (run_claims try_claim (\<lambda>k m. snd (manager_remove k m)) ops
       (manager_new w)) u)
     = holder (\<lambda>q. st_uuid (snd q)) snd u ops None
   \<and> (fst (try_claim (now, task) (run_claims try_claim (\<lambda>k m. snd (manager_remove k m)) ops (manager_new w)))
      \<longleftrightarrow> holder (\<lambda>q. st_uuid (snd q)) snd (st_uuid task) ops None = None)"
  using task_table.owner_is_holder [of ops "manager_new w" u]
    task_table.claim_after [of "(now, task)" ops "manager_new w"]
  by (simp add: manager_new_def)

subsection \<open>Routing to sessions\<close>

definition mux_ok :: "SessionMux \<Rightarrow> bool" where
  "mux_ok mx \<longleftrightarrow>
     (\<forall>i e. mx_sessions mx i = Some e \<longrightarrow> me_session_id e = i)
     \<and> (\<forall>room i. i \<in> set (sessions_in_room mx room) \<longleftrightarrow>
          (\<exists>e. mx_sessions mx i = Some e \<and> me_dm_room_id e = room))"

datatype mux_op = MuxAdd str str str | MuxRemove str

fun apply_mux :: "mux_op \<Rightarrow> SessionMux \<Rightarrow> SessionMux" where
  "apply_mux (MuxAdd i room client) mx = add_session i room client mx"
| "apply_mux (MuxRemove i) mx = remove_session i mx"

text \<open>Operations that register an id only while it is free, or again for the same room.\<close>

fun no_move :: "mux_op list \<Rightarrow> SessionMux \<Rightarrow> bool" where
  "no_move [] mx = True"
| "no_move (opn # ops) mx \<longleftrightarrow>
     (case opn of
        MuxAdd i room client \<Rightarrow>
          (case mx_sessions mx i of None \<Rightarrow> True | Some e \<Rightarrow> me_dm_room_id e = room)
      | MuxRemove i \<Rightarrow> True)
     \<and> no_move ops (apply_mux opn mx)"

lemma mux_new_ok: "mux_ok mux_new"
  by (simp add: mux_ok_def mux_new_def sessions_in_room_def)

lemma sessions_in_room_add:
  "sessions_in_room (add_session i room client mx) r =
     sessions_in_room mx r @ (if r = room then [i] else [])"
  by (simp add: sessions_in_room_def add_session_def)

lemma mx_sessions_add: "mx_sessions (add_session i room client mx) =
    (mx_sessions mx)(i \<mapsto> \<lparr>me_session_id = i, me_dm_room_id = room, me_client_user_id = client\<rparr>)"
  by (simp add: add_session_def)

lemma mx_sessions_remove: "mx_sessions (remove_session i mx) = (mx_sessions mx)(i := None)"
  by (auto simp: remove_session_def Let_def split: option.splits)

lemma sessions_in_room_remove:
  "mx_sessions mx i = Some e \<Longrightarrow>
   sessions_in_room (remove_session i mx) r =
     (if r = me_dm_room_id e then filter (\<lambda>j. j \<noteq> i) (sessions_in_room mx r) else sessions_in_room mx r)"
  by (auto simp: remove_session_def sessions_in_room_def Let_def split: option.splits)

lemma add_session_ok:
  assumes "mux_ok mx" and "case mx_sessions mx i of None \<Rightarrow> True | Some e \<Rightarrow> me_dm_room_id e = room"
  shows "mux_ok (add_session i room client mx)"
  using assms by (auto simp: mux_ok_def sessions_in_room_add mx_sessions_add split: option.splits if_splits)

lemma remove_session_ok: "mux_ok mx \<Longrightarrow> mux_ok (remove_session i mx)"
proof (cases "mx_sessions mx i")
  case None
  moreover assume "mux_ok mx"
  ultimately show ?thesis by (simp add: remove_session_def)
next
  case (Some e)
  moreover assume "mux_ok mx"
  ultimately show ?thesis
    by (auto simp: mux_ok_def sessions_in_room_remove mx_sessions_remove split: if_splits)
qed

lemma fold_mux_ok: "mux_ok mx \<Longrightarrow> no_move ops mx \<Longrightarrow> mux_ok (fold apply_mux ops mx)"
proof (induction ops arbitrary: mx)
  case (Cons opn ops)
  then show ?case by (cases opn) (simp_all add: add_session_ok remove_session_ok)
qed simp

text \<open>
  The room index is consistent. After any registrations and removals in which an id is
  not registered for a second room while it is live, a room lists exactly the sessions
  registered for it, so nothing is left in a room when its sessions are gone.
\<close>

lemma mux_rooms_consistent:
  assumes "no_move ops mux_new"
  shows "i \<in> set (sessions_in_room (fold apply_mux ops mux_new) room) \<longleftrightarrow>
    (\<exists>e. mx_sessions (fold apply_mux ops mux_new) i = Some e \<and> me_dm_room_id e = room)"
  using fold_mux_ok [OF mux_new_ok assms] by (simp add: mux_ok_def)

lemma mux_rooms_consistent_example:
  "''s1'' \<notin> set (sessions_in_room (fold apply_mux
      [MuxAdd ''s1'' ''!a'' ''@c'', MuxAdd ''s2'' ''!a'' ''@c'', MuxRemove ''s1''] mux_new) ''!a'')"
  using mux_rooms_consistent [of "[MuxAdd ''s1'' ''!a'' ''@c'', MuxAdd ''s2'' ''!a'' ''@c'', MuxRemove ''s1'']"
      "''s1''" "''!a''"]
  by (simp add: mux_new_def mx_sessions_add mx_sessions_remove)

text \<open>
  Moving a live session to another room leaves a trace. When an id that is live in one
  room is registered for another, and then removed, its first room lists it forever,
  although no such session exists: removal only looks at the room of the last
  registration.
\<close>

lemma mux_stale_room:
  assumes "mux_ok mx" and "mx_sessions mx i = Some e" and "me_dm_room_id e \<noteq> room"
  shows "let mx' = remove_session i (add_session i room client mx)
    in \<not> has_session mx' i \<and> i \<in> set (sessions_in_room mx' (me_dm_room_id e))"
  using assms
  by (simp add: Let_def has_session_def mx_sessions_remove sessions_in_room_remove [OF mx_sessions_add [THEN fun_cong, THEN trans]]
      mx_sessions_add sessions_in_room_add mux_ok_def)

definition sample_mux :: SessionMux where
  "sample_mux = add_session ''s1'' ''!a'' ''@c'' mux_new"

lemma sample_mux_ok: "mux_ok sample_mux"
  unfolding sample_mux_def by (rule add_session_ok [OF mux_new_ok]) (simp add: mux_new_def)

lemma mux_stale_room_example:
  "\<not> has_session (remove_session ''s1'' (add_session ''s1'' ''!b'' ''@c'' sample_mux)) ''s1''
   \<and> ''s1'' \<in> set (sessions_in_room (remove_session ''s1'' (add_session ''s1'' ''!b'' ''@c'' sample_mux)) ''!a'')"
proof -
  have live: "mx_sessions sample_mux ''s1'' =
      Some \<lparr>me_session_id = ''s1'', me_dm_room_id = ''!a'', me_client_user_id = ''@c''\<rparr>"
    by (simp add: sample_mux_def mx_sessions_add)
  from mux_stale_room [OF sample_mux_ok live, of "''!b''" "''@c''"] show ?thesis by (simp add: Let_def)
qed

text \<open>
  Events are routed to live sessions only. An action other than \<open>NoMatch\<close> always names
  the live session of the event's \<open>session_uuid\<close>; a resize passes on the requested size
  reduced modulo 65536, with 80 by 24 for what is missing.
\<close>

lemma routing_to_live_sessions:
  "(route_event J mx t content \<noteq> NoMatch \<longrightarrow>
      (\<exists>v i. from_str J content = Okay v \<and> str_field J v ''session_uuid'' = Some i \<and> has_session mx i
         \<and> (route_event J mx t content = ForwardInput i (unwrap_or (str_field J v ''data'') '''')
            \<or> route_event J mx t content = Signal i (unwrap_or (str_field J v ''signal'') ''SIGTERM'')
            \<or> (\<exists>c r. route_event J mx t content = Resize i c r
                 \<and> unat c = unat (unwrap_or (u64_field J v ''cols'') 80) mod 2 ^ 16
                 \<and> unat r = unat (unwrap_or (u64_field J v ''rows'') 24) mod 2 ^ 16))))
   \<and> (route_event J mx t content = NoMatch \<longleftrightarrow>
      \<not> (\<exists>v i. from_str J content = Okay v \<and> str_field J v ''session_uuid'' = Some i \<and> has_session mx i
          \<and> t \<in> {''org.mxdx.session.input'', ''org.mxdx.session.resize'', ''org.mxdx.session.signal''}))"
  by (auto simp: route_event_def has_session_def unsigned_ucast_eq take_bit_eq_mod
      split: sum.splits option.splits if_splits)


definition sample_mux_json :: "str mux_json" where
  "sample_mux_json = \<lparr>from_str = Okay, get_field = (\<lambda>v k. Some v), as_str = Some, as_u64 = (\<lambda>v. Some 65616)\<rparr>"

lemma routing_to_live_sessions_example:
  "route_event sample_mux_json sample_mux ''org.mxdx.session.resize'' ''s1'' = Resize ''s1'' 80 80
   \<and> has_session sample_mux ''s1''"
proof -
  have "route_event sample_mux_json sample_mux ''org.mxdx.session.resize'' ''s1'' = Resize ''s1'' 80 80"
    by (simp add: route_event_def sample_mux_json_def sample_mux_def mx_sessions_add str_field_def u64_field_def
        unwrap_or_def)
  with routing_to_live_sessions [of sample_mux_json sample_mux "''org.mxdx.session.resize''" "''s1''"]
  show ?thesis by auto
qed

subsection \<open>Retention\<close>

lemma retention_seconds:
  assumes "unat (d :: u64) < 2 ^ 47"
  shows "unat (d * 24 * 60 * 60) = unat d * 86400"
proof -
  have "unat (d * 86400) = unat d * 86400"
    using assms by (subst unat_mult_lem [THEN iffD1]) simp_all
  moreover have "d * 24 * 60 * 60 = d * 86400" by simp
  ultimately show ?thesis by (simp only:)
qed

text \<open>
  The sweeper finds exactly the sessions that are older than the retention window: for
  windows below 2 to the 47 days, an entry is listed if and only if more than that many
  days, in seconds, lie between its completion and the clock reading taken for it.
\<close>

lemma retention_exact:
  assumes "unat (retention_days sw) < 2 ^ 47"
  shows "key \<in> set (find_expired clk sw sessions) \<longleftrightarrow>
    (\<exists>i s. i < length sessions \<and> sessions ! i = (key, s)
       \<and> unat (retention_days sw) * 86400 < unat (clk i) - unat (cs_completion_time s))"
proof -
  have expired: "is_expired now sw s \<longleftrightarrow>
      unat (retention_days sw) * 86400 < unat now - unat (cs_completion_time s)" for now s
    unfolding is_expired_def word_less_nat_alt by (simp only: retention_seconds [OF assms] unat_saturating_sub)
  have "key \<in> set (find_expired clk sw sessions) \<longleftrightarrow>
      (\<exists>i s. (i, key, s) \<in> set (zip [0..<length sessions] sessions) \<and> is_expired (clk i) sw s)"
    by (force simp: find_expired_def)
  also have "\<dots> \<longleftrightarrow> (\<exists>i s. i < length sessions \<and> sessions ! i = (key, s) \<and> is_expired (clk i) sw s)"
    by (simp add: in_set_zip) (metis (no_types, lifting) add_0 fst_conv nth_upt snd_conv diff_zero length_upt)
  finally show ?thesis by (simp only: expired)
qed

lemma retention_exact_example:
  "''k'' \<in> set (find_expired (\<lambda>_. 8000000) \<lparr>retention_days = 90\<rparr>
      [(''k'', \<lparr>cs_exit_code = None, cs_duration_seconds = 1, cs_completion_time = 100\<rparr>)])"
  using retention_exact [of "\<lparr>retention_days = 90\<rparr>" "''k''" "\<lambda>_. 8000000"
      "[(''k'', \<lparr>cs_exit_code = None, cs_duration_seconds = 1, cs_completion_time = 100\<rparr>)]"]
  by simp


end
