(* ===== verification/Paths.thy ===== *)
theory Paths
  imports Prelude "HOL-Library.Sublist"
begin

section \<open>Paths and separators\<close>

text \<open>
  The string operations of the standard library that the command validators use (\<open>split\<close>,
  \<open>join\<close>, \<open>starts_with\<close>, \<open>contains\<close>, \<open>trim_end_matches\<close>) and what a path means: its list of
  components. The lemmas relate prefixes of texts to prefixes of component lists.
\<close>

definition starts_with :: "str \<Rightarrow> str \<Rightarrow> bool" where
  "starts_with s p \<longleftrightarrow> take (length p) s = p"

lemma starts_with_append: "starts_with s p \<longleftrightarrow> (\<exists>r. s = p @ r)"
  by (metis append_eq_conv_conj append_take_drop_id starts_with_def)

fun contains_str :: "str \<Rightarrow> str \<Rightarrow> bool" where
  "contains_str [] pat \<longleftrightarrow> pat = []"
| "contains_str (c # cs) pat \<longleftrightarrow> starts_with (c # cs) pat \<or> contains_str cs pat"

lemma contains_str_sublist: "contains_str s pat \<longleftrightarrow> sublist pat s"
proof (induction s)
  case (Cons c cs)
  have "starts_with (c # cs) pat \<longleftrightarrow> prefix pat (c # cs)"
    by (auto simp: starts_with_append prefix_def)
  with Cons show ?case by (simp add: sublist_Cons_right)
qed simp

definition trim_end_matches :: "char \<Rightarrow> str \<Rightarrow> str" where
  "trim_end_matches c s = rev (dropWhile (\<lambda>x. x = c) (rev s))"

lemma trim_end_matches_append: "\<exists>n. s = trim_end_matches c s @ replicate n c"
proof -
  have "rev s = takeWhile (\<lambda>x. x = c) (rev s) @ dropWhile (\<lambda>x. x = c) (rev s)" by simp
  moreover have "takeWhile (\<lambda>x. x = c) (rev s) = replicate (length (takeWhile (\<lambda>x. x = c) (rev s))) c"
    by (metis (mono_tags, lifting) replicate_eqI set_takeWhileD)
  ultimately have "s = trim_end_matches c s @ rev (replicate (length (takeWhile (\<lambda>x. x = c) (rev s))) c)"
    by (metis rev_append rev_rev_ident trim_end_matches_def)
  then show ?thesis by auto
qed

text \<open>\<open>str::split\<close> at a character: always at least one part.\<close>

fun split_on :: "char \<Rightarrow> str \<Rightarrow> str list" where
  "split_on c [] = [[]]"
| "split_on c (x # xs) =
     (if x = c then [] # split_on c xs
      else (case split_on c xs of p # ps \<Rightarrow> (x # p) # ps | [] \<Rightarrow> [[x]]))"

fun join :: "str \<Rightarrow> str list \<Rightarrow> str" where
  "join sep [] = []"
| "join sep [p] = p"
| "join sep (p # q # ps) = p @ sep @ join sep (q # ps)"

lemma split_on_nonempty [simp]: "split_on c s \<noteq> []"
  by (induction s) (auto split: list.splits)

lemma split_on_append: "split_on c (s @ c # t) = split_on c s @ split_on c t"
  by (induction s) (auto split: list.splits)

lemma split_on_parts: "p \<in> set (split_on c s) \<Longrightarrow> c \<notin> set p"
  by (induction s arbitrary: p) (auto split: list.splits if_splits)

lemma split_on_single: "c \<notin> set s \<Longrightarrow> split_on c s = [s]"
  by (induction s) auto

lemma split_on_join:
  assumes "ps \<noteq> []" and "\<forall>p \<in> set ps. c \<notin> set p"
  shows "split_on c (join [c] ps) = ps"
  using assms
proof (induction "[c]" ps rule: join.induct)
  case (3 p q ps)
  then show ?case by (simp add: split_on_append split_on_single)
qed (simp_all add: split_on_single)

text \<open>The components of a path: its parts without the empty ones.\<close>

definition components :: "str \<Rightarrow> str list" where
  "components s = filter (\<lambda>p. p \<noteq> []) (split_on (CHR ''/'') s)"

lemma components_slash: "components (s @ CHR ''/'' # t) = components s @ components t"
  by (simp add: components_def split_on_append)

lemma components_nil [simp]: "components [] = []"
  by (simp add: components_def)

lemma components_leading [simp]: "components (CHR ''/'' # t) = components t"
  by (simp add: components_def)

lemma components_trailing: "components (s @ replicate n (CHR ''/'')) = components s"
proof (induction n arbitrary: s)
  case (Suc n)
  have "s @ replicate (Suc n) (CHR ''/'') = (s @ CHR ''/'' # []) @ replicate n (CHR ''/'')" by simp
  then show ?case using Suc [of "s @ CHR ''/'' # []"] by (simp only: components_slash components_nil append_Nil2)
qed simp

lemma components_trim: "components (trim_end_matches (CHR ''/'') s) = components s"
  using trim_end_matches_append [of s "CHR ''/''"] components_trailing by metis

text \<open>A text that starts with a directory and a slash lies below that directory.\<close>

lemma components_below:
  assumes "s = p \<or> starts_with s (trim_end_matches (CHR ''/'') p @ ''/'')"
  shows "prefix (components p) (components s)"
  using assms
proof
  assume "starts_with s (trim_end_matches (CHR ''/'') p @ ''/'')"
  then obtain r where "s = trim_end_matches (CHR ''/'') p @ CHR ''/'' # r"
    by (auto simp: starts_with_append)
  then have "components s = components p @ components r"
    by (simp only: components_slash components_trim)
  then show ?thesis by simp
qed simp

lemma components_part: "p \<in> set (components s) \<Longrightarrow> sublist p s"
proof -
  have "p \<in> set (split_on c s) \<Longrightarrow> sublist p s" for c
  proof (induction s arbitrary: p)
    case (Cons x xs)
    show ?case
    proof (cases "x = c")
      case True
      with Cons show ?thesis by (auto simp: sublist_Cons_right)
    next
      case False
      obtain q qs where q: "split_on c xs = q # qs" by (cases "split_on c xs") auto
      have pre: "prefix q xs"
        using q by (induction xs arbitrary: q qs) (auto split: list.splits if_splits)
      from False Cons.prems q have "p = x # q \<or> p \<in> set qs" by auto
      with pre q Cons.IH [of p] show ?thesis by (auto simp: sublist_Cons_right)
    qed
  qed simp
  then show "p \<in> set (components s) \<Longrightarrow> sublist p s" by (auto simp: components_def)
qed

subsection \<open>Trimming\<close>

text \<open>The UTF-8 encodings of the characters with the property \<open>White_Space\<close>.\<close>

definition WHITESPACE :: "str list" where
  "WHITESPACE =
     map (\<lambda>n. [char_of n]) ([9..<14] @ [32 :: nat])
   @ map (map char_of) [[0xC2, 0x85], [0xC2, 0xA0], [0xE1, 0x9A, 0x80 :: nat]]
   @ map (\<lambda>n. map char_of [0xE2, 0x80, n]) ([0x80..<0x8B] @ [0xA8, 0xA9, 0xAF :: nat])
   @ map (map char_of) [[0xE2, 0x81, 0x9F], [0xE3, 0x80, 0x80 :: nat]]"

lemma WHITESPACE_nonempty: "w \<in> set WHITESPACE \<Longrightarrow> w \<noteq> []"
  by (auto simp: WHITESPACE_def)

text \<open>Removing words of a list from the front of a text, as often as possible.\<close>

function strip_words :: "str list \<Rightarrow> str \<Rightarrow> str" where
  "strip_words ws s =
     (case find (\<lambda>w. w \<noteq> [] \<and> starts_with s w) ws of
        None \<Rightarrow> s
      | Some w \<Rightarrow> strip_words ws (drop (length w) s))"
  by auto
termination
proof (relation "measure (length \<circ> snd)")
  fix ws :: "str list" and s w
  assume "find (\<lambda>w. w \<noteq> [] \<and> starts_with s w) ws = Some w"
  then have w: "w \<noteq> []" "starts_with s w" by (auto simp: find_Some_iff)
  then have "s \<noteq> []" by (auto simp: starts_with_append)
  with w(1) show "((ws, drop (length w) s), ws, s) \<in> measure (length \<circ> snd)" by simp
qed simp

declare strip_words.simps [simp del]

definition trim_start :: "str \<Rightarrow> str" where
  "trim_start s = strip_words WHITESPACE s"

definition trim_end :: "str \<Rightarrow> str" where
  "trim_end s = rev (strip_words (map rev WHITESPACE) (rev s))"

definition trim :: "str \<Rightarrow> str" where
  "trim s = trim_end (trim_start s)"

lemma strip_words_id:
  assumes "\<And>w. w \<in> set ws \<Longrightarrow> w \<noteq> [] \<Longrightarrow> \<not> starts_with s w"
  shows "strip_words ws s = s"
proof -
  have "find (\<lambda>w. w \<noteq> [] \<and> starts_with s w) ws = None" using assms by (auto simp: find_None_iff)
  then show ?thesis by (subst strip_words.simps) simp
qed

text \<open>A graphic ASCII character.\<close>

definition graphic :: "char \<Rightarrow> bool" where
  "graphic c \<longleftrightarrow> 32 < (of_char c :: nat) \<and> (of_char c :: nat) < 127"

lemma whitespace_not_graphic:
  assumes "w \<in> set WHITESPACE"
  shows "\<not> graphic (hd w)" and "\<not> graphic (last w)"
proof -
  have "list_all (\<lambda>w. \<not> graphic (hd w) \<and> \<not> graphic (last w)) WHITESPACE" by (simp add: WHITESPACE_def graphic_def)
  with assms show "\<not> graphic (hd w)" "\<not> graphic (last w)" by (auto simp: list_all_iff)
qed

lemma trim_graphic:
  assumes "\<forall>c \<in> set s. graphic c"
  shows "trim s = s"
proof -
  have "\<not> starts_with s w" if "w \<in> set WHITESPACE" "w \<noteq> []" for w
    using that whitespace_not_graphic(1) [OF that(1)] assms by (cases w) (auto simp: starts_with_append)
  then have "trim_start s = s" by (simp add: trim_start_def strip_words_id)
  moreover have "\<not> starts_with (rev s) (rev w)" if "w \<in> set WHITESPACE" "w \<noteq> []" for w
    using that whitespace_not_graphic(2) [OF that(1)] assms
    by (cases w rule: rev_cases) (auto simp: starts_with_append rev_swap)
  then have "strip_words (map rev WHITESPACE) (rev s) = rev s" by (intro strip_words_id) auto
  then have "trim_end s = s" by (simp add: trim_end_def)
  ultimately show ?thesis by (simp add: trim_def)
qed

subsection \<open>UTF-8\<close>

definition cont_byte :: "u8 \<Rightarrow> bool" where
  "cont_byte b \<longleftrightarrow> 0x80 \<le> b \<and> b \<le> 0xBF"

text \<open>\<open>str::from_utf8\<close>: well-formed byte sequences.\<close>

fun utf8_valid :: "bytes \<Rightarrow> bool" where
  "utf8_valid [] \<longleftrightarrow> True"
| "utf8_valid (a # bs) \<longleftrightarrow>
     (if a < 0x80 then utf8_valid bs
      else if 0xC2 \<le> a \<and> a \<le> 0xDF then
        (case bs of b # r \<Rightarrow> cont_byte b \<and> utf8_valid r | _ \<Rightarrow> False)
      else if 0xE0 \<le> a \<and> a \<le> 0xEF then
        (case bs of
           b # c # r \<Rightarrow> cont_byte b \<and> cont_byte c \<and> (a = 0xE0 \<longrightarrow> 0xA0 \<le> b) \<and> (a = 0xED \<longrightarrow> b \<le> 0x9F)
             \<and> utf8_valid r
         | _ \<Rightarrow> False)
      else if 0xF0 \<le> a \<and> a \<le> 0xF4 then
        (case bs of
           b # c # d # r \<Rightarrow> cont_byte b \<and> cont_byte c \<and> cont_byte d \<and> (a = 0xF0 \<longrightarrow> 0x90 \<le> b)
             \<and> (a = 0xF4 \<longrightarrow> b \<le> 0x8F) \<and> utf8_valid r
         | _ \<Rightarrow> False)
      else False)"

text \<open>The text of a byte sequence.\<close>

definition from_bytes :: "bytes \<Rightarrow> str" where
  "from_bytes bs = map (\<lambda>w. char_of (unat w)) bs"

lemma as_bytes_from_bytes [simp]: "as_bytes (from_bytes bs) = bs"
  by (simp add: from_bytes_def)

lemma from_bytes_as_bytes [simp]: "from_bytes (as_bytes s) = s"
  using as_bytes_inj [of "from_bytes (as_bytes s)" s] by simp

definition from_utf8 :: "bytes \<Rightarrow> str option" where
  "from_utf8 bs = (if utf8_valid bs then Some (from_bytes bs) else None)"

end
