(* ===== verification/Launcher.thy ===== *)
theory Launcher
  imports Paths
begin

section \<open>The launcher\<close>

text \<open>
  The model of the launcher's command validation (\<open>crates/mxdx-launcher/src/executor.rs\<close>, with
  the capability section of \<open>config.rs\<close>) and of its terminal buffers (\<open>terminal/ring_buffer.rs\<close>,
  \<open>terminal/batcher.rs\<close>). Error texts are the messages of the code.
\<close>

subsection \<open>Validation\<close>

datatype CapabilityMode = Allowlist | Denylist

record CapabilitiesConfig =
  cc_mode :: CapabilityMode
  allowed_commands :: "str list"
  allowed_cwd_prefixes :: "str list"
  max_sessions :: u32

record LauncherCommand =
  lc_cmd :: str
  lc_args :: "str list"
  lc_cwd :: "str option"

text \<open>One component, on the stack of those kept so far.\<close>

definition normalize_step :: "bool \<Rightarrow> str \<Rightarrow> str list \<Rightarrow> str list" where
  "normalize_step is_absolute part comps =
     (if part = [] \<or> part = ''.'' then comps
      else if part = ''..'' then
        (if is_absolute then butlast comps
         else if comps = [] \<or> last comps = ''..'' then comps @ [''..'']
         else butlast comps)
      else comps @ [part])"

definition normalize_path :: "str \<Rightarrow> str" where
  "normalize_path path =
     (let is_absolute = starts_with path ''/'';
          comps = fold (normalize_step is_absolute) (split_on (CHR ''/'') path) []
      in if is_absolute then ''/'' @ join ''/'' comps else join ''/'' comps)"

fun validate_git_args :: "str list \<Rightarrow> (str, unit) result" where
  "validate_git_args [] = Okay ()"
| "validate_git_args (arg # rest) =
     (if arg = ''-c'' \<or> arg = ''--config'' then
        Err (''argument not permitted: git '' @ arg @ '' is blocked'')
      else if arg = ''submodule'' \<and> rest \<noteq> [] \<and> hd rest = ''foreach'' then
        Err ''argument not permitted: git submodule foreach is blocked''
      else validate_git_args rest)"

fun validate_docker_args :: "str list \<Rightarrow> (str, unit) result" where
  "validate_docker_args [] = Okay ()"
| "validate_docker_args (arg # rest) =
     (if arg = ''compose'' \<and> list_ex (\<lambda>s. s = ''-f'' \<or> s = ''--file'') rest then
        Err ''argument not permitted: docker compose -f/--file is blocked''
      else validate_docker_args rest)"

definition launcher_validate_args :: "str \<Rightarrow> str list \<Rightarrow> (str, unit) result" where
  "launcher_validate_args cmd args =
     (if cmd = ''git'' then validate_git_args args
      else if cmd = ''docker'' then validate_docker_args args
      else if cmd = ''env'' then
        Err ''argument not permitted: env command is blocked to prevent prefix injection''
      else Okay ())"

definition launcher_validate_command ::
  "CapabilitiesConfig \<Rightarrow> str \<Rightarrow> str list \<Rightarrow> str option \<Rightarrow> (str, LauncherCommand) result" where
  "launcher_validate_command config cmd args cwd =
     (if cc_mode config = Allowlist \<and> cmd \<notin> set (allowed_commands config) then
        Err (''command '' @ [CHR 0x27] @ cmd @ [CHR 0x27] @ '' not permitted'')
      else
        (case (case cwd of
                 None \<Rightarrow> Okay None
               | Some cwd_str \<Rightarrow>
                   (let normalized = normalize_path cwd_str
                    in if \<not> list_ex (\<lambda>p. starts_with normalized p) (allowed_cwd_prefixes config)
                       then Err (''cwd not permitted: '' @ normalized)
                       else Okay (Some normalized))) of
           Inl e \<Rightarrow> Err e
         | Inr resolved_cwd \<Rightarrow>
             (case launcher_validate_args cmd args of
                Inl e \<Rightarrow> Err e
              | Inr _ \<Rightarrow> Okay \<lparr>lc_cmd = cmd, lc_args = args, lc_cwd = resolved_cwd\<rparr>)))"

subsection \<open>Buffers\<close>

record 'a EventRingBuffer =
  rb_buffer :: "(u64 \<times> 'a) list"
  rb_capacity :: nat

definition ring_new :: "nat \<Rightarrow> 'a EventRingBuffer" where
  "ring_new capacity = \<lparr>rb_buffer = [], rb_capacity = capacity\<rparr>"

definition ring_push :: "u64 \<Rightarrow> 'a \<Rightarrow> 'a EventRingBuffer \<Rightarrow> 'a EventRingBuffer" where
  "ring_push seq event rb =
     (let b = (if length (rb_buffer rb) = rb_capacity rb then tl (rb_buffer rb) else rb_buffer rb)
      in rb\<lparr>rb_buffer := b @ [(seq, event)]\<rparr>)"

definition get_range :: "u64 \<Rightarrow> u64 \<Rightarrow> 'a EventRingBuffer \<Rightarrow> 'a list" where
  "get_range from to rb = map snd (filter (\<lambda>(seq, _). seq \<ge> from \<and> seq \<le> to) (rb_buffer rb))"

definition ring_get :: "u64 \<Rightarrow> 'a EventRingBuffer \<Rightarrow> 'a option" where
  "ring_get seq rb = map_option snd (find (\<lambda>(s, _). s = seq) (rb_buffer rb))"

definition ring_len :: "'a EventRingBuffer \<Rightarrow> nat" where
  "ring_len rb = length (rb_buffer rb)"

record OutputBatcher =
  ob_buffer :: bytes
  ob_max_bytes :: nat
  ob_flush_interval :: duration
  ob_last_flush :: instant

definition batcher_new :: "nat \<Rightarrow> duration \<Rightarrow> instant \<Rightarrow> OutputBatcher" where
  "batcher_new max_bytes flush_interval now =
     \<lparr>ob_buffer = [], ob_max_bytes = max_bytes, ob_flush_interval = flush_interval, ob_last_flush = now\<rparr>"

definition batcher_drain :: "instant \<Rightarrow> OutputBatcher \<Rightarrow> bytes \<times> OutputBatcher" where
  "batcher_drain now b = (ob_buffer b, b\<lparr>ob_last_flush := now, ob_buffer := []\<rparr>)"

definition batcher_push :: "instant \<Rightarrow> bytes \<Rightarrow> OutputBatcher \<Rightarrow> bytes option \<times> OutputBatcher" where
  "batcher_push now data b =
     (let b1 = b\<lparr>ob_buffer := ob_buffer b @ data\<rparr>
      in if length (ob_buffer b1) \<ge> ob_max_bytes b1 then
           (let (out, b2) = batcher_drain now b1 in (Some out, b2))
         else (None, b1))"

text \<open>The clock is read for the interval, and again by \<open>drain\<close>; \<open>elapsed\<close> saturates at zero.\<close>

definition batcher_tick :: "instant \<Rightarrow> instant \<Rightarrow> OutputBatcher \<Rightarrow> bytes option \<times> OutputBatcher" where
  "batcher_tick now now' b =
     (if ob_buffer b \<noteq> [] \<and> now - ob_last_flush b \<ge> ob_flush_interval b then
        (let (out, b2) = batcher_drain now' b in (Some out, b2))
      else (None, b))"

definition batcher_flush :: "instant \<Rightarrow> OutputBatcher \<Rightarrow> bytes option \<times> OutputBatcher" where
  "batcher_flush now b =
     (if ob_buffer b = [] then (None, b)
      else (let (out, b2) = batcher_drain now b in (Some out, b2)))"

subsection \<open>Normalised paths\<close>

text \<open>A component that normalisation keeps as it is.\<close>

definition plain_part :: "str \<Rightarrow> bool" where
  "plain_part p \<longleftrightarrow> p \<noteq> [] \<and> p \<noteq> ''.'' \<and> p \<noteq> ''..'' \<and> CHR ''/'' \<notin> set p"

lemma normalize_step_plain [simp]: "plain_part p \<Longrightarrow> normalize_step ab p comps = comps @ [p]"
  by (auto simp: normalize_step_def plain_part_def)

lemma fold_normalize_plain:
  "list_all plain_part ps \<Longrightarrow> fold (normalize_step ab) ps comps = comps @ ps"
  by (induction ps arbitrary: comps) auto

lemma list_all_butlast: "list_all P xs \<Longrightarrow> list_all P (butlast xs)"
  by (auto simp: list_all_iff dest: in_set_butlastD)

text \<open>The stack of an absolute path holds plain components, that of a relative path starts with
  the levels it climbs.\<close>

definition stack_ok :: "bool \<Rightarrow> str list \<Rightarrow> bool" where
  "stack_ok ab comps \<longleftrightarrow>
     (\<exists>n ps. comps = replicate n ''..'' @ ps \<and> list_all plain_part ps \<and> (ab \<longrightarrow> n = 0))"

lemma stack_okI:
  "comps = replicate n ''..'' @ ps \<Longrightarrow> list_all plain_part ps \<Longrightarrow> (ab \<longrightarrow> n = 0) \<Longrightarrow> stack_ok ab comps"
  by (auto simp: stack_ok_def)

lemma normalize_step_ok:
  assumes "stack_ok ab comps" and "CHR ''/'' \<notin> set p"
  shows "stack_ok ab (normalize_step ab p comps)"
proof -
  from assms(1) obtain n ps where
    c: "comps = replicate n ''..'' @ ps" and ps: "list_all plain_part ps" and n: "ab \<longrightarrow> n = 0"
    by (auto simp: stack_ok_def)
  consider "p = [] \<or> p = ''.''" | "p = ''..''" "ps \<noteq> []" | "p = ''..''" "ps = []" | "plain_part p"
    using assms(2) by (auto simp: plain_part_def)
  then show ?thesis
  proof cases
    case 1
    then show ?thesis using assms(1) by (auto simp: normalize_step_def)
  next
    case 2
    then have "last comps \<noteq> ''..''" using c ps by (auto simp: list_all_iff plain_part_def)
    with 2 c have "normalize_step ab p comps = replicate n ''..'' @ butlast ps"
      by (auto simp: normalize_step_def butlast_append)
    then show ?thesis by (rule stack_okI [OF _ list_all_butlast [OF ps] n])
  next
    case 3
    then have "normalize_step ab p comps = replicate (if ab then 0 else Suc n) ''..''"
      using c n by (auto simp: normalize_step_def replicate_append_same)
    then show ?thesis by (rule_tac ps = "[]" in stack_okI) auto
  next
    case 4
    then show ?thesis using c ps n by (rule_tac ps = "ps @ [p]" in stack_okI) auto
  qed
qed

lemma fold_normalize_ok:
  "stack_ok ab comps \<Longrightarrow> \<forall>p \<in> set parts. CHR ''/'' \<notin> set p \<Longrightarrow>
   stack_ok ab (fold (normalize_step ab) parts comps)"
  by (induction parts arbitrary: comps) (auto simp: normalize_step_ok)

lemma fold_normalize_stack:
  assumes "stack_ok ab comps"
  shows "fold (normalize_step ab) comps [] = comps"
proof -
  from assms obtain n ps where
    c: "comps = replicate n ''..'' @ ps" and ps: "list_all plain_part ps" and n: "ab \<longrightarrow> n = 0"
    by (auto simp: stack_ok_def)
  have climb: "normalize_step False ''..'' (replicate k ''..'') = replicate (Suc k) ''..''" for k
    by (cases k) (auto simp: normalize_step_def replicate_append_same)
  have "fold (normalize_step False) (replicate m ''..'') (replicate k ''..'') = replicate (m + k) ''..''" for m k
  proof (induction m arbitrary: k)
    case (Suc m)
    have "fold (normalize_step False) (replicate (Suc m) ''..'') (replicate k ''..'')
        = fold (normalize_step False) (replicate m ''..'') (replicate (Suc k) ''..'')"
      unfolding replicate_Suc [of m] list.simps fold_simps comp_apply climb ..
    also have "\<dots> = replicate (m + Suc k) ''..''" by (rule Suc.IH)
    finally show ?case by simp
  qed simp
  from this [of n 0] have "fold (normalize_step ab) (replicate n ''..'') [] = replicate n ''..''"
    using n by (cases ab) auto
  then show ?thesis using ps by (simp add: c fold_normalize_plain)
qed

text \<open>The components of a path that normalisation leaves behind.\<close>

definition normalized_parts :: "str \<Rightarrow> str list" where
  "normalized_parts path = fold (normalize_step (starts_with path ''/'')) (split_on (CHR ''/'') path) []"

lemma normalized_parts_ok: "stack_ok (starts_with path ''/'') (normalized_parts path)"
  unfolding normalized_parts_def
  by (rule fold_normalize_ok) (rule stack_okI [of _ 0 "[]"], simp_all add: split_on_parts)

lemma stack_ok_parts:
  assumes "stack_ok ab comps" and "p \<in> set comps"
  shows "p \<noteq> [] \<and> CHR ''/'' \<notin> set p"
proof -
  from assms have "p = ''..'' \<or> plain_part p"
    unfolding stack_ok_def list_all_iff by (metis Un_iff in_set_replicate set_append)
  then show ?thesis by (auto simp: plain_part_def)
qed

lemma normalize_path_parts:
  "normalize_path path =
     (if starts_with path ''/'' then ''/'' @ join ''/'' (normalized_parts path)
      else join ''/'' (normalized_parts path))"
  by (simp add: normalize_path_def normalized_parts_def Let_def)

lemma split_join_parts:
  "stack_ok ab comps \<Longrightarrow> fold (normalize_step ab) (split_on (CHR ''/'') (join ''/'' comps)) [] = comps"
  using stack_ok_parts [of ab comps]
  by (cases "comps = []") (auto simp: split_on_join fold_normalize_stack normalize_step_def)

lemma join_starts: "p \<noteq> [] \<Longrightarrow> starts_with (join sep (p # ps)) ''/'' \<longleftrightarrow> hd p = CHR ''/''"
  by (cases p; cases ps) (auto simp: starts_with_def)

lemma starts_with_normalize [simp]:
  "starts_with (normalize_path path) ''/'' \<longleftrightarrow> starts_with path ''/''"
proof (cases "starts_with path ''/''")
  case False
  have ok: "stack_ok False (normalized_parts path)" using normalized_parts_ok [of path] False by simp
  show ?thesis
  proof (cases "normalized_parts path")
    case (Cons p ps)
    then have "p \<noteq> []" "hd p \<noteq> CHR ''/''" using stack_ok_parts [OF ok, of p] by (cases p; auto)+
    then show ?thesis using False Cons by (simp add: normalize_path_parts join_starts)
  qed (use False in \<open>simp add: normalize_path_parts starts_with_def\<close>)
qed (simp add: normalize_path_parts starts_with_def)

lemma normalized_parts_normalize [simp]: "normalized_parts (normalize_path path) = normalized_parts path"
proof -
  let ?ab = "starts_with path ''/''" and ?j = "join ''/'' (normalized_parts path)"
  have "split_on (CHR ''/'') (normalize_path path)
      = (if ?ab then [[]] else []) @ split_on (CHR ''/'') ?j"
    by (simp add: normalize_path_parts)
  then have "normalized_parts (normalize_path path)
      = fold (normalize_step ?ab) (split_on (CHR ''/'') ?j) []"
    by (simp add: normalized_parts_def [of "normalize_path path"] normalize_step_def [of _ "[]"])
  then show ?thesis by (simp add: split_join_parts [OF normalized_parts_ok])
qed

lemma normalize_path_idem: "normalize_path (normalize_path path) = normalize_path path"
  unfolding normalize_path_parts [of "normalize_path path"] normalized_parts_normalize
    starts_with_normalize normalize_path_parts [of path, symmetric] ..

lemma components_join: "stack_ok ab comps \<Longrightarrow> components (join ''/'' comps) = comps"
  using stack_ok_parts [of ab comps]
  by (cases "comps = []") (auto simp: components_def split_on_join filter_id_conv)

lemma components_normalize: "components (normalize_path path) = normalized_parts path"
  using components_join [OF normalized_parts_ok, of path] by (simp add: normalize_path_parts)

lemma components_normalize_plain:
  "starts_with path ''/'' \<Longrightarrow> list_all plain_part (components (normalize_path path))"
  using normalized_parts_ok [of path] by (auto simp: components_normalize stack_ok_def)

subsection \<open>What validation lets through\<close>

lemma validate_git_args_ok:
  "validate_git_args args = Inr u \<longleftrightarrow>
     ''-c'' \<notin> set args \<and> ''--config'' \<notin> set args
   \<and> (\<forall>i. Suc i < length args \<longrightarrow> args ! i = ''submodule'' \<longrightarrow> args ! Suc i \<noteq> ''foreach'')"
proof (induction args)
  case (Cons arg rest)
  have pair: "(\<forall>i. Suc i < length (arg # rest) \<longrightarrow> (arg # rest) ! i = s \<longrightarrow> (arg # rest) ! Suc i \<noteq> t) \<longleftrightarrow>
      \<not> (arg = s \<and> rest \<noteq> [] \<and> hd rest = t) \<and>
      (\<forall>i. Suc i < length rest \<longrightarrow> rest ! i = s \<longrightarrow> rest ! Suc i \<noteq> t)" for s t
    by (cases rest) (auto simp: nth_Cons split: nat.splits)
  show ?case unfolding pair using Cons by auto
qed simp

lemma validate_docker_args_ok:
  "validate_docker_args args = Inr u \<longleftrightarrow>
     (\<forall>pre post. args = pre @ ''compose'' # post \<longrightarrow> ''-f'' \<notin> set post \<and> ''--file'' \<notin> set post)"
proof (induction args)
  case (Cons arg rest)
  have first: "(\<forall>pre post. arg # rest = pre @ ''compose'' # post \<longrightarrow> Q post) \<longleftrightarrow>
      (arg = ''compose'' \<longrightarrow> Q rest) \<and> (\<forall>pre post. rest = pre @ ''compose'' # post \<longrightarrow> Q post)" for Q
    by (auto simp: Cons_eq_append_conv)
  have "validate_docker_args (arg # rest) = Inr u \<longleftrightarrow>
      (arg = ''compose'' \<longrightarrow> ''-f'' \<notin> set rest \<and> ''--file'' \<notin> set rest) \<and> validate_docker_args rest = Inr u"
    by (simp add: list_ex_iff) blast
  then show ?case unfolding Cons.IH first [of "\<lambda>post. ''-f'' \<notin> set post \<and> ''--file'' \<notin> set post"] .
qed simp

lemma launcher_validate_command_ok:
  "launcher_validate_command config cmd args cwd = Inr v \<longleftrightarrow>
     (cc_mode config = Allowlist \<longrightarrow> cmd \<in> set (allowed_commands config))
   \<and> launcher_validate_args cmd args = Inr ()
   \<and> v = \<lparr>lc_cmd = cmd, lc_args = args, lc_cwd = map_option normalize_path cwd\<rparr>
   \<and> (\<forall>c. cwd = Some c \<longrightarrow>
        (\<exists>p \<in> set (allowed_cwd_prefixes config). starts_with (normalize_path c) p))"
proof (cases "cc_mode config = Allowlist \<and> cmd \<notin> set (allowed_commands config)")
  case False
  then show ?thesis
    by (cases cwd; cases "launcher_validate_args cmd args")
      (auto simp: launcher_validate_command_def Let_def list_ex_iff)
qed (simp add: launcher_validate_command_def)

lemma launcher_validate_args_ok:
  "launcher_validate_args cmd args = Inr () \<longleftrightarrow>
     cmd \<noteq> ''env'' \<and> (cmd = ''git'' \<longrightarrow> validate_git_args args = Inr ())
   \<and> (cmd = ''docker'' \<longrightarrow> validate_docker_args args = Inr ())"
  by (auto simp: launcher_validate_args_def)

text \<open>
  C17. The launcher accepts a command exactly if all of its gates pass, and then runs it
  unchanged: in allowlist mode the command is listed, while denylist mode looks at no list
  and lets every name but \<open>env\<close> through; in both modes it is not \<open>env\<close>, not \<open>git\<close> with
  \<open>-c\<close>, \<open>--config\<close> or \<open>submodule foreach\<close>, and not \<open>docker ... compose\<close> followed by \<open>-f\<close> or
  \<open>--file\<close>; and a directory that is named has, once normalised, an allowed prefix as a
  text. The directory it runs in is the normalised one, which normalising again does not
  change and which, when the request named an absolute path, has no empty, \<open>.\<close> or \<open>..\<close>
  component left to climb with.
\<close>

theorem launcher_command_safe:
  "(launcher_validate_command config cmd args cwd = Inr v \<longleftrightarrow>
     (case cc_mode config of Allowlist \<Rightarrow> cmd \<in> set (allowed_commands config) | Denylist \<Rightarrow> True)
   \<and> cmd \<noteq> ''env''
   \<and> (cmd = ''git'' \<longrightarrow> ''-c'' \<notin> set args \<and> ''--config'' \<notin> set args
        \<and> (\<forall>i. Suc i < length args \<longrightarrow> args ! i = ''submodule'' \<longrightarrow> args ! Suc i \<noteq> ''foreach''))
   \<and> (cmd = ''docker'' \<longrightarrow>
        (\<forall>pre post. args = pre @ ''compose'' # post \<longrightarrow> ''-f'' \<notin> set post \<and> ''--file'' \<notin> set post))
   \<and> (\<forall>c. cwd = Some c \<longrightarrow>
        (\<exists>p \<in> set (allowed_cwd_prefixes config). starts_with (normalize_path c) p))
   \<and> v = \<lparr>lc_cmd = cmd, lc_args = args, lc_cwd = map_option normalize_path cwd\<rparr>)
 \<and> (\<forall>c. normalize_path (normalize_path c) = normalize_path c
        \<and> (starts_with c ''/'' \<longrightarrow> list_all plain_part (components (normalize_path c))))"
proof -
  have mode: "(case cc_mode config of Allowlist \<Rightarrow> P | Denylist \<Rightarrow> True)
      \<longleftrightarrow> (cc_mode config = Allowlist \<longrightarrow> P)" for P
    by (cases "cc_mode config") simp_all
  show ?thesis
    unfolding launcher_validate_command_ok launcher_validate_args_ok validate_git_args_ok
      validate_docker_args_ok mode
    by (auto simp: normalize_path_idem components_normalize_plain)
qed

text \<open>The configuration of the witness: \<open>git\<close> and \<open>ls\<close> below \<open>/w\<close>.\<close>

definition launcher_config_example :: CapabilitiesConfig where
  "launcher_config_example =
     \<lparr>cc_mode = Allowlist, allowed_commands = [''git'', ''ls''], allowed_cwd_prefixes = [''/w''], max_sessions = 1\<rparr>"

theorem launcher_command_safe_witness:
  "launcher_validate_command launcher_config_example ''git'' [''status''] (Some ''/a/../w/./p'')
     = Inr \<lparr>lc_cmd = ''git'', lc_args = [''status''], lc_cwd = Some ''/w/p''\<rparr>
   \<and> ''git'' \<in> set (allowed_commands launcher_config_example)
   \<and> list_all plain_part (components (normalize_path ''/a/../w/./p''))"
proof -
  let ?v = "\<lparr>lc_cmd = ''git'', lc_args = [''status''], lc_cwd = Some ''/w/p''\<rparr>"
  have ok: "launcher_validate_command launcher_config_example ''git'' [''status''] (Some ''/a/../w/./p'') = Inr ?v"
    by code_simp
  have "starts_with ''/a/../w/./p'' ''/''" by code_simp
  moreover have "cc_mode launcher_config_example = Allowlist"
    by (simp add: launcher_config_example_def)
  ultimately show ?thesis
    using launcher_command_safe [of launcher_config_example "''git''" "[''status'']" "Some ''/a/../w/./p''" ?v] ok
    by simp
qed

text \<open>
  The prefix test compares texts, not components: a sibling directory whose name extends an
  allowed one is accepted.
\<close>

lemma launcher_cwd_sibling:
  "launcher_validate_command launcher_config_example ''ls'' [] (Some ''/www'')
     = Inr \<lparr>lc_cmd = ''ls'', lc_args = [], lc_cwd = Some ''/www''\<rparr>
   \<and> \<not> prefix (components ''/w'') (components ''/www'')"
  by code_simp

text \<open>Only the spelled-out option is blocked, not \<open>--file=\<close>; and denylist mode rejects no command by name.\<close>

lemma docker_compose_file_equals: "validate_docker_args [''compose'', ''--file=x'', ''up''] = Inr ()"
  by code_simp

lemma denylist_accepts_any:
  "cc_mode config = Denylist \<Longrightarrow> cmd \<notin> {''git'', ''docker'', ''env''} \<Longrightarrow>
   launcher_validate_command config cmd args None = Inr \<lparr>lc_cmd = cmd, lc_args = args, lc_cwd = None\<rparr>"
  by (simp add: launcher_validate_command_def launcher_validate_args_def)

subsection \<open>The ring buffer keeps the newest events\<close>

text \<open>The buffer of a given capacity as a bounded window.\<close>

definition ring_window_push :: "nat \<Rightarrow> u64 \<times> 'a \<Rightarrow> (u64 \<times> 'a) list \<Rightarrow> (u64 \<times> 'a) list" where
  "ring_window_push n ev buf = rb_buffer (ring_push (fst ev) (snd ev) \<lparr>rb_buffer = buf, rb_capacity = n\<rparr>)"

interpretation ring: bounded_window "Suc n" "ring_window_push (Suc n)" "\<lambda>buf. buf" for n
  by unfold_locales (auto simp: ring_window_push_def ring_push_def Let_def)

definition ring_push_all :: "(u64 \<times> 'a) list \<Rightarrow> 'a EventRingBuffer \<Rightarrow> 'a EventRingBuffer" where
  "ring_push_all evs rb = fold (\<lambda>(s, e). ring_push s e) evs rb"

lemma ring_push_all_window:
  "ring_push_all evs rb = rb\<lparr>rb_buffer := fold (ring_window_push (rb_capacity rb)) evs (rb_buffer rb)\<rparr>"
  by (induction evs arbitrary: rb)
    (auto simp: ring_push_all_def ring_push_def ring_window_push_def Let_def)

lemma ring_push_all_new:
  "0 < n \<Longrightarrow> rb_buffer (ring_push_all evs (ring_new n)) = drop (length evs - n) evs"
  using ring.fold_push_items [of "[]" "n - 1" evs] by (cases n) (auto simp: ring_push_all_window ring_new_def)

lemma find_distinct:
  "distinct (map fst xs) \<Longrightarrow> map_option snd (find (\<lambda>(s', _). s' = s) xs) = Some e \<longleftrightarrow> (s, e) \<in> set xs"
  by (induction xs) (auto simp: image_iff)

text \<open>
  A ring buffer of positive capacity that has been given the events \<open>evs\<close> holds the last
  \<open>capacity\<close> of them and nothing else: its length is the smaller of the two, a range query returns
  in order the retained events of the range, and with distinct sequence numbers a lookup finds exactly
  the retained events.
\<close>

lemma ring_buffer_recent:
  assumes "0 < n" and "distinct (map fst evs)"
  shows "ring_len (ring_push_all evs (ring_new n)) = min n (length evs)
    \<and> get_range lo hi (ring_push_all evs (ring_new n))
        = map snd (filter (\<lambda>(s, e). lo \<le> s \<and> s \<le> hi) (drop (length evs - n) evs))
    \<and> (ring_get s (ring_push_all evs (ring_new n)) = Some e \<longleftrightarrow> (s, e) \<in> set (drop (length evs - n) evs))"
proof -
  have "distinct (map fst (drop (length evs - n) evs))"
    using assms(2) by (simp flip: drop_map)
  from find_distinct [OF this, of s e] show ?thesis
    by (auto simp: ring_len_def get_range_def ring_get_def ring_push_all_new [OF assms(1)])
qed

lemma ring_buffer_recent_example:
  "ring_get 2 (ring_push_all [(0, ''a''), (1, ''b''), (2, ''c'')] (ring_new 2)) = Some ''c''
   \<and> ring_len (ring_push_all [(0, ''a''), (1, ''b''), (2, ''c'')] (ring_new 2)) = 2"
  using ring_buffer_recent [of 2 "[(0, ''a''), (1, ''b''), (2, ''c'')]" 0 0 2 "''c''"] by simp

text \<open>A buffer of capacity zero is never full again after its first event: it retains everything
  pushed since.\<close>

lemma ring_zero_unbounded: "rb_buffer (ring_push_all evs (ring_new 0)) = evs"
proof -
  have "fold (ring_window_push 0) evs buf = buf @ evs" for buf
    by (induction evs arbitrary: buf) (auto simp: ring_window_push_def ring_push_def Let_def)
  then show ?thesis by (simp add: ring_push_all_window ring_new_def)
qed

subsection \<open>The batcher loses nothing\<close>

datatype batcher_event = Push instant bytes | Tick instant instant | Flush instant

fun batcher_call :: "batcher_event \<Rightarrow> OutputBatcher \<Rightarrow> bytes option \<times> OutputBatcher" where
  "batcher_call (Push now data) b = batcher_push now data b"
| "batcher_call (Tick now now') b = batcher_tick now now' b"
| "batcher_call (Flush now) b = batcher_flush now b"

fun batcher_run :: "batcher_event list \<Rightarrow> OutputBatcher \<Rightarrow> bytes list \<times> OutputBatcher" where
  "batcher_run [] b = ([], b)"
| "batcher_run (c # cs) b =
     (let (out, b1) = batcher_call c b; (outs, b2) = batcher_run cs b1
      in ((case out of None \<Rightarrow> outs | Some o1 \<Rightarrow> o1 # outs), b2))"

fun call_input :: "batcher_event \<Rightarrow> bytes" where
  "call_input (Push _ data) = data"
| "call_input _ = []"

lemmas batcher_defs = batcher_push_def batcher_tick_def batcher_flush_def batcher_drain_def

lemma batcher_call_step:
  "batcher_call c b = (out, b1) \<Longrightarrow>
     (case out of None \<Rightarrow> [] | Some o1 \<Rightarrow> o1) @ ob_buffer b1 = ob_buffer b @ call_input c
   \<and> ob_max_bytes b1 = ob_max_bytes b
   \<and> (0 < ob_max_bytes b \<longrightarrow> length (ob_buffer b) < ob_max_bytes b \<longrightarrow>
        length (ob_buffer b1) < ob_max_bytes b \<and> out \<noteq> Some [])"
  by (cases c) (auto simp: batcher_defs Let_def split: if_splits)

text \<open>
  Whatever pushes, ticks and flushes a batcher sees, the batches it hands out followed by
  what it still holds are the pushed bytes in their order; with a positive threshold it never
  holds the threshold or more after a call, and never hands out an empty batch.
\<close>

lemma batcher_lossless:
  assumes "batcher_run cs b = (outs, b')" and "length (ob_buffer b) < ob_max_bytes b"
  shows "concat outs @ ob_buffer b' = ob_buffer b @ concat (map call_input cs)
    \<and> length (ob_buffer b') < ob_max_bytes b \<and> [] \<notin> set outs"
  using assms
proof (induction cs b arbitrary: outs b' rule: batcher_run.induct)
  case (2 c cs b)
  obtain out b1 where c: "batcher_call c b = (out, b1)" by (cases "batcher_call c b")
  obtain os b2 where r: "batcher_run cs b1 = (os, b2)" by (cases "batcher_run cs b1")
  have step: "(case out of None \<Rightarrow> [] | Some o1 \<Rightarrow> o1) @ ob_buffer b1 = ob_buffer b @ call_input c"
      "ob_max_bytes b1 = ob_max_bytes b" "length (ob_buffer b1) < ob_max_bytes b" "out \<noteq> Some []"
    using batcher_call_step [OF c] 2(3) by auto
  have ih: "concat os @ ob_buffer b2 = ob_buffer b1 @ concat (map call_input cs)"
      "length (ob_buffer b2) < ob_max_bytes b" "[] \<notin> set os"
    using 2(1) [OF c [symmetric] refl r] step(2,3) by auto
  have res: "outs = (case out of None \<Rightarrow> os | Some o1 \<Rightarrow> o1 # os)" "b' = b2"
    using 2(2) by (simp_all add: c r)
  have "concat outs @ ob_buffer b' = (case out of None \<Rightarrow> [] | Some o1 \<Rightarrow> o1) @ concat os @ ob_buffer b2"
    by (simp add: res split: option.split)
  also have "\<dots> = ob_buffer b @ concat (map call_input (c # cs))"
    by (simp add: ih(1) step(1) [symmetric] flip: append_assoc)
  finally show ?case using step(4) ih(2,3) by (cases out) (simp_all add: res)
qed simp

lemma batcher_lossless_example:
  "batcher_run [Push 0 [1, 2], Push 1 [3], Tick 9 9, Flush 10] (batcher_new 3 5 0) = ([[1, 2, 3]], batcher_new 3 5 1)
   \<and> concat [[1, 2, 3]] @ ob_buffer (batcher_new 3 5 1) = ([1, 2, 3] :: bytes)"
proof -
  have run: "batcher_run [Push 0 [1, 2], Push 1 [3], Tick 9 9, Flush 10] (batcher_new 3 5 0)
      = ([[1, 2, 3]], batcher_new 3 5 1)"
    by code_simp
  have "length (ob_buffer (batcher_new 3 5 0)) < ob_max_bytes (batcher_new 3 5 0)" by code_simp
  with batcher_lossless [OF run] run show ?thesis by (simp add: batcher_new_def)
qed

end
