(* ===== verification/Multi_Hs.thy ===== *)
theory Multi_Hs
  imports Complex_Main Session_Types "HOL-Library.Mapping" "HOL-Library.Monad_Syntax" "HOL-Library.Sublist"
begin

section \<open>The multi-homeserver client\<close>

text \<open>
  The model of \<open>crates/mxdx-matrix/src/multi_hs.rs\<close> (with \<open>short_hash\<close> of \<open>client.rs\<close>): a pool
  of connected homeservers with a preferred one, a circuit breaker per server, failover, and
  deduplication of events received from several servers. A connected \<open>MatrixClient\<close> wraps the
  Matrix SDK: it is a value of the type parameter, and what the network answers to a call is an
  argument of the operation that makes it, so that a theorem holds for every answer. A
  panic is the value \<open>None\<close>.
\<close>

subsection \<open>Latencies\<close>

text \<open>\<open>f64\<close> as it is compared here: NaN is comparable with nothing.\<close>

datatype f64 = NegInf | Num rat | PosInf | NaN

definition F64_MAX :: f64 where
  "F64_MAX = Num (2 ^ 1024 - 2 ^ 971)"

fun f64_le :: "f64 \<Rightarrow> f64 \<Rightarrow> bool" where
  "f64_le NaN _ = False"
| "f64_le _ NaN = False"
| "f64_le NegInf _ = True"
| "f64_le _ PosInf = True"
| "f64_le (Num a) (Num b) = (a \<le> b)"
| "f64_le _ _ = False"

definition f64_lt :: "f64 \<Rightarrow> f64 \<Rightarrow> bool" where
  "f64_lt a b \<longleftrightarrow> f64_le a b \<and> \<not> f64_le b a"

definition partial_cmp :: "f64 \<Rightarrow> f64 \<Rightarrow> Ordering option" where
  "partial_cmp a b =
     (if a = NaN \<or> b = NaN then None
      else Some (if f64_lt a b then Less else if f64_lt b a then Greater else Equal))"

lemma f64_le_refl [simp]: "f64_le a a \<longleftrightarrow> a \<noteq> NaN"
  by (cases a) auto

lemma f64_le_trans: "f64_le a b \<Longrightarrow> f64_le b c \<Longrightarrow> f64_le a c"
  by (cases a; cases b; cases c) auto

lemma f64_le_linear: "a \<noteq> NaN \<Longrightarrow> b \<noteq> NaN \<Longrightarrow> f64_le a b \<or> f64_le b a"
  by (cases a; cases b) auto

subsection \<open>State\<close>

definition FAIL_WINDOW :: duration where
  "FAIL_WINDOW = from_secs (5 * 60)"

definition FAIL_THRESHOLD :: nat where
  "FAIL_THRESHOLD = 5"

definition MAX_SEEN_EVENTS :: nat where
  "MAX_SEEN_EVENTS = 10000"

definition EVICT_BATCH :: nat where
  "EVICT_BATCH = 2000"

record ServerAccount =
  sa_homeserver :: str
  sa_username :: str
  sa_password :: str
  sa_danger_accept_invalid_certs :: bool

record 'cl ServerEntry =
  sn_client :: 'cl
  sn_server :: str
  sn_password :: str
  sn_latency_ms :: f64

datatype ServerStatus = Healthy | Down

record CircuitBreaker =
  cb_failures :: "instant list"
  cb_status :: ServerStatus

definition breaker_new :: CircuitBreaker where
  "breaker_new = \<lparr>cb_failures = [], cb_status = Healthy\<rparr>"

record ServerHealth =
  sh_server :: str
  sh_status :: ServerStatus
  sh_latency_ms :: f64

text \<open>The callback is represented by whether one is registered and by the calls made to it.\<close>

record 'cl MultiHsClient =
  mh_entries :: "'cl ServerEntry list"
  mh_preferred_index :: nat
  mh_preferred_override :: "str option"
  mh_breakers :: "str \<rightharpoonup> CircuitBreaker"
  mh_seen_events :: "(str, instant) mapping"
  mh_seen_order :: "str list"
  mh_on_preferred_change :: bool
  mh_changes :: "(str \<times> str) list"

subsection \<open>Construction\<close>

text \<open>\<open>short_hash\<close>: FNV-1a in sixteen hexadecimal digits.\<close>

definition fnv1a :: "bytes \<Rightarrow> u64" where
  "fnv1a bs = fold (\<lambda>b h. (xor h (ucast b)) * 1099511628211) bs 14695981039346656037"

definition hex_digit :: "nat \<Rightarrow> char" where
  "hex_digit d = (if d < 10 then char_of (48 + d) else char_of (87 + d))"

definition hex16 :: "u64 \<Rightarrow> str" where
  "hex16 w = map (\<lambda>i. hex_digit (unat w div 16 ^ (15 - i) mod 16)) [0..<16]"

definition short_hash :: "str \<Rightarrow> str" where
  "short_hash input = hex16 (fnv1a (as_bytes input))"

text \<open>\<open>Iterator::min_by\<close>: the first of the least elements; a comparison with NaN panics.\<close>

fun min_by_latency :: "nat \<times> f64 \<Rightarrow> (nat \<times> f64) list \<Rightarrow> (nat \<times> f64) option" where
  "min_by_latency x [] = Some x"
| "min_by_latency x (y # ys) =
     (case partial_cmp (snd x) (snd y) of
        None \<Rightarrow> None
      | Some c \<Rightarrow> min_by_latency (if c = Greater then y else x) ys)"

fun position :: "('a \<Rightarrow> bool) \<Rightarrow> 'a list \<Rightarrow> nat option" where
  "position P [] = None"
| "position P (x # xs) = (if P x then Some 0 else map_option Suc (position P xs))"

definition select_preferred :: "str option \<Rightarrow> 'cl ServerEntry list \<Rightarrow> nat option" where
  "select_preferred preferred_override es =
     (case preferred_override of
        Some s \<Rightarrow> Some (case position (\<lambda>e. sn_server e = s) es of Some i \<Rightarrow> i | None \<Rightarrow> 0)
      | None \<Rightarrow>
          (case enumerate 0 (map sn_latency_ms es) of
             [] \<Rightarrow> Some 0
           | x # xs \<Rightarrow> map_option fst (min_by_latency x xs)))"

definition init_breakers :: "'cl ServerEntry list \<Rightarrow> str \<rightharpoonup> CircuitBreaker" where
  "init_breakers es = fold (\<lambda>e b. b(sn_server e \<mapsto> breaker_new)) es Map.empty"

definition from_entries :: "'cl ServerEntry list \<Rightarrow> str option \<Rightarrow> 'cl MultiHsClient option" where
  "from_entries es preferred_server =
     map_option (\<lambda>i. \<lparr>mh_entries = es, mh_preferred_index = i, mh_preferred_override = preferred_server,
         mh_breakers = init_breakers es, mh_seen_events = Mapping.empty, mh_seen_order = [],
         mh_on_preferred_change = False, mh_changes = []\<rparr>)
       (select_preferred preferred_server es)"

definition from_clients :: "(str \<times> 'cl \<times> f64) list \<Rightarrow> str option \<Rightarrow> 'cl MultiHsClient option" where
  "from_clients clients preferred_server =
     from_entries
       (map (\<lambda>(server, client, latency).
          \<lparr>sn_client = client, sn_server = server, sn_password = [], sn_latency_ms = latency\<rparr>) clients)
       preferred_server"

text \<open>
  The logins of \<open>MatrixClient\<close> and \<open>session.rs\<close> as a parameter: into a temporary store, into the
  store at a path, and with session restore from the keychain, which tells whether it logged
  in afresh. \<open>probe\<close> is the first sync: its duration in milliseconds, or a failure.
\<close>

record ('e, 'cl) matrix_login =
  login_opts :: "str \<Rightarrow> str \<Rightarrow> str \<Rightarrow> bool \<Rightarrow> ('e, 'cl) result"
  login_persistent :: "str \<Rightarrow> str \<Rightarrow> str \<Rightarrow> str \<Rightarrow> bool \<Rightarrow> ('e, 'cl) result"
  connect_with_session :: "str \<Rightarrow> str \<Rightarrow> str \<Rightarrow> str \<Rightarrow> bool \<Rightarrow> bool \<Rightarrow> ('e, 'cl \<times> bool) result"
  path_join :: "str \<Rightarrow> str \<Rightarrow> str"
  probe :: "'cl \<Rightarrow> rat option"
  no_accounts :: 'e

definition account_store :: "('e, 'cl) matrix_login \<Rightarrow> str \<Rightarrow> ServerAccount \<Rightarrow> str" where
  "account_store api base a = path_join api base (short_hash (sa_username a @ ''@'' @ sa_homeserver a))"

definition connected_entry :: "('e, 'cl) matrix_login \<Rightarrow> ServerAccount \<Rightarrow> 'cl \<Rightarrow> 'cl ServerEntry" where
  "connected_entry api a c =
     \<lparr>sn_client = c, sn_server = sa_homeserver a, sn_password = sa_password a,
      sn_latency_ms = (case probe api c of Some ms \<Rightarrow> Num ms | None \<Rightarrow> F64_MAX)\<rparr>"

definition login_account ::
  "('e, 'cl) matrix_login \<Rightarrow> str option \<Rightarrow> ServerAccount \<Rightarrow> ('e, 'cl) result" where
  "login_account api store_base a =
     (case store_base of
        Some base \<Rightarrow>
          login_persistent api (sa_homeserver a) (sa_username a) (sa_password a) (account_store api base a)
            (sa_danger_accept_invalid_certs a)
      | None \<Rightarrow>
          login_opts api (sa_homeserver a) (sa_username a) (sa_password a) (sa_danger_accept_invalid_certs a))"

fun connect_all ::
  "(ServerAccount \<Rightarrow> ('e, 'cl ServerEntry \<times> bool) result) \<Rightarrow> ServerAccount list
     \<Rightarrow> ('e, ('cl ServerEntry \<times> bool) list) result" where
  "connect_all f [] = Okay []"
| "connect_all f (a # as) =
     (case f a of
        Inl e \<Rightarrow> Err e
      | Inr x \<Rightarrow> (case connect_all f as of Inl e \<Rightarrow> Err e | Inr xs \<Rightarrow> Okay (x # xs)))"

definition connect ::
  "('e, 'cl) matrix_login \<Rightarrow> ServerAccount list \<Rightarrow> str option \<Rightarrow> str option
     \<Rightarrow> ('e, 'cl MultiHsClient) result option" where
  "connect api accounts preferred_server store_base =
     (if accounts = [] then Some (Err (no_accounts api))
      else
        (case connect_all (\<lambda>a. map_sum id (\<lambda>c. (connected_entry api a c, True)) (login_account api store_base a))
                accounts of
           Inl e \<Rightarrow> Some (Err e)
         | Inr xs \<Rightarrow> map_option Okay (from_entries (map fst xs) preferred_server)))"

definition keychain_login ::
  "('e, 'cl) matrix_login \<Rightarrow> str option \<Rightarrow> bool \<Rightarrow> bool \<Rightarrow> ServerAccount \<Rightarrow> ('e, 'cl \<times> bool) result" where
  "keychain_login api store_base has_keychain force_new_device a =
     (case (store_base, has_keychain) of
        (Some base, True) \<Rightarrow>
          connect_with_session api (sa_homeserver a) (sa_username a) (sa_password a) (account_store api base a)
            (sa_danger_accept_invalid_certs a) force_new_device
      | _ \<Rightarrow> map_sum id (\<lambda>c. (c, True)) (login_account api store_base a))"

definition connect_with_keychain ::
  "('e, 'cl) matrix_login \<Rightarrow> ServerAccount list \<Rightarrow> str option \<Rightarrow> str option \<Rightarrow> bool \<Rightarrow> bool
     \<Rightarrow> ('e, 'cl MultiHsClient \<times> bool list) result option" where
  "connect_with_keychain api accounts preferred_server store_base has_keychain force_new_device =
     (if accounts = [] then Some (Err (no_accounts api))
      else
        (case connect_all
                (\<lambda>a. map_sum id (\<lambda>(c, fresh). (connected_entry api a c, fresh))
                       (keychain_login api store_base has_keychain force_new_device a)) accounts of
           Inl e \<Rightarrow> Some (Err e)
         | Inr xs \<Rightarrow>
             map_option (\<lambda>m. Okay (m, map snd xs)) (from_entries (map fst xs) preferred_server)))"

subsection \<open>Queries\<close>

definition set_on_preferred_change :: "'cl MultiHsClient \<Rightarrow> 'cl MultiHsClient" where
  "set_on_preferred_change m = m\<lparr>mh_on_preferred_change := True\<rparr>"

definition preferred :: "'cl MultiHsClient \<Rightarrow> 'cl option" where
  "preferred m =
     (if mh_preferred_index m < length (mh_entries m)
      then Some (sn_client (mh_entries m ! mh_preferred_index m)) else None)"

definition preferred_server :: "'cl MultiHsClient \<Rightarrow> str option" where
  "preferred_server m =
     (if mh_preferred_index m < length (mh_entries m)
      then Some (sn_server (mh_entries m ! mh_preferred_index m)) else None)"

definition server_count :: "'cl MultiHsClient \<Rightarrow> nat" where
  "server_count m = length (mh_entries m)"

definition is_single_server :: "'cl MultiHsClient \<Rightarrow> bool" where
  "is_single_server m \<longleftrightarrow> length (mh_entries m) \<le> 1"

definition server_status :: "'cl MultiHsClient \<Rightarrow> str \<Rightarrow> ServerStatus" where
  "server_status m server = (case mh_breakers m server of Some b \<Rightarrow> cb_status b | None \<Rightarrow> Healthy)"

definition server_health :: "'cl MultiHsClient \<Rightarrow> ServerHealth list" where
  "server_health m =
     map (\<lambda>e. \<lparr>sh_server = sn_server e, sh_status = server_status m (sn_server e),
               sh_latency_ms = sn_latency_ms e\<rparr>) (mh_entries m)"

definition all_user_ids :: "('cl \<Rightarrow> str) \<Rightarrow> 'cl MultiHsClient \<Rightarrow> str list" where
  "all_user_ids user_id m = map (\<lambda>e. user_id (sn_client e)) (mh_entries m)"

subsection \<open>Circuit breaker and failover\<close>

text \<open>The checked index \<open>self.entries[i]\<close>: out of range it panics.\<close>

definition entry_at :: "'cl MultiHsClient \<Rightarrow> nat \<Rightarrow> 'cl ServerEntry option" where
  "entry_at m i = (if i < length (mh_entries m) then Some (mh_entries m ! i) else None)"

lemma entry_at_less [simp]: "i < length (mh_entries m) \<Longrightarrow> entry_at m i = Some (mh_entries m ! i)"
  by (simp add: entry_at_def)

lemma entry_at_beyond [simp]: "length (mh_entries m) \<le> i \<Longrightarrow> entry_at m i = None"
  by (simp add: entry_at_def)

text \<open>One step of the search of \<open>trigger_failover\<close>: the best candidate so far and its latency.\<close>

definition better_candidate ::
  "'cl MultiHsClient \<Rightarrow> nat \<times> 'cl ServerEntry \<Rightarrow> nat option \<times> f64 \<Rightarrow> nat option \<times> f64" where
  "better_candidate m x best =
     (case x of (i, e) \<Rightarrow>
        if i = mh_preferred_index m then best
        else if server_status m (sn_server e) = Down then best
        else if f64_lt (sn_latency_ms e) (snd best) then (Some i, sn_latency_ms e)
        else best)"

definition trigger_failover :: "'cl MultiHsClient \<Rightarrow> 'cl MultiHsClient option" where
  "trigger_failover m =
     (case fst (fold (better_candidate m) (enumerate 0 (mh_entries m)) (None, F64_MAX)) of
        None \<Rightarrow> Some m
      | Some new_idx \<Rightarrow>
          do {
            old_entry \<leftarrow> entry_at m (mh_preferred_index m);
            new_entry \<leftarrow> entry_at m new_idx;
            let m1 = m\<lparr>mh_preferred_index := new_idx\<rparr>;
            Some (if mh_on_preferred_change m1
                  then m1\<lparr>mh_changes := mh_changes m1 @ [(sn_server new_entry, sn_server old_entry)]\<rparr>
                  else m1)
          })"

definition all_failing :: "'cl MultiHsClient \<Rightarrow> bool" where
  "all_failing m \<longleftrightarrow>
     list_all (\<lambda>e. case mh_breakers m (sn_server e) of
                 Some b \<Rightarrow> cb_status b = Down \<or> FAIL_THRESHOLD \<le> length (cb_failures b)
               | None \<Rightarrow> False) (mh_entries m)"

definition reset_breakers :: "'cl MultiHsClient \<Rightarrow> 'cl MultiHsClient" where
  "reset_breakers m = m\<lparr>mh_breakers := \<lambda>s. map_option (\<lambda>_. breaker_new) (mh_breakers m s)\<rparr>"

text \<open>\<open>Instant::duration_since\<close> saturates at zero, as subtraction does here.\<close>

definition record_failure :: "instant \<Rightarrow> nat \<Rightarrow> 'cl MultiHsClient \<Rightarrow> 'cl MultiHsClient option" where
  "record_failure now server_index m =
     (if is_single_server m then Some m
      else if length (mh_entries m) \<le> server_index then None
      else
        (let server = sn_server (mh_entries m ! server_index) in
         case mh_breakers m server of
           None \<Rightarrow> Some m
         | Some b \<Rightarrow>
             (let b1 = b\<lparr>cb_failures := filter (\<lambda>t. now - t < FAIL_WINDOW) (cb_failures b) @ [now]\<rparr>;
                  m1 = m\<lparr>mh_breakers := (mh_breakers m)(server \<mapsto> b1)\<rparr>
              in if FAIL_THRESHOLD \<le> length (cb_failures b1) then
                   if all_failing m1 then Some (reset_breakers m1)
                   else
                     (let m2 = m1\<lparr>mh_breakers := (mh_breakers m1)(server \<mapsto> b1\<lparr>cb_status := Down\<rparr>)\<rparr>
                      in if server_index = mh_preferred_index m2 then trigger_failover m2 else Some m2)
                 else Some m1)))"

definition record_success :: "nat \<Rightarrow> 'cl MultiHsClient \<Rightarrow> 'cl MultiHsClient option" where
  "record_success server_index m =
     (if is_single_server m then Some m
      else if length (mh_entries m) \<le> server_index then None
      else
        (let server = sn_server (mh_entries m ! server_index) in
         case mh_breakers m server of
           None \<Rightarrow> Some m
         | Some b \<Rightarrow>
             (let b1 = b\<lparr>cb_failures := []\<rparr>;
                  b2 = (if cb_status b1 = Down then b1\<lparr>cb_status := Healthy\<rparr> else b1)
              in Some (m\<lparr>mh_breakers := (mh_breakers m)(server \<mapsto> b2)\<rparr>))))"

subsection \<open>Operations of the pool\<close>

text \<open>Every call through the preferred server records its outcome.\<close>

definition with_preferred ::
  "('cl \<Rightarrow> ('e, 'a) result) \<Rightarrow> instant \<Rightarrow> 'cl MultiHsClient \<Rightarrow> (('e, 'a) result \<times> 'cl MultiHsClient) option" where
  "with_preferred call now m =
     (let idx = mh_preferred_index m in
      if length (mh_entries m) \<le> idx then None
      else
        (case call (sn_client (mh_entries m ! idx)) of
           Inr v \<Rightarrow> map_option (\<lambda>m'. (Okay v, m')) (record_success idx m)
         | Inl e \<Rightarrow> map_option (\<lambda>m'. (Err e, m')) (record_failure now idx m)))"

definition send_event ::
  "('cl \<Rightarrow> 'room \<Rightarrow> 'json \<Rightarrow> ('e, str) result) \<Rightarrow> instant \<Rightarrow> 'room \<Rightarrow> 'json \<Rightarrow> 'cl MultiHsClient
     \<Rightarrow> (('e, str) result \<times> 'cl MultiHsClient) option" where
  "send_event net now room payload = with_preferred (\<lambda>c. net c room payload) now"

definition send_threaded_event ::
  "('cl \<Rightarrow> 'room \<Rightarrow> str \<Rightarrow> str \<Rightarrow> 'json \<Rightarrow> ('e, str) result) \<Rightarrow> instant \<Rightarrow> 'room \<Rightarrow> str \<Rightarrow> str \<Rightarrow> 'json
     \<Rightarrow> 'cl MultiHsClient \<Rightarrow> (('e, str) result \<times> 'cl MultiHsClient) option" where
  "send_threaded_event net now room event_type thread_root content =
     with_preferred (\<lambda>c. net c room event_type thread_root content) now"

definition send_state_event ::
  "('cl \<Rightarrow> 'room \<Rightarrow> str \<Rightarrow> str \<Rightarrow> 'json \<Rightarrow> ('e, unit) result) \<Rightarrow> instant \<Rightarrow> 'room \<Rightarrow> str \<Rightarrow> str \<Rightarrow> 'json
     \<Rightarrow> 'cl MultiHsClient \<Rightarrow> (('e, unit) result \<times> 'cl MultiHsClient) option" where
  "send_state_event net now room event_type state_key content =
     with_preferred (\<lambda>c. net c room event_type state_key content) now"

definition get_or_create_launcher_space ::
  "('cl \<Rightarrow> str \<Rightarrow> ('e, 'topo) result) \<Rightarrow> instant \<Rightarrow> str \<Rightarrow> 'cl MultiHsClient
     \<Rightarrow> (('e, 'topo) result \<times> 'cl MultiHsClient) option" where
  "get_or_create_launcher_space net now name = with_preferred (\<lambda>c. net c name) now"

definition sync_once ::
  "('cl \<Rightarrow> ('e, unit) result) \<Rightarrow> instant \<Rightarrow> 'cl MultiHsClient \<Rightarrow> (('e, unit) result \<times> 'cl MultiHsClient) option" where
  "sync_once net now = with_preferred net now"

definition sync_full_state ::
  "('cl \<Rightarrow> ('e, unit) result) \<Rightarrow> instant \<Rightarrow> 'cl MultiHsClient \<Rightarrow> (('e, unit) result \<times> 'cl MultiHsClient) option" where
  "sync_full_state net now = with_preferred net now"

definition join_room ::
  "('cl \<Rightarrow> 'room \<Rightarrow> ('e, unit) result) \<Rightarrow> instant \<Rightarrow> 'room \<Rightarrow> 'cl MultiHsClient
     \<Rightarrow> (('e, unit) result \<times> 'cl MultiHsClient) option" where
  "join_room net now room = with_preferred (\<lambda>c. net c room) now"

definition wait_for_key_exchange ::
  "('cl \<Rightarrow> 'room \<Rightarrow> duration \<Rightarrow> ('e, unit) result) \<Rightarrow> instant \<Rightarrow> 'room \<Rightarrow> duration \<Rightarrow> 'cl MultiHsClient
     \<Rightarrow> (('e, unit) result \<times> 'cl MultiHsClient) option" where
  "wait_for_key_exchange net now room timeout = with_preferred (\<lambda>c. net c room timeout) now"

text \<open>The loop of \<open>find_launcher_space\<close> over the indices that are left; the clock is read per server.\<close>

fun find_space_loop ::
  "('cl \<Rightarrow> ('e, 'topo option) result) \<Rightarrow> (nat \<Rightarrow> instant) \<Rightarrow> nat list \<Rightarrow> 'cl MultiHsClient
     \<Rightarrow> ('topo option \<times> 'cl MultiHsClient) option" where
  "find_space_loop net clk [] m = Some (None, m)"
| "find_space_loop net clk (i # is) m =
     Option.bind (entry_at m i) (\<lambda>e.
      if server_status m (sn_server e) = Down then find_space_loop net clk is m
      else
        (case net (sn_client e) of
           Inr (Some t) \<Rightarrow> map_option (\<lambda>m'. (Some t, m')) (record_success i m)
         | Inr None \<Rightarrow> Option.bind (record_success i m) (find_space_loop net clk is)
         | Inl _ \<Rightarrow> Option.bind (record_failure (clk i) i m) (find_space_loop net clk is)))"

definition find_launcher_space ::
  "('cl \<Rightarrow> str \<Rightarrow> ('e, 'topo option) result) \<Rightarrow> (nat \<Rightarrow> instant) \<Rightarrow> str \<Rightarrow> 'cl MultiHsClient
     \<Rightarrow> (('e, 'topo option) result \<times> 'cl MultiHsClient) option" where
  "find_launcher_space net clk name m =
     (if is_single_server m then
        (case mh_entries m of [] \<Rightarrow> None | e # _ \<Rightarrow> Some (net (sn_client e) name, m))
      else
        map_option (\<lambda>(t, m'). (Okay t, m'))
          (find_space_loop (\<lambda>c. net c name) clk [0..<length (mh_entries m)] m))"

subsection \<open>Deduplication\<close>

text \<open>\<open>Vec::drain(..n)\<close>: the first elements and the rest; it panics if there are fewer.\<close>

definition drain_front :: "nat \<Rightarrow> 'a list \<Rightarrow> ('a list \<times> 'a list) option" where
  "drain_front n xs = (if n \<le> length xs then Some (take n xs, drop n xs) else None)"

definition is_duplicate :: "instant \<Rightarrow> str \<Rightarrow> 'cl MultiHsClient \<Rightarrow> (bool \<times> 'cl MultiHsClient) option" where
  "is_duplicate now event_id m =
     (if is_single_server m then Some (False, m)
      else if event_id \<in> Mapping.keys (mh_seen_events m) then Some (True, m)
      else
        (let seen = Mapping.update event_id now (mh_seen_events m);
             order = mh_seen_order m @ [event_id]
         in if MAX_SEEN_EVENTS < Mapping.size seen
            then do {
                (to_evict, kept) \<leftarrow> drain_front EVICT_BATCH order;
                Some (False, m\<lparr>mh_seen_events := fold Mapping.delete to_evict seen, mh_seen_order := kept\<rparr>)
              }
            else Some (False, m\<lparr>mh_seen_events := seen, mh_seen_order := order\<rparr>)))"

text \<open>The events of one server: what is delivered. An event without an id is always delivered.\<close>

fun deliver ::
  "('json \<Rightarrow> str option) \<Rightarrow> instant \<Rightarrow> 'json list \<Rightarrow> 'cl MultiHsClient
     \<Rightarrow> ('json list \<times> 'cl MultiHsClient) option" where
  "deliver event_id now [] m = Some ([], m)"
| "deliver event_id now (ev # evs) m =
     (case event_id ev of
        None \<Rightarrow> map_option (apfst (Cons ev)) (deliver event_id now evs m)
      | Some i \<Rightarrow>
          do {
            (dup, m1) \<leftarrow> is_duplicate now i m;
            (out, m2) \<leftarrow> deliver event_id now evs m1;
            Some (if dup then out else ev # out, m2)
          })"

fun collect_loop ::
  "('json \<Rightarrow> str option) \<Rightarrow> ('cl \<Rightarrow> ('e, 'json list) result) \<Rightarrow> (nat \<Rightarrow> instant) \<Rightarrow> nat list
     \<Rightarrow> 'cl MultiHsClient \<Rightarrow> ('json list \<times> 'cl MultiHsClient) option" where
  "collect_loop event_id net clk [] m = Some ([], m)"
| "collect_loop event_id net clk (i # is) m =
     Option.bind (entry_at m i) (\<lambda>e.
      if server_status m (sn_server e) = Down then collect_loop event_id net clk is m
      else
        (case net (sn_client e) of
           Inr evs \<Rightarrow>
             do {
               m1 \<leftarrow> record_success i m;
               (out, m2) \<leftarrow> deliver event_id (clk i) evs m1;
               (outs, m3) \<leftarrow> collect_loop event_id net clk is m2;
               Some (out @ outs, m3)
             }
         | Inl _ \<Rightarrow> Option.bind (record_failure (clk i) i m) (collect_loop event_id net clk is)))"

definition sync_and_collect_events ::
  "('json \<Rightarrow> str option) \<Rightarrow> ('cl \<Rightarrow> 'room \<Rightarrow> duration \<Rightarrow> ('e, 'json list) result) \<Rightarrow> (nat \<Rightarrow> instant)
     \<Rightarrow> 'room \<Rightarrow> duration \<Rightarrow> 'cl MultiHsClient \<Rightarrow> (('e, 'json list) result \<times> 'cl MultiHsClient) option" where
  "sync_and_collect_events event_id net clk room timeout m =
     (if is_single_server m then
        (case mh_entries m of [] \<Rightarrow> None | e # _ \<Rightarrow> Some (net (sn_client e) room timeout, m))
      else
        map_option (\<lambda>(evs, m'). (Okay evs, m'))
          (collect_loop event_id (\<lambda>c. net c room timeout) clk [0..<length (mh_entries m)] m))"

subsection \<open>The failover search\<close>

text \<open>A server the search may choose: another one, not down, with a measured latency.\<close>

definition candidate_server :: "'cl MultiHsClient \<Rightarrow> nat \<Rightarrow> 'cl ServerEntry \<Rightarrow> bool" where
  "candidate_server m i e \<longleftrightarrow>
     i \<noteq> mh_preferred_index m \<and> server_status m (sn_server e) \<noteq> Down \<and> f64_lt (sn_latency_ms e) F64_MAX"

lemma f64_lt_le_trans: "f64_lt a b \<Longrightarrow> f64_le b c \<Longrightarrow> f64_lt a c"
  by (cases a; cases b; cases c) (auto simp: f64_lt_def)

lemma f64_le_lt_trans: "f64_le a b \<Longrightarrow> f64_lt b c \<Longrightarrow> f64_lt a c"
  by (cases a; cases b; cases c) (auto simp: f64_lt_def)

lemma f64_not_lt: "\<not> f64_lt a b \<Longrightarrow> a \<noteq> NaN \<Longrightarrow> b \<noteq> NaN \<Longrightarrow> f64_le b a"
  using f64_le_linear [of a b] by (auto simp: f64_lt_def)

lemma f64_lt_not_NaN: "f64_lt a b \<Longrightarrow> a \<noteq> NaN \<and> b \<noteq> NaN"
  by (cases a; cases b) (auto simp: f64_lt_def)

text \<open>What the search has found after looking at some servers: the first of the fastest.\<close>

definition best_of :: "'cl MultiHsClient \<Rightarrow> (nat \<times> 'cl ServerEntry) list \<Rightarrow> nat option \<times> f64 \<Rightarrow> bool" where
  "best_of m xs r \<longleftrightarrow>
     (case r of
        (None, l) \<Rightarrow> l = F64_MAX \<and> (\<forall>j f. (j, f) \<in> set xs \<longrightarrow> \<not> candidate_server m j f)
      | (Some i, l) \<Rightarrow> (\<exists>e. (i, e) \<in> set xs \<and> candidate_server m i e \<and> l = sn_latency_ms e)
          \<and> (\<forall>j f. (j, f) \<in> set xs \<longrightarrow> candidate_server m j f \<longrightarrow> f64_le l (sn_latency_ms f)))"

lemma best_of_take:
  assumes "best_of m xs r" and "candidate_server m j f" and "f64_lt (sn_latency_ms f) (snd r)"
  shows "best_of m (xs @ [(j, f)]) (better_candidate m (j, f) r)"
proof -
  have new: "better_candidate m (j, f) r = (Some j, sn_latency_ms f)"
    using assms(2,3) by (simp add: better_candidate_def candidate_server_def)
  have "f64_le (sn_latency_ms f) (sn_latency_ms g)" if "(i, g) \<in> set xs" "candidate_server m i g" for i g
  proof -
    obtain k l where r: "r = (k, l)" by (cases r)
    with assms(1) that have "f64_le l (sn_latency_ms g)" by (cases k) (auto simp: best_of_def)
    with assms(3) r show ?thesis by (auto simp: f64_lt_def intro: f64_le_trans)
  qed
  with assms(2) f64_lt_not_NaN [OF assms(3)] show ?thesis by (auto simp: new best_of_def)
qed

lemma best_of_skip:
  assumes "best_of m xs r" and "\<not> (candidate_server m j f \<and> f64_lt (sn_latency_ms f) (snd r))"
  shows "best_of m (xs @ [(j, f)]) (better_candidate m (j, f) r)"
proof (cases r)
  case (Pair k l)
  show ?thesis
  proof (cases k)
    case None
    with assms Pair show ?thesis by (auto simp: best_of_def better_candidate_def candidate_server_def)
  next
    case (Some i)
    with assms(1) Pair obtain e where e: "candidate_server m i e" "l = sn_latency_ms e" by (auto simp: best_of_def)
    then have l: "l \<noteq> NaN" "f64_lt l F64_MAX" using f64_lt_not_NaN by (auto simp: candidate_server_def)
    have "better_candidate m (j, f) r = r"
      using assms(2) l Pair f64_lt_le_trans [of "sn_latency_ms f" l F64_MAX]
      by (auto simp: better_candidate_def candidate_server_def f64_lt_def [of l])
    moreover have "candidate_server m j f \<Longrightarrow> f64_le l (sn_latency_ms f)"
      using assms(2) l Pair f64_lt_not_NaN f64_not_lt by (auto simp: candidate_server_def)
    ultimately show ?thesis using assms(1) Pair Some by (auto simp: best_of_def)
  qed
qed

lemma fold_better_candidate: "best_of m xs (fold (better_candidate m) xs (None, F64_MAX))"
proof (induction xs rule: rev_induct)
  case (snoc x xs)
  then show ?case using best_of_take best_of_skip by (cases x) fastforce
qed (simp add: best_of_def)

lemma enumerate_entries: "(i, e) \<in> set (enumerate 0 es) \<longleftrightarrow> i < length es \<and> e = es ! i"
  by (auto simp: in_set_enumerate_eq)

text \<open>The pool after a failover, when no index is out of range.\<close>

definition failed_over :: "'cl MultiHsClient \<Rightarrow> 'cl MultiHsClient" where
  "failed_over m =
     (case fst (fold (better_candidate m) (enumerate 0 (mh_entries m)) (None, F64_MAX)) of
        None \<Rightarrow> m
      | Some i \<Rightarrow> m\<lparr>mh_preferred_index := i, mh_changes := mh_changes m @ (if mh_on_preferred_change m
           then [(sn_server (mh_entries m ! i), sn_server (mh_entries m ! mh_preferred_index m))] else [])\<rparr>)"

text \<open>
  What failover does: the fastest candidate becomes preferred and the callback, if there is one,
  hears of it; without a candidate nothing changes.
\<close>

lemma failed_over_cases:
  obtains (stays) "failed_over m = m"
      "\<And>j. j < length (mh_entries m) \<Longrightarrow> \<not> candidate_server m j (mh_entries m ! j)"
  | (moves) i where "i < length (mh_entries m)" "candidate_server m i (mh_entries m ! i)"
      "\<And>j. j < length (mh_entries m) \<Longrightarrow> candidate_server m j (mh_entries m ! j) \<Longrightarrow>
         f64_le (sn_latency_ms (mh_entries m ! i)) (sn_latency_ms (mh_entries m ! j))"
      "failed_over m = m\<lparr>mh_preferred_index := i,
         mh_changes := mh_changes m @ (if mh_on_preferred_change m
           then [(sn_server (mh_entries m ! i), sn_server (mh_entries m ! mh_preferred_index m))] else [])\<rparr>"
proof -
  obtain k l where r: "fold (better_candidate m) (enumerate 0 (mh_entries m)) (None, F64_MAX) = (k, l)"
    by (cases "fold (better_candidate m) (enumerate 0 (mh_entries m)) (None, F64_MAX)")
  note best = fold_better_candidate [of m "enumerate 0 (mh_entries m)", unfolded r best_of_def enumerate_entries]
  show thesis
  proof (cases k)
    case None
    with best r show thesis by (intro stays) (auto simp: failed_over_def)
  next
    case (Some i)
    with best r show thesis by (intro moves [of i]) (auto simp: failed_over_def Let_def)
  qed
qed

lemma trigger_failover_total:
  assumes "mh_preferred_index m < length (mh_entries m)"
  shows "trigger_failover m = Some (failed_over m)"
proof (cases "fst (fold (better_candidate m) (enumerate 0 (mh_entries m)) (None, F64_MAX))")
  case (Some i)
  then have "i < length (mh_entries m)"
    using fold_better_candidate [of m "enumerate 0 (mh_entries m)"]
    by (auto simp: best_of_def enumerate_entries split: prod.splits)
  with assms Some show ?thesis by (simp add: trigger_failover_def failed_over_def Let_def)
qed (simp add: trigger_failover_def failed_over_def)

subsection \<open>Well-formed pools\<close>

text \<open>
  What holds of a pool after construction and after every operation: the preferred index is in
  range, every server has a breaker, a healthy breaker is below the threshold, in a pool of
  several servers at least one is healthy, and the record of seen events is consistent and bounded.
\<close>

definition hs_ok :: "'cl MultiHsClient \<Rightarrow> bool" where
  "hs_ok m \<longleftrightarrow>
     mh_preferred_index m < length (mh_entries m)
   \<and> (\<forall>e \<in> set (mh_entries m). mh_breakers m (sn_server e) \<noteq> None)
   \<and> (\<exists>e \<in> set (mh_entries m). server_status m (sn_server e) = Healthy)
   \<and> (\<forall>s b. mh_breakers m s = Some b \<longrightarrow> cb_status b = Healthy \<longrightarrow> length (cb_failures b) < FAIL_THRESHOLD)
   \<and> distinct (mh_seen_order m) \<and> Mapping.keys (mh_seen_events m) = set (mh_seen_order m)
   \<and> length (mh_seen_order m) \<le> MAX_SEEN_EVENTS"

lemma set_minus_take:
  assumes "distinct xs"
  shows "set xs - set (take n xs) = set (drop n xs)"
proof -
  have "distinct (take n xs @ drop n xs)" using assms by (simp only: append_take_drop_id)
  then have "set (take n xs) \<inter> set (drop n xs) = {}" unfolding distinct_append by blast
  moreover have "set xs = set (take n xs) \<union> set (drop n xs)" by (metis append_take_drop_id set_append)
  ultimately show ?thesis by auto
qed

lemma keys_fold_delete: "Mapping.keys (fold Mapping.delete ks mp) = Mapping.keys mp - set ks"
  by (induction ks arbitrary: mp) auto

text \<open>The effect of a look-up when there is enough to evict.\<close>

definition seen_step :: "instant \<Rightarrow> str \<Rightarrow> 'cl MultiHsClient \<Rightarrow> bool \<times> 'cl MultiHsClient" where
  "seen_step now event_id m =
     (if is_single_server m then (False, m)
      else if event_id \<in> Mapping.keys (mh_seen_events m) then (True, m)
      else
        (let seen = Mapping.update event_id now (mh_seen_events m);
             order = mh_seen_order m @ [event_id]
         in if MAX_SEEN_EVENTS < Mapping.size seen
            then (False, m\<lparr>mh_seen_events := fold Mapping.delete (take EVICT_BATCH order) seen,
                           mh_seen_order := drop EVICT_BATCH order\<rparr>)
            else (False, m\<lparr>mh_seen_events := seen, mh_seen_order := order\<rparr>)))"

lemma is_duplicate_total:
  assumes "hs_ok m"
  shows "is_duplicate now i m = Some (seen_step now i m)"
proof -
  have "Mapping.size (Mapping.update i now (mh_seen_events m)) \<le> length (mh_seen_order m @ [i])"
    using assms card_length [of "mh_seen_order m @ [i]"] by (simp add: Mapping.size_def hs_ok_def)
  then show ?thesis
    by (auto simp: is_duplicate_def seen_step_def drain_front_def Let_def MAX_SEEN_EVENTS_def EVICT_BATCH_def)
qed

lemma is_duplicate_fields:
  assumes "is_duplicate now i m = Some (d, m')"
  shows "mh_entries m' = mh_entries m" and "mh_preferred_index m' = mh_preferred_index m"
    and "mh_breakers m' = mh_breakers m"
  using assms by (auto simp: is_duplicate_def drain_front_def Let_def split: if_splits)

lemma seen_step_order:
  assumes "hs_ok m" and "\<not> is_single_server m"
  shows "seen_step now i m =
     (if i \<in> set (mh_seen_order m) then (True, m)
      else (False, snd (seen_step now i m)))"
    and "mh_seen_order (snd (seen_step now i m)) =
     (if i \<in> set (mh_seen_order m) then mh_seen_order m
      else if length (mh_seen_order m) = MAX_SEEN_EVENTS then drop EVICT_BATCH (mh_seen_order m @ [i])
      else mh_seen_order m @ [i])"
    and "Mapping.keys (mh_seen_events (snd (seen_step now i m))) = set (mh_seen_order (snd (seen_step now i m)))"
proof -
  let ?order = "mh_seen_order m @ [i]" and ?seen = "Mapping.update i now (mh_seen_events m)"
  have keys: "Mapping.keys (mh_seen_events m) = set (mh_seen_order m)" and dist: "distinct (mh_seen_order m)"
    and len: "length (mh_seen_order m) \<le> MAX_SEEN_EVENTS" using assms(1) by (auto simp: hs_ok_def)
  have full: "MAX_SEEN_EVENTS < Mapping.size ?seen \<longleftrightarrow> length (mh_seen_order m) = MAX_SEEN_EVENTS"
    if "i \<notin> set (mh_seen_order m)"
    using that len dist by (auto simp: Mapping.size_def keys distinct_card card_insert_if)
  have rest: "set ?order - set (take EVICT_BATCH ?order) = set (drop EVICT_BATCH ?order)"
    if "i \<notin> set (mh_seen_order m)"
    by (rule set_minus_take) (use that dist in simp)
  show "seen_step now i m =
     (if i \<in> set (mh_seen_order m) then (True, m) else (False, snd (seen_step now i m)))"
    using assms(2) by (auto simp: seen_step_def Let_def keys)
  show "mh_seen_order (snd (seen_step now i m)) =
     (if i \<in> set (mh_seen_order m) then mh_seen_order m
      else if length (mh_seen_order m) = MAX_SEEN_EVENTS then drop EVICT_BATCH ?order else ?order)"
    using assms(2) full by (auto simp: seen_step_def Let_def keys)
  show "Mapping.keys (mh_seen_events (snd (seen_step now i m))) = set (mh_seen_order (snd (seen_step now i m)))"
    using assms(2) rest by (auto simp: seen_step_def Let_def keys keys_fold_delete)
qed

lemma hs_ok_is_duplicate:
  assumes "hs_ok m" and "is_duplicate now i m = Some (d, m')"
  shows "hs_ok m'"
proof (cases "is_single_server m")
  case True
  with assms show ?thesis by (auto simp: is_duplicate_def)
next
  case False
  have m': "m' = snd (seen_step now i m)" using assms(2) by (simp add: is_duplicate_total [OF assms(1)])
  note order = seen_step_order [OF assms(1) False, of now i]
  have "distinct (mh_seen_order m')" and "length (mh_seen_order m') \<le> MAX_SEEN_EVENTS"
    using assms(1) by (auto simp: m' order(2) hs_ok_def MAX_SEEN_EVENTS_def EVICT_BATCH_def dest: in_set_dropD)
  with assms(1) is_duplicate_fields [OF assms(2)] order(3) show ?thesis
    by (simp add: hs_ok_def server_status_def m')
qed

subsection \<open>Steps of the pool\<close>

lemma hs_ok_breaker:
  "hs_ok m \<Longrightarrow> i < length (mh_entries m) \<Longrightarrow> \<exists>b. mh_breakers m (sn_server (mh_entries m ! i)) = Some b"
  unfolding hs_ok_def by (meson not_Some_eq nth_mem)

lemma record_success_ok:
  assumes "hs_ok m" and "i < length (mh_entries m)"
  shows "\<exists>m'. record_success i m = Some m' \<and> hs_ok m' \<and> mh_entries m' = mh_entries m
    \<and> mh_preferred_index m' = mh_preferred_index m \<and> mh_seen_order m' = mh_seen_order m
    \<and> (\<not> is_single_server m \<longrightarrow> (\<forall>s. server_status m' s =
         (if s = sn_server (mh_entries m ! i) then Healthy else server_status m s)))"
proof (cases "is_single_server m")
  case True
  with assms show ?thesis by (simp add: record_success_def)
next
  case False
  let ?s = "sn_server (mh_entries m ! i)"
  obtain b where b: "mh_breakers m ?s = Some b" using hs_ok_breaker [OF assms] by auto
  define m' where "m' = m\<lparr>mh_breakers := (mh_breakers m)(?s \<mapsto> breaker_new)\<rparr>"
  have "b\<lparr>cb_failures := [], cb_status := Healthy\<rparr> = breaker_new"
    by (simp add: breaker_new_def)
  moreover have "cb_status b \<noteq> Down \<Longrightarrow> b\<lparr>cb_failures := []\<rparr> = breaker_new"
    by (cases b; cases "cb_status b") (auto simp: breaker_new_def)
  ultimately have "record_success i m = Some m'"
    using False assms(2) b by (auto simp: record_success_def Let_def m'_def)
  moreover have "server_status m' s = (if s = ?s then Healthy else server_status m s)" for s
    by (simp add: server_status_def m'_def breaker_new_def)
  moreover have "hs_ok m'"
    using assms calculation(2) by (auto simp: hs_ok_def m'_def breaker_new_def FAIL_THRESHOLD_def)
  ultimately show ?thesis by (auto simp: m'_def)
qed

lemma not_Down: "st \<noteq> Down \<longleftrightarrow> st = Healthy"
  by (cases st) simp_all

lemma record_failure_eq:
  assumes "\<not> is_single_server m" and "i < length (mh_entries m)" and "mh_preferred_index m < length (mh_entries m)"
    and "s = sn_server (mh_entries m ! i)"
    and "mh_breakers m s = Some b" and "fs = filter (\<lambda>t. now - t < FAIL_WINDOW) (cb_failures b) @ [now]"
    and "m1 = m\<lparr>mh_breakers := (mh_breakers m)(s \<mapsto> b\<lparr>cb_failures := fs\<rparr>)\<rparr>"
    and "m2 = m\<lparr>mh_breakers := (mh_breakers m)(s \<mapsto> b\<lparr>cb_failures := fs, cb_status := Down\<rparr>)\<rparr>"
  shows "record_failure now i m = Some
     (if FAIL_THRESHOLD \<le> length fs then
        if all_failing m1 then reset_breakers m1
        else if i = mh_preferred_index m then failed_over m2 else m2
      else m1)"
  using assms by (simp add: record_failure_def trigger_failover_total Let_def)

text \<open>The three outcomes of a failure: it is counted, it resets all breakers, or it trips one.\<close>

lemma record_failure_cases:
  assumes "hs_ok m" and "i < length (mh_entries m)"
  obtains (single) "is_single_server m" "record_failure now i m = Some m"
  | (counted) b where "record_failure now i m = Some (m\<lparr>mh_breakers := (mh_breakers m)(sn_server (mh_entries m ! i) \<mapsto> b)\<rparr>)"
      "length (cb_failures b) < FAIL_THRESHOLD" "cb_status b = server_status m (sn_server (mh_entries m ! i))"
  | (reset) m' where "record_failure now i m = Some m'" "mh_entries m' = mh_entries m"
      "mh_preferred_index m' = mh_preferred_index m" "mh_seen_order m' = mh_seen_order m"
      "mh_seen_events m' = mh_seen_events m"
      "mh_breakers m' = (\<lambda>s. map_option (\<lambda>_. breaker_new) (mh_breakers m s))"
  | (tripped) b m2 where "m2 = m\<lparr>mh_breakers := (mh_breakers m)(sn_server (mh_entries m ! i) \<mapsto> b)\<rparr>"
      "cb_status b = Down" "\<exists>e \<in> set (mh_entries m). server_status m2 (sn_server e) = Healthy"
      "record_failure now i m = Some (if i = mh_preferred_index m then failed_over m2 else m2)"
proof (cases "is_single_server m")
  case True
  then show thesis by (intro single) (auto simp: record_failure_def)
next
  case False
  let ?s = "sn_server (mh_entries m ! i)"
  obtain b where b: "mh_breakers m ?s = Some b" using hs_ok_breaker [OF assms] by auto
  define b1 where "b1 = b\<lparr>cb_failures := filter (\<lambda>t. now - t < FAIL_WINDOW) (cb_failures b) @ [now]\<rparr>"
  define m1 where "m1 = m\<lparr>mh_breakers := (mh_breakers m)(?s \<mapsto> b1)\<rparr>"
  define m2 where "m2 = m\<lparr>mh_breakers := (mh_breakers m)(?s \<mapsto> b1\<lparr>cb_status := Down\<rparr>)\<rparr>"
  have step: "record_failure now i m = Some
     (if FAIL_THRESHOLD \<le> length (cb_failures b1) then
        if all_failing m1 then reset_breakers m1
        else if i = mh_preferred_index m then failed_over m2 else m2
      else m1)"
    by (rule record_failure_eq [OF False assms(2) _ refl b]) (use assms(1) in \<open>simp_all add: hs_ok_def b1_def m1_def m2_def\<close>)
  consider "length (cb_failures b1) < FAIL_THRESHOLD"
    | "FAIL_THRESHOLD \<le> length (cb_failures b1)" "all_failing m1"
    | "FAIL_THRESHOLD \<le> length (cb_failures b1)" "\<not> all_failing m1" by linarith
  then show thesis
  proof cases
    case 1
    have "cb_status b1 = server_status m ?s" by (simp add: b1_def server_status_def b)
    with 1 step show thesis by (intro counted [of b1]) (auto simp: m1_def)
  next
    case 2
    have "mh_breakers (reset_breakers m1) = (\<lambda>s. map_option (\<lambda>_. breaker_new) (mh_breakers m s))"
      using b by (auto simp: reset_breakers_def m1_def)
    with 2 step show thesis by (intro reset [of "reset_breakers m1"]) (auto simp: m1_def reset_breakers_def)
  next
    case 3
    then obtain e where e: "e \<in> set (mh_entries m)" "sn_server e \<noteq> ?s"
        "case mh_breakers m (sn_server e) of Some b \<Rightarrow> cb_status b \<noteq> Down | None \<Rightarrow> True"
      by (auto simp: all_failing_def list_all_iff m1_def split: option.splits if_splits)
    then have "server_status m2 (sn_server e) = Healthy"
      using not_Down by (auto simp: server_status_def m2_def split: option.splits)
    with e(1) 3 step show thesis by (intro tripped [of m2 "b1\<lparr>cb_status := Down\<rparr>"]) (auto simp: m2_def)
  qed
qed

lemma failed_over_fields [simp]:
  "mh_entries (failed_over m) = mh_entries m" "mh_breakers (failed_over m) = mh_breakers m"
  "mh_seen_order (failed_over m) = mh_seen_order m" "mh_seen_events (failed_over m) = mh_seen_events m"
  by (rule failed_over_cases [of m]; simp)+

lemma failed_over_preferred:
  "mh_preferred_index m < length (mh_entries m) \<Longrightarrow>
   mh_preferred_index (failed_over m) < length (mh_entries m)"
  by (rule failed_over_cases [of m]) simp_all

lemma record_failure_ok:
  assumes "hs_ok m" and "i < length (mh_entries m)"
  shows "\<exists>m'. record_failure now i m = Some m' \<and> hs_ok m' \<and> mh_entries m' = mh_entries m
    \<and> mh_seen_order m' = mh_seen_order m"
  using assms
proof (cases rule: record_failure_cases [where now = now])
  case single
  with assms(1) show ?thesis by simp
next
  case (counted b)
  obtain e where "e \<in> set (mh_entries m)" "server_status m (sn_server e) = Healthy"
    using assms(1) by (auto simp: hs_ok_def)
  then have "\<exists>e \<in> set (mh_entries m).
      server_status (m\<lparr>mh_breakers := (mh_breakers m)(sn_server (mh_entries m ! i) \<mapsto> b)\<rparr>) (sn_server e) = Healthy"
    using counted(3) by (intro bexI [of _ e]) (auto simp: server_status_def)
  with assms(1) counted show ?thesis by (auto simp: hs_ok_def)
next
  case (reset m')
  have "mh_entries m \<noteq> []" using assms(2) by auto
  then have "\<exists>e \<in> set (mh_entries m'). server_status m' (sn_server e) = Healthy"
    by (intro bexI [of _ "hd (mh_entries m)"])
      (auto simp: server_status_def reset breaker_new_def split: option.splits)
  with assms(1) reset show ?thesis by (auto simp: hs_ok_def breaker_new_def FAIL_THRESHOLD_def)
next
  case (tripped b m2)
  have "hs_ok m2" using assms(1) tripped(1-3) by (auto simp: hs_ok_def)
  moreover from this have "hs_ok (failed_over m2)"
    using failed_over_preferred [of m2] by (auto simp: hs_ok_def server_status_def)
  ultimately show ?thesis using tripped(1,4) by auto
qed

text \<open>
  Every operation is a sequence of recorded outcomes and of looked-up event ids, and a server is
  contacted only if it is preferred or not down.
\<close>

definition may_contact :: "'cl MultiHsClient \<Rightarrow> nat \<Rightarrow> bool" where
  "may_contact m i \<longleftrightarrow> i < length (mh_entries m)
     \<and> (i = mh_preferred_index m \<or> server_status m (sn_server (mh_entries m ! i)) \<noteq> Down)"

inductive hs_step :: "'cl MultiHsClient \<Rightarrow> 'cl MultiHsClient \<Rightarrow> bool" where
  success: "may_contact m i \<Longrightarrow> record_success i m = Some m' \<Longrightarrow> hs_step m m'"
| failure: "may_contact m i \<Longrightarrow> record_failure now i m = Some m' \<Longrightarrow> hs_step m m'"
| looked_up: "is_duplicate now event_id m = Some (d, m') \<Longrightarrow> hs_step m m'"

lemma hs_step_ok: "hs_step m m' \<Longrightarrow> hs_ok m \<Longrightarrow> hs_ok m' \<and> mh_entries m' = mh_entries m"
proof (induction rule: hs_step.induct)
  case (success m i m')
  then show ?case using record_success_ok [of m i] by (auto simp: may_contact_def)
next
  case (failure m i now m')
  then show ?case using record_failure_ok [of m i now] by (auto simp: may_contact_def)
next
  case (looked_up now event_id m d m')
  then show ?case using hs_ok_is_duplicate is_duplicate_fields by blast
qed

lemma hs_steps_ok: "hs_step\<^sup>*\<^sup>* m m' \<Longrightarrow> hs_ok m \<Longrightarrow> hs_ok m' \<and> mh_entries m' = mh_entries m"
  by (induction rule: rtranclp_induct) (auto dest: hs_step_ok)

lemma success_step:
  assumes "hs_ok m" and "may_contact m i"
  shows "\<exists>m'. record_success i m = Some m' \<and> hs_step m m'"
proof -
  have "i < length (mh_entries m)" using assms(2) by (simp add: may_contact_def)
  then show ?thesis using record_success_ok [OF assms(1)] hs_step.success [OF assms(2)] by blast
qed

lemma failure_step:
  assumes "hs_ok m" and "may_contact m i"
  shows "\<exists>m'. record_failure now i m = Some m' \<and> hs_step m m'"
proof -
  have "i < length (mh_entries m)" using assms(2) by (simp add: may_contact_def)
  then show ?thesis using record_failure_ok [OF assms(1)] hs_step.failure [OF assms(2)] by blast
qed

lemma with_preferred_steps:
  assumes "hs_ok m"
  shows "\<exists>r m'. with_preferred call now m = Some (r, m') \<and> hs_step m m'"
proof -
  let ?i = "mh_preferred_index m"
  have i: "may_contact m ?i" using assms by (simp add: may_contact_def hs_ok_def)
  show ?thesis
    using success_step [OF assms i] failure_step [OF assms i, of now] i
    by (cases "call (sn_client (mh_entries m ! ?i))") (auto simp: with_preferred_def Let_def may_contact_def)
qed

lemma deliver_steps:
  "hs_ok m \<Longrightarrow> \<exists>out m'. deliver event_id now evs m = Some (out, m') \<and> hs_step\<^sup>*\<^sup>* m m'"
proof (induction evs arbitrary: m)
  case (Cons ev evs)
  show ?case
  proof (cases "event_id ev")
    case None
    with Cons show ?thesis by fastforce
  next
    case (Some i)
    obtain d m1 where d: "is_duplicate now i m = Some (d, m1)"
      using is_duplicate_total [OF Cons.prems, of now i] by (cases "seen_step now i m") auto
    then have step: "hs_step m m1" by (rule hs_step.looked_up)
    obtain out m' where "deliver event_id now evs m1 = Some (out, m')" "hs_step\<^sup>*\<^sup>* m1 m'"
      using Cons.IH [of m1] hs_step_ok [OF step Cons.prems] by auto
    with Some d step show ?thesis by (auto intro: converse_rtranclp_into_rtranclp)
  qed
qed simp

lemma find_space_loop_steps:
  assumes "hs_ok m" and "\<forall>i \<in> set is. i < length (mh_entries m)"
  shows "\<exists>t m'. find_space_loop net clk is m = Some (t, m') \<and> hs_step\<^sup>*\<^sup>* m m'"
  using assms
proof (induction "is" arbitrary: m)
  case (Cons i "is")
  show ?case
  proof (cases "server_status m (sn_server (mh_entries m ! i)) = Down")
    case True
    with Cons show ?thesis by simp
  next
    case False
    have i: "i < length (mh_entries m)" using Cons.prems by simp
    with False have c: "may_contact m i" by (simp add: may_contact_def)
    obtain ms where s: "record_success i m = Some ms" "hs_step m ms" using success_step [OF Cons.prems(1) c] by auto
    obtain mf where f: "record_failure (clk i) i m = Some mf" "hs_step m mf"
      using failure_step [OF Cons.prems(1) c, of "clk i"] by auto
    have ih: "\<exists>t m'. find_space_loop net clk is m1 = Some (t, m') \<and> hs_step\<^sup>*\<^sup>* m m'" if "hs_step m m1" for m1
      using Cons.IH [of m1] hs_step_ok [OF that Cons.prems(1)] Cons.prems(2) that
      by (auto intro: converse_rtranclp_into_rtranclp)
    show ?thesis
      using False i s f ih [OF s(2)] ih [OF f(2)] by (auto split: sum.split option.split)
  qed
qed simp

lemma collect_loop_steps:
  assumes "hs_ok m" and "\<forall>i \<in> set is. i < length (mh_entries m)"
  shows "\<exists>evs m'. collect_loop event_id net clk is m = Some (evs, m') \<and> hs_step\<^sup>*\<^sup>* m m'"
  using assms
proof (induction "is" arbitrary: m)
  case (Cons i "is")
  show ?case
  proof (cases "server_status m (sn_server (mh_entries m ! i)) = Down")
    case True
    with Cons show ?thesis by simp
  next
    case False
    have i: "i < length (mh_entries m)" using Cons.prems by simp
    with False have c: "may_contact m i" by (simp add: may_contact_def)
    obtain ms where s: "record_success i m = Some ms" "hs_step m ms" using success_step [OF Cons.prems(1) c] by auto
    obtain mf where f: "record_failure (clk i) i m = Some mf" "hs_step m mf"
      using failure_step [OF Cons.prems(1) c, of "clk i"] by auto
    have ih: "\<exists>evs m'. collect_loop event_id net clk is m1 = Some (evs, m') \<and> hs_step\<^sup>*\<^sup>* m m'"
      if "hs_step\<^sup>*\<^sup>* m m1" for m1
      using Cons.IH [of m1] hs_steps_ok [OF that Cons.prems(1)] Cons.prems(2) that by (auto intro: rtranclp_trans)
    show ?thesis
    proof (cases "net (sn_client (mh_entries m ! i))")
      case (Inl e)
      with False i f ih [of mf] show ?thesis by auto
    next
      case (Inr evs)
      have "hs_ok ms" using hs_step_ok [OF s(2) Cons.prems(1)] by simp
      then obtain out m2 where d: "deliver event_id (clk i) evs ms = Some (out, m2)" "hs_step\<^sup>*\<^sup>* ms m2"
        using deliver_steps by blast
      from s(2) d(2) have "hs_step\<^sup>*\<^sup>* m m2" by (rule converse_rtranclp_into_rtranclp)
      from ih [OF this] show ?thesis using False s d(1) Inr i by auto
    qed
  qed
qed simp

text \<open>
  The calls a user of the pool makes, with the network's answers and the clock readings. The
  breaker operations are public too, with an index of the caller's choice.
\<close>

datatype ('cl, 'e, 'json) hs_call =
    Through_Preferred "'cl \<Rightarrow> ('e, 'json) result" instant
  | Find_Space "'cl \<Rightarrow> str \<Rightarrow> ('e, 'json option) result" "nat \<Rightarrow> instant" str
  | Collect "'json \<Rightarrow> str option" "'cl \<Rightarrow> str \<Rightarrow> duration \<Rightarrow> ('e, 'json list) result" "nat \<Rightarrow> instant" str duration
  | Look_Up instant str
  | Record_Failure instant nat
  | Record_Success nat

text \<open>A call and the event ids it hands out as new.\<close>

fun hs_apply ::
  "('cl, 'e, 'json) hs_call \<Rightarrow> 'cl MultiHsClient \<Rightarrow> (str list \<times> 'cl MultiHsClient) option" where
  "hs_apply (Through_Preferred net now) m = map_option (\<lambda>(_, m'). ([], m')) (with_preferred net now m)"
| "hs_apply (Find_Space net clk name) m = map_option (\<lambda>(_, m'). ([], m')) (find_launcher_space net clk name m)"
| "hs_apply (Collect event_id net clk room timeout) m =
     map_option (\<lambda>(r, m'). (case r of Inr evs \<Rightarrow> List.map_filter event_id evs | Inl _ \<Rightarrow> [], m'))
       (sync_and_collect_events event_id net clk room timeout m)"
| "hs_apply (Look_Up now event_id) m =
     map_option (\<lambda>(dup, m'). (if dup then [] else [event_id], m')) (is_duplicate now event_id m)"
| "hs_apply (Record_Failure now i) m = map_option (Pair []) (record_failure now i m)"
| "hs_apply (Record_Success i) m = map_option (Pair []) (record_success i m)"

fun hs_run ::
  "('cl, 'e, 'json) hs_call list \<Rightarrow> 'cl MultiHsClient \<Rightarrow> (str list \<times> 'cl MultiHsClient) option" where
  "hs_run [] m = Some ([], m)"
| "hs_run (c # cs) m =
     do { (out, m1) \<leftarrow> hs_apply c m; (outs, m2) \<leftarrow> hs_run cs m1; Some (out @ outs, m2) }"

fun records_at :: "('cl, 'e, 'json) hs_call \<Rightarrow> nat option" where
  "records_at (Record_Failure now i) = Some i"
| "records_at (Record_Success i) = Some i"
| "records_at _ = None"

lemma hs_apply_steps:
  assumes "hs_ok m" and "records_at c = None"
  shows "\<exists>out m'. hs_apply c m = Some (out, m') \<and> hs_step\<^sup>*\<^sup>* m m'"
proof -
  obtain e es where es: "mh_entries m = e # es" using assms by (cases "mh_entries m") (auto simp: hs_ok_def)
  show ?thesis
  proof (cases c)
    case (Through_Preferred net now)
    then show ?thesis using with_preferred_steps [OF assms(1), of net now] by auto
  next
    case (Find_Space net clk name)
    then show ?thesis
      using find_space_loop_steps [OF assms(1), of "[0..<length (mh_entries m)]" "\<lambda>c. net c name" clk] es
      by (auto simp: find_launcher_space_def split_beta)
  next
    case (Collect event_id net clk room timeout)
    then show ?thesis
      using collect_loop_steps [OF assms(1), of "[0..<length (mh_entries m)]" event_id "\<lambda>c. net c room timeout" clk] es
      by (auto simp: sync_and_collect_events_def split_beta)
  next
    case (Look_Up now event_id)
    obtain d m1 where d: "is_duplicate now event_id m = Some (d, m1)"
      using is_duplicate_total [OF assms(1), of now event_id] by (cases "seen_step now event_id m") auto
    with Look_Up hs_step.looked_up [OF d] show ?thesis by auto
  qed (use assms(2) in simp_all)
qed

lemma hs_run_steps:
  "hs_ok m \<Longrightarrow> list_all (\<lambda>c. records_at c = None) cs \<Longrightarrow>
   \<exists>out m'. hs_run cs m = Some (out, m') \<and> hs_step\<^sup>*\<^sup>* m m'"
proof (induction cs arbitrary: m)
  case (Cons c cs)
  obtain out m1 where m1: "hs_apply c m = Some (out, m1)" "hs_step\<^sup>*\<^sup>* m m1"
    using hs_apply_steps [OF Cons.prems(1), of c] Cons.prems(2) by auto
  with hs_steps_ok [OF m1(2) Cons.prems(1)] Cons.IH [of m1] Cons.prems(2) show ?case
    by (auto intro: rtranclp_trans)
qed simp

text \<open>A call panics only if it records an outcome of a server that the pool does not have.\<close>

definition out_of_range :: "'cl MultiHsClient \<Rightarrow> ('cl, 'e, 'json) hs_call \<Rightarrow> bool" where
  "out_of_range m c \<longleftrightarrow> \<not> is_single_server m
     \<and> (case records_at c of Some i \<Rightarrow> length (mh_entries m) \<le> i | None \<Rightarrow> False)"

lemma record_beyond:
  assumes "length (mh_entries m) \<le> i"
  shows "record_failure now i m = (if is_single_server m then Some m else None)"
    and "record_success i m = (if is_single_server m then Some m else None)"
  using assms by (simp_all add: record_failure_def record_success_def)

lemma out_of_range_entries:
  "mh_entries m' = mh_entries m \<Longrightarrow> out_of_range m' c = out_of_range m c"
  by (simp add: out_of_range_def is_single_server_def split: option.split)

text \<open>A call that panics, or that returns a well-formed pool of the same servers.\<close>

definition pool_outcome :: "'cl MultiHsClient \<Rightarrow> bool \<Rightarrow> (str list \<times> 'cl MultiHsClient) option \<Rightarrow> bool" where
  "pool_outcome m panics r \<longleftrightarrow>
     (case r of None \<Rightarrow> panics
      | Some (out, m') \<Rightarrow> \<not> panics \<and> hs_ok m' \<and> mh_entries m' = mh_entries m)"

lemma hs_apply_outcome:
  assumes "hs_ok m"
  shows "pool_outcome m (out_of_range m c) (hs_apply c m)"
proof (cases "records_at c")
  case None
  obtain out m1 where m1: "hs_apply c m = Some (out, m1)" "hs_step\<^sup>*\<^sup>* m m1"
    using hs_apply_steps [OF assms None] by blast
  from m1(1) hs_steps_ok [OF m1(2) assms] None show ?thesis by (simp add: pool_outcome_def out_of_range_def)
next
  case (Some i)
  show ?thesis
  proof (cases "i < length (mh_entries m)")
    case True
    obtain ms where s: "record_success i m = Some ms" "hs_ok ms" "mh_entries ms = mh_entries m"
      using record_success_ok [OF assms True] by blast
    obtain f where f: "record_failure now i m = Some (f now)" "hs_ok (f now)" "mh_entries (f now) = mh_entries m" for now
      using record_failure_ok [OF assms True] by metis
    from Some True s f show ?thesis by (cases c) (simp_all add: pool_outcome_def out_of_range_def)
  next
    case False
    with Some assms show ?thesis
      by (cases c; cases "is_single_server m") (simp_all add: pool_outcome_def out_of_range_def record_beyond)
  qed
qed

lemma hs_run_outcome: "hs_ok m \<Longrightarrow> pool_outcome m (list_ex (out_of_range m) cs) (hs_run cs m)"
proof (induction cs arbitrary: m)
  case Nil
  then show ?case by (simp add: pool_outcome_def)
next
  case (Cons c cs)
  note first = hs_apply_outcome [OF Cons.prems, of c]
  show ?case
  proof (cases "hs_apply c m")
    case None
    with first show ?thesis by (simp add: pool_outcome_def)
  next
    case (Some x)
    obtain out m1 where x: "x = (out, m1)" by (cases x)
    with Some first have ok: "\<not> out_of_range m c" "hs_ok m1" "mh_entries m1 = mh_entries m"
      by (simp_all add: pool_outcome_def)
    have "out_of_range m1 = (out_of_range m :: ('a, 'b, 'c) hs_call \<Rightarrow> bool)"
      by (rule ext) (rule out_of_range_entries [OF ok(3)])
    with Cons.IH [OF ok(2)] ok Some x show ?thesis
      by (cases "hs_run cs m1") (simp_all add: pool_outcome_def split_beta)
  qed
qed

subsection \<open>Guarantees\<close>

lemma min_by_latency_in:
  "snd x \<noteq> NaN \<Longrightarrow> \<forall>y \<in> set ys. snd y \<noteq> NaN \<Longrightarrow>
   \<exists>z \<in> set (x # ys). min_by_latency x ys = Some z
     \<and> (\<forall>y \<in> set (x # ys). f64_le (snd z) (snd y))"
proof (induction ys arbitrary: x)
  case (Cons y ys)
  obtain c where c: "partial_cmp (snd x) (snd y) = Some c" using Cons.prems by (auto simp: partial_cmp_def)
  let ?w = "if c = Greater then y else x"
  have "snd ?w \<noteq> NaN" using Cons.prems by simp
  from Cons.IH [OF this] Cons.prems(2) obtain z where z: "z \<in> set (?w # ys)" "min_by_latency ?w ys = Some z"
    "\<forall>v \<in> set (?w # ys). f64_le (snd z) (snd v)" by (meson list.set_intros(2))
  have "f64_le (snd ?w) (snd x) \<and> f64_le (snd ?w) (snd y)"
    using c Cons.prems f64_le_linear [of "snd x" "snd y"] by (auto simp: partial_cmp_def f64_lt_def split: if_splits)
  then have "f64_le (snd z) (snd x) \<and> f64_le (snd z) (snd y)" using z(3) f64_le_trans by (meson list.set_intros(1))
  with z c show ?case by (auto split: if_splits)
qed auto

lemma position_less: "position P xs = Some i \<Longrightarrow> i < length xs \<and> P (xs ! i)"
  by (induction xs arbitrary: i) (auto split: if_splits)

lemma select_preferred_less:
  assumes "es \<noteq> []" and "\<forall>e \<in> set es. sn_latency_ms e \<noteq> NaN"
  shows "\<exists>i. select_preferred p es = Some i \<and> i < length es"
proof (cases p)
  case None
  obtain x xs where x: "enumerate 0 (map sn_latency_ms es) = x # xs" using assms(1) by (cases es) auto
  have in_range: "fst y < length es \<and> snd y \<noteq> NaN" if "y \<in> set (x # xs)" for y
  proof -
    from that have "y \<in> set (enumerate 0 (map sn_latency_ms es))" by (simp only: x)
    then show ?thesis using assms(2) by (auto simp: in_set_enumerate_eq)
  qed
  have "snd x \<noteq> NaN" "\<forall>y \<in> set xs. snd y \<noteq> NaN" using in_range by simp_all
  from min_by_latency_in [OF this] obtain z where "z \<in> set (x # xs)" "min_by_latency x xs = Some z" by blast
  with None x in_range show ?thesis by (auto simp: select_preferred_def)
next
  case (Some s)
  with assms(1) show ?thesis
    by (cases "position (\<lambda>e. sn_server e = s) es") (auto simp: select_preferred_def dest: position_less)
qed

lemma init_breakers_lookup:
  "init_breakers es s = (if s \<in> sn_server ` set es then Some breaker_new else None)"
proof -
  have "fold (\<lambda>e b. b(sn_server e \<mapsto> breaker_new)) es bs s
      = (if s \<in> sn_server ` set es then Some breaker_new else bs s)" for bs
    by (induction es arbitrary: bs) auto
  then show ?thesis by (simp add: init_breakers_def)
qed

lemma from_entries_ok:
  assumes "es \<noteq> []" and "\<forall>e \<in> set es. sn_latency_ms e \<noteq> NaN"
  shows "\<exists>m. from_entries es p = Some m \<and> hs_ok m \<and> mh_entries m = es \<and> mh_seen_order m = []"
proof -
  obtain i where "select_preferred p es = Some i" "i < length es" using select_preferred_less [OF assms] by blast
  moreover have "\<exists>e. e \<in> set es" using assms(1) by (cases es) auto
  ultimately show ?thesis
    by (auto simp: from_entries_def hs_ok_def init_breakers_lookup breaker_new_def FAIL_THRESHOLD_def
        server_status_def MAX_SEEN_EVENTS_def)
qed

text \<open>
  C19. When a pool panics. Built from at least one client, none with a NaN latency, a pool
  survives every sequence of its sending, receiving, look-up and breaker calls, whatever the
  servers answer and whatever the clock says, with one exception: a pool of several servers
  panics exactly when a caller records an outcome for an index that it does not have. No index
  that the pool computes itself is out of range, and no eviction drains more than there is.
  Every pool that is reached is well-formed: the preferred index is in range, every server
  keeps a breaker, a healthy breaker is below the threshold, at least one server is healthy,
  and at most ten thousand distinct event ids are remembered, each once.
\<close>

theorem pool_never_panics:
  assumes "clients \<noteq> []" and "\<forall>(server, client, latency) \<in> set clients. latency \<noteq> NaN"
  shows "\<exists>m. from_clients clients pref = Some m \<and> hs_ok m
    \<and> (hs_run calls m = None \<longleftrightarrow>
         1 < length clients \<and> (\<exists>c \<in> set calls. \<exists>i. records_at c = Some i \<and> length clients \<le> i))
    \<and> (\<forall>out m'. hs_run calls m = Some (out, m') \<longrightarrow>
         hs_ok m' \<and> map sn_server (mh_entries m') = map fst clients)"
proof -
  let ?es = "map (\<lambda>(server, client, latency).
      \<lparr>sn_client = client, sn_server = server, sn_password = [], sn_latency_ms = latency\<rparr>) clients"
  have "\<forall>e \<in> set ?es. sn_latency_ms e \<noteq> NaN" using assms(2) by auto
  then obtain m where m: "from_clients clients pref = Some m" "hs_ok m" "mh_entries m = ?es"
    using from_entries_ok [of ?es pref] assms(1) by (auto simp: from_clients_def)
  have names: "map sn_server ?es = map fst clients" by (induction clients) auto
  have "list_ex (out_of_range m) calls \<longleftrightarrow>
      1 < length clients \<and> (\<exists>c \<in> set calls. \<exists>i. records_at c = Some i \<and> length clients \<le> i)"
    by (auto simp: list_ex_iff out_of_range_def is_single_server_def m(3) not_le split: option.splits)
  with hs_run_outcome [OF m(2), of calls] m names show ?thesis
    by (cases "hs_run calls m") (auto simp: pool_outcome_def)
qed

definition sample_clients :: "(str \<times> nat \<times> f64) list" where
  "sample_clients = [(''a'', 0, Num 20), (''b'', 1, Num 10), (''c'', 2, F64_MAX)]"

theorem pool_never_panics_witness:
  "\<exists>m. from_clients sample_clients None = Some m
    \<and> (\<exists>out m'. hs_run [Through_Preferred (\<lambda>_. Inl ()) 5, Look_Up 6 ''x'', Record_Success 2 :: (nat, unit, unit) hs_call] m
          = Some (out, m') \<and> hs_ok m')
    \<and> hs_run [Record_Success 3 :: (nat, unit, unit) hs_call] m = None"
proof -
  have ok: "sample_clients \<noteq> []" "\<forall>(server, client, latency) \<in> set sample_clients. latency \<noteq> NaN"
    by (simp_all add: sample_clients_def F64_MAX_def)
  let ?cs = "[Through_Preferred (\<lambda>_. Inl ()) 5, Look_Up 6 ''x'', Record_Success 2 :: (nat, unit, unit) hs_call]"
  obtain m where m: "from_clients sample_clients None = Some m" and run: "hs_run ?cs m \<noteq> None"
    and ok': "\<forall>out m'. hs_run ?cs m = Some (out, m') \<longrightarrow> hs_ok m'"
    using pool_never_panics [OF ok, of None ?cs] by (auto simp: sample_clients_def)
  moreover have "hs_run [Record_Success 3 :: (nat, unit, unit) hs_call] m = None"
    using pool_never_panics [OF ok, of None "[Record_Success 3 :: (nat, unit, unit) hs_call]"] m
    by (auto simp: sample_clients_def)
  ultimately show ?thesis by (cases "hs_run ?cs m") auto
qed

lemma all_failing_iff:
  assumes "hs_ok m" and "FAIL_THRESHOLD \<le> length (cb_failures b1)"
  shows "all_failing (m\<lparr>mh_breakers := (mh_breakers m)(s \<mapsto> b1)\<rparr>) \<longleftrightarrow>
    (\<forall>e \<in> set (mh_entries m). sn_server e = s \<or> server_status m (sn_server e) = Down)"
proof -
  have "(case mh_breakers m r of Some b \<Rightarrow> cb_status b = Down \<or> FAIL_THRESHOLD \<le> length (cb_failures b) | None \<Rightarrow> False)
      \<longleftrightarrow> server_status m r = Down" for r
  proof (cases "mh_breakers m r")
    case (Some b)
    then have "cb_status b = Healthy \<Longrightarrow> length (cb_failures b) < FAIL_THRESHOLD" using assms(1) by (auto simp: hs_ok_def)
    with Some show ?thesis using not_Down [of "cb_status b"] by (auto simp: server_status_def)
  qed (simp add: server_status_def)
  with assms(2) show ?thesis by (auto simp: all_failing_def list_all_iff)
qed

text \<open>The preferred server after a failover, in terms of the indices that qualify.\<close>

definition up_servers :: "'cl MultiHsClient \<Rightarrow> nat set" where
  "up_servers m = {j. j < length (mh_entries m) \<and> candidate_server m j (mh_entries m ! j)}"

lemma failed_over_best:
  "if up_servers m = {} then mh_preferred_index (failed_over m) = mh_preferred_index m
   else mh_preferred_index (failed_over m) \<in> up_servers m
     \<and> (\<forall>j \<in> up_servers m. f64_le (sn_latency_ms (mh_entries m ! mh_preferred_index (failed_over m)))
          (sn_latency_ms (mh_entries m ! j)))"
  by (rule failed_over_cases [of m]) (auto simp: up_servers_def)

lemma server_status_failover [simp]: "server_status (failed_over m) r = server_status m r"
  by (simp add: server_status_def)

text \<open>
  What a failure of the preferred server does. With fewer than five failures in the last
  five minutes it is only counted. Otherwise, if every other server is down already, all
  breakers are reset and the preferred server stays. Otherwise the server is marked down, and
  the preferred server becomes the fastest of the others that are up and whose first sync
  succeeded; if there is none, it stays.
\<close>

lemma failover_fastest:
  assumes "hs_ok m" and "\<not> is_single_server m"
    and "p = mh_preferred_index m" and "s = sn_server (mh_entries m ! p)" and "mh_breakers m s = Some b"
    and "record_failure now p m = Some m'"
    and "up = {j. j < length (mh_entries m) \<and> j \<noteq> p \<and> sn_server (mh_entries m ! j) \<noteq> s
           \<and> server_status m (sn_server (mh_entries m ! j)) = Healthy
           \<and> f64_lt (sn_latency_ms (mh_entries m ! j)) F64_MAX}"
  shows "if length (filter (\<lambda>t. now - t < FAIL_WINDOW) (cb_failures b)) < 4 then
           mh_preferred_index m' = p \<and> (\<forall>r. server_status m' r = server_status m r)
         else if \<forall>e \<in> set (mh_entries m). sn_server e = s \<or> server_status m (sn_server e) = Down then
           mh_preferred_index m' = p \<and> (\<forall>r. server_status m' r = Healthy)
         else (\<forall>r. server_status m' r = (if r = s then Down else server_status m r))
           \<and> (if up = {} then mh_preferred_index m' = p
              else mh_preferred_index m' \<in> up
                \<and> (\<forall>j \<in> up. f64_le (sn_latency_ms (mh_entries m ! mh_preferred_index m'))
                       (sn_latency_ms (mh_entries m ! j))))"
proof -
  define fs where "fs = filter (\<lambda>t. now - t < FAIL_WINDOW) (cb_failures b) @ [now]"
  define m1 where "m1 = m\<lparr>mh_breakers := (mh_breakers m)(s \<mapsto> b\<lparr>cb_failures := fs\<rparr>)\<rparr>"
  define m2 where "m2 = m\<lparr>mh_breakers := (mh_breakers m)(s \<mapsto> b\<lparr>cb_failures := fs, cb_status := Down\<rparr>)\<rparr>"
  have p: "p < length (mh_entries m)" using assms(1,3) by (simp add: hs_ok_def)
  have m': "m' = (if FAIL_THRESHOLD \<le> length fs then
        if all_failing m1 then reset_breakers m1 else failed_over m2 else m1)"
    using record_failure_eq [OF assms(2) p p [unfolded assms(3)] assms(4,5) fs_def m1_def m2_def] assms(3,6) by (auto split: if_splits)
  have few: "length (filter (\<lambda>t. now - t < FAIL_WINDOW) (cb_failures b)) < 4 \<longleftrightarrow> \<not> FAIL_THRESHOLD \<le> length fs"
    by (auto simp: fs_def FAIL_THRESHOLD_def)
  define down where "down \<longleftrightarrow> (\<forall>e \<in> set (mh_entries m). sn_server e = s \<or> server_status m (sn_server e) = Down)"
  have all: "all_failing m1 \<longleftrightarrow> down" if "FAIL_THRESHOLD \<le> length fs"
    unfolding m1_def down_def by (rule all_failing_iff [OF assms(1)]) (simp add: that)
  have st1: "server_status m1 r = server_status m r" for r
    using assms(5) by (simp add: m1_def server_status_def)
  have st2: "server_status m2 r = (if r = s then Down else server_status m r)" for r
    by (simp add: server_status_def m2_def)
  have up: "up_servers m2 = up"
    unfolding assms(7) up_servers_def candidate_server_def not_Down st2 assms(3) by (auto simp: m2_def)
  have pref: "mh_preferred_index m1 = p" "mh_preferred_index m2 = p" "mh_entries m2 = mh_entries m"
    using assms(3) by (simp_all add: m1_def m2_def)
  have reset: "mh_preferred_index (reset_breakers m1) = p" "server_status (reset_breakers m1) r = Healthy" for r
    by (simp_all add: pref reset_breakers_def server_status_def breaker_new_def split: option.split)
  note best = failed_over_best [of m2, unfolded up pref]
  show ?thesis
  proof (cases "FAIL_THRESHOLD \<le> length fs")
    case True
    with best show ?thesis unfolding down_def [symmetric] m' few by (cases down) (simp_all add: all st2 reset)
  next
    case False
    then show ?thesis by (simp add: m' few st1 pref)
  qed
qed

text \<open>A pool whose preferred server has failed four times within the window.\<close>

definition sample_pool :: "nat MultiHsClient" where
  "sample_pool =
     \<lparr>mh_entries = map (\<lambda>(s, c, l). \<lparr>sn_client = c, sn_server = s, sn_password = [], sn_latency_ms = l\<rparr>) sample_clients,
      mh_preferred_index = 1, mh_preferred_override = None,
      mh_breakers = [''a'' \<mapsto> breaker_new, ''b'' \<mapsto> \<lparr>cb_failures = [1, 2, 3, 4], cb_status = Healthy\<rparr>, ''c'' \<mapsto> breaker_new],
      mh_seen_events = Mapping.empty, mh_seen_order = [], mh_on_preferred_change = True, mh_changes = []\<rparr>"

lemma sample_pool_ok: "hs_ok sample_pool" "\<not> is_single_server sample_pool"
  by (auto simp: sample_pool_def sample_clients_def hs_ok_def is_single_server_def server_status_def breaker_new_def
      FAIL_THRESHOLD_def MAX_SEEN_EVENTS_def split: if_splits)

lemma failover_fastest_example:
  "\<exists>m'. record_failure 5 1 sample_pool = Some m' \<and> server_status m' ''b'' = Down \<and> mh_preferred_index m' = 0"
proof -
  obtain m' where m': "record_failure 5 1 sample_pool = Some m'"
    using record_failure_ok [OF sample_pool_ok(1), of 1 5] by (auto simp: sample_pool_def sample_clients_def)
  have up: "{0} = {j. j < length (mh_entries sample_pool) \<and> j \<noteq> 1 \<and> sn_server (mh_entries sample_pool ! j) \<noteq> ''b''
        \<and> server_status sample_pool (sn_server (mh_entries sample_pool ! j)) = Healthy
        \<and> f64_lt (sn_latency_ms (mh_entries sample_pool ! j)) F64_MAX}"
    by (auto simp: sample_pool_def sample_clients_def server_status_def breaker_new_def f64_lt_def F64_MAX_def
        less_Suc_eq)
  have p: "1 = mh_preferred_index sample_pool" "''b'' = sn_server (mh_entries sample_pool ! 1)"
    "mh_breakers sample_pool ''b'' = Some \<lparr>cb_failures = [1, 2, 3, 4], cb_status = Healthy\<rparr>"
    by (simp_all add: sample_pool_def sample_clients_def)
  have "(\<forall>e \<in> set (mh_entries sample_pool). sn_server e = ''b'' \<or> server_status sample_pool (sn_server e) = Down) = False"
    by (simp add: sample_pool_def sample_clients_def server_status_def breaker_new_def)
  from failover_fastest [OF sample_pool_ok p m' up, unfolded this] m' show ?thesis
    by (auto simp: FAIL_WINDOW_def from_secs_def)
qed

text \<open>The ids remembered are the newest of those reported as new, at least \<open>REMEMBERED\<close> of them.\<close>

definition REMEMBERED :: nat where
  "REMEMBERED = MAX_SEEN_EVENTS + 1 - EVICT_BATCH"

definition remembers :: "str list \<Rightarrow> 'cl MultiHsClient \<Rightarrow> bool" where
  "remembers out m \<longleftrightarrow>
     (\<exists>k. mh_seen_order m = drop k out \<and> (k = 0 \<or> REMEMBERED \<le> length out - k))
   \<and> (\<forall>i j. i < j \<longrightarrow> j < length out \<longrightarrow> j - i \<le> REMEMBERED \<longrightarrow> out ! i \<noteq> out ! j)"

lemma remembers_recent:
  assumes "remembers out m" and "i < length out" and "length out - i \<le> REMEMBERED"
  shows "out ! i \<in> set (mh_seen_order m)"
proof -
  obtain k where k: "mh_seen_order m = drop k out" "k = 0 \<or> REMEMBERED \<le> length out - k"
    using assms(1) by (auto simp: remembers_def)
  have "k \<le> i" using k(2) assms(2,3) by auto
  then have "out ! i = drop k out ! (i - k)" "i - k < length (drop k out)" using assms(2) by auto
  then show ?thesis unfolding k(1) by (metis nth_mem)
qed

lemma remembers_new:
  assumes "hs_ok m" and "\<not> is_single_server m" and "remembers out m" and "i \<notin> set (mh_seen_order m)"
  shows "remembers (out @ [i]) (snd (seen_step now i m))"
proof -
  obtain k where k: "mh_seen_order m = drop k out" "k = 0 \<or> REMEMBERED \<le> length out - k"
    using assms(3) by (auto simp: remembers_def)
  have bound: "length (drop k out) \<le> MAX_SEEN_EVENTS" using assms(1) k(1) by (auto simp: hs_ok_def)
  let ?full = "length (mh_seen_order m) = MAX_SEEN_EVENTS"
  let ?k = "if ?full then k + EVICT_BATCH else k"
  have "k \<le> length out" using k(2) by (auto simp: REMEMBERED_def MAX_SEEN_EVENTS_def EVICT_BATCH_def)
  then have app: "mh_seen_order m @ [i] = drop k (out @ [i])" by (simp add: k(1))
  then have "mh_seen_order (snd (seen_step now i m)) = drop ?k (out @ [i])"
    using seen_step_order(2) [OF assms(1,2), of now i] assms(4) unfolding app drop_drop
    by (simp add: add.commute del: drop_append)
  moreover have "?k = 0 \<or> REMEMBERED \<le> length (out @ [i]) - ?k"
    using k \<open>k \<le> length out\<close> by (auto simp: REMEMBERED_def MAX_SEEN_EVENTS_def EVICT_BATCH_def)
  moreover have "(out @ [i]) ! a \<noteq> (out @ [i]) ! b"
    if "a < b" "b < length (out @ [i])" "b - a \<le> REMEMBERED" for a b
  proof (cases "b = length out")
    case True
    then show ?thesis using remembers_recent [OF assms(3), of a] that assms(4) by (auto simp: nth_append)
  next
    case False
    then show ?thesis using that assms(3) by (auto simp: remembers_def nth_append)
  qed
  ultimately show ?thesis unfolding remembers_def by blast
qed

lemma remembers_start: "hs_ok m \<Longrightarrow> remembers (mh_seen_order m) m"
  by (auto simp: remembers_def hs_ok_def nth_eq_iff_index_eq intro: exI [of _ 0])

text \<open>A pool of several servers with the ids it has handed out so far.\<close>

definition has_handed :: "str list \<Rightarrow> 'cl MultiHsClient \<Rightarrow> bool" where
  "has_handed hist m \<longleftrightarrow> hs_ok m \<and> \<not> is_single_server m \<and> remembers hist m"

lemma handed_same_order:
  "has_handed hist m \<Longrightarrow> hs_ok m' \<Longrightarrow> mh_entries m' = mh_entries m \<Longrightarrow> mh_seen_order m' = mh_seen_order m \<Longrightarrow>
   has_handed hist m'"
  by (simp add: has_handed_def is_single_server_def remembers_def)

lemma handed_success:
  assumes "has_handed hist m" and "record_success i m = Some m'"
  shows "has_handed hist m'"
proof -
  have "i < length (mh_entries m)"
    using assms by (auto simp: has_handed_def record_success_def split: if_splits)
  then show ?thesis
    using record_success_ok [of m i] assms handed_same_order [OF assms(1)] by (auto simp: has_handed_def)
qed

lemma handed_failure:
  assumes "has_handed hist m" and "record_failure now i m = Some m'"
  shows "has_handed hist m'"
proof -
  have "i < length (mh_entries m)"
    using assms by (auto simp: has_handed_def record_failure_def split: if_splits)
  then show ?thesis
    using record_failure_ok [of m i now] assms handed_same_order [OF assms(1)] by (auto simp: has_handed_def)
qed

lemma handed_lookup:
  assumes "has_handed hist m" and "is_duplicate now i m = Some (d, m')"
  shows "has_handed (hist @ (if d then [] else [i])) m'" and "d \<Longrightarrow> i \<in> set hist"
proof -
  have ok: "hs_ok m" "\<not> is_single_server m" "remembers hist m" using assms(1) by (simp_all add: has_handed_def)
  have dm: "seen_step now i m = (d, m')" using assms(2) by (simp add: is_duplicate_total [OF ok(1)])
  have multi: "\<not> is_single_server m'" using ok(2) is_duplicate_fields [OF assms(2)] by (simp add: is_single_server_def)
  have old: "d \<longleftrightarrow> i \<in> set (mh_seen_order m)" "d \<Longrightarrow> m' = m"
    using seen_step_order(1) [OF ok(1,2), of now i] unfolding dm by (auto split: if_splits)
  then show "d \<Longrightarrow> i \<in> set hist" using ok(3) by (auto simp: remembers_def dest: in_set_dropD)
  show "has_handed (hist @ (if d then [] else [i])) m'"
    using remembers_new [OF ok, of i now] old ok multi hs_ok_is_duplicate [OF ok(1) assms(2)] dm
    by (auto simp: has_handed_def)
qed

lemma handed_deliver:
  assumes "has_handed hist m" and "deliver event_id now evs m = Some (out, m')"
  shows "has_handed (hist @ List.map_filter event_id out) m' \<and> subseq out evs
    \<and> (\<forall>ev \<in> set evs. ev \<in> set out
         \<or> (\<exists>i. event_id ev = Some i \<and> i \<in> set hist \<union> set (List.map_filter event_id out)))"
  using assms
proof (induction evs arbitrary: hist m out)
  case (Cons ev evs)
  show ?case
  proof (cases "event_id ev")
    case None
    with Cons.prems(2) obtain out' where "deliver event_id now evs m = Some (out', m')" "out = ev # out'"
      by auto
    with Cons.IH [OF Cons.prems(1)] None show ?thesis by (auto simp: List.map_filter_def)
  next
    case (Some i)
    with Cons.prems(2) obtain d m1 out' where d: "is_duplicate now i m = Some (d, m1)"
      and out': "deliver event_id now evs m1 = Some (out', m')" "out = (if d then out' else ev # out')"
      by (auto split: bind_splits)
    note step = handed_lookup [OF Cons.prems(1) d]
    from Cons.IH [OF step(1) out'(1)] step(2) Some out'(2) show ?thesis
      by (cases d) (auto simp: List.map_filter_def)
  qed
qed (simp add: List.map_filter_def)

lemma handed_find_space:
  "has_handed hist m \<Longrightarrow> find_space_loop net clk is m = Some (t, m') \<Longrightarrow> has_handed hist m'"
  by (induction "is" arbitrary: m)
    (auto split: if_splits sum.splits option.splits bind_splits dest: handed_success handed_failure)

lemma handed_collect:
  "has_handed hist m \<Longrightarrow> collect_loop event_id net clk is m = Some (out, m') \<Longrightarrow>
   has_handed (hist @ List.map_filter event_id out) m'"
proof (induction "is" arbitrary: hist m out)
  case (Cons i "is")
  obtain e where e: "entry_at m i = Some e" using Cons.prems(2) by (cases "entry_at m i") auto
  show ?case
  proof (cases "server_status m (sn_server e) = Down")
    case True
    with Cons e show ?thesis by simp
  next
    case False
    show ?thesis
    proof (cases "net (sn_client e)")
      case (Inl err)
      with Cons e False show ?thesis by (auto split: bind_splits dest: handed_failure)
    next
      case (Inr evs)
      with Cons.prems(2) e False obtain m1 out1 m2 out2 where
        parts: "record_success i m = Some m1" "deliver event_id (clk i) evs m1 = Some (out1, m2)"
          "collect_loop event_id net clk is m2 = Some (out2, m')" "out = out1 @ out2"
        by (auto split: bind_splits)
      from handed_deliver [OF handed_success [OF Cons.prems(1) parts(1)] parts(2)]
      have "has_handed (hist @ List.map_filter event_id out1) m2" by simp
      from Cons.IH [OF this parts(3)] parts(4) show ?thesis by (simp add: List.map_filter_def)
    qed
  qed
qed (simp add: List.map_filter_def)

lemma handed_apply:
  assumes "has_handed hist m" and "hs_apply c m = Some (out, m')"
  shows "has_handed (hist @ out) m'"
proof -
  have multi: "\<not> is_single_server m" using assms(1) by (simp add: has_handed_def)
  show ?thesis
  proof (cases c)
    case (Through_Preferred net now)
    with assms show ?thesis
      by (auto simp: with_preferred_def Let_def split: if_splits sum.splits dest: handed_success handed_failure)
  next
    case (Find_Space net clk name)
    with assms multi show ?thesis by (auto simp: find_launcher_space_def dest: handed_find_space)
  next
    case (Collect event_id net clk room timeout)
    with assms multi show ?thesis by (auto simp: sync_and_collect_events_def dest: handed_collect)
  next
    case (Look_Up now event_id)
    with assms(2) obtain d where "is_duplicate now event_id m = Some (d, m')" "out = (if d then [] else [event_id])"
      by auto
    with handed_lookup(1) [OF assms(1)] show ?thesis by simp
  qed (use assms in \<open>auto dest: handed_success handed_failure\<close>)
qed

lemma handed_run:
  "has_handed hist m \<Longrightarrow> hs_run cs m = Some (out, m') \<Longrightarrow> has_handed (hist @ out) m'"
proof (induction cs arbitrary: hist m out)
  case (Cons c cs)
  then obtain out1 m1 out2 where "hs_apply c m = Some (out1, m1)" "hs_run cs m1 = Some (out2, m')" "out = out1 @ out2"
    by (auto split: bind_splits)
  with Cons.IH [OF handed_apply [OF Cons.prems(1)]] show ?case by auto
qed simp

text \<open>
  C22. Deduplication in a well-formed pool of several servers, whatever it has seen before. Over
  any sequence of its calls, put the ids it remembers at the start and the ids of the events it
  then hands out (or reports as new) in one line: no two that are at most 8001 positions apart
  are equal, so that an id is forgotten only after 8001 newer ones. The memory holds at most
  ten thousand ids at the end, as a map and as a queue. And deduplication loses nothing: of the
  events of one server it hands out a subsequence, and each event that is left out carries an
  id that is remembered or among those handed out.
\<close>

theorem no_redelivery:
  assumes "hs_ok m" and "\<not> is_single_server m"
    and "hs_run calls m = Some (out, m')" and "hist = mh_seen_order m @ out"
    and "deliver event_id now evs m = Some (del, m1)"
  shows "(\<forall>i j. i < j \<longrightarrow> j < length hist \<longrightarrow> j - i \<le> 8001 \<longrightarrow> hist ! i \<noteq> hist ! j)
    \<and> Mapping.size (mh_seen_events m') \<le> 10000 \<and> length (mh_seen_order m') \<le> 10000
    \<and> subseq del evs
    \<and> (\<forall>ev \<in> set evs. ev \<in> set del
         \<or> (\<exists>i. event_id ev = Some i \<and> i \<in> set (mh_seen_order m) \<union> set (List.map_filter event_id del)))"
proof -
  have start: "has_handed (mh_seen_order m) m"
    using assms(1,2) by (simp add: has_handed_def remembers_start)
  have "hs_ok m'" and "remembers hist m'"
    using handed_run [OF start assms(3)] by (simp_all add: has_handed_def assms(4))
  moreover have "Mapping.size (mh_seen_events m') = length (mh_seen_order m')"
    using \<open>hs_ok m'\<close> by (simp add: hs_ok_def Mapping.size_def distinct_card)
  ultimately show ?thesis
    using handed_deliver [OF start assms(5)]
    by (simp add: remembers_def REMEMBERED_def MAX_SEEN_EVENTS_def EVICT_BATCH_def hs_ok_def)
qed

text \<open>The same event from two servers, in two rounds.\<close>

theorem no_redelivery_witness:
  "let round = Collect (\<lambda>ev. Some ev) (\<lambda>c r t. Inr [''x'', ''y'']) (\<lambda>_. 5) ''!r'' 1 :: (nat, unit, str) hs_call
   in \<exists>out m'. hs_run [round, round] sample_pool = Some (out, m') \<and> distinct (take 2 out)
     \<and> Mapping.size (mh_seen_events m') \<le> 10000"
proof -
  let ?r = "Collect (\<lambda>ev. Some ev) (\<lambda>c r t. Inr [''x'', ''y'']) (\<lambda>_. 5) ''!r'' 1 :: (nat, unit, str) hs_call"
  have none: "list_all (\<lambda>c. records_at c = None) [?r, ?r]" by simp
  obtain out m' where run: "hs_run [?r, ?r] sample_pool = Some (out, m')"
    using hs_run_steps [OF sample_pool_ok(1) none] by auto
  obtain del m1 where del: "deliver (\<lambda>ev. Some ev) 5 [''x'', ''x''] sample_pool = Some (del, m1)"
    using deliver_steps [OF sample_pool_ok(1), of "\<lambda>ev. Some ev" 5 "[''x'', ''x'']"] by auto
  note bound = no_redelivery [OF sample_pool_ok run refl del]
  have "distinct (take 2 out)"
    using conjunct1 [OF bound, rule_format, of 0 1] by (cases out; cases "tl out") (auto simp: sample_pool_def)
  with run bound show ?thesis by (auto simp: Let_def)
qed

text \<open>A down server that is not preferred: one step leaves it so, or resets every breaker.\<close>

definition shunned :: "str \<Rightarrow> 'cl MultiHsClient \<Rightarrow> bool" where
  "shunned s m \<longleftrightarrow> server_status m s = Down \<and> preferred_server m \<noteq> Some s"

lemma shunned_step:
  assumes "hs_step m m'" and "hs_ok m" and "\<not> is_single_server m" and "shunned s m"
  shows "shunned s m' \<or> (\<forall>r. server_status m' r = Healthy)"
  using assms
proof (induction rule: hs_step.induct)
  case (success m i m')
  then have i: "i < length (mh_entries m)" by (simp add: may_contact_def)
  have "sn_server (mh_entries m ! i) \<noteq> s"
    using success by (auto simp: may_contact_def shunned_def preferred_server_def)
  with record_success_ok [OF success(3) i] success show ?case
    by (auto simp: shunned_def preferred_server_def)
next
  case (failure m i now m')
  then have i: "i < length (mh_entries m)" by (simp add: may_contact_def)
  from failure(3) i show ?case
  proof (cases rule: record_failure_cases [where now = now])
    case single
    with failure show ?thesis by simp
  next
    case (counted b)
    have "server_status m' r = server_status m r" for r
      using counted(1,3) failure(2) by (auto simp: server_status_def split: option.split)
    with counted(1) failure(2,5) show ?thesis by (auto simp: shunned_def preferred_server_def)
  next
    case (reset m1)
    with failure(2) show ?thesis by (auto simp: server_status_def breaker_new_def split: option.split)
  next
    case (tripped b m2)
    have m2: "shunned s m2" using failure(5) tripped(1,2) by (auto simp: shunned_def server_status_def preferred_server_def)
    then have "shunned s (failed_over m2)"
      using failed_over_best [of m2]
      by (auto simp: shunned_def preferred_server_def up_servers_def candidate_server_def split: if_splits)
    with m2 tripped(4) failure(2) show ?thesis by auto
  qed
next
  case (looked_up now event_id m d m')
  then show ?case
    using is_duplicate_fields [OF looked_up(1)] by (auto simp: shunned_def preferred_server_def server_status_def)
qed

text \<open>
  A server that is down and not preferred is never tried again. Whatever calls of the sending
  and receiving API follow, it
  stays down and is not preferred, until at some moment all servers are failing and every
  breaker is reset.
\<close>

lemma down_until_reset:
  assumes "hs_ok m" and "\<not> is_single_server m" and "server_status m s = Down" and "preferred_server m \<noteq> Some s"
    and "list_all (\<lambda>c. records_at c = None) calls" and "hs_run calls m = Some (out, m')"
  shows "(server_status m' s = Down \<and> preferred_server m' \<noteq> Some s)
    \<or> (\<exists>m1. hs_step\<^sup>*\<^sup>* m m1 \<and> hs_step\<^sup>*\<^sup>* m1 m' \<and> (\<forall>r. server_status m1 r = Healthy))"
proof -
  have "hs_step\<^sup>*\<^sup>* m m'" using hs_run_steps [OF assms(1,5)] assms(6) by auto
  then have "shunned s m' \<or> (\<exists>m1. hs_step\<^sup>*\<^sup>* m m1 \<and> hs_step\<^sup>*\<^sup>* m1 m' \<and> (\<forall>r. server_status m1 r = Healthy))"
  proof (induction rule: rtranclp_induct)
    case base
    then show ?case using assms(3,4) by (simp add: shunned_def)
  next
    case (step y z)
    have "hs_ok y" "mh_entries y = mh_entries m" using hs_steps_ok [OF step(1) assms(1)] by auto
    then have "shunned s y \<Longrightarrow> shunned s z \<or> (\<forall>r. server_status z r = Healthy)"
      using shunned_step [OF step(2)] assms(2) by (simp add: is_single_server_def)
    with step show ?case by (meson rtranclp.rtrancl_into_rtrancl rtranclp.rtrancl_refl)
  qed
  then show ?thesis by (auto simp: shunned_def)
qed

lemma down_until_reset_example:
  "let m = sample_pool\<lparr>mh_breakers := (mh_breakers sample_pool)(''a'' \<mapsto> \<lparr>cb_failures = [1, 1, 1, 1, 1], cb_status = Down\<rparr>)\<rparr>
   in \<exists>out m'. hs_run [Look_Up 9 ''x'' :: (nat, unit, unit) hs_call] m = Some (out, m')
     \<and> ((server_status m' ''a'' = Down \<and> preferred_server m' \<noteq> Some ''a'')
        \<or> (\<exists>m1. hs_step\<^sup>*\<^sup>* m m1 \<and> hs_step\<^sup>*\<^sup>* m1 m' \<and> (\<forall>r. server_status m1 r = Healthy)))"
proof -
  let ?m = "sample_pool\<lparr>mh_breakers := (mh_breakers sample_pool)(''a'' \<mapsto> \<lparr>cb_failures = [1, 1, 1, 1, 1], cb_status = Down\<rparr>)\<rparr>"
  let ?cs = "[Look_Up 9 ''x'' :: (nat, unit, unit) hs_call]"
  have ok: "hs_ok ?m" "\<not> is_single_server ?m" "server_status ?m ''a'' = Down" "preferred_server ?m \<noteq> Some ''a''"
    by (auto simp: sample_pool_def sample_clients_def hs_ok_def is_single_server_def server_status_def breaker_new_def
        FAIL_THRESHOLD_def MAX_SEEN_EVENTS_def preferred_server_def split: if_splits)
  have lookups: "list_all (\<lambda>c. records_at c = None) ?cs" by simp
  obtain out m' where "hs_run ?cs ?m = Some (out, m')" using hs_run_steps [OF ok(1) lookups] by blast
  with down_until_reset [OF ok lookups this] show ?thesis unfolding Let_def by blast
qed

end
