(* ===== verification/Multi_Hs_Trust.thy ===== *)
theory Multi_Hs_Trust
  imports Multi_Hs
begin

section \<open>Cross-signing across homeservers\<close>

text \<open>
  The rest of \<open>crates/mxdx-matrix/src/multi_hs.rs\<close>: bootstrapping cross-signing on every server and
  the synchronisation of trust, by which a user verified on one server is verified under the
  same localpart on all. The cross-signing calls of \<open>MatrixClient\<close> and the user ids of \<open>ruma\<close> are the
  parameter \<open>trust_api\<close>; a call that changes a client returns its new value.
\<close>

record ('u, 'room, 'e, 'cl) trust_api =
  verified_in_room :: "'cl \<Rightarrow> 'room \<Rightarrow> ('e, 'u list) result"
  is_user_verified :: "'cl \<Rightarrow> 'u \<Rightarrow> ('e, bool) result"
  verify_user :: "'cl \<Rightarrow> 'u \<Rightarrow> ('e, unit) result \<times> 'cl"
  bootstrap_cross_signing :: "'cl \<Rightarrow> str option \<Rightarrow> ('e, unit) result \<times> 'cl"
  verify_own_identity :: "'cl \<Rightarrow> ('e, unit) result \<times> 'cl"
  user_localpart :: "'u \<Rightarrow> str"
  own_server_name :: "'cl \<Rightarrow> str"
  parse_user_id :: "str \<Rightarrow> 'u option"

subsection \<open>Bootstrap\<close>

definition bootstrap_entry ::
  "('u, 'room, 'e, 'cl) trust_api \<Rightarrow> 'cl ServerEntry \<Rightarrow> (str \<times> 'e) list \<times> 'cl ServerEntry" where
  "bootstrap_entry A e =
     (let password = (if sn_password e = [] then None else Some (sn_password e));
          (r1, c1) = bootstrap_cross_signing A (sn_client e) password
      in case r1 of
           Inl err \<Rightarrow> ([(sn_server e, err)], e\<lparr>sn_client := c1\<rparr>)
         | Inr _ \<Rightarrow>
             (let (r2, c2) = verify_own_identity A c1
              in ((case r2 of Inl err \<Rightarrow> [(sn_server e, err)] | Inr _ \<Rightarrow> []), e\<lparr>sn_client := c2\<rparr>)))"

definition bootstrap_all_cross_signing ::
  "('u, 'room, 'e, 'cl) trust_api \<Rightarrow> 'cl MultiHsClient \<Rightarrow> ((str \<times> 'e) list, unit) result \<times> 'cl MultiHsClient" where
  "bootstrap_all_cross_signing A m =
     (if mh_entries m = [] then (Okay (), m)
      else
        (let rs = map (bootstrap_entry A) (mh_entries m);
             errors = concat (map fst rs);
             m' = m\<lparr>mh_entries := map snd rs\<rparr>
         in (if length errors = length (mh_entries m) then Err errors else Okay (), m')))"

subsection \<open>Synchronisation\<close>

definition verified_localparts :: "('u, 'room, 'e, 'cl) trust_api \<Rightarrow> 'room \<Rightarrow> 'cl ServerEntry list \<Rightarrow> str list" where
  "verified_localparts A room es =
     concat (map (\<lambda>e. case verified_in_room A (sn_client e) room of
                        Inr us \<Rightarrow> map (user_localpart A) us | Inl _ \<Rightarrow> []) es)"

definition local_user :: "('u, 'room, 'e, 'cl) trust_api \<Rightarrow> str \<Rightarrow> 'cl \<Rightarrow> 'u option" where
  "local_user A localpart c = parse_user_id A (''@'' @ localpart @ '':'' @ own_server_name A c)"

text \<open>One localpart on one server: verify the user unless it is verified, unknown or unreadable.\<close>

definition trust_on_server :: "('u, 'room, 'e, 'cl) trust_api \<Rightarrow> str \<Rightarrow> 'cl ServerEntry \<Rightarrow> 'cl ServerEntry" where
  "trust_on_server A localpart e =
     (case local_user A localpart (sn_client e) of
        None \<Rightarrow> e
      | Some u \<Rightarrow>
          (case is_user_verified A (sn_client e) u of
             Inl _ \<Rightarrow> e
           | Inr True \<Rightarrow> e
           | Inr False \<Rightarrow> e\<lparr>sn_client := snd (verify_user A (sn_client e) u)\<rparr>))"

definition sync_trust ::
  "key_order \<Rightarrow> ('u, 'room, 'e, 'cl) trust_api \<Rightarrow> 'room \<Rightarrow> 'cl MultiHsClient \<Rightarrow> 'cl MultiHsClient" where
  "sync_trust it A room m =
     (if is_single_server m then m
      else
        (let all_verified = set (verified_localparts A room (mh_entries m))
         in if all_verified = {} then m
            else m\<lparr>mh_entries := fold (\<lambda>localpart. map (trust_on_server A localpart)) (it all_verified) (mh_entries m)\<rparr>))"

definition bootstrap_and_sync_trust ::
  "key_order \<Rightarrow> ('u, 'room, 'e, 'cl) trust_api \<Rightarrow> 'room \<Rightarrow> 'cl MultiHsClient \<Rightarrow> 'cl MultiHsClient" where
  "bootstrap_and_sync_trust it A room m = sync_trust it A room (snd (bootstrap_all_cross_signing A m))"

subsection \<open>Trust spreads\<close>

text \<open>
  What the calls of a reachable server do: verification succeeds and is seen by later queries,
  it takes no verification back, and it does not change who we are.
\<close>

definition verification_law :: "('u, 'room, 'e, 'cl) trust_api \<Rightarrow> bool" where
  "verification_law A \<longleftrightarrow>
     (\<forall>c u. \<exists>b. is_user_verified A c u = Okay b)
   \<and> (\<forall>c u. is_user_verified A (snd (verify_user A c u)) u = Okay True)
   \<and> (\<forall>c u v. is_user_verified A c v = Okay True \<longrightarrow> is_user_verified A (snd (verify_user A c u)) v = Okay True)
   \<and> (\<forall>c u. own_server_name A (snd (verify_user A c u)) = own_server_name A c)"

lemma trust_on_server_name:
  "verification_law A \<Longrightarrow> own_server_name A (sn_client (trust_on_server A lp e)) = own_server_name A (sn_client e)"
  by (auto simp: trust_on_server_def verification_law_def split: option.split sum.split bool.split)

lemma trust_on_server_keeps:
  assumes "verification_law A" and "is_user_verified A (sn_client e) v = Okay True"
  shows "is_user_verified A (sn_client (trust_on_server A lp e)) v = Okay True"
  using assms by (auto simp: trust_on_server_def verification_law_def split: option.split sum.split bool.split)

lemma trust_on_server_verifies:
  assumes "verification_law A" and "local_user A lp (sn_client e) = Some u"
  shows "is_user_verified A (sn_client (trust_on_server A lp e)) u = Okay True"
proof -
  obtain b where "is_user_verified A (sn_client e) u = Okay b" using assms(1) unfolding verification_law_def by metis
  with assms show ?thesis by (cases b) (auto simp: trust_on_server_def verification_law_def)
qed

lemma fold_map_map: "fold (\<lambda>x. map (f x)) xs ys = map (fold f xs) ys"
  by (induction xs arbitrary: ys) (auto simp: o_def)

lemma fold_trust:
  assumes "verification_law A"
  shows "own_server_name A (sn_client (fold (trust_on_server A) lps e)) = own_server_name A (sn_client e)"
    and "is_user_verified A (sn_client e) v = Okay True \<Longrightarrow>
      is_user_verified A (sn_client (fold (trust_on_server A) lps e)) v = Okay True"
    and "lp \<in> set lps \<Longrightarrow> local_user A lp (sn_client e) = Some u \<Longrightarrow>
      is_user_verified A (sn_client (fold (trust_on_server A) lps e)) u = Okay True"
proof -
  show names: "own_server_name A (sn_client (fold (trust_on_server A) lps e)) = own_server_name A (sn_client e)" for lps e
    by (induction lps arbitrary: e) (simp_all add: trust_on_server_name [OF assms])
  show keeps: "is_user_verified A (sn_client (fold (trust_on_server A) lps e)) v = Okay True"
    if "is_user_verified A (sn_client e) v = Okay True" for lps e v
    using that by (induction lps arbitrary: e) (simp_all add: trust_on_server_keeps [OF assms])
  show "is_user_verified A (sn_client (fold (trust_on_server A) lps e)) u = Okay True"
    if "lp \<in> set lps" "local_user A lp (sn_client e) = Some u"
    using that
  proof (induction lps arbitrary: e)
    case (Cons l lps)
    have same: "local_user A lp (sn_client (trust_on_server A l e)) = local_user A lp (sn_client e)"
      by (simp add: local_user_def trust_on_server_name [OF assms])
    show ?case
    proof (cases "l = lp")
      case True
      with Cons.prems(2) show ?thesis by (simp add: keeps trust_on_server_verifies [OF assms])
    next
      case False
      with Cons same show ?thesis by simp
    qed
  qed simp
qed

text \<open>
  Trust spreads to every server. After a synchronisation over reachable servers, a user
  whom some server reports as verified in the room is verified, under the same localpart, by the
  client of every server on which that user id exists; and no verification is lost.
\<close>

lemma trust_spreads:
  assumes "verification_law A" and "iterates it" and "\<not> is_single_server m"
    and "e \<in> set (mh_entries m)" and "verified_in_room A (sn_client e) room = Okay us" and "u \<in> set us"
    and "j < length (mh_entries m)"
    and "local_user A (user_localpart A u) (sn_client (mh_entries m ! j)) = Some v"
  shows "is_user_verified A (sn_client (mh_entries (sync_trust it A room m) ! j)) v = Okay True
    \<and> (\<forall>w. is_user_verified A (sn_client (mh_entries m ! j)) w = Okay True \<longrightarrow>
         is_user_verified A (sn_client (mh_entries (sync_trust it A room m) ! j)) w = Okay True)"
proof -
  let ?lps = "set (verified_localparts A room (mh_entries m))"
  have lp: "user_localpart A u \<in> ?lps" using assms(4-6) by (force simp: verified_localparts_def)
  then have "mh_entries (sync_trust it A room m) ! j = fold (trust_on_server A) (it ?lps) (mh_entries m ! j)"
    using assms(3,7) by (auto simp: sync_trust_def Let_def fold_map_map)
  then show ?thesis
    using fold_trust(2) [OF assms(1)] fold_trust(3) [OF assms(1) _ assms(8), of "it ?lps"] lp
    by (simp add: iterates_set [OF assms(2)])
qed

text \<open>A server whose client is its name and the list of users it has verified.\<close>

definition sample_trust_api :: "(str, unit, unit, str \<times> str list) trust_api" where
  "sample_trust_api =
     \<lparr>verified_in_room = (\<lambda>c _. Okay (snd c)), is_user_verified = (\<lambda>c u. Okay (u \<in> set (snd c))),
      verify_user = (\<lambda>c u. (Okay (), (fst c, u # snd c))), bootstrap_cross_signing = (\<lambda>c _. (Okay (), c)),
      verify_own_identity = (\<lambda>c. (Okay (), c)), user_localpart = (\<lambda>u. takeWhile (\<lambda>c. c \<noteq> CHR '':'') (tl u)),
      own_server_name = fst, parse_user_id = Some\<rparr>"

lemma trust_spreads_example:
  "let m = \<lparr>mh_entries = [\<lparr>sn_client = (''a'', [''@u:a'']), sn_server = ''a'', sn_password = [], sn_latency_ms = Num 1\<rparr>,
              \<lparr>sn_client = (''b'', []), sn_server = ''b'', sn_password = [], sn_latency_ms = Num 2\<rparr>],
            mh_preferred_index = 0, mh_preferred_override = None, mh_breakers = Map.empty,
            mh_seen_events = Mapping.empty, mh_seen_order = [], mh_on_preferred_change = False, mh_changes = []\<rparr>
   in ''@u:b'' \<in> set (snd (sn_client (mh_entries (sync_trust sorted_list_of_set sample_trust_api () m) ! 1)))"
proof -
  let ?a = "\<lparr>sn_client = (''a'', [''@u:a'']), sn_server = ''a'', sn_password = [], sn_latency_ms = Num 1\<rparr>"
  let ?m = "\<lparr>mh_entries = [?a,
              \<lparr>sn_client = (''b'', []), sn_server = ''b'', sn_password = [], sn_latency_ms = Num 2\<rparr>],
            mh_preferred_index = 0, mh_preferred_override = None, mh_breakers = Map.empty,
            mh_seen_events = Mapping.empty, mh_seen_order = [], mh_on_preferred_change = False, mh_changes = []\<rparr>"
  have law: "verification_law sample_trust_api" by (simp add: verification_law_def sample_trust_api_def)
  have multi: "\<not> is_single_server ?m" by (simp add: is_single_server_def)
  have "is_user_verified sample_trust_api
      (sn_client (mh_entries (sync_trust sorted_list_of_set sample_trust_api () ?m) ! 1)) ''@u:b'' = Okay True"
    using trust_spreads [OF law iterates_sorted multi, of ?a "()" "[''@u:a'']" "''@u:a''" 1 "''@u:b''"]
    by (simp add: sample_trust_api_def local_user_def)
  then show ?thesis by (simp add: sample_trust_api_def Let_def)
qed

end
