(* ===== verification/Keychain.thy ===== *)
theory Keychain
  imports Paths P2P_Crypto Session_Types
begin

section \<open>Keychains, identities and trust stores\<close>

text \<open>
  The model of \<open>crates/mxdx-types/src/identity.rs\<close>, \<open>keychain_file.rs\<close>, \<open>keychain_chain.rs\<close> and \<open>trust.rs\<close>,
  and of what the worker and the client keep in a keychain (\<open>mxdx-worker/src/identity.rs\<close>,
  \<open>trust.rs\<close>, \<open>mxdx-client/src/identity.rs\<close>, \<open>trust.rs\<close>). The trait \<open>KeychainBackend\<close> is a record of operations
  on a state; its contract is the locale \<open>keychain_backend\<close>, and what its users rely on (a device id that
  survives a restart, a trust store that is read back as it was written) is proved in it once. The
  operating system's keychain is a third-party crate: it is an arbitrary backend.
\<close>

subsection \<open>Keys\<close>

record DeviceIdentity =
  di_device_id :: str
  di_user_id :: str
  di_host :: str
  di_os_user :: str

definition keychain_key :: "str \<Rightarrow> str \<Rightarrow> str" where
  "keychain_key user_id device_id = ''mxdx/'' @ user_id @ ''/'' @ device_id"

definition trust_store_key :: "str \<Rightarrow> str" where
  "trust_store_key user_id = ''mxdx/'' @ user_id @ ''/trust-store''"

definition state_room_key :: "str \<Rightarrow> str" where
  "state_room_key user_id = ''mxdx/'' @ user_id @ ''/state-room-id''"

function trim_start_matches :: "str \<Rightarrow> str \<Rightarrow> str" where
  "trim_start_matches p s =
     (if p \<noteq> [] \<and> starts_with s p then trim_start_matches p (drop (length p) s) else s)"
  by auto
termination
proof (relation "measure (length \<circ> snd)")
  fix p s :: str
  assume "p \<noteq> [] \<and> starts_with s p"
  then show "((p, drop (length p) s), p, s) \<in> measure (length \<circ> snd)"
    by (cases s) (auto simp: starts_with_append)
qed simp

declare trim_start_matches.simps [simp del]

definition backup_keychain_key :: "str \<Rightarrow> str \<Rightarrow> str \<Rightarrow> str" where
  "backup_keychain_key homeserver matrix_user unix_user =
     (let host = trim_start_matches ''http://'' (trim_start_matches ''https://''
                   (trim_end_matches (CHR ''/'') homeserver))
      in ''mxdx:backup:'' @ host @ '':'' @ matrix_user @ '':'' @ unix_user)"

subsection \<open>Backends\<close>

datatype KeychainError =
    KeyringFailed str
  | IoFailed str
  | ValueNotUtf8
  | InvalidKeychainBase64 str
  | KeychainFileTooShort
  | KeychainAead
  | JsonFailed

record 's keychain_ops =
  kc_get :: "str \<Rightarrow> 's \<Rightarrow> (KeychainError, bytes option) result"
  kc_set :: "str \<Rightarrow> bytes \<Rightarrow> 's \<Rightarrow> (KeychainError, unit) result \<times> 's"
  kc_delete :: "str \<Rightarrow> 's \<Rightarrow> (KeychainError, unit) result \<times> 's"

text \<open>The in-memory keychain. Its lock is never poisoned, since no holder panics.\<close>

type_synonym InMemoryKeychain = "str \<rightharpoonup> bytes"

definition memory_get :: "str \<Rightarrow> InMemoryKeychain \<Rightarrow> (KeychainError, bytes option) result" where
  "memory_get key s = Okay (s key)"

definition memory_set :: "str \<Rightarrow> bytes \<Rightarrow> InMemoryKeychain \<Rightarrow> (KeychainError, unit) result \<times> InMemoryKeychain" where
  "memory_set key v s = (Okay (), s(key \<mapsto> v))"

definition memory_delete :: "str \<Rightarrow> InMemoryKeychain \<Rightarrow> (KeychainError, unit) result \<times> InMemoryKeychain" where
  "memory_delete key s = (Okay (), s(key := None))"

text \<open>
  The file keychain: the directory is a map from file names to contents. Which file operations
  fail is the parameter \<open>file_io\<close>; the random nonce of an encryption is an argument.
\<close>

record file_io =
  mkdir_ok :: bool
  read_ok :: "str \<Rightarrow> bool"
  write_ok :: "str \<Rightarrow> bool"
  chmod_ok :: "str \<Rightarrow> bool"
  unlink_ok :: "str \<Rightarrow> bool"

type_synonym directory = "str \<rightharpoonup> str"

definition is_ascii_alphanumeric :: "char \<Rightarrow> bool" where
  "is_ascii_alphanumeric c \<longleftrightarrow>
     (let n = (of_char c :: nat) in 48 \<le> n \<and> n \<le> 57 \<or> 65 \<le> n \<and> n \<le> 90 \<or> 97 \<le> n \<and> n \<le> 122)"

text \<open>Texts are sequences of bytes, and \<open>chars()\<close> yields characters: the bytes that continue a
  character are dropped with it.\<close>

definition sanitize_key :: "str \<Rightarrow> str" where
  "sanitize_key key =
     map (\<lambda>c. if is_ascii_alphanumeric c \<or> c = CHR ''.'' \<or> c = CHR ''_'' \<or> c = CHR ''-'' then c else CHR ''_'')
       (filter (\<lambda>c. \<not> cont_byte (of_char c)) key)"

definition file_path :: "str \<Rightarrow> str" where
  "file_path key = sanitize_key key @ ''.enc''"

text \<open>\<open>derive_key\<close>: the digest of the host and the user; SHA-256 is a parameter.\<close>

definition derive_key :: "(bytes \<Rightarrow> bytes) \<Rightarrow> str \<Rightarrow> str \<Rightarrow> bytes" where
  "derive_key sha256 host uid = sha256 (as_bytes (host @ '':'' @ uid @ '':mxdx-credential-store''))"

definition file_encrypt :: "crypto_lib \<Rightarrow> bytes \<Rightarrow> str \<Rightarrow> bytes \<Rightarrow> (KeychainError, str) result" where
  "file_encrypt L nonce plaintext key =
     (case aead_encrypt L key nonce (as_bytes plaintext) of
        None \<Rightarrow> Err KeychainAead
      | Some ciphertext_with_tag \<Rightarrow>
          (let ct_len = length ciphertext_with_tag - 16;
               ciphertext = take ct_len ciphertext_with_tag;
               tag = drop ct_len ciphertext_with_tag
           in Okay (b64_encode L (nonce @ tag @ ciphertext))))"

definition file_decrypt :: "crypto_lib \<Rightarrow> str \<Rightarrow> bytes \<Rightarrow> (KeychainError, str) result" where
  "file_decrypt L encoded key =
     (case b64_decode L encoded of
        Inl e \<Rightarrow> Err (InvalidKeychainBase64 e)
      | Inr wire \<Rightarrow>
          if length wire < 32 then Err KeychainFileTooShort
          else
            (let iv = take 16 wire; tag = take 16 (drop 16 wire); ciphertext = drop 32 wire
             in case aead_decrypt L key iv (ciphertext @ tag) of
                  None \<Rightarrow> Err KeychainAead
                | Some plaintext \<Rightarrow>
                    (case from_utf8 plaintext of None \<Rightarrow> Err ValueNotUtf8 | Some s \<Rightarrow> Okay s)))"

definition file_get ::
  "crypto_lib \<Rightarrow> file_io \<Rightarrow> bytes \<Rightarrow> str \<Rightarrow> directory \<Rightarrow> (KeychainError, bytes option) result" where
  "file_get L io key name dir =
     (let path = file_path name in
      case dir path of
        None \<Rightarrow> Okay None
      | Some encoded \<Rightarrow>
          if \<not> read_ok io path then Err (IoFailed path)
          else
            (case file_decrypt L (trim encoded) key of
               Inl e \<Rightarrow> Err e
             | Inr plaintext \<Rightarrow> Okay (Some (as_bytes plaintext))))"

definition file_set ::
  "crypto_lib \<Rightarrow> file_io \<Rightarrow> bytes \<Rightarrow> bytes \<Rightarrow> str \<Rightarrow> bytes \<Rightarrow> directory \<Rightarrow> (KeychainError, unit) result \<times> directory" where
  "file_set L io key nonce name value dir =
     (if \<not> mkdir_ok io then (Err (IoFailed []), dir)
      else
        (case from_utf8 value of
           None \<Rightarrow> (Err ValueNotUtf8, dir)
         | Some plaintext \<Rightarrow>
             (case file_encrypt L nonce plaintext key of
                Inl e \<Rightarrow> (Err e, dir)
              | Inr encoded \<Rightarrow>
                  (let path = file_path name in
                   if \<not> write_ok io path then (Err (IoFailed path), dir)
                   else if \<not> chmod_ok io path then (Err (IoFailed path), dir(path \<mapsto> encoded))
                   else (Okay (), dir(path \<mapsto> encoded))))))"

definition file_delete :: "file_io \<Rightarrow> str \<Rightarrow> directory \<Rightarrow> (KeychainError, unit) result \<times> directory" where
  "file_delete io name dir =
     (let path = file_path name in
      if dir path \<noteq> None then
        if unlink_ok io path then (Okay (), dir(path := None)) else (Err (IoFailed path), dir)
      else (Okay (), dir))"

subsection \<open>The chain of two backends\<close>

definition chained_get ::
  "'p keychain_ops \<Rightarrow> 'f keychain_ops \<Rightarrow> str \<Rightarrow> 'p \<times> 'f \<Rightarrow> (KeychainError, bytes option) result" where
  "chained_get P F key s =
     (case kc_get P key (fst s) of
        Inr (Some v) \<Rightarrow> Okay (Some v)
      | _ \<Rightarrow> kc_get F key (snd s))"

definition chained_set ::
  "'p keychain_ops \<Rightarrow> 'f keychain_ops \<Rightarrow> str \<Rightarrow> bytes \<Rightarrow> 'p \<times> 'f \<Rightarrow> (KeychainError, unit) result \<times> ('p \<times> 'f)" where
  "chained_set P F key v s =
     (let (_, p') = kc_set P key v (fst s); (r, f') = kc_set F key v (snd s) in (r, (p', f')))"

definition chained_delete ::
  "'p keychain_ops \<Rightarrow> 'f keychain_ops \<Rightarrow> str \<Rightarrow> 'p \<times> 'f \<Rightarrow> (KeychainError, unit) result \<times> ('p \<times> 'f)" where
  "chained_delete P F key s =
     (let (rp, p') = kc_delete P key (fst s); (rf, f') = kc_delete F key (snd s)
      in ((if isl rp \<and> isl rf then rf else Okay ()), (p', f')))"

definition chained :: "'p keychain_ops \<Rightarrow> 'f keychain_ops \<Rightarrow> ('p \<times> 'f) keychain_ops" where
  "chained P F = \<lparr>kc_get = chained_get P F, kc_set = chained_set P F, kc_delete = chained_delete P F\<rparr>"

subsection \<open>Identities\<close>

text \<open>The device id is read from the keychain, or drawn (\<open>fresh\<close>) and stored.\<close>

definition load_or_create_identity ::
  "'s keychain_ops \<Rightarrow> str \<Rightarrow> str \<Rightarrow> str \<Rightarrow> str \<Rightarrow> 's \<Rightarrow> (KeychainError, DeviceIdentity) result \<times> 's" where
  "load_or_create_identity K fresh user_id host os_user s =
     (let device_id_key = ''mxdx/'' @ user_id @ ''/device-id'';
          identity = (\<lambda>d. \<lparr>di_device_id = d, di_user_id = user_id, di_host = host, di_os_user = os_user\<rparr>)
      in case kc_get K device_id_key s of
           Inl e \<Rightarrow> (Err e, s)
         | Inr (Some data) \<Rightarrow>
             (case from_utf8 data of None \<Rightarrow> (Err ValueNotUtf8, s) | Some d \<Rightarrow> (Okay (identity d), s))
         | Inr None \<Rightarrow>
             (case kc_set K device_id_key (as_bytes fresh) s of
                (Inl e, s') \<Rightarrow> (Err e, s')
              | (Inr _, s') \<Rightarrow> (Okay (identity fresh), s')))"

definition client_load_or_create_identity ::
  "'s keychain_ops \<Rightarrow> str \<Rightarrow> str \<Rightarrow> str \<Rightarrow> str \<Rightarrow> 's \<Rightarrow> (KeychainError, DeviceIdentity) result \<times> 's" where
  "client_load_or_create_identity = load_or_create_identity"

subsection \<open>Trust stores\<close>

datatype CrossSigningMode = CsAuto | CsManual

record TrustedDevice =
  td_device_id :: str
  td_user_id :: str
  td_ed25519_key :: str
  td_cross_signed_at :: u64

record TrustStore =
  ts_trust_anchor :: str
  ts_trusted_devices :: "str \<rightharpoonup> TrustedDevice"

definition trust_new :: "str \<Rightarrow> TrustStore" where
  "trust_new anchor = \<lparr>ts_trust_anchor = anchor, ts_trusted_devices = Map.empty\<rparr>"

definition is_trusted :: "TrustStore \<Rightarrow> str \<Rightarrow> bool" where
  "is_trusted st device_id \<longleftrightarrow> ts_trusted_devices st device_id \<noteq> None"

definition add_device :: "TrustedDevice \<Rightarrow> TrustStore \<Rightarrow> TrustStore" where
  "add_device d st = st\<lparr>ts_trusted_devices := (ts_trusted_devices st)(td_device_id d \<mapsto> d)\<rparr>"

definition remove_device :: "str \<Rightarrow> TrustStore \<Rightarrow> TrustStore" where
  "remove_device device_id st = st\<lparr>ts_trusted_devices := (ts_trusted_devices st)(device_id := None)\<rparr>"

definition trusted_device_ids :: "key_order \<Rightarrow> TrustStore \<Rightarrow> str list" where
  "trusted_device_ids it st = it (dom (ts_trusted_devices st))"

definition merge_trust_list :: "TrustedDevice list \<Rightarrow> CrossSigningMode \<Rightarrow> TrustStore \<Rightarrow> TrustStore" where
  "merge_trust_list devices mode st =
     (case mode of CsAuto \<Rightarrow> fold add_device devices st | CsManual \<Rightarrow> st)"

text \<open>The trust store of a worker or a client, and how it is kept in the keychain. The serializer
  is a parameter.\<close>

record store_json =
  js_to_vec :: "TrustStore \<Rightarrow> (KeychainError, bytes) result"
  js_from_slice :: "bytes \<Rightarrow> (KeychainError, TrustStore) result"

record WorkerTrust =
  wt_store :: TrustStore
  wt_user_id :: str

definition trust_load_or_create ::
  "store_json \<Rightarrow> 's keychain_ops \<Rightarrow> str \<Rightarrow> str \<Rightarrow> 's \<Rightarrow> (KeychainError, WorkerTrust) result" where
  "trust_load_or_create J K user_id anchor s =
     (case kc_get K (trust_store_key user_id) s of
        Inl e \<Rightarrow> Err e
      | Inr (Some data) \<Rightarrow>
          (case js_from_slice J data of
             Inl e \<Rightarrow> Err e
           | Inr st \<Rightarrow> Okay \<lparr>wt_store = st, wt_user_id = user_id\<rparr>)
      | Inr None \<Rightarrow> Okay \<lparr>wt_store = trust_new anchor, wt_user_id = user_id\<rparr>)"

definition trust_persist ::
  "store_json \<Rightarrow> 's keychain_ops \<Rightarrow> WorkerTrust \<Rightarrow> 's \<Rightarrow> (KeychainError, unit) result \<times> 's" where
  "trust_persist J K w s =
     (case js_to_vec J (wt_store w) of
        Inl e \<Rightarrow> (Err e, s)
      | Inr data \<Rightarrow> kc_set K (trust_store_key (wt_user_id w)) data s)"

text \<open>Every change is made in memory and then persisted; a failure to persist does not undo it.\<close>

definition trust_change ::
  "store_json \<Rightarrow> 's keychain_ops \<Rightarrow> (TrustStore \<Rightarrow> TrustStore) \<Rightarrow> WorkerTrust \<times> 's
     \<Rightarrow> (KeychainError, unit) result \<times> (WorkerTrust \<times> 's)" where
  "trust_change J K f ws =
     (let w = (fst ws)\<lparr>wt_store := f (wt_store (fst ws))\<rparr>; (r, s) = trust_persist J K w (snd ws)
      in (r, (w, s)))"

definition add_trusted_device ::
  "store_json \<Rightarrow> 's keychain_ops \<Rightarrow> TrustedDevice \<Rightarrow> WorkerTrust \<times> 's \<Rightarrow> (KeychainError, unit) result \<times> (WorkerTrust \<times> 's)" where
  "add_trusted_device J K d = trust_change J K (add_device d)"

definition worker_merge_trust_list ::
  "store_json \<Rightarrow> 's keychain_ops \<Rightarrow> TrustedDevice list \<Rightarrow> CrossSigningMode \<Rightarrow> WorkerTrust \<times> 's
     \<Rightarrow> (KeychainError, unit) result \<times> (WorkerTrust \<times> 's)" where
  "worker_merge_trust_list J K ds mode = trust_change J K (merge_trust_list ds mode)"

definition client_remove_device ::
  "store_json \<Rightarrow> 's keychain_ops \<Rightarrow> str \<Rightarrow> WorkerTrust \<times> 's \<Rightarrow> (KeychainError, unit) result \<times> (WorkerTrust \<times> 's)" where
  "client_remove_device J K d = trust_change J K (remove_device d)"

definition pull_trust_list ::
  "store_json \<Rightarrow> 's keychain_ops \<Rightarrow> TrustedDevice list \<Rightarrow> CrossSigningMode \<Rightarrow> WorkerTrust \<times> 's
     \<Rightarrow> (KeychainError, unit) result \<times> (WorkerTrust \<times> 's)" where
  "pull_trust_list J K ds mode = trust_change J K (merge_trust_list ds mode)"

definition set_trust_anchor ::
  "store_json \<Rightarrow> 's keychain_ops \<Rightarrow> str \<Rightarrow> WorkerTrust \<times> 's \<Rightarrow> (KeychainError, unit) result \<times> (WorkerTrust \<times> 's)" where
  "set_trust_anchor J K user_id = trust_change J K (\<lambda>st. st\<lparr>ts_trust_anchor := user_id\<rparr>)"

lemma load_identity_present:
  "kc_get K (''mxdx/'' @ user_id @ ''/device-id'') s = Okay (Some data) \<Longrightarrow> from_utf8 data = Some d \<Longrightarrow>
   load_or_create_identity K fresh user_id host os_user s
     = (Okay \<lparr>di_device_id = d, di_user_id = user_id, di_host = host, di_os_user = os_user\<rparr>, s)"
  by (simp add: load_or_create_identity_def)

subsection \<open>The contract of a backend\<close>

text \<open>
  A successful write is read back and a successful deletion leaves nothing, and neither affects a key
  that does not clash with the one written or deleted.
\<close>

locale keychain_backend =
  fixes K :: "'s keychain_ops"
    and clash :: "str \<Rightarrow> str \<Rightarrow> bool"
  assumes get_set: "fst (kc_set K k v s) = Okay () \<Longrightarrow> kc_get K k (snd (kc_set K k v s)) = Okay (Some v)"
    and get_set_other: "\<not> clash k k' \<Longrightarrow> kc_get K k' (snd (kc_set K k v s)) = kc_get K k' s"
    and get_delete: "fst (kc_delete K k s) = Okay () \<Longrightarrow> kc_get K k (snd (kc_delete K k s)) = Okay None"
    and get_delete_other: "\<not> clash k k' \<Longrightarrow> kc_get K k' (snd (kc_delete K k s)) = kc_get K k' s"
begin

text \<open>What the first start of a device chose is in the keychain afterwards.\<close>

lemma identity_stored:
  assumes "utf8_valid (as_bytes fresh)"
    and "load_or_create_identity K fresh user_id host os_user s = (Okay i, s')"
  shows "\<exists>data. kc_get K (''mxdx/'' @ user_id @ ''/device-id'') s' = Okay (Some data)
    \<and> from_utf8 data = Some (di_device_id i)"
proof (cases "kc_get K (''mxdx/'' @ user_id @ ''/device-id'') s")
  case (Inr d)
  let ?k = "''mxdx/'' @ user_id @ ''/device-id''"
  show ?thesis
  proof (cases d)
    case None
    obtain r t where set: "kc_set K ?k (as_bytes fresh) s = (r, t)" by (cases "kc_set K ?k (as_bytes fresh) s")
    with assms(2) Inr None have "r = Okay ()" "t = s'" "di_device_id i = fresh"
      by (auto simp: load_or_create_identity_def Let_def split: sum.splits)
    with get_set [of ?k "as_bytes fresh" s] set assms(1) show ?thesis by (auto simp: from_utf8_def)
  next
    case (Some data)
    with assms(2) Inr show ?thesis by (auto simp: load_or_create_identity_def Let_def split: option.splits)
  qed
qed (use assms(2) in \<open>simp add: load_or_create_identity_def Let_def\<close>)

lemma trust_change_reloads:
  assumes "\<And>st data. js_to_vec J st = Okay data \<Longrightarrow> js_from_slice J data = Okay st"
    and "trust_change J K f (w, s) = (Okay (), (w', s'))"
  shows "trust_load_or_create J K (wt_user_id w) anchor s' = Okay w' \<and> wt_user_id w' = wt_user_id w
    \<and> wt_store w' = f (wt_store w)"
proof -
  have w': "w' = w\<lparr>wt_store := f (wt_store w)\<rparr>" using assms(2) by (auto simp: trust_change_def Let_def split_beta)
  from assms(2) obtain data where data: "js_to_vec J (wt_store w') = Okay data"
    and set: "kc_set K (trust_store_key (wt_user_id w')) data s = (Okay (), s')"
    by (auto simp: w' trust_change_def trust_persist_def Let_def split_beta prod_eq_iff split: sum.splits)
  have "kc_get K (trust_store_key (wt_user_id w')) s' = Okay (Some data)"
    using get_set [of "trust_store_key (wt_user_id w')" data s] set by simp
  then show ?thesis using assms(1) [OF data] by (simp add: trust_load_or_create_def w')
qed

end

text \<open>A chain whose primary never fails is a backend itself.\<close>

locale keychain_chain =
  p: keychain_backend P clash + f: keychain_backend F clash
  for P :: "'p keychain_ops" and F :: "'f keychain_ops" and clash :: "str \<Rightarrow> str \<Rightarrow> bool" +
  assumes primary_sets: "fst (kc_set P k v s) = Okay ()"
    and primary_deletes: "fst (kc_delete P k s) = Okay ()"
    and fallback_deletes: "fst (kc_delete F k t) = Okay ()"
begin

lemma chained_laws: "keychain_backend (chained P F) clash"
proof
  fix k k' v s
  show "kc_get (chained P F) k (snd (kc_set (chained P F) k v s)) = Okay (Some v)"
    using p.get_set [of k v "fst s"] primary_sets
    by (simp add: chained_def chained_get_def chained_set_def split_beta Let_def)
  show "kc_get (chained P F) k (snd (kc_delete (chained P F) k s)) = Okay None"
    using p.get_delete [of k "fst s"] f.get_delete [of k "snd s"] primary_deletes fallback_deletes
    by (simp add: chained_def chained_get_def chained_delete_def split_beta Let_def)
  assume "\<not> clash k k'"
  then show "kc_get (chained P F) k' (snd (kc_set (chained P F) k v s)) = kc_get (chained P F) k' s"
    and "kc_get (chained P F) k' (snd (kc_delete (chained P F) k s)) = kc_get (chained P F) k' s"
    by (simp_all add: chained_def chained_get_def chained_set_def chained_delete_def split_beta Let_def
        p.get_set_other f.get_set_other p.get_delete_other f.get_delete_other split: sum.split option.split)
qed

end

sublocale keychain_chain \<subseteq> chain: keychain_backend "chained P F" clash
  by (rule chained_laws)

definition memory_ops :: "InMemoryKeychain keychain_ops" where
  "memory_ops = \<lparr>kc_get = memory_get, kc_set = memory_set, kc_delete = memory_delete\<rparr>"

interpretation memory: keychain_backend memory_ops "(=)"
  by unfold_locales (auto simp: memory_ops_def memory_get_def memory_set_def memory_delete_def)

interpretation memory_chain: keychain_chain memory_ops memory_ops "(=)"
  by unfold_locales (auto simp: memory_ops_def memory_set_def memory_delete_def)

subsection \<open>The file keychain meets the contract\<close>

definition file_ops :: "crypto_lib \<Rightarrow> file_io \<Rightarrow> bytes \<Rightarrow> bytes \<Rightarrow> directory keychain_ops" where
  "file_ops L io key nonce =
     \<lparr>kc_get = file_get L io key, kc_set = file_set L io key nonce, kc_delete = file_delete io\<rparr>"

text \<open>What the file format relies on beside the inversion laws: base64 text is graphic ASCII, and
  AES-GCM appends a tag of sixteen bytes.\<close>

definition wire_law :: "crypto_lib \<Rightarrow> bool" where
  "wire_law L \<longleftrightarrow> (\<forall>bs. \<forall>c \<in> set (b64_encode L bs). graphic c)
     \<and> (\<forall>k n p c. aead_encrypt L k n p = Some c \<longrightarrow> length c = length p + 16)"

lemma file_decrypt_encrypt:
  assumes "base64_law L" and "aead_law L" and "wire_law L" and "length nonce = 16"
    and "utf8_valid (as_bytes plaintext)" and "file_encrypt L nonce plaintext key = Okay enc"
  shows "file_decrypt L (trim enc) key = Okay plaintext"
proof -
  obtain ct where ct: "aead_encrypt L key nonce (as_bytes plaintext) = Some ct"
    and enc: "enc = b64_encode L (nonce @ drop (length ct - 16) ct @ take (length ct - 16) ct)"
    using assms(6) by (auto simp: file_encrypt_def Let_def split: option.splits)
  have len: "length ct = length plaintext + 16" using assms(3) ct by (force simp: wire_law_def)
  have "trim enc = enc" by (rule trim_graphic) (use assms(3) in \<open>simp add: wire_law_def enc\<close>)
  moreover have "aead_decrypt L key nonce ct = Some (as_bytes plaintext)" using assms(2) ct by (auto simp: aead_law_def)
  ultimately show ?thesis
    using assms(4,5) len by (simp add: file_decrypt_def enc decode_encode [OF assms(1)] Let_def from_utf8_def)
qed

lemma file_keychain_laws:
  assumes "base64_law L" and "aead_law L" and "wire_law L" and "length nonce = 16" and "\<And>p. read_ok io p"
  shows "keychain_backend (file_ops L io key nonce) (\<lambda>k k'. file_path k = file_path k')"
proof
  fix k k' v s
  show "kc_get (file_ops L io key nonce) k (snd (kc_set (file_ops L io key nonce) k v s)) = Okay (Some v)"
    if set: "fst (kc_set (file_ops L io key nonce) k v s) = Okay ()"
  proof -
    from set obtain plaintext enc where v: "from_utf8 v = Some plaintext" "file_encrypt L nonce plaintext key = Okay enc"
      and s': "snd (kc_set (file_ops L io key nonce) k v s) = s(file_path k \<mapsto> enc)"
      by (auto simp: file_ops_def file_set_def Let_def split: option.splits sum.splits if_splits)
    from v(1) have "as_bytes plaintext = v" "utf8_valid (as_bytes plaintext)" by (auto simp: from_utf8_def split: if_splits)
    with file_decrypt_encrypt [OF assms(1-4) _ v(2)] assms(5) show ?thesis
      by (simp add: s') (simp add: file_ops_def file_get_def Let_def)
  qed
  show "kc_get (file_ops L io key nonce) k (snd (kc_delete (file_ops L io key nonce) k s)) = Okay None"
    if "fst (kc_delete (file_ops L io key nonce) k s) = Okay ()"
    using that by (auto simp: file_ops_def file_delete_def file_get_def Let_def split: if_splits option.splits)
  assume "file_path k \<noteq> file_path k'"
  then show "kc_get (file_ops L io key nonce) k' (snd (kc_set (file_ops L io key nonce) k v s)) = kc_get (file_ops L io key nonce) k' s"
    and "kc_get (file_ops L io key nonce) k' (snd (kc_delete (file_ops L io key nonce) k s)) = kc_get (file_ops L io key nonce) k' s"
    by (auto simp: file_ops_def file_set_def file_delete_def file_get_def Let_def split: option.split sum.split)
qed

text \<open>
  A device keeps its identity. After a first start on the file keychain that returned an
  identity, every later start for the same user, with any other draw and any other host or
  user name, returns the same device id and changes nothing, as long as the key is the
  same and the files can be read.
\<close>

lemma device_id_survives_restart:
  assumes "base64_law L" and "aead_law L" and "wire_law L" and "length nonce = 16" and "\<forall>p. read_ok io p"
    and "utf8_valid (as_bytes fresh)"
    and "load_or_create_identity (file_ops L io key nonce) fresh user_id host os_user dir = (Okay i, dir')"
  shows "load_or_create_identity (file_ops L io key nonce') fresh' user_id host' os_user' dir'
    = (Okay \<lparr>di_device_id = di_device_id i, di_user_id = user_id, di_host = host', di_os_user = os_user'\<rparr>, dir')"
proof -
  have "keychain_backend (file_ops L io key nonce) (\<lambda>k k'. file_path k = file_path k')"
    by (rule file_keychain_laws [OF assms(1-4)]) (use assms(5) in simp)
  from keychain_backend.identity_stored [OF this assms(6,7)] obtain data where
    "kc_get (file_ops L io key nonce') (''mxdx/'' @ user_id @ ''/device-id'') dir' = Okay (Some data)"
    "from_utf8 data = Some (di_device_id i)"
    by (auto simp: file_ops_def)
  then show ?thesis by (rule load_identity_present)
qed

text \<open>A library that meets the laws: two letters per byte, and a tag of zeros.\<close>

fun letters_encode :: "bytes \<Rightarrow> str" where
  "letters_encode [] = []"
| "letters_encode (b # bs) = char_of (65 + unat b div 16) # char_of (65 + unat b mod 16) # letters_encode bs"

fun letters_decode :: "str \<Rightarrow> bytes" where
  "letters_decode (a # b # s) = of_nat (16 * (of_char a - 65) + (of_char b - 65)) # letters_decode s"
| "letters_decode _ = []"

definition letters_lib :: crypto_lib where
  "letters_lib =
     \<lparr>b64_encode = letters_encode, b64_decode = (\<lambda>s. Okay (letters_decode s)),
      aead_encrypt = (\<lambda>k n p. Some (p @ replicate 16 0)), aead_decrypt = (\<lambda>k n c. Some (take (length c - 16) c))\<rparr>"

lemma letters_byte: "unat (b :: u8) div 16 < 16"
  using unsigned_less [of b, where ?'a = nat] by simp

lemma letters_laws: "base64_law letters_lib" "aead_law letters_lib" "wire_law letters_lib"
proof -
  have of_char_65: "(of_char (char_of (65 + n)) :: nat) = 65 + n" if "n < 16" for n :: nat using that by simp
  have "letters_decode (letters_encode bs) = bs" for bs
  proof (induction bs)
    case (Cons b bs)
    have "16 * (unat b div 16) + unat b mod 16 = unat b" by simp
    then have "(of_nat (16 * (unat b div 16) + unat b mod 16) :: u8) = b" by (simp only:) simp
    with Cons of_char_65 [OF letters_byte, of b] of_char_65 [of "unat b mod 16"] show ?case by simp
  qed simp
  then show "base64_law letters_lib" by (simp add: base64_law_def letters_lib_def)
  show "aead_law letters_lib" by (simp add: aead_law_def letters_lib_def)
  have "\<forall>c \<in> set (letters_encode bs). graphic c" for bs
  proof (induction bs)
    case (Cons b bs)
    with of_char_65 [OF letters_byte, of b] of_char_65 [of "unat b mod 16"] show ?case
      using letters_byte [of b] by (auto simp: graphic_def)
  qed simp
  then show "wire_law letters_lib" by (auto simp: wire_law_def letters_lib_def)
qed

definition working_io :: file_io where
  "working_io = \<lparr>mkdir_ok = True, read_ok = (\<lambda>_. True), write_ok = (\<lambda>_. True), chmod_ok = (\<lambda>_. True), unlink_ok = (\<lambda>_. True)\<rparr>"

lemma device_id_survives_restart_example:
  "\<exists>i dir. load_or_create_identity (file_ops letters_lib working_io [] (replicate 16 1)) ''d1'' ''@u:x'' ''h'' ''o'' Map.empty
       = (Okay i, dir)
     \<and> fst (load_or_create_identity (file_ops letters_lib working_io [] (replicate 16 2)) ''d2'' ''@u:x'' ''h2'' ''o'' dir)
       = Okay \<lparr>di_device_id = ''d1'', di_user_id = ''@u:x'', di_host = ''h2'', di_os_user = ''o''\<rparr>"
proof -
  let ?run = "load_or_create_identity (file_ops letters_lib working_io [] (replicate 16 1)) ''d1'' ''@u:x'' ''h'' ''o'' Map.empty"
  have utf8: "utf8_valid (as_bytes ''d1'')" by code_simp
  obtain dir where run: "?run = (Okay \<lparr>di_device_id = ''d1'', di_user_id = ''@u:x'', di_host = ''h'', di_os_user = ''o''\<rparr>, dir)"
    using utf8 by (simp add: load_or_create_identity_def file_ops_def file_get_def file_set_def working_io_def from_utf8_def
        file_encrypt_def letters_lib_def Let_def)
  have io: "\<forall>p. read_ok working_io p" by (simp add: working_io_def)
  have nonce: "length (replicate 16 (1 :: u8)) = 16" by simp
  from device_id_survives_restart [OF letters_laws nonce io utf8 run] run show ?thesis by auto
qed

text \<open>
  Different keys may share a file: the file name keeps only letters, digits, dots, dashes and
  underscores of a key.
\<close>

lemma file_keys_collide:
  "file_path (keychain_key ''@a:b'' ''d'') = file_path (keychain_key ''@a_b'' ''d'')
   \<and> keychain_key ''@a:b'' ''d'' \<noteq> keychain_key ''@a_b'' ''d''"
  by code_simp

subsection \<open>What a chain reads back\<close>

text \<open>
  Reading from a chain after a successful write. A write reports the outcome of the
  fallback only, and a read asks the primary first; so the value written is read back exactly if the
  primary took it too or holds no other value for the key. A primary that refuses the new value
  and keeps an old one makes the chain return the old one.
\<close>

lemma chained_read_after_write:
  assumes "keychain_backend P cp" and "keychain_backend F cf"
    and "\<forall>e. fst (kc_set P k v p) = Err e \<longrightarrow> kc_get P k (snd (kc_set P k v p)) = kc_get P k p"
    and "chained_set P F k v (p, f) = (Okay (), s')"
  shows "chained_get P F k s' = Okay (Some v) \<longleftrightarrow>
    fst (kc_set P k v p) = Okay () \<or> (\<forall>w. kc_get P k p = Okay (Some w) \<longrightarrow> w = v)"
proof -
  have s': "s' = (snd (kc_set P k v p), snd (kc_set F k v f))" and f: "fst (kc_set F k v f) = Okay ()"
    using assms(4) by (auto simp: chained_set_def split_beta Let_def)
  have F: "kc_get F k (snd s') = Okay (Some v)" using keychain_backend.get_set [OF assms(2) f] by (simp add: s')
  show ?thesis
  proof (cases "fst (kc_set P k v p)")
    case (Inl e)
    then have "kc_get P k (fst s') = kc_get P k p" using assms(3) by (simp add: s')
    with F Inl show ?thesis by (auto simp: chained_get_def split: sum.split option.split)
  next
    case (Inr u)
    then have "kc_get P k (fst s') = Okay (Some v)" using keychain_backend.get_set [OF assms(1)] by (simp add: s')
    with Inr show ?thesis by (simp add: chained_get_def)
  qed
qed

text \<open>A keychain that can be read but has become read-only.\<close>

definition locked_ops :: "InMemoryKeychain keychain_ops" where
  "locked_ops = \<lparr>kc_get = memory_get, kc_set = (\<lambda>k v s. (Err (KeyringFailed ''locked''), s)),
     kc_delete = (\<lambda>k s. (Err (KeyringFailed ''locked''), s))\<rparr>"

interpretation locked: keychain_backend locked_ops "(=)"
  by unfold_locales (auto simp: locked_ops_def)

lemma chained_read_after_write_example:
  "chained_set locked_ops memory_ops ''k'' [2] ([''k'' \<mapsto> [1]], Map.empty) = (Okay (), ([''k'' \<mapsto> [1]], [''k'' \<mapsto> [2]]))
   \<and> chained_get locked_ops memory_ops ''k'' ([''k'' \<mapsto> [1]], [''k'' \<mapsto> [2]]) \<noteq> Okay (Some [2])"
proof -
  have set: "chained_set locked_ops memory_ops ''k'' [2] ([''k'' \<mapsto> [1]], Map.empty) = (Okay (), ([''k'' \<mapsto> [1]], [''k'' \<mapsto> [2]]))"
    by (simp add: chained_set_def locked_ops_def memory_ops_def memory_set_def)
  from chained_read_after_write [OF locked.keychain_backend_axioms memory.keychain_backend_axioms _ set] set show ?thesis
    by (simp add: locked_ops_def memory_get_def)
qed

text \<open>
  A deletion reports success if one of the two backends deleted; the value may still be readable
  in the other.
\<close>

lemma chained_delete_leaves_value:
  "chained_delete locked_ops memory_ops ''k'' ([''k'' \<mapsto> [1]], [''k'' \<mapsto> [1]]) = (Okay (), ([''k'' \<mapsto> [1]], Map.empty))
   \<and> chained_get locked_ops memory_ops ''k'' ([''k'' \<mapsto> [1]], Map.empty) = Okay (Some [1])"
  by (auto simp: chained_delete_def chained_get_def locked_ops_def memory_ops_def memory_delete_def memory_get_def)

subsection \<open>Trust survives\<close>

text \<open>Changes of a trust store, as a client or a worker makes them.\<close>

datatype trust_op = Trust TrustedDevice | Untrust str | Merge "TrustedDevice list" CrossSigningMode | Anchor str

fun trust_apply :: "trust_op \<Rightarrow> TrustStore \<Rightarrow> TrustStore" where
  "trust_apply (Trust d) = add_device d"
| "trust_apply (Untrust d) = remove_device d"
| "trust_apply (Merge ds mode) = merge_trust_list ds mode"
| "trust_apply (Anchor u) = (\<lambda>st. st\<lparr>ts_trust_anchor := u\<rparr>)"

fun trust_run ::
  "store_json \<Rightarrow> 's keychain_ops \<Rightarrow> trust_op list \<Rightarrow> WorkerTrust \<times> 's \<Rightarrow> (KeychainError, unit) result \<times> (WorkerTrust \<times> 's)" where
  "trust_run J K [] ws = (Okay (), ws)"
| "trust_run J K (opn # ops) ws =
     (case trust_change J K (trust_apply opn) ws of
        (Inl e, ws') \<Rightarrow> (Err e, ws')
      | (Inr _, ws') \<Rightarrow> trust_run J K ops ws')"

text \<open>Who is trusted in the end: those added explicitly or by an automatic merge, and not
  removed since.\<close>

fun trusted_after :: "trust_op list \<Rightarrow> str \<Rightarrow> bool \<Rightarrow> bool" where
  "trusted_after [] d b = b"
| "trusted_after (Trust x # ops) d b = trusted_after ops d (b \<or> td_device_id x = d)"
| "trusted_after (Untrust x # ops) d b = trusted_after ops d (b \<and> x \<noteq> d)"
| "trusted_after (Merge ds mode # ops) d b =
     trusted_after ops d (b \<or> mode = CsAuto \<and> d \<in> td_device_id ` set ds)"
| "trusted_after (Anchor u # ops) d b = trusted_after ops d b"

lemma fold_add_device: "is_trusted (fold add_device ds st) d \<longleftrightarrow> is_trusted st d \<or> d \<in> td_device_id ` set ds"
  by (induction ds arbitrary: st) (auto simp: add_device_def is_trusted_def)

lemma is_trusted_step:
  "is_trusted (add_device x st) d \<longleftrightarrow> is_trusted st d \<or> td_device_id x = d"
  "is_trusted (remove_device y st) d \<longleftrightarrow> is_trusted st d \<and> y \<noteq> d"
  "is_trusted (st\<lparr>ts_trust_anchor := u\<rparr>) d \<longleftrightarrow> is_trusted st d"
  by (auto simp: add_device_def remove_device_def is_trusted_def)

lemma trust_apply_trusted: "is_trusted (fold trust_apply ops st) d \<longleftrightarrow> trusted_after ops d (is_trusted st d)"
proof (induction ops arbitrary: st)
  case (Cons opn ops)
  show ?case
  proof (cases opn)
    case (Merge ds mode)
    then show ?thesis by (cases mode) (simp_all add: Cons merge_trust_list_def fold_add_device)
  qed (simp_all add: Cons is_trusted_step)
qed simp

lemma trust_run_store:
  assumes "trust_run J K ops (w, s) = (Okay (), (w', s'))"
  shows "wt_user_id w' = wt_user_id w \<and> wt_store w' = fold trust_apply ops (wt_store w)"
  using assms
proof (induction ops arbitrary: w s)
  case (Cons opn ops)
  from Cons.prems obtain w1 s1 where "trust_change J K (trust_apply opn) (w, s) = (Okay (), (w1, s1))"
    and "trust_run J K ops (w1, s1) = (Okay (), (w', s'))"
    by (auto split: prod.splits sum.splits)
  with Cons.IH [of w1 s1] show ?case by (auto simp: trust_change_def Let_def split_beta)
qed simp

lemma trust_run_append:
  "trust_run J K (xs @ ys) ws =
    (case trust_run J K xs ws of (Inl e, ws') \<Rightarrow> (Err e, ws') | (Inr _, ws') \<Rightarrow> trust_run J K ys ws')"
  by (induction xs arbitrary: ws) (simp_all split: prod.split sum.split)

text \<open>
  Trust decisions survive a restart. After any non-empty sequence of changes made through a
  keychain that keeps what it is given (adding and removing a device, merging another
  device's list, naming an anchor), each of which reported success, a restart loads exactly the
  store in memory; and a device is trusted in it if and only if it was trusted before or added
  since, explicitly or by a merge in automatic mode, and not removed after that. A merge in
  manual mode makes nobody trusted.
\<close>

lemma trust_survives_restart:
  assumes "keychain_backend K clash"
    and "\<forall>st data. js_to_vec J st = Okay data \<longrightarrow> js_from_slice J data = Okay st"
    and "ops \<noteq> []" and "trust_run J K ops (w, s) = (Okay (), (w', s'))"
  shows "trust_load_or_create J K (wt_user_id w) anchor s' = Okay w'
    \<and> (\<forall>d. is_trusted (wt_store w') d \<longleftrightarrow> trusted_after ops d (is_trusted (wt_store w) d))"
proof -
  obtain xs x where ops: "ops = xs @ [x]" using assms(3) by (cases ops rule: rev_cases) auto
  obtain w1 s1 where xs: "trust_run J K xs (w, s) = (Okay (), (w1, s1))"
    and x: "trust_change J K (trust_apply x) (w1, s1) = (Okay (), (w', s'))"
    using assms(4) by (auto simp: ops trust_run_append split: prod.splits sum.splits)
  have "trust_load_or_create J K (wt_user_id w1) anchor s' = Okay w'"
    using keychain_backend.trust_change_reloads [OF assms(1) _ x] assms(2) by blast
  then show ?thesis using trust_run_store [OF xs] trust_run_store [OF assms(4)] by (simp add: trust_apply_trusted)
qed

definition demo_device :: TrustedDevice where
  "demo_device = \<lparr>td_device_id = ''D'', td_user_id = ''@u:x'', td_ed25519_key = ''k'', td_cross_signed_at = 7\<rparr>"

text \<open>A codec for the one store of the example.\<close>

definition demo_json :: store_json where
  "demo_json =
     \<lparr>js_to_vec = (\<lambda>st. if st = add_device demo_device (trust_new ''D'') then Okay [1] else Err JsonFailed),
      js_from_slice = (\<lambda>_. Okay (add_device demo_device (trust_new ''D'')))\<rparr>"

lemma trust_survives_restart_example:
  "\<exists>w s. trust_run demo_json memory_ops [Trust demo_device, Merge [demo_device\<lparr>td_device_id := ''E''\<rparr>] CsManual]
      (\<lparr>wt_store = trust_new ''D'', wt_user_id = ''@u:x''\<rparr>, Map.empty) = (Okay (), (w, s))
    \<and> trust_load_or_create demo_json memory_ops ''@u:x'' ''Z'' s = Okay w
    \<and> is_trusted (wt_store w) ''D'' \<and> \<not> is_trusted (wt_store w) ''E''"
proof -
  let ?ops = "[Trust demo_device, Merge [demo_device\<lparr>td_device_id := ''E''\<rparr>] CsManual]"
  let ?w = "\<lparr>wt_store = trust_new ''D'', wt_user_id = ''@u:x''\<rparr>"
  obtain w s where run: "trust_run demo_json memory_ops ?ops (?w, Map.empty) = (Okay (), (w, s))"
    by (simp add: trust_change_def trust_persist_def demo_json_def memory_ops_def memory_set_def merge_trust_list_def Let_def)
  have json: "\<forall>st data. js_to_vec demo_json st = Okay data \<longrightarrow> js_from_slice demo_json data = Okay st"
    by (simp add: demo_json_def)
  have "\<not> is_trusted (trust_new ''D'') d" for d by (simp add: is_trusted_def trust_new_def)
  with trust_survives_restart [OF memory.keychain_backend_axioms json _ run] run show ?thesis
    by (auto simp: demo_device_def)
qed

end
