(* ===== verification/Clock.thy ===== *)
theory Clock
  imports Paths "HOL-Library.Signed_Division"
begin

section \<open>Dates and timestamps\<close>

text \<open>
  Worker and client exchange the time as text. The worker prints it
  (\<open>crates/mxdx-worker/src/telemetry.rs\<close>: \<open>iso8601_now\<close>, \<open>days_to_ymd\<close>), the client reads it
  (\<open>crates/mxdx-client/src/liveness.rs\<close>: \<open>parse_iso8601_to_epoch_ms\<close>, \<open>days_from_civil\<close>), and a
  starting worker reads it with a parser of its own (\<open>crates/mxdx-worker/src/lib.rs\<close>:
  \<open>parse_iso8601\<close>). The date algorithms are shown equal to the calendar, the client's reader to
  invert the worker's printer, and the worker's reader is compared with both. Integers have
  the width of the source and wrap as in a release build; where a string slice or an index
  may panic, the outer \<open>None\<close> is the panic.
\<close>

subsection \<open>Text\<close>

text \<open>\<open>str::split_once\<close>, \<open>splitn\<close> and \<open>strip_suffix\<close>.\<close>

fun split_once :: "char \<Rightarrow> str \<Rightarrow> (str \<times> str) option" where
  "split_once c [] = None"
| "split_once c (x # s) = (if x = c then Some ([], s) else map_option (\<lambda>(a, b). (x # a, b)) (split_once c s))"

fun splitn :: "nat \<Rightarrow> char \<Rightarrow> str \<Rightarrow> str list" where
  "splitn 0 c s = []"
| "splitn (Suc 0) c s = [s]"
| "splitn (Suc (Suc n)) c s = (case split_once c s of None \<Rightarrow> [s] | Some (a, b) \<Rightarrow> a # splitn (Suc n) c b)"

definition strip_suffix :: "str \<Rightarrow> str \<Rightarrow> str option" where
  "strip_suffix suf s = (if suffix suf s then Some (take (length s - length suf) s) else None)"

lemma split_once_append [simp]: "c \<notin> set a \<Longrightarrow> split_once c (a @ c # b) = Some (a, b)"
  by (induction a) auto

lemma split_once_none [simp]: "c \<notin> set a \<Longrightarrow> split_once c a = None"
  by (induction a) auto

lemma split_once_Some: "split_once c s = Some (a, b) \<Longrightarrow> s = a @ c # b \<and> c \<notin> set a"
  by (induction s arbitrary: a) (auto split: if_splits)

lemma strip_suffix_append [simp]: "strip_suffix suf (s @ suf) = Some s"
  by (simp add: strip_suffix_def suffix_def)

text \<open>\<open>str::parse\<close> for integers: an optional sign and at least one digit; out of range is an error.\<close>

definition is_digit :: "char \<Rightarrow> bool" where
  "is_digit c \<longleftrightarrow> CHR ''0'' \<le> c \<and> c \<le> CHR ''9''"

definition digits_value :: "str \<Rightarrow> int" where
  "digits_value s = foldl (\<lambda>n c. 10 * n + (of_char c - 48)) 0 s"

definition parse_digits :: "str \<Rightarrow> int option" where
  "parse_digits s = (if s \<noteq> [] \<and> list_all is_digit s then Some (digits_value s) else None)"

definition strip_sign :: "char \<Rightarrow> str \<Rightarrow> str" where
  "strip_sign c s = (if s \<noteq> [] \<and> hd s = c then tl s else s)"

definition parse_u64 :: "str \<Rightarrow> u64 option" where
  "parse_u64 s =
     (case parse_digits (strip_sign (CHR ''+'') s) of
        Some n \<Rightarrow> if n < 2 ^ 64 then Some (of_int n) else None
      | None \<Rightarrow> None)"

text \<open>A signed 64-bit integer is the word with its bits; \<open>sint\<close> reads it.\<close>

type_synonym i64 = "64 word"

definition parse_i64 :: "str \<Rightarrow> i64 option" where
  "parse_i64 s =
     (if s \<noteq> [] \<and> hd s = CHR ''-''
      then (case parse_digits (tl s) of Some n \<Rightarrow> if n \<le> 2 ^ 63 then Some (of_int (- n)) else None | None \<Rightarrow> None)
      else
        (case parse_digits (strip_sign (CHR ''+'') s) of
           Some n \<Rightarrow> if n < 2 ^ 63 then Some (of_int n) else None
         | None \<Rightarrow> None))"

text \<open>\<open>format!("{:0w}", n)\<close>.\<close>

definition pad :: "nat \<Rightarrow> nat \<Rightarrow> str" where
  "pad w n = replicate (w - length (show_nat n)) (CHR ''0'') @ show_nat n"

lemma is_digit_char_of: "n < (10 :: nat) \<Longrightarrow> is_digit (char_of (48 + n))"
  by (simp add: is_digit_def less_eq_char_def)

lemma digits_value_append: "digits_value (s @ [c]) = 10 * digits_value s + (of_char c - 48)"
  by (simp add: digits_value_def)

lemma digits_value_zeros: "digits_value (replicate k (CHR ''0'') @ s) = digits_value s"
  by (induction k) (simp_all add: digits_value_def)

lemma show_nat_nonempty [simp]: "show_nat n \<noteq> []"
  by (simp add: show_nat.simps [of n])

lemma show_nat_digits: "list_all is_digit (show_nat n) \<and> digits_value (show_nat n) = int n"
proof (induction n rule: less_induct)
  case (less n)
  have digit: "(of_char (char_of (48 + k)) :: int) - 48 = int k" if "k < 10" for k :: nat
  proof -
    have "(of_char (char_of (48 + k)) :: nat) = 48 + k" using that by simp
    then have "int (of_char (char_of (48 + k))) = 48 + int k" by (simp only: of_nat_add of_nat_numeral)
    then show ?thesis by (simp only: of_nat_of_char)
  qed
  show ?case
  proof (cases "n < 10")
    case True
    then show ?thesis by (simp add: show_nat.simps [of n] is_digit_char_of digits_value_def digit)
  next
    case False
    then have "n div 10 < n" by simp
    moreover have "10 * int (n div 10) + int (n mod 10) = int n"
      by (simp only: zdiv_int zmod_int of_nat_numeral mult_div_mod_eq)
    ultimately show ?thesis
      using less [of "n div 10"] False by (simp add: show_nat.simps [of n] is_digit_char_of digits_value_append digit)
  qed
qed

lemma parse_digits_pad [simp]: "parse_digits (pad w n) = Some (int n)"
  using show_nat_digits [of n]
  by (auto simp: parse_digits_def pad_def digits_value_zeros is_digit_def less_eq_char_def list_all_iff)

lemma pad_digit: "c \<in> set (pad w n) \<Longrightarrow> is_digit c"
  using show_nat_digits [of n] by (auto simp: pad_def list_all_iff is_digit_def less_eq_char_def)

lemma pad_Cons: "pad w n = c # t \<Longrightarrow> is_digit c"
  using pad_digit [of c w n] by simp

lemma no_sign: "\<not> is_digit (CHR ''-'')" "\<not> is_digit (CHR ''+'')" "\<not> is_digit (CHR '':'')" "\<not> is_digit (CHR ''T'')"
  "\<not> is_digit (CHR ''.'')" "\<not> is_digit (CHR ''Z'')"
  by (simp_all add: is_digit_def less_eq_char_def)

lemma pad_no_sign [simp]:
  "CHR ''-'' \<notin> set (pad w n)" "CHR ''+'' \<notin> set (pad w n)" "CHR '':'' \<notin> set (pad w n)" "CHR ''T'' \<notin> set (pad w n)"
  "CHR ''.'' \<notin> set (pad w n)" "CHR ''Z'' \<notin> set (pad w n)"
  using pad_digit no_sign by metis+

lemma strip_sign_none: "c \<notin> set s \<Longrightarrow> strip_sign c s = s"
  by (cases s) (auto simp: strip_sign_def)

lemma parse_u64_pad [simp]: "n < 2 ^ 64 \<Longrightarrow> parse_u64 (pad w n) = Some (of_nat n)"
  by (simp add: parse_u64_def strip_sign_none)

lemma parse_i64_pad [simp]: "n < 2 ^ 63 \<Longrightarrow> parse_i64 (pad w n) = Some (of_nat n)"
proof -
  have "\<not> (pad w n \<noteq> [] \<and> hd (pad w n) = CHR ''-'')"
    using pad_no_sign(1) [of w n] hd_in_set [of "pad w n"] by metis
  then show "n < 2 ^ 63 \<Longrightarrow> parse_i64 (pad w n) = Some (of_nat n)"
    unfolding parse_i64_def by (simp only: if_False) (simp add: strip_sign_none)
qed

subsection \<open>Dates\<close>

text \<open>\<open>/\<close> on \<open>i64\<close> truncates.\<close>

definition i64_div :: "i64 \<Rightarrow> i64 \<Rightarrow> i64" where
  "i64_div a b = of_int (sint a sdiv sint b)"

definition days_from_civil :: "i64 \<Rightarrow> i64 \<Rightarrow> i64 \<Rightarrow> i64" where
  "days_from_civil year month day =
     (let y = if sint month \<le> 2 then year - 1 else year;
          era = i64_div (if 0 \<le> sint y then y else y - 399) 400;
          yoe = y - era * 400;
          m = month;
          doy = (if m > 2 then (153 * (m - 3) + 2) div 5 + day - 1
                 else (153 * (m + 9) + 2) div 5 + day - 1);
          doe = yoe * 365 + yoe div 4 - yoe div 100 + doy
      in era * 146097 + doe - 719468)"

definition days_to_ymd :: "u64 \<Rightarrow> u64 \<times> u64 \<times> u64" where
  "days_to_ymd days =
     (let z = days + 719468;
          era = i64_div (if 0 \<le> sint z then z else z - 146096) 146097;
          doe = z - era * 146097;
          yoe = (doe - doe div 1460 + doe div 36524 - doe div 146096) div 365;
          y = yoe + era * 400;
          doy = doe - (365 * yoe + yoe div 4 - yoe div 100);
          mp = (5 * doy + 2) div 153;
          d = doy - (153 * mp + 2) div 5 + 1;
          m = if mp < 10 then mp + 3 else mp - 9;
          y' = if m \<le> 2 then y + 1 else y
      in (y', m, d))"

text \<open>The same computations on unbounded integers, for years that are not negative.\<close>

definition civil_days :: "int \<Rightarrow> int \<Rightarrow> int \<Rightarrow> int" where
  "civil_days year month day =
     (let y = if month \<le> 2 then year - 1 else year;
          doy = (153 * (if month > 2 then month - 3 else month + 9) + 2) div 5 + day - 1
      in 365 * y + y div 4 - y div 100 + y div 400 + doy - 719468)"

lemma word_div_of_int:
  assumes "0 \<le> a" "a < 2 ^ 64" "0 < b" "b < 2 ^ 64"
  shows "(of_int a :: u64) div of_int b = of_int (a div b)"
proof -
  have "uint (of_int a :: u64) = a" "uint (of_int b :: u64) = b"
    using assms by (simp_all add: uint_word_of_int take_bit_int_eq_self)
  then show ?thesis by (simp add: word_div_def)
qed

lemma word_le_of_int:
  assumes "0 \<le> a" "a < 2 ^ 64" "0 \<le> b" "b < 2 ^ 64"
  shows "(of_int a :: u64) \<le> of_int b \<longleftrightarrow> a \<le> b" "(of_int a :: u64) < of_int b \<longleftrightarrow> a < b"
  using assms by (simp_all add: word_le_def word_less_def uint_word_of_int take_bit_int_eq_self)

lemma sint_of_int: "0 \<le> a \<Longrightarrow> a < 2 ^ 63 \<Longrightarrow> sint (of_int a :: i64) = a"
  by (simp add: signed_of_int signed_take_bit_int_eq_self)

lemma i64_div_of_int:
  "0 \<le> a \<Longrightarrow> a < 2 ^ 63 \<Longrightarrow> 0 < b \<Longrightarrow> b < 2 ^ 63 \<Longrightarrow> i64_div (of_int a) (of_int b) = of_int (a div b)"
  by (cases "a = 0") (simp_all add: i64_div_def sint_of_int signed_divide_int_def)

lemma div_eqI: "b * q \<le> a \<Longrightarrow> a < b * q + b \<Longrightarrow> a div b = q" for a b q :: int
  by (rule int_div_pos_eq [where r = "a - b * q"]) auto

lemma div_bounds: "0 < b \<Longrightarrow> b * (a div b) \<le> a \<and> a < b * (a div b) + b" for a b :: int
  using mult_div_mod_eq [of b a] pos_mod_sign [of b a] pos_mod_bound [of b a] by linarith

lemma era_sum:
  fixes y4 y100 y400 y e r r4 r100 :: int
  assumes "y4 = 100 * e + r4" and "y100 = 4 * e + r100" and "y400 = e" and "y = 400 * e + r"
  shows "365 * y + y4 - y100 + y400 = 146097 * e + (365 * r + r4 - r100)"
  using assms by simp

lemma days_from_civil_int:
  assumes Y: "1 \<le> Y" "Y < 2 ^ 50" and M: "1 \<le> M" "M \<le> 12" and D: "1 \<le> D" "D \<le> 31"
  shows "days_from_civil (of_int Y) (of_int M) (of_int D) = of_int (civil_days Y M D)"
proof -
  define y where "y = (if M \<le> 2 then Y - 1 else Y)"
  define e where "e = y div 400"
  define r where "r = y mod 400"
  define p where "p = (if M > 2 then M - 3 else M + 9)"
  define q where "q = (153 * p + 2) div 5 + D - 1"
  have yb: "0 \<le> y" "y < 2 ^ 50" using Y by (auto simp: y_def)
  have yer: "y = 400 * e + r" and r: "0 \<le> r" "r < 400" and e: "0 \<le> e" using yb by (auto simp: e_def r_def)
  have p: "0 \<le> p" "p \<le> 11" using M by (auto simp: p_def)
  have wy: "(if sint (of_int M :: i64) \<le> 2 then (of_int Y :: i64) - 1 else of_int Y) = of_int y"
    using M by (simp add: sint_of_int y_def)
  have wera: "i64_div (if 0 \<le> sint (of_int y :: i64) then of_int y else of_int y - 399) 400 = of_int e"
    using i64_div_of_int [of y 400] yb by (simp add: sint_of_int e_def)
  have wyoe: "(of_int y :: i64) - of_int e * 400 = of_int r" by (simp add: yer)
  have wr: "(of_int r :: i64) div 4 = of_int (r div 4)" "(of_int r :: i64) div 100 = of_int (r div 100)"
    using word_div_of_int [of r 4] word_div_of_int [of r 100] r by simp_all
  have wm: "(of_int M :: i64) > 2 \<longleftrightarrow> M > 2" using word_le_of_int(2) [of 2 M] M by simp
  have wdiv: "(153 * of_int p + 2 :: i64) div 5 = of_int ((153 * p + 2) div 5)"
    using word_div_of_int [of "153 * p + 2" 5] p by simp
  have wdoy: "(if (of_int M :: i64) > 2 then (153 * (of_int M - 3) + 2) div 5 + of_int D - 1
      else (153 * (of_int M + 9) + 2) div 5 + of_int D - 1) = (of_int q :: i64)"
  proof -
    have "(if M > 2 then (of_int M :: i64) - 3 else of_int M + 9) = of_int p" by (simp add: p_def)
    then show ?thesis using wdiv by (cases "M > 2") (simp_all add: wm q_def)
  qed
  have "days_from_civil (of_int Y) (of_int M) (of_int D)
      = of_int e * 146097 + (of_int r * 365 + of_int (r div 4) - of_int (r div 100) + of_int q) - 719468"
    by (simp only: days_from_civil_def Let_def wy wera wyoe wr wdoy)
  also have "\<dots> = of_int (e * 146097 + (r * 365 + r div 4 - r div 100 + q) - 719468)" by simp
  also have "e * 146097 + (r * 365 + r div 4 - r div 100 + q) - 719468 = civil_days Y M D"
  proof -
    have d: "y div 4 = 100 * e + r div 4" "y div 100 = 4 * e + r div 100" "y div 400 = e"
      using r div_bounds [of 4 r] div_bounds [of 100 r] by (auto simp: yer intro!: div_eqI)
    have "civil_days Y M D = (365 * y + y div 4 - y div 100 + y div 400) + q - 719468"
      by (simp only: civil_days_def Let_def y_def [symmetric] p_def [symmetric] q_def)
    then show ?thesis unfolding era_sum [OF d yer] by (simp only: ac_simps add_diff_eq)
  qed
  finally show ?thesis .
qed

text \<open>The inverse computation on integers, and the years of an era of 400 years.\<close>

definition year_start :: "int \<Rightarrow> int" where
  "year_start yoe = 365 * yoe + yoe div 4 - yoe div 100"

definition year_of_era :: "int \<Rightarrow> int" where
  "year_of_era doe = (doe - doe div 1460 + doe div 36524 - doe div 146096) div 365"

lemma year_of_era_bounds:
  assumes "0 \<le> doe" "doe < 146097"
  shows "0 \<le> year_of_era doe \<and> year_of_era doe < 400
    \<and> year_start (year_of_era doe) \<le> doe \<and> doe \<le> year_start (year_of_era doe) + 365"
proof -
  define c where "c = min 3 (doe div 36524)"
  define q where "q = (doe - 36524 * c) div 1461"
  define s where "s = (doe - 36524 * c) mod 1461"
  define t where "t = min 3 (s div 365)"
  have c36: "36524 * (doe div 36524) \<le> doe" "doe < 36524 * (doe div 36524) + 36524" using div_bounds [of 36524 doe] by simp_all
  then have d4: "0 \<le> doe div 36524" "doe div 36524 \<le> 4" using assms by linarith+
  have c: "0 \<le> c" "c \<le> 3" using d4 by (auto simp: c_def)
  have rest: "0 \<le> doe - 36524 * c" "doe - 36524 * c \<le> 36524" using c36 d4 assms by (auto simp: c_def min_def)
  have doe: "doe = 36524 * c + 1461 * q + s" and s: "0 \<le> s" "s \<le> 1460"
    using pos_mod_bound [of 1461 "doe - 36524 * c"] by (auto simp: q_def s_def)
  have q: "0 \<le> q" "q \<le> 24" using rest doe s by linarith+
  have s36: "365 * (s div 365) \<le> s" "s < 365 * (s div 365) + 365" using div_bounds [of 365 s] by simp_all
  then have s4: "0 \<le> s div 365" "s div 365 \<le> 4" using s by linarith+
  have t: "0 \<le> t" "t \<le> 3" "365 * t \<le> s" "s \<le> 365 * t + 365" using s s36 s4 by (auto simp: t_def min_def)
  have corr: "doe div 36524 - doe div 146096 = c"
  proof (cases "doe = 146096")
    case False
    then have "doe div 146096 = 0" using assms by simp
    moreover have "doe div 36524 \<le> 3" using c36 False assms by linarith
    ultimately show ?thesis by (simp add: c_def)
  qed (simp add: c_def)
  have lo: "24 * c + q + s < 1460 \<Longrightarrow> doe div 1460 = 25 * c + q"
    and hi: "1460 \<le> 24 * c + q + s \<Longrightarrow> doe div 1460 = 25 * c + q + 1"
    using c q s unfolding doe by (auto intro!: div_eqI)
  have "year_of_era doe = 100 * c + 4 * q + t"
  proof (cases "24 * c + q + s < 1460")
    case True
    then have "s < 1460" using c q by simp
    then have "s div 365 \<le> 3" using s36 by linarith
    then have "t = s div 365" by (simp add: t_def)
    moreover have "year_of_era doe = (365 * (100 * c + 4 * q) + s) div 365"
      using corr lo [OF True] by (simp add: year_of_era_def doe algebra_simps)
    ultimately show ?thesis by simp
  next
    case False
    then have lower: "1364 \<le> s" using c q by simp
    then have "3 \<le> s div 365" using s36 by linarith
    then have "t = 3" by (simp add: t_def)
    moreover have "year_of_era doe = (365 * (100 * c + 4 * q) + (s - 1)) div 365"
      using corr hi False by (simp add: year_of_era_def doe algebra_simps)
    ultimately show ?thesis using s lower by (auto intro!: div_eqI)
  qed
  moreover have "year_start (100 * c + 4 * q + t) = 36524 * c + 1461 * q + 365 * t"
  proof -
    have "(100 * c + 4 * q + t) div 4 = 25 * c + q" "(100 * c + 4 * q + t) div 100 = c"
      using c q t by (auto intro!: div_eqI)
    then show ?thesis by (simp add: year_start_def)
  qed
  ultimately show ?thesis using c q t doe by simp
qed

definition civil_of_days :: "int \<Rightarrow> int \<times> int \<times> int" where
  "civil_of_days days =
     (let z = days + 719468;
          doe = z mod 146097;
          yoe = year_of_era doe;
          y = yoe + z div 146097 * 400;
          doy = doe - year_start yoe;
          mp = (5 * doy + 2) div 153;
          d = doy - (153 * mp + 2) div 5 + 1;
          m = if mp < 10 then mp + 3 else mp - 9
      in (if m \<le> 2 then y + 1 else y, m, d))"

lemma month_of_day:
  fixes doy :: int
  assumes "0 \<le> doy" "doy \<le> 365"
  shows "0 \<le> (5 * doy + 2) div 153 \<and> (5 * doy + 2) div 153 \<le> 11
    \<and> (153 * ((5 * doy + 2) div 153) + 2) div 5 \<le> doy
    \<and> doy \<le> (153 * ((5 * doy + 2) div 153) + 2) div 5 + 30"
  using div_bounds [of 153 "5 * doy + 2"] div_bounds [of 5 "153 * ((5 * doy + 2) div 153) + 2"] assms
  by linarith

lemma era_split:
  assumes "0 \<le> yoe" "yoe < 400" and "y = yoe + e * 400"
  shows "365 * y + y div 4 - y div 100 + y div 400 = 146097 * e + year_start yoe"
proof -
  have d: "y div 4 = 100 * e + yoe div 4" "y div 100 = 4 * e + yoe div 100" "y div 400 = e" "y = 400 * e + yoe"
    using assms div_bounds [of 4 yoe] div_bounds [of 100 yoe] by (auto intro!: div_eqI)
  show ?thesis unfolding year_start_def by (rule era_sum [OF d])
qed

lemma civil_of_days_inverse:
  assumes "0 \<le> days" and "civil_of_days days = (y, m, d)"
  shows "civil_days y m d = days \<and> 1 \<le> m \<and> m \<le> 12 \<and> 1 \<le> d \<and> d \<le> 31 \<and> 1 \<le> y \<and> 365 * y \<le> days + 719833"
proof -
  define e where "e = (days + 719468) div 146097"
  define doe where "doe = (days + 719468) mod 146097"
  define yoe where "yoe = year_of_era doe"
  define doy where "doy = doe - year_start yoe"
  define mp where "mp = (5 * doy + 2) div 153"
  define y0 where "y0 = yoe + e * 400"
  have z: "days + 719468 = 146097 * e + doe" by (simp add: e_def doe_def)
  have doe: "0 \<le> doe" "doe < 146097" by (simp_all add: doe_def)
  have yoe: "0 \<le> yoe" "yoe < 400" "0 \<le> doy" "doy \<le> 365"
    using year_of_era_bounds [OF doe] by (simp_all add: yoe_def doy_def)
  have mp: "0 \<le> mp" "mp \<le> 11" "(153 * mp + 2) div 5 \<le> doy" "doy \<le> (153 * mp + 2) div 5 + 30"
    using month_of_day [OF yoe(3,4)] by (simp_all add: mp_def)
  have m: "m = (if mp < 10 then mp + 3 else mp - 9)" and d: "d = doy - (153 * mp + 2) div 5 + 1"
    and y: "y = (if m \<le> 2 then y0 + 1 else y0)"
    using assms(2) unfolding civil_of_days_def Let_def e_def [symmetric] doe_def [symmetric] yoe_def [symmetric]
      doy_def [symmetric] mp_def [symmetric] y0_def [symmetric] prod.inject by blast+
  have undo: "(if m \<le> 2 then y - 1 else y) = y0" "(if m > 2 then m - 3 else m + 9) = mp"
    using mp(1,2) y by (simp, simp add: m)
  have start: "365 * y0 + y0 div 4 - y0 div 100 + y0 div 400 = 146097 * e + year_start yoe"
    by (rule era_split [OF yoe(1,2)]) (simp add: y0_def)
  have "civil_days y m d = 146097 * e + year_start yoe + doy - 719468"
    by (simp only: civil_days_def Let_def undo start) (simp add: d)
  then have "civil_days y m d = days" using z by (simp add: doy_def)
  moreover have "1 \<le> y0 \<and> 365 * y0 \<le> days + 719468"
  proof -
    have "0 \<le> e" using assms(1) by (simp add: e_def)
    then have y0: "0 \<le> y0" using yoe by (simp add: y0_def)
    then have "y0 div 100 \<le> y0 div 4" "0 \<le> y0 div 100" "0 \<le> y0 div 400" by (simp_all add: zdiv_mono2)
    moreover from this have "y0 div 4 - y0 div 100 + y0 div 400 \<le> y0"
      using y0 div_bounds [of 4 y0] div_bounds [of 400 y0] by simp
    ultimately show ?thesis using start z assms(1) yoe doy_def by linarith
  qed
  moreover have "1 \<le> m \<and> m \<le> 12" using mp(1,2) by (simp add: m)
  moreover have "1 \<le> d \<and> d \<le> 31" using mp(3,4) by (simp add: d)
  ultimately show ?thesis using y by (cases "m \<le> 2") simp_all
qed

lemma days_to_ymd_int:
  assumes "0 \<le> N" "N < 2 ^ 50" and "civil_of_days N = (y, m, d)"
  shows "days_to_ymd (of_int N) = (of_int y, of_int m, of_int d)"
proof -
  define z where "z = N + 719468"
  define e where "e = z div 146097"
  define doe where "doe = z mod 146097"
  define yoe where "yoe = year_of_era doe"
  define doy where "doy = doe - year_start yoe"
  define mp where "mp = (5 * doy + 2) div 153"
  define y0 where "y0 = yoe + e * 400"
  have z: "0 \<le> z" "z < 2 ^ 63" "z = 146097 * e + doe" using assms(1,2) by (simp_all add: z_def e_def doe_def)
  have doe: "0 \<le> doe" "doe < 146097" by (simp_all add: doe_def)
  have yoe: "0 \<le> yoe" "yoe < 400" "0 \<le> doy" "doy \<le> 365"
    using year_of_era_bounds [OF doe] by (simp_all add: yoe_def doy_def)
  have mp: "0 \<le> mp" "mp \<le> 11" using month_of_day [OF yoe(3,4)] by (simp_all add: mp_def)
  have res: "m = (if mp < 10 then mp + 3 else mp - 9)" "d = doy - (153 * mp + 2) div 5 + 1"
      "y = (if m \<le> 2 then y0 + 1 else y0)"
    using assms(3) unfolding civil_of_days_def Let_def z_def [symmetric] e_def [symmetric] doe_def [symmetric]
      yoe_def [symmetric] doy_def [symmetric] mp_def [symmetric] y0_def [symmetric] prod.inject by blast+
  have wz: "(of_int N :: u64) + 719468 = of_int z" by (simp add: z_def)
  have wera: "i64_div (if 0 \<le> sint (of_int z :: u64) then of_int z else of_int z - 146096) 146097 = of_int e"
    using i64_div_of_int [of z 146097] z(1,2) by (simp add: sint_of_int e_def)
  have wdoe: "(of_int z :: u64) - of_int e * 146097 = of_int doe" by (simp add: z(3))
  have wyoe: "((of_int doe :: u64) - of_int doe div 1460 + of_int doe div 36524 - of_int doe div 146096) div 365 = of_int yoe"
  proof -
    let ?n = "doe - doe div 1460 + doe div 36524 - doe div 146096"
    have "0 \<le> ?n" "?n < 2 ^ 64"
      using doe div_bounds [of 1460 doe] div_bounds [of 36524 doe] div_bounds [of 146096 doe] by simp_all
    then have "(of_int ?n :: u64) div 365 = of_int yoe"
      using word_div_of_int [of ?n 365] by (simp only: yoe_def year_of_era_def) simp
    moreover have "(of_int doe :: u64) div 1460 = of_int (doe div 1460)" "(of_int doe :: u64) div 36524 = of_int (doe div 36524)"
        "(of_int doe :: u64) div 146096 = of_int (doe div 146096)"
      using word_div_of_int [of doe 1460] word_div_of_int [of doe 36524] word_div_of_int [of doe 146096] doe by simp_all
    ultimately show ?thesis by (simp only: of_int_diff of_int_add)
  qed
  have wdoy: "(of_int doe :: u64) - (365 * of_int yoe + of_int yoe div 4 - of_int yoe div 100) = of_int doy"
    using word_div_of_int [of yoe 4] word_div_of_int [of yoe 100] yoe by (simp add: doy_def year_start_def)
  have wmp: "(5 * (of_int doy :: u64) + 2) div 153 = of_int mp"
    using word_div_of_int [of "5 * doy + 2" 153] yoe by (simp add: mp_def)
  have wd: "(of_int doy :: u64) - (153 * of_int mp + 2) div 5 + 1 = of_int d"
    using word_div_of_int [of "153 * mp + 2" 5] mp by (simp add: res)
  have wm: "(if (of_int mp :: u64) < 10 then of_int mp + 3 else of_int mp - 9) = of_int m"
    using word_le_of_int(2) [of mp 10] mp by (simp add: res)
  have wy: "(if (of_int m :: u64) \<le> 2 then of_int yoe + of_int e * 400 + 1 else of_int yoe + of_int e * 400) = of_int y"
  proof -
    have "0 \<le> m" "m \<le> 12" using mp by (simp_all add: res)
    then show ?thesis using word_le_of_int(1) [of m 2] by (simp add: res(3) y0_def)
  qed
  show ?thesis
    by (simp only: days_to_ymd_def Let_def wz wera wdoe wyoe wdoy wmp wd wm wy)
qed

lemma days_round_trip:
  assumes "N < 2 ^ 50" and "days_to_ymd (of_nat N) = (y, m, d)"
  obtains Y M D where "y = of_nat Y" and "m = of_nat M" and "d = of_nat D" and "1 \<le> M" and "M \<le> 12" and "1 \<le> D"
    and "D \<le> 31" and "Y < 2 ^ 50" and "days_from_civil y m d = of_nat N"
proof -
  obtain Y M D where ymd: "civil_of_days (int N) = (Y, M, D)" by (cases "civil_of_days (int N)")
  have N: "0 \<le> int N" "int N < 2 ^ 50" using assms(1) by simp_all
  have *: "civil_days Y M D = int N" "1 \<le> M" "M \<le> 12" "1 \<le> D" "D \<le> 31" "1 \<le> Y" "Y < 2 ^ 50"
    using civil_of_days_inverse [OF N(1) ymd] N(2) by auto
  have w: "y = of_int Y" "m = of_int M" "d = of_int D"
    using days_to_ymd_int [OF N ymd] assms(2) by auto
  have "days_from_civil y m d = of_int (int N)" unfolding w using days_from_civil_int [of Y M D] * by simp
  then show ?thesis using * by (intro that [of "nat Y" "nat M" "nat D"]) (auto simp: w)
qed

subsection \<open>Printing and reading a timestamp\<close>

text \<open>The worker's clock reading in seconds is a parameter.\<close>

definition iso8601_now :: "u64 \<Rightarrow> str" where
  "iso8601_now secs =
     (let days = secs div 86400;
          time_of_day = secs mod 86400;
          hours = time_of_day div 3600;
          minutes = time_of_day mod 3600 div 60;
          seconds = time_of_day mod 60;
          (year, month, day) = days_to_ymd days
      in pad 4 (unat year) @ ''-'' @ pad 2 (unat month) @ ''-'' @ pad 2 (unat day) @ ''T''
        @ pad 2 (unat hours) @ '':'' @ pad 2 (unat minutes) @ '':'' @ pad 2 (unat seconds) @ ''Z'')"

text \<open>A slice that ends within a character panics.\<close>

definition is_char_boundary :: "str \<Rightarrow> nat \<Rightarrow> bool" where
  "is_char_boundary s n \<longleftrightarrow> n = 0 \<or> n = length s \<or> n < length s \<and> \<not> cont_byte (of_char (s ! n))"

definition chars_count :: "str \<Rightarrow> nat" where
  "chars_count s = length (filter (\<lambda>c. \<not> cont_byte (of_char c)) s)"

definition frac_millis :: "str \<Rightarrow> u64 option option" where
  "frac_millis frac =
     (let n = min (length frac) 3; frac_str = take n frac
      in if is_char_boundary frac n
         then Some (parse_u64 (frac_str @ replicate (3 - chars_count frac_str) (CHR ''0'')))
         else None)"

definition parse_date :: "str \<Rightarrow> (i64 \<times> u64 \<times> u64) option" where
  "parse_date date_part =
     (case splitn 3 (CHR ''-'') date_part of
        [a, b, c] \<Rightarrow>
          (case (parse_i64 a, parse_u64 b, parse_u64 c) of
             (Some year, Some month, Some day) \<Rightarrow>
               if \<not> (1 \<le> month \<and> month \<le> 12) \<or> \<not> (1 \<le> day \<and> day \<le> 31) then None else Some (year, month, day)
           | _ \<Rightarrow> None)
      | _ \<Rightarrow> None)"

definition parse_time :: "str \<Rightarrow> (u64 \<times> u64 \<times> u64) option" where
  "parse_time time_main =
     (case splitn 3 (CHR '':'') time_main of
        [a, b, c] \<Rightarrow>
          (case (parse_u64 a, parse_u64 b, parse_u64 c) of
             (Some hour, Some minute, Some second) \<Rightarrow>
               if hour > 23 \<or> minute > 59 \<or> second > 60 then None else Some (hour, minute, second)
           | _ \<Rightarrow> None)
      | _ \<Rightarrow> None)"

definition parse_iso8601_to_epoch_ms :: "str \<Rightarrow> u64 option option" where
  "parse_iso8601_to_epoch_ms s0 =
     (case (case strip_suffix ''Z'' s0 of Some s \<Rightarrow> Some s | None \<Rightarrow> strip_suffix ''+00:00'' s0) of
        None \<Rightarrow> Some None
      | Some s \<Rightarrow>
          (case split_once (CHR ''T'') s of
             None \<Rightarrow> Some None
           | Some (date_part, time_part) \<Rightarrow>
               (case parse_date date_part of
                  None \<Rightarrow> Some None
                | Some (year, month, day) \<Rightarrow>
                    (case (case split_once (CHR ''.'') time_part of
                             Some (main, frac) \<Rightarrow> map_option (map_option (\<lambda>ms. (main, ms))) (frac_millis frac)
                           | None \<Rightarrow> Some (Some (time_part, 0))) of
                       None \<Rightarrow> None
                     | Some None \<Rightarrow> Some None
                     | Some (Some (time_main, frac_ms)) \<Rightarrow>
                         (case parse_time time_main of
                            None \<Rightarrow> Some None
                          | Some (hour, minute, second) \<Rightarrow>
                              (let days = days_from_civil year month day
                               in Some (Some (days * 86400000 + hour * 3600000 + minute * 60000 + second * 1000
                                    + frac_ms))))))))"

datatype iso_error = InvalidTimestamp str | InvalidDate | InvalidTime | ParseInt

definition MONTH_STARTS :: "u64 list" where
  "MONTH_STARTS = [0, 31, 59, 90, 120, 151, 181, 212, 243, 273, 304, 334]"

definition parse_iso8601 :: "str \<Rightarrow> (iso_error, u64) result option" where
  "parse_iso8601 ts0 =
     (let ts = trim_end_matches (CHR ''Z'') ts0
      in case split_once (CHR ''T'') ts of
           None \<Rightarrow> Some (Err (InvalidTimestamp ts))
         | Some (date, time) \<Rightarrow>
             (case split_on (CHR ''-'') date of
                [a, b, c] \<Rightarrow>
                  (case (parse_u64 a, parse_u64 b, parse_u64 c) of
                     (Some year, Some month, Some day) \<Rightarrow>
                       (case split_on (CHR '':'') time of
                          [h, mi, s] \<Rightarrow>
                            (case (parse_u64 h, parse_u64 mi, parse_u64 (hd (split_on (CHR ''.'') s))) of
                               (Some hour, Some minute, Some sec) \<Rightarrow>
                                 if unat (month - 1) < length MONTH_STARTS then
                                   (let days = (year - 1970) * 365 + (year - 1969) div 4
                                          + MONTH_STARTS ! unat (month - 1) + day - 1;
                                        epoch_secs = days * 86400 + hour * 3600 + minute * 60 + sec
                                    in Some (Okay (epoch_secs * 1000)))
                                 else None
                             | _ \<Rightarrow> Some (Err ParseInt))
                        | _ \<Rightarrow> Some (Err InvalidTime))
                   | _ \<Rightarrow> Some (Err ParseInt))
              | _ \<Rightarrow> Some (Err InvalidDate)))"

lemma word_div_of_nat:
  assumes "n < 2 ^ 64" "0 < k" "k < 2 ^ 64"
  shows "(of_nat n :: u64) div of_nat k = of_nat (n div k)" "(of_nat n :: u64) mod of_nat k = of_nat (n mod k)"
proof -
  have "unat (of_nat n :: u64) = n" "unat (of_nat k :: u64) = k" using assms by (simp_all add: unat_of_nat)
  then show "(of_nat n :: u64) div of_nat k = of_nat (n div k)" "(of_nat n :: u64) mod of_nat k = of_nat (n mod k)"
    by (simp_all add: word_div_def word_mod_def uint_nat flip: zdiv_int zmod_int)
qed

text \<open>The printed form, with the fields as natural numbers.\<close>

definition iso_text :: "nat \<Rightarrow> nat \<Rightarrow> nat \<Rightarrow> nat \<Rightarrow> nat \<Rightarrow> nat \<Rightarrow> str" where
  "iso_text Y M D h mi s =
     pad 4 Y @ ''-'' @ pad 2 M @ ''-'' @ pad 2 D @ ''T'' @ pad 2 h @ '':'' @ pad 2 mi @ '':'' @ pad 2 s @ ''Z''"

lemma iso8601_now_fields:
  assumes N: "N < 2 ^ 64" and ymd: "days_to_ymd (of_nat (N div 86400)) = (y, m, d)"
  shows "iso8601_now (of_nat N) = iso_text (unat y) (unat m) (unat d) (N mod 86400 div 3600) (N mod 3600 div 60) (N mod 60)"
proof -
  have fields: "(of_nat N :: u64) div 86400 = of_nat (N div 86400)" "(of_nat N :: u64) mod 86400 div 3600 = of_nat (N mod 86400 div 3600)"
      "(of_nat N :: u64) mod 86400 mod 3600 div 60 = of_nat (N mod 3600 div 60)" "(of_nat N :: u64) mod 86400 mod 60 = of_nat (N mod 60)"
    using word_div_of_nat [OF N, of 86400] word_div_of_nat [of "N mod 86400" 3600] word_div_of_nat [of "N mod 86400" 60]
      word_div_of_nat [of "N mod 3600" 60] by (simp_all add: mod_mod_cancel)
  have small: "unat (of_nat k :: u64) = k" if "k < 2 ^ 50" for k using that by (simp add: unat_of_nat)
  show ?thesis by (simp add: iso8601_now_def iso_text_def Let_def fields ymd small)
qed

lemma iso8601_now_text:
  assumes N: "N < 2 ^ 64"
  obtains Y M D where "iso8601_now (of_nat N) = iso_text Y M D (N mod 86400 div 3600) (N mod 3600 div 60) (N mod 60)"
    and "1 \<le> M" "M \<le> 12" "1 \<le> D" "D \<le> 31" "Y < 2 ^ 50"
    and "days_from_civil (of_nat Y) (of_nat M) (of_nat D) = of_nat (N div 86400)"
proof -
  let ?n = "N div 86400"
  obtain y m d where ymd: "days_to_ymd (of_nat ?n) = (y, m, d)" by (cases "days_to_ymd (of_nat ?n)")
  have "?n < 2 ^ 50" using N by simp
  then obtain Y M D where w: "y = of_nat Y" "m = of_nat M" "d = of_nat D" and b: "1 \<le> M" "M \<le> 12" "1 \<le> D" "D \<le> 31"
      "Y < 2 ^ 50" and days: "days_from_civil y m d = of_nat ?n"
    using ymd by (rule days_round_trip)
  have "unat y = Y" "unat m = M" "unat d = D" using b by (simp_all add: w unat_of_nat)
  then show ?thesis using that [of Y M D] iso8601_now_fields [OF N ymd] b days w by simp
qed

text \<open>The calendar: the years since 1970, the months before this one, the days before this one.\<close>

definition leap_year :: "nat \<Rightarrow> bool" where
  "leap_year y \<longleftrightarrow> 4 dvd y \<and> (\<not> 100 dvd y \<or> 400 dvd y)"

definition month_length :: "nat \<Rightarrow> nat \<Rightarrow> nat" where
  "month_length y m = (if m = 2 then (if leap_year y then 29 else 28) else if m \<in> {4, 6, 9, 11} then 30 else 31)"

definition calendar_days :: "nat \<Rightarrow> nat \<Rightarrow> nat \<Rightarrow> nat" where
  "calendar_days y m d =
     sum_list (map (\<lambda>k. if leap_year k then 366 else 365) [1970..<y]) + sum_list (map (month_length y) [1..<m]) + (d - 1)"

definition leap_count :: "int \<Rightarrow> int" where
  "leap_count y = y div 4 - y div 100 + y div 400"

lemma leap_count_nat: "leap_count (int y) = int (y div 4) - int (y div 100) + int (y div 400)"
  by (simp add: leap_count_def zdiv_int)

lemma leap_count_Suc: "leap_count (int (Suc y)) = leap_count (int y) + (if leap_year (Suc y) then 1 else 0)"
proof -
  have "Suc y mod 400 = 0 \<Longrightarrow> Suc y mod 100 = 0" "Suc y mod 100 = 0 \<Longrightarrow> Suc y mod 4 = 0"
    using dvd_trans [of 100 400 "Suc y"] dvd_trans [of 4 100 "Suc y"] by (simp_all add: dvd_eq_mod_eq_0)
  then show ?thesis unfolding leap_count_nat div_Suc leap_year_def dvd_eq_mod_eq_0 by auto
qed

lemma years_since_1970:
  "int (sum_list (map (\<lambda>k. if leap_year k then 366 else 365) [1970..<1970 + n]))
    = 365 * int n + leap_count (1969 + int n) - leap_count 1969"
proof (induction n)
  case (Suc n)
  have "leap_count (1969 + int (Suc n)) = leap_count (1969 + int n) + (if leap_year (1970 + n) then 1 else 0)"
    using leap_count_Suc [of "1969 + n"] by simp
  moreover have "[1970..<1970 + Suc n] = [1970..<1970 + n] @ [1970 + n]" by (subst add_Suc_right, subst upt_Suc) simp
  ultimately show ?case using Suc by (simp del: upt_Suc)
qed simp

lemma months_before:
  assumes "1 \<le> m" "m \<le> 12"
  shows "int (sum_list (map (month_length y) [1..<m])) =
    (if m \<le> 2 then (153 * (int m + 9) + 2) div 5 - 306
     else (153 * (int m - 3) + 2) div 5 + 59 + (if leap_year y then 1 else 0))"
proof -
  have "m = 1 \<or> m = 2 \<or> m = 3 \<or> m = 4 \<or> m = 5 \<or> m = 6 \<or> m = 7 \<or> m = 8 \<or> m = 9 \<or> m = 10 \<or> m = 11 \<or> m = 12"
    using assms by presburger
  then show ?thesis by (elim disjE) (simp_all add: upt_rec month_length_def)
qed

lemma civil_days_calendar:
  assumes "1970 \<le> y" "1 \<le> m" "m \<le> 12" "1 \<le> d"
  shows "civil_days (int y) (int m) (int d) = int (calendar_days y m d)"
proof -
  obtain n where y: "y = 1970 + n" using assms(1) by (metis le_Suc_ex)
  have step: "leap_count (int y) = leap_count (1969 + int n) + (if leap_year y then 1 else 0)"
    using leap_count_Suc [of "1969 + n"] by (simp add: y)
  have base: "leap_count 1969 = 477" by (simp add: leap_count_def)
  have cal: "int (calendar_days y m d) = 365 * int n + leap_count (1969 + int n) - 477
      + int (sum_list (map (month_length y) [1..<m])) + int d - 1"
    using assms(4) years_since_1970 [of n] by (simp add: calendar_days_def y base of_nat_diff)
  show ?thesis
  proof (cases "m \<le> 2")
    case True
    then have "civil_days (int y) (int m) (int d)
        = 365 * (1969 + int n) + leap_count (1969 + int n) + (153 * (int m + 9) + 2) div 5 + int d - 1 - 719468"
      by (simp add: civil_days_def Let_def leap_count_def y)
    then show ?thesis using cal months_before [OF assms(2,3), of y] True by simp
  next
    case False
    then have "civil_days (int y) (int m) (int d)
        = 365 * (1970 + int n) + leap_count (int y) + (153 * (int m - 3) + 2) div 5 + int d - 1 - 719468"
      by (simp add: civil_days_def Let_def leap_count_def y)
    then show ?thesis using cal months_before [OF assms(2,3), of y] False step by simp
  qed
qed

subsection \<open>What is shown of the readers\<close>

text \<open>
  The client's date arithmetic is the calendar: for every date from 1970 on whose month and
  day are in range, the result is the number of days since 1 January 1970, counted with
  366 days for the leap years of the Gregorian calendar and the length of each month.
\<close>

lemma days_from_civil_calendar:
  assumes "1970 \<le> y" and "y < 2 ^ 50" and "1 \<le> m" and "m \<le> 12" and "1 \<le> d" and "d \<le> 31"
  shows "days_from_civil (of_nat y) (of_nat m) (of_nat d) = of_nat (calendar_days y m d)"
  using days_from_civil_int [of "int y" "int m" "int d"] civil_days_calendar [of y m d] assms by simp

lemma days_from_civil_calendar_example:
  "days_from_civil (of_nat 1972) (of_nat 3) (of_nat 1) = of_nat (calendar_days 1972 3 1)
   \<and> calendar_days 1972 3 1 = 790"
proof
  show "days_from_civil (of_nat 1972) (of_nat 3) (of_nat 1) = of_nat (calendar_days 1972 3 1)"
    by (rule days_from_civil_calendar) simp_all
  show "calendar_days 1972 3 1 = 790" by (simp add: calendar_days_def month_length_def leap_year_def dvd_eq_mod_eq_0 upt_conv_Cons)
qed

lemma iso_text_parse_date:
  assumes "1 \<le> M" "M \<le> 12" "1 \<le> D" "D \<le> 31" "Y < 2 ^ 50"
  shows "parse_date (pad 4 Y @ ''-'' @ pad 2 M @ ''-'' @ pad 2 D) = Some (of_nat Y, of_nat M, of_nat D)"
proof -
  have "(1 :: u64) \<le> of_nat k" "k \<le> j \<Longrightarrow> (of_nat k :: u64) \<le> of_nat j" if "1 \<le> k" "k < 2 ^ 50" "j < 2 ^ 50" for k j
    using that by (simp_all add: word_le_nat_alt unat_of_nat)
  from this [of M 12] this [of D 31] show ?thesis
    using assms by (simp add: parse_date_def numeral_3_eq_3)
qed

lemma iso_text_parse_time:
  assumes "h \<le> 23" "mi \<le> 59" "s \<le> 59"
  shows "parse_time (pad 2 h @ '':'' @ pad 2 mi @ '':'' @ pad 2 s) = Some (of_nat h, of_nat mi, of_nat s)"
proof -
  have "\<not> (of_nat k :: u64) > of_nat j" if "k \<le> j" "j < 2 ^ 50" for k j
    using that by (simp add: word_less_nat_alt unat_of_nat)
  from this [of h 23] this [of mi 59] this [of s 60] show ?thesis
    using assms by (simp add: parse_time_def numeral_3_eq_3)
qed

lemma day_split: "N div 86400 * 86400000 + N mod 86400 div 3600 * 3600000 + N mod 3600 div 60 * 60000 + N mod 60 * 1000 = 1000 * N"
  for N :: nat
proof -
  have "N = 86400 * (N div 86400) + N mod 86400" by simp
  moreover have "N mod 86400 = 3600 * (N mod 86400 div 3600) + N mod 86400 mod 3600" by simp
  moreover have "N mod 86400 mod 3600 = N mod 3600" by (simp add: mod_mod_cancel)
  moreover have "N mod 3600 = 60 * (N mod 3600 div 60) + N mod 3600 mod 60" by simp
  moreover have "N mod 3600 mod 60 = N mod 60" by (simp add: mod_mod_cancel)
  ultimately show ?thesis by linarith
qed

text \<open>
  The client reads what the worker prints: for every clock reading whose milliseconds fit 64
  bits, the client's parser applied to the worker's timestamp returns exactly that
  reading in milliseconds, and neither side panics.
\<close>

lemma client_reads_printed:
  assumes "1000 * N < 2 ^ 64"
  shows "parse_iso8601_to_epoch_ms (iso8601_now (of_nat N)) = Some (Some (of_nat (1000 * N)))"
proof -
  let ?h = "N mod 86400 div 3600" and ?mi = "N mod 3600 div 60" and ?s = "N mod 60"
  have "N < 2 ^ 64" using assms by simp
  then obtain Y M D where printed: "iso8601_now (of_nat N) = iso_text Y M D ?h ?mi ?s"
    and b: "1 \<le> M" "M \<le> 12" "1 \<le> D" "D \<le> 31" "Y < 2 ^ 50"
    and days: "days_from_civil (of_nat Y) (of_nat M) (of_nat D) = of_nat (N div 86400)"
    by (rule iso8601_now_text)
  let ?date = "pad 4 Y @ ''-'' @ pad 2 M @ ''-'' @ pad 2 D" and ?time = "pad 2 ?h @ '':'' @ pad 2 ?mi @ '':'' @ pad 2 ?s"
  have "iso_text Y M D ?h ?mi ?s = (?date @ CHR ''T'' # ?time) @ ''Z''" by (simp add: iso_text_def)
  then have strip: "strip_suffix ''Z'' (iso8601_now (of_nat N)) = Some (?date @ CHR ''T'' # ?time)"
    unfolding printed by (simp only: strip_suffix_append)
  have split: "split_once (CHR ''T'') (?date @ CHR ''T'' # ?time) = Some (?date, ?time)" by (rule split_once_append) simp
  have frac: "split_once (CHR ''.'') ?time = None" by (rule split_once_none) simp
  have "?h \<le> 23" "?mi \<le> 59" "?s \<le> 59" by (simp_all add: less_mult_imp_div_less flip: less_Suc_eq_le)
  then have time: "parse_time ?time = Some (of_nat ?h, of_nat ?mi, of_nat ?s)" by (rule iso_text_parse_time)
  have "parse_iso8601_to_epoch_ms (iso8601_now (of_nat N)) = Some (Some (of_nat (N div 86400) * 86400000 + of_nat ?h * 3600000
      + of_nat ?mi * 60000 + of_nat ?s * 1000 + 0))"
    by (simp only: parse_iso8601_to_epoch_ms_def strip split frac time iso_text_parse_date [OF b] days option.case
        prod.case Let_def)
  also have "\<dots> = Some (Some (of_nat (N div 86400 * 86400000 + ?h * 3600000 + ?mi * 60000 + ?s * 1000)))" by simp
  finally show ?thesis by (simp only: day_split)
qed

text \<open>The dates of this century and the last: when a day number lies between 1970 and 2099.\<close>

lemma civil_year_range:
  fixes y m d :: int
  assumes m: "1 \<le> m" "m \<le> 12" and d: "1 \<le> d" "d \<le> 31" and y: "1 \<le> y"
    and days: "0 \<le> civil_days y m d" "civil_days y m d < 47482"
  shows "1970 \<le> y \<and> y \<le> 2099"
proof -
  define y0 where "y0 = (if m \<le> 2 then y - 1 else y)"
  define p where "p = (if m > 2 then m - 3 else m + 9)"
  define q where "q = (153 * p + 2) div 5"
  have c: "civil_days y m d = 365 * y0 + y0 div 4 - y0 div 100 + y0 div 400 + (q + d - 1) - 719468"
    unfolding civil_days_def Let_def y0_def [symmetric] p_def [symmetric] q_def by simp
  have q: "5 * q \<le> 153 * p + 2" "153 * p + 2 < 5 * q + 5" using div_bounds [of 5 "153 * p + 2"] by (simp_all add: q_def)
  have b: "4 * (y0 div 4) \<le> y0" "y0 < 4 * (y0 div 4) + 4" "100 * (y0 div 100) \<le> y0" "y0 < 100 * (y0 div 100) + 100"
    "400 * (y0 div 400) \<le> y0" "y0 < 400 * (y0 div 400) + 400"
    using div_bounds [of 4 y0] div_bounds [of 100 y0] div_bounds [of 400 y0] by simp_all
  have "1970 \<le> y"
  proof (rule ccontr)
    assume "\<not> 1970 \<le> y"
    show False
    proof (cases "y0 = 1969")
      case True
      with \<open>\<not> 1970 \<le> y\<close> have "p \<le> 9" using m by (auto simp: y0_def p_def split: if_splits)
      with True q d days(1) show False by (simp add: c)
    next
      case False
      with \<open>\<not> 1970 \<le> y\<close> have "y0 \<le> 1968" "p \<le> 11" using m by (auto simp: y0_def p_def split: if_splits)
      with q d days(1) b show False by (simp add: c)
    qed
  qed
  moreover have "y \<le> 2099"
  proof (rule ccontr)
    assume "\<not> y \<le> 2099"
    show False
    proof (cases "y0 = 2099")
      case True
      with \<open>\<not> y \<le> 2099\<close> have "10 \<le> p" using m by (auto simp: y0_def p_def split: if_splits)
      with True q d days(2) show False by (simp add: c)
    next
      case False
      with \<open>\<not> y \<le> 2099\<close> have "2100 \<le> y0" "0 \<le> p" using m by (auto simp: y0_def p_def split: if_splits)
      with q d days(2) b show False by (simp add: c)
    qed
  qed
  ultimately show ?thesis ..
qed

text \<open>The worker's own day count.\<close>

definition approx_days :: "nat \<Rightarrow> nat \<Rightarrow> nat \<Rightarrow> nat" where
  "approx_days y m d = (y - 1970) * 365 + (y - 1969) div 4
     + [0, 31, 59, 90, 120, 151, 181, 212, 243, 273, 304, 334] ! (m - 1) + (d - 1)"

lemma approx_days_calendar:
  assumes "1970 \<le> y" "y \<le> 2099" "1 \<le> m" "m \<le> 12" "1 \<le> d"
  shows "calendar_days y m d = approx_days y m d + (if leap_year y \<and> 2 < m then 1 else 0)"
proof -
  obtain n where y: "y = 1970 + n" using assms(1) by (metis le_Suc_ex)
  have years: "leap_count (1969 + int n) - leap_count 1969 = int ((y - 1969) div 4)"
  proof -
    have "(1969 + int n) div 4 = 492 + int ((y - 1969) div 4)" by (rule div_eqI) (simp_all add: y; presburger)+
    moreover have "(1969 + int n) div 400 - (1969 + int n) div 100 = - 15"
    proof (cases "n < 31")
      case True
      then have "(1969 + int n) div 400 = 4" "(1969 + int n) div 100 = 19" by (auto intro!: div_eqI)
      then show ?thesis by simp
    next
      case False
      then have "(1969 + int n) div 400 = 5" "(1969 + int n) div 100 = 20" using assms(2) y by (auto intro!: div_eqI)
      then show ?thesis by simp
    qed
    ultimately show ?thesis by (simp add: leap_count_def)
  qed
  have months: "sum_list (map (month_length y) [1..<m])
      = [0, 31, 59, 90, 120, 151, 181, 212, 243, 273, 304, 334] ! (m - 1) + (if leap_year y \<and> 2 < m then 1 else 0)"
  proof -
    have "m = 1 \<or> m = 2 \<or> m = 3 \<or> m = 4 \<or> m = 5 \<or> m = 6 \<or> m = 7 \<or> m = 8 \<or> m = 9 \<or> m = 10 \<or> m = 11 \<or> m = 12"
      using assms(3,4) by presburger
    then show ?thesis by (elim disjE) (simp_all add: upt_rec month_length_def)
  qed
  have "sum_list (map (\<lambda>k. if leap_year k then 366 else 365) [1970..<y]) = (y - 1970) * 365 + (y - 1969) div 4"
    using years_since_1970 [of n] years unfolding y by linarith
  then show ?thesis unfolding calendar_days_def approx_days_def months by linarith
qed

lemma month_starts_nth:
  assumes "1 \<le> M" "M \<le> 12"
  shows "MONTH_STARTS ! unat (of_nat M - 1 :: u64) = of_nat ([0, 31, 59, 90, 120, 151, 181, 212, 243, 273, 304, 334] ! (M - 1))"
    and "unat (of_nat M - 1 :: u64) < length MONTH_STARTS"
proof -
  have "(of_nat M - 1 :: u64) = of_nat (M - 1)" using assms by (simp add: of_nat_diff)
  then have u: "unat (of_nat M - 1 :: u64) = M - 1" using assms by (simp only: unat_of_nat) simp
  let ?starts = "[0, 31, 59, 90, 120, 151, 181, 212, 243, 273, 304, 334] :: nat list"
  have starts: "MONTH_STARTS = map of_nat ?starts" by (simp add: MONTH_STARTS_def)
  have "M - 1 < length ?starts" using assms by simp
  then show "MONTH_STARTS ! unat (of_nat M - 1 :: u64) = of_nat (?starts ! (M - 1))"
    and "unat (of_nat M - 1 :: u64) < length MONTH_STARTS"
    unfolding u starts by (rule nth_map, simp only: length_map)
qed

lemma approx_days_word:
  assumes "1970 \<le> Y" "Y \<le> 2099" "1 \<le> M" "M \<le> 12" "1 \<le> D"
  shows "(of_nat Y - 1970) * 365 + (of_nat Y - 1969) div 4 + MONTH_STARTS ! unat (of_nat M - 1 :: u64) + of_nat D - 1
    = (of_nat (approx_days Y M D) :: u64)"
proof -
  have y: "(of_nat Y :: u64) - 1970 = of_nat (Y - 1970)" "(of_nat Y :: u64) - 1969 = of_nat (Y - 1969)"
    using assms(1) by (simp_all add: of_nat_diff)
  have "(of_nat (Y - 1969) :: u64) div 4 = of_nat ((Y - 1969) div 4)"
    using word_div_of_nat(1) [of "Y - 1969" 4] assms(2) by simp
  then show ?thesis unfolding y month_starts_nth(1) [OF assms(3,4)] approx_days_def
    using assms(5) by (simp add: of_nat_diff del: nth_Cons_numeral)
qed

lemma trim_end_one: "t \<noteq> [] \<Longrightarrow> last t \<noteq> c \<Longrightarrow> trim_end_matches c (t @ [c]) = t"
  by (cases t rule: rev_cases) (simp_all add: trim_end_matches_def)

lemma parse_iso8601_text:
  assumes "1970 \<le> Y" "Y \<le> 2099" "1 \<le> M" "M \<le> 12" "1 \<le> D" "D \<le> 31" "h \<le> 23" "mi \<le> 59" "s \<le> 59"
  shows "parse_iso8601 (iso_text Y M D h mi s)
    = Some (Okay (of_nat ((approx_days Y M D * 86400 + h * 3600 + mi * 60 + s) * 1000)))"
proof -
  let ?date = "pad 4 Y @ ''-'' @ pad 2 M @ ''-'' @ pad 2 D" and ?time = "pad 2 h @ '':'' @ pad 2 mi @ '':'' @ pad 2 s"
  have "last (pad 2 s) \<noteq> CHR ''Z''" using pad_no_sign(6) [of 2 s] last_in_set [of "pad 2 s"] show_nat_nonempty [of s]
    by (metis append_is_Nil_conv pad_def)
  then have "trim_end_matches (CHR ''Z'') ((?date @ CHR ''T'' # ?time) @ [CHR ''Z'']) = ?date @ CHR ''T'' # ?time"
    by (intro trim_end_one) (simp_all add: pad_def)
  then have trim: "trim_end_matches (CHR ''Z'') (iso_text Y M D h mi s) = ?date @ CHR ''T'' # ?time"
    by (simp add: iso_text_def)
  have split: "split_once (CHR ''T'') (?date @ CHR ''T'' # ?time) = Some (?date, ?time)" by (rule split_once_append) simp
  have date: "split_on (CHR ''-'') ?date = [pad 4 Y, pad 2 M, pad 2 D]" by (simp add: split_on_append split_on_single)
  have time: "split_on (CHR '':'') ?time = [pad 2 h, pad 2 mi, pad 2 s]" by (simp add: split_on_append split_on_single)
  have sec: "hd (split_on (CHR ''.'') (pad 2 s)) = pad 2 s" by (simp add: split_on_single)
  have num: "parse_u64 (pad w k) = Some (of_nat k)" if "k < 10000" for w k using that by simp
  have parsed: "parse_u64 (pad 4 Y) = Some (of_nat Y)" "parse_u64 (pad 2 M) = Some (of_nat M)" "parse_u64 (pad 2 D) = Some (of_nat D)"
    "parse_u64 (pad 2 h) = Some (of_nat h)" "parse_u64 (pad 2 mi) = Some (of_nat mi)" "parse_u64 (pad 2 s) = Some (of_nat s)"
    using assms by (simp_all add: num)
  have "parse_iso8601 (iso_text Y M D h mi s)
      = Some (Okay ((of_nat (approx_days Y M D) * 86400 + of_nat h * 3600 + of_nat mi * 60 + of_nat s) * 1000))"
    by (simp only: parse_iso8601_def Let_def trim split date time sec parsed option.case prod.case list.case
        month_starts_nth(2) [OF assms(3,4)] approx_days_word [OF assms(1-5)] if_True)
  then show ?thesis by simp
qed

text \<open>
  The worker's own reader is a day behind after February of a leap year. For every clock
  reading before the year 2100, it returns what was printed, except that between 1 March
  and 31 December of a leap year the result is 24 hours too early.
\<close>

lemma worker_reader_leap_day:
  assumes "N < 4102444800" and "days_to_ymd (of_nat (N div 86400)) = (y, m, d)"
  shows "parse_iso8601 (iso8601_now (of_nat N)) =
    Some (Okay (of_nat (1000 * N) - (if leap_year (unat y) \<and> 2 < unat m then 86400000 else 0)))"
proof -
  let ?n = "N div 86400"
  obtain Y M D where civil: "civil_of_days (int ?n) = (Y, M, D)" by (cases "civil_of_days (int ?n)")
  have n: "0 \<le> int ?n" "int ?n < 2 ^ 50" "?n < 47482" using assms(1) by (simp_all add: less_mult_imp_div_less)
  have c: "civil_days Y M D = int ?n" and b: "1 \<le> M" "M \<le> 12" "1 \<le> D" "D \<le> 31" "1 \<le> Y"
    using civil_of_days_inverse [OF n(1) civil] by auto
  have Y: "1970 \<le> Y" "Y \<le> 2099" using civil_year_range [OF b] n c by auto
  define Y' where "Y' = nat Y"
  define M' where "M' = nat M"
  define D' where "D' = nat D"
  have ints: "Y = int Y'" "M = int M'" "D = int D'" using b Y by (simp_all add: Y'_def M'_def D'_def)
  have w: "y = of_nat Y'" "m = of_nat M'" "d = of_nat D'" using days_to_ymd_int [OF n(1,2) civil] assms(2) by (simp_all add: ints)
  have b': "1970 \<le> Y'" "Y' \<le> 2099" "1 \<le> M'" "M' \<le> 12" "1 \<le> D'" "D' \<le> 31" using b Y by (simp_all add: ints)
  have u: "unat y = Y'" "unat m = M'" using b' by (simp_all add: w unat_of_nat)
  let ?h = "N mod 86400 div 3600" and ?mi = "N mod 3600 div 60" and ?s = "N mod 60"
  let ?adj = "if leap_year Y' \<and> 2 < M' then 1 else 0 :: nat"
  have "N < 2 ^ 64" using assms(1) by simp
  from iso8601_now_fields [OF this assms(2)] have printed: "iso8601_now (of_nat N) = iso_text Y' M' D' ?h ?mi ?s"
    using b' by (simp add: u w(3) unat_of_nat)
  have "?h \<le> 23" "?mi \<le> 59" "?s \<le> 59" by (simp_all add: less_mult_imp_div_less flip: less_Suc_eq_le)
  note parse_iso8601_text [OF b' this]
  moreover have "?n = approx_days Y' M' D' + ?adj"
    using civil_days_calendar [of Y' M' D'] approx_days_calendar [of Y' M' D'] b' c by (simp add: ints)
  then have "(approx_days Y' M' D' * 86400 + ?h * 3600 + ?mi * 60 + ?s) * 1000 + ?adj * 86400000 = 1000 * N"
    using day_split [of N] by (simp add: algebra_simps)
  then have "(of_nat ((approx_days Y' M' D' * 86400 + ?h * 3600 + ?mi * 60 + ?s) * 1000) :: u64) + of_nat (?adj * 86400000)
      = of_nat (1000 * N)" by (simp only: flip: of_nat_add)
  ultimately show ?thesis unfolding printed u by (simp add: eq_diff_eq split: if_splits)
qed

end
