(* ===== verification/Batched_Sender.thy ===== *)
theory Batched_Sender
  imports Clock
begin

section \<open>Batched output of a worker\<close>

text \<open>
  \<open>crates/mxdx-worker/src/batched_sender.rs\<close>: output pushed into a channel is coalesced by a
  background task and sent in numbered batches. The task is a function of what its waits
  return: data from the channel, the end of the batch window, or the closed channel. The
  compressor (\<open>flate2\<close>) and the function that posts a batch are parameters; a batch number
  identifies a call, so a function of the payload, the number and the flag describes any
  sequence of outcomes. The trace lists the calls and the sleeps in order.
\<close>

subsection \<open>Configuration\<close>

definition DEFAULT_BATCH_WINDOW :: duration where
  "DEFAULT_BATCH_WINDOW = from_millis 200"

definition P2P_OPEN_BATCH_WINDOW :: duration where
  "P2P_OPEN_BATCH_WINDOW = from_millis 10"

record BatchConfig =
  bc_batch_window :: duration
  bc_compression_threshold :: nat
  bc_session_id :: "str option"

definition batch_config_default :: BatchConfig where
  "batch_config_default = \<lparr>bc_batch_window = DEFAULT_BATCH_WINDOW, bc_compression_threshold = 32, bc_session_id = None\<rparr>"

text \<open>The compressor: \<open>None\<close> where writing or finishing fails.\<close>

type_synonym deflater = "bytes \<Rightarrow> bytes option"

definition maybe_compress :: "deflater \<Rightarrow> bytes \<Rightarrow> nat \<Rightarrow> bytes \<times> bool" where
  "maybe_compress deflate data threshold =
     (if length data < threshold then (data, False)
      else (case deflate data of
              Some compressed \<Rightarrow> if length compressed < length data then (compressed, True) else (data, False)
            | None \<Rightarrow> (data, False)))"

text \<open>\<open>str::find\<close>, as the rest of the text from the match on.\<close>

fun find_from :: "str \<Rightarrow> str \<Rightarrow> str option" where
  "find_from pat [] = (if pat = [] then Some [] else None)"
| "find_from pat (c # s) = (if starts_with (c # s) pat then Some (c # s) else find_from pat s)"

text \<open>\<open>split\<close> at every character that is not an ASCII digit.\<close>

fun split_non_digits :: "str \<Rightarrow> str list" where
  "split_non_digits [] = [[]]"
| "split_non_digits (c # s) =
     (if \<not> is_digit c then [] # split_non_digits s
      else (case split_non_digits s of w # ws \<Rightarrow> (c # w) # ws | [] \<Rightarrow> [[c]]))"

fun first_positive :: "str list \<Rightarrow> u64 option" where
  "first_positive [] = None"
| "first_positive (w # ws) =
     (case parse_u64 w of
        Some ms \<Rightarrow> if ms > 0 then Some ms else first_positive ws
      | None \<Rightarrow> first_positive ws)"

definition parse_retry_after :: "str \<Rightarrow> u64 option" where
  "parse_retry_after error_msg =
     (case find_from ''retry_after_ms'' error_msg of
        Some rest \<Rightarrow> first_positive (split_non_digits rest)
      | None \<Rightarrow> None)"

subsection \<open>The batch loop\<close>

type_synonym send_fn = "bytes \<Rightarrow> u64 \<Rightarrow> bool \<Rightarrow> (str, unit) result"

record batch_env =
  be_config :: BatchConfig
  be_deflate :: deflater
  be_send :: send_fn

record batch_state =
  bs_seq :: u64
  bs_buffer :: bytes
  bs_backoff :: "duration option"

datatype batch_action = Slept duration | Posted bytes u64 bool "(str, unit) result"

datatype rx_event = Received bytes | Elapsed | ChannelClosed

definition take_backoff :: "batch_state \<Rightarrow> batch_state \<times> batch_action list" where
  "take_backoff st = (st\<lparr>bs_backoff := None\<rparr>, case bs_backoff st of Some wait \<Rightarrow> [Slept wait] | None \<Rightarrow> [])"

definition send_batch :: "batch_env \<Rightarrow> batch_state \<Rightarrow> batch_state \<times> batch_action list" where
  "send_batch E st =
     (let (payload, compressed) = maybe_compress (be_deflate E) (bs_buffer st) (bc_compression_threshold (be_config E));
          seq = bs_seq st + 1;
          st = st\<lparr>bs_buffer := [], bs_seq := seq\<rparr>;
          result = be_send E payload seq compressed;
          st = (case result of
                  Inr _ \<Rightarrow> st
                | Inl e \<Rightarrow>
                    if contains_str e ''429''
                    then st\<lparr>bs_backoff := Some (from_millis (unat (case parse_retry_after e of Some ms \<Rightarrow> ms | None \<Rightarrow> 5000)))\<rparr>
                    else st)
      in (st, [Posted payload seq compressed result]))"

text \<open>After the loop.\<close>

definition drain :: "batch_env \<Rightarrow> batch_state \<Rightarrow> batch_state \<times> batch_action list" where
  "drain E st =
     (if bs_buffer st \<noteq> [] then
        (let (payload, compressed) = maybe_compress (be_deflate E) (bs_buffer st) (bc_compression_threshold (be_config E));
             seq = bs_seq st + 1
         in (st\<lparr>bs_seq := seq\<rparr>, [Posted payload seq compressed (be_send E payload seq compressed)]))
      else (st, []))"

lemma send_batch_buffer [simp]: "bs_buffer (fst (send_batch E st)) = []"
  by (simp add: send_batch_def Let_def split: prod.split sum.split)

text \<open>
  With an empty buffer the loop waits for the channel alone, so the end of a window is no event
  for it. Once closed the channel stays closed: a batch sent because of it is followed by a
  turn that sees it again.
\<close>

function batch_loop :: "batch_env \<Rightarrow> rx_event list \<Rightarrow> batch_state \<Rightarrow> batch_state \<times> batch_action list" where
  "batch_loop E [] st = (st, [])"
| "batch_loop E (Received data # evs) st =
     (let (st, slept) = take_backoff st;
          (st, trace) = batch_loop E evs (st\<lparr>bs_buffer := bs_buffer st @ data\<rparr>)
      in (st, slept @ trace))"
| "batch_loop E (Elapsed # evs) st =
     (let (st, slept) = take_backoff st
      in if bs_buffer st = [] then (let (st, trace) = batch_loop E evs st in (st, slept @ trace))
         else (let (st, sent) = send_batch E st; (st, trace) = batch_loop E evs st in (st, slept @ sent @ trace)))"
| "batch_loop E (ChannelClosed # evs) st =
     (let (st, slept) = take_backoff st
      in if bs_buffer st = [] then (let (st, trace) = drain E st in (st, slept @ trace))
         else (let (st, sent) = send_batch E st; (st, trace) = batch_loop E (ChannelClosed # evs) st
               in (st, slept @ sent @ trace)))"
  by pat_completeness auto

termination
proof (relation "measure (\<lambda>(E, evs, st). 2 * length evs + (if bs_buffer st = [] then 0 else 1))"; simp add: take_backoff_def)
  fix E st sent and st' :: batch_state
  assume "(st', sent) = send_batch E (st\<lparr>bs_backoff := None\<rparr>)"
  then show "bs_buffer st' = []" by (metis send_batch_buffer fst_conv)
qed

definition batch_start :: batch_state where
  "batch_start = \<lparr>bs_seq = 0, bs_buffer = [], bs_backoff = None\<rparr>"

text \<open>\<open>set_batch_window\<close>, as the P2P integration calls it when the transport opens or leaves \<open>Open\<close>;
  a poisoned lock (\<open>None\<close>) leaves the window and reads as the default.\<close>

definition set_batch_window :: "duration \<Rightarrow> duration option \<Rightarrow> duration option" where
  "set_batch_window new_window window = (case window of Some _ \<Rightarrow> Some new_window | None \<Rightarrow> None)"

definition current_batch_window :: "duration option \<Rightarrow> duration" where
  "current_batch_window window = (case window of Some w \<Rightarrow> w | None \<Rightarrow> DEFAULT_BATCH_WINDOW)"

subsection \<open>What is shown of the batches\<close>

text \<open>What the channel delivered before it closed, and what the calls of a trace carried.\<close>

fun received :: "rx_event list \<Rightarrow> bytes" where
  "received [] = []"
| "received (Received data # evs) = data @ received evs"
| "received (Elapsed # evs) = received evs"
| "received (ChannelClosed # evs) = []"

fun post_text :: "(bytes \<Rightarrow> bytes) \<Rightarrow> batch_action \<Rightarrow> bytes" where
  "post_text inflate (Slept _) = []"
| "post_text inflate (Posted payload _ compressed _) = (if compressed then inflate payload else payload)"

fun post_seqs :: "batch_action list \<Rightarrow> u64 list" where
  "post_seqs [] = []"
| "post_seqs (Slept _ # tr) = post_seqs tr"
| "post_seqs (Posted _ seq _ _ # tr) = seq # post_seqs tr"

fun counted_from :: "u64 \<Rightarrow> u64 list \<Rightarrow> bool" where
  "counted_from n [] \<longleftrightarrow> True"
| "counted_from n (s # ss) \<longleftrightarrow> s = n + 1 \<and> counted_from (n + 1) ss"

lemma post_seqs_append [simp]: "post_seqs (xs @ ys) = post_seqs xs @ post_seqs ys"
  by (induction xs rule: post_seqs.induct) auto

lemma maybe_compress_text:
  assumes "\<forall>d c. deflate d = Some c \<longrightarrow> inflate c = d"
  shows "post_text inflate (Posted (fst (maybe_compress deflate d n)) s (snd (maybe_compress deflate d n)) r) = d"
  using assms by (auto simp: maybe_compress_def split: option.split)

lemma send_batch_posts:
  assumes "\<forall>d c. be_deflate E d = Some c \<longrightarrow> inflate c = d"
  shows "\<exists>a r. snd (send_batch E st) = [a] \<and> post_text inflate a = bs_buffer st \<and> post_seqs [a] = [bs_seq st + 1]
    \<and> bs_seq (fst (send_batch E st)) = bs_seq st + 1"
  using maybe_compress_text [OF assms, of "bs_buffer st" "bc_compression_threshold (be_config E)"]
  by (auto simp: send_batch_def Let_def split_beta split: sum.split)

text \<open>The loop, turn by turn; after the channel has closed at most one more batch is sent.\<close>

abbreviation awake :: "batch_state \<Rightarrow> batch_state" where
  "awake st \<equiv> st\<lparr>bs_backoff := None\<rparr>"

definition slept :: "batch_state \<Rightarrow> batch_action list" where
  "slept st = (case bs_backoff st of Some wait \<Rightarrow> [Slept wait] | None \<Rightarrow> [])"

lemma loop_turns:
  "batch_loop E (Received data # evs) st =
    (let r = batch_loop E evs ((awake st)\<lparr>bs_buffer := bs_buffer st @ data\<rparr>) in (fst r, slept st @ snd r))"
  "bs_buffer st = [] \<Longrightarrow> batch_loop E (Elapsed # evs) st =
    (let r = batch_loop E evs (awake st) in (fst r, slept st @ snd r))"
  "bs_buffer st \<noteq> [] \<Longrightarrow> batch_loop E (Elapsed # evs) st =
    (let b = send_batch E (awake st); r = batch_loop E evs (fst b) in (fst r, slept st @ snd b @ snd r))"
  "bs_buffer st = [] \<Longrightarrow> batch_loop E (ChannelClosed # evs) st = (awake st, slept st)"
  by (simp_all add: take_backoff_def slept_def drain_def Let_def split_beta)

lemma loop_closed:
  "bs_buffer st \<noteq> [] \<Longrightarrow> batch_loop E (ChannelClosed # evs) st =
    (let b = send_batch E (awake st) in (awake (fst b), slept st @ snd b @ slept (fst b)))"
  using loop_turns(4) [of "fst (send_batch E (awake st))" E evs]
  by (subst batch_loop.simps(4)) (simp add: take_backoff_def slept_def Let_def split_beta del: batch_loop.simps)

lemma slept_posts [simp]: "concat (map (post_text inflate) (slept st)) = []" "post_seqs (slept st) = []"
  by (cases "bs_backoff st"; simp add: slept_def)+

lemma batch_loop_posts:
  assumes law: "\<forall>d c. be_deflate E d = Some c \<longrightarrow> inflate c = d"
  shows "concat (map (post_text inflate) (snd (batch_loop E evs st))) @ bs_buffer (fst (batch_loop E evs st)) = bs_buffer st @ received evs
    \<and> counted_from (bs_seq st) (post_seqs (snd (batch_loop E evs st)))"
proof (induction evs arbitrary: st)
  case (Cons ev evs)
  obtain a where a: "snd (send_batch E (awake st)) = [a]" "post_text inflate a = bs_buffer st" "post_seqs [a] = [bs_seq st + 1]"
    "bs_seq (fst (send_batch E (awake st))) = bs_seq st + 1" using send_batch_posts [OF law, of "awake st"] by auto
  have seqs: "post_seqs (a # tr) = (bs_seq st + 1) # post_seqs tr" for tr using post_seqs_append [of "[a]" tr] a(3) by simp
  show ?case
  proof (cases ev)
    case (Received data)
    then show ?thesis
      using Cons [of "(awake st)\<lparr>bs_buffer := bs_buffer st @ data\<rparr>"] by (simp add: loop_turns Let_def del: batch_loop.simps)
  next
    case Elapsed
    then show ?thesis
      using Cons [of "awake st"] Cons [of "fst (send_batch E (awake st))"] a seqs
      by (cases "bs_buffer st = []") (simp_all add: loop_turns Let_def del: batch_loop.simps)
  next
    case ChannelClosed
    then show ?thesis
      using a seqs by (cases "bs_buffer st = []") (simp_all add: loop_turns loop_closed Let_def del: batch_loop.simps)
  qed
qed simp

text \<open>
  C21. Output leaves in order and in numbered batches. Whatever the channel yields and whenever the
  window ends, the texts of the calls, decompressed where flagged, followed by what is
  still buffered, are exactly the data received in order; and the calls are numbered
  consecutively, so no batch is posted twice.
\<close>

theorem batches_in_order:
  assumes "\<forall>d c. be_deflate E d = Some c \<longrightarrow> inflate c = d" and "batch_loop E evs batch_start = (st, trace)"
  shows "concat (map (post_text inflate) trace) @ bs_buffer st = received evs \<and> counted_from 0 (post_seqs trace)"
  using batch_loop_posts [OF assms(1), of evs batch_start] assms(2) by (simp add: batch_start_def)

text \<open>A compressor that halves runs of zeros, for the examples.\<close>

definition demo_deflate :: deflater where
  "demo_deflate d = (if d = replicate 40 0 then Some [40] else None)"

definition demo_inflate :: "bytes \<Rightarrow> bytes" where
  "demo_inflate c = replicate 40 0"

definition demo_env :: "send_fn \<Rightarrow> batch_env" where
  "demo_env send = \<lparr>be_config = batch_config_default, be_deflate = demo_deflate, be_send = send\<rparr>"

lemma demo_law: "\<forall>d c. be_deflate (demo_env send) d = Some c \<longrightarrow> demo_inflate c = d"
  by (auto simp: demo_env_def demo_deflate_def demo_inflate_def split: if_splits)

theorem batches_in_order_witness:
  "batch_loop (demo_env (\<lambda>_ _ _. Okay ())) [Received [1], Received [2], Elapsed, Received (replicate 40 0), ChannelClosed] batch_start
     = (\<lparr>bs_seq = 2, bs_buffer = [], bs_backoff = None\<rparr>, [Posted [1, 2] 1 False (Okay ()), Posted [40] 2 True (Okay ())])
   \<and> counted_from 0 [1, 2]"
proof -
  have run: "batch_loop (demo_env (\<lambda>_ _ _. Okay ())) [Received [1], Received [2], Elapsed, Received (replicate 40 0), ChannelClosed] batch_start
     = (\<lparr>bs_seq = 2, bs_buffer = [], bs_backoff = None\<rparr>, [Posted [1, 2] 1 False (Okay ()), Posted [40] 2 True (Okay ())])"
    by code_simp
  with batches_in_order [OF demo_law run] show ?thesis by simp
qed

subsection \<open>Failed batches\<close>

text \<open>What the successful calls of a trace carried.\<close>

fun delivered :: "(bytes \<Rightarrow> bytes) \<Rightarrow> batch_action list \<Rightarrow> bytes" where
  "delivered inflate [] = []"
| "delivered inflate (Posted p s c (Inr u) # tr) = post_text inflate (Posted p s c (Inr u)) @ delivered inflate tr"
| "delivered inflate (_ # tr) = delivered inflate tr"

lemma delivered_Cons:
  "delivered inflate (a # tr) = (case a of Posted _ _ _ (Inr _) \<Rightarrow> post_text inflate a | _ \<Rightarrow> []) @ delivered inflate tr"
  by (cases "(inflate, a # tr)" rule: delivered.cases) auto

lemma delivered_length: "length (delivered inflate tr) \<le> length (concat (map (post_text inflate) tr))"
proof (induction tr)
  case (Cons a tr)
  then show ?case by (simp add: delivered_Cons split: batch_action.split sum.split)
qed simp

lemma delivered_loss:
  assumes "Posted p s c (Inl e) \<in> set tr" and "post_text inflate (Posted p s c (Inl e)) \<noteq> []"
  shows "length (delivered inflate tr) < length (concat (map (post_text inflate) tr))"
proof -
  obtain xs ys where tr: "tr = xs @ Posted p s c (Inl e) # ys" using assms(1) by (meson split_list)
  have "delivered inflate (us @ vs) = delivered inflate us @ delivered inflate vs" for us vs
    by (induction us) (simp_all add: delivered_Cons)
  then have "delivered inflate tr = delivered inflate xs @ delivered inflate ys" by (simp add: tr)
  moreover have "0 < length (post_text inflate (Posted p s c (Inl e)))" using assms(2) by blast
  moreover have "length (concat (map (post_text inflate) tr)) = length (concat (map (post_text inflate) xs))
      + length (post_text inflate (Posted p s c (Inl e))) + length (concat (map (post_text inflate) ys))" by (simp add: tr)
  ultimately show ?thesis
    using delivered_length [of inflate xs] delivered_length [of inflate ys] by (simp only: length_append)
qed

lemma batch_loop_nonempty:
  assumes law: "\<forall>d c. be_deflate E d = Some c \<longrightarrow> inflate c = d"
  shows "Posted p s c r \<in> set (snd (batch_loop E evs st)) \<Longrightarrow> post_text inflate (Posted p s c r) \<noteq> []"
proof (induction evs arbitrary: st)
  case (Cons ev evs)
  obtain a where a: "snd (send_batch E (awake st)) = [a]" "post_text inflate a = bs_buffer st"
    using send_batch_posts [OF law, of "awake st"] by auto
  have no: "Posted p s c r \<notin> set (slept st')" for st' by (simp add: slept_def split: option.split)
  show ?case
    using Cons a no
    by (cases ev; cases "bs_buffer st = []")
      (auto simp: loop_turns loop_closed Let_def simp del: batch_loop.simps post_text.simps)
qed simp

text \<open>
  A batch that is rejected is lost. It leaves the buffer before the call and is never posted
  again, also when the failure was a rate limit: once the channel is closed and any call of
  the run failed, the successful calls carried less than was written.
\<close>

lemma rejected_batch_is_lost:
  assumes "\<forall>d c. be_deflate E d = Some c \<longrightarrow> inflate c = d" and "batch_loop E evs batch_start = (st, trace)"
    and "Posted p s c (Err e) \<in> set trace"
  shows "length (delivered inflate trace) < length (received evs)"
proof -
  have "post_text inflate (Posted p s c (Err e)) \<noteq> []"
    using batch_loop_nonempty [OF assms(1), of p s c "Err e" evs batch_start] assms(2,3) by simp
  from delivered_loss [OF assms(3) this] show ?thesis
    using batch_loop_posts [OF assms(1), of evs batch_start] assms(2)
    by (metis batch_start_def append_Nil batch_state.select_convs(2) fst_conv snd_conv length_append trans_less_add1)
qed

definition refusing :: send_fn where
  "refusing payload seq compressed = (if seq = 1 then Err ''429 retry_after_ms: 700'' else Okay ())"

lemma rejected_batch_is_lost_example:
  "batch_loop (demo_env refusing) [Received [1], Elapsed, Received [2], ChannelClosed] batch_start
     = (\<lparr>bs_seq = 2, bs_buffer = [], bs_backoff = None\<rparr>,
        [Posted [1] 1 False (Err ''429 retry_after_ms: 700''), Slept 700, Posted [2] 2 False (Okay ())])
   \<and> length (delivered demo_inflate
        [Posted [1] 1 False (Err ''429 retry_after_ms: 700''), Slept 700, Posted [2] 2 False (Okay ())]) < 2"
proof -
  have run: "batch_loop (demo_env refusing) [Received [1], Elapsed, Received [2], ChannelClosed] batch_start
     = (\<lparr>bs_seq = 2, bs_buffer = [], bs_backoff = None\<rparr>,
        [Posted [1] 1 False (Err ''429 retry_after_ms: 700''), Slept 700, Posted [2] 2 False (Okay ())])"
    by code_simp
  from rejected_batch_is_lost [OF demo_law run] run show ?thesis by fastforce
qed

text \<open>After a rate limit the next thing the loop does is to sleep, as long as the server asked or five
  seconds.\<close>

definition retry_wait :: "str \<Rightarrow> duration" where
  "retry_wait e = from_millis (unat (case parse_retry_after e of Some ms \<Rightarrow> ms | None \<Rightarrow> 5000))"

lemma backoff_slept_first:
  "bs_backoff st = Some w \<Longrightarrow> evs \<noteq> [] \<Longrightarrow> \<exists>tr. snd (batch_loop E evs st) = Slept w # tr"
  by (cases evs; cases "hd evs"; cases "bs_buffer st = []")
    (auto simp: loop_turns loop_closed slept_def Let_def simp del: batch_loop.simps)

lemma send_batch_backoff:
  "\<exists>p c r. snd (send_batch E st) = [Posted p (bs_seq st + 1) c r]
    \<and> (\<forall>e. r = Err e \<longrightarrow> contains_str e ''429'' \<longrightarrow> bs_backoff (fst (send_batch E st)) = Some (retry_wait e))"
  by (auto simp: send_batch_def Let_def split_beta retry_wait_def split: sum.split)

text \<open>Data that keeps arriving within the window is never sent: every item starts the wait anew.\<close>

lemma steady_stream_waits: "bs_backoff st = None \<Longrightarrow> snd (batch_loop E (map Received ds) st) = []"
  by (induction ds arbitrary: st) (simp_all add: loop_turns Let_def slept_def del: batch_loop.simps(2))

end
