(* ===== verification/Liveness.thy ===== *)
theory Liveness
  imports Clock Session_Types
begin

section \<open>Telemetry, liveness and reconnection\<close>

text \<open>
  A worker posts its telemetry as a state event (\<open>crates/mxdx-worker/src/telemetry.rs\<close>,
  \<open>crates/mxdx-types/src/events/telemetry.rs\<close>), the client decides from it whether a worker is alive and
  capable (\<open>crates/mxdx-client/src/liveness.rs\<close>) and which sessions it can return to
  (\<open>reconnect.rs\<close>), and a starting worker refuses to run beside another live instance of its name
  (\<open>crates/mxdx-worker/src/lib.rs\<close>, the check before the first telemetry). The back-off of the
  worker's sync loop is here too. The accessors of \<open>serde_json::Value\<close>, the clock and the system
  information are parameters. The outer \<open>None\<close> of a result is a panic.
\<close>

subsection \<open>Telemetry of a worker\<close>

record WorkerTelemetryState =
  tel_timestamp :: str
  tel_heartbeat_interval_ms :: u64
  tel_worker_uuid :: "str option"
  tel_hostname :: str
  tel_platform :: str
  tel_arch :: str
  tel_cpus :: "u32 option"
  tel_total_memory_mb :: "u64 option"
  tel_free_memory_mb :: "u64 option"
  tel_status :: str
  tel_capabilities :: "str list"
  tel_session_count :: "u32 option"
  tel_tmux_available :: bool
  tel_session_persistence :: bool

record TelemetryCollector =
  tc_worker_id :: str
  tc_worker_uuid :: str
  tc_refresh_seconds :: u64
  tc_extra_capabilities :: "str list"

definition telemetry_new :: "str \<Rightarrow> str \<Rightarrow> u64 \<Rightarrow> str list \<Rightarrow> TelemetryCollector" where
  "telemetry_new fresh_uuid worker_id refresh_seconds extra_capabilities =
     \<lparr>tc_worker_id = worker_id, tc_worker_uuid = fresh_uuid, tc_refresh_seconds = refresh_seconds,
      tc_extra_capabilities = extra_capabilities\<rparr>"

text \<open>What the operating system reports; the hostname may be unreadable, the command \<open>which\<close> may be absent.\<close>

record system_info =
  sys_hostname :: "str option"
  sys_name :: "str option"
  sys_os :: str
  sys_arch :: str
  sys_cpus :: nat
  sys_total_memory :: u64
  sys_available_memory :: u64
  sys_available_space :: "u64 list"
  sys_which :: "str \<Rightarrow> bool option"
  sys_version :: "str \<Rightarrow> str option"
  sys_secs :: u64

definition collect_telemetry_state ::
  "TelemetryCollector \<Rightarrow> system_info \<Rightarrow> u32 \<Rightarrow> str \<Rightarrow> WorkerTelemetryState option" where
  "collect_telemetry_state c sys session_count status =
     (case sys_hostname sys of
        None \<Rightarrow> None
      | Some host \<Rightarrow>
          (let tmux_available = (case sys_which sys ''tmux'' of Some ok \<Rightarrow> ok | None \<Rightarrow> False)
           in Some \<lparr>tel_timestamp = iso8601_now (sys_secs sys),
                tel_heartbeat_interval_ms = tc_refresh_seconds c * 1000,
                tel_worker_uuid = Some (tc_worker_uuid c), tel_hostname = host,
                tel_platform = (case sys_name sys of Some p \<Rightarrow> p | None \<Rightarrow> sys_os sys),
                tel_arch = sys_arch sys, tel_cpus = Some (of_nat (sys_cpus sys)),
                tel_total_memory_mb = Some (sys_total_memory sys div (1024 * 1024)),
                tel_free_memory_mb = Some (sys_available_memory sys div (1024 * 1024)),
                tel_status = status, tel_capabilities = tc_extra_capabilities c,
                tel_session_count = Some session_count, tel_tmux_available = tmux_available,
                tel_session_persistence = tmux_available\<rparr>))"

text \<open>\<open>probe_tools\<close>: the binaries found on the path, each with its reported version.\<close>

definition TOOLS :: "str list" where
  "TOOLS = [''bash'', ''python3'', ''node'', ''git'', ''docker'', ''tmux'', ''curl'']"

definition probe_tools :: "system_info \<Rightarrow> WorkerTool list" where
  "probe_tools sys =
     map (\<lambda>bin. \<lparr>wt_name = bin, wt_version = sys_version sys bin, wt_description = bin @ '' binary'', wt_healthy = True,
            wt_input_schema = \<lparr>is_type = ''object'', is_properties = Map.empty, is_required = []\<rparr>\<rparr>)
       (filter (\<lambda>bin. sys_which sys bin = Some True) TOOLS)"

definition collect_info :: "TelemetryCollector \<Rightarrow> system_info \<Rightarrow> WorkerInfo option" where
  "collect_info c sys =
     (case sys_hostname sys of
        None \<Rightarrow> None
      | Some host \<Rightarrow>
          Some \<lparr>wi_worker_id = tc_worker_id c, wi_host = host,
            wi_os = (case sys_name sys of Some os \<Rightarrow> os | None \<Rightarrow> ''unknown''), wi_arch = sys_arch sys,
            wi_cpu_count = of_nat (sys_cpus sys), wi_memory_total_mb = sys_total_memory sys div (1024 * 1024),
            wi_disk_available_mb = sum_list (sys_available_space sys) div (1024 * 1024), wi_tools = probe_tools sys,
            wi_capabilities = tc_extra_capabilities c, wi_updated_at = sys_secs sys\<rparr>)"

subsection \<open>One instance per worker name\<close>

text \<open>
  Before its first telemetry a worker reads the state event of its name: \<open>existing\<close> is the decoded
  event, \<open>None\<close> where the read failed, found nothing or found something else.
\<close>

datatype start_error = AnotherInstance str u64

definition check_competing ::
  "WorkerTelemetryState option \<Rightarrow> str \<Rightarrow> u64 \<Rightarrow> (start_error, unit) result option" where
  "check_competing existing worker_uuid now =
     (case existing of
        None \<Rightarrow> Some (Okay ())
      | Some st \<Rightarrow>
          if tel_status st = ''online'' then
            (case tel_worker_uuid st of
               None \<Rightarrow> Some (Okay ())
             | Some existing_uuid \<Rightarrow>
                 if existing_uuid \<noteq> worker_uuid then
                   (case parse_iso8601 (tel_timestamp st) of
                      None \<Rightarrow> None
                    | Some (Inl _) \<Rightarrow> Some (Okay ())
                    | Some (Inr existing_ts) \<Rightarrow>
                        (let stale_threshold = tel_heartbeat_interval_ms st * 2;
                             age_ms = saturating_sub now existing_ts
                         in if age_ms < stale_threshold then Some (Err (AnotherInstance existing_uuid age_ms))
                            else Some (Okay ())))
                 else Some (Okay ()))
          else Some (Okay ()))"

subsection \<open>Liveness as the client sees it\<close>

record 'v value_api =
  is_null :: "'v \<Rightarrow> bool"
  object_len :: "'v \<Rightarrow> nat option"
  value_get :: "'v \<Rightarrow> str \<Rightarrow> 'v option"
  as_str :: "'v \<Rightarrow> str option"
  as_u64 :: "'v \<Rightarrow> u64 option"
  as_array :: "'v \<Rightarrow> 'v list option"

definition str_field :: "'v value_api \<Rightarrow> 'v \<Rightarrow> str \<Rightarrow> str option" where
  "str_field A v k = Option.bind (value_get A v k) (as_str A)"

datatype LivenessStatus = LvOnline "str list" | LvStale u64 | LvOffline | LvNoWorker

definition check_worker_liveness :: "'v value_api \<Rightarrow> u64 \<Rightarrow> 'v \<Rightarrow> LivenessStatus option" where
  "check_worker_liveness A now_ms v =
     (if is_null A v \<or> (case object_len A v of None \<Rightarrow> True | Some n \<Rightarrow> n = 0) then Some LvNoWorker
      else
        (case str_field A v ''status'' of
           None \<Rightarrow> Some LvNoWorker
         | Some status \<Rightarrow>
             (case str_field A v ''timestamp'' of
                None \<Rightarrow> Some LvNoWorker
              | Some timestamp_str \<Rightarrow>
                  (let heartbeat_interval_ms =
                         (case Option.bind (value_get A v ''heartbeat_interval_ms'') (as_u64 A) of
                            Some n \<Rightarrow> n | None \<Rightarrow> 60000)
                   in if status = ''offline'' then Some LvOffline
                      else
                        (case parse_iso8601_to_epoch_ms timestamp_str of
                           None \<Rightarrow> None
                         | Some None \<Rightarrow> Some LvNoWorker
                         | Some (Some event_ts) \<Rightarrow>
                             (let age_ms = saturating_sub now_ms event_ts;
                                  stale_threshold_ms = 2 * heartbeat_interval_ms
                              in if age_ms > stale_threshold_ms then Some (LvStale age_ms)
                                 else Some (LvOnline
                                   (case Option.bind (value_get A v ''capabilities'') (as_array A) of
                                      Some arr \<Rightarrow> List.map_filter (as_str A) arr
                                    | None \<Rightarrow> []))))))))"

text \<open>\<open>Path::file_name\<close>: the last component, unless it is a parent reference or there is none; a
  current-directory component counts only at the start of a relative path.\<close>

definition file_name :: "str \<Rightarrow> str option" where
  "file_name path =
     (let rooted = (path \<noteq> [] \<and> hd path = CHR ''/'');
          parts = components path;
          kept = (case parts of [] \<Rightarrow> [] | p # ps \<Rightarrow> (if p = ''.'' \<and> rooted then [] else [p]) @ filter (\<lambda>q. q \<noteq> ''.'') ps)
      in if kept = [] \<or> last kept = ''..'' \<or> last kept = ''.'' then None else Some (last kept))"

definition cmd_basename :: "str \<Rightarrow> str" where
  "cmd_basename command = (case file_name command of Some n \<Rightarrow> n | None \<Rightarrow> command)"

definition capable :: "str \<Rightarrow> str list \<Rightarrow> bool" where
  "capable command capabilities \<longleftrightarrow>
     capabilities = [] \<or> (\<exists>c \<in> set capabilities. c = command \<or> c = cmd_basename command)"

fun find_capable_worker :: "'v value_api \<Rightarrow> u64 \<Rightarrow> (str \<times> 'v) list \<Rightarrow> str \<Rightarrow> str list option option" where
  "find_capable_worker A now_ms [] command = Some None"
| "find_capable_worker A now_ms ((key, v) # events) command =
     (case check_worker_liveness A now_ms v of
        None \<Rightarrow> None
      | Some (LvOnline capabilities) \<Rightarrow>
          if capable command capabilities then Some (Some capabilities)
          else find_capable_worker A now_ms events command
      | Some _ \<Rightarrow> find_capable_worker A now_ms events command)"

record WorkerLivenessSummary =
  ls_online :: u32
  ls_stale_details :: "u64 option"
  ls_offline :: u32
  ls_no_worker :: u32

fun summarize_step :: "LivenessStatus \<Rightarrow> WorkerLivenessSummary \<Rightarrow> WorkerLivenessSummary" where
  "summarize_step (LvOnline _) s = s\<lparr>ls_online := ls_online s + 1\<rparr>"
| "summarize_step (LvStale d) s =
     (if (case ls_stale_details s of None \<Rightarrow> True | Some prev \<Rightarrow> d < prev) then s\<lparr>ls_stale_details := Some d\<rparr> else s)"
| "summarize_step LvOffline s = s\<lparr>ls_offline := ls_offline s + 1\<rparr>"
| "summarize_step LvNoWorker s = s\<lparr>ls_no_worker := ls_no_worker s + 1\<rparr>"

fun summarize_loop ::
  "'v value_api \<Rightarrow> u64 \<Rightarrow> (str \<times> 'v) list \<Rightarrow> WorkerLivenessSummary \<Rightarrow> WorkerLivenessSummary option" where
  "summarize_loop A now_ms [] s = Some s"
| "summarize_loop A now_ms ((key, v) # events) s =
     (case check_worker_liveness A now_ms v of
        None \<Rightarrow> None
      | Some st \<Rightarrow> summarize_loop A now_ms events (summarize_step st s))"

definition summarize_worker_liveness :: "'v value_api \<Rightarrow> u64 \<Rightarrow> (str \<times> 'v) list \<Rightarrow> WorkerLivenessSummary option" where
  "summarize_worker_liveness A now_ms events =
     summarize_loop A now_ms events \<lparr>ls_online = 0, ls_stale_details = None, ls_offline = 0, ls_no_worker = 0\<rparr>"

subsection \<open>Sessions to return to\<close>

definition find_reconnectable_sessions ::
  "(str \<times> ActiveSessionState) list \<Rightarrow> str \<Rightarrow> (str \<times> ActiveSessionState) list" where
  "find_reconnectable_sessions active_sessions client_id = filter (\<lambda>(_, st). as_client_id st = client_id) active_sessions"

text \<open>The dash of the listing is the character U+2014.\<close>

definition format_reconnectable :: "(str \<times> ActiveSessionState) list \<Rightarrow> str" where
  "format_reconnectable sessions =
     (if sessions = [] then ''No active sessions to reconnect to.''
      else join [CHR 0x0A] (''Active sessions from this client:'' #
        map (\<lambda>(uuid, st).
          ''  '' @ uuid @ '' '' @ [CHR 0xE2, CHR 0x80, CHR 0x94] @ '' ''
          @ (if as_args st = [] then as_bin st else as_bin st @ '' '' @ join '' '' (as_args st))
          @ '' (worker: '' @ as_worker_id st @ '')'') sessions))"

subsection \<open>Back-off of the sync loop\<close>

record SyncBackoff =
  sb_current :: duration
  sb_min :: duration
  sb_max :: duration

definition backoff_new :: SyncBackoff where
  "backoff_new = \<lparr>sb_current = from_secs 1, sb_min = from_secs 1, sb_max = from_secs 30\<rparr>"

definition backoff_fail :: "SyncBackoff \<Rightarrow> duration \<times> SyncBackoff" where
  "backoff_fail b = (sb_current b, b\<lparr>sb_current := min (sb_current b * 2) (sb_max b)\<rparr>)"

definition backoff_success :: "SyncBackoff \<Rightarrow> SyncBackoff" where
  "backoff_success b = b\<lparr>sb_current := sb_min b\<rparr>"

subsection \<open>What is shown of liveness\<close>

lemma saturating_sub_less: "saturating_sub a b < c \<longleftrightarrow> unat a - unat b < unat c"
  by (simp add: word_less_nat_alt)

lemma unat_of_nat_u64: "n < 2 ^ 64 \<Longrightarrow> unat (of_nat n :: u64) = n"
  by (simp add: unat_of_nat)

lemma unat_times_2: "2 * unat (h :: u64) < 2 ^ 64 \<Longrightarrow> unat (2 * h) = 2 * unat h \<and> unat (h * 2) = 2 * unat h"
  by (simp add: unat_word_ariths)

text \<open>
  A client sees a worker alive for exactly two heartbeat intervals. Telemetry that a worker
  posted at clock reading \<open>N\<close> (in seconds) with a status other than offline is stale at \<open>now\<close> if more
  than two of its intervals have passed since, with the age as the difference of the two clocks,
  and otherwise online with the capabilities it names; a reading in the client's future counts
  as fresh.
\<close>

lemma liveness_window:
  assumes "object_len A v = Some (Suc n)" and "\<not> is_null A v" and "str_field A v ''status'' = Some status" and "status \<noteq> ''offline''"
    and "str_field A v ''timestamp'' = Some (iso8601_now (of_nat N))" and "1000 * N < 2 ^ 64"
    and "Option.bind (value_get A v ''heartbeat_interval_ms'') (as_u64 A) = Some h" and "2 * unat h < 2 ^ 64"
    and "Option.bind (value_get A v ''capabilities'') (as_array A) = Some arr"
  shows "check_worker_liveness A now_ms v =
    Some (if unat now_ms > 1000 * N + 2 * unat h then LvStale (now_ms - of_nat (1000 * N)) else LvOnline (List.map_filter (as_str A) arr))"
proof -
  have N: "unat (of_nat (1000 * N) :: u64) = 1000 * N" by (rule unat_of_nat_u64 [OF assms(6)])
  let ?age = "saturating_sub now_ms (of_nat (1000 * N))"
  have "?age > 2 * h \<longleftrightarrow> unat now_ms > 1000 * N + 2 * unat h"
    unfolding word_less_nat_alt unat_saturating_sub N using unat_times_2 [OF assms(8)] by auto
  moreover have "unat now_ms > 1000 * N + 2 * unat h \<Longrightarrow> ?age = now_ms - of_nat (1000 * N)"
    unfolding saturating_sub_def word_le_nat_alt N by simp
  ultimately show ?thesis
    using assms client_reads_printed [OF assms(6)] by (auto simp: check_worker_liveness_def Let_def)
qed

text \<open>JSON trees with the accessors of the library, for the examples.\<close>

datatype json = JNull | JStr str | JNum u64 | JArr "json list" | JObj "(str \<times> json) list"

definition json_api :: "json value_api" where
  "json_api =
     \<lparr>is_null = (\<lambda>v. v = JNull), object_len = (\<lambda>v. case v of JObj m \<Rightarrow> Some (length m) | _ \<Rightarrow> None),
      value_get = (\<lambda>v k. case v of JObj m \<Rightarrow> map_of m k | _ \<Rightarrow> None),
      as_str = (\<lambda>v. case v of JStr s \<Rightarrow> Some s | _ \<Rightarrow> None), as_u64 = (\<lambda>v. case v of JNum n \<Rightarrow> Some n | _ \<Rightarrow> None),
      as_array = (\<lambda>v. case v of JArr a \<Rightarrow> Some a | _ \<Rightarrow> None)\<rparr>"

definition demo_telemetry :: json where
  "demo_telemetry =
     JObj [(''status'', JStr ''online''), (''timestamp'', JStr (iso8601_now (of_nat 1772366400))),
       (''heartbeat_interval_ms'', JNum 30000), (''capabilities'', JArr [JStr ''git''])]"

lemma demo_telemetry_fields:
  "object_len json_api demo_telemetry = Some (Suc 3)" "\<not> is_null json_api demo_telemetry"
  "str_field json_api demo_telemetry ''status'' = Some ''online''"
  "str_field json_api demo_telemetry ''timestamp'' = Some (iso8601_now (of_nat 1772366400))"
  "Option.bind (value_get json_api demo_telemetry ''heartbeat_interval_ms'') (as_u64 json_api) = Some 30000"
  "Option.bind (value_get json_api demo_telemetry ''capabilities'') (as_array json_api) = Some [JStr ''git'']"
  by (simp_all add: json_api_def demo_telemetry_def str_field_def)

lemma liveness_window_example:
  "check_worker_liveness json_api 1772366460000 demo_telemetry = Some (LvOnline [''git''])
   \<and> check_worker_liveness json_api 1772366460001 demo_telemetry = Some (LvStale 60001)"
  using liveness_window [OF demo_telemetry_fields(1-3) _ demo_telemetry_fields(4) _ demo_telemetry_fields(5) _ demo_telemetry_fields(6),
      of 1772366460000]
    liveness_window [OF demo_telemetry_fields(1-3) _ demo_telemetry_fields(4) _ demo_telemetry_fields(5) _ demo_telemetry_fields(6),
      of 1772366460001]
  by (simp add: json_api_def List.map_filter_def)

text \<open>
  C33. The check for a second instance fails for most of every leap year. Let another instance have
  posted telemetry as online at clock reading \<open>N\<close>, before the year 2100. A worker that starts at \<open>now\<close>
  refuses to run if and only if less than two heartbeat intervals have passed since, except
  between 1 March and 31 December of a leap year: there the reader puts the telemetry a day back,
  so with two intervals of a day or less an instance that posted a moment ago is taken for
  dead and the new worker starts beside it.
\<close>

theorem second_instance_refused:
  assumes "tel_status st = ''online''" and "tel_worker_uuid st = Some other" and "other \<noteq> me"
    and "tel_timestamp st = iso8601_now (of_nat N)" and "86400 \<le> N" and "N < 4102444800" and "1000 * N \<le> unat now"
    and "2 * unat (tel_heartbeat_interval_ms st) < 2 ^ 64"
    and "days_to_ymd (of_nat (N div 86400)) = (y, m, d)"
  shows "\<exists>r. check_competing (Some st) me now = Some r \<and>
    ((\<exists>e. r = Err e) \<longleftrightarrow>
      unat now - 1000 * N + (if leap_year (unat y) \<and> 2 < unat m then 86400000 else 0) < 2 * unat (tel_heartbeat_interval_ms st))"
proof -
  let ?adj = "if leap_year (unat y) \<and> 2 < unat m then 86400000 else 0 :: nat"
  let ?ts = "of_nat (1000 * N) - (if leap_year (unat y) \<and> 2 < unat m then 86400000 else 0) :: u64"
  have ts: "parse_iso8601 (tel_timestamp st) = Some (Okay ?ts)"
    unfolding assms(4) by (rule worker_reader_leap_day [OF assms(6,9)])
  have "?ts = of_nat (1000 * N - ?adj)" using assms(5) by (simp add: of_nat_diff)
  then have "unat ?ts = 1000 * N - ?adj" using unat_of_nat_u64 [of "1000 * N - ?adj"] assms(6) by simp
  then have "unat (saturating_sub now ?ts) = unat now - 1000 * N + ?adj" using assms(5,7) by auto
  then have "saturating_sub now ?ts < tel_heartbeat_interval_ms st * 2
      \<longleftrightarrow> unat now - 1000 * N + ?adj < 2 * unat (tel_heartbeat_interval_ms st)"
    using unat_times_2 [OF assms(8)] by (simp only: word_less_nat_alt)
  then show ?thesis using assms(1-3) ts by (auto simp: check_competing_def Let_def)
qed

definition demo_instance :: WorkerTelemetryState where
  "demo_instance =
     \<lparr>tel_timestamp = iso8601_now (of_nat 1835481600), tel_heartbeat_interval_ms = 60000, tel_worker_uuid = Some ''a'',
      tel_hostname = ''h'', tel_platform = ''p'', tel_arch = ''x'', tel_cpus = None, tel_total_memory_mb = None,
      tel_free_memory_mb = None, tel_status = ''online'', tel_capabilities = [], tel_session_count = None,
      tel_tmux_available = False, tel_session_persistence = False\<rparr>"

text \<open>Telemetry of 1 March 2028, seen one second later.\<close>

theorem second_instance_refused_witness: "check_competing (Some demo_instance) ''b'' 1835481601000 = Some (Okay ())"
proof -
  have "days_to_ymd 21244 = (2028, 3, 1)" by code_simp
  then have ymd: "days_to_ymd (of_nat (1835481600 div 86400)) = (2028, 3, 1)" by simp
  have leap: "leap_year 2028" by code_simp
  have fields: "tel_status demo_instance = ''online''" "tel_worker_uuid demo_instance = Some ''a''" "''a'' \<noteq> ''b''"
    "tel_timestamp demo_instance = iso8601_now (of_nat 1835481600)" by (simp_all add: demo_instance_def)
  obtain r where "check_competing (Some demo_instance) ''b'' 1835481601000 = Some r" "\<nexists>e. r = Err e"
    using second_instance_refused [OF fields _ _ _ _ ymd, of 1835481601000] leap by (auto simp: demo_instance_def)
  then show ?thesis by (cases r) auto
qed

text \<open>Reading a timestamp of ASCII text never panics; a fraction whose third byte lies within a
  character does, so that telemetry with such a timestamp stops the client that reads it.\<close>

lemma ascii_boundary: "\<forall>c \<in> set s. (of_char c :: nat) < 128 \<Longrightarrow> n \<le> length s \<Longrightarrow> is_char_boundary s n"
proof -
  assume ascii: "\<forall>c \<in> set s. (of_char c :: nat) < 128" and n: "n \<le> length s"
  have "\<not> cont_byte (of_char c)" if "(of_char c :: nat) < 128" for c
  proof -
    have "unat (of_nat (of_char c) :: u8) = of_char c" using that by (simp add: unat_of_nat)
    then have "unat (of_char c :: u8) = of_char c" by (simp only: of_nat_of_char)
    then show ?thesis using that by (simp add: cont_byte_def word_le_nat_alt)
  qed
  then show ?thesis using ascii n by (auto simp: is_char_boundary_def)
qed

lemma ascii_timestamp_total:
  assumes "\<forall>c \<in> set s. (of_char c :: nat) < 128"
  shows "parse_iso8601_to_epoch_ms s \<noteq> None"
proof
  assume "parse_iso8601_to_epoch_ms s = None"
  then obtain t date time main frac
    where t: "(case strip_suffix ''Z'' s of Some s \<Rightarrow> Some s | None \<Rightarrow> strip_suffix ''+00:00'' s) = Some t"
      and time: "split_once (CHR ''T'') t = Some (date, time)" and frac: "split_once (CHR ''.'') time = Some (main, frac)"
      and panic: "frac_millis frac = None"
    by (simp only: parse_iso8601_to_epoch_ms_def Let_def) (simp split: option.split_asm prod.split_asm)
  have "set t \<subseteq> set s"
    using t by (auto simp: strip_suffix_def dest: in_set_takeD split: option.splits if_splits)
  moreover have "set frac \<subseteq> set t" using split_once_Some [OF time] split_once_Some [OF frac] by auto
  ultimately show False
    using panic ascii_boundary [of frac "min (length frac) 3"] assms by (simp add: frac_millis_def Let_def subset_iff)
qed

lemma timestamp_panics:
  "parse_iso8601_to_epoch_ms (''2028-03-01T00:00:00.12'' @ [CHR 0xE2, CHR 0x82, CHR 0xAC] @ ''Z'') = None"
  by code_simp

subsection \<open>Choosing a worker\<close>

text \<open>The first live worker of the list that allows the command, and none only if there is none.\<close>

lemma find_capable_worker_first:
  "find_capable_worker A now_ms events command = Some (Some caps) \<Longrightarrow>
    \<exists>pre k v post. events = pre @ (k, v) # post \<and> check_worker_liveness A now_ms v = Some (LvOnline caps) \<and> capable command caps
      \<and> (\<forall>(k', v') \<in> set pre. \<nexists>c. check_worker_liveness A now_ms v' = Some (LvOnline c) \<and> capable command c)"
proof (induction A now_ms events command rule: find_capable_worker.induct)
  case (2 A now_ms key v events command)
  show ?case
  proof (cases "\<exists>c. check_worker_liveness A now_ms v = Some (LvOnline c) \<and> capable command c")
    case True
    then have "check_worker_liveness A now_ms v = Some (LvOnline caps) \<and> capable command caps"
      using "2.prems" by auto
    then show ?thesis by (intro exI [of _ "[]"] exI [of _ key] exI [of _ v] exI [of _ events]) simp
  next
    case False
    then have rest: "find_capable_worker A now_ms events command = Some (Some caps)"
      using "2.prems" by (auto split: option.splits LivenessStatus.splits)
    from False "2.prems" obtain pre k w post where "events = pre @ (k, w) # post"
      "check_worker_liveness A now_ms w = Some (LvOnline caps)" "capable command caps"
      "\<forall>(k', v') \<in> set pre. \<nexists>c. check_worker_liveness A now_ms v' = Some (LvOnline c) \<and> capable command c"
      using "2.IH" rest by (auto split: option.splits LivenessStatus.splits; blast)
    with False show ?thesis by (intro exI [of _ "(key, v) # pre"]) auto
  qed
qed simp

text \<open>A summary counts every worker once and keeps the age of the one heard of last among the stale.\<close>

lemma summarize_fold:
  assumes "map (\<lambda>(k, v). check_worker_liveness A now_ms v) events = map Some sts"
  shows "summarize_loop A now_ms events s = Some (fold summarize_step sts s)"
  using assms
proof (induction events arbitrary: sts s)
  case (Cons e events)
  then show ?case by (cases e; cases sts) auto
qed simp

lemma summary_counts:
  "ls_online (fold summarize_step sts s) = ls_online s + of_nat (length (filter (\<lambda>x. \<exists>c. x = LvOnline c) sts))
   \<and> ls_offline (fold summarize_step sts s) = ls_offline s + of_nat (count_list sts LvOffline)
   \<and> ls_no_worker (fold summarize_step sts s) = ls_no_worker s + of_nat (count_list sts LvNoWorker)"
proof (induction sts arbitrary: s)
  case (Cons x sts)
  then show ?case by (cases x) (auto simp: algebra_simps)
qed simp

lemma summary_least_stale:
  "ls_stale_details (fold summarize_step sts s) =
    fold (\<lambda>d acc. Some (case acc of None \<Rightarrow> d | Some prev \<Rightarrow> min d prev))
      (List.map_filter (\<lambda>x. case x of LvStale d \<Rightarrow> Some d | _ \<Rightarrow> None) sts) (ls_stale_details s)"
proof (induction sts arbitrary: s)
  case (Cons x sts)
  then show ?case by (cases x) (auto simp: List.map_filter_def min_def split: option.splits)
qed (simp add: List.map_filter_def)

text \<open>
  Sync failures are retried ever more slowly and at least every thirty seconds: after \<open>n\<close>
  consecutive failures since the start or the last success the next one waits the smaller
  of \<open>2 ^ n\<close> and 30 seconds.
\<close>

lemma backoff_waits:
  "fst (backoff_fail (((\<lambda>b. snd (backoff_fail b)) ^^ n) backoff_new)) = from_secs (min (2 ^ n) 30)
   \<and> backoff_success (((\<lambda>b. snd (backoff_fail b)) ^^ n) backoff_new) = backoff_new"
proof -
  have "((\<lambda>b. snd (backoff_fail b)) ^^ n) backoff_new = backoff_new\<lparr>sb_current := from_secs (min (2 ^ n) 30)\<rparr>"
    by (induction n) (auto simp: backoff_fail_def backoff_new_def from_secs_def min_def)
  then show ?thesis by (simp add: backoff_fail_def backoff_success_def backoff_new_def)
qed

end
