(* ===== verification/Worker_Exec.thy ===== *)
theory Worker_Exec
  imports Paths Session_Types P2P_Crypto
begin

section \<open>Command validation and output of a worker\<close>

text \<open>
  The model of \<open>crates/mxdx-worker/src/executor.rs\<close> and \<open>output.rs\<close>: the validators that a task
  passes before anything is executed, and the router that turns output into numbered
  events. The file system is the parameter \<open>file_system\<close>; base64 is the field of \<open>crypto_lib\<close>.
\<close>

subsection \<open>Validators\<close>

record file_system =
  path_exists :: "str \<Rightarrow> bool"
  path_is_dir :: "str \<Rightarrow> bool"

datatype ExecError =
    BinEmpty
  | BinMetacharacters str
  | BinSpaces str
  | ArgNul nat
  | CwdNotAbsolute str
  | CwdTraversal str
  | CwdNotDirectory str
  | InvalidEnvKey str
  | AllowlistEmpty
  | NotInAllowlist str "str list"
  | CwdAllowlistEmpty
  | CwdNotAllowed str "str list"
  | CwdRequired

record ValidatedCommand =
  vc_bin :: str
  vc_args :: "str list"
  vc_env :: "str \<rightharpoonup> str"
  vc_cwd :: "str option"

definition SHELL_METACHARACTERS :: "char list" where
  "SHELL_METACHARACTERS = '';|&$`(){}<>'' @ [CHR 0x0A, CHR 0x0D]"

definition validate_bin :: "file_system \<Rightarrow> str \<Rightarrow> (ExecError, unit) result" where
  "validate_bin fs bin =
     (if bin = [] then Err BinEmpty
      else if list_ex (\<lambda>c. c \<in> set SHELL_METACHARACTERS) bin then Err (BinMetacharacters bin)
      else if CHR '' '' \<in> set bin \<and> \<not> path_exists fs bin then Err (BinSpaces bin)
      else Okay ())"

text \<open>The loop of \<open>validate_args\<close>, from index \<open>i\<close> on.\<close>

fun validate_args_from :: "nat \<Rightarrow> str list \<Rightarrow> (ExecError, unit) result" where
  "validate_args_from i [] = Okay ()"
| "validate_args_from i (arg # args) =
     (if CHR 0x00 \<in> set arg then Err (ArgNul i) else validate_args_from (Suc i) args)"

definition validate_args :: "str list \<Rightarrow> (ExecError, unit) result" where
  "validate_args args = validate_args_from 0 args"

definition validate_cwd :: "file_system \<Rightarrow> str \<Rightarrow> (ExecError, unit) result" where
  "validate_cwd fs cwd =
     (if \<not> starts_with cwd ''/'' then Err (CwdNotAbsolute cwd)
      else if contains_str cwd ''..'' then Err (CwdTraversal cwd)
      else if \<not> path_is_dir fs cwd then Err (CwdNotDirectory cwd)
      else Okay ())"

definition is_ascii_uppercase :: "char \<Rightarrow> bool" where
  "is_ascii_uppercase c \<longleftrightarrow> 65 \<le> (of_char c :: nat) \<and> (of_char c :: nat) \<le> 90"

definition is_ascii_digit :: "char \<Rightarrow> bool" where
  "is_ascii_digit c \<longleftrightarrow> 48 \<le> (of_char c :: nat) \<and> (of_char c :: nat) \<le> 57"

fun is_valid_env_key :: "str \<Rightarrow> bool" where
  "is_valid_env_key [] = False"
| "is_valid_env_key (first # rest) =
     (if \<not> is_ascii_uppercase first \<and> first \<noteq> CHR ''_'' then False
      else list_all (\<lambda>c. is_ascii_uppercase c \<or> is_ascii_digit c \<or> c = CHR ''_'') rest)"

fun validate_env_keys :: "str list \<Rightarrow> (ExecError, unit) result" where
  "validate_env_keys [] = Okay ()"
| "validate_env_keys (key # keys) =
     (if \<not> is_valid_env_key key then Err (InvalidEnvKey key) else validate_env_keys keys)"

definition validate_env :: "key_order \<Rightarrow> (str \<rightharpoonup> str) \<Rightarrow> (ExecError, unit) result" where
  "validate_env it env = validate_env_keys (it (dom env))"

definition validate_allowlist :: "str \<Rightarrow> str list \<Rightarrow> (ExecError, unit) result" where
  "validate_allowlist bin allowed =
     (if allowed = [] then Err AllowlistEmpty
      else if \<not> list_ex (\<lambda>a. a = bin) allowed then Err (NotInAllowlist bin allowed)
      else Okay ())"

definition validate_cwd_allowlist :: "str \<Rightarrow> str list \<Rightarrow> (ExecError, unit) result" where
  "validate_cwd_allowlist cwd allowed =
     (if allowed = [] then Err CwdAllowlistEmpty
      else if \<not> list_ex (\<lambda>a. cwd = a \<or> starts_with cwd (trim_end_matches (CHR ''/'') a @ ''/'')) allowed
      then Err (CwdNotAllowed cwd allowed)
      else Okay ())"

definition and_then :: "('e, unit) result \<Rightarrow> ('e, 'a) result \<Rightarrow> ('e, 'a) result" where
  "and_then r s = (case r of Inl e \<Rightarrow> Err e | Inr _ \<Rightarrow> s)"

definition validate_command ::
  "file_system \<Rightarrow> key_order \<Rightarrow> str \<Rightarrow> str list \<Rightarrow> (str \<rightharpoonup> str) option \<Rightarrow> str option \<Rightarrow> str list
     \<Rightarrow> str list \<Rightarrow> (ExecError, ValidatedCommand) result" where
  "validate_command fs it bin args env cwd allowed_commands allowed_cwd =
     and_then (validate_allowlist bin allowed_commands)
      (and_then
        (case cwd of
           Some c \<Rightarrow> validate_cwd_allowlist c allowed_cwd
         | None \<Rightarrow> if allowed_cwd \<noteq> [] then Err CwdRequired else Okay ())
        (and_then (validate_bin fs bin)
          (and_then (validate_args args)
            (and_then (case env of Some e \<Rightarrow> validate_env it e | None \<Rightarrow> Okay ())
              (and_then (case cwd of Some c \<Rightarrow> validate_cwd fs c | None \<Rightarrow> Okay ())
                (Okay \<lparr>vc_bin = bin, vc_args = args,
                       vc_env = (case env of Some e \<Rightarrow> e | None \<Rightarrow> Map.empty), vc_cwd = cwd\<rparr>))))))"

subsection \<open>Output router\<close>

record SessionOutput =
  so_session_uuid :: str
  so_worker_id :: str
  so_stream :: OutputStream
  so_data :: str
  so_seq :: u64
  so_timestamp :: u64

record OutputRouter =
  batch_window_ms :: u64
  batch_size_bytes :: nat
  seq :: u64
  no_room_output :: bool

definition output_new :: "bool \<Rightarrow> OutputRouter" where
  "output_new quiet = \<lparr>batch_window_ms = 200, batch_size_bytes = 4096, seq = 0, no_room_output = quiet\<rparr>"

definition with_batch_settings :: "u64 \<Rightarrow> nat \<Rightarrow> OutputRouter \<Rightarrow> OutputRouter" where
  "with_batch_settings window_ms size_bytes r =
     r\<lparr>batch_window_ms := window_ms, batch_size_bytes := size_bytes\<rparr>"

text \<open>\<open>fetch_add\<close> wraps; it is the only change of the router.\<close>

definition create_output_event ::
  "crypto_lib \<Rightarrow> u64 \<Rightarrow> str \<Rightarrow> str \<Rightarrow> OutputStream \<Rightarrow> bytes \<Rightarrow> OutputRouter
     \<Rightarrow> SessionOutput option \<times> OutputRouter" where
  "create_output_event L now session_uuid worker_id stream data r =
     (if no_room_output r then (None, r)
      else
        (Some \<lparr>so_session_uuid = session_uuid, so_worker_id = worker_id, so_stream = stream,
               so_data = b64_encode L data, so_seq = seq r, so_timestamp = now\<rparr>,
         r\<lparr>seq := seq r + 1\<rparr>))"

text \<open>\<open>slice::chunks\<close>; a chunk size of zero panics.\<close>

function chunks :: "nat \<Rightarrow> 'a list \<Rightarrow> 'a list list option" where
  "chunks n xs =
     (if n = 0 then None
      else if xs = [] then Some []
      else map_option (Cons (take n xs)) (chunks n (drop n xs)))"
  by auto
termination by (relation "measure (length \<circ> snd)") auto

declare chunks.simps [simp del]

fun chunk_events ::
  "crypto_lib \<Rightarrow> (nat \<Rightarrow> u64) \<Rightarrow> str \<Rightarrow> str \<Rightarrow> OutputStream \<Rightarrow> bytes list \<Rightarrow> OutputRouter
     \<Rightarrow> SessionOutput list \<times> OutputRouter" where
  "chunk_events L clk session_uuid worker_id stream [] r = ([], r)"
| "chunk_events L clk session_uuid worker_id stream (chunk # cs) r =
     (let (ev, r1) = create_output_event L (clk 0) session_uuid worker_id stream chunk r;
          (evs, r2) = chunk_events L (clk \<circ> Suc) session_uuid worker_id stream cs r1
      in ((case ev of Some e \<Rightarrow> [e] | None \<Rightarrow> []) @ evs, r2))"

definition create_chunked_output ::
  "crypto_lib \<Rightarrow> (nat \<Rightarrow> u64) \<Rightarrow> str \<Rightarrow> str \<Rightarrow> OutputStream \<Rightarrow> bytes \<Rightarrow> OutputRouter
     \<Rightarrow> (SessionOutput list \<times> OutputRouter) option" where
  "create_chunked_output L clk session_uuid worker_id stream data r =
     (if no_room_output r then Some ([], r)
      else map_option (\<lambda>cs. chunk_events L clk session_uuid worker_id stream cs r)
             (chunks (batch_size_bytes r) data))"

subsection \<open>What a validated command is\<close>

lemma and_then_Okay: "and_then r s = Okay v \<longleftrightarrow> r = Okay () \<and> s = Okay v"
  by (simp add: and_then_def split: sum.splits)

lemma validate_args_Okay: "validate_args args = Okay () \<longleftrightarrow> (\<forall>a \<in> set args. nul_free a)"
proof -
  have "validate_args_from i args = Okay () \<longleftrightarrow> (\<forall>a \<in> set args. nul_free a)" for i
    by (induction args arbitrary: i) (auto simp: nul_free_def)
  then show ?thesis by (simp add: validate_args_def)
qed

lemma validate_env_Okay:
  assumes "iterates it" and "finite (dom env)"
  shows "validate_env it env = Okay () \<longleftrightarrow> (\<forall>k \<in> dom env. is_valid_env_key k)"
proof -
  have "validate_env_keys ks = Okay () \<longleftrightarrow> (\<forall>k \<in> set ks. is_valid_env_key k)" for ks
    by (induction ks) auto
  with assms show ?thesis by (simp add: validate_env_def iterates_set)
qed

lemma char_range: "n \<le> 256 \<Longrightarrow> c \<in> set (map char_of [m..<n]) \<longleftrightarrow> m \<le> (of_char c :: nat) \<and> of_char c < n"
  by (force simp: image_iff)

lemma ascii_uppercase: "is_ascii_uppercase c \<longleftrightarrow> c \<in> set ''ABCDEFGHIJKLMNOPQRSTUVWXYZ''"
proof -
  have "map char_of [65..<91 :: nat] = ''ABCDEFGHIJKLMNOPQRSTUVWXYZ''" by code_simp
  from char_range [of 91 c 65, unfolded this] show ?thesis by (simp only: is_ascii_uppercase_def) arith
qed

lemma ascii_digit: "is_ascii_digit c \<longleftrightarrow> c \<in> set ''0123456789''"
proof -
  have "map char_of [48..<58 :: nat] = ''0123456789''" by code_simp
  from char_range [of 58 c 48, unfolded this] show ?thesis by (simp only: is_ascii_digit_def) arith
qed

lemma valid_env_key:
  assumes "is_valid_env_key k"
  shows "k \<noteq> [] \<and> hd k \<notin> set ''0123456789''
     \<and> (\<forall>c \<in> set k. c \<in> set ''ABCDEFGHIJKLMNOPQRSTUVWXYZ'' \<or> c \<in> set ''0123456789'' \<or> c = CHR ''_'')"
proof -
  have "\<not> is_ascii_digit c" if "is_ascii_uppercase c \<or> c = CHR ''_''" for c
    using that by (auto simp: is_ascii_digit_def is_ascii_uppercase_def)
  then have "k \<noteq> [] \<and> \<not> is_ascii_digit (hd k)
      \<and> (\<forall>c \<in> set k. is_ascii_uppercase c \<or> is_ascii_digit c \<or> c = CHR ''_'')"
    using assms by (cases k) (auto simp: list_all_iff split: if_splits)
  then show ?thesis unfolding ascii_uppercase ascii_digit .
qed

text \<open>A path below a directory: the directory's components come first, and nothing climbs.\<close>

definition confined :: "str \<Rightarrow> str \<Rightarrow> bool" where
  "confined dir path \<longleftrightarrow>
     starts_with path ''/'' \<and> prefix (components dir) (components path) \<and> ''..'' \<notin> set (components path)"

lemma validated_cwd_confined:
  assumes "validate_cwd_allowlist c allowed = Okay ()" and "validate_cwd fs c = Okay ()"
  shows "\<exists>dir \<in> set allowed. confined dir c"
proof -
  from assms(1) obtain dir where dir: "dir \<in> set allowed"
    "c = dir \<or> starts_with c (trim_end_matches (CHR ''/'') dir @ ''/'')"
    by (auto simp: validate_cwd_allowlist_def list_ex_iff split: if_splits)
  from assms(2) have "starts_with c ''/''" and "\<not> sublist ''..'' c"
    by (auto simp: validate_cwd_def contains_str_sublist split: if_splits)
  with dir components_below [OF dir(2)] components_part show ?thesis
    by (auto simp: confined_def)
qed

text \<open>
  C16. What a validated command is. When validation succeeds, the binary is listed exactly
  in the allow-list and has no shell metacharacter; no argument has a NUL byte; every
  environment key is of the form \<open>[A-Z_][A-Z0-9_]*\<close>; the working directory, if any, exists,
  is absolute and lies below an allowed directory by path components, without climbing;
  it may be missing only if no directory is allow-listed; and the command is passed on
  unchanged.
\<close>

theorem validated_command_safe:
  assumes "iterates it" and "case env of Some e \<Rightarrow> finite (dom e) | None \<Rightarrow> True"
    and "validate_command fs it bin args env cwd allowed allowed_cwd = Okay v"
  shows "bin \<in> set allowed \<and> bin \<noteq> [] \<and> (\<forall>c \<in> set bin. c \<notin> set SHELL_METACHARACTERS)
    \<and> (\<forall>a \<in> set args. nul_free a)
    \<and> (\<forall>e. env = Some e \<longrightarrow> (\<forall>k \<in> dom e. k \<noteq> [] \<and> hd k \<notin> set ''0123456789''
        \<and> (\<forall>c \<in> set k. c \<in> set ''ABCDEFGHIJKLMNOPQRSTUVWXYZ'' \<or> c \<in> set ''0123456789'' \<or> c = CHR ''_'')))
    \<and> (case cwd of
         None \<Rightarrow> allowed_cwd = []
       | Some c \<Rightarrow> path_is_dir fs c \<and> (\<exists>dir \<in> set allowed_cwd. confined dir c))
    \<and> v = \<lparr>vc_bin = bin, vc_args = args, vc_env = (case env of Some e \<Rightarrow> e | None \<Rightarrow> Map.empty), vc_cwd = cwd\<rparr>"
proof -
  let ?env_ok = "case env of Some e \<Rightarrow> validate_env it e | None \<Rightarrow> Okay ()"
  from assms(3) have gates: "validate_allowlist bin allowed = Okay ()" "validate_bin fs bin = Okay ()"
    "validate_args args = Okay ()" "?env_ok = Okay ()"
    and cwds: "(case cwd of Some c \<Rightarrow> validate_cwd_allowlist c allowed_cwd
         | None \<Rightarrow> if allowed_cwd \<noteq> [] then Err CwdRequired else Okay ()) = Okay ()"
      "(case cwd of Some c \<Rightarrow> validate_cwd fs c | None \<Rightarrow> Okay ()) = Okay ()"
    and v: "v = \<lparr>vc_bin = bin, vc_args = args, vc_env = (case env of Some e \<Rightarrow> e | None \<Rightarrow> Map.empty), vc_cwd = cwd\<rparr>"
    unfolding validate_command_def and_then_Okay by simp_all
  have "bin \<in> set allowed" using gates(1)
    by (auto simp: validate_allowlist_def list_ex_iff split: if_splits)
  moreover have "bin \<noteq> []" "\<forall>c \<in> set bin. c \<notin> set SHELL_METACHARACTERS" using gates(2)
    by (auto simp: validate_bin_def list_ex_iff split: if_splits)
  moreover have "\<forall>k \<in> dom e. k \<noteq> [] \<and> hd k \<notin> set ''0123456789''
        \<and> (\<forall>c \<in> set k. c \<in> set ''ABCDEFGHIJKLMNOPQRSTUVWXYZ'' \<or> c \<in> set ''0123456789'' \<or> c = CHR ''_'')" if "env = Some e" for e
  proof -
    from gates(4) assms(2) validate_env_Okay [OF assms(1), of e] that
    have "\<forall>k \<in> dom e. is_valid_env_key k" by simp
    then show ?thesis using valid_env_key by blast
  qed
  moreover have "case cwd of None \<Rightarrow> allowed_cwd = []
       | Some c \<Rightarrow> path_is_dir fs c \<and> (\<exists>dir \<in> set allowed_cwd. confined dir c)"
  proof (cases cwd)
    case None
    with cwds(1) show ?thesis by (simp split: if_splits)
  next
    case (Some c)
    with cwds validated_cwd_confined [of c allowed_cwd fs] show ?thesis
      by (auto simp: validate_cwd_def split: if_splits)
  qed
  ultimately show ?thesis using gates(3) v by (simp add: validate_args_Okay)
qed

theorem validated_command_safe_witness:
  "confined ''/srv/'' ''/srv/job''
   \<and> validate_command \<lparr>path_exists = (\<lambda>_. False), path_is_dir = (\<lambda>_. True)\<rparr> sorted_list_of_set ''echo'' [''x'']
       None (Some ''/srv/job'') [''ls'', ''echo''] [''/srv/'']
     = Okay \<lparr>vc_bin = ''echo'', vc_args = [''x''], vc_env = Map.empty, vc_cwd = Some ''/srv/job''\<rparr>"
proof -
  let ?fs = "\<lparr>path_exists = (\<lambda>_. False), path_is_dir = (\<lambda>_. True)\<rparr>"
  have run: "validate_command ?fs sorted_list_of_set ''echo'' [''x''] None (Some ''/srv/job'') [''ls'', ''echo''] [''/srv/'']
     = Okay \<lparr>vc_bin = ''echo'', vc_args = [''x''], vc_env = Map.empty, vc_cwd = Some ''/srv/job''\<rparr>"
    by (simp add: validate_command_def and_then_def validate_allowlist_def validate_cwd_allowlist_def
        trim_end_matches_def starts_with_def validate_bin_def SHELL_METACHARACTERS_def validate_args_def
        validate_cwd_def)
  with validated_command_safe [OF iterates_sorted _ run] show ?thesis by simp
qed

subsection \<open>Output is complete and in order\<close>

lemma chunks_concat:
  assumes "0 < n"
  shows "\<exists>cs. chunks n xs = Some cs \<and> concat cs = xs \<and> (\<forall>c \<in> set cs. c \<noteq> [] \<and> length c \<le> n)"
  using assms
proof (induction n xs rule: chunks.induct)
  case (1 n xs)
  show ?case
  proof (cases "xs = []")
    case True
    with 1(2) show ?thesis by (simp add: chunks.simps)
  next
    case False
    from 1(1) [OF _ False] 1(2) obtain cs where cs: "chunks n (drop n xs) = Some cs"
      "concat cs = drop n xs" "\<forall>c \<in> set cs. c \<noteq> [] \<and> length c \<le> n" by auto
    then have "chunks n xs = Some (take n xs # cs)"
      using False 1(2) by (subst chunks.simps) simp
    with cs False 1(2) show ?thesis by auto
  qed
qed

lemma chunk_events_out:
  assumes "\<not> no_room_output r"
  shows "map so_data (fst (chunk_events L clk s w st cs r)) = map (b64_encode L) cs
    \<and> map so_seq (fst (chunk_events L clk s w st cs r)) = map (\<lambda>i. seq r + of_nat i) [0..<length cs]
    \<and> seq (snd (chunk_events L clk s w st cs r)) = seq r + of_nat (length cs)
    \<and> (\<forall>e \<in> set (fst (chunk_events L clk s w st cs r)). so_session_uuid e = s \<and> so_worker_id e = w \<and> so_stream e = st)"
  using assms
proof (induction cs arbitrary: r clk)
  case (Cons c cs)
  let ?r1 = "r\<lparr>seq := seq r + 1\<rparr>"
  have ih: "\<not> no_room_output ?r1" using Cons.prems by simp
  have shift: "map (\<lambda>i. seq r + of_nat i) [0..<Suc (length cs)] =
      seq r # map (\<lambda>i. seq r + 1 + of_nat i) [0..<length cs]"
    by (simp add: upt_conv_Cons map_Suc_upt [symmetric] o_def algebra_simps del: upt_Suc map_Suc_upt)
  obtain evs r2 where run: "chunk_events L (clk \<circ> Suc) s w st cs ?r1 = (evs, r2)"
    by (cases "chunk_events L (clk \<circ> Suc) s w st cs ?r1")
  from Cons.IH [OF ih, of "clk \<circ> Suc"]
  have evs: "map so_data evs = map (b64_encode L) cs"
    "map so_seq evs = map (\<lambda>i. seq r + 1 + of_nat i) [0..<length cs]"
    "seq r2 = seq r + 1 + of_nat (length cs)"
    "\<forall>e \<in> set evs. so_session_uuid e = s \<and> so_worker_id e = w \<and> so_stream e = st"
    unfolding run by simp_all
  show ?case
    using evs Cons.prems by (simp add: create_output_event_def run shift del: upt_Suc)
qed simp

text \<open>
  No output is lost or reordered. Unless output is suppressed or the batch size is
  zero, the events for a piece of output carry, decoded and concatenated, exactly its
  bytes, in non-empty chunks of at most the batch size; their sequence numbers are
  consecutive from the router's counter on, which is where the next output continues.
\<close>

lemma chunked_output_events:
  assumes "base64_law L" and "0 < batch_size_bytes r" and "\<not> no_room_output r"
  shows "\<exists>evs r'. create_chunked_output L clk s w st data r = Some (evs, r')
    \<and> (\<exists>cs. map (\<lambda>e. b64_decode L (so_data e)) evs = map Inr cs \<and> concat cs = data
         \<and> (\<forall>c \<in> set cs. c \<noteq> [] \<and> length c \<le> batch_size_bytes r))
    \<and> map so_seq evs = map (\<lambda>i. seq r + of_nat i) [0..<length evs]
    \<and> seq r' = seq r + of_nat (length evs)"
proof -
  obtain cs where cs: "chunks (batch_size_bytes r) data = Some cs" "concat cs = data"
    "\<forall>c \<in> set cs. c \<noteq> [] \<and> length c \<le> batch_size_bytes r"
    using chunks_concat [OF assms(2)] by blast
  obtain evs r' where run: "chunk_events L clk s w st cs r = (evs, r')"
    by (cases "chunk_events L clk s w st cs r")
  from chunk_events_out [OF assms(3), of L clk s w st cs] run
  have data: "map so_data evs = map (b64_encode L) cs"
    and seqs: "map so_seq evs = map (\<lambda>i. seq r + of_nat i) [0..<length cs]"
      "seq r' = seq r + of_nat (length cs)" by simp_all
  from data have len: "length evs = length cs" by (metis length_map)
  have "map (\<lambda>e. b64_decode L (so_data e)) evs = map (b64_decode L) (map so_data evs)" by simp
  also have "\<dots> = map Inr cs" unfolding data by (simp add: decode_encode [OF assms(1)])
  finally show ?thesis
    using cs run seqs len assms(3) by (auto simp: create_chunked_output_def)
qed

end
