(* ===== verification/Client_Views.thy ===== *)
theory Client_Views
  imports Liveness Worker_Exec "HOL-Library.Multiset"
begin

section \<open>Requests and views of the client\<close>

text \<open>
  The parts of \<open>crates/mxdx-client/src\<close> that build requests and render what comes back:
  \<open>submit.rs\<close>, \<open>cancel.rs\<close>, \<open>tail.rs\<close>, \<open>logs.rs\<close>, \<open>ls.rs\<close> and \<open>attach.rs\<close>. The log of a session is shown to
  reassemble what the worker's output router (of the theory \<open>Worker_Exec\<close>) split, in whatever order the
  events arrive. A \<open>None\<close> where the source slices a string is a panic.
\<close>

subsection \<open>Requests\<close>

definition build_task ::
  "str \<Rightarrow> str \<Rightarrow> str list \<Rightarrow> bool \<Rightarrow> bool \<Rightarrow> u64 option \<Rightarrow> u64 \<Rightarrow> str \<Rightarrow> str option \<Rightarrow> SessionTask" where
  "build_task fresh_uuid bin args interactive quiet timeout_seconds heartbeat_interval_seconds sender_id cwd =
     \<lparr>st_uuid = fresh_uuid, st_sender_id = sender_id, st_bin = bin, st_args = args, st_env = None, st_cwd = cwd,
      st_interactive = interactive, st_no_room_output = quiet, st_timeout_seconds = timeout_seconds,
      st_heartbeat_interval_seconds = heartbeat_interval_seconds, st_plan = None, st_required_capabilities = [],
      st_routing_mode = None, st_on_timeout = None, st_on_heartbeat_miss = None\<rparr>"

record SessionCancel =
  sc_session_uuid :: str
  sc_reason :: "str option"
  sc_grace_seconds :: "u64 option"

record SessionSignal =
  ss_session_uuid :: str
  ss_signal :: str

definition build_cancel :: "str \<Rightarrow> str option \<Rightarrow> u64 option \<Rightarrow> SessionCancel" where
  "build_cancel session_uuid reason grace_seconds =
     \<lparr>sc_session_uuid = session_uuid, sc_reason = reason, sc_grace_seconds = grace_seconds\<rparr>"

definition build_signal :: "str \<Rightarrow> str \<Rightarrow> SessionSignal" where
  "build_signal session_uuid signal = \<lparr>ss_session_uuid = session_uuid, ss_signal = signal\<rparr>"

subsection \<open>Tailing\<close>

text \<open>\<open>String::from_utf8_lossy\<close>: how many bytes after a lead byte belong to its sequence, and the
  replacement of every maximal ill-formed part by U+FFFD.\<close>

definition utf8_needed :: "u8 \<Rightarrow> nat option" where
  "utf8_needed a =
     (if a < 0x80 then Some 0
      else if 0xC2 \<le> a \<and> a \<le> 0xDF then Some 1
      else if 0xE0 \<le> a \<and> a \<le> 0xEF then Some 2
      else if 0xF0 \<le> a \<and> a \<le> 0xF4 then Some 3
      else None)"

definition utf8_second :: "u8 \<Rightarrow> u8 \<Rightarrow> bool" where
  "utf8_second a b \<longleftrightarrow> cont_byte b \<and> (a = 0xE0 \<longrightarrow> 0xA0 \<le> b) \<and> (a = 0xED \<longrightarrow> b \<le> 0x9F)
     \<and> (a = 0xF0 \<longrightarrow> 0x90 \<le> b) \<and> (a = 0xF4 \<longrightarrow> b \<le> 0x8F)"

definition utf8_matched :: "u8 \<Rightarrow> nat \<Rightarrow> bytes \<Rightarrow> nat" where
  "utf8_matched a n bs =
     (case take n bs of
        [] \<Rightarrow> 0
      | b # r \<Rightarrow> if utf8_second a b then 1 + length (takeWhile cont_byte r) else 0)"

definition REPLACEMENT :: bytes where
  "REPLACEMENT = [0xEF, 0xBF, 0xBD]"

function lossy_bytes :: "bytes \<Rightarrow> bytes" where
  "lossy_bytes [] = []"
| "lossy_bytes (a # bs) =
     (case utf8_needed a of
        None \<Rightarrow> REPLACEMENT @ lossy_bytes bs
      | Some n \<Rightarrow>
          (let k = utf8_matched a n bs
           in if k = n then a # take n bs @ lossy_bytes (drop n bs) else REPLACEMENT @ lossy_bytes (drop k bs)))"
  by pat_completeness auto
termination by (relation "measure length") auto

declare lossy_bytes.simps(2) [simp del]

definition from_utf8_lossy :: "bytes \<Rightarrow> str" where
  "from_utf8_lossy bs = from_bytes (lossy_bytes bs)"

definition decode_output :: "crypto_lib \<Rightarrow> SessionOutput \<Rightarrow> (str, bytes) result" where
  "decode_output L output = b64_decode L (so_data output)"

definition format_output :: "crypto_lib \<Rightarrow> SessionOutput \<Rightarrow> (str, str) result" where
  "format_output L output =
     (case decode_output L output of Inl e \<Rightarrow> Err e | Inr bs \<Rightarrow> Okay (from_utf8_lossy bs))"

definition is_terminal_result :: "SessionResult \<Rightarrow> bool" where
  "is_terminal_result result \<longleftrightarrow> True"

text \<open>\<open>Display\<close> of signed and \<open>Debug\<close> of optional numbers.\<close>

definition show_int :: "int \<Rightarrow> str" where
  "show_int i = (if i < 0 then ''-'' @ show_nat (nat (- i)) else show_nat (nat i))"

definition show_debug :: "int option \<Rightarrow> str" where
  "show_debug v = (case v of None \<Rightarrow> ''None'' | Some i \<Rightarrow> ''Some('' @ show_int i @ '')'')"

fun status_name :: "SessionStatus \<Rightarrow> str" where
  "status_name StSuccess = ''success''"
| "status_name StFailed = ''failed''"
| "status_name StTimeout = ''timeout''"
| "status_name StCancelled = ''cancelled''"

definition format_result :: "SessionResult \<Rightarrow> str" where
  "format_result result =
     ''Session '' @ sr_session_uuid result @ '' '' @ status_name (sr_status result) @ '': exit_code=''
     @ show_debug (map_option sint (sr_exit_code result)) @ '', duration='' @ show_nat (unat (sr_duration_seconds result)) @ ''s''"

subsection \<open>Logs\<close>

fun append_outputs :: "crypto_lib \<Rightarrow> SessionOutput list \<Rightarrow> bytes \<Rightarrow> (str, bytes) result" where
  "append_outputs L [] data = Okay data"
| "append_outputs L (output # outputs) data =
     (case b64_decode L (so_data output) of
        Inl e \<Rightarrow> Err e
      | Inr decoded \<Rightarrow> append_outputs L outputs (data @ decoded))"

definition reassemble_output :: "crypto_lib \<Rightarrow> SessionOutput list \<Rightarrow> (str, bytes) result" where
  "reassemble_output L outputs = append_outputs L (sort_key so_seq outputs) []"

definition reassemble_output_string :: "crypto_lib \<Rightarrow> SessionOutput list \<Rightarrow> (str, str) result" where
  "reassemble_output_string L outputs =
     (case reassemble_output L outputs of Inl e \<Rightarrow> Err e | Inr data \<Rightarrow> Okay (from_utf8_lossy data))"

subsection \<open>Listing\<close>

datatype SessionEntryStatus = EntryActive "u32 option" u64 | EntryCompleted "32 word option" u64

record SessionEntry =
  se_uuid :: str
  se_bin :: str
  se_args :: "str list"
  se_worker_id :: str
  se_interactive :: bool
  se_status :: SessionEntryStatus

definition from_active :: "str \<Rightarrow> ActiveSessionState \<Rightarrow> SessionEntry" where
  "from_active uuid st =
     \<lparr>se_uuid = uuid, se_bin = as_bin st, se_args = as_args st, se_worker_id = as_worker_id st,
      se_interactive = as_interactive st, se_status = EntryActive (as_pid st) (as_start_time st)\<rparr>"

definition from_completed :: "str \<Rightarrow> ActiveSessionState \<Rightarrow> CompletedSessionState \<Rightarrow> SessionEntry" where
  "from_completed uuid active completed =
     \<lparr>se_uuid = uuid, se_bin = as_bin active, se_args = as_args active, se_worker_id = as_worker_id active,
      se_interactive = as_interactive active,
      se_status = EntryCompleted (cs_exit_code completed) (cs_duration_seconds completed)\<rparr>"

text \<open>\<open>format!("{:<w}", s)\<close>, and a slice up to a byte that must lie between characters.\<close>

definition pad_right :: "nat \<Rightarrow> str \<Rightarrow> str" where
  "pad_right w s = s @ replicate (w - chars_count s) (CHR '' '')"

definition slice_to :: "nat \<Rightarrow> str \<Rightarrow> str option" where
  "slice_to n s = (if is_char_boundary s n then Some (take n s) else None)"

definition shorten :: "nat \<Rightarrow> nat \<Rightarrow> str \<Rightarrow> str option" where
  "shorten limit keep s = (if length s > limit then map_option (\<lambda>p. p @ ''...'') (slice_to keep s) else Some s)"

definition table_row :: "str \<Rightarrow> str \<Rightarrow> str \<Rightarrow> str \<Rightarrow> str \<Rightarrow> str" where
  "table_row uuid command worker status details =
     pad_right 38 uuid @ '' '' @ pad_right 15 command @ '' '' @ pad_right 10 worker @ '' '' @ pad_right 10 status @ '' '' @ details"

definition entry_row :: "SessionEntry \<Rightarrow> str option" where
  "entry_row entry =
     (let cmd = (if se_args entry = [] then se_bin entry else se_bin entry @ '' '' @ join '' '' (se_args entry))
      in case shorten 13 12 cmd of
           None \<Rightarrow> None
         | Some cmd_display \<Rightarrow>
             (case shorten 8 7 (se_worker_id entry) of
                None \<Rightarrow> None
              | Some worker_display \<Rightarrow>
                  (let (status, details) =
                     (case se_status entry of
                        EntryActive pid _ \<Rightarrow> (''active'', ''pid='' @ show_debug (map_option (int \<circ> unat) pid))
                      | EntryCompleted exit_code duration_seconds \<Rightarrow>
                          (''done'', ''exit='' @ show_debug (map_option sint exit_code) @ '' ''
                             @ show_nat (unat duration_seconds) @ ''s''))
                   in Some (table_row (se_uuid entry) cmd_display worker_display status details))))"

fun table_rows :: "SessionEntry list \<Rightarrow> str list option" where
  "table_rows [] = Some []"
| "table_rows (e # es) =
     (case entry_row e of None \<Rightarrow> None | Some row \<Rightarrow> map_option (Cons row) (table_rows es))"

definition format_table :: "SessionEntry list \<Rightarrow> str option" where
  "format_table entries =
     (if entries = [] then Some ''No sessions found.''
      else map_option (\<lambda>rows. join [CHR 0x0A] (table_row ''UUID'' ''COMMAND'' ''WORKER'' ''STATUS'' ''DETAILS'' # rows))
             (table_rows entries))"

subsection \<open>Attaching\<close>

record AttachTarget =
  at_session_uuid :: str
  at_room_id :: str
  at_thread_root :: str
  at_interactive :: bool
  at_worker_id :: str
  at_dm_room_id :: "str option"

datatype AttachMode = TailThread | InteractiveDm | InteractiveRtc

datatype WebRtcState = RtcDisabled | RtcNegotiating | RtcConnected | RtcDisconnected

definition determine_attach_mode :: "bool \<Rightarrow> bool \<Rightarrow> bool \<Rightarrow> AttachMode" where
  "determine_attach_mode interactive webrtc_available has_dm_room =
     (if interactive \<and> webrtc_available then InteractiveRtc
      else if interactive \<and> has_dm_room then InteractiveDm else TailThread)"

record AttachContext =
  ac_target :: AttachTarget
  ac_mode :: AttachMode
  ac_webrtc_state :: WebRtcState

definition attach_new :: "AttachTarget \<Rightarrow> bool \<Rightarrow> bool \<Rightarrow> AttachContext" where
  "attach_new target force_interactive webrtc_available =
     (let mode = determine_attach_mode (force_interactive \<and> at_interactive target) webrtc_available (at_dm_room_id target \<noteq> None)
      in \<lparr>ac_target = target, ac_mode = mode,
          ac_webrtc_state = (case mode of InteractiveRtc \<Rightarrow> RtcNegotiating | _ \<Rightarrow> RtcDisabled)\<rparr>)"

definition handle_disconnect :: "AttachContext \<Rightarrow> AttachContext" where
  "handle_disconnect c =
     c\<lparr>ac_webrtc_state := RtcDisconnected,
       ac_mode := (if at_dm_room_id (ac_target c) \<noteq> None then InteractiveDm else TailThread)\<rparr>"

definition handle_reconnect :: "AttachContext \<Rightarrow> AttachContext" where
  "handle_reconnect c = c\<lparr>ac_webrtc_state := RtcConnected, ac_mode := InteractiveRtc\<rparr>"

fun find_dm_room_from_start_event :: "'v value_api \<Rightarrow> 'v list \<Rightarrow> str \<Rightarrow> str option" where
  "find_dm_room_from_start_event A [] session_uuid = None"
| "find_dm_room_from_start_event A (event # events) session_uuid =
     (if str_field A event ''type'' \<noteq> Some ''org.mxdx.session.start''
      then find_dm_room_from_start_event A events session_uuid
      else
        (let content = (case value_get A event ''content'' of Some c \<Rightarrow> c | None \<Rightarrow> event)
         in if str_field A content ''session_uuid'' = Some session_uuid
            then str_field A content ''dm_room_id''
            else find_dm_room_from_start_event A events session_uuid))"

subsection \<open>What is shown of the log\<close>

lemma append_outputs_decoded:
  "map (\<lambda>e. b64_decode L (so_data e)) outs = map Inr cs \<Longrightarrow> append_outputs L outs data = Okay (data @ concat cs)"
proof (induction outs arbitrary: cs data)
  case (Cons o' outs)
  then show ?case by (cases cs) auto
qed simp

text \<open>Pieces of output, as a process writes them on its two streams, through one router.\<close>

fun route_all ::
  "crypto_lib \<Rightarrow> (nat \<Rightarrow> u64) \<Rightarrow> str \<Rightarrow> str \<Rightarrow> (OutputStream \<times> bytes) list \<Rightarrow> OutputRouter \<Rightarrow> (SessionOutput list \<times> OutputRouter) option" where
  "route_all L clk uuid worker [] r = Some ([], r)"
| "route_all L clk uuid worker ((stream, data) # ps) r =
     (case create_chunked_output L clk uuid worker stream data r of
        None \<Rightarrow> None
      | Some (evs, r) \<Rightarrow> map_option (\<lambda>(evs', r'). (evs @ evs', r')) (route_all L clk uuid worker ps r))"

lemma chunked_output_router:
  "create_chunked_output L clk s w st data r = Some (evs, r') \<Longrightarrow>
    batch_size_bytes r' = batch_size_bytes r \<and> no_room_output r' = no_room_output r"
proof -
  have "batch_size_bytes (snd (chunk_events L clk s w st cs r)) = batch_size_bytes r
      \<and> no_room_output (snd (chunk_events L clk s w st cs r)) = no_room_output r" for cs clk
    by (induction cs arbitrary: r clk) (simp_all add: create_output_event_def Let_def split_beta)
  from this [of clk] show "create_chunked_output L clk s w st data r = Some (evs, r') \<Longrightarrow> ?thesis"
    by (auto simp: create_chunked_output_def split: if_splits) (metis fst_conv snd_conv)+
qed

lemma counter_run: "map (\<lambda>i. a + of_nat i) [0..<m] @ map (\<lambda>i. a + of_nat m + of_nat i) [0..<n] = map (\<lambda>i. a + of_nat i) [0..<m + n]"
  for a :: u64
  by (induction n) (simp_all add: algebra_simps)

lemma route_all_events:
  assumes "base64_law L" and "0 < batch_size_bytes r" and "\<not> no_room_output r"
  shows "\<exists>evs r' cs. route_all L clk uuid worker ps r = Some (evs, r')
    \<and> map (\<lambda>e. b64_decode L (so_data e)) evs = map Inr cs \<and> concat cs = concat (map snd ps)
    \<and> map so_seq evs = map (\<lambda>i. seq r + of_nat i) [0..<length evs]"
  using assms(2,3)
proof (induction ps arbitrary: r)
  case (Cons p ps)
  obtain stream data where p: "p = (stream, data)" by (cases p)
  obtain evs r1 cs where out: "create_chunked_output L clk uuid worker stream data r = Some (evs, r1)"
    "map (\<lambda>e. b64_decode L (so_data e)) evs = map Inr cs" "concat cs = data"
    "map so_seq evs = map (\<lambda>i. seq r + of_nat i) [0..<length evs]" "seq r1 = seq r + of_nat (length evs)"
    using chunked_output_events [OF assms(1) Cons.prems, of clk uuid worker stream data] by auto
  have r1: "0 < batch_size_bytes r1" "\<not> no_room_output r1" using chunked_output_router [OF out(1)] Cons.prems by simp_all
  obtain evs' r' cs' where rest: "route_all L clk uuid worker ps r1 = Some (evs', r')"
    "map (\<lambda>e. b64_decode L (so_data e)) evs' = map Inr cs'" "concat cs' = concat (map snd ps)"
    "map so_seq evs' = map (\<lambda>i. seq r1 + of_nat i) [0..<length evs']"
    using Cons.IH [OF r1] by blast
  have "route_all L clk uuid worker (p # ps) r = Some (evs @ evs', r')" using out(1) rest(1) by (simp add: p)
  moreover have "map (\<lambda>e. b64_decode L (so_data e)) (evs @ evs') = map Inr (cs @ cs')" using out(2) rest(2) by simp
  moreover have "concat (cs @ cs') = concat (map snd (p # ps))" using out(3) rest(3) by (simp add: p)
  moreover have "map so_seq (evs @ evs') = map (\<lambda>i. seq r + of_nat i) [0..<length (evs @ evs')]"
    using out(4,5) rest(4) counter_run [of "seq r" "length evs" "length evs'"] by simp
  ultimately show ?case by blast
qed simp

lemma counter_sorted:
  assumes "unat a + n \<le> 2 ^ 64"
  shows "sorted (map (\<lambda>i. a + of_nat i :: u64) [0..<n]) \<and> distinct (map (\<lambda>i. a + of_nat i :: u64) [0..<n])"
proof -
  have u: "unat (a + of_nat i) = unat a + i" if "i < n" for i
    using that assms by (simp add: unat_word_ariths unat_of_nat)
  show ?thesis
    by (auto simp: sorted_iff_nth_mono distinct_map inj_on_def word_le_nat_alt u) (metis u add_left_cancel)
qed

text \<open>
  C20. The log shows what the process wrote. Whatever a process writes on its two streams through
  the worker's output router, and in whatever order the events reach the client, the client
  reassembles exactly the bytes in the order they were written, as long as the router's
  counter does not run through all of its values.
\<close>

theorem log_reassembles:
  assumes "base64_law L" and "0 < batch_size_bytes r" and "\<not> no_room_output r"
    and "route_all L clk uuid worker pieces r = Some (evs, r')" and "unat (seq r) + length evs \<le> 2 ^ 64"
    and "mset arrived = mset evs"
  shows "reassemble_output L arrived = Okay (concat (map snd pieces))"
proof -
  obtain cs where cs: "map (\<lambda>e. b64_decode L (so_data e)) evs = map Inr cs" "concat cs = concat (map snd pieces)"
    and seqs: "map so_seq evs = map (\<lambda>i. seq r + of_nat i) [0..<length evs]"
    using route_all_events [OF assms(1-3), of clk uuid worker pieces] assms(4) by auto
  have "sorted (map so_seq evs)" "distinct (map so_seq evs)" using counter_sorted [OF assms(5)] by (simp_all only: seqs)
  then have "sort_key so_seq arrived = evs"
    using assms(6) by (intro sort_key_inj_key_eq) (auto simp: distinct_map dest: mset_eq_setD)
  then show ?thesis using append_outputs_decoded [OF cs(1), of "[]"] cs(2) by (simp add: reassemble_output_def)
qed

theorem log_reassembles_witness:
  "\<exists>evs r'. route_all sample_crypto_lib (\<lambda>_. 0) ''s'' ''w'' [(Stdout, [1, 2, 3]), (Stderr, [4])]
      (with_batch_settings 100 2 (output_new False)) = Some (evs, r')
    \<and> length evs = 3 \<and> reassemble_output sample_crypto_lib (rev evs) = Okay [1, 2, 3, 4]"
proof -
  let ?r = "with_batch_settings 100 2 (output_new False)" and ?ps = "[(Stdout, [1, 2, 3]), (Stderr, [4 :: u8])]"
  have r: "0 < batch_size_bytes ?r" "\<not> no_room_output ?r" "seq ?r = 0"
    by (simp_all add: with_batch_settings_def output_new_def)
  have two: "chunks 2 [1, 2, 3 :: u8] = Some [[1, 2], [3]]" "chunks 2 [4 :: u8] = Some [[4]]" by (simp_all add: chunks.simps)
  obtain evs r' where run: "route_all sample_crypto_lib (\<lambda>_. 0) ''s'' ''w'' ?ps ?r = Some (evs, r')" and len: "length evs = 3"
    by (simp add: create_chunked_output_def create_output_event_def with_batch_settings_def output_new_def two)
  have "reassemble_output sample_crypto_lib (rev evs) = Okay (concat (map snd ?ps))"
    by (rule log_reassembles [OF sample_crypto_laws(1) r(1,2) run]) (simp_all add: r(3) len)
  with run len show ?thesis by auto
qed

subsection \<open>What is shown of the views\<close>

lemma utf8_needed_lossy:
  "utf8_needed a = Some n \<Longrightarrow> utf8_matched a n bs = n \<Longrightarrow> lossy_bytes (a # bs) = a # take n bs @ lossy_bytes (drop n bs)"
  by (simp add: lossy_bytes.simps(2))

text \<open>Valid UTF-8 is shown unchanged.\<close>

lemma lossy_valid: "utf8_valid bs \<Longrightarrow> lossy_bytes bs = bs"
proof (induction bs rule: utf8_valid.induct)
  case (2 a bs)
  have one: "\<not> a < 0x80 \<Longrightarrow> 0xC2 \<le> a \<Longrightarrow> a \<le> 0xDF \<Longrightarrow> cont_byte b \<Longrightarrow> utf8_second a b" for b
    by (auto simp: utf8_second_def)
  show ?case
  proof (cases "a < 0x80")
    case True
    with 2 show ?thesis by (simp add: lossy_bytes.simps(2) utf8_needed_def utf8_matched_def)
  next
    case low: False
    show ?thesis
    proof (cases "0xC2 \<le> a \<and> a \<le> 0xDF")
      case True
      with low "2.prems" obtain b r where bs: "bs = b # r" "cont_byte b" "utf8_valid r" by (cases bs) simp_all
      with low True have "lossy_bytes (a # bs) = a # b # lossy_bytes r"
        using utf8_needed_lossy [of a 1 bs] one [of b] by (simp add: utf8_needed_def utf8_matched_def)
      with "2.IH"(2) [OF low True bs(1,3)] bs(1) show ?thesis by simp
    next
      case not2: False
      show ?thesis
      proof (cases "0xE0 \<le> a \<and> a \<le> 0xEF")
        case True
        with low not2 "2.prems" obtain b c r where bs: "bs = b # c # r" "cont_byte b" "cont_byte c" "a = 0xE0 \<longrightarrow> 0xA0 \<le> b"
          "a = 0xED \<longrightarrow> b \<le> 0x9F" "utf8_valid r" by (cases bs; cases "tl bs") simp_all
        have "a \<noteq> 0xF0" "a \<noteq> 0xF4" using True by auto
        with bs have "utf8_second a b" by (simp add: utf8_second_def)
        with low not2 True bs(1,3) have "lossy_bytes (a # bs) = a # b # c # lossy_bytes r"
          using utf8_needed_lossy [of a 2 bs] by (simp add: utf8_needed_def utf8_matched_def)
        with "2.IH"(3) [OF low not2 True bs(1) refl bs(6)] bs(1) show ?thesis by simp
      next
        case not3: False
        with low not2 "2.prems" have lead: "0xF0 \<le> a \<and> a \<le> 0xF4" by (simp split: if_splits)
        with low not2 not3 "2.prems" obtain b c d r where bs: "bs = b # c # d # r" "cont_byte b" "cont_byte c" "cont_byte d"
          "a = 0xF0 \<longrightarrow> 0x90 \<le> b" "a = 0xF4 \<longrightarrow> b \<le> 0x8F" "utf8_valid r"
          by (cases bs; cases "tl bs"; cases "tl (tl bs)") simp_all
        have "a \<noteq> 0xE0" "a \<noteq> 0xED" using not3 by auto
        with bs have "utf8_second a b" by (simp add: utf8_second_def)
        with low not2 not3 lead bs(1,3,4) have "lossy_bytes (a # bs) = a # b # c # d # lossy_bytes r"
          using utf8_needed_lossy [of a 3 bs] by (simp add: utf8_needed_def utf8_matched_def)
        with "2.IH"(4) [OF low not2 not3 lead bs(1) refl refl bs(7)] bs(1) show ?thesis by simp
      qed
    qed
  qed
qed simp

text \<open>A command whose thirteenth byte lies within a character stops the listing.\<close>

lemma format_table_panics:
  "format_table [from_active ''u''
     \<lparr>as_bin = ''0123456789a'' @ [CHR 0xE2, CHR 0x82, CHR 0xAC], as_args = [], as_pid = None, as_start_time = 0, as_client_id = ''c'',
      as_interactive = False, as_worker_id = ''w''\<rparr>] = None"
  by code_simp

text \<open>An attached session is in WebRTC mode exactly while a channel is being negotiated or connected.\<close>

lemma attach_mode_matches:
  "(ac_mode (attach_new t f w) = InteractiveRtc) = (ac_webrtc_state (attach_new t f w) \<in> {RtcNegotiating, RtcConnected})"
  "(ac_mode (handle_disconnect c) = InteractiveRtc) = (ac_webrtc_state (handle_disconnect c) \<in> {RtcNegotiating, RtcConnected})"
  "(ac_mode (handle_reconnect c) = InteractiveRtc) = (ac_webrtc_state (handle_reconnect c) \<in> {RtcNegotiating, RtcConnected})"
  by (simp_all add: attach_new_def handle_disconnect_def handle_reconnect_def Let_def split: AttachMode.split)

end
