(* ===== verification/Daemon_Tables.thy ===== *)
theory Daemon_Tables
  imports Client_Views "HOL-Library.Sublist"
begin

section \<open>Tables of the client daemon\<close>

text \<open>
  \<open>crates/mxdx-client/src/daemon/sessions.rs\<close> and \<open>subscriptions.rs\<close>: the sessions whose output the daemon keeps, each
  with a buffer of bounded size, and the subscriptions to events. A broadcast channel is the list
  of what was sent through it, a receiver the position from which it reads; a sink of
  notifications is a number. The iteration order of the subscription table is a parameter.
\<close>

subsection \<open>Sessions\<close>

definition DEFAULT_BUFFER_SIZE :: nat where
  "DEFAULT_BUFFER_SIZE = 65536"

record TrackedSession =
  ts_output_buffer :: "str list"
  ts_buffer_bytes :: nat
  ts_max_buffer_bytes :: nat
  ts_output_tx :: "str list"
  ts_worker_room :: str
  ts_completed :: bool

type_synonym SessionTracker = "str \<rightharpoonup> TrackedSession"

definition tracked_new :: "str \<Rightarrow> TrackedSession" where
  "tracked_new worker_room =
     \<lparr>ts_output_buffer = [], ts_buffer_bytes = 0, ts_max_buffer_bytes = DEFAULT_BUFFER_SIZE, ts_output_tx = [],
      ts_worker_room = worker_room, ts_completed = False\<rparr>"

definition track :: "str \<Rightarrow> str \<Rightarrow> SessionTracker \<Rightarrow> nat \<times> SessionTracker" where
  "track uuid worker_room t = (0, t(uuid \<mapsto> tracked_new worker_room))"

definition tracker_subscribe :: "str \<Rightarrow> SessionTracker \<Rightarrow> nat option" where
  "tracker_subscribe uuid t = map_option (\<lambda>s. length (ts_output_tx s)) (t uuid)"

text \<open>Lines leave at the front until the new one fits; \<open>buffer_bytes\<close> is an unsigned counter.\<close>

fun evict :: "nat \<Rightarrow> nat \<Rightarrow> str list \<Rightarrow> nat \<Rightarrow> str list \<times> nat" where
  "evict mx line_len [] bytes = ([], bytes)"
| "evict mx line_len (old # buf) bytes =
     (if bytes + line_len > mx then evict mx line_len buf (bytes - length old) else (old # buf, bytes))"

definition push_line :: "str \<Rightarrow> TrackedSession \<Rightarrow> TrackedSession" where
  "push_line line s =
     (if length line > ts_max_buffer_bytes s then s
      else
        (let (buf, bytes) = evict (ts_max_buffer_bytes s) (length line) (ts_output_buffer s) (ts_buffer_bytes s)
         in s\<lparr>ts_output_buffer := buf @ [line], ts_buffer_bytes := bytes + length line,
              ts_output_tx := ts_output_tx s @ [line]\<rparr>))"

definition push_output :: "str \<Rightarrow> str \<Rightarrow> SessionTracker \<Rightarrow> SessionTracker" where
  "push_output uuid line t = (case t uuid of None \<Rightarrow> t | Some s \<Rightarrow> t(uuid \<mapsto> push_line line s))"

definition tracker_complete :: "str \<Rightarrow> SessionTracker \<Rightarrow> SessionTracker" where
  "tracker_complete uuid t = (case t uuid of None \<Rightarrow> t | Some s \<Rightarrow> t(uuid \<mapsto> s\<lparr>ts_completed := True\<rparr>))"

definition tracker_remove :: "str \<Rightarrow> SessionTracker \<Rightarrow> SessionTracker" where
  "tracker_remove uuid t = t(uuid := None)"

definition buffered_output :: "str \<Rightarrow> SessionTracker \<Rightarrow> str list" where
  "buffered_output uuid t = (case t uuid of None \<Rightarrow> [] | Some s \<Rightarrow> ts_output_buffer s)"

definition active_count :: "SessionTracker \<Rightarrow> nat" where
  "active_count t = card {u. \<exists>s. t u = Some s \<and> \<not> ts_completed s}"

definition session_uuids :: "key_order \<Rightarrow> SessionTracker \<Rightarrow> str list" where
  "session_uuids it t = it (dom t)"

subsection \<open>Subscriptions\<close>

record EventFilter =
  ef_uuid :: "str option"
  ef_worker_id :: "str option"
  ef_worker_room :: "str option"

record Subscription =
  su_event_patterns :: "str list"
  su_filter :: "EventFilter option"
  su_sink :: nat

record SubscriptionRegistry =
  sub_table :: "str \<rightharpoonup> Subscription"
  sub_next_id :: u64

definition registry_new :: SubscriptionRegistry where
  "registry_new = \<lparr>sub_table = Map.empty, sub_next_id = 0\<rparr>"

definition registry_subscribe ::
  "str list \<Rightarrow> EventFilter option \<Rightarrow> nat \<Rightarrow> SubscriptionRegistry \<Rightarrow> str \<times> SubscriptionRegistry" where
  "registry_subscribe event_patterns flt sink r =
     (let next_id = sub_next_id r + 1;
          sid = ''sub-'' @ pad 4 (unat next_id)
      in (sid, \<lparr>sub_table = (sub_table r)(sid \<mapsto> \<lparr>su_event_patterns = event_patterns, su_filter = flt, su_sink = sink\<rparr>),
               sub_next_id = next_id\<rparr>))"

definition unsubscribe :: "str \<Rightarrow> SubscriptionRegistry \<Rightarrow> bool \<times> SubscriptionRegistry" where
  "unsubscribe sid r = (sub_table r sid \<noteq> None, r\<lparr>sub_table := (sub_table r)(sid := None)\<rparr>)"

definition ends_with :: "str \<Rightarrow> str \<Rightarrow> bool" where
  "ends_with s suf \<longleftrightarrow> suffix suf s"

definition pattern_matches :: "str \<Rightarrow> str \<Rightarrow> bool" where
  "pattern_matches event_type p \<longleftrightarrow>
     (if ends_with p ''.*'' then starts_with event_type (take (length p - 2) p) else p = event_type)"

definition matches_patterns :: "str \<Rightarrow> str list \<Rightarrow> bool" where
  "matches_patterns event_type patterns \<longleftrightarrow> list_ex (pattern_matches event_type) patterns"

text \<open>What a dispatch sends, in the order of the table.\<close>

definition registry_dispatch :: "key_order \<Rightarrow> str \<Rightarrow> str \<Rightarrow> SubscriptionRegistry \<Rightarrow> (nat \<times> str) list" where
  "registry_dispatch it event_type event_json r =
     concat (map (\<lambda>sid. case sub_table r sid of
                         Some sub \<Rightarrow> if matches_patterns event_type (su_event_patterns sub) then [(su_sink sub, event_json)] else []
                       | None \<Rightarrow> []) (it (dom (sub_table r))))"

subsection \<open>The buffer keeps the newest output that fits\<close>

definition text_size :: "str list \<Rightarrow> nat" where
  "text_size ls = sum_list (map length ls)"

lemma text_size_simps [simp]:
  "text_size [] = 0" "text_size (l # ls) = length l + text_size ls" "text_size (xs @ ys) = text_size xs + text_size ys"
  by (simp_all add: text_size_def)

lemma text_size_suffix: "suffix xs ys \<Longrightarrow> text_size xs \<le> text_size ys"
  by (auto simp: suffix_def)

definition tracked_wf :: "TrackedSession \<Rightarrow> bool" where
  "tracked_wf s \<longleftrightarrow> ts_buffer_bytes s = text_size (ts_output_buffer s) \<and> text_size (ts_output_buffer s) \<le> ts_max_buffer_bytes s"

definition longest_fit :: "nat \<Rightarrow> str list \<Rightarrow> str list \<Rightarrow> bool" where
  "longest_fit mx ls buf \<longleftrightarrow> suffix buf ls \<and> text_size buf \<le> mx \<and> (\<forall>s. suffix s ls \<and> text_size s \<le> mx \<longrightarrow> suffix s buf)"

lemma evict_fits:
  assumes "bytes = text_size buf" "n \<le> mx"
  shows "snd (evict mx n buf bytes) = text_size (fst (evict mx n buf bytes))
    \<and> text_size (fst (evict mx n buf bytes)) + n \<le> mx
    \<and> suffix (fst (evict mx n buf bytes)) buf
    \<and> (\<forall>s. suffix s buf \<and> text_size s + n \<le> mx \<longrightarrow> suffix s (fst (evict mx n buf bytes)))"
  using assms
proof (induction mx n buf bytes rule: evict.induct)
  case (2 mx n old buf bytes)
  show ?case
  proof (cases "bytes + n > mx")
    case True
    have ih: "bytes - length old = text_size buf" using "2.prems" by simp
    note IH = "2.IH" [OF True ih "2.prems"(2)]
    have "suffix s buf" if "suffix s (old # buf)" "text_size s + n \<le> mx" for s
      using that True "2.prems"(1) by (auto simp: suffix_Cons)
    with IH True show ?thesis by (auto intro: suffix_ConsI)
  qed (use 2 in auto)
qed simp

lemma push_line_wf: "tracked_wf s \<Longrightarrow> tracked_wf (push_line line s)"
  using evict_fits [of "ts_buffer_bytes s" "ts_output_buffer s" "length line" "ts_max_buffer_bytes s"]
  by (auto simp: push_line_def tracked_wf_def split_beta Let_def)

lemma push_line_longest:
  assumes "tracked_wf s" and "longest_fit (ts_max_buffer_bytes s) ls (ts_output_buffer s)" and "length line \<le> ts_max_buffer_bytes s"
  shows "longest_fit (ts_max_buffer_bytes s) (ls @ [line]) (ts_output_buffer (push_line line s))"
proof -
  let ?mx = "ts_max_buffer_bytes s" and ?b = "ts_output_buffer s"
  let ?e = "fst (evict ?mx (length line) ?b (ts_buffer_bytes s))"
  note e = evict_fits [of "ts_buffer_bytes s" ?b "length line" ?mx]
  have b: "ts_buffer_bytes s = text_size ?b" using assms(1) by (simp add: tracked_wf_def)
  have e': "suffix ?e ?b" "text_size ?e + length line \<le> ?mx" "\<And>t. suffix t ?b \<Longrightarrow> text_size t + length line \<le> ?mx \<Longrightarrow> suffix t ?e"
    using e [OF b assms(3)] by auto
  have buf: "ts_output_buffer (push_line line s) = ?e @ [line]"
    using assms(3) by (simp add: push_line_def split_beta Let_def)
  have "suffix t (?e @ [line])" if t: "suffix t (ls @ [line])" "text_size t \<le> ?mx" for t
  proof (cases t rule: rev_cases)
    case (snoc t' l)
    with t(1) have "l = line" "suffix t' ls" by simp_all
    moreover have "suffix t' ?b" using assms(2) t(2) \<open>suffix t' ls\<close> snoc by (auto simp: longest_fit_def)
    ultimately show ?thesis using e'(3) [of t'] t(2) snoc by simp
  qed simp
  then show ?thesis
    using assms(2) e'(1,2) suffix_order.trans [OF e'(1)] by (auto simp: longest_fit_def buf)
qed

lemma fold_push_longest:
  assumes "tracked_wf s" and "longest_fit (ts_max_buffer_bytes s) ls (ts_output_buffer s)"
  shows "longest_fit (ts_max_buffer_bytes s) (ls @ filter (\<lambda>l. length l \<le> ts_max_buffer_bytes s) lines)
      (ts_output_buffer (fold push_line lines s))
    \<and> ts_output_tx (fold push_line lines s) = ts_output_tx s @ filter (\<lambda>l. length l \<le> ts_max_buffer_bytes s) lines"
  using assms
proof (induction lines arbitrary: s ls)
  case (Cons line lines)
  have mx: "ts_max_buffer_bytes (push_line line s) = ts_max_buffer_bytes s" by (simp add: push_line_def split_beta Let_def)
  show ?case
  proof (cases "length line \<le> ts_max_buffer_bytes s")
    case True
    have "ts_output_tx (push_line line s) = ts_output_tx s @ [line]" using True by (simp add: push_line_def split_beta Let_def)
    moreover have wf: "tracked_wf (push_line line s)" by (rule push_line_wf [OF Cons.prems(1)])
    ultimately show ?thesis
      using Cons.IH [OF wf, unfolded mx, OF push_line_longest [OF Cons.prems True]] True by simp
  next
    case False
    then have "push_line line s = s" by (simp add: push_line_def)
    with Cons.IH [OF Cons.prems] False show ?thesis by simp
  qed
qed simp

lemma fold_push_output:
  "t uuid = Some s \<Longrightarrow> fold (push_output uuid) lines t uuid = Some (fold push_line lines s)"
  by (induction lines arbitrary: t s) (simp_all add: push_output_def)

text \<open>
  The daemon keeps the newest output that fits. After any lines have been pushed to a session,
  its buffer is the longest run of the last accepted lines whose bytes fit 64 KiB, where a line
  longer than that is not accepted; every accepted line, and no other, was broadcast in order.
\<close>

lemma daemon_buffer_newest:
  "\<exists>s. fold (push_output uuid) lines (snd (track uuid room t)) uuid = Some s
    \<and> longest_fit 65536 (filter (\<lambda>l. length l \<le> 65536) lines) (ts_output_buffer s)
    \<and> ts_buffer_bytes s = text_size (ts_output_buffer s)
    \<and> ts_output_tx s = filter (\<lambda>l. length l \<le> 65536) lines"
proof -
  have wf: "tracked_wf (tracked_new room)" by (simp add: tracked_wf_def tracked_new_def)
  have fit: "longest_fit (ts_max_buffer_bytes (tracked_new room)) [] (ts_output_buffer (tracked_new room))"
    by (simp add: longest_fit_def tracked_new_def)
  have "tracked_wf (fold push_line lines s)" if "tracked_wf s" for s
    using that by (induction lines arbitrary: s) (simp_all add: push_line_wf)
  with wf have "tracked_wf (fold push_line lines (tracked_new room))" by blast
  moreover have "fold (push_output uuid) lines (snd (track uuid room t)) uuid = Some (fold push_line lines (tracked_new room))"
    by (rule fold_push_output) (simp add: track_def)
  ultimately show ?thesis
    using fold_push_longest [OF wf fit, of lines]
    by (auto simp: tracked_new_def DEFAULT_BUFFER_SIZE_def tracked_wf_def)
qed

subsection \<open>Subscriptions are told apart\<close>

lemma pad_inj: "pad w m = pad w n \<Longrightarrow> m = n"
  by (metis parse_digits_pad option.inject of_nat_eq_iff)

definition registry_ok :: "SubscriptionRegistry \<Rightarrow> bool" where
  "registry_ok r \<longleftrightarrow> (\<forall>sid \<in> dom (sub_table r). \<exists>k. k \<le> unat (sub_next_id r) \<and> sid = ''sub-'' @ pad 4 k)"

lemma registry_new_ok: "registry_ok registry_new"
  by (simp add: registry_ok_def registry_new_def)

lemma unsubscribe_ok: "registry_ok r \<Longrightarrow> registry_ok (snd (unsubscribe sid r))"
  by (auto simp: registry_ok_def unsubscribe_def)

lemma subscribe_fresh:
  assumes "registry_ok r" and "unat (sub_next_id r) < 2 ^ 64 - 1"
  shows "sub_table r (fst (registry_subscribe ps f sink r)) = None \<and> registry_ok (snd (registry_subscribe ps f sink r))"
proof -
  have next_id: "unat (sub_next_id r + 1) = unat (sub_next_id r) + 1" using assms(2) by (simp add: unat_word_ariths)
  have "sub_table r (''sub-'' @ pad 4 (unat (sub_next_id r + 1))) = None"
  proof (rule ccontr)
    assume "sub_table r (''sub-'' @ pad 4 (unat (sub_next_id r + 1))) \<noteq> None"
    then have "''sub-'' @ pad 4 (unat (sub_next_id r + 1)) \<in> dom (sub_table r)" by blast
    then obtain k where k: "k \<le> unat (sub_next_id r)" "''sub-'' @ pad 4 (unat (sub_next_id r + 1)) = ''sub-'' @ pad 4 k"
      using assms(1) unfolding registry_ok_def by blast
    from k(2) have "pad 4 (unat (sub_next_id r + 1)) = pad 4 k" by (simp only: same_append_eq)
    from pad_inj [OF this] k(1) next_id show False by linarith
  qed
  moreover have "registry_ok (snd (registry_subscribe ps f sink r))"
  proof -
    have "\<exists>k. k \<le> unat (sub_next_id r + 1) \<and> sid = ''sub-'' @ pad 4 k" if "sid \<in> dom (sub_table r)" for sid
      using assms(1) that next_id unfolding registry_ok_def by (metis Suc_eq_plus1 le_SucI)
    then show ?thesis by (auto simp: registry_ok_def registry_subscribe_def Let_def)
  qed
  ultimately show ?thesis by (simp add: registry_subscribe_def Let_def)
qed

text \<open>A dispatch reaches a sink exactly through a subscription one of whose patterns matches; the
  filter of the subscription has no influence, and a prefix pattern does not stop at a dot.\<close>

lemma dispatch_reaches:
  assumes "iterates it" and "finite (dom (sub_table r))"
  shows "(sink, msg) \<in> set (registry_dispatch it ty ev r) \<longleftrightarrow>
    msg = ev \<and> (\<exists>sid sub. sub_table r sid = Some sub \<and> su_sink sub = sink \<and> matches_patterns ty (su_event_patterns sub))"
proof -
  have "set (it (dom (sub_table r))) = dom (sub_table r)" by (rule iterates_set [OF assms])
  then have "set (registry_dispatch it ty ev r) = (\<Union>sid \<in> dom (sub_table r). set (case sub_table r sid of
      Some sub \<Rightarrow> if matches_patterns ty (su_event_patterns sub) then [(su_sink sub, ev)] else [] | None \<Rightarrow> []))"
    by (simp add: registry_dispatch_def)
  also have "\<dots> = {(su_sink sub, ev) | sid sub. sub_table r sid = Some sub \<and> matches_patterns ty (su_event_patterns sub)}"
    by (auto split: if_splits; blast)
  finally show ?thesis by auto
qed

lemma dispatch_ignores_filter:
  "registry_dispatch it ty ev (r\<lparr>sub_table := \<lambda>sid. map_option (\<lambda>sub. sub\<lparr>su_filter := f\<rparr>) (sub_table r sid)\<rparr>)
    = registry_dispatch it ty ev r"
proof -
  have "dom (\<lambda>sid. map_option (\<lambda>sub. sub\<lparr>su_filter := f\<rparr>) (sub_table r sid)) = dom (sub_table r)" by (auto simp: dom_def)
  then show ?thesis by (auto simp: registry_dispatch_def intro!: arg_cong [where f = concat] map_cong split: option.split)
qed

lemma prefix_pattern_crosses_dot: "pattern_matches ''session.outputx'' ''session.output.*''"
  by code_simp

end
