(* ===== verification/Client_Daemon.thy ===== *)
theory Client_Daemon
  imports Daemon_Tables
begin

section \<open>The client daemon\<close>

text \<open>
  \<open>crates/mxdx-client/src/daemon/handler.rs\<close> answers JSON-RPC requests, \<open>daemon/mod.rs\<close> decides when the daemon stops,
  \<open>daemon/transport\<close> reads requests from a connection and \<open>matrix.rs\<close> turns room events into session events.
  A JSON document is a value of the type \<open>'v\<close>; its accessors, the decoders that \<open>serde\<close> derives and
  what the Matrix client returns are parameters, collected in the records \<open>rpc_api\<close> and
  \<open>daemon_env\<close>. A reply is a value rather than its JSON text, and the outer \<open>None\<close> of a
  reply is a panic of the task. Each handler is one step: it holds the lock of the connection from
  the liveness check on. A sink of notifications is a number.
\<close>

subsection \<open>Protocol\<close>

datatype RequestId = IdNumber "64 word" | IdString str

record 'v Request =
  rq_id :: RequestId
  rq_method :: str
  rq_params :: "'v option"

datatype 'v IncomingMessage = IncomingRequest "'v Request" | IncomingNotification str "'v option"

definition PARSE_ERROR :: int where "PARSE_ERROR = - 32700"
definition METHOD_NOT_FOUND :: int where "METHOD_NOT_FOUND = - 32601"
definition INVALID_PARAMS :: int where "INVALID_PARAMS = - 32602"
definition INTERNAL_ERROR :: int where "INTERNAL_ERROR = - 32603"
definition SESSION_NOT_FOUND :: int where "SESSION_NOT_FOUND = - 5"
definition MATRIX_UNAVAILABLE :: int where "MATRIX_UNAVAILABLE = - 7"

record SessionRunParams =
  rp_bin :: str
  rp_args :: "str list"
  rp_cwd :: "str option"
  rp_env :: "(str \<rightharpoonup> str) option"
  rp_interactive :: bool
  rp_no_room_output :: bool
  rp_timeout_seconds :: "u64 option"
  rp_heartbeat_interval :: "u64 option"
  rp_worker_room :: "str option"
  rp_detach :: bool

record SessionCancelParams =
  cp_uuid :: str
  cp_signal :: "str option"
  cp_worker_room :: "str option"

record SessionLogsParams =
  lp_uuid :: str
  lp_follow :: bool
  lp_worker_room :: "str option"

record SessionAttachParams =
  ap_uuid :: str
  ap_interactive :: bool

record EventsSubscribeParams =
  ep_events :: "str list"
  ep_filter :: "EventFilter option"

record AddTransportParams =
  atp_type :: str
  atp_bind :: "str option"
  atp_port :: "u16 option"

record RemoveTransportParams =
  rtp_type :: str
  rtp_address :: "str option"

record DaemonStatusResult =
  ds_uptime_seconds :: u64
  ds_profile :: str
  ds_connected_clients :: u32
  ds_active_sessions :: u32
  ds_transports :: "(str \<times> str) list"
  ds_matrix_status :: str
  ds_accounts :: "str list"

datatype rpc_result =
  ResStatus DaemonStatusResult
| ResShutdown str
| ResRun str str
| ResCancelled str str
| ResSessions "str list"
| ResOutput "str list"
| ResSubscription str
| ResRemoved bool
| ResWorkers "str list"

datatype reply = RpcOk RequestId rpc_result | RpcErr RequestId int str

fun reply_id :: "reply \<Rightarrow> RequestId" where
  "reply_id (RpcOk i _) = i"
| "reply_id (RpcErr i _ _) = i"

text \<open>What \<open>serde_json\<close> decodes and encodes.\<close>

record 'v rpc_api =
  rpc_values :: "'v value_api"
  from_str :: "str \<Rightarrow> (str, 'v) result"
  null_value :: 'v
  empty_object :: 'v
  de_request :: "'v \<Rightarrow> (str, 'v Request) result"
  de_notification :: "'v \<Rightarrow> (str, str \<times> 'v option) result"
  de_run :: "'v \<Rightarrow> (str, SessionRunParams) result"
  de_cancel :: "'v \<Rightarrow> (str, SessionCancelParams) result"
  de_logs :: "'v \<Rightarrow> (str, SessionLogsParams) result"
  de_attach :: "'v \<Rightarrow> (str, SessionAttachParams) result"
  de_subscribe :: "'v \<Rightarrow> (str, EventsSubscribeParams) result"
  de_unsubscribe :: "'v \<Rightarrow> (str, str) result"
  de_add_transport :: "'v \<Rightarrow> (str, AddTransportParams) result"
  de_remove_transport :: "'v \<Rightarrow> (str, RemoveTransportParams) result"
  de_output :: "'v \<Rightarrow> (str, SessionOutput) result"
  de_result :: "'v \<Rightarrow> (str, SessionResult) result"
  ser_task :: "SessionTask \<Rightarrow> (str, 'v) result"
  ser_signal :: "SessionSignal \<Rightarrow> (str, 'v) result"
  ser_cancel :: "SessionCancel \<Rightarrow> (str, 'v) result"

definition message_parse :: "'v rpc_api \<Rightarrow> str \<Rightarrow> (str, 'v IncomingMessage) result" where
  "message_parse J json =
     (case from_str J json of
        Inl e \<Rightarrow> Err e
      | Inr value \<Rightarrow>
          if value_get (rpc_values J) value ''id'' \<noteq> None then
            (case de_request J value of Inl e \<Rightarrow> Err e | Inr req \<Rightarrow> Okay (IncomingRequest req))
          else
            (case de_notification J value of Inl e \<Rightarrow> Err e | Inr (m, p) \<Rightarrow> Okay (IncomingNotification m p)))"

definition parse_params :: "'v rpc_api \<Rightarrow> ('v \<Rightarrow> (str, 'p) result) \<Rightarrow> RequestId \<Rightarrow> 'v option \<Rightarrow> (reply, 'p) result" where
  "parse_params J de rid params =
     (case params of
        Some v \<Rightarrow> (case de v of Inl e \<Rightarrow> Err (RpcErr rid INVALID_PARAMS (''invalid params: '' @ e)) | Inr p \<Rightarrow> Okay p)
      | None \<Rightarrow>
          (case de (empty_object J) of Inl e \<Rightarrow> Err (RpcErr rid INVALID_PARAMS (''params required: '' @ e)) | Inr p \<Rightarrow> Okay p))"

subsection \<open>Events of the room\<close>

definition SESSION_TASK :: str where "SESSION_TASK = ''org.mxdx.session.task''"
definition SESSION_START :: str where "SESSION_START = ''org.mxdx.session.start''"
definition SESSION_OUTPUT :: str where "SESSION_OUTPUT = ''org.mxdx.session.output''"
definition SESSION_HEARTBEAT :: str where "SESSION_HEARTBEAT = ''org.mxdx.session.heartbeat''"
definition SESSION_RESULT :: str where "SESSION_RESULT = ''org.mxdx.session.result''"
definition SESSION_SIGNAL :: str where "SESSION_SIGNAL = ''org.mxdx.session.signal''"
definition SESSION_CANCEL :: str where "SESSION_CANCEL = ''org.mxdx.session.cancel''"

datatype 'v IncomingClientEvent =
  EvStart str str 'v
| EvOutput str str 'v
| EvHeartbeat str str 'v
| EvResult str str 'v

definition incoming_event :: "'v rpc_api \<Rightarrow> 'v \<Rightarrow> 'v IncomingClientEvent option" where
  "incoming_event J raw =
     (let A = rpc_values J;
          event_type = (case str_field A raw ''type'' of Some t \<Rightarrow> t | None \<Rightarrow> '''');
          event_id = (case str_field A raw ''event_id'' of Some e \<Rightarrow> e | None \<Rightarrow> '''');
          content = (case value_get A raw ''content'' of Some c \<Rightarrow> c | None \<Rightarrow> null_value J);
          session_uuid = (case str_field A content ''session_uuid'' of Some u \<Rightarrow> u | None \<Rightarrow> '''')
      in if session_uuid = [] then None
         else if event_type = SESSION_START then Some (EvStart event_id session_uuid content)
         else if event_type = SESSION_OUTPUT then Some (EvOutput event_id session_uuid content)
         else if event_type = SESSION_HEARTBEAT then Some (EvHeartbeat event_id session_uuid content)
         else if event_type = SESSION_RESULT then Some (EvResult event_id session_uuid content)
         else None)"

definition sync_events_mut :: "'v rpc_api \<Rightarrow> (str, 'v list) result \<Rightarrow> (str, 'v IncomingClientEvent list) result" where
  "sync_events_mut J collected =
     (case collected of Inl e \<Rightarrow> Err e | Inr raw_events \<Rightarrow> Okay (List.map_filter (incoming_event J) raw_events))"

text \<open>The telemetry of the room: the cache of the Matrix client where it shows a live worker,
  otherwise merged with what the server reports, key by key the later timestamp; the keys of the
  merged table are those of the two lists. \<open>now\<close> is the clock at the check of the cache.\<close>

definition timestamp_of :: "'v value_api \<Rightarrow> 'v \<Rightarrow> str" where
  "timestamp_of A v = (case str_field A v ''timestamp'' of Some t \<Rightarrow> t | None \<Rightarrow> '''')"

definition merge_rest :: "'v value_api \<Rightarrow> str \<times> 'v \<Rightarrow> (str \<rightharpoonup> 'v) \<Rightarrow> (str \<rightharpoonup> 'v)" where
  "merge_rest A kv merged =
     (let should_replace = (case merged (fst kv) of
                              None \<Rightarrow> True
                            | Some existing \<Rightarrow> timestamp_of A (snd kv) > timestamp_of A existing)
      in if should_replace then merged(fst kv \<mapsto> snd kv) else merged)"

definition merge_entries :: "key_order \<Rightarrow> 'v value_api \<Rightarrow> (str \<times> 'v) list \<Rightarrow> (str \<times> 'v) list \<Rightarrow> (str \<times> 'v) list" where
  "merge_entries it A sdk_entries rest_entries =
     (let merged = fold (merge_rest A) rest_entries (fold (\<lambda>(k, v) m. m(k \<mapsto> v)) sdk_entries Map.empty)
      in map (\<lambda>k. (k, the (merged k))) (it (fst ` set (sdk_entries @ rest_entries))))"

definition read_state_events ::
  "key_order \<Rightarrow> 'v value_api \<Rightarrow> u64 \<Rightarrow> (str \<times> 'v) list option \<Rightarrow> (str \<times> 'v) list option \<Rightarrow> (str \<times> 'v) list option" where
  "read_state_events it A now cached rest =
     (let sdk_entries = (case cached of Some es \<Rightarrow> es | None \<Rightarrow> [])
      in case summarize_worker_liveness A now sdk_entries of
           None \<Rightarrow> None
         | Some summary \<Rightarrow>
             if ls_online summary > 0 then Some sdk_entries
             else
               (let rest_entries = (case rest of Some es \<Rightarrow> es | None \<Rightarrow> [])
                in if sdk_entries = [] \<and> rest_entries = [] then Some []
                   else if rest_entries \<noteq> [] then Some (merge_entries it A sdk_entries rest_entries)
                   else Some sdk_entries))"

subsection \<open>The handler\<close>

text \<open>
  \<open>h_posted\<close> and \<open>h_tails\<close> are the effects of the handlers: the events posted to the room and the
  tasks spawned to follow a session, each with its sink. What the connection of the daemon is at
  each look, and what it returns, is the environment of one request: \<open>dv_first\<close> and \<open>dv_locked\<close>
  tell whether it is there at the first look and under the lock, \<open>dv_poll\<close> at a time in
  milliseconds after the wait began, \<open>dv_delay\<close> how much longer than asked a sleep lasts.
\<close>

record 'v Handler =
  h_sessions :: SessionTracker
  h_subscriptions :: SubscriptionRegistry
  h_profile_name :: str
  h_last_activity_ms :: u64
  h_posted :: "(str \<times> 'v) list"
  h_tails :: "(str \<times> nat) list"

record 'v daemon_env =
  dv_now_ms :: u64
  dv_uptime :: u64
  dv_first :: bool
  dv_poll :: "nat \<Rightarrow> bool"
  dv_delay :: "nat \<Rightarrow> nat"
  dv_locked :: bool
  dv_cached :: "(str \<times> 'v) list option"
  dv_rest :: "(str \<times> 'v) list option"
  dv_sdk_ms :: u64
  dv_check_ms :: u64
  dv_user_id :: str
  dv_fresh_uuid :: str
  dv_post :: "str \<Rightarrow> 'v \<Rightarrow> (str, str) result"

definition handler_new :: "u64 \<Rightarrow> str \<Rightarrow> 'v Handler" where
  "handler_new now_ms profile_name =
     \<lparr>h_sessions = Map.empty, h_subscriptions = registry_new, h_profile_name = profile_name,
      h_last_activity_ms = now_ms, h_posted = [], h_tails = []\<rparr>"

definition touch :: "u64 \<Rightarrow> 'v Handler \<Rightarrow> 'v Handler" where
  "touch now_ms h = h\<lparr>h_last_activity_ms := now_ms\<rparr>"

definition idle_seconds :: "u64 \<Rightarrow> 'v Handler \<Rightarrow> u64" where
  "idle_seconds now_ms h = saturating_sub now_ms (h_last_activity_ms h) div 1000"

function wait_for_matrix :: "(nat \<Rightarrow> bool) \<Rightarrow> (nat \<Rightarrow> nat) \<Rightarrow> nat \<Rightarrow> nat \<Rightarrow> bool" where
  "wait_for_matrix poll delay deadline now =
     (if poll now then True
      else if now \<ge> deadline then False
      else wait_for_matrix poll delay deadline (now + 200 + delay now))"
  by pat_completeness auto
termination by (relation "measure (\<lambda>(_, _, deadline, now). deadline - now)") auto

declare wait_for_matrix.simps [simp del]

definition handle_daemon_status :: "'v daemon_env \<Rightarrow> RequestId \<Rightarrow> 'v Handler \<Rightarrow> reply" where
  "handle_daemon_status E rid h =
     RpcOk rid (ResStatus
       \<lparr>ds_uptime_seconds = dv_uptime E, ds_profile = h_profile_name h, ds_connected_clients = 0,
        ds_active_sessions = of_nat (active_count (h_sessions h)), ds_transports = [],
        ds_matrix_status = (if dv_first E then ''connected'' else ''disconnected''), ds_accounts = []\<rparr>)"

definition handle_daemon_shutdown :: "RequestId \<Rightarrow> reply" where
  "handle_daemon_shutdown rid = RpcOk rid (ResShutdown ''shutting_down'')"

text \<open>The telemetry that \<open>session.run\<close> looks at, and its two refusals; the dash is U+2014.\<close>

definition run_telemetry :: "key_order \<Rightarrow> 'v rpc_api \<Rightarrow> 'v daemon_env \<Rightarrow> (str \<times> 'v) list option" where
  "run_telemetry it J E =
     (let telemetry_events = (case dv_cached E of Some es \<Rightarrow> es | None \<Rightarrow> [])
      in case summarize_worker_liveness (rpc_values J) (dv_sdk_ms E) telemetry_events of
           None \<Rightarrow> None
         | Some sdk_summary \<Rightarrow>
             if ls_online sdk_summary = 0 then
               (let rest_entries = (case dv_rest E of Some es \<Rightarrow> es | None \<Rightarrow> [])
                in if rest_entries \<noteq> [] then Some (merge_entries it (rpc_values J) telemetry_events rest_entries)
                   else Some telemetry_events)
             else Some telemetry_events)"

definition no_telemetry :: "'v value_api \<Rightarrow> (str \<times> 'v) list \<Rightarrow> bool" where
  "no_telemetry A events \<longleftrightarrow>
     events = [] \<or> list_all (\<lambda>(_, v). is_null A v \<or> (case object_len A v of None \<Rightarrow> True | Some n \<Rightarrow> n = 0)) events"

definition liveness_detail :: "WorkerLivenessSummary \<Rightarrow> str" where
  "liveness_detail summary =
     (case ls_stale_details summary of
        Some age_ms \<Rightarrow> ''last seen '' @ show_nat (unat (age_ms div 1000)) @ ''s ago''
      | None \<Rightarrow> if ls_offline summary > 0 then ''worker is offline'' else ''no live worker'')"

definition check_run_liveness :: "key_order \<Rightarrow> 'v rpc_api \<Rightarrow> 'v daemon_env \<Rightarrow> RequestId \<Rightarrow> (reply, unit) result option" where
  "check_run_liveness it J E rid =
     (case run_telemetry it J E of
        None \<Rightarrow> None
      | Some events \<Rightarrow>
          if no_telemetry (rpc_values J) events then
            Some (Err (RpcErr rid INTERNAL_ERROR
              (''No worker telemetry found '' @ [CHR 0xE2, CHR 0x80, CHR 0x94] @ '' has the worker started?'')))
          else
            (case summarize_worker_liveness (rpc_values J) (dv_check_ms E) events of
               None \<Rightarrow> None
             | Some summary \<Rightarrow>
                 if ls_online summary = 0 then
                   Some (Err (RpcErr rid INTERNAL_ERROR (''No live worker available: '' @ liveness_detail summary)))
                 else Some (Okay ())))"

definition daemon_task :: "'v daemon_env \<Rightarrow> SessionRunParams \<Rightarrow> SessionTask" where
  "daemon_task E p =
     build_task (dv_fresh_uuid E) (rp_bin p) (rp_args p) (rp_interactive p) (rp_no_room_output p) (rp_timeout_seconds p)
       (case rp_heartbeat_interval p of Some i \<Rightarrow> i | None \<Rightarrow> 30) (dv_user_id E) (rp_cwd p)"

definition submit_task :: "'v rpc_api \<Rightarrow> 'v daemon_env \<Rightarrow> nat \<Rightarrow> RequestId \<Rightarrow> SessionRunParams \<Rightarrow> 'v Handler \<Rightarrow> reply \<times> 'v Handler" where
  "submit_task J E sink rid p h =
     (let worker_room_name = (case rp_worker_room p of Some r \<Rightarrow> r | None \<Rightarrow> ''default'');
          task = daemon_task E p;
          task_uuid = st_uuid task
      in case ser_task J task of
           Inl e \<Rightarrow> (RpcErr rid INTERNAL_ERROR (''failed to serialize task: '' @ e), h)
         | Inr content \<Rightarrow>
             (case dv_post E SESSION_TASK content of
                Inl e \<Rightarrow> (RpcErr rid INTERNAL_ERROR (''failed to submit task: '' @ e), h)
              | Inr event_id \<Rightarrow>
                  (let h1 = h\<lparr>h_posted := h_posted h @ [(SESSION_TASK, content)],
                               h_sessions := snd (track task_uuid worker_room_name (h_sessions h))\<rparr>;
                       h2 = (if \<not> rp_detach p then h1\<lparr>h_tails := h_tails h1 @ [(task_uuid, sink)]\<rparr> else h1)
                   in (RpcOk rid (ResRun task_uuid ''submitted''), h2))))"

definition handle_session_run ::
  "key_order \<Rightarrow> 'v rpc_api \<Rightarrow> 'v daemon_env \<Rightarrow> nat \<Rightarrow> RequestId \<Rightarrow> 'v option \<Rightarrow> 'v Handler \<Rightarrow> reply option \<times> 'v Handler" where
  "handle_session_run it J E sink rid params h =
     (case parse_params J (de_run J) rid params of
        Inl e \<Rightarrow> (Some e, h)
      | Inr p \<Rightarrow>
          if \<not> dv_first E \<and> \<not> wait_for_matrix (dv_poll E) (dv_delay E) (from_secs 30) 0 then
            (Some (RpcErr rid MATRIX_UNAVAILABLE ''Matrix connection not available after 30s''), h)
          else if \<not> dv_locked E then
            (Some (RpcErr rid MATRIX_UNAVAILABLE ''Matrix connection lost''), h)
          else
            (case check_run_liveness it J E rid of
               None \<Rightarrow> (None, h)
             | Some (Inl e) \<Rightarrow> (Some e, h)
             | Some (Inr _) \<Rightarrow> (let (r, h') = submit_task J E sink rid p h in (Some r, h'))))"

definition post_control ::
  "'v rpc_api \<Rightarrow> 'v daemon_env \<Rightarrow> RequestId \<Rightarrow> SessionCancelParams \<Rightarrow> 'v Handler \<Rightarrow> (reply, 'v Handler) result" where
  "post_control J E rid p h =
     (case cp_signal p of
        Some sig \<Rightarrow>
          (case ser_signal J (build_signal (cp_uuid p) sig) of
             Inl e \<Rightarrow> Err (RpcErr rid INTERNAL_ERROR (''failed to serialize signal: '' @ e))
           | Inr content \<Rightarrow>
               (case dv_post E SESSION_SIGNAL content of
                  Inl e \<Rightarrow> Err (RpcErr rid INTERNAL_ERROR (''failed to send signal: '' @ e))
                | Inr _ \<Rightarrow> Okay (h\<lparr>h_posted := h_posted h @ [(SESSION_SIGNAL, content)]\<rparr>)))
      | None \<Rightarrow>
          (case ser_cancel J (build_cancel (cp_uuid p) None None) of
             Inl e \<Rightarrow> Err (RpcErr rid INTERNAL_ERROR (''failed to serialize cancel: '' @ e))
           | Inr content \<Rightarrow>
               (case dv_post E SESSION_CANCEL content of
                  Inl e \<Rightarrow> Err (RpcErr rid INTERNAL_ERROR (''failed to send cancel: '' @ e))
                | Inr _ \<Rightarrow> Okay (h\<lparr>h_posted := h_posted h @ [(SESSION_CANCEL, content)]\<rparr>))))"

definition handle_session_cancel ::
  "'v rpc_api \<Rightarrow> 'v daemon_env \<Rightarrow> RequestId \<Rightarrow> 'v option \<Rightarrow> 'v Handler \<Rightarrow> reply \<times> 'v Handler" where
  "handle_session_cancel J E rid params h =
     (case parse_params J (de_cancel J) rid params of
        Inl e \<Rightarrow> (e, h)
      | Inr p \<Rightarrow>
          if \<not> dv_first E \<and> \<not> wait_for_matrix (dv_poll E) (dv_delay E) (from_secs 10) 0 then
            (RpcErr rid MATRIX_UNAVAILABLE ''Matrix connection not available'', h)
          else if \<not> dv_locked E then (RpcErr rid MATRIX_UNAVAILABLE ''Matrix connection lost'', h)
          else
            (case post_control J E rid p h of
               Inl e \<Rightarrow> (e, h)
             | Inr h' \<Rightarrow>
                 (RpcOk rid (ResCancelled ''cancelled'' (cp_uuid p)),
                  h'\<lparr>h_sessions := tracker_complete (cp_uuid p) (h_sessions h')\<rparr>)))"

definition handle_session_ls :: "key_order \<Rightarrow> RequestId \<Rightarrow> 'v Handler \<Rightarrow> reply" where
  "handle_session_ls it rid h = RpcOk rid (ResSessions (session_uuids it (h_sessions h)))"

definition handle_session_logs :: "'v rpc_api \<Rightarrow> RequestId \<Rightarrow> 'v option \<Rightarrow> 'v Handler \<Rightarrow> reply" where
  "handle_session_logs J rid params h =
     (case parse_params J (de_logs J) rid params of
        Inl e \<Rightarrow> e
      | Inr p \<Rightarrow>
          (let output = buffered_output (lp_uuid p) (h_sessions h)
           in if output = [] then
                RpcErr rid SESSION_NOT_FOUND (''session '' @ lp_uuid p @ '' not found or has no output'')
              else RpcOk rid (ResOutput output)))"

definition handle_session_attach :: "'v rpc_api \<Rightarrow> RequestId \<Rightarrow> 'v option \<Rightarrow> reply" where
  "handle_session_attach J rid params =
     (case parse_params J (de_attach J) rid params of
        Inl e \<Rightarrow> e
      | Inr p \<Rightarrow> RpcErr rid MATRIX_UNAVAILABLE ''Interactive attach not yet available in daemon mode'')"

definition handle_events_subscribe ::
  "'v rpc_api \<Rightarrow> nat \<Rightarrow> RequestId \<Rightarrow> 'v option \<Rightarrow> 'v Handler \<Rightarrow> reply \<times> 'v Handler" where
  "handle_events_subscribe J sink rid params h =
     (case parse_params J (de_subscribe J) rid params of
        Inl e \<Rightarrow> (e, h)
      | Inr p \<Rightarrow>
          (let (sub_id, subs) = registry_subscribe (ep_events p) (ep_filter p) sink (h_subscriptions h)
           in (RpcOk rid (ResSubscription sub_id), h\<lparr>h_subscriptions := subs\<rparr>)))"

definition handle_events_unsubscribe ::
  "'v rpc_api \<Rightarrow> RequestId \<Rightarrow> 'v option \<Rightarrow> 'v Handler \<Rightarrow> reply \<times> 'v Handler" where
  "handle_events_unsubscribe J rid params h =
     (case parse_params J (de_unsubscribe J) rid params of
        Inl e \<Rightarrow> (e, h)
      | Inr subscription_id \<Rightarrow>
          (let (removed, subs) = unsubscribe subscription_id (h_subscriptions h)
           in (RpcOk rid (ResRemoved removed), h\<lparr>h_subscriptions := subs\<rparr>)))"

definition handle_add_transport :: "'v rpc_api \<Rightarrow> RequestId \<Rightarrow> 'v option \<Rightarrow> reply" where
  "handle_add_transport J rid params =
     (case parse_params J (de_add_transport J) rid params of
        Inl e \<Rightarrow> e
      | Inr p \<Rightarrow> RpcErr rid INTERNAL_ERROR ''Dynamic transport addition not yet implemented'')"

definition handle_remove_transport :: "'v rpc_api \<Rightarrow> RequestId \<Rightarrow> 'v option \<Rightarrow> reply" where
  "handle_remove_transport J rid params =
     (case parse_params J (de_remove_transport J) rid params of
        Inl e \<Rightarrow> e
      | Inr p \<Rightarrow> RpcErr rid INTERNAL_ERROR ''Dynamic transport removal not yet implemented'')"

definition handle_worker_list :: "RequestId \<Rightarrow> reply" where
  "handle_worker_list rid = RpcOk rid (ResWorkers [])"

definition answer :: "'v Handler \<Rightarrow> reply \<Rightarrow> reply option \<times> 'v Handler" where
  "answer h r = (Some r, h)"

definition handle_request ::
  "key_order \<Rightarrow> 'v rpc_api \<Rightarrow> 'v daemon_env \<Rightarrow> nat \<Rightarrow> 'v Request \<Rightarrow> 'v Handler \<Rightarrow> reply option \<times> 'v Handler" where
  "handle_request it J E sink req h0 =
     (let h = touch (dv_now_ms E) h0; m = rq_method req; rid = rq_id req; params = rq_params req
      in if m = ''daemon.status'' then answer h (handle_daemon_status E rid h)
         else if m = ''daemon.shutdown'' then answer h (handle_daemon_shutdown rid)
         else if m = ''session.run'' then handle_session_run it J E sink rid params h
         else if m = ''session.cancel'' \<or> m = ''session.signal'' then
           (let (r, h') = handle_session_cancel J E rid params h in answer h' r)
         else if m = ''session.ls'' then answer h (handle_session_ls it rid h)
         else if m = ''session.logs'' then answer h (handle_session_logs J rid params h)
         else if m = ''session.attach'' then answer h (handle_session_attach J rid params)
         else if m = ''events.subscribe'' then
           (let (r, h') = handle_events_subscribe J sink rid params h in answer h' r)
         else if m = ''events.unsubscribe'' then
           (let (r, h') = handle_events_unsubscribe J rid params h in answer h' r)
         else if m = ''daemon.addTransport'' then answer h (handle_add_transport J rid params)
         else if m = ''daemon.removeTransport'' then answer h (handle_remove_transport J rid params)
         else if m = ''worker.list'' then answer h (handle_worker_list rid)
         else answer h (RpcErr rid METHOD_NOT_FOUND (''unknown method: '' @ m)))"

text \<open>The main loop wakes every ten seconds; \<open>True\<close> is the break on the idle timeout.\<close>

definition idle_check :: "u64 \<Rightarrow> u64 \<Rightarrow> 'v Handler \<Rightarrow> bool" where
  "idle_check idle_timeout_secs now_ms h \<longleftrightarrow>
     idle_timeout_secs > 0 \<and> active_count (h_sessions h) = 0 \<and> idle_seconds now_ms h > idle_timeout_secs"

datatype wake = SigInt | TenSeconds u64

definition main_loop_step :: "u64 \<Rightarrow> wake \<Rightarrow> 'v Handler \<Rightarrow> bool" where
  "main_loop_step idle_timeout_secs w h =
     (case w of SigInt \<Rightarrow> True | TenSeconds now_ms \<Rightarrow> idle_check idle_timeout_secs now_ms h)"


subsection \<open>Following a session\<close>

text \<open>
  \<open>tail_session\<close> reads what the sync loop broadcasts: a batch of events, a lag after the channel
  dropped some, or its end. Its state is the set of seen identifiers, the notifications sent and
  the tracker. The first component of a step is true when the task returns.
\<close>

datatype notification = SessionOutputN str str | SessionResultN str "32 word option" str "str option"

datatype 'v received = Batch "'v IncomingClientEvent list" | Lagged u64 | Closed

record tail_state =
  tl_seen :: "str set"
  tl_sent :: "notification list"
  tl_sessions :: SessionTracker

definition skipped :: "str \<Rightarrow> str \<Rightarrow> str \<Rightarrow> tail_state \<Rightarrow> bool" where
  "skipped uuid session_uuid event_id s \<longleftrightarrow> session_uuid \<noteq> uuid \<or> (event_id \<noteq> [] \<and> event_id \<in> tl_seen s)"

definition mark_seen :: "str \<Rightarrow> tail_state \<Rightarrow> tail_state" where
  "mark_seen event_id s = (if event_id \<noteq> [] then s\<lparr>tl_seen := insert event_id (tl_seen s)\<rparr> else s)"

definition decoded_output :: "crypto_lib \<Rightarrow> 'v rpc_api \<Rightarrow> 'v \<Rightarrow> str option" where
  "decoded_output L J content =
     (case de_output J content of
        Inl _ \<Rightarrow> None
      | Inr output \<Rightarrow> (case format_output L output of Inl _ \<Rightarrow> None | Inr txt \<Rightarrow> Some txt))"

fun tail_event :: "crypto_lib \<Rightarrow> 'v rpc_api \<Rightarrow> str \<Rightarrow> 'v IncomingClientEvent \<Rightarrow> tail_state \<Rightarrow> bool \<times> tail_state" where
  "tail_event L J uuid (EvOutput event_id session_uuid content) s =
     (if skipped uuid session_uuid event_id s then (False, s)
      else
        (let s1 = mark_seen event_id s
         in case decoded_output L J content of
              None \<Rightarrow> (False, s1)
            | Some txt \<Rightarrow>
                (False, s1\<lparr>tl_sent := tl_sent s1 @ [SessionOutputN uuid txt],
                           tl_sessions := push_output uuid txt (tl_sessions s1)\<rparr>)))"
| "tail_event L J uuid (EvResult event_id session_uuid content) s =
     (if skipped uuid session_uuid event_id s then (False, s)
      else
        (let s1 = mark_seen event_id s
         in case de_result J content of
              Inl _ \<Rightarrow> (True, s1)
            | Inr result \<Rightarrow>
                (True, s1\<lparr>tl_sent := tl_sent s1 @ [SessionResultN uuid (sr_exit_code result) (format_result result) (sr_tail result)],
                          tl_sessions := tracker_complete uuid (tl_sessions s1)\<rparr>)))"
| "tail_event L J uuid (EvStart _ _ _) s = (False, s)"
| "tail_event L J uuid (EvHeartbeat _ _ _) s = (False, s)"

fun tail_events :: "crypto_lib \<Rightarrow> 'v rpc_api \<Rightarrow> str \<Rightarrow> 'v IncomingClientEvent list \<Rightarrow> tail_state \<Rightarrow> bool \<times> tail_state" where
  "tail_events L J uuid [] s = (False, s)"
| "tail_events L J uuid (ev # evs) s =
     (let (stop, s1) = tail_event L J uuid ev s in if stop then (True, s1) else tail_events L J uuid evs s1)"

fun tail_session :: "crypto_lib \<Rightarrow> 'v rpc_api \<Rightarrow> str \<Rightarrow> 'v received list \<Rightarrow> tail_state \<Rightarrow> bool \<times> tail_state" where
  "tail_session L J uuid [] s = (False, s)"
| "tail_session L J uuid (Batch evs # rs) s =
     (let (stop, s1) = tail_events L J uuid evs s in if stop then (True, s1) else tail_session L J uuid rs s1)"
| "tail_session L J uuid (Lagged n # rs) s = tail_session L J uuid rs s"
| "tail_session L J uuid (Closed # rs) s = (True, s)"

definition tail_start :: "SessionTracker \<Rightarrow> tail_state" where
  "tail_start t = \<lparr>tl_seen = {}, tl_sent = [], tl_sessions = t\<rparr>"

text \<open>\<open>sync_loop\<close>: the batches that the broadcast channel gets from a list of sync outcomes; a failed
  sync is retried, an empty batch is not sent.\<close>

fun sync_loop :: "'v rpc_api \<Rightarrow> (str, 'v list) result list \<Rightarrow> 'v IncomingClientEvent list list" where
  "sync_loop J [] = []"
| "sync_loop J (collected # rest) =
     (case sync_events_mut J collected of
        Inl e \<Rightarrow> sync_loop J rest
      | Inr events \<Rightarrow> (if events \<noteq> [] then [events] else []) @ sync_loop J rest)"

subsection \<open>Connections\<close>

text \<open>One line of a connection (\<open>transport/unix.rs\<close>, \<open>transport/mcp.rs\<close>): the lines that it answers
  and the state; the outer \<open>None\<close> is a panic, which ends the task of the connection. A message of a
  web socket is handled alike, without the trimming.\<close>

definition answer_message ::
  "key_order \<Rightarrow> 'v rpc_api \<Rightarrow> 'v daemon_env \<Rightarrow> nat \<Rightarrow> str \<Rightarrow> 'v Handler \<Rightarrow> reply list option \<times> 'v Handler" where
  "answer_message it J E sink txt h =
     (case message_parse J txt of
        Inr (IncomingRequest req) \<Rightarrow>
          (let (r, h') = handle_request it J E sink req h in (map_option (\<lambda>r. [r]) r, h'))
      | Inr (IncomingNotification _ _) \<Rightarrow> (Some [], h)
      | Inl e \<Rightarrow> (Some [RpcErr (IdNumber 0) PARSE_ERROR (''invalid JSON: '' @ e)], h))"

definition handle_line ::
  "key_order \<Rightarrow> 'v rpc_api \<Rightarrow> 'v daemon_env \<Rightarrow> nat \<Rightarrow> str \<Rightarrow> 'v Handler \<Rightarrow> reply list option \<times> 'v Handler" where
  "handle_line it J E sink line h =
     (let trimmed = trim line in if trimmed = [] then (Some [], h) else answer_message it J E sink trimmed h)"

text \<open>A client: each line comes with the environment in which it is handled. The flag tells that
  the connection ended by itself.\<close>

fun handle_client ::
  "key_order \<Rightarrow> 'v rpc_api \<Rightarrow> nat \<Rightarrow> ('v daemon_env \<times> str) list \<Rightarrow> 'v Handler \<Rightarrow> reply list \<times> bool \<times> 'v Handler" where
  "handle_client it J sink [] h = ([], True, h)"
| "handle_client it J sink ((E, line) # lines) h =
     (case handle_line it J E sink line h of
        (None, h') \<Rightarrow> ([], False, h')
      | (Some rs, h') \<Rightarrow> (let (rs', ok, h'') = handle_client it J sink lines h' in (rs @ rs', ok, h'')))"

datatype ws_message = WsText str | WsOther | WsError str

fun handle_ws_client ::
  "key_order \<Rightarrow> 'v rpc_api \<Rightarrow> nat \<Rightarrow> ('v daemon_env \<times> ws_message) list \<Rightarrow> 'v Handler \<Rightarrow> reply list \<times> bool \<times> 'v Handler" where
  "handle_ws_client it J sink [] h = ([], True, h)"
| "handle_ws_client it J sink ((E, WsText txt) # ms) h =
     (case answer_message it J E sink txt h of
        (None, h') \<Rightarrow> ([], False, h')
      | (Some rs, h') \<Rightarrow> (let (rs', ok, h'') = handle_ws_client it J sink ms h' in (rs @ rs', ok, h'')))"
| "handle_ws_client it J sink ((E, WsOther) # ms) h = handle_ws_client it J sink ms h"
| "handle_ws_client it J sink ((E, WsError e) # ms) h = ([], False, h)"


subsection \<open>Every request is answered\<close>

definition RPC_METHODS :: "str list" where
  "RPC_METHODS =
     [''daemon.status'', ''daemon.shutdown'', ''session.run'', ''session.cancel'', ''session.signal'', ''session.ls'',
      ''session.logs'', ''session.attach'', ''events.subscribe'', ''events.unsubscribe'', ''daemon.addTransport'',
      ''daemon.removeTransport'', ''worker.list'']"

lemmas error_codes = PARSE_ERROR_def METHOD_NOT_FOUND_def INVALID_PARAMS_def INTERNAL_ERROR_def SESSION_NOT_FOUND_def
  MATRIX_UNAVAILABLE_def

lemmas simple_handlers = handle_daemon_status_def handle_daemon_shutdown_def handle_session_ls_def handle_session_logs_def
  handle_session_attach_def handle_add_transport_def handle_remove_transport_def handle_worker_list_def

definition known_reply :: "RequestId \<Rightarrow> reply \<Rightarrow> bool" where
  "known_reply rid r \<longleftrightarrow> reply_id r = rid \<and> (\<nexists>msg. r = RpcErr rid METHOD_NOT_FOUND msg)"

lemma known_reply_simps [simp]:
  "known_reply rid (RpcOk rid' x) \<longleftrightarrow> rid' = rid"
  "known_reply rid (RpcErr rid' c msg) \<longleftrightarrow> rid' = rid \<and> c \<noteq> METHOD_NOT_FOUND"
  by (auto simp: known_reply_def)

lemma parse_params_known: "parse_params J de rid params = Err e \<Longrightarrow> known_reply rid e"
  by (auto simp: parse_params_def error_codes split: option.splits sum.splits)

lemma simple_known [simp]:
  "known_reply rid (handle_daemon_status E rid h)" "known_reply rid (handle_daemon_shutdown rid)"
  "known_reply rid (handle_session_ls it rid h)" "known_reply rid (handle_session_logs J rid params h)"
  "known_reply rid (handle_session_attach J rid params)" "known_reply rid (handle_add_transport J rid params)"
  "known_reply rid (handle_remove_transport J rid params)" "known_reply rid (handle_worker_list rid)"
  by (auto simp: simple_handlers Let_def error_codes dest: parse_params_known split: sum.split)

lemma cancel_known: "known_reply rid (fst (handle_session_cancel J E rid params h))"
  by (auto simp: handle_session_cancel_def post_control_def error_codes dest: parse_params_known split: sum.split option.split)

lemma subscribe_known:
  "known_reply rid (fst (handle_events_subscribe J sink rid params h))"
  "known_reply rid (fst (handle_events_unsubscribe J rid params h))"
  by (auto simp: handle_events_subscribe_def handle_events_unsubscribe_def split_beta dest: parse_params_known split: sum.split)

lemma check_run_known: "check_run_liveness it J E rid = Some (Err e) \<Longrightarrow> known_reply rid e"
  by (auto simp: check_run_liveness_def error_codes split: option.splits if_splits)

lemma run_known: "handle_session_run it J E sink rid params h = (Some r, h') \<Longrightarrow> known_reply rid r"
  by (auto simp: handle_session_run_def submit_task_def Let_def split_beta error_codes
      dest: parse_params_known check_run_known split: sum.splits option.splits if_splits)

text \<open>The activity clock is set by \<open>touch\<close> alone.\<close>

lemma handlers_keep_clock:
  "h_last_activity_ms (snd (handle_session_run it J E sink rid params h)) = h_last_activity_ms h"
  "h_last_activity_ms (snd (handle_session_cancel J E rid params h)) = h_last_activity_ms h"
  "h_last_activity_ms (snd (handle_events_subscribe J sink rid params h)) = h_last_activity_ms h"
  "h_last_activity_ms (snd (handle_events_unsubscribe J rid params h)) = h_last_activity_ms h"
  by (auto simp: handle_session_run_def submit_task_def handle_session_cancel_def post_control_def handle_events_subscribe_def
      handle_events_unsubscribe_def Let_def split_beta split: sum.split option.split)

lemma handle_request_known:
  assumes "handle_request it J E sink req h = (Some r, h')" and "rq_method req \<in> set RPC_METHODS"
  shows "known_reply (rq_id req) r \<and> h_last_activity_ms h' = dv_now_ms E"
proof -
  have touched: "h_last_activity_ms (touch (dv_now_ms E) h) = dv_now_ms E" by (simp add: touch_def)
  have run: "known_reply (rq_id req) r \<and> h_last_activity_ms h' = dv_now_ms E"
    if "handle_session_run it J E sink (rq_id req) (rq_params req) (touch (dv_now_ms E) h) = (Some r, h')"
    using run_known [OF that] handlers_keep_clock(1) [of it J E sink "rq_id req" "rq_params req" "touch (dv_now_ms E) h"] that touched
    by simp
  show ?thesis
    using assms unfolding handle_request_def RPC_METHODS_def
    by (auto simp: Let_def split_beta answer_def run cancel_known subscribe_known handlers_keep_clock touched split: if_splits)
qed

text \<open>
  Every request that does not panic is answered under its own identifier and resets the idle
  clock, whatever its parameters; the answer is \<open>METHOD_NOT_FOUND\<close> if and only if the method is not
  one of the thirteen that the daemon knows.
\<close>

lemma daemon_answers:
  "case handle_request it J E sink req h of
     (None, h') \<Rightarrow> rq_method req = ''session.run'' \<and> h' = touch (dv_now_ms E) h
   | (Some r, h') \<Rightarrow>
       reply_id r = rq_id req \<and> h_last_activity_ms h' = dv_now_ms E
       \<and> ((\<exists>msg. r = RpcErr (rq_id req) METHOD_NOT_FOUND msg) \<longleftrightarrow> rq_method req \<notin> set RPC_METHODS)"
proof (cases "handle_request it J E sink req h")
  case (Pair ro h')
  show ?thesis
  proof (cases ro)
    case None
    with Pair show ?thesis
      by (auto simp: handle_request_def answer_def Let_def split_beta handle_session_run_def split: if_splits sum.splits option.splits)
  next
    case (Some r)
    show ?thesis
    proof (cases "rq_method req \<in> set RPC_METHODS")
      case True
      with handle_request_known [of it J E sink req h r h'] Pair Some show ?thesis by (simp add: known_reply_def)
    next
      case False
      with Pair Some have "r = RpcErr (rq_id req) METHOD_NOT_FOUND (''unknown method: '' @ rq_method req)"
        "h' = touch (dv_now_ms E) h"
        by (auto simp: handle_request_def RPC_METHODS_def answer_def Let_def)
      with Pair Some False show ?thesis by (simp add: touch_def)
    qed
  qed
qed


subsection \<open>A task is submitted to a live worker only\<close>

lemma run_telemetry_read_state_events:
  "run_telemetry it J E = read_state_events it (rpc_values J) (dv_sdk_ms E) (dv_cached E) (dv_rest E)"
  by (auto simp: run_telemetry_def read_state_events_def Let_def word_gt_0 split: option.split)

lemma summarize_online:
  assumes "summarize_loop A now events s = Some s'" and "ls_online s' \<noteq> ls_online s"
  shows "\<exists>k v caps. (k, v) \<in> set events \<and> check_worker_liveness A now v = Some (LvOnline caps)"
  using assms
proof (induction A now events s rule: summarize_loop.induct)
  case (2 A now key v events s)
  then obtain st where st: "check_worker_liveness A now v = Some st" "summarize_loop A now events (summarize_step st s) = Some s'"
    by (auto split: option.splits)
  show ?case
  proof (cases "\<exists>caps. st = LvOnline caps")
    case False
    then have "ls_online (summarize_step st s) = ls_online s" by (cases st) auto
    with "2.IH" [OF st] "2.prems"(2) show ?thesis by auto
  qed (use st(1) in auto)
qed simp

definition live_worker :: "'v rpc_api \<Rightarrow> u64 \<Rightarrow> (str \<times> 'v) list \<Rightarrow> bool" where
  "live_worker J now events \<longleftrightarrow> (\<exists>k v caps. (k, v) \<in> set events \<and> check_worker_liveness (rpc_values J) now v = Some (LvOnline caps))"

lemma check_run_live:
  assumes "check_run_liveness it J E rid = Some (Okay u)"
  shows "\<exists>events. run_telemetry it J E = Some events \<and> live_worker J (dv_check_ms E) events"
proof -
  obtain events summary where ev: "run_telemetry it J E = Some events"
    "summarize_worker_liveness (rpc_values J) (dv_check_ms E) events = Some summary" "ls_online summary \<noteq> 0"
    using assms by (auto simp: check_run_liveness_def split: option.splits if_splits)
  with summarize_online show ?thesis by (fastforce simp: summarize_worker_liveness_def live_worker_def)
qed

lemma run_okay:
  assumes "handle_session_run it J E sink rid params h = (Some (RpcOk i res), h')"
  shows "\<exists>p. parse_params J (de_run J) rid params = Okay p \<and> check_run_liveness it J E rid = Some (Okay ())
    \<and> submit_task J E sink rid p h = (RpcOk i res, h')"
proof (cases "parse_params J (de_run J) rid params")
  case (Inl e)
  have "e \<noteq> RpcOk i res" using Inl by (auto simp: parse_params_def split: option.splits sum.splits)
  with Inl assms show ?thesis by (simp add: handle_session_run_def)
next
  case (Inr p)
  have "check_run_liveness it J E rid \<noteq> Some (Err (RpcOk i res))"
    by (auto simp: check_run_liveness_def split: option.split)
  with Inr assms show ?thesis
    by (cases "check_run_liveness it J E rid"; cases "the (check_run_liveness it J E rid)")
      (auto simp: handle_session_run_def split_beta prod_eq_iff split: if_splits)
qed

lemma run_failed:
  assumes "handle_session_run it J E sink rid params h = (ro, h')" and "\<nexists>i res. ro = Some (RpcOk i res)"
  shows "h' = h"
proof -
  have "snd (submit_task J E sink rid p h) = h" if "\<nexists>i res. fst (submit_task J E sink rid p h) = RpcOk i res" for p
    using that by (auto simp: submit_task_def Let_def split: sum.splits)
  with assms show ?thesis
    by (auto simp: handle_session_run_def split_beta split: sum.splits option.splits if_splits)
qed

text \<open>
  C29. A task is posted to the room only while a worker is alive. Whatever the parameters and the
  environment, \<open>session.run\<close> either fails and changes nothing, or posts exactly the serialized task
  built from the parameters, tracks a new session under its identifier, starts a follower for it
  unless the request is detached, and reports it as submitted; then the telemetry it read holds
  a worker that is online at the time of the check. The environment variables of the request
  are not part of the task.
\<close>

theorem run_needs_live_worker:
  "case handle_session_run it J E sink rid params h of
     (Some (RpcOk i res), h') \<Rightarrow>
       (\<exists>p content events. parse_params J (de_run J) rid params = Okay p \<and> i = rid \<and> res = ResRun (dv_fresh_uuid E) ''submitted''
          \<and> run_telemetry it J E = Some events \<and> live_worker J (dv_check_ms E) events
          \<and> ser_task J (daemon_task E p) = Okay content \<and> st_env (daemon_task E p) = None
          \<and> h' = h\<lparr>h_posted := h_posted h @ [(SESSION_TASK, content)],
                    h_sessions := (h_sessions h)(dv_fresh_uuid E \<mapsto>
                      tracked_new (case rp_worker_room p of Some r \<Rightarrow> r | None \<Rightarrow> ''default'')),
                    h_tails := h_tails h @ (if rp_detach p then [] else [(dv_fresh_uuid E, sink)])\<rparr>)
   | (_, h') \<Rightarrow> h' = h"
proof (cases "handle_session_run it J E sink rid params h")
  case (Pair ro h')
  show ?thesis
  proof (cases "\<exists>i res. ro = Some (RpcOk i res)")
    case True
    then obtain i res where ok: "handle_session_run it J E sink rid params h = (Some (RpcOk i res), h')" using Pair by blast
    from run_okay [OF this] obtain p where p: "parse_params J (de_run J) rid params = Okay p"
      and live: "check_run_liveness it J E rid = Some (Okay ())" and sub: "submit_task J E sink rid p h = (RpcOk i res, h')"
      by blast
    from check_run_live [OF live] obtain events
      where ev: "run_telemetry it J E = Some events" "live_worker J (dv_check_ms E) events" by blast
    have uuid: "st_uuid (daemon_task E p) = dv_fresh_uuid E" "st_env (daemon_task E p) = None" by (simp_all add: daemon_task_def build_task_def)
    show ?thesis
      using sub p ev uuid unfolding ok by (auto simp: submit_task_def track_def Let_def split: sum.splits if_splits)
  next
    case False
    with run_failed [OF Pair] Pair show ?thesis by (auto split: option.split reply.split)
  qed
qed


subsection \<open>A follower forwards every event once\<close>

text \<open>The reference: of the events of the session, those whose identifier is empty or not met
  before; the outputs among them up to the first result, and that result.\<close>

fun ev_id :: "'v IncomingClientEvent \<Rightarrow> str" where
  "ev_id (EvStart i _ _) = i" | "ev_id (EvOutput i _ _) = i" | "ev_id (EvHeartbeat i _ _) = i" | "ev_id (EvResult i _ _) = i"

fun ev_content :: "'v IncomingClientEvent \<Rightarrow> 'v" where
  "ev_content (EvStart _ _ c) = c" | "ev_content (EvOutput _ _ c) = c" | "ev_content (EvHeartbeat _ _ c) = c" | "ev_content (EvResult _ _ c) = c"

fun is_result :: "'v IncomingClientEvent \<Rightarrow> bool" where
  "is_result (EvResult _ _ _) = True"
| "is_result _ = False"

fun follows :: "str \<Rightarrow> 'v IncomingClientEvent \<Rightarrow> bool" where
  "follows uuid (EvOutput _ u _) \<longleftrightarrow> u = uuid"
| "follows uuid (EvResult _ u _) \<longleftrightarrow> u = uuid"
| "follows uuid _ \<longleftrightarrow> False"

fun first_seen :: "str set \<Rightarrow> 'v IncomingClientEvent list \<Rightarrow> 'v IncomingClientEvent list" where
  "first_seen seen [] = []"
| "first_seen seen (ev # evs) =
     (if ev_id ev \<noteq> [] \<and> ev_id ev \<in> seen then first_seen seen evs
      else ev # first_seen (if ev_id ev \<noteq> [] then insert (ev_id ev) seen else seen) evs)"

fun events_of :: "'v received list \<Rightarrow> 'v IncomingClientEvent list" where
  "events_of [] = []"
| "events_of (Batch evs # rs) = evs @ events_of rs"
| "events_of (Lagged _ # rs) = events_of rs"
| "events_of (Closed # rs) = []"

definition to_forward :: "str \<Rightarrow> str set \<Rightarrow> 'v IncomingClientEvent list \<Rightarrow> 'v IncomingClientEvent list" where
  "to_forward uuid seen evs = first_seen seen (filter (follows uuid) evs)"

definition forwarded_texts :: "crypto_lib \<Rightarrow> 'v rpc_api \<Rightarrow> 'v IncomingClientEvent list \<Rightarrow> str list" where
  "forwarded_texts L J fs = List.map_filter (\<lambda>ev. decoded_output L J (ev_content ev)) (takeWhile (\<lambda>ev. \<not> is_result ev) fs)"

definition final_result :: "'v rpc_api \<Rightarrow> 'v IncomingClientEvent list \<Rightarrow> SessionResult option" where
  "final_result J fs =
     (case dropWhile (\<lambda>ev. \<not> is_result ev) fs of
        [] \<Rightarrow> None
      | ev # _ \<Rightarrow> (case de_result J (ev_content ev) of Inl _ \<Rightarrow> None | Inr result \<Rightarrow> Some result))"

definition result_note :: "str \<Rightarrow> SessionResult option \<Rightarrow> notification list" where
  "result_note uuid res =
     (case res of
        None \<Rightarrow> []
      | Some result \<Rightarrow> [SessionResultN uuid (sr_exit_code result) (format_result result) (sr_tail result)])"

lemma first_seen_distinct:
  "distinct (filter (\<lambda>i. i \<noteq> []) (map ev_id (first_seen seen evs)))
    \<and> (\<forall>ev \<in> set (first_seen seen evs). ev_id ev \<noteq> [] \<longrightarrow> ev_id ev \<notin> seen)"
  by (induction seen evs rule: first_seen.induct) (auto split: if_splits)

lemma forward_steps [simp]:
  "forwarded_texts L J [] = []" "final_result J [] = None"
  "\<not> is_result ev \<Longrightarrow> forwarded_texts L J (ev # fs) =
     (case decoded_output L J (ev_content ev) of None \<Rightarrow> [] | Some t \<Rightarrow> [t]) @ forwarded_texts L J fs"
  "\<not> is_result ev \<Longrightarrow> final_result J (ev # fs) = final_result J fs"
  "is_result ev \<Longrightarrow> forwarded_texts L J (ev # fs) = []"
  "is_result ev \<Longrightarrow> final_result J (ev # fs) = (case de_result J (ev_content ev) of Inl _ \<Rightarrow> None | Inr result \<Rightarrow> Some result)"
  by (auto simp: forwarded_texts_def final_result_def List.map_filter_simps split: option.split)

definition tail_outcome :: "crypto_lib \<Rightarrow> 'v rpc_api \<Rightarrow> str \<Rightarrow> 'v IncomingClientEvent list \<Rightarrow> tail_state \<Rightarrow> bool" where
  "tail_outcome L J uuid evs s \<longleftrightarrow>
     (let fs = to_forward uuid (tl_seen s) evs; s' = snd (tail_events L J uuid evs s);
          sent = fold (push_output uuid) (forwarded_texts L J fs) (tl_sessions s)
      in tl_sent s' = tl_sent s @ map (SessionOutputN uuid) (forwarded_texts L J fs) @ result_note uuid (final_result J fs)
         \<and> tl_sessions s' = (if final_result J fs = None then sent else tracker_complete uuid sent))"

lemma tail_events_outcome: "tail_outcome L J uuid evs s"
proof (induction evs arbitrary: s)
  case (Cons ev evs)
  show ?case
  proof (cases "\<not> follows uuid ev \<or> (ev_id ev \<noteq> [] \<and> ev_id ev \<in> tl_seen s)")
    case True
    then have "tail_event L J uuid ev s = (False, s)" by (cases ev) (auto simp: skipped_def)
    moreover have "to_forward uuid (tl_seen s) (ev # evs) = to_forward uuid (tl_seen s) evs" using True by (auto simp: to_forward_def)
    ultimately show ?thesis using Cons.IH [of s] by (simp add: tail_outcome_def)
  next
    case False
    then have fs: "to_forward uuid (tl_seen s) (ev # evs) = ev # to_forward uuid (tl_seen (mark_seen (ev_id ev) s)) evs"
      by (auto simp: to_forward_def mark_seen_def)
    have kept: "tl_sent (mark_seen i s) = tl_sent s" "tl_sessions (mark_seen i s) = tl_sessions s" for i by (simp_all add: mark_seen_def)
    show ?thesis
    proof (cases ev)
      case (EvOutput i u c)
      then have not_skipped: "\<not> skipped uuid u i s" using False by (auto simp: skipped_def)
      note fs = fs [unfolded EvOutput ev_id.simps]
      show ?thesis
      proof (cases "decoded_output L J c")
        case None
        then show ?thesis using Cons.IH [of "mark_seen i s"] EvOutput not_skipped by (simp add: tail_outcome_def fs kept Let_def)
      next
        case (Some tx)
        let ?s = "(mark_seen i s)\<lparr>tl_sent := tl_sent s @ [SessionOutputN uuid tx], tl_sessions := push_output uuid tx (tl_sessions s)\<rparr>"
        show ?thesis using Cons.IH [of ?s] Some EvOutput not_skipped by (simp add: tail_outcome_def fs kept Let_def)
      qed
    next
      case (EvResult i u c)
      note fs = fs [unfolded EvResult ev_id.simps]
      have "\<not> skipped uuid u i s" using False EvResult by (auto simp: skipped_def)
      then show ?thesis
        using EvResult by (auto simp: tail_outcome_def fs kept Let_def result_note_def split: sum.split)
    qed (use False in auto)
  qed
qed (simp add: tail_outcome_def to_forward_def result_note_def Let_def)

lemma tail_events_append:
  "tail_events L J uuid (xs @ ys) s =
     (let (stop, s1) = tail_events L J uuid xs s in if stop then (True, s1) else tail_events L J uuid ys s1)"
  by (induction xs arbitrary: s) (auto simp: Let_def split_beta)

lemma tail_session_flat: "snd (tail_session L J uuid rs s) = snd (tail_events L J uuid (events_of rs) s)"
proof (induction rs arbitrary: s)
  case (Cons r rs)
  then show ?case by (cases r) (simp_all add: tail_events_append Let_def split_beta)
qed simp

text \<open>
  C30. A follower forwards each event once and in order. Whatever batches, lags and duplicates it
  receives, the notifications it sends are the decodable outputs of its session, each identifier
  at its first occurrence, up to the first result, followed by that result; the tracker gets
  exactly these texts, and the session is completed if and only if the result could be decoded.
\<close>

theorem tail_forwards_once:
  "let fs = to_forward uuid {} (events_of rs); s = snd (tail_session L J uuid rs (tail_start t))
   in tl_sent s = map (SessionOutputN uuid) (forwarded_texts L J fs) @ result_note uuid (final_result J fs)
      \<and> tl_sessions s = (if final_result J fs = None then fold (push_output uuid) (forwarded_texts L J fs) t
           else tracker_complete uuid (fold (push_output uuid) (forwarded_texts L J fs) t))
      \<and> distinct (filter (\<lambda>i. i \<noteq> []) (map ev_id fs))"
  using tail_events_outcome [of L J uuid "events_of rs" "tail_start t"] first_seen_distinct [of "{}" "filter (follows uuid) (events_of rs)"]
  by (simp add: tail_outcome_def tail_session_flat tail_start_def to_forward_def Let_def)


subsection \<open>When the daemon stops\<close>

text \<open>
  The life of the daemon: a request of any client, accepted by \<open>ok\<close>, or one event of a running
  follower. The seen identifiers and past notifications of the follower are arbitrary.
\<close>

inductive daemon_step ::
  "key_order \<Rightarrow> crypto_lib \<Rightarrow> 'v rpc_api \<Rightarrow> ('v daemon_env \<Rightarrow> 'v Request \<Rightarrow> bool) \<Rightarrow> 'v Handler \<Rightarrow> 'v Handler \<Rightarrow> bool"
  for it L J ok where
  step_request: "ok E req \<Longrightarrow> daemon_step it L J ok h (snd (handle_request it J E sink req h))"
| step_tail: "(u, sink) \<in> set (h_tails h) \<Longrightarrow> tl_sessions s = h_sessions h \<Longrightarrow>
    daemon_step it L J ok h (h\<lparr>h_sessions := tl_sessions (snd (tail_event L J u ev s))\<rparr>)"

definition session_active :: "str \<Rightarrow> 'v Handler \<Rightarrow> bool" where
  "session_active u h \<longleftrightarrow> (\<exists>s. h_sessions h u = Some s \<and> \<not> ts_completed s) \<and> finite (dom (h_sessions h))"

lemma active_not_idle: "session_active u h \<Longrightarrow> \<not> idle_check timeout now h"
proof
  assume active: "session_active u h" and idle: "idle_check timeout now h"
  have "finite {u. \<exists>s. h_sessions h u = Some s \<and> \<not> ts_completed s}"
    by (rule finite_subset [of _ "dom (h_sessions h)"]) (use active in \<open>auto simp: session_active_def\<close>)
  with active idle show False by (auto simp: idle_check_def active_count_def session_active_def)
qed

text \<open>A request of the client that names the session to end it, or a second task with its identifier.\<close>

definition spares :: "'v rpc_api \<Rightarrow> str \<Rightarrow> 'v daemon_env \<Rightarrow> 'v Request \<Rightarrow> bool" where
  "spares J u E req \<longleftrightarrow>
     (case rq_params req of Some v \<Rightarrow> (case de_cancel J v of Inr p \<Rightarrow> cp_uuid p \<noteq> u | Inl _ \<Rightarrow> True)
      | None \<Rightarrow> (case de_cancel J (empty_object J) of Inr p \<Rightarrow> cp_uuid p \<noteq> u | Inl _ \<Rightarrow> True))
     \<and> dv_fresh_uuid E \<noteq> u"

definition pinned :: "str \<Rightarrow> 'v Handler \<Rightarrow> bool" where
  "pinned u h \<longleftrightarrow>
     (\<exists>room. h_sessions h u = Some (tracked_new room)) \<and> finite (dom (h_sessions h)) \<and> u \<notin> fst ` set (h_tails h)"

lemma pinned_active: "pinned u h \<Longrightarrow> session_active u h \<and> buffered_output u (h_sessions h) = []"
  by (auto simp: pinned_def session_active_def tracked_new_def buffered_output_def)

lemma tracker_other [simp]:
  "v \<noteq> u \<Longrightarrow> tracker_complete v t u = t u" "v \<noteq> u \<Longrightarrow> push_output v line t u = t u"
  by (auto simp: tracker_complete_def push_output_def split: option.split)

lemma tracker_dom [simp]: "dom (tracker_complete v t) = dom t" "dom (push_output v line t) = dom t"
  by (auto simp: tracker_complete_def push_output_def split: option.split)

lemma tail_event_sessions:
  "tl_sessions (snd (tail_event L J v ev s)) \<in>
     {tl_sessions s, tracker_complete v (tl_sessions s)} \<union> range (\<lambda>txt. push_output v txt (tl_sessions s))"
  by (cases ev) (auto simp: mark_seen_def Let_def split: option.split sum.split)

lemma cancel_spares:
  assumes "spares J u E req"
  shows "h_sessions (snd (handle_session_cancel J E (rq_id req) (rq_params req) h)) u = h_sessions h u
    \<and> dom (h_sessions (snd (handle_session_cancel J E (rq_id req) (rq_params req) h))) = dom (h_sessions h)
    \<and> h_tails (snd (handle_session_cancel J E (rq_id req) (rq_params req) h)) = h_tails h"
  using assms
  by (cases "rq_params req")
    (auto simp: handle_session_cancel_def post_control_def parse_params_def spares_def split: option.split sum.split)

lemma run_spares:
  assumes "spares J u E req"
  shows "h_sessions (snd (handle_session_run it J E sink (rq_id req) params h)) u = h_sessions h u
    \<and> finite (dom (h_sessions (snd (handle_session_run it J E sink (rq_id req) params h)))) = finite (dom (h_sessions h))
    \<and> (u \<in> fst ` set (h_tails (snd (handle_session_run it J E sink (rq_id req) params h))) \<longleftrightarrow> u \<in> fst ` set (h_tails h))"
proof (cases "\<exists>i res. fst (handle_session_run it J E sink (rq_id req) params h) = Some (RpcOk i res)")
  case True
  then obtain i res h' where ok: "handle_session_run it J E sink (rq_id req) params h = (Some (RpcOk i res), h')"
    by (metis prod.collapse)
  from run_okay [OF ok] obtain p where "submit_task J E sink (rq_id req) p h = (RpcOk i res, h')" by blast
  then show ?thesis
    using assms unfolding ok
    by (auto simp: submit_task_def track_def daemon_task_def build_task_def Let_def spares_def split: sum.splits if_splits)
next
  case False
  then have "snd (handle_session_run it J E sink (rq_id req) params h) = h"
    using run_failed [of it J E sink "rq_id req" params h] by (metis prod.collapse)
  then show ?thesis by simp
qed

lemma request_keeps_pin:
  assumes "pinned u h" and "spares J u E req"
  shows "pinned u (snd (handle_request it J E sink req h))"
proof -
  let ?h = "touch (dv_now_ms E) h"
  have h: "pinned u ?h" using assms(1) by (simp add: pinned_def touch_def)
  have "pinned u (snd (handle_session_cancel J E (rq_id req) (rq_params req) ?h))"
    using cancel_spares [OF assms(2), of ?h] h by (simp add: pinned_def)
  moreover have "pinned u (snd (handle_session_run it J E sink (rq_id req) (rq_params req) ?h))"
    using run_spares [OF assms(2), of it sink "rq_params req" ?h] h by (simp add: pinned_def)
  moreover have "pinned u (snd (handle_events_subscribe J sink (rq_id req) (rq_params req) ?h))"
    "pinned u (snd (handle_events_unsubscribe J (rq_id req) (rq_params req) ?h))"
    using h by (auto simp: handle_events_subscribe_def handle_events_unsubscribe_def split_beta pinned_def split: sum.split)
  ultimately show ?thesis using h by (simp add: handle_request_def answer_def Let_def split_beta)
qed

lemma daemon_step_keeps_pin: "daemon_step it L J (spares J u) h h' \<Longrightarrow> pinned u h \<Longrightarrow> pinned u h'"
proof (induction rule: daemon_step.induct)
  case (step_tail v sink h s ev)
  then have "v \<noteq> u" by (force simp: pinned_def)
  with step_tail tail_event_sessions [of L J v ev s] show ?case by (auto simp: pinned_def)
qed (rule request_keeps_pin)

text \<open>
  A detached session keeps the daemon alive for good. Once \<open>session.run\<close> has accepted a detached
  task under an identifier not used before, then after any further requests and follower events,
  as long as no client names that session to cancel or signal it, the daemon does not stop on its
  idle timeout, whatever the timeout and however long nobody has used it; and the output that
  \<open>session.logs\<close> would show of the session stays empty.
\<close>

lemma detached_session_pins_daemon:
  assumes "handle_session_run it J E sink rid params h = (Some (RpcOk i (ResRun u st)), h1)"
    and "parse_params J (de_run J) rid params = Okay p" and "rp_detach p"
    and "u \<notin> fst ` set (h_tails h)" and "finite (dom (h_sessions h))"
    and "(daemon_step it L J (spares J u))\<^sup>*\<^sup>* h1 h2"
  shows "\<not> main_loop_step timeout (TenSeconds now) h2 \<and> buffered_output u (h_sessions h2) = []"
proof -
  from run_okay [OF assms(1)] assms(2) have "submit_task J E sink rid p h = (RpcOk i (ResRun u st), h1)" by auto
  then have "pinned u h1"
    using assms(3-5) by (auto simp: submit_task_def track_def Let_def pinned_def split: sum.splits)
  with assms(6) have "pinned u h2" by (induction rule: rtranclp_induct) (auto dest: daemon_step_keeps_pin)
  then show ?thesis using active_not_idle [of u h2 timeout now] by (simp add: pinned_active main_loop_step_def)
qed


text \<open>Decoders over the trees of the library, and a daemon with one live worker.\<close>

definition demo_run :: "json \<Rightarrow> (str, SessionRunParams) result" where
  "demo_run v =
     (case str_field json_api v ''bin'' of
        None \<Rightarrow> Err ''missing field bin''
      | Some b \<Rightarrow> Okay \<lparr>rp_bin = b, rp_args = [], rp_cwd = None, rp_env = None, rp_interactive = False, rp_no_room_output = False,
          rp_timeout_seconds = None, rp_heartbeat_interval = None, rp_worker_room = None, rp_detach = (value_get json_api v ''detach'' \<noteq> None)\<rparr>)"

definition demo_uuid :: "(str \<Rightarrow> 'p) \<Rightarrow> json \<Rightarrow> (str, 'p) result" where
  "demo_uuid f v = (case str_field json_api v ''uuid'' of None \<Rightarrow> Err ''missing field uuid'' | Some u \<Rightarrow> Okay (f u))"

definition demo_rpc :: "json rpc_api" where
  "demo_rpc =
     \<lparr>rpc_values = json_api, from_str = (\<lambda>s. Okay (JStr s)), null_value = JNull, empty_object = JObj [],
      de_request = (\<lambda>v. Err ''''), de_notification = (\<lambda>v. Err ''''), de_run = demo_run,
      de_cancel = demo_uuid (\<lambda>u. \<lparr>cp_uuid = u, cp_signal = None, cp_worker_room = None\<rparr>),
      de_logs = demo_uuid (\<lambda>u. \<lparr>lp_uuid = u, lp_follow = False, lp_worker_room = None\<rparr>),
      de_attach = demo_uuid (\<lambda>u. \<lparr>ap_uuid = u, ap_interactive = False\<rparr>),
      de_subscribe = (\<lambda>v. Okay \<lparr>ep_events = [], ep_filter = None\<rparr>), de_unsubscribe = demo_uuid (\<lambda>u. u),
      de_add_transport = (\<lambda>v. Err ''''), de_remove_transport = (\<lambda>v. Err ''''),
      de_output = (\<lambda>v. Err ''''), de_result = (\<lambda>v. Err ''''), ser_task = (\<lambda>t. Okay (JObj [(''uuid'', JStr (st_uuid t))])),
      ser_signal = (\<lambda>s. Okay (JStr (ss_signal s))), ser_cancel = (\<lambda>c. Okay (JStr (sc_session_uuid c)))\<rparr>"

definition demo_env :: "str \<Rightarrow> json daemon_env" where
  "demo_env fresh =
     \<lparr>dv_now_ms = 0, dv_uptime = 0, dv_first = True, dv_poll = (\<lambda>_. True), dv_delay = (\<lambda>_. 0), dv_locked = True,
      dv_cached = Some [(''w'', JObj [(''status'', JStr ''online''), (''timestamp'', JStr ''2026-03-01T12:00:00Z'')])],
      dv_rest = None, dv_sdk_ms = 0, dv_check_ms = 0, dv_user_id = ''@me:hs'', dv_fresh_uuid = fresh, dv_post = (\<lambda>_ _. Okay ''$e'')\<rparr>"

definition demo_detached :: json where
  "demo_detached = JObj [(''bin'', JStr ''ls''), (''detach'', JNull)]"

lemma detached_session_pins_daemon_example:
  "\<not> main_loop_step 60 (TenSeconds 4000000000)
       (snd (handle_request sorted_list_of_set demo_rpc (demo_env ''v'') 0 \<lparr>rq_id = IdNumber 2, rq_method = ''session.ls'', rq_params = None\<rparr>
         (snd (handle_session_run sorted_list_of_set demo_rpc (demo_env ''u'') 0 (IdNumber 1) (Some demo_detached) (handler_new 0 ''p'')))))"
proof -
  let ?h = "handler_new 0 ''p'' :: json Handler" and ?it = "sorted_list_of_set :: key_order"
  let ?h1 = "snd (handle_session_run ?it demo_rpc (demo_env ''u'') 0 (IdNumber 1) (Some demo_detached) ?h)"
  let ?req = "\<lparr>rq_id = IdNumber 2, rq_method = ''session.ls'', rq_params = None\<rparr> :: json Request"
  obtain p where p: "parse_params demo_rpc (de_run demo_rpc) (IdNumber 1) (Some demo_detached) = Okay p" "rp_detach p"
    by (simp add: parse_params_def demo_rpc_def demo_run_def demo_detached_def json_api_def str_field_def)
  have live: "check_run_liveness ?it demo_rpc (demo_env ''u'') (IdNumber 1) = Some (Okay ())" by code_simp
  have run: "handle_session_run ?it demo_rpc (demo_env ''u'') 0 (IdNumber 1) (Some demo_detached) ?h
      = (Some (RpcOk (IdNumber 1) (ResRun ''u'' ''submitted'')), ?h1)"
    using p live by (simp add: handle_session_run_def submit_task_def daemon_task_def build_task_def demo_env_def demo_rpc_def Let_def)
  have "spares demo_rpc ''u'' (demo_env ''v'') ?req"
    by (simp add: spares_def demo_rpc_def demo_env_def demo_uuid_def str_field_def json_api_def)
  then have "(daemon_step ?it L demo_rpc (spares demo_rpc ''u''))\<^sup>*\<^sup>* ?h1 (snd (handle_request ?it demo_rpc (demo_env ''v'') 0 ?req ?h1))" for L
    by (intro r_into_rtranclp step_request)
  from detached_session_pins_daemon [OF run p _ _ this, of 60 4000000000] show ?thesis by (simp add: handler_new_def)
qed


text \<open>The merged table holds the keys of both lists, each with an entry of one of them, no older
  than what the server reported.\<close>

lemma merge_rest_dom: "dom (fold (merge_rest A) rest m) = dom m \<union> fst ` set rest"
  by (induction rest arbitrary: m) (auto simp: merge_rest_def Let_def split: option.splits if_splits)

lemma merge_rest_latest:
  "fold (merge_rest A) rest m k = Some v \<Longrightarrow>
     (m k = Some v \<or> (k, v) \<in> set rest) \<and> (\<forall>e. m k = Some e \<longrightarrow> timestamp_of A e \<le> timestamp_of A v)
     \<and> (\<forall>r. (k, r) \<in> set rest \<longrightarrow> timestamp_of A r \<le> timestamp_of A v)"
proof (induction rest arbitrary: m)
  case (Cons kr rest)
  obtain k' r where kr: "kr = (k', r)" by (cases kr)
  let ?m = "merge_rest A kr m"
  have IH: "(?m k = Some v \<or> (k, v) \<in> set rest) \<and> (\<forall>e. ?m k = Some e \<longrightarrow> timestamp_of A e \<le> timestamp_of A v)
     \<and> (\<forall>r. (k, r) \<in> set rest \<longrightarrow> timestamp_of A r \<le> timestamp_of A v)"
    by (rule Cons.IH) (use Cons.prems in simp)
  have m: "?m k = (if k' = k \<and> (\<forall>e. m k = Some e \<longrightarrow> timestamp_of A e < timestamp_of A r) then Some r else m k)"
    by (auto simp: merge_rest_def kr Let_def split: option.splits)
  show ?case
  proof (cases "k' = k \<and> (\<forall>e. m k = Some e \<longrightarrow> timestamp_of A e < timestamp_of A r)")
    case True
    with m have "?m k = Some r" by simp
    with IH have "timestamp_of A r \<le> timestamp_of A v" "v = r \<or> (k, v) \<in> set rest" by auto
    moreover have "timestamp_of A e \<le> timestamp_of A v" if "m k = Some e" for e
      using True that \<open>timestamp_of A r \<le> timestamp_of A v\<close> by (meson less_imp_le order_trans)
    ultimately show ?thesis using IH kr True by auto
  next
    case False
    with m have same: "?m k = m k" by simp
    have "timestamp_of A r \<le> timestamp_of A v" if "k' = k"
    proof -
      from False that obtain e where e: "m k = Some e" and "\<not> timestamp_of A e < timestamp_of A r" by blast
      then have "timestamp_of A r \<le> timestamp_of A e" by simp
      also from IH same e have "timestamp_of A e \<le> timestamp_of A v" by simp
      finally show ?thesis .
    qed
    with IH same kr show ?thesis by auto
  qed
qed simp

lemma merge_entries_latest:
  assumes "iterates it" and "(k, v) \<in> set (merge_entries it A sdk rest)"
  shows "((k, v) \<in> set sdk \<or> (k, v) \<in> set rest) \<and> (\<forall>r. (k, r) \<in> set rest \<longrightarrow> timestamp_of A r \<le> timestamp_of A v)"
proof -
  let ?base = "fold (\<lambda>(k, v) m. m(k \<mapsto> v)) sdk Map.empty"
  have base: "m k = Some v \<or> (k, v) \<in> set sdk" if "fold (\<lambda>(k, v) m. m(k \<mapsto> v)) sdk m k = Some v" for m v
    using that
  proof (induction sdk arbitrary: m)
    case (Cons kv sdk)
    obtain a b where kv: "kv = (a, b)" by (cases kv)
    with Cons.IH [of "m(a \<mapsto> b)"] Cons.prems show ?case by (cases "a = k") auto
  qed simp
  have dom: "dom (fold (\<lambda>(k, v) m. m(k \<mapsto> v)) sdk m) = dom m \<union> fst ` set sdk" for m
    by (induction sdk arbitrary: m) auto
  have k: "k \<in> fst ` set (sdk @ rest)" "v = the (fold (merge_rest A) rest ?base k)"
    using assms(2) by (auto simp: merge_entries_def Let_def iterates_set [OF assms(1)])
  have "k \<in> dom (fold (merge_rest A) rest ?base)" using k(1) by (simp add: merge_rest_dom dom image_Un)
  then have "fold (merge_rest A) rest ?base k = Some v" using k(2) by auto
  from merge_rest_latest [OF this] base [of Map.empty v] show ?thesis by auto
qed

subsection \<open>One answer per message\<close>

text \<open>A connection that ends by itself has answered every request and every malformed line, in
  order, with one reply each, and nothing else.\<close>

definition expects_reply :: "'v rpc_api \<Rightarrow> str \<Rightarrow> bool" where
  "expects_reply J line \<longleftrightarrow> trim line \<noteq> [] \<and> (\<nexists>m p. message_parse J (trim line) = Okay (IncomingNotification m p))"

lemma handle_line_replies:
  "handle_line it J E sink line h = (Some rs, h') \<Longrightarrow> length rs = (if expects_reply J line then 1 else 0)"
  by (auto simp: handle_line_def answer_message_def expects_reply_def Let_def split_beta
      split: if_splits sum.splits IncomingMessage.splits)

lemma client_answered:
  "handle_client it J sink lines h = (rs, True, h') \<Longrightarrow> length rs = length (filter (expects_reply J) (map snd lines))"
proof (induction lines arbitrary: rs h)
  case (Cons line lines)
  obtain E l where line: "line = (E, l)" by (cases line)
  from Cons.prems line obtain rs1 h1 rs2 where
    step: "handle_line it J E sink l h = (Some rs1, h1)" "handle_client it J sink lines h1 = (rs2, True, h')" "rs = rs1 @ rs2"
    by (auto split: prod.splits option.splits)
  with Cons.IH [OF step(2)] handle_line_replies [OF step(1)] line show ?case by simp
qed simp


end
