(* ===== verification/Fabric.thy ===== *)
theory Fabric
  imports Liveness "HOL-Library.Multiset"
begin

section \<open>The fabric coordinator\<close>

text \<open>
  \<open>crates/mxdx-fabric/src\<close>: the bot that routes tasks to capability rooms and watches them (\<open>coordinator.rs\<close>), the index
  of rooms (\<open>capability_index.rs\<close>) and the failure policies (\<open>failure.rs\<close>). The Matrix client is a parameter whose calls
  get the number of calls made before, so that their outcomes may differ from call to call; the
  decoders and the accessors of a payload are parameters too. What the bot has done is kept as a
  list of actions; an invitation carries the task it is logged with. An error that leaves \<open>run\<close> ends the bot.
\<close>

subsection \<open>Events\<close>

record 'v TaskEvent =
  te_uuid :: str
  te_sender_id :: str
  te_required_capabilities :: "str list"
  te_estimated_cycles :: "u64 option"
  te_timeout_seconds :: u64
  te_heartbeat_interval_seconds :: u64
  te_on_timeout :: FailurePolicy
  te_on_heartbeat_miss :: FailurePolicy
  te_routing_mode :: RoutingMode
  te_p2p_stream :: bool
  te_payload :: 'v
  te_plan :: "str option"

record ClaimEvent =
  ce_task_uuid :: str
  ce_worker_id :: str
  ce_claimed_at :: u64

record HeartbeatEvent =
  he_task_uuid :: str
  he_worker_id :: str
  he_progress :: "str option"
  he_timestamp :: u64

datatype TaskStatus = TsSuccess | TsFailed | TsTimeout | TsCancelled

record 'v TaskResultEvent =
  tre_task_uuid :: str
  tre_worker_id :: str
  tre_status :: TaskStatus
  tre_output :: "'v option"
  tre_error :: "str option"
  tre_duration_seconds :: u64

datatype 'v fabric_message = TaskMessage "'v TaskEvent" | TextMessage str

datatype 'v fabric_action =
  CreateRoom str str
| InviteUser str str str
| SendMessage str "'v fabric_message"

record 'v fabric_api =
  fa_values :: "'v value_api"
  fa_set_attempt :: "u8 \<Rightarrow> 'v \<Rightarrow> 'v"
  fa_attempt_object :: "u8 \<Rightarrow> 'v"
  fa_de_task :: "'v \<Rightarrow> 'v TaskEvent option"
  fa_de_claim :: "'v \<Rightarrow> ClaimEvent option"
  fa_de_heartbeat :: "'v \<Rightarrow> HeartbeatEvent option"
  fa_de_result :: "'v \<Rightarrow> 'v TaskResultEvent option"
  fa_valid_user :: "str \<Rightarrow> bool"
  fa_create_room :: "nat \<Rightarrow> str \<Rightarrow> str \<Rightarrow> (str, str) result"
  fa_invite :: "nat \<Rightarrow> str \<Rightarrow> str \<Rightarrow> (str, unit) result"
  fa_send :: "nat \<Rightarrow> str \<Rightarrow> 'v fabric_message \<Rightarrow> (str, unit) result"

subsection \<open>State of the bot\<close>

record 'v WatchEntry =
  we_task :: "'v TaskEvent"
  we_claimed_at :: "instant option"
  we_last_heartbeat :: instant
  we_attempt :: u8
  we_last_progress :: "str option"

record 'v CoordinatorBot =
  cb_index :: "str \<rightharpoonup> str"
  cb_room_id :: str
  cb_watchlist :: "str \<rightharpoonup> 'v WatchEntry"
  cb_seen :: "str set"
  cb_last_check :: instant
  cb_calls :: nat
  cb_actions :: "'v fabric_action list"

definition bot_new :: "str \<Rightarrow> instant \<Rightarrow> 'v CoordinatorBot" where
  "bot_new room now =
     \<lparr>cb_index = Map.empty, cb_room_id = room, cb_watchlist = Map.empty, cb_seen = {}, cb_last_check = now,
      cb_calls = 0, cb_actions = []\<rparr>"

text \<open>A call to the Matrix client: it counts, and it is recorded when it succeeded.\<close>

definition calls :: "('e, 'a) result \<Rightarrow> 'v fabric_action \<Rightarrow> 'v CoordinatorBot \<Rightarrow> 'v CoordinatorBot" where
  "calls r act b =
     b\<lparr>cb_calls := cb_calls b + 1, cb_actions := cb_actions b @ (case r of Inl _ \<Rightarrow> [] | Inr _ \<Rightarrow> [act])\<rparr>"

subsection \<open>Capability rooms\<close>

definition capability_room_name :: "str list \<Rightarrow> str" where
  "capability_room_name caps = ''workers.'' @ join ''.'' (sort caps)"

definition find_room :: "str list \<Rightarrow> 'v CoordinatorBot \<Rightarrow> str option" where
  "find_room caps b = cb_index b (capability_room_name caps)"

definition get_or_create_room :: "'v fabric_api \<Rightarrow> str list \<Rightarrow> 'v CoordinatorBot \<Rightarrow> (str, str) result \<times> 'v CoordinatorBot" where
  "get_or_create_room A caps b =
     (case find_room caps b of
        Some room_id \<Rightarrow> (Okay room_id, b)
      | None \<Rightarrow>
          (let room_name = capability_room_name caps;
               topic = ''org.mxdx.fabric.workers:'' @ room_name;
               r = fa_create_room A (cb_calls b) room_name topic;
               b1 = calls r (CreateRoom room_name topic) b
           in case r of
                Inl e \<Rightarrow> (Err e, b1)
              | Inr room_id \<Rightarrow> (Okay room_id, b1\<lparr>cb_index := (cb_index b1)(room_name \<mapsto> room_id)\<rparr>)))"

text \<open>The joined rooms that \<open>populate_from_server\<close> finds, each with its name.\<close>

definition populate_from_server :: "(str option \<times> str) list \<Rightarrow> 'v CoordinatorBot \<Rightarrow> 'v CoordinatorBot" where
  "populate_from_server joined b =
     b\<lparr>cb_index := fold (\<lambda>(name, room_id) ix.
          let n = (case name of Some n \<Rightarrow> n | None \<Rightarrow> '''') in if starts_with n ''workers.'' then ix(n \<mapsto> room_id) else ix)
        joined (cb_index b)\<rparr>"

subsection \<open>Failure policies\<close>

record 'v FailureContext =
  fc_task :: "'v TaskEvent"
  fc_reason :: str
  fc_attempt :: u8
  fc_last_progress :: "str option"

definition send_plain_message ::
  "'v fabric_api \<Rightarrow> str \<Rightarrow> 'v CoordinatorBot \<Rightarrow> (str, unit) result \<times> 'v CoordinatorBot" where
  "send_plain_message A body b =
     (let r = fa_send A (cb_calls b) (cb_room_id b) (TextMessage body)
      in (r, calls r (SendMessage (cb_room_id b) (TextMessage body)) b))"

text \<open>The sign before the text is U+26A0 with U+FE0F.\<close>

definition fabric_escalate ::
  "'v fabric_api \<Rightarrow> 'v FailureContext \<Rightarrow> 'v CoordinatorBot \<Rightarrow> (str, unit) result \<times> 'v CoordinatorBot" where
  "fabric_escalate A ctx b =
     (let plan = (case te_plan (fc_task ctx) of Some p \<Rightarrow> p | None \<Rightarrow> ''(no plan)'');
          last_progress = (case fc_last_progress ctx of Some p \<Rightarrow> p | None \<Rightarrow> ''none'')
      in send_plain_message A
           ([CHR 0xE2, CHR 0x9A, CHR 0xA0, CHR 0xEF, CHR 0xB8, CHR 0x8F] @ '' Task '' @ te_uuid (fc_task ctx) @ '' stalled: ''
            @ fc_reason ctx @ ''. Plan: '' @ plan @ ''. Last progress: '' @ last_progress) b)"

definition with_attempt :: "'v fabric_api \<Rightarrow> u8 \<Rightarrow> 'v TaskEvent \<Rightarrow> 'v TaskEvent" where
  "with_attempt A n task =
     (let payload = (if object_len (fa_values A) (te_payload task) \<noteq> None then fa_set_attempt A n (te_payload task)
                     else fa_attempt_object A n)
      in task\<lparr>te_payload := payload, te_uuid := te_uuid task @ ''-retry-'' @ show_nat (unat n)\<rparr>)"

definition with_context :: "'v FailureContext \<Rightarrow> 'v TaskEvent \<Rightarrow> 'v TaskEvent" where
  "with_context ctx task =
     (let original_plan = (case te_plan task of Some p \<Rightarrow> p | None \<Rightarrow> ''(no plan)'')
      in task\<lparr>te_plan := Some (''Previous attempt failed: '' @ fc_reason ctx @ ''. Last progress: ''
            @ (case fc_last_progress ctx of Some p \<Rightarrow> p | None \<Rightarrow> ''none'') @ ''. Original plan: '' @ original_plan)\<rparr>)"

definition give_up :: "(str, unit) result \<times> 'v CoordinatorBot \<Rightarrow> (str, 'v TaskEvent option) result \<times> 'v CoordinatorBot" where
  "give_up r = (case r of (Inl e, b) \<Rightarrow> (Err e, b) | (Inr _, b) \<Rightarrow> (Okay None, b))"

text \<open>The sign before the text of an abandoned task is U+274C.\<close>

definition fabric_apply_policy ::
  "'v fabric_api \<Rightarrow> FailurePolicy \<Rightarrow> 'v FailureContext \<Rightarrow> 'v CoordinatorBot \<Rightarrow> (str, 'v TaskEvent option) result \<times> 'v CoordinatorBot" where
  "fabric_apply_policy A policy ctx b =
     (case policy of
        PolEscalate \<Rightarrow> give_up (fabric_escalate A ctx b)
      | PolRespawn mx \<Rightarrow>
          if fc_attempt ctx < mx then (Okay (Some (with_attempt A (fc_attempt ctx + 1) (fc_task ctx))), b)
          else give_up (fabric_escalate A ctx b)
      | PolRespawnWithContext \<Rightarrow>
          if fc_attempt ctx < 3 then (Okay (Some (with_attempt A (fc_attempt ctx + 1) (with_context ctx (fc_task ctx)))), b)
          else give_up (fabric_escalate A ctx b)
      | PolAbandon \<Rightarrow>
          give_up (send_plain_message A
            ([CHR 0xE2, CHR 0x9D, CHR 0x8C] @ '' Task '' @ te_uuid (fc_task ctx) @ '' abandoned: '' @ fc_reason ctx) b))"

subsection \<open>Routing\<close>

definition effective_mode :: "'v TaskEvent \<Rightarrow> RoutingMode" where
  "effective_mode task =
     (case te_routing_mode task of
        Auto \<Rightarrow> if te_timeout_seconds task < 30 then Direct else Brokered
      | other \<Rightarrow> other)"

definition route_direct ::
  "'v fabric_api \<Rightarrow> 'v TaskEvent \<Rightarrow> str \<Rightarrow> 'v CoordinatorBot \<Rightarrow> (str, unit) result \<times> 'v CoordinatorBot" where
  "route_direct A task room_id b =
     (if fa_valid_user A (te_sender_id task) then
        (let r = fa_invite A (cb_calls b) room_id (te_sender_id task);
             b1 = calls r (InviteUser (te_uuid task) room_id (te_sender_id task)) b
         in case r of Inl e \<Rightarrow> (Err (''invite_user failed: '' @ e), b1) | Inr _ \<Rightarrow> (Okay (), b1))
      else (Err ''invalid sender_id in task event'', b))"

definition route_brokered ::
  "'v fabric_api \<Rightarrow> 'v TaskEvent \<Rightarrow> str \<Rightarrow> 'v CoordinatorBot \<Rightarrow> (str, unit) result \<times> 'v CoordinatorBot" where
  "route_brokered A task room_id b =
     (let r = fa_send A (cb_calls b) room_id (TaskMessage task)
      in (r, calls r (SendMessage room_id (TaskMessage task)) b))"

definition task_attempt :: "'v fabric_api \<Rightarrow> 'v TaskEvent \<Rightarrow> u8" where
  "task_attempt A task =
     ucast (case Option.bind (value_get (fa_values A) (te_payload task) ''attempt'') (as_u64 (fa_values A)) of Some n \<Rightarrow> n | None \<Rightarrow> 0)"

definition handle_task_event ::
  "'v fabric_api \<Rightarrow> instant \<Rightarrow> 'v TaskEvent \<Rightarrow> 'v CoordinatorBot \<Rightarrow> (str, unit) result \<times> 'v CoordinatorBot" where
  "handle_task_event A now task b0 =
     (if te_uuid task \<in> cb_seen b0 then (Okay (), b0)
      else
        (let b = b0\<lparr>cb_seen := insert (te_uuid task) (cb_seen b0)\<rparr>
         in case get_or_create_room A (te_required_capabilities task) b of
              (Inl e, b1) \<Rightarrow> (Err e, b1)
            | (Inr worker_room_id, b1) \<Rightarrow>
                (case (case effective_mode task of
                         Direct \<Rightarrow> route_direct A task worker_room_id b1
                       | _ \<Rightarrow> route_brokered A task worker_room_id b1) of
                   (Inl e, b2) \<Rightarrow> (Err e, b2)
                 | (Inr _, b2) \<Rightarrow>
                     (Okay (), b2\<lparr>cb_watchlist := (cb_watchlist b2)(te_uuid task \<mapsto>
                        \<lparr>we_task = task, we_claimed_at = None, we_last_heartbeat = now, we_attempt = task_attempt A task,
                         we_last_progress = None\<rparr>)\<rparr>))))"

definition handle_claim_event :: "instant \<Rightarrow> ClaimEvent \<Rightarrow> 'v CoordinatorBot \<Rightarrow> 'v CoordinatorBot" where
  "handle_claim_event now claim b =
     (case cb_watchlist b (ce_task_uuid claim) of
        Some e \<Rightarrow> b\<lparr>cb_watchlist := (cb_watchlist b)(ce_task_uuid claim \<mapsto> e\<lparr>we_claimed_at := Some now\<rparr>)\<rparr>
      | None \<Rightarrow> b)"

definition handle_heartbeat_event :: "instant \<Rightarrow> HeartbeatEvent \<Rightarrow> 'v CoordinatorBot \<Rightarrow> 'v CoordinatorBot" where
  "handle_heartbeat_event now hb b =
     (case cb_watchlist b (he_task_uuid hb) of
        Some e \<Rightarrow>
          (let e1 = e\<lparr>we_last_heartbeat := now\<rparr>;
               e2 = (if he_progress hb \<noteq> None then e1\<lparr>we_last_progress := he_progress hb\<rparr> else e1)
           in b\<lparr>cb_watchlist := (cb_watchlist b)(he_task_uuid hb \<mapsto> e2)\<rparr>)
      | None \<Rightarrow> b)"

definition handle_result_event :: "'v TaskResultEvent \<Rightarrow> 'v CoordinatorBot \<Rightarrow> 'v CoordinatorBot" where
  "handle_result_event res b = b\<lparr>cb_watchlist := (cb_watchlist b)(tre_task_uuid res := None)\<rparr>"

subsection \<open>The watchlist\<close>

definition watch_failure :: "instant \<Rightarrow> 'v WatchEntry \<Rightarrow> (FailurePolicy \<times> str) option" where
  "watch_failure now e =
     (if we_claimed_at e = None \<and> now - we_last_heartbeat e > from_secs (unat (te_timeout_seconds (we_task e))) then
        Some (te_on_timeout (we_task e), ''unclaimed for '' @ show_nat (unat (te_timeout_seconds (we_task e))) @ ''s'')
      else if we_claimed_at e \<noteq> None
          \<and> now - we_last_heartbeat e > from_secs (unat (te_heartbeat_interval_seconds (we_task e) * 2)) then
        Some (te_on_heartbeat_miss (we_task e), ''heartbeat overdue'')
      else None)"

definition failure_context :: "'v WatchEntry \<Rightarrow> str \<Rightarrow> 'v FailureContext" where
  "failure_context e why =
     \<lparr>fc_task = we_task e, fc_reason = why, fc_attempt = we_attempt e, fc_last_progress = we_last_progress e\<rparr>"

text \<open>One entry of the snapshot: what is to be removed and posted again.\<close>

definition check_entry ::
  "'v fabric_api \<Rightarrow> instant \<Rightarrow> (str \<rightharpoonup> 'v WatchEntry) \<Rightarrow> str \<Rightarrow> str list \<times> 'v TaskEvent list \<times> 'v CoordinatorBot
    \<Rightarrow> str list \<times> 'v TaskEvent list \<times> 'v CoordinatorBot" where
  "check_entry A now entries uuid acc =
     (let (to_remove, to_repost, b) = acc
      in case entries uuid of
           None \<Rightarrow> acc
         | Some e \<Rightarrow>
             (case watch_failure now e of
                None \<Rightarrow> acc
              | Some (policy, why) \<Rightarrow>
                  (case fabric_apply_policy A policy (failure_context e why) b of
                     (Inr (Some new_task), b1) \<Rightarrow> (to_remove @ [uuid], to_repost @ [new_task], b1)
                   | (Inr None, b1) \<Rightarrow> (to_remove @ [uuid], to_repost, b1)
                   | (Inl _, b1) \<Rightarrow> (to_remove, to_repost, b1))))"

definition check_watchlist :: "key_order \<Rightarrow> 'v fabric_api \<Rightarrow> instant \<Rightarrow> 'v CoordinatorBot \<Rightarrow> 'v CoordinatorBot" where
  "check_watchlist it A now b =
     (let (to_remove, to_repost, b1) = fold (check_entry A now (cb_watchlist b)) (it (dom (cb_watchlist b))) ([], [], b);
          b2 = b1\<lparr>cb_watchlist := (cb_watchlist b1) |` (- set to_remove)\<rparr>
      in fold (\<lambda>task b. snd (handle_task_event A now task b)) to_repost b2)"

subsection \<open>The loop\<close>

text \<open>One event of a sync, and one round of \<open>run\<close>; \<open>Err\<close> is the error with which \<open>run\<close> returns.\<close>

definition handle_event :: "'v fabric_api \<Rightarrow> instant \<Rightarrow> 'v \<Rightarrow> 'v CoordinatorBot \<Rightarrow> (str, unit) result \<times> 'v CoordinatorBot" where
  "handle_event A now event b =
     (let event_type = (case str_field (fa_values A) event ''type'' of Some t \<Rightarrow> t | None \<Rightarrow> '''')
      in case value_get (fa_values A) event ''content'' of
           None \<Rightarrow> (Okay (), b)
         | Some content \<Rightarrow>
             if event_type = ''org.mxdx.fabric.task'' then
               (case fa_de_task A content of Some task \<Rightarrow> handle_task_event A now task b | None \<Rightarrow> (Okay (), b))
             else if event_type = ''org.mxdx.fabric.claim'' then
               (case fa_de_claim A content of Some claim \<Rightarrow> (Okay (), handle_claim_event now claim b) | None \<Rightarrow> (Okay (), b))
             else if event_type = ''org.mxdx.fabric.heartbeat'' then
               (case fa_de_heartbeat A content of Some hb \<Rightarrow> (Okay (), handle_heartbeat_event now hb b) | None \<Rightarrow> (Okay (), b))
             else if event_type = ''org.mxdx.fabric.result'' then
               (case fa_de_result A content of Some res \<Rightarrow> (Okay (), handle_result_event res b) | None \<Rightarrow> (Okay (), b))
             else (Okay (), b))"

fun handle_events :: "'v fabric_api \<Rightarrow> instant \<Rightarrow> 'v list \<Rightarrow> 'v CoordinatorBot \<Rightarrow> (str, unit) result \<times> 'v CoordinatorBot" where
  "handle_events A now [] b = (Okay (), b)"
| "handle_events A now (event # events) b =
     (case handle_event A now event b of
        (Inl e, b1) \<Rightarrow> (Err e, b1)
      | (Inr _, b1) \<Rightarrow> handle_events A now events b1)"

definition run_round ::
  "key_order \<Rightarrow> 'v fabric_api \<Rightarrow> instant \<Rightarrow> (str, 'v list) result \<Rightarrow> 'v CoordinatorBot \<Rightarrow> (str, unit) result \<times> 'v CoordinatorBot" where
  "run_round it A now synced b =
     (case synced of
        Inl e \<Rightarrow> (Err e, b)
      | Inr events \<Rightarrow>
          (case handle_events A now events b of
             (Inl e, b1) \<Rightarrow> (Err e, b1)
           | (Inr _, b1) \<Rightarrow>
               if now - cb_last_check b1 \<ge> from_secs 10 then
                 (Okay (), (check_watchlist it A now b1)\<lparr>cb_last_check := now\<rparr>)
               else (Okay (), b1)))"

fun bot_run ::
  "key_order \<Rightarrow> 'v fabric_api \<Rightarrow> (instant \<times> (str, 'v list) result) list \<Rightarrow> 'v CoordinatorBot \<Rightarrow> (str, unit) result \<times> 'v CoordinatorBot" where
  "bot_run it A [] b = (Okay (), b)"
| "bot_run it A ((now, synced) # rounds) b =
     (case run_round it A now synced b of
        (Inl e, b1) \<Rightarrow> (Err e, b1)
      | (Inr _, b1) \<Rightarrow> bot_run it A rounds b1)"

subsection \<open>No task is routed twice\<close>

definition routed :: "'v fabric_action list \<Rightarrow> str list" where
  "routed acts =
     List.map_filter (\<lambda>a. case a of
         InviteUser u _ _ \<Rightarrow> Some u
       | SendMessage _ m \<Rightarrow> (case m of TaskMessage task \<Rightarrow> Some (te_uuid task) | TextMessage _ \<Rightarrow> None)
       | CreateRoom _ _ \<Rightarrow> None) acts"

lemma routed_simps [simp]:
  "routed [] = []" "routed (xs @ ys) = routed xs @ routed ys" "routed [CreateRoom n t] = []" "routed [InviteUser u r s] = [u]"
  "routed [SendMessage r (TaskMessage task)] = [te_uuid task]" "routed [SendMessage r (TextMessage body)] = []"
  by (simp_all add: routed_def List.map_filter_def)

definition bot_ok :: "'v CoordinatorBot \<Rightarrow> bool" where
  "bot_ok b \<longleftrightarrow> distinct (routed (cb_actions b)) \<and> set (routed (cb_actions b)) \<subseteq> cb_seen b
     \<and> (\<forall>u e. cb_watchlist b u = Some e \<longrightarrow> te_uuid (we_task e) = u \<and> u \<in> cb_seen b)"

definition quiet :: "'v CoordinatorBot \<Rightarrow> 'v CoordinatorBot \<Rightarrow> bool" where
  "quiet b b' \<longleftrightarrow> cb_seen b' = cb_seen b \<and> cb_watchlist b' = cb_watchlist b \<and> routed (cb_actions b') = routed (cb_actions b)
     \<and> cb_room_id b' = cb_room_id b"

lemma quiet_refl [simp]: "quiet b b"
  by (simp add: quiet_def)

lemma quiet_trans: "quiet a b \<Longrightarrow> quiet b c \<Longrightarrow> quiet a c"
  by (simp add: quiet_def)

lemma quiet_ok: "quiet b b' \<Longrightarrow> bot_ok b \<Longrightarrow> bot_ok b'"
  by (simp add: quiet_def bot_ok_def)

lemma get_or_create_room_quiet: "quiet b (snd (get_or_create_room A caps b))"
  by (auto simp: get_or_create_room_def calls_def quiet_def Let_def split: option.split sum.split)

lemma send_plain_message_quiet: "quiet b (snd (send_plain_message A body b))"
  by (auto simp: send_plain_message_def calls_def quiet_def Let_def split: sum.split)

lemma give_up_snd [simp]: "snd (give_up r) = snd r"
  by (cases r) (auto simp: give_up_def split: sum.split)

lemma apply_policy_quiet: "quiet b (snd (fabric_apply_policy A policy ctx b))"
  by (cases policy) (simp_all add: fabric_apply_policy_def fabric_escalate_def Let_def send_plain_message_quiet)

definition route_task :: "'v fabric_api \<Rightarrow> 'v TaskEvent \<Rightarrow> str \<Rightarrow> 'v CoordinatorBot \<Rightarrow> (str, unit) result \<times> 'v CoordinatorBot" where
  "route_task A task room b = (case effective_mode task of Direct \<Rightarrow> route_direct A task room b | _ \<Rightarrow> route_brokered A task room b)"

lemma route_task_effect:
  "cb_seen (snd (route_task A task room b)) = cb_seen b \<and> cb_room_id (snd (route_task A task room b)) = cb_room_id b \<and> cb_watchlist (snd (route_task A task room b)) = cb_watchlist b
    \<and> (routed (cb_actions (snd (route_task A task room b))) = routed (cb_actions b) \<and> (\<exists>e. fst (route_task A task room b) = Err e)
       \<or> routed (cb_actions (snd (route_task A task room b))) = routed (cb_actions b) @ [te_uuid task] \<and> fst (route_task A task room b) = Okay ())"
  by (auto simp: route_task_def route_direct_def route_brokered_def calls_def Let_def split: RoutingMode.split sum.split)

lemma handle_task_cases:
  assumes "te_uuid task \<notin> cb_seen b"
  obtains (failed) e b' where "handle_task_event A now task b = (Err e, b')" "quiet (b\<lparr>cb_seen := insert (te_uuid task) (cb_seen b)\<rparr>) b'"
  | (routed) b' where "handle_task_event A now task b = (Okay (), b')"
      "cb_seen b' = insert (te_uuid task) (cb_seen b)" "routed (cb_actions b') = routed (cb_actions b) @ [te_uuid task]"
      "cb_watchlist b' = (cb_watchlist b)(te_uuid task \<mapsto> \<lparr>we_task = task, we_claimed_at = None, we_last_heartbeat = now,
         we_attempt = task_attempt A task, we_last_progress = None\<rparr>)"
proof -
  let ?b = "b\<lparr>cb_seen := insert (te_uuid task) (cb_seen b)\<rparr>"
  obtain g b1 where g: "get_or_create_room A (te_required_capabilities task) ?b = (g, b1)" by fastforce
  have q: "quiet ?b b1" using get_or_create_room_quiet [of ?b A "te_required_capabilities task"] g by simp
  show thesis
  proof (cases g)
    case (Inl e)
    show thesis by (rule failed [of e b1]) (use assms g Inl q in \<open>simp_all add: handle_task_event_def Let_def\<close>)
  next
    case (Inr room)
    obtain r b2 where r: "route_task A task room b1 = (r, b2)" by fastforce
    have h: "handle_task_event A now task b = (case (r, b2) of (Inl e, b2) \<Rightarrow> (Err e, b2)
        | (Inr _, b2) \<Rightarrow> (Okay (), b2\<lparr>cb_watchlist := (cb_watchlist b2)(te_uuid task \<mapsto>
            \<lparr>we_task = task, we_claimed_at = None, we_last_heartbeat = now, we_attempt = task_attempt A task, we_last_progress = None\<rparr>)\<rparr>))"
      using assms g Inr r by (simp add: handle_task_event_def Let_def route_task_def)
    show thesis
    proof (cases r)
      case (Inl e)
      show thesis
        by (rule failed [of e b2]) (use h Inl q route_task_effect [of A task room b1] r in \<open>auto simp: quiet_def calls_def\<close>)
    next
      case (Inr u)
      let ?b' = "b2\<lparr>cb_watchlist := (cb_watchlist b2)(te_uuid task \<mapsto>
          \<lparr>we_task = task, we_claimed_at = None, we_last_heartbeat = now, we_attempt = task_attempt A task, we_last_progress = None\<rparr>)\<rparr>"
      have "cb_seen b2 = cb_seen b1" "cb_watchlist b2 = cb_watchlist b1" "routed (cb_actions b2) = routed (cb_actions b1) @ [te_uuid task]"
        using route_task_effect [of A task room b1] r Inr by auto
      then show thesis
        by (intro routed [of ?b']) (use h Inr q in \<open>simp_all add: quiet_def\<close>)
    qed
  qed
qed

lemma handle_task_ok: "bot_ok b \<Longrightarrow> bot_ok (snd (handle_task_event A now task b))"
proof (cases "te_uuid task \<in> cb_seen b")
  case True
  then show "bot_ok b \<Longrightarrow> ?thesis" by (simp add: handle_task_event_def)
next
  case False
  assume ok: "bot_ok b"
  from False show ?thesis
  proof (cases rule: handle_task_cases [where A = A and now = now])
    case (failed e b')
    with ok show ?thesis by (auto simp: bot_ok_def quiet_def)
  next
    case (routed b')
    with ok False show ?thesis by (auto simp: bot_ok_def)
  qed
qed

lemma apply_policy_quietD: "fabric_apply_policy A policy ctx b = (r, b') \<Longrightarrow> quiet b b'"
  using apply_policy_quiet by (metis snd_conv)

lemma check_entry_quiet: "quiet (snd (snd acc)) (snd (snd (check_entry A now entries u acc)))"
  by (cases acc) (auto simp: check_entry_def dest: apply_policy_quietD split: option.split prod.split sum.split)

lemma check_entries_quiet: "quiet (snd (snd acc)) (snd (snd (fold (check_entry A now entries) us acc)))"
proof (induction us arbitrary: acc)
  case (Cons u us)
  show ?case using quiet_trans [OF check_entry_quiet Cons.IH] by simp
qed simp

lemma check_watchlist_ok:
  assumes "bot_ok b"
  shows "bot_ok (check_watchlist it A now b)"
proof -
  obtain rm rp b1 where f: "fold (check_entry A now (cb_watchlist b)) (it (dom (cb_watchlist b))) ([], [], b) = (rm, rp, b1)"
    by (metis prod_cases3)
  have "bot_ok b1"
    using check_entries_quiet [of "([], [], b)" A now "cb_watchlist b" "it (dom (cb_watchlist b))"] f assms quiet_ok by fastforce
  then have "bot_ok (b1\<lparr>cb_watchlist := (cb_watchlist b1) |` (- set rm)\<rparr>)"
    by (auto simp: bot_ok_def restrict_map_def split: if_splits)
  moreover have "bot_ok (fold (\<lambda>task b. snd (handle_task_event A now task b)) rp b)" if "bot_ok b" for b
    using that by (induction rp arbitrary: b) (auto intro: handle_task_ok)
  ultimately show ?thesis by (simp add: check_watchlist_def f)
qed

lemma track_events_ok:
  assumes "bot_ok b"
  shows "bot_ok (handle_claim_event now claim b)" "bot_ok (handle_heartbeat_event now hb b)" "bot_ok (handle_result_event res b)"
  using assms
  by (auto simp: bot_ok_def handle_claim_event_def handle_heartbeat_event_def handle_result_event_def Let_def split: option.split)

lemma handle_event_ok: "bot_ok b \<Longrightarrow> bot_ok (snd (handle_event A now event b))"
  by (simp add: handle_event_def Let_def handle_task_ok track_events_ok split: option.split)

lemma handle_events_ok: "bot_ok b \<Longrightarrow> bot_ok (snd (handle_events A now events b))"
proof (induction events arbitrary: b)
  case (Cons event events)
  obtain r b1 where step: "handle_event A now event b = (r, b1)" by fastforce
  from handle_event_ok [OF Cons.prems, of A now event] have "bot_ok b1" by (simp add: step)
  with Cons.IH [of b1] show ?case by (cases r) (simp_all add: step)
qed simp

lemma run_round_ok: "bot_ok b \<Longrightarrow> bot_ok (snd (run_round it A now synced b))"
proof (cases synced)
  case (Inr events)
  assume "bot_ok b"
  moreover obtain r b1 where ev: "handle_events A now events b = (r, b1)" by fastforce
  ultimately have "bot_ok b1" using handle_events_ok [of b A now events] by simp
  moreover from this have "bot_ok ((check_watchlist it A now b1)\<lparr>cb_last_check := now\<rparr>)"
    using check_watchlist_ok [of b1 it A now] by (simp add: bot_ok_def)
  ultimately show ?thesis using Inr ev by (simp add: run_round_def split: sum.split)
qed (simp add: run_round_def)

text \<open>
  C31. However often the room delivers a task, and whatever fails, the coordinator hands it to a worker
  room at most once: over any run, with respawns included, the invitations and posts name distinct
  tasks, each of them marked as seen, and every watched task is one of the seen ones, under its own
  identifier.
\<close>

theorem tasks_routed_once:
  "let b = snd (bot_run it A rounds (bot_new room start))
   in distinct (routed (cb_actions b)) \<and> set (routed (cb_actions b)) \<subseteq> cb_seen b
      \<and> (\<forall>u. case cb_watchlist b u of None \<Rightarrow> True | Some e \<Rightarrow> te_uuid (we_task e) = u \<and> u \<in> cb_seen b)"
proof -
  have "bot_ok (snd (bot_run it A rounds b))" if "bot_ok b" for b
    using that
  proof (induction it A rounds b rule: bot_run.induct)
    case (2 it A now synced rounds b)
    then show ?case using run_round_ok [of b it A now synced] by (auto split: prod.split sum.split)
  qed simp
  moreover have "bot_ok (bot_new room start)" by (simp add: bot_ok_def bot_new_def)
  ultimately have "bot_ok (snd (bot_run it A rounds (bot_new room start)))" by blast
  then show ?thesis by (auto simp: bot_ok_def Let_def split: option.split)
qed


subsection \<open>Respawns end\<close>

text \<open>What a payload promises: a number stored under \<open>attempt\<close> is read back.\<close>

definition payload_law :: "'v fabric_api \<Rightarrow> bool" where
  "payload_law A \<longleftrightarrow>
     (\<forall>n v. object_len (fa_values A) v \<noteq> None \<longrightarrow>
        Option.bind (value_get (fa_values A) (fa_set_attempt A n v) ''attempt'') (as_u64 (fa_values A)) = Some (ucast n))
     \<and> (\<forall>n. Option.bind (value_get (fa_values A) (fa_attempt_object A n) ''attempt'') (as_u64 (fa_values A)) = Some (ucast n))"

lemma task_attempt_with_attempt: "payload_law A \<Longrightarrow> task_attempt A (with_attempt A n task) = n"
  by (auto simp: payload_law_def task_attempt_def with_attempt_def Let_def ucast_up_ucast_id is_up)

text \<open>A task that fails again and again: the respawn of the task with the attempt it was watched
  under, which is the attempt that its payload names.\<close>

definition next_try :: "'v fabric_api \<Rightarrow> 'v CoordinatorBot \<Rightarrow> FailurePolicy \<Rightarrow> str \<Rightarrow> 'v TaskEvent option \<Rightarrow> 'v TaskEvent option" where
  "next_try A b policy why current =
     (case current of
        None \<Rightarrow> None
      | Some task \<Rightarrow>
          (case fabric_apply_policy A policy
                  \<lparr>fc_task = task, fc_reason = why, fc_attempt = task_attempt A task, fc_last_progress = None\<rparr> b of
             (Inr new_task, _) \<Rightarrow> new_task
           | (Inl _, _) \<Rightarrow> None))"

fun retry_limit :: "FailurePolicy \<Rightarrow> u8" where
  "retry_limit (PolRespawn mx) = mx"
| "retry_limit PolRespawnWithContext = 3"
| "retry_limit PolEscalate = 0"
| "retry_limit PolAbandon = 0"

lemma give_up_None: "(case give_up r of (Inr t, _) \<Rightarrow> t | (Inl _, _) \<Rightarrow> None) = None"
  by (cases r) (auto simp: give_up_def split: sum.split)

lemma next_try_Some:
  assumes "payload_law A"
  shows "if task_attempt A task < retry_limit policy
    then \<exists>t. next_try A b policy why (Some task) = Some t \<and> task_attempt A t = task_attempt A task + 1
    else next_try A b policy why (Some task) = None"
  by (cases policy) (simp_all add: next_try_def fabric_apply_policy_def give_up_None task_attempt_with_attempt [OF assms])

lemma next_try_iterate:
  assumes "payload_law A" and "task_attempt A task = 0" and "k \<le> unat (retry_limit policy)"
  shows "\<exists>t. (next_try A b policy why ^^ k) (Some task) = Some t \<and> unat (task_attempt A t) = k"
  using assms(3)
proof (induction k)
  case (Suc k)
  then obtain t where t: "(next_try A b policy why ^^ k) (Some task) = Some t" "unat (task_attempt A t) = k" by auto
  with Suc.prems have less: "task_attempt A t < retry_limit policy" by (simp add: word_less_nat_alt)
  have "k + 1 < 2 ^ 8" using Suc.prems unsigned_less [of "retry_limit policy", where ?'a = nat] by simp
  then have "unat (task_attempt A t + 1) = k + 1" using t(2) by (simp add: unat_word_ariths)
  with next_try_Some [OF assms(1), of t policy b why] less t show ?case by auto
qed (simp add: assms(2))

text \<open>
  A task that keeps failing is tried again exactly as often as its policy allows: with
  respawn up to its limit, with context three times, otherwise never. Each try is the task that the
  policy made of the one before, under the attempt number read back from its payload.
\<close>

lemma fabric_respawns_end:
  assumes "payload_law A" and "task_attempt A task = 0"
  shows "(next_try A b policy why ^^ k) (Some task) \<noteq> None \<longleftrightarrow> k \<le> unat (retry_limit policy)"
proof (cases "k \<le> unat (retry_limit policy)")
  case True
  with next_try_iterate [OF assms True, of b why] show ?thesis by auto
next
  case False
  let ?n = "unat (retry_limit policy)"
  obtain t where t: "(next_try A b policy why ^^ ?n) (Some task) = Some t" "unat (task_attempt A t) = ?n"
    using next_try_iterate [OF assms order_refl, where policy = policy and b = b and why = why] by auto
  then have "\<not> task_attempt A t < retry_limit policy" by (simp add: word_less_nat_alt)
  with next_try_Some [OF assms(1), of t policy b why] t have last: "(next_try A b policy why ^^ Suc ?n) (Some task) = None" by simp
  have "(next_try A b policy why ^^ (j + Suc ?n)) (Some task) = None" for j
    unfolding funpow_add comp_apply last by (induction j) (simp_all add: next_try_def)
  from this [of "k - Suc ?n"] False show ?thesis by simp
qed

text \<open>A payload of the JSON library.\<close>

definition demo_fabric :: "json fabric_api" where
  "demo_fabric =
     \<lparr>fa_values = json_api, fa_set_attempt = (\<lambda>n v. case v of JObj m \<Rightarrow> JObj ((''attempt'', JNum (ucast n)) # m) | _ \<Rightarrow> v),
      fa_attempt_object = (\<lambda>n. JObj [(''attempt'', JNum (ucast n))]), fa_de_task = (\<lambda>_. None), fa_de_claim = (\<lambda>_. None),
      fa_de_heartbeat = (\<lambda>_. None), fa_de_result = (\<lambda>_. None), fa_valid_user = (\<lambda>_. True),
      fa_create_room = (\<lambda>_ name _. Okay (''!'' @ name)), fa_invite = (\<lambda>_ _ _. Okay ()), fa_send = (\<lambda>_ _ _. Okay ())\<rparr>"

lemma demo_payload_law: "payload_law demo_fabric"
  by (auto simp: payload_law_def demo_fabric_def json_api_def split: json.split)

definition demo_task :: "json TaskEvent" where
  "demo_task =
     \<lparr>te_uuid = ''t'', te_sender_id = ''@a:hs'', te_required_capabilities = [''rust''], te_estimated_cycles = None,
      te_timeout_seconds = 60, te_heartbeat_interval_seconds = 10, te_on_timeout = PolRespawn 2, te_on_heartbeat_miss = PolAbandon,
      te_routing_mode = Auto, te_p2p_stream = False, te_payload = JObj [(''bin'', JStr ''ls'')], te_plan = None\<rparr>"

lemma fabric_respawns_end_example:
  "(next_try demo_fabric (bot_new ''!r'' 0) (PolRespawn 2) ''lost'' ^^ 2) (Some demo_task) \<noteq> None
   \<and> (next_try demo_fabric (bot_new ''!r'' 0) (PolRespawn 2) ''lost'' ^^ 3) (Some demo_task) = None"
proof -
  have "task_attempt demo_fabric demo_task = 0" by (simp add: task_attempt_def demo_fabric_def demo_task_def json_api_def)
  note ends = fabric_respawns_end [OF demo_payload_law this, where b = "bot_new ''!r'' 0" and policy = "PolRespawn 2" and why = "''lost''"]
  from ends [where k = 2] ends [where k = 3] show ?thesis by (simp del: funpow.simps)
qed

subsection \<open>Rooms and losses\<close>

text \<open>The room of a task depends on its set of capabilities alone; names with dots collide.\<close>

lemma capability_room_name_perm: "mset caps = mset caps' \<Longrightarrow> capability_room_name caps = capability_room_name caps'"
proof -
  assume "mset caps = mset caps'"
  then have "sort caps = sort caps'" by (intro properties_for_sort) simp_all
  then show ?thesis by (simp add: capability_room_name_def)
qed

lemma capability_room_name_collides: "capability_room_name [''a.b''] = capability_room_name [''a'', ''b'']"
  by code_simp

text \<open>A task whose routing fails is marked as seen, is not watched, and every later delivery of it is
  ignored; and an event whose handling fails ends the loop.\<close>

lemma failed_routing_loses_task:
  assumes "te_uuid task \<notin> cb_seen b" and "cb_watchlist b (te_uuid task) = None"
    and "handle_task_event A now task b = (Err e, b')"
  shows "cb_watchlist b' (te_uuid task) = None \<and> handle_task_event A later task b' = (Okay (), b')"
  using assms(1)
proof (cases rule: handle_task_cases [where A = A and now = now])
  case (failed e b'')
  with assms show ?thesis by (auto simp: quiet_def handle_task_event_def)
qed (use assms(3) in simp)

text \<open>In direct mode the task itself is posted nowhere: also not a respawned one, which only the
  coordinator knows of.\<close>

lemma direct_posts_nothing:
  "SendMessage r (TaskMessage t) \<in> set (cb_actions (snd (route_direct A task room b))) \<Longrightarrow>
     SendMessage r (TaskMessage t) \<in> set (cb_actions b)"
  by (auto simp: route_direct_def calls_def Let_def split: if_splits sum.splits)


end
