(* ===== verification/Fabric_Worker.thy ===== *)
theory Fabric_Worker
  imports Fabric
begin

section \<open>Workers and senders of the fabric\<close>

text \<open>
  \<open>crates/mxdx-fabric/src/worker.rs\<close> (claims, heartbeats and results), \<open>process_worker.rs\<close> (running the process of a task) and
  \<open>sender.rs\<close> (posting a task and waiting for its result). The room is a state of the type \<open>'s\<close> with the
  operations of the Matrix client as parameters; the serializers and decoders are parameters. A
  process is what it writes, line by line with the time at which each line is read, and how it ends.
\<close>

subsection \<open>The room\<close>

record ('s, 'v) room_api =
  ra_values :: "'v value_api"
  ra_sync :: "'s \<Rightarrow> (str, unit) result \<times> 's"
  ra_collect :: "'s \<Rightarrow> (str, 'v list) result \<times> 's"
  ra_put_state :: "str \<Rightarrow> str \<Rightarrow> 'v \<Rightarrow> 's \<Rightarrow> (str, unit) result \<times> 's"
  ra_get_state :: "str \<Rightarrow> str \<Rightarrow> 's \<Rightarrow> (str, 'v) result"
  ra_send :: "str \<Rightarrow> str option \<Rightarrow> 'v \<Rightarrow> 's \<Rightarrow> (str, unit) result \<times> 's"
  ra_de_task :: "'v \<Rightarrow> 'v TaskEvent option"
  ra_de_result :: "'v \<Rightarrow> 'v TaskResultEvent option"
  ra_claim :: "ClaimEvent \<Rightarrow> (str, 'v) result"
  ra_heartbeat :: "HeartbeatEvent \<Rightarrow> (str, 'v) result"
  ra_result :: "'v TaskResultEvent \<Rightarrow> (str, 'v) result"
  ra_string :: "str \<Rightarrow> 'v"
  ra_offer :: "str \<Rightarrow> str \<Rightarrow> 'v"
  ra_task :: "'v TaskEvent \<Rightarrow> 'v"
  ra_entries :: "'v \<Rightarrow> (str \<times> 'v) list"

definition EVENT_TASK :: str where "EVENT_TASK = ''org.mxdx.fabric.task''"
definition EVENT_CLAIM :: str where "EVENT_CLAIM = ''org.mxdx.fabric.claim''"
definition EVENT_HEARTBEAT :: str where "EVENT_HEARTBEAT = ''org.mxdx.fabric.heartbeat''"
definition EVENT_RESULT :: str where "EVENT_RESULT = ''org.mxdx.fabric.result''"
definition EVENT_STREAM_OFFER :: str where "EVENT_STREAM_OFFER = ''org.mxdx.fabric.stream_offer''"

text \<open>The question mark of the source: the first error is returned, with the state reached.\<close>

definition and_then :: "('e, 'a) result \<times> 's \<Rightarrow> ('a \<Rightarrow> 's \<Rightarrow> ('e, 'b) result \<times> 's) \<Rightarrow> ('e, 'b) result \<times> 's" where
  "and_then r f = (case r of (Inl e, s) \<Rightarrow> (Err e, s) | (Inr a, s) \<Rightarrow> f a s)"

lemma and_then_simps [simp]: "and_then (Inl e, s) f = (Err e, s)" "and_then (Inr a, s) f = f a s"
  by (simp_all add: and_then_def)

subsection \<open>Claims\<close>

definition claim_key :: "str \<Rightarrow> str" where
  "claim_key uuid = ''task/'' @ uuid @ ''/claim''"

definition post_claim :: "('s, 'v) room_api \<Rightarrow> str \<Rightarrow> u64 \<Rightarrow> str \<Rightarrow> 's \<Rightarrow> (str, unit) result \<times> 's" where
  "post_claim R worker_id now uuid s =
     and_then (ra_claim R \<lparr>ce_task_uuid = uuid, ce_worker_id = worker_id, ce_claimed_at = now\<rparr>, s)
       (\<lambda>content s. ra_put_state R EVENT_CLAIM (claim_key uuid) content s)"

definition check_claim :: "('s, 'v) room_api \<Rightarrow> str \<Rightarrow> str \<Rightarrow> 's \<Rightarrow> (str, bool) result \<times> 's" where
  "check_claim R worker_id uuid s =
     and_then (ra_sync R s) (\<lambda>_ s.
       and_then (ra_get_state R EVENT_CLAIM (claim_key uuid) s, s) (\<lambda>st s.
         let winner = (case str_field (ra_values R) st ''worker_id'' of Some w \<Rightarrow> w | None \<Rightarrow> '''')
         in (Okay (winner = worker_id), s)))"

definition fabric_try_claim :: "('s, 'v) room_api \<Rightarrow> str \<Rightarrow> u64 \<Rightarrow> 'v TaskEvent \<Rightarrow> 's \<Rightarrow> (str, bool) result \<times> 's" where
  "fabric_try_claim R worker_id now task s =
     and_then (post_claim R worker_id now (te_uuid task) s) (\<lambda>_ s. check_claim R worker_id (te_uuid task) s)"

fun claim_first ::
  "('s, 'v) room_api \<Rightarrow> str \<Rightarrow> u64 \<Rightarrow> str list \<Rightarrow> 'v list \<Rightarrow> 's \<Rightarrow> (str, ('v TaskEvent \<times> str) option) result \<times> 's" where
  "claim_first R worker_id now my_caps [] s = (Okay None, s)"
| "claim_first R worker_id now my_caps (event # events) s =
     (let A = ra_values R; rest = claim_first R worker_id now my_caps events
      in if (case str_field A event ''type'' of Some t \<Rightarrow> t | None \<Rightarrow> '''') \<noteq> EVENT_TASK then rest s
         else
           (case Option.bind (value_get A event ''content'') (ra_de_task R) of
              None \<Rightarrow> rest s
            | Some task \<Rightarrow>
                (let task_event_id = (case str_field A event ''event_id'' of Some i \<Rightarrow> i | None \<Rightarrow> '''')
                 in if list_all (\<lambda>cap. cap \<in> set my_caps) (te_required_capabilities task) then
                      and_then (fabric_try_claim R worker_id now task s) (\<lambda>won s.
                        if won then (Okay (Some (task, task_event_id)), s) else rest s)
                    else rest s)))"

definition watch_and_claim ::
  "('s, 'v) room_api \<Rightarrow> str \<Rightarrow> u64 \<Rightarrow> str list \<Rightarrow> 's \<Rightarrow> (str, ('v TaskEvent \<times> str) option) result \<times> 's" where
  "watch_and_claim R worker_id now my_caps s =
     and_then (ra_sync R s) (\<lambda>_ s. and_then (ra_collect R s) (\<lambda>events s. claim_first R worker_id now my_caps events s))"

subsection \<open>Heartbeats and results\<close>

definition thread_of :: "str \<Rightarrow> str option" where
  "thread_of task_event_id = (if task_event_id = [] then None else Some task_event_id)"

definition post_heartbeat ::
  "('s, 'v) room_api \<Rightarrow> str \<Rightarrow> u64 \<Rightarrow> str \<Rightarrow> str option \<Rightarrow> str option \<Rightarrow> 's \<Rightarrow> (str, unit) result \<times> 's" where
  "post_heartbeat R worker_id now task_uuid progress task_event_id s =
     and_then (ra_heartbeat R \<lparr>he_task_uuid = task_uuid, he_worker_id = worker_id, he_progress = progress, he_timestamp = now\<rparr>, s)
       (\<lambda>content s. ra_send R EVENT_HEARTBEAT (case task_event_id of Some i \<Rightarrow> thread_of i | None \<Rightarrow> None) content s)"

definition post_result ::
  "('s, 'v) room_api \<Rightarrow> str \<Rightarrow> str \<Rightarrow> TaskStatus \<Rightarrow> 'v option \<Rightarrow> str option \<Rightarrow> u64 \<Rightarrow> str option \<Rightarrow> 's \<Rightarrow> (str, unit) result \<times> 's" where
  "post_result R worker_id task_uuid status output err duration_seconds task_event_id s =
     and_then (ra_result R \<lparr>tre_task_uuid = task_uuid, tre_worker_id = worker_id, tre_status = status, tre_output = output,
         tre_error = err, tre_duration_seconds = duration_seconds\<rparr>, s)
       (\<lambda>content s. ra_send R EVENT_RESULT (case task_event_id of Some i \<Rightarrow> thread_of i | None \<Rightarrow> None) content s)"

subsection \<open>The payload of a process\<close>

record ProcessPayload =
  pp_bin :: str
  pp_args :: "str list"
  pp_env :: "(str \<times> str) list"
  pp_cwd :: "str option"

definition from_task_payload :: "('s, 'v) room_api \<Rightarrow> 'v \<Rightarrow> ProcessPayload option" where
  "from_task_payload R payload =
     (let A = ra_values R
      in if object_len A payload = None then None
         else
           (case str_field A payload ''bin'' of
              None \<Rightarrow> None
            | Some bin \<Rightarrow>
                Some \<lparr>pp_bin = bin,
                  pp_args = (case Option.bind (value_get A payload ''args'') (as_array A) of
                               Some arr \<Rightarrow> List.map_filter (as_str A) arr | None \<Rightarrow> []),
                  pp_env = (case value_get A payload ''env'' of
                              Some m \<Rightarrow> (if object_len A m = None then []
                                       else List.map_filter (\<lambda>(k, v). map_option (\<lambda>t. (k, t)) (as_str A v)) (ra_entries R m))
                            | None \<Rightarrow> []),
                  pp_cwd = str_field A payload ''cwd''\<rparr>))"

subsection \<open>Running the process\<close>

definition BATCH_INTERVAL :: duration where "BATCH_INTERVAL = from_secs 30"
definition BATCH_MAX_BYTES :: nat where "BATCH_MAX_BYTES = 4096"
definition TAIL_LINES :: nat where "TAIL_LINES = 50"

datatype exit_status = ExitCode "32 word" | ExitSignal

record process_run =
  pr_spawn :: "(str, unit) result"
  pr_start :: instant
  pr_lines :: "(str \<times> instant) list"
  pr_wait :: "(str, exit_status) result"
  pr_end :: instant
  pr_clock :: "instant \<Rightarrow> u64"

definition flush_heartbeat :: "('s, 'v) room_api \<Rightarrow> str \<Rightarrow> u64 \<Rightarrow> str \<Rightarrow> str \<Rightarrow> str \<Rightarrow> 's \<Rightarrow> 's" where
  "flush_heartbeat R worker_id now task_uuid batch task_event_id s =
     snd (post_heartbeat R worker_id now task_uuid (Some batch) (thread_of task_event_id) s)"

text \<open>The batches that the loop over the lines flushes, with the time of each; the last flush is
  after the end of the output.\<close>

fun batch_lines :: "(str \<times> instant) list \<Rightarrow> str \<Rightarrow> instant \<Rightarrow> (str \<times> instant option) list" where
  "batch_lines [] buf timer = (if buf \<noteq> [] then [(buf, None)] else [])"
| "batch_lines ((line, t) # lines) buf timer =
     (let buf1 = buf @ line @ [CHR 0x0A]
      in if length buf1 \<ge> BATCH_MAX_BYTES \<or> t - timer \<ge> BATCH_INTERVAL then (buf1, Some t) # batch_lines lines [] t
         else batch_lines lines buf1 timer)"

definition tail_lines :: "str list \<Rightarrow> str" where
  "tail_lines all_lines = join [CHR 0x0A] (rev (take TAIL_LINES (rev all_lines)))"

definition show_i32 :: "32 word \<Rightarrow> str" where
  "show_i32 w = (if sint w < 0 then ''-'' @ show_nat (nat (- sint w)) else show_nat (nat (sint w)))"

definition exit_outcome :: "str \<Rightarrow> exit_status \<Rightarrow> TaskStatus \<times> str option" where
  "exit_outcome bin st =
     (case st of
        ExitCode c \<Rightarrow> if c = 0 then (TsSuccess, None) else (TsFailed, Some (bin @ '' exited with code '' @ show_i32 c))
      | ExitSignal \<Rightarrow> (TsFailed, Some (bin @ '' exited with code signal'')))"

definition post_outcome ::
  "('s, 'v) room_api \<Rightarrow> str \<Rightarrow> 'v TaskEvent \<Rightarrow> ProcessPayload \<Rightarrow> process_run \<Rightarrow> str \<Rightarrow> 's \<Rightarrow> (str, unit) result \<times> 's" where
  "post_outcome R worker_id task payload run task_event_id s =
     and_then (pr_wait run, s) (\<lambda>st s.
       let (task_status, error_msg) = exit_outcome (pp_bin payload) st
       in post_result R worker_id (te_uuid task) task_status (Some (ra_string R (tail_lines (map fst (pr_lines run))))) error_msg
            (of_nat ((pr_end run - pr_start run) div 1000)) (thread_of task_event_id) s)"

definition stream_heartbeats :: "('s, 'v) room_api \<Rightarrow> str \<Rightarrow> 'v TaskEvent \<Rightarrow> process_run \<Rightarrow> str \<Rightarrow> 's \<Rightarrow> 's" where
  "stream_heartbeats R worker_id task run task_event_id s =
     fold (\<lambda>(batch, t). flush_heartbeat R worker_id (pr_clock run (case t of Some t \<Rightarrow> t | None \<Rightarrow> pr_end run)) (te_uuid task) batch task_event_id)
       (batch_lines (pr_lines run) [] (pr_start run)) s"

definition run_task_matrix ::
  "('s, 'v) room_api \<Rightarrow> str \<Rightarrow> 'v TaskEvent \<Rightarrow> ProcessPayload \<Rightarrow> process_run \<Rightarrow> str \<Rightarrow> 's \<Rightarrow> (str, unit) result \<times> 's" where
  "run_task_matrix R worker_id task payload run task_event_id s =
     and_then (pr_spawn run, s) (\<lambda>_ s.
       post_outcome R worker_id task payload run task_event_id (stream_heartbeats R worker_id task run task_event_id s))"

text \<open>The stream of the peer-to-peer mode: whether a peer connected in time, and which writes
  succeed. The first failed write drops the stream.\<close>

record p2p_run =
  p2_bind :: "(str, unit) result"
  p2_accepted :: bool
  p2_write :: "nat \<Rightarrow> bool"

fun stream_writes :: "(nat \<Rightarrow> bool) \<Rightarrow> nat \<Rightarrow> str list \<Rightarrow> str list" where
  "stream_writes ok n [] = []"
| "stream_writes ok n (line # lines) = (if ok n then (line @ [CHR 0x0A]) # stream_writes ok (n + 1) lines else [])"

definition p2p_output :: "p2p_run \<Rightarrow> process_run \<Rightarrow> str list" where
  "p2p_output p run = (if p2_accepted p then stream_writes (p2_write p) 0 (map fst (pr_lines run)) else [])"

definition socket_path :: "str \<Rightarrow> str" where
  "socket_path uuid = ''/tmp/mxdx-fabric-'' @ uuid @ ''.sock''"

definition run_task_p2p ::
  "('s, 'v) room_api \<Rightarrow> str \<Rightarrow> 'v TaskEvent \<Rightarrow> ProcessPayload \<Rightarrow> p2p_run \<Rightarrow> process_run \<Rightarrow> str \<Rightarrow> 's \<Rightarrow> (str, unit) result \<times> 's" where
  "run_task_p2p R worker_id task payload p run task_event_id s =
     and_then (p2_bind p, s) (\<lambda>_ s.
       and_then (ra_put_state R EVENT_STREAM_OFFER (''task/'' @ te_uuid task @ ''/stream'') (ra_offer R (socket_path (te_uuid task)) worker_id) s)
         (\<lambda>_ s. and_then (pr_spawn run, s) (\<lambda>_ s.
            post_outcome R worker_id task payload run task_event_id (stream_heartbeats R worker_id task run task_event_id s))))"

definition run_task ::
  "('s, 'v) room_api \<Rightarrow> str \<Rightarrow> u64 \<Rightarrow> 'v TaskEvent \<Rightarrow> p2p_run \<Rightarrow> process_run \<Rightarrow> str \<Rightarrow> 's \<Rightarrow> (str, unit) result \<times> 's" where
  "run_task R worker_id now task p run task_event_id s =
     and_then (fabric_try_claim R worker_id now task s) (\<lambda>won s.
       if \<not> won then (Okay (), s)
       else
         (case from_task_payload R (te_payload task) of
            None \<Rightarrow>
              post_result R worker_id (te_uuid task) TsFailed None (Some (''task payload missing required '' @ [CHR 0x27] @ ''bin'' @ [CHR 0x27] @ '' field'')) 0
                (thread_of task_event_id) s
          | Some payload \<Rightarrow>
              if te_p2p_stream task \<and> te_heartbeat_interval_seconds task < 5 then
                run_task_p2p R worker_id task payload p run task_event_id s
              else run_task_matrix R worker_id task payload run task_event_id s))"

definition build_process_input_schema :: InputSchema where
  "build_process_input_schema =
     \<lparr>is_type = ''object'',
      is_properties = [''bin'' \<mapsto> \<lparr>sp_type = ''string'', sp_description = ''Binary to execute''\<rparr>,
        ''args'' \<mapsto> \<lparr>sp_type = ''array'', sp_description = ''Command-line arguments''\<rparr>,
        ''env'' \<mapsto> \<lparr>sp_type = ''object'', sp_description = ''Environment variables (key-value pairs)''\<rparr>,
        ''cwd'' \<mapsto> \<lparr>sp_type = ''string'', sp_description = ''Working directory (absolute path)''\<rparr>],
      is_required = [''bin'']\<rparr>"

definition advertised_tools :: "(str \<Rightarrow> str option) \<Rightarrow> str list \<Rightarrow> WorkerTool list" where
  "advertised_tools probe_bin_version bins =
     map (\<lambda>bin. let version = probe_bin_version bin
        in \<lparr>wt_name = bin, wt_version = version, wt_description = ''Process executor for '' @ bin, wt_healthy = (version \<noteq> None),
            wt_input_schema = build_process_input_schema\<rparr>) bins"

subsection \<open>The sender\<close>

definition post_task :: "('s, 'v) room_api \<Rightarrow> 'v TaskEvent \<Rightarrow> 's \<Rightarrow> (str, str) result \<times> 's" where
  "post_task R task s = and_then (ra_send R EVENT_TASK None (ra_task R task) s) (\<lambda>_ s. (Okay (te_uuid task), s))"

fun find_result :: "('s, 'v) room_api \<Rightarrow> str \<Rightarrow> 'v list \<Rightarrow> 'v TaskResultEvent option" where
  "find_result R uuid [] = None"
| "find_result R uuid (event # events) =
     (let A = ra_values R
      in if (case str_field A event ''type'' of Some t \<Rightarrow> t | None \<Rightarrow> '''') \<noteq> EVENT_RESULT then find_result R uuid events
         else
           (case Option.bind (value_get A event ''content'') (ra_de_result R) of
              None \<Rightarrow> find_result R uuid events
            | Some res \<Rightarrow> if tre_task_uuid res = uuid then Some res else find_result R uuid events))"

text \<open>Each poll comes with the clock at the test of the loop; the outer \<open>None\<close> means that the polls are
  used up before the deadline.\<close>

fun wait_for_result ::
  "('s, 'v) room_api \<Rightarrow> str \<Rightarrow> instant \<Rightarrow> (instant \<times> (str, 'v list) result) list \<Rightarrow> (str, 'v TaskResultEvent option) result option" where
  "wait_for_result R uuid deadline [] = None"
| "wait_for_result R uuid deadline ((now, collected) # polls) =
     (if now < deadline then
        (case collected of
           Inl e \<Rightarrow> Some (Err e)
         | Inr events \<Rightarrow>
             (case find_result R uuid events of
                Some res \<Rightarrow> Some (Okay (Some res))
              | None \<Rightarrow> wait_for_result R uuid deadline polls))
      else Some (Okay None))"

text \<open>A poll for the stream also reads the offer; the inner boolean is whether the socket could be
  connected.\<close>

fun connect_stream ::
  "('s, 'v) room_api \<Rightarrow> (str \<Rightarrow> bool) \<Rightarrow> instant \<Rightarrow> (instant \<times> (str, 'v list) result \<times> (str, 'v) result) list \<Rightarrow> (str, bool) result option" where
  "connect_stream R connects deadline [] = None"
| "connect_stream R connects deadline ((now, collected, offer) # polls) =
     (if now < deadline then
        (case collected of
           Inl e \<Rightarrow> Some (Err e)
         | Inr _ \<Rightarrow>
             (case offer of
                Inr v \<Rightarrow>
                  (case str_field (ra_values R) v ''socket_path'' of
                     Some path \<Rightarrow> Some (Okay (connects path))
                   | None \<Rightarrow> connect_stream R connects deadline polls)
              | Inl _ \<Rightarrow> connect_stream R connects deadline polls))
      else Some (Okay False))"

subsection \<open>The output of a process is reported in full\<close>

definition line_max :: "(str \<times> instant) list \<Rightarrow> nat" where
  "line_max lines = fold max (map (length \<circ> fst) lines) 0"

lemma fold_max_ge: "n \<le> fold max ns n" "m \<in> set ns \<Longrightarrow> m \<le> fold max ns n"
  for n :: nat
proof (induction ns arbitrary: n)
  case (Cons a ns)
  { case 1 show ?case using Cons.IH(1) [of "max a n"] by simp }
  { case 2
    then show ?case using Cons.IH(1) [of "max a n"] Cons.IH(2) [of "max a n"] by (auto simp: max_def split: if_splits) }
qed simp_all

lemma batch_lines_concat:
  "concat (map fst (batch_lines lines buf timer)) = buf @ concat (map (\<lambda>l. fst l @ [CHR 0x0A]) lines)"
  by (induction lines buf timer rule: batch_lines.induct) (simp_all add: Let_def split_beta)

lemma batch_lines_sizes:
  assumes "length buf < BATCH_MAX_BYTES" and "\<And>line t. (line, t) \<in> set lines \<Longrightarrow> length line \<le> n"
  shows "list_all (\<lambda>(batch, t). batch \<noteq> [] \<and> length batch \<le> BATCH_MAX_BYTES + n
      \<and> (t = None \<longrightarrow> length batch < BATCH_MAX_BYTES)) (batch_lines lines buf timer)"
  using assms
proof (induction lines buf timer rule: batch_lines.induct)
  case (2 line t lines buf timer)
  have "length line \<le> n" by (rule "2.prems"(2) [of line t]) simp
  with 2 show ?case by (auto simp: Let_def BATCH_MAX_BYTES_def)
qed simp

text \<open>
  The heartbeats of a task carry everything that its process wrote. Whenever the lines
  arrive, the batches that the worker flushes, joined, are the lines in order, each ended by a line
  feed; no batch is empty or exceeds 4096 bytes by more than a line, and the result names the last
  fifty lines.
\<close>

lemma process_output_reported:
  "concat (map fst (batch_lines lines [] timer)) = concat (map (\<lambda>line. line @ [CHR 0x0A]) (map fst lines))
   \<and> list_all (\<lambda>(batch, t). batch \<noteq> [] \<and> length batch \<le> 4096 + line_max lines) (batch_lines lines [] timer)
   \<and> tail_lines (map fst lines) = join [CHR 0x0A] (drop (length lines - 50) (map fst lines))"
proof -
  have "length line \<le> line_max lines" if "(line, t) \<in> set lines" for line t
    unfolding line_max_def by (rule fold_max_ge(2)) (use that in force)
  then have "list_all (\<lambda>(batch, t). batch \<noteq> [] \<and> length batch \<le> BATCH_MAX_BYTES + line_max lines
      \<and> (t = None \<longrightarrow> length batch < BATCH_MAX_BYTES)) (batch_lines lines [] timer)"
    by (intro batch_lines_sizes) (auto simp: BATCH_MAX_BYTES_def)
  then have "list_all (\<lambda>(batch, t). batch \<noteq> [] \<and> length batch \<le> 4096 + line_max lines) (batch_lines lines [] timer)"
    by (auto simp: list_all_iff BATCH_MAX_BYTES_def)
  moreover have "tail_lines (map fst lines) = join [CHR 0x0A] (drop (length lines - 50) (map fst lines))"
    by (simp add: tail_lines_def TAIL_LINES_def rev_take)
  ultimately show ?thesis by (simp add: batch_lines_concat comp_def)
qed

subsection \<open>Claims do not exclude each other\<close>

text \<open>What a room promises: a state event replaces the one under the same type and key, and a sync
  reads it; and a serialized claim names its worker.\<close>

definition room_law :: "('s, 'v) room_api \<Rightarrow> bool" where
  "room_law R \<longleftrightarrow>
     (\<forall>ty k v s. fst (ra_put_state R ty k v s) = Okay () \<and> ra_get_state R ty k (snd (ra_put_state R ty k v s)) = Okay v)
     \<and> (\<forall>ty k s. fst (ra_sync R s) = Okay () \<and> ra_get_state R ty k (snd (ra_sync R s)) = ra_get_state R ty k s)
     \<and> (\<forall>c. \<exists>v. ra_claim R c = Okay v \<and> str_field (ra_values R) v ''worker_id'' = Some (ce_worker_id c))"

lemma check_after_post:
  assumes "room_law R"
  shows "fst (post_claim R w now uuid s) = Okay ()
    \<and> fst (check_claim R w' uuid (snd (post_claim R w now uuid s))) = Okay (w = w')"
proof -
  let ?c = "\<lparr>ce_task_uuid = uuid, ce_worker_id = w, ce_claimed_at = now\<rparr>"
  obtain v where v: "ra_claim R ?c = Okay v" "str_field (ra_values R) v ''worker_id'' = Some w"
    using assms unfolding room_law_def by (metis ClaimEvent.select_convs(2))
  obtain s1 where s1: "ra_put_state R EVENT_CLAIM (claim_key uuid) v s = (Okay (), s1)"
    using assms unfolding room_law_def by (metis prod.collapse)
  then have get: "ra_get_state R EVENT_CLAIM (claim_key uuid) s1 = Okay v"
    using assms unfolding room_law_def by (metis snd_conv)
  obtain s2 where s2: "ra_sync R s1 = (Okay (), s2)" using assms unfolding room_law_def by (metis prod.collapse)
  then have "ra_get_state R EVENT_CLAIM (claim_key uuid) s2 = Okay v"
    using assms get unfolding room_law_def by (metis snd_conv)
  with v s1 s2 show ?thesis by (simp add: post_claim_def check_claim_def)
qed

lemma fabric_try_claim_wins: "room_law R \<Longrightarrow> fst (fabric_try_claim R w now task s) = Okay True"
proof -
  assume law: "room_law R"
  obtain s1 where "post_claim R w now (te_uuid task) s = (Okay (), s1)"
    using check_after_post [OF law, of w now "te_uuid task" s w] by (metis prod.collapse)
  with check_after_post [OF law, of w now "te_uuid task" s w] show ?thesis by (simp add: fabric_try_claim_def)
qed

text \<open>
  C32. A claim overwrites the claims before it. In a room that does what rooms do, a worker
  that claims a task wins it, whoever has won it before: two workers that claim one after the
  other both run the task. Only when both post before either reads back does the first of them lose.
\<close>

theorem claims_not_exclusive:
  assumes "room_law R"
  shows "fst (fabric_try_claim R w1 t1 task s) = Okay True
    \<and> fst (fabric_try_claim R w2 t2 task (snd (fabric_try_claim R w1 t1 task s))) = Okay True
    \<and> fst (check_claim R w1 (te_uuid task) (snd (post_claim R w2 t2 (te_uuid task) (snd (post_claim R w1 t1 (te_uuid task) s))))) = Okay (w1 = w2)"
  using fabric_try_claim_wins [OF assms] check_after_post [OF assms, of w2 t2 "te_uuid task" _ w1] by auto

definition demo_room :: "(str \<times> str \<Rightarrow> json option, json) room_api" where
  "demo_room =
     \<lparr>ra_values = json_api, ra_sync = (\<lambda>s. (Okay (), s)), ra_collect = (\<lambda>s. (Okay [], s)),
      ra_put_state = (\<lambda>ty k v s. (Okay (), s((ty, k) := Some v))),
      ra_get_state = (\<lambda>ty k s. case s (ty, k) of Some v \<Rightarrow> Okay v | None \<Rightarrow> Err ''M_NOT_FOUND''),
      ra_send = (\<lambda>_ _ _ s. (Okay (), s)), ra_de_task = (\<lambda>_. None), ra_de_result = (\<lambda>_. None),
      ra_claim = (\<lambda>c. Okay (JObj [(''worker_id'', JStr (ce_worker_id c))])), ra_heartbeat = (\<lambda>_. Okay JNull), ra_result = (\<lambda>_. Okay JNull),
      ra_string = JStr, ra_offer = (\<lambda>_ _. JNull), ra_task = (\<lambda>_. JNull), ra_entries = (\<lambda>v. case v of JObj m \<Rightarrow> m | _ \<Rightarrow> [])\<rparr>"

theorem claims_not_exclusive_witness:
  "fst (fabric_try_claim demo_room ''b'' 2 demo_task (snd (fabric_try_claim demo_room ''a'' 1 demo_task (\<lambda>_. None)))) = Okay True"
proof -
  have "room_law demo_room" by (simp add: room_law_def demo_room_def json_api_def str_field_def)
  from claims_not_exclusive [OF this, of "''a''" 1 demo_task "\<lambda>_. None" "''b''" 2] show ?thesis by blast
qed

subsection \<open>The sender gets its own result\<close>

lemma find_result_own: "find_result R uuid events = Some res \<Longrightarrow> tre_task_uuid res = uuid"
  by (induction R uuid events rule: find_result.induct) (auto simp: Let_def split: if_splits option.splits)

lemma wait_for_result_own: "wait_for_result R uuid deadline polls = Some (Okay (Some res)) \<Longrightarrow> tre_task_uuid res = uuid"
  by (induction R uuid deadline polls rule: wait_for_result.induct)
    (auto dest: find_result_own split: if_splits sum.splits option.splits)

text \<open>The wait ends: once a poll reaches the deadline it has returned.\<close>

lemma wait_for_result_ends: "list_ex (\<lambda>(now, _). now \<ge> deadline) polls \<Longrightarrow> wait_for_result R uuid deadline polls \<noteq> None"
  by (induction R uuid deadline polls rule: wait_for_result.induct) (auto split: sum.split option.split)

text \<open>A task that is claimed by a worker lacks no capability of it.\<close>

lemma claimed_task_fits:
  "fst (claim_first R w now caps events s) = Okay (Some (task, tid)) \<Longrightarrow> set (te_required_capabilities task) \<subseteq> set caps"
proof (induction R w now caps events s rule: claim_first.induct)
  case (2 R w now caps event events s)
  then show ?case
    by (auto simp: Let_def and_then_def list_all_iff split: if_splits option.splits prod.splits sum.splits)
qed simp


end
