(* ===== verification/Policy.thy ===== *)
theory Policy
  imports Paths
begin

section \<open>The policy agent\<close>

text \<open>
  \<open>crates/mxdx-policy/src/policy.rs\<close> (replay protection and authorization), \<open>config.rs\<close> and \<open>appservice.rs\<close> (the registration
  document), and the idle watchdog of the peer-to-peer session
  (\<open>crates/mxdx-p2p/src/transport/idle.rs\<close>). The cache of the \<open>lru\<close> crate is a parameter; what it promises is stated through the
  list of its entries, the most recently used first. Time is in milliseconds.
\<close>

subsection \<open>The policy engine\<close>

record 'c lru_api =
  lru_new :: "nat \<Rightarrow> 'c"
  lru_get :: "str \<Rightarrow> 'c \<Rightarrow> instant option \<times> 'c"
  lru_put :: "str \<Rightarrow> instant \<Rightarrow> 'c \<Rightarrow> 'c"
  lru_pop :: "str \<Rightarrow> 'c \<Rightarrow> 'c"

definition DEFAULT_CACHE_CAPACITY :: nat where "DEFAULT_CACHE_CAPACITY = 10000"
definition DEFAULT_TTL :: duration where "DEFAULT_TTL = from_secs 3600"

record 'c PolicyEngine =
  pe_replay_cache :: 'c
  pe_ttl :: duration
  pe_authorized_users :: "str set"

definition with_capacity_and_ttl :: "'c lru_api \<Rightarrow> nat \<Rightarrow> duration \<Rightarrow> 'c PolicyEngine option" where
  "with_capacity_and_ttl C capacity ttl =
     (if capacity = 0 then None
      else Some \<lparr>pe_replay_cache = lru_new C capacity, pe_ttl = ttl, pe_authorized_users = {}\<rparr>)"

definition engine_new :: "'c lru_api \<Rightarrow> 'c PolicyEngine" where
  "engine_new C = \<lparr>pe_replay_cache = lru_new C DEFAULT_CACHE_CAPACITY, pe_ttl = DEFAULT_TTL, pe_authorized_users = {}\<rparr>"

definition authorize_user :: "str \<Rightarrow> 'c PolicyEngine \<Rightarrow> 'c PolicyEngine" where
  "authorize_user user_id e = e\<lparr>pe_authorized_users := insert user_id (pe_authorized_users e)\<rparr>"

definition revoke_user :: "str \<Rightarrow> 'c PolicyEngine \<Rightarrow> 'c PolicyEngine" where
  "revoke_user user_id e = e\<lparr>pe_authorized_users := pe_authorized_users e - {user_id}\<rparr>"

definition policy_check_replay :: "'c lru_api \<Rightarrow> instant \<Rightarrow> str \<Rightarrow> 'c PolicyEngine \<Rightarrow> bool \<times> 'c PolicyEngine" where
  "policy_check_replay C now event_id e =
     (case lru_get C event_id (pe_replay_cache e) of
        (None, c) \<Rightarrow> (False, e\<lparr>pe_replay_cache := c\<rparr>)
      | (Some seen_at, c) \<Rightarrow>
          if now - seen_at < pe_ttl e then (True, e\<lparr>pe_replay_cache := c\<rparr>)
          else (False, e\<lparr>pe_replay_cache := lru_pop C event_id c\<rparr>))"

definition policy_mark_seen :: "'c lru_api \<Rightarrow> instant \<Rightarrow> str \<Rightarrow> 'c PolicyEngine \<Rightarrow> 'c PolicyEngine" where
  "policy_mark_seen C now event_id e = e\<lparr>pe_replay_cache := lru_put C event_id now (pe_replay_cache e)\<rparr>"

definition is_authorized :: "str \<Rightarrow> 'c PolicyEngine \<Rightarrow> bool" where
  "is_authorized user_id e \<longleftrightarrow> user_id \<in> pe_authorized_users e"

datatype PolicyRejection = Replay | Unauthorized

definition evaluate ::
  "'c lru_api \<Rightarrow> instant \<Rightarrow> str \<Rightarrow> str \<Rightarrow> 'c PolicyEngine \<Rightarrow> (PolicyRejection, unit) result \<times> 'c PolicyEngine" where
  "evaluate C now event_id user_id e =
     (let (replay, e1) = policy_check_replay C now event_id e
      in if replay then (Err Replay, e1)
         else if \<not> is_authorized user_id e1 then (Err Unauthorized, e1)
         else (Okay (), policy_mark_seen C now event_id e1))"

subsection \<open>What the cache promises\<close>

definition without :: "str \<Rightarrow> (str \<times> instant) list \<Rightarrow> (str \<times> instant) list" where
  "without k xs = filter (\<lambda>kv. fst kv \<noteq> k) xs"

definition used :: "str \<Rightarrow> (str \<times> instant) list \<Rightarrow> (str \<times> instant) list" where
  "used k xs = (case map_of xs k of None \<Rightarrow> xs | Some t \<Rightarrow> (k, t) # without k xs)"

definition stored :: "nat \<Rightarrow> str \<Rightarrow> instant \<Rightarrow> (str \<times> instant) list \<Rightarrow> (str \<times> instant) list" where
  "stored cap k t xs = take cap ((k, t) # without k xs)"

definition lru_law :: "'c lru_api \<Rightarrow> ('c \<Rightarrow> (str \<times> instant) list) \<Rightarrow> nat \<Rightarrow> bool" where
  "lru_law C entries cap \<longleftrightarrow>
     entries (lru_new C cap) = []
     \<and> (\<forall>k c. fst (lru_get C k c) = map_of (entries c) k \<and> entries (snd (lru_get C k c)) = used k (entries c))
     \<and> (\<forall>k t c. entries (lru_put C k t c) = stored cap k t (entries c))
     \<and> (\<forall>k c. entries (lru_pop C k c) = without k (entries c))"

text \<open>The engine on the list of entries: the reference of \<open>evaluate\<close>.\<close>

definition spec_evaluate ::
  "nat \<Rightarrow> duration \<Rightarrow> str set \<Rightarrow> instant \<Rightarrow> str \<Rightarrow> str \<Rightarrow> (str \<times> instant) list \<Rightarrow> (PolicyRejection, unit) result \<times> (str \<times> instant) list" where
  "spec_evaluate cap ttl users now event_id user_id xs =
     (if (case map_of xs event_id of None \<Rightarrow> False | Some t \<Rightarrow> now - t < ttl) then (Err Replay, used event_id xs)
      else
        (let xs1 = without event_id xs
         in if user_id \<notin> users then (Err Unauthorized, xs1) else (Okay (), stored cap event_id now xs1)))"

lemma without_id: "map_of xs k = None \<Longrightarrow> without k xs = xs"
  by (simp add: without_def map_of_eq_None_iff filter_id_conv image_iff) (metis fst_conv prod.collapse)

lemma without_idem [simp]: "without k (without k xs) = without k xs" "without k ((k, t) # xs) = without k xs"
  by (simp_all add: without_def)

lemma evaluate_refines:
  assumes "lru_law C entries cap"
  shows "fst (evaluate C now event_id user_id e)
      = fst (spec_evaluate cap (pe_ttl e) (pe_authorized_users e) now event_id user_id (entries (pe_replay_cache e)))
    \<and> entries (pe_replay_cache (snd (evaluate C now event_id user_id e)))
      = snd (spec_evaluate cap (pe_ttl e) (pe_authorized_users e) now event_id user_id (entries (pe_replay_cache e)))
    \<and> pe_ttl (snd (evaluate C now event_id user_id e)) = pe_ttl e
    \<and> pe_authorized_users (snd (evaluate C now event_id user_id e)) = pe_authorized_users e"
proof -
  let ?xs = "entries (pe_replay_cache e)"
  obtain r c where g: "lru_get C event_id (pe_replay_cache e) = (r, c)" by fastforce
  have r: "r = map_of ?xs event_id" and c: "entries c = used event_id ?xs"
    using assms g unfolding lru_law_def by (metis fst_conv, metis snd_conv)
  have put: "entries (lru_put C k t x) = stored cap k t (entries x)" and pop: "entries (lru_pop C k x) = without k (entries x)" for k t x
    using assms unfolding lru_law_def by blast+
  show ?thesis
  proof (cases "map_of ?xs event_id")
    case None
    then show ?thesis
      using g r c by (simp add: evaluate_def policy_check_replay_def spec_evaluate_def is_authorized_def policy_mark_seen_def put used_def without_id)
  next
    case (Some t)
    then have "without event_id (used event_id ?xs) = without event_id ?xs" by (simp add: used_def)
    with Some g r c show ?thesis
      by (simp add: evaluate_def policy_check_replay_def spec_evaluate_def is_authorized_def policy_mark_seen_def put pop)
  qed
qed

subsection \<open>Replays are rejected\<close>

text \<open>How far back in the list an entry may be: an evaluation pushes it back by at most one.\<close>

definition within :: "str \<Rightarrow> instant \<Rightarrow> nat \<Rightarrow> (str \<times> instant) list \<Rightarrow> bool" where
  "within k t n xs \<longleftrightarrow> (\<exists>ys zs. xs = ys @ (k, t) # zs \<and> k \<notin> fst ` set ys \<and> length ys \<le> n)"

lemma within_lookup: "within k t n xs \<Longrightarrow> map_of xs k = Some t"
  by (auto simp: within_def map_of_append map_add_Some_iff split: option.splits)
    (metis map_of_SomeD image_eqI fst_conv option.exhaust)

lemma within_without: "within k t n xs \<Longrightarrow> k' \<noteq> k \<Longrightarrow> within k t n (without k' xs)"
  unfolding within_def without_def
proof (elim exE conjE, intro exI conjI)
  fix ys zs
  assume "xs = ys @ (k, t) # zs" "k \<notin> fst ` set ys" "length ys \<le> n" "k' \<noteq> k"
  then show "filter (\<lambda>kv. fst kv \<noteq> k') xs = filter (\<lambda>kv. fst kv \<noteq> k') ys @ (k, t) # filter (\<lambda>kv. fst kv \<noteq> k') zs"
    "k \<notin> fst ` set (filter (\<lambda>kv. fst kv \<noteq> k') ys)" "length (filter (\<lambda>kv. fst kv \<noteq> k') ys) \<le> n"
    by (auto intro: order_trans [OF length_filter_le])
qed

lemma within_Cons: "within k t n xs \<Longrightarrow> k' \<noteq> k \<Longrightarrow> within k t (Suc n) ((k', t') # xs)"
  unfolding within_def
proof (elim exE conjE)
  fix ys zs
  assume "xs = ys @ (k, t) # zs" "k \<notin> fst ` set ys" "length ys \<le> n" "k' \<noteq> k"
  then show "\<exists>ys zs. (k', t') # xs = ys @ (k, t) # zs \<and> k \<notin> fst ` set ys \<and> length ys \<le> Suc n"
    by (intro exI [of _ "(k', t') # ys"] exI [of _ zs]) simp
qed

lemma within_take: "within k t n xs \<Longrightarrow> n < cap \<Longrightarrow> within k t n (take cap xs)"
  unfolding within_def
proof (elim exE conjE, intro exI conjI)
  fix ys zs
  assume "xs = ys @ (k, t) # zs" "length ys \<le> n" "n < cap" "k \<notin> fst ` set ys"
  then show "take cap xs = ys @ (k, t) # take (cap - Suc (length ys)) zs" "k \<notin> fst ` set ys" "length ys \<le> n"
    by (simp_all add: take_Cons split: nat.split) (metis Suc_diff_Suc diff_Suc_Suc le_less_trans nat.inject zero_less_diff)
qed

lemma within_Suc: "within k t n xs \<Longrightarrow> within k t (Suc n) xs"
  by (auto simp: within_def intro: le_SucI)

lemma within_hd: "within k t n ((k, t) # xs)"
  by (auto simp: within_def intro: exI [of _ "[]"])

lemma spec_evaluate_within:
  assumes "within k t n xs" and "Suc n < cap" and "now - t < ttl"
  shows "within k t (Suc n) (snd (spec_evaluate cap ttl users now k' u xs))
    \<and> (k' = k \<longrightarrow> fst (spec_evaluate cap ttl users now k' u xs) = Err Replay)"
proof (cases "k' = k")
  case True
  have "map_of xs k = Some t" by (rule within_lookup [OF assms(1)])
  moreover from this have "within k t (Suc n) (used k xs)" by (simp add: used_def within_hd)
  ultimately show ?thesis using True assms(3) by (simp add: spec_evaluate_def)
next
  case False
  have "within k t (Suc n) (used k' xs)"
    using within_Suc [OF assms(1)] within_Cons [OF within_without [OF assms(1) False] False] by (simp add: used_def split: option.split)
  moreover have "within k t (Suc n) (without k' xs)" by (rule within_Suc [OF within_without [OF assms(1) False]])
  moreover have "within k t (Suc n) (stored cap k' now (without k' xs))"
    unfolding stored_def by (intro within_take within_Cons within_without assms False)
  ultimately show ?thesis using False by (simp add: spec_evaluate_def Let_def)
qed

fun evaluate_all :: "'c lru_api \<Rightarrow> (instant \<times> str \<times> str) list \<Rightarrow> 'c PolicyEngine \<Rightarrow> 'c PolicyEngine" where
  "evaluate_all C [] e = e"
| "evaluate_all C ((now, event_id, user_id) # reqs) e = evaluate_all C reqs (snd (evaluate C now event_id user_id e))"

lemma evaluate_all_within:
  assumes "lru_law C entries cap"
  shows "within k t n (entries (pe_replay_cache e)) \<Longrightarrow> n + length reqs < cap \<Longrightarrow> list_all (\<lambda>(now, _). now - t < pe_ttl e) reqs \<Longrightarrow>
    within k t (n + length reqs) (entries (pe_replay_cache (evaluate_all C reqs e))) \<and> pe_ttl (evaluate_all C reqs e) = pe_ttl e"
proof (induction reqs arbitrary: n e)
  case (Cons req reqs)
  obtain now k' u where req: "req = (now, k', u)" by (metis prod_cases3)
  let ?e = "snd (evaluate C now k' u e)"
  note ref = evaluate_refines [OF assms, of now k' u e]
  have "within k t (Suc n) (entries (pe_replay_cache ?e))"
    using ref spec_evaluate_within [of k t n "entries (pe_replay_cache e)" cap now "pe_ttl e"] Cons.prems req by simp
  with Cons.IH [of "Suc n" ?e] Cons.prems ref req show ?case by simp
qed simp

text \<open>
  C40. Replays are rejected, and nothing else is taken for one. After the policy engine has accepted an
  event, the same event is refused as a replay by whatever user it is sent and whatever was evaluated
  in between, as long as these are fewer evaluations than the cache has entries and the time to
  live has passed at none of them. And every evaluation is decided by what the cache holds: a replay if
  the event is there and younger than the time to live, otherwise accepted exactly for an authorized
  user. The cache is a parameter with the behaviour documented for a least-recently-used cache.
\<close>

theorem replay_rejected:
  assumes "lru_law C entries cap" and "evaluate C t event_id user_id e = (Okay (), e1)"
    and "length reqs < cap" and "list_all (\<lambda>(now, _). now - t < pe_ttl e) reqs" and "now - t < pe_ttl e"
  shows "fst (evaluate C now event_id any_user (evaluate_all C reqs e1)) = Err Replay
    \<and> (\<forall>now' k u x. fst (evaluate C now' k u x) =
         (if \<exists>t. map_of (entries (pe_replay_cache x)) k = Some t \<and> now' - t < pe_ttl x then Err Replay
          else if u \<in> pe_authorized_users x then Okay () else Err Unauthorized))"
proof -
  note ref = evaluate_refines [OF assms(1), of t event_id user_id e]
  have e1: "e1 = snd (evaluate C t event_id user_id e)" "fst (evaluate C t event_id user_id e) = Okay ()" using assms(2) by simp_all
  with ref have okay: "fst (spec_evaluate cap (pe_ttl e) (pe_authorized_users e) t event_id user_id (entries (pe_replay_cache e))) = Okay ()"
    by simp
  have "\<exists>xs. entries (pe_replay_cache e1) = stored cap event_id t xs"
    unfolding e1(1) using ref okay by (auto simp: spec_evaluate_def Let_def split: if_splits)
  then have "within event_id t 0 (entries (pe_replay_cache e1))"
    using assms(3) by (auto simp: stored_def intro!: within_take within_hd)
  moreover have "pe_ttl e1 = pe_ttl e" using ref e1(1) by simp
  ultimately have "within event_id t (length reqs) (entries (pe_replay_cache (evaluate_all C reqs e1)))"
    "pe_ttl (evaluate_all C reqs e1) = pe_ttl e"
    using evaluate_all_within [OF assms(1), of event_id t 0 e1 reqs] assms(3,4) by simp_all
  with evaluate_refines [OF assms(1), of now event_id any_user "evaluate_all C reqs e1"] assms(5)
  have "fst (evaluate C now event_id any_user (evaluate_all C reqs e1)) = Err Replay"
    by (simp add: spec_evaluate_def within_lookup)
  moreover have "fst (evaluate C now' k u x) =
         (if \<exists>t. map_of (entries (pe_replay_cache x)) k = Some t \<and> now' - t < pe_ttl x then Err Replay
          else if u \<in> pe_authorized_users x then Okay () else Err Unauthorized)" for now' k u x
    using evaluate_refines [OF assms(1), of now' k u x] by (auto simp: spec_evaluate_def Let_def split: option.splits)
  ultimately show ?thesis by blast
qed

text \<open>A cache that is the list of its entries.\<close>

definition list_cache :: "nat \<Rightarrow> (str \<times> instant) list lru_api" where
  "list_cache cap =
     \<lparr>lru_new = (\<lambda>_. []), lru_get = (\<lambda>k c. (map_of c k, used k c)), lru_put = (\<lambda>k t c. stored cap k t c), lru_pop = (\<lambda>k c. without k c)\<rparr>"

lemma list_cache_law: "lru_law (list_cache cap) (\<lambda>c. c) cap"
  by (simp add: lru_law_def list_cache_def)

theorem replay_rejected_witness:
  "fst (evaluate (list_cache 3) 9 ''$a'' ''@eve'' (evaluate_all (list_cache 3) [(7, ''$b'', ''@bob''), (8, ''$c'', ''@bob'')]
     (snd (evaluate (list_cache 3) 5 ''$a'' ''@bob'' \<lparr>pe_replay_cache = [], pe_ttl = 10, pe_authorized_users = {''@bob''}\<rparr>)))) = Err Replay"
proof -
  let ?e = "\<lparr>pe_replay_cache = [] :: (str \<times> instant) list, pe_ttl = 10, pe_authorized_users = {''@bob''}\<rparr>"
  have ok: "evaluate (list_cache 3) 5 ''$a'' ''@bob'' ?e = (Okay (), snd (evaluate (list_cache 3) 5 ''$a'' ''@bob'' ?e))"
    by (simp add: evaluate_def policy_check_replay_def list_cache_def is_authorized_def)
  show ?thesis
    by (rule replay_rejected [OF list_cache_law ok, THEN conjunct1]) simp_all
qed

text \<open>An event is refused as a replay only if it was accepted before, less than the time to live ago;
  an event that was refused as unauthorized leaves no trace.\<close>

definition spec_accepts :: "instant \<times> str \<times> str \<Rightarrow> (PolicyRejection, unit) result \<Rightarrow> (str \<times> instant) set" where
  "spec_accepts req outcome = (case outcome of Inr _ \<Rightarrow> {(fst (snd req), fst req)} | Inl _ \<Rightarrow> {})"

lemma spec_evaluate_entries:
  "set (snd (spec_evaluate cap ttl users now k u xs))
     \<subseteq> set xs \<union> spec_accepts (now, k, u) (fst (spec_evaluate cap ttl users now k u xs))"
  by (auto simp: spec_evaluate_def spec_accepts_def used_def stored_def without_def Let_def
      dest!: in_set_takeD map_of_SomeD split: option.splits if_splits)

lemma spec_replay_seen:
  "fst (spec_evaluate cap ttl users now k u xs) = Err Replay \<Longrightarrow> \<exists>t. (k, t) \<in> set xs \<and> now - t < ttl"
  by (auto simp: spec_evaluate_def Let_def dest: map_of_SomeD split: if_splits option.splits)

subsection \<open>The registration of the application service\<close>

record PolicyConfig =
  pc_homeserver_url :: str
  pc_as_token :: str
  pc_hs_token :: str
  pc_server_name :: str
  pc_sender_localpart :: str
  pc_user_prefix :: str
  pc_appservice_port :: u16

definition appservice_url :: "PolicyConfig \<Rightarrow> str" where
  "appservice_url c = ''http://127.0.0.1:'' @ show_nat (unat (pc_appservice_port c))"

definition regex_special :: str where
  "regex_special = ''.^$+?()[]{}|'' @ [CHR 0x5C]"

definition regex_escape :: "str \<Rightarrow> str" where
  "regex_escape s = concat (map (\<lambda>c. if c \<in> set regex_special then [CHR 0x5C, c] else [c]) s)"

definition user_namespace_regex :: "PolicyConfig \<Rightarrow> str" where
  "user_namespace_regex c = ''@'' @ regex_escape (pc_user_prefix c) @ ''.*:'' @ regex_escape (pc_server_name c)"

record NamespaceEntry =
  ne_exclusive :: bool
  ne_regex :: str

record AppserviceRegistration =
  ar_id :: str
  ar_url :: str
  ar_as_token :: str
  ar_hs_token :: str
  ar_sender_localpart :: str
  ar_users :: "NamespaceEntry list"
  ar_rooms :: "NamespaceEntry list"
  ar_aliases :: "NamespaceEntry list"

definition from_config :: "PolicyConfig \<Rightarrow> AppserviceRegistration" where
  "from_config c =
     \<lparr>ar_id = ''mxdx-policy'', ar_url = appservice_url c, ar_as_token = pc_as_token c, ar_hs_token = pc_hs_token c,
      ar_sender_localpart = pc_sender_localpart c, ar_users = [\<lparr>ne_exclusive = True, ne_regex = user_namespace_regex c\<rparr>],
      ar_rooms = [], ar_aliases = []\<rparr>"

definition format_yaml :: "AppserviceRegistration \<Rightarrow> str" where
  "format_yaml r =
     (let nl = [CHR 0x0A]; q = [CHR 0x22]
      in ''id: '' @ ar_id r @ nl
         @ ''url: '' @ q @ ar_url r @ q @ nl
         @ ''as_token: '' @ q @ ar_as_token r @ q @ nl
         @ ''hs_token: '' @ q @ ar_hs_token r @ q @ nl
         @ ''sender_localpart: '' @ q @ ar_sender_localpart r @ q @ nl
         @ ''namespaces:'' @ nl @ ''  users:'' @ nl
         @ concat (map (\<lambda>e. ''    - exclusive: '' @ (if ne_exclusive e then ''true'' else ''false'') @ nl
                            @ ''      regex: '' @ [CHR 0x27] @ ne_regex e @ [CHR 0x27] @ nl) (ar_users r))
         @ ''  rooms: []'' @ nl @ ''  aliases: []'' @ nl)"

definition validate_registration_yaml :: "str \<Rightarrow> (str, unit) result" where
  "validate_registration_yaml content =
     (case find (\<lambda>field. \<not> contains_str content field) [''id:'', ''as_token:'', ''hs_token:''] of
        Some field \<Rightarrow> Err (trim_end_matches (CHR '':'') field)
      | None \<Rightarrow> Okay ())"

text \<open>The document that the agent writes passes its own validation; the star is not escaped.\<close>

lemma contains_str_append: "contains_str ys pat \<Longrightarrow> contains_str (xs @ ys) pat" "contains_str xs pat \<Longrightarrow> contains_str (xs @ ys) pat"
  unfolding contains_str_sublist sublist_def by (metis append.assoc)+

lemma registration_valid: "validate_registration_yaml (format_yaml (from_config c)) = Okay ()"
proof -
  have "contains_str (''id: '' @ xs) ''id:''" "contains_str (''as_token: '' @ xs) ''as_token:''" "contains_str (''hs_token: '' @ xs) ''hs_token:''" for xs
    by (simp_all add: starts_with_def)
  then show ?thesis
    unfolding validate_registration_yaml_def format_yaml_def Let_def by (simp add: contains_str_append del: append_Cons append_assoc)
qed

lemma regex_star_not_escaped: "regex_escape ''a*'' = ''a*''"
  by code_simp

subsection \<open>The idle watchdog\<close>

text \<open>
  The task sleeps for the window; a control message that arrives first, or at the same instant,
  wins. \<open>msgs\<close> are the messages with their times; a handle that is dropped shuts the task down. The result
  is the time of the tick, \<open>None\<close> when the watchdog was shut down.
\<close>

datatype Control = Reset | Shutdown

fun watchdog :: "duration \<Rightarrow> instant \<Rightarrow> (instant \<times> Control) list \<Rightarrow> instant option" where
  "watchdog window armed [] = Some (armed + window)"
| "watchdog window armed ((t, c) # msgs) =
     (if t \<le> armed + window then (case c of Reset \<Rightarrow> watchdog window t msgs | Shutdown \<Rightarrow> None)
      else Some (armed + window))"

text \<open>A tick comes a whole window after the last activity before it, and no message lies between.\<close>

lemma watchdog_tick:
  assumes "watchdog window armed msgs = Some tick" and "sorted (map fst msgs)" and "list_all (\<lambda>(t, _). armed \<le> t) msgs"
  shows "\<exists>last \<in> insert armed (fst ` {m \<in> set msgs. snd m = Reset}). tick = last + window
    \<and> (\<forall>(t, _) \<in> set msgs. t \<le> last \<or> tick < t)"
  using assms
proof (induction window armed msgs rule: watchdog.induct)
  case (2 window armed t c msgs)
  show ?case
  proof (cases "t \<le> armed + window")
    case True
    with "2.prems" have c: "c = Reset" by (auto split: Control.splits)
    have "list_all (\<lambda>(ta, _). t \<le> ta) msgs" using "2.prems"(2) by (auto simp: list_all_iff)
    with "2.IH" [OF True c] "2.prems"(1,2) True c have "\<exists>last \<in> insert t (fst ` {m \<in> set msgs. snd m = Reset}). tick = last + window
        \<and> (\<forall>(t, _) \<in> set msgs. t \<le> last \<or> tick < t)"
      by simp
    then obtain last where l: "last \<in> insert t (fst ` {m \<in> set msgs. snd m = Reset})" "tick = last + window"
      "\<forall>(t, _) \<in> set msgs. t \<le> last \<or> tick < t" by blast
    have "t \<le> last" using l(1) "2.prems"(2) by auto
    moreover have "last \<in> insert armed (fst ` {m \<in> set ((t, c) # msgs). snd m = Reset})" using l(1) c by force
    ultimately show ?thesis using l(2,3) by (intro bexI [of _ last]) auto
  next
    case False
    with "2.prems" show ?thesis by (intro bexI [of _ armed]) auto
  qed
qed simp


end
