(* ===== verification/Secrets.thy ===== *)
theory Secrets
  imports Paths P2P_Crypto Session_Types
begin

section \<open>Secrets\<close>

text \<open>
  \<open>crates/mxdx-secrets/src/store.rs\<close> keeps each secret encrypted to the key of the store, and \<open>coordinator.rs\<close> hands one out
  encrypted to a key that the worker made for the request. The \<open>age\<close> library is a parameter; the
  number that its encryption gets stands for its randomness. The JSON of a stored table is a
  parameter, and so is the order in which the table is written.
\<close>

record ('i, 'r) age_api =
  age_public :: "'i \<Rightarrow> 'r"
  age_parse :: "str \<Rightarrow> (str, 'r) result"
  age_encrypt :: "nat \<Rightarrow> 'r \<Rightarrow> bytes \<Rightarrow> (str, bytes) result"
  age_decrypt :: "'i \<Rightarrow> bytes \<Rightarrow> (str, bytes) result"
  table_ser :: "(str \<times> bytes) list \<Rightarrow> (str, bytes) result"
  table_de :: "bytes \<Rightarrow> (str, (str \<times> bytes) list) result"

subsection \<open>The store\<close>

record ('i, 'r) SecretStore =
  sst_identity :: 'i
  sst_recipient :: 'r
  sst_entries :: "str \<rightharpoonup> bytes"

definition store_new :: "('i, 'r) age_api \<Rightarrow> 'i \<Rightarrow> ('i, 'r) SecretStore" where
  "store_new A identity = \<lparr>sst_identity = identity, sst_recipient = age_public A identity, sst_entries = Map.empty\<rparr>"

definition store_add ::
  "('i, 'r) age_api \<Rightarrow> nat \<Rightarrow> str \<Rightarrow> str \<Rightarrow> ('i, 'r) SecretStore \<Rightarrow> (str, ('i, 'r) SecretStore) result" where
  "store_add A rnd key value s =
     (case age_encrypt A rnd (sst_recipient s) (as_bytes value) of
        Inl e \<Rightarrow> Err (''failed to encrypt secret'')
      | Inr encrypted \<Rightarrow> Okay (s\<lparr>sst_entries := (sst_entries s)(key \<mapsto> encrypted)\<rparr>))"

definition store_get :: "('i, 'r) age_api \<Rightarrow> str \<Rightarrow> ('i, 'r) SecretStore \<Rightarrow> (str, str option) result" where
  "store_get A key s =
     (case sst_entries s key of
        None \<Rightarrow> Okay None
      | Some encrypted \<Rightarrow>
          (case age_decrypt A (sst_identity s) encrypted of
             Inl e \<Rightarrow> Err ''failed to decrypt secret''
           | Inr decrypted \<Rightarrow>
               (case from_utf8 decrypted of
                  None \<Rightarrow> Err ''decrypted value is not valid UTF-8''
                | Some plaintext \<Rightarrow> Okay (Some plaintext))))"

definition serialize_store :: "key_order \<Rightarrow> ('i, 'r) age_api \<Rightarrow> ('i, 'r) SecretStore \<Rightarrow> (str, bytes) result" where
  "serialize_store it A s = table_ser A (map (\<lambda>k. (k, the (sst_entries s k))) (it (dom (sst_entries s))))"

definition deserialize_store :: "('i, 'r) age_api \<Rightarrow> bytes \<Rightarrow> 'i \<Rightarrow> (str, ('i, 'r) SecretStore) result" where
  "deserialize_store A data identity =
     (case table_de A data of
        Inl e \<Rightarrow> Err ''failed to deserialize store''
      | Inr entries \<Rightarrow>
          Okay \<lparr>sst_identity = identity, sst_recipient = age_public A identity, sst_entries = map_of (rev entries)\<rparr>)"

subsection \<open>Requests\<close>

record SecretRequestEvent =
  sre_request_id :: str
  sre_scope :: str
  sre_ttl_seconds :: u64
  sre_reason :: str
  sre_ephemeral_public_key :: str

record SecretResponseEvent =
  srs_request_id :: str
  srs_granted :: bool
  srs_encrypted_value :: "str option"
  srs_error :: "str option"

record ('i, 'r) SecretCoordinator =
  sco_store :: "('i, 'r) SecretStore"
  sco_authorized_scopes :: "str set"

definition denied :: "SecretRequestEvent \<Rightarrow> str \<Rightarrow> SecretResponseEvent" where
  "denied req why =
     \<lparr>srs_request_id = sre_request_id req, srs_granted = False, srs_encrypted_value = None, srs_error = Some why\<rparr>"

definition handle_secret_request ::
  "crypto_lib \<Rightarrow> ('i, 'r) age_api \<Rightarrow> nat \<Rightarrow> ('i, 'r) SecretCoordinator \<Rightarrow> SecretRequestEvent \<Rightarrow> SecretResponseEvent" where
  "handle_secret_request L A rnd co req =
     (if sre_scope req \<notin> sco_authorized_scopes co then denied req (''unauthorized scope: '' @ sre_scope req)
      else
        (case store_get A (sre_scope req) (sco_store co) of
           Inr (Some plaintext) \<Rightarrow>
             (case age_parse A (sre_ephemeral_public_key req) of
                Inl e \<Rightarrow> denied req (''invalid ephemeral public key: '' @ e)
              | Inr recipient \<Rightarrow>
                  (case age_encrypt A rnd recipient (as_bytes plaintext) of
                     Inr sealed \<Rightarrow>
                       \<lparr>srs_request_id = sre_request_id req, srs_granted = True,
                        srs_encrypted_value = Some (b64_encode L sealed), srs_error = None\<rparr>
                   | Inl e \<Rightarrow> denied req (''encryption failed: '' @ e)))
         | Inr None \<Rightarrow> denied req (''secret not found: '' @ sre_scope req)
         | Inl e \<Rightarrow> denied req (''store error: '' @ e)))"

subsection \<open>What is shown of secrets\<close>

text \<open>What the library promises: the holder of an identity decrypts what was encrypted to its
  public key, and a table is read back as it was written.\<close>

definition age_law :: "('i, 'r) age_api \<Rightarrow> bool" where
  "age_law A \<longleftrightarrow>
     (\<forall>n i m c. age_encrypt A n (age_public A i) m = Okay c \<longrightarrow> age_decrypt A i c = Okay m)
     \<and> (\<forall>t bs. table_ser A t = Okay bs \<longrightarrow> table_de A bs = Okay t)"

definition store_ok :: "('i, 'r) age_api \<Rightarrow> ('i, 'r) SecretStore \<Rightarrow> bool" where
  "store_ok A s \<longleftrightarrow> sst_recipient s = age_public A (sst_identity s) \<and> finite (dom (sst_entries s))"

lemma store_new_ok: "store_ok A (store_new A i)"
  by (simp add: store_ok_def store_new_def)

lemma store_add_ok: "store_ok A s \<Longrightarrow> store_add A rnd k v s = Okay s' \<Longrightarrow> store_ok A s'"
  by (auto simp: store_ok_def store_add_def split: sum.splits)

lemma store_get_add:
  assumes "age_law A" and "store_ok A s" and "store_add A rnd k v s = Okay s'" and "utf8_valid (as_bytes v)"
  shows "store_get A k s' = Okay (Some v)" and "k' \<noteq> k \<Longrightarrow> store_get A k' s' = store_get A k' s"
proof -
  obtain c where c: "age_encrypt A rnd (age_public A (sst_identity s)) (as_bytes v) = Okay c"
    and s': "s' = s\<lparr>sst_entries := (sst_entries s)(k \<mapsto> c)\<rparr>"
    using assms(2,3) by (auto simp: store_add_def store_ok_def split: sum.splits)
  from c assms(1) have "age_decrypt A (sst_identity s) c = Okay (as_bytes v)" unfolding age_law_def by blast
  then show "store_get A k s' = Okay (Some v)" using assms(4) by (simp add: s' store_get_def from_utf8_def)
  show "k' \<noteq> k \<Longrightarrow> store_get A k' s' = store_get A k' s" by (simp add: s' store_get_def split: option.split)
qed

lemma map_of_keys: "set ks = dom m \<Longrightarrow> map_of (rev (map (\<lambda>k. (k, the (m k))) ks)) = m"
  by (auto simp: rev_map map_of_map_restrict restrict_map_def fun_eq_iff domIff)

lemma store_restart:
  assumes "age_law A" and "iterates it" and "store_ok A s" and "serialize_store it A s = Okay data"
  shows "deserialize_store A data (sst_identity s) = Okay s"
proof -
  let ?t = "map (\<lambda>k. (k, the (sst_entries s k))) (it (dom (sst_entries s)))"
  have "table_de A data = Okay ?t" using assms(1,4) unfolding age_law_def serialize_store_def by blast
  moreover have "map_of (rev ?t) = sst_entries s"
    using assms(2,3) by (intro map_of_keys) (auto simp: iterates_def store_ok_def)
  ultimately show ?thesis using assms(3) by (simp add: deserialize_store_def store_ok_def)
qed

text \<open>
  A secret reaches the worker that asked for it and nobody gets one without authorization.
  A request is granted if and only if its scope is authorized, the secret is in the store and
  readable, the worker's key can be read and the encryption succeeds; a refusal carries no value and
  every response names its request.
\<close>

lemma secret_granted_iff:
  "(srs_granted (handle_secret_request L A rnd co req) \<longleftrightarrow>
      sre_scope req \<in> sco_authorized_scopes co
      \<and> (\<exists>v r c. store_get A (sre_scope req) (sco_store co) = Okay (Some v)
           \<and> age_parse A (sre_ephemeral_public_key req) = Okay r \<and> age_encrypt A rnd r (as_bytes v) = Okay c))
   \<and> (srs_encrypted_value (handle_secret_request L A rnd co req) = None \<longleftrightarrow> \<not> srs_granted (handle_secret_request L A rnd co req))
   \<and> srs_request_id (handle_secret_request L A rnd co req) = sre_request_id req"
  by (auto simp: handle_secret_request_def denied_def split: sum.split option.split)

text \<open>
  What a worker decrypts is the secret that was stored. After a value has been added to the
  store, and the store written and loaded again, a granted request for it carries a text that
  decodes and decrypts, with the identity whose public key the request named, to the bytes of that
  value.
\<close>

lemma secret_roundtrip:
  assumes "age_law A" and "base64_law L" and "iterates it" and "store_ok A s"
    and "store_add A r1 scope v s = Okay s1" and "utf8_valid (as_bytes v)"
    and "serialize_store it A s1 = Okay data" and "deserialize_store A data (sst_identity s1) = Okay s2"
    and "age_parse A (sre_ephemeral_public_key req) = Okay (age_public A worker)" and "sre_scope req = scope"
    and "srs_encrypted_value (handle_secret_request L A r2 \<lparr>sco_store = s2, sco_authorized_scopes = scopes\<rparr> req) = Some txt"
  shows "\<exists>c. b64_decode L txt = Okay c \<and> age_decrypt A worker c = Okay (as_bytes v)"
proof -
  have "store_ok A s1" by (rule store_add_ok [OF assms(4,5)])
  from store_restart [OF assms(1,3) this assms(7)] assms(8) have "s2 = s1" by simp
  with store_get_add(1) [OF assms(1,4-6)] have get: "store_get A scope s2 = Okay (Some v)" by simp
  then obtain c where "age_encrypt A r2 (age_public A worker) (as_bytes v) = Okay c" "txt = b64_encode L c"
    using assms(9-11) by (auto simp: handle_secret_request_def denied_def split: sum.splits if_splits)
  moreover from this assms(1) have "age_decrypt A worker c = Okay (as_bytes v)" unfolding age_law_def by blast
  ultimately show ?thesis using assms(2) by (auto simp: base64_law_def)
qed

text \<open>A toy library in which a ciphertext is the plaintext behind the number of its key.\<close>

definition demo_age :: "(nat, nat) age_api" where
  "demo_age =
     \<lparr>age_public = (\<lambda>i. i), age_parse = (\<lambda>s. Okay (length s)), age_encrypt = (\<lambda>n r m. Okay (of_nat r # m)),
      age_decrypt = (\<lambda>i c. case c of [] \<Rightarrow> Err ''empty'' | x # m \<Rightarrow> if x = of_nat i then Okay m else Err ''no matching keys''),
      table_ser = (\<lambda>t. case t of [(k, v)] \<Rightarrow> if length k < 256 then Okay (of_nat (length k) # as_bytes k @ v) else Err ''long'' | _ \<Rightarrow> Err ''size''),
      table_de = (\<lambda>bs. case bs of [] \<Rightarrow> Err ''empty'' | n # r \<Rightarrow> Okay [(from_bytes (take (unat n) r), drop (unat n) r)])\<rparr>"

lemma demo_age_law: "age_law demo_age"
proof -
  have "table_de demo_age bs = Okay t" if "table_ser demo_age t = Okay bs" for t bs
  proof -
    from that obtain k v where "t = [(k, v)]" "length k < 256" "bs = of_nat (length k) # as_bytes k @ v"
      by (auto simp: demo_age_def split: list.splits if_splits)
    moreover have "length (as_bytes k) = length k" by (simp add: as_bytes_def)
    ultimately show ?thesis by (simp add: demo_age_def unat_of_nat)
  qed
  moreover have "age_decrypt demo_age i c = Okay m" if "age_encrypt demo_age n (age_public demo_age i) m = Okay c" for n i m c
    using that by (auto simp: demo_age_def)
  ultimately show ?thesis unfolding age_law_def by blast
qed

lemma secret_roundtrip_example:
  "\<exists>c. b64_decode sample_crypto_lib (b64_encode sample_crypto_lib (3 # as_bytes ''hunter2'')) = Okay c
     \<and> age_decrypt demo_age 3 c = Okay (as_bytes ''hunter2'')"
proof -
  let ?s = "store_new demo_age 5"
  let ?s1 = "?s\<lparr>sst_entries := [''db'' \<mapsto> 5 # as_bytes ''hunter2'']\<rparr>"
  let ?req = "\<lparr>sre_request_id = ''r'', sre_scope = ''db'', sre_ttl_seconds = 60, sre_reason = ''x'', sre_ephemeral_public_key = ''abc''\<rparr>"
  let ?data = "2 # as_bytes ''db'' @ 5 # as_bytes ''hunter2''"
  have utf8: "utf8_valid (as_bytes ''hunter2'')" by code_simp
  have add: "store_add demo_age 0 ''db'' ''hunter2'' ?s = Okay ?s1"
    by (simp add: store_add_def store_new_def demo_age_def)
  have ser: "serialize_store sorted_list_of_set demo_age ?s1 = Okay ?data"
    by (simp add: serialize_store_def store_new_def demo_age_def)
  have ok: "store_ok demo_age ?s1" by (simp add: store_ok_def store_new_def demo_age_def)
  have de: "deserialize_store demo_age ?data (sst_identity ?s1) = Okay ?s1"
    by (rule store_restart [OF demo_age_law iterates_sorted ok ser])
  have get: "store_get demo_age ''db'' ?s1 = Okay (Some ''hunter2'')"
    by (rule store_get_add(1) [OF demo_age_law store_new_ok add utf8])
  have req: "srs_encrypted_value (handle_secret_request sample_crypto_lib demo_age 0
      \<lparr>sco_store = ?s1, sco_authorized_scopes = {''db''}\<rparr> ?req) = Some (b64_encode sample_crypto_lib (3 # as_bytes ''hunter2''))"
    using get by (simp add: handle_secret_request_def demo_age_def)
  show ?thesis
    by (rule secret_roundtrip [OF demo_age_law sample_crypto_laws(1) iterates_sorted store_new_ok add utf8 ser de _ _ req])
      (simp_all add: demo_age_def)
qed


end
