(* ===== verification/Config.thy ===== *)
theory Config
  imports Keychain Multi_Hs
begin

section \<open>Configuration\<close>

text \<open>
  The configuration files (\<open>crates/mxdx-types/src/config.rs\<close>) and what worker and client make of them and of the command line
  (\<open>config.rs\<close> of \<open>mxdx-worker\<close> and \<open>mxdx-client\<close>): the accounts to connect with, room names, overrides. A file is absent, unreadable or
  has a content; TOML is a datatype, reading and printing it are parameters, and what serde makes of the
  accounts is written out. Host and user name of the machine are arguments.
\<close>

subsection \<open>Files\<close>

record AccountConfig =
  ac_user_id :: str
  ac_homeserver :: str
  ac_password :: "str option"

record TurnServerConfig =
  tsc_url :: str
  tsc_auth_endpoint :: "str option"
  tsc_username :: "str option"
  tsc_credential :: "str option"

record WebRtcConfig =
  rtc_stun_servers :: "str list"
  rtc_turn_servers :: "TurnServerConfig list"

definition webrtc_default :: WebRtcConfig where
  "webrtc_default = \<lparr>rtc_stun_servers = [''stun:stun.l.google.com:19302''], rtc_turn_servers = []\<rparr>"

record DefaultsConfig =
  df_accounts :: "AccountConfig list"
  df_cross_signing_mode :: CrossSigningMode
  df_webrtc :: WebRtcConfig

definition defaults_default :: DefaultsConfig where
  "defaults_default = \<lparr>df_accounts = [], df_cross_signing_mode = CsAuto, df_webrtc = webrtc_default\<rparr>"

record P2pConfig =
  p2p_enabled :: bool
  p2p_idle_timeout_seconds :: u64

definition p2p_default :: P2pConfig where
  "p2p_default = \<lparr>p2p_enabled = True, p2p_idle_timeout_seconds = 300\<rparr>"

record WorkerConfig =
  wc_room_name :: "str option"
  wc_trust_anchor :: "str option"
  wc_history_retention :: u64
  wc_extra_capabilities :: "str list"
  wc_telemetry_refresh_seconds :: u64
  wc_max_sessions :: u32
  wc_allowed_commands :: "str list"
  wc_allowed_cwd :: "str list"
  wc_authorized_users :: "str list"
  wc_p2p :: P2pConfig

definition worker_config_default :: WorkerConfig where
  "worker_config_default =
     \<lparr>wc_room_name = None, wc_trust_anchor = None, wc_history_retention = 90, wc_extra_capabilities = [],
      wc_telemetry_refresh_seconds = 60, wc_max_sessions = 5, wc_allowed_commands = [], wc_allowed_cwd = [''/tmp''],
      wc_authorized_users = [], wc_p2p = p2p_default\<rparr>"

record SessionDefaults =
  sdf_timeout_seconds :: "u64 option"
  sdf_heartbeat_interval :: u64
  sdf_interactive :: bool
  sdf_no_room_output :: bool

definition session_defaults_default :: SessionDefaults where
  "session_defaults_default =
     \<lparr>sdf_timeout_seconds = None, sdf_heartbeat_interval = 30, sdf_interactive = False, sdf_no_room_output = False\<rparr>"

record WebSocketTransportConfig =
  wst_bind :: str
  wst_port :: u16

record DaemonConfig =
  dc_idle_timeout_seconds :: u64
  dc_profiles :: "str \<rightharpoonup> str list option"
  dc_websocket :: "WebSocketTransportConfig option"

definition daemon_config_default :: DaemonConfig where
  "daemon_config_default = \<lparr>dc_idle_timeout_seconds = 1200, dc_profiles = Map.empty, dc_websocket = None\<rparr>"

record ClientConfig =
  clc_default_worker_room :: "str option"
  clc_coordinator_room :: "str option"
  clc_session :: SessionDefaults
  clc_daemon :: DaemonConfig
  clc_p2p :: P2pConfig

definition client_config_default :: ClientConfig where
  "client_config_default =
     \<lparr>clc_default_worker_room = None, clc_coordinator_room = None, clc_session = session_defaults_default,
      clc_daemon = daemon_config_default, clc_p2p = p2p_default\<rparr>"

type_synonym config_file = "(str, str) result option"

definition load_config :: "(str \<Rightarrow> (str, 'a) result) \<Rightarrow> 'a \<Rightarrow> config_file \<Rightarrow> (str, 'a) result" where
  "load_config from_toml dflt file =
     (case file of None \<Rightarrow> Okay dflt | Some (Inl e) \<Rightarrow> Err e | Some (Inr content) \<Rightarrow> from_toml content)"

definition load_merged_config ::
  "(str \<Rightarrow> (str, 'a) result) \<Rightarrow> 'a \<Rightarrow> (str \<Rightarrow> (str, 'b) result) \<Rightarrow> 'b \<Rightarrow> config_file \<Rightarrow> config_file \<Rightarrow> (str, 'a \<times> 'b) result" where
  "load_merged_config from_d dflt_d from_m dflt_m defaults_file mode_file =
     (case load_config from_d dflt_d defaults_file of
        Inl e \<Rightarrow> Err e
      | Inr defaults \<Rightarrow> map_sum id (\<lambda>mode. (defaults, mode)) (load_config from_m dflt_m mode_file))"

subsection \<open>Passwords in files\<close>

datatype toml = TString str | TArray "toml list" | TTable "(str \<times> toml) list" | TOther str

fun strip_account :: "toml \<Rightarrow> toml" where
  "strip_account (TTable t) = TTable (filter (\<lambda>(k, _). k \<noteq> ''password'') t)"
| "strip_account v = v"

fun strip_accounts :: "toml \<Rightarrow> toml" where
  "strip_accounts (TArray as) = TArray (map strip_account as)"
| "strip_accounts v = v"

fun strip_passwords :: "toml \<Rightarrow> toml" where
  "strip_passwords (TTable t) = TTable (map (\<lambda>(k, v). (k, if k = ''accounts'' then strip_accounts v else v)) t)"
| "strip_passwords v = v"

text \<open>The permissions of the file are set after it was written, so that an error there leaves it rewritten.\<close>

definition remove_passwords_from_config ::
  "(str \<Rightarrow> (str, toml) result) \<Rightarrow> (toml \<Rightarrow> (str, str) result) \<Rightarrow> (str, unit) result \<Rightarrow> (str, unit) result \<Rightarrow> config_file \<Rightarrow>
   (str, unit) result \<times> config_file" where
  "remove_passwords_from_config parse print written chmod file =
     (case file of
        None \<Rightarrow> (Okay (), file)
      | Some (Inl e) \<Rightarrow> (Err e, file)
      | Some (Inr content) \<Rightarrow>
          (case parse content of
             Inl e \<Rightarrow> (Err e, file)
           | Inr doc \<Rightarrow>
               (case print (strip_passwords doc) of
                  Inl e \<Rightarrow> (Err e, file)
                | Inr new_content \<Rightarrow>
                    (case written of Inl e \<Rightarrow> (Err e, file) | Inr _ \<Rightarrow> (chmod, Some (Okay new_content))))))"

text \<open>What serde reads from the accounts of a document: the user and the server are strings that must be there.\<close>

fun toml_str :: "toml option \<Rightarrow> str option" where
  "toml_str (Some (TString s)) = Some s"
| "toml_str _ = None"

fun de_account :: "toml \<Rightarrow> AccountConfig option" where
  "de_account (TTable t) =
     (case (toml_str (map_of t ''user_id''), toml_str (map_of t ''homeserver''), map_of t ''password'') of
        (Some u, Some h, None) \<Rightarrow> Some \<lparr>ac_user_id = u, ac_homeserver = h, ac_password = None\<rparr>
      | (Some u, Some h, Some (TString p)) \<Rightarrow> Some \<lparr>ac_user_id = u, ac_homeserver = h, ac_password = Some p\<rparr>
      | _ \<Rightarrow> None)"
| "de_account _ = None"

fun de_accounts :: "toml \<Rightarrow> AccountConfig list option" where
  "de_accounts (TTable t) =
     (case map_of t ''accounts'' of
        None \<Rightarrow> Some []
      | Some (TArray as) \<Rightarrow> those (map de_account as)
      | Some _ \<Rightarrow> None)"
| "de_accounts _ = None"

subsection \<open>Accounts\<close>

record Credentials =
  crd_homeserver :: str
  crd_username :: str
  crd_password :: str

definition account_localpart :: "str \<Rightarrow> str" where
  "account_localpart user_id = trim_start_matches ''@'' (hd (split_on (CHR '':'') user_id))"

definition creds_account :: "Credentials option \<Rightarrow> ServerAccount list" where
  "creds_account creds =
     (case creds of
        None \<Rightarrow> []
      | Some c \<Rightarrow> [\<lparr>sa_homeserver = crd_homeserver c, sa_username = crd_username c, sa_password = crd_password c,
          sa_danger_accept_invalid_certs = False\<rparr>])"

definition add_account :: "AccountConfig \<Rightarrow> ServerAccount list \<Rightarrow> ServerAccount list" where
  "add_account account accounts =
     (case ac_password account of
        None \<Rightarrow> accounts
      | Some password \<Rightarrow>
          if list_ex (\<lambda>a. sa_homeserver a = ac_homeserver account) accounts then accounts
          else accounts @ [\<lparr>sa_homeserver = ac_homeserver account, sa_username = account_localpart (ac_user_id account),
                 sa_password = password, sa_danger_accept_invalid_certs = False\<rparr>])"

definition resolve_accounts :: "Credentials option \<Rightarrow> DefaultsConfig \<Rightarrow> ServerAccount list" where
  "resolve_accounts creds defaults = fold add_account (df_accounts defaults) (creds_account creds)"

subsection \<open>The worker\<close>

record WorkerArgs =
  wa_trust_anchor :: "str option"
  wa_history_retention :: "u64 option"
  wa_cross_signing_mode :: "str option"
  wa_room_name :: "str option"
  wa_room_id :: "str option"
  wa_homeserver :: "str option"
  wa_username :: "str option"
  wa_password :: "str option"
  wa_force_new_device :: bool
  wa_max_sessions :: "u32 option"
  wa_allowed_commands :: "str list"
  wa_allowed_cwd :: "str list"
  wa_authorized_users :: "str list"

record WorkerRuntimeConfig =
  wr_defaults :: DefaultsConfig
  wr_worker :: WorkerConfig
  wr_resolved_room_name :: str
  wr_credentials :: "Credentials option"
  wr_room_id :: "str option"
  wr_force_new_device :: bool

definition compute_room_name :: "str \<Rightarrow> str \<Rightarrow> DefaultsConfig \<Rightarrow> WorkerConfig \<Rightarrow> str" where
  "compute_room_name host user defaults worker =
     (case wc_room_name worker of
        Some name \<Rightarrow> name
      | None \<Rightarrow>
          (let localpart = (case df_accounts defaults of a # _ \<Rightarrow> account_localpart (ac_user_id a) | [] \<Rightarrow> ''anon'')
           in host @ ''.'' @ user @ ''.'' @ localpart))"

definition worker_from_parts :: "str \<Rightarrow> str \<Rightarrow> DefaultsConfig \<Rightarrow> WorkerConfig \<Rightarrow> WorkerRuntimeConfig" where
  "worker_from_parts host user defaults worker =
     \<lparr>wr_defaults = defaults, wr_worker = worker, wr_resolved_room_name = compute_room_name host user defaults worker,
      wr_credentials = None, wr_room_id = None, wr_force_new_device = False\<rparr>"

definition override :: "'a option \<Rightarrow> 'a \<Rightarrow> 'a" where
  "override x y = (case x of Some v \<Rightarrow> v | None \<Rightarrow> y)"

definition worker_credentials :: "WorkerArgs \<Rightarrow> DefaultsConfig \<Rightarrow> Credentials option" where
  "worker_credentials args defaults =
     (let homeserver = (case wa_homeserver args of
              Some hs \<Rightarrow> Some hs
            | None \<Rightarrow> (case df_accounts defaults of a # _ \<Rightarrow> Some (ac_homeserver a) | [] \<Rightarrow> None))
      in case (homeserver, wa_username args, wa_password args) of
           (Some hs, Some user, Some pass) \<Rightarrow> Some \<lparr>crd_homeserver = hs, crd_username = user, crd_password = pass\<rparr>
         | _ \<Rightarrow> None)"

definition worker_file_overrides :: "WorkerArgs \<Rightarrow> WorkerConfig \<Rightarrow> WorkerConfig" where
  "worker_file_overrides args w =
     w\<lparr>wc_trust_anchor := (case wa_trust_anchor args of Some a \<Rightarrow> Some a | None \<Rightarrow> wc_trust_anchor w),
       wc_history_retention := override (wa_history_retention args) (wc_history_retention w),
       wc_max_sessions := override (wa_max_sessions args) (wc_max_sessions w),
       wc_allowed_commands := wc_allowed_commands w @ wa_allowed_commands args,
       wc_allowed_cwd := wc_allowed_cwd w @ wa_allowed_cwd args,
       wc_authorized_users := wc_authorized_users w @ wa_authorized_users args\<rparr>"

definition worker_with_cli_overrides :: "str \<Rightarrow> str \<Rightarrow> WorkerArgs \<Rightarrow> WorkerRuntimeConfig \<Rightarrow> WorkerRuntimeConfig" where
  "worker_with_cli_overrides host os_user args c =
     (let c = c\<lparr>wr_worker := worker_file_overrides args (wr_worker c),
                wr_resolved_room_name := override (wa_room_name args) (wr_resolved_room_name c),
                wr_room_id := (case wa_room_id args of Some i \<Rightarrow> Some i | None \<Rightarrow> wr_room_id c),
                wr_force_new_device := wa_force_new_device args\<rparr>
      in case worker_credentials args (wr_defaults c) of
           None \<Rightarrow> c
         | Some creds \<Rightarrow>
             (let c = c\<lparr>wr_credentials := Some creds\<rparr>
              in if wa_room_name args = None \<and> df_accounts (wr_defaults c) = [] then
                   c\<lparr>wr_resolved_room_name := host @ ''.'' @ os_user @ ''.'' @ account_localpart (crd_username creds)\<rparr>
                 else c))"

definition worker_resolve_accounts :: "WorkerRuntimeConfig \<Rightarrow> ServerAccount list" where
  "worker_resolve_accounts c = resolve_accounts (wr_credentials c) (wr_defaults c)"

subsection \<open>The client\<close>

record ClientArgs =
  cla_worker_room :: "str option"
  cla_coordinator_room :: "str option"
  cla_timeout :: "u64 option"
  cla_heartbeat_interval :: "u64 option"
  cla_interactive :: bool
  cla_no_room_output :: bool
  cla_homeserver :: "str option"
  cla_username :: "str option"
  cla_password :: "str option"
  cla_force_new_device :: bool

record ClientRuntimeConfig =
  clr_defaults :: DefaultsConfig
  clr_client :: ClientConfig
  clr_credentials :: "Credentials option"
  clr_force_new_device :: bool

definition client_from_parts :: "DefaultsConfig \<Rightarrow> ClientConfig \<Rightarrow> ClientRuntimeConfig" where
  "client_from_parts defaults client =
     \<lparr>clr_defaults = defaults, clr_client = client, clr_credentials = None, clr_force_new_device = False\<rparr>"

definition client_file_overrides :: "ClientArgs \<Rightarrow> ClientConfig \<Rightarrow> ClientConfig" where
  "client_file_overrides args c =
     c\<lparr>clc_default_worker_room := (case cla_worker_room args of Some r \<Rightarrow> Some r | None \<Rightarrow> clc_default_worker_room c),
       clc_coordinator_room := (case cla_coordinator_room args of Some r \<Rightarrow> Some r | None \<Rightarrow> clc_coordinator_room c),
       clc_session := (clc_session c)\<lparr>
         sdf_timeout_seconds := (case cla_timeout args of Some t \<Rightarrow> Some t | None \<Rightarrow> sdf_timeout_seconds (clc_session c)),
         sdf_heartbeat_interval := override (cla_heartbeat_interval args) (sdf_heartbeat_interval (clc_session c))\<rparr>\<rparr>"

definition client_with_cli_overrides :: "ClientArgs \<Rightarrow> ClientRuntimeConfig \<Rightarrow> ClientRuntimeConfig" where
  "client_with_cli_overrides args c =
     c\<lparr>clr_client := client_file_overrides args (clr_client c), clr_force_new_device := cla_force_new_device args,
       clr_credentials :=
         (case (cla_homeserver args, cla_username args, cla_password args) of
            (Some hs, Some user, Some pass) \<Rightarrow> Some \<lparr>crd_homeserver = hs, crd_username = user, crd_password = pass\<rparr>
          | _ \<Rightarrow> clr_credentials c)\<rparr>"

definition require_credentials :: "ClientRuntimeConfig \<Rightarrow> (str, Credentials) result" where
  "require_credentials c =
     (case clr_credentials c of
        Some creds \<Rightarrow> Okay creds
      | None \<Rightarrow> Err (''Matrix credentials required. Set --homeserver, --username, --password ''
          @ ''or MXDX_HOMESERVER, MXDX_USERNAME, MXDX_PASSWORD environment variables.''))"

definition client_resolve_accounts :: "ClientRuntimeConfig \<Rightarrow> ServerAccount list" where
  "client_resolve_accounts c = resolve_accounts (clr_credentials c) (clr_defaults c)"

definition user_at_server :: "ServerAccount \<Rightarrow> str" where
  "user_at_server a =
     ''@'' @ sa_username a @ '':'' @ trim_start_matches ''http://'' (trim_start_matches ''https://'' (sa_homeserver a))"

definition resolve_accounts_for_profile :: "str \<Rightarrow> ClientRuntimeConfig \<Rightarrow> ServerAccount list" where
  "resolve_accounts_for_profile profile c =
     (case Option.bind (dc_profiles (clc_daemon (clr_client c)) profile) (\<lambda>accounts. accounts) of
        Some chosen \<Rightarrow> filter (\<lambda>a. list_ex (\<lambda>f. f = user_at_server a) chosen) (client_resolve_accounts c)
      | None \<Rightarrow> client_resolve_accounts c)"

subsection \<open>One account per server\<close>

fun first_per_server :: "str set \<Rightarrow> AccountConfig list \<Rightarrow> AccountConfig list" where
  "first_per_server seen [] = []"
| "first_per_server seen (a # as) =
     (if ac_password a = None \<or> ac_homeserver a \<in> seen then first_per_server seen as
      else a # first_per_server (insert (ac_homeserver a) seen) as)"

definition server_account :: "AccountConfig \<Rightarrow> ServerAccount" where
  "server_account a =
     \<lparr>sa_homeserver = ac_homeserver a, sa_username = account_localpart (ac_user_id a), sa_password = the (ac_password a),
      sa_danger_accept_invalid_certs = False\<rparr>"

lemma fold_add_account:
  "fold add_account as accs = accs @ map server_account (first_per_server (sa_homeserver ` set accs) as)"
proof (induction as arbitrary: accs)
  case (Cons a as)
  show ?case
  proof (cases "ac_password a")
    case None
    with Cons show ?thesis by (simp add: add_account_def)
  next
    case (Some p)
    show ?thesis
    proof (cases "ac_homeserver a \<in> sa_homeserver ` set accs")
      case True
      with Some have "add_account a accs = accs" by (auto simp: add_account_def list_ex_iff image_iff)
      with True Cons show ?thesis by simp
    next
      case False
      with Some have "add_account a accs = accs @ [server_account a]"
        by (auto simp: add_account_def list_ex_iff image_iff server_account_def)
      with False Some Cons show ?thesis by (simp add: server_account_def)
    qed
  qed
qed simp

lemma first_per_server_distinct:
  "distinct (map ac_homeserver (first_per_server seen as)) \<and> ac_homeserver ` set (first_per_server seen as) \<inter> seen = {}
   \<and> list_all (\<lambda>a. ac_password a \<noteq> None) (first_per_server seen as)"
  by (induction as arbitrary: seen) auto

lemma accounts_one_per_server:
  "resolve_accounts creds defaults =
     creds_account creds @ map server_account (first_per_server (crd_homeserver ` set_option creds) (df_accounts defaults))
   \<and> distinct (map sa_homeserver (resolve_accounts creds defaults))"
proof -
  have servers: "sa_homeserver ` set (creds_account creds) = crd_homeserver ` set_option creds"
    by (cases creds) (simp_all add: creds_account_def)
  have hs: "sa_homeserver \<circ> server_account = ac_homeserver" by (auto simp: server_account_def)
  have "distinct (map sa_homeserver (creds_account creds))" by (cases creds) (simp_all add: creds_account_def)
  moreover have "resolve_accounts creds defaults =
     creds_account creds @ map server_account (first_per_server (crd_homeserver ` set_option creds) (df_accounts defaults))"
    by (simp add: resolve_accounts_def fold_add_account servers)
  moreover have "sa_homeserver ` server_account ` S = ac_homeserver ` S" for S by (force simp: server_account_def)
  ultimately show ?thesis
    using first_per_server_distinct [of "crd_homeserver ` set_option creds" "df_accounts defaults"]
    by (auto simp: hs servers Int_commute)
qed

subsection \<open>A start after passwords were removed\<close>

lemma map_of_filter_other: "k \<noteq> ''password'' \<Longrightarrow> map_of (filter (\<lambda>(k, _). k \<noteq> ''password'') t) k = map_of t k"
  by (induction t) auto

lemma map_of_filter_password: "map_of (filter (\<lambda>(k, _). k \<noteq> ''password'') t) ''password'' = None"
  by (induction t) auto

lemma de_strip_account:
  "de_account v = Some a \<Longrightarrow> de_account (strip_account v) = Some (a\<lparr>ac_password := None\<rparr>)"
  by (cases v) (auto simp: map_of_filter_other map_of_filter_password split: option.splits toml.splits)

lemma those_strip:
  "those (map de_account as) = Some xs \<Longrightarrow>
   those (map (\<lambda>v. de_account (strip_account v)) as) = Some (map (\<lambda>a. a\<lparr>ac_password := None\<rparr>) xs)"
  by (induction as arbitrary: xs) (auto simp: de_strip_account split: option.splits)

lemma map_of_strip:
  "map_of (map (\<lambda>(k, v). (k, if k = ''accounts'' then strip_accounts v else v)) t) ''accounts''
     = map_option strip_accounts (map_of t ''accounts'')"
  by (induction t) auto

lemma de_strip_passwords:
  "de_accounts doc = Some xs \<Longrightarrow> de_accounts (strip_passwords doc) = Some (map (\<lambda>a. a\<lparr>ac_password := None\<rparr>) xs)"
  by (cases doc) (auto simp: map_of_strip those_strip comp_def split: option.splits toml.splits)

lemma first_per_server_none:
  "list_all (\<lambda>a. ac_password a = None) as \<Longrightarrow> first_per_server seen as = []"
  by (induction as) auto

text \<open>
  C28. Accounts of the configuration file are used once. After the passwords were removed from a file, which worker and client do after the
  first login with them, the file still names every account, but none of them is resolved any more:
  a start without credentials on its command line has no account at all, although the passwords
  are in the keychain, which nothing reads them from.
\<close>

theorem stripped_accounts_unusable:
  assumes "parse content = Okay doc" and "de_accounts doc = Some accounts"
    and "remove_passwords_from_config parse print (Okay ()) (Okay ()) (Some (Okay content)) = (Okay (), Some (Okay content'))"
    and "\<forall>d t. print d = Okay t \<longrightarrow> parse t = Okay d"
  shows "\<exists>doc' accounts'. parse content' = Okay doc' \<and> de_accounts doc' = Some accounts'
    \<and> map ac_user_id accounts' = map ac_user_id accounts \<and> map ac_homeserver accounts' = map ac_homeserver accounts
    \<and> (\<forall>creds defaults. df_accounts defaults = accounts' \<longrightarrow> resolve_accounts creds defaults = creds_account creds)
    \<and> (\<forall>defaults worker args host user. df_accounts defaults = accounts' \<and> wa_password args = None \<longrightarrow>
         worker_resolve_accounts (worker_with_cli_overrides host user args (worker_from_parts host user defaults worker)) = [])"
proof -
  from assms(1,3) have print: "print (strip_passwords doc) = Okay content'"
    by (auto simp: remove_passwords_from_config_def split: sum.splits)
  let ?as = "map (\<lambda>a. a\<lparr>ac_password := None\<rparr>) accounts"
  have doc': "parse content' = Okay (strip_passwords doc)" using assms(4) print by blast
  have acc: "de_accounts (strip_passwords doc) = Some ?as" by (rule de_strip_passwords [OF assms(2)])
  have none: "resolve_accounts creds defaults = creds_account creds" if "df_accounts defaults = ?as" for creds defaults
    using that by (simp add: accounts_one_per_server first_per_server_none list_all_iff)
  moreover have "worker_resolve_accounts (worker_with_cli_overrides host user args (worker_from_parts host user defaults worker)) = []"
    if "df_accounts defaults = ?as" "wa_password args = None" for defaults worker args host user
    using that none by (simp add: worker_resolve_accounts_def worker_with_cli_overrides_def worker_from_parts_def worker_credentials_def
        Let_def creds_account_def split: option.split)
  ultimately show ?thesis using doc' acc by (intro exI [of _ "strip_passwords doc"] exI [of _ ?as]) (auto simp: comp_def)
qed

definition demo_toml :: toml where
  "demo_toml = TTable [(''accounts'', TArray [TTable [(''user_id'', TString ''@w:h''), (''homeserver'', TString ''https://h''),
     (''password'', TString ''secret'')]])]"

definition demo_parse :: "str \<Rightarrow> (str, toml) result" where
  "demo_parse t = (if t = ''A'' then Okay demo_toml else Okay (strip_passwords demo_toml))"

definition demo_print :: "toml \<Rightarrow> (str, str) result" where
  "demo_print d = (if d = strip_passwords demo_toml then Okay ''B'' else Err '''')"

theorem stripped_accounts_unusable_witness:
  "resolve_accounts None (defaults_default\<lparr>df_accounts := [\<lparr>ac_user_id = ''@w:h'', ac_homeserver = ''https://h'', ac_password = Some ''secret''\<rparr>]\<rparr>) \<noteq> []
   \<and> resolve_accounts None (defaults_default\<lparr>df_accounts := [\<lparr>ac_user_id = ''@w:h'', ac_homeserver = ''https://h'', ac_password = None\<rparr>]\<rparr>) = []"
proof -
  let ?a = "\<lparr>ac_user_id = ''@w:h'', ac_homeserver = ''https://h'', ac_password = Some ''secret''\<rparr>"
  have doc: "demo_parse ''A'' = Okay demo_toml" "de_accounts demo_toml = Some [?a]"
    by (simp_all add: demo_parse_def demo_toml_def)
  have removed: "remove_passwords_from_config demo_parse demo_print (Okay ()) (Okay ()) (Some (Okay ''A'')) = (Okay (), Some (Okay ''B''))"
    by (simp add: remove_passwords_from_config_def demo_parse_def demo_print_def)
  have law: "\<forall>d t. demo_print d = Okay t \<longrightarrow> demo_parse t = Okay d" by (auto simp: demo_print_def demo_parse_def split: if_splits)
  have stripped: "demo_parse ''B'' = Okay (strip_passwords demo_toml)"
    "de_accounts (strip_passwords demo_toml) = Some [?a\<lparr>ac_password := None\<rparr>]"
    by (simp_all add: demo_parse_def demo_toml_def)
  from stripped_accounts_unusable [OF doc removed law] stripped
  have "resolve_accounts creds defaults = creds_account creds" if "df_accounts defaults = [?a\<lparr>ac_password := None\<rparr>]" for creds defaults
    using that by auto
  then show ?thesis by (simp add: creds_account_def) (simp add: resolve_accounts_def add_account_def creds_account_def defaults_default_def)
qed

text \<open>Two accounts on one server: the second is never used, whichever account the command line names. The list of interactive
  defaults and the mode of cross-signing on the command line have no effect.\<close>

lemma second_account_dropped:
  assumes "ac_homeserver a = ac_homeserver b" and "ac_password a \<noteq> None"
  shows "resolve_accounts None (d\<lparr>df_accounts := [a, b]\<rparr>) = resolve_accounts None (d\<lparr>df_accounts := [a]\<rparr>)"
  using assms by (simp add: accounts_one_per_server creds_account_def)

lemma interactive_flag_ignored:
  "client_with_cli_overrides (args\<lparr>cla_interactive := b, cla_no_room_output := b'\<rparr>) c = client_with_cli_overrides args c"
  by (simp add: client_with_cli_overrides_def client_file_overrides_def)

lemma cross_signing_flag_ignored:
  "worker_with_cli_overrides host user (args\<lparr>wa_cross_signing_mode := m\<rparr>) c = worker_with_cli_overrides host user args c"
  by (simp add: worker_with_cli_overrides_def worker_file_overrides_def worker_credentials_def Let_def split: option.split)

lemma profile_accounts_subset:
  "set (resolve_accounts_for_profile profile c) \<subseteq> set (client_resolve_accounts c)"
  by (auto simp: resolve_accounts_for_profile_def split: option.split)

text \<open>An allow-list of the command line extends the one of the file, so that it never takes a permission away; and the first
  user on the list of authorized users closes a worker that was open to everybody.\<close>

lemma overrides_extend:
  "set (wc_allowed_commands w) \<subseteq> set (wc_allowed_commands (worker_file_overrides args w))
   \<and> set (wc_allowed_cwd w) \<subseteq> set (wc_allowed_cwd (worker_file_overrides args w))
   \<and> set (wc_authorized_users w) \<subseteq> set (wc_authorized_users (worker_file_overrides args w))"
  by (auto simp: worker_file_overrides_def)

end
