(* ===== verification/Worker_Loop.thy ===== *)
theory Worker_Loop
  imports Config Worker_Session Worker_Exec
begin

section \<open>The loop of a worker\<close>

text \<open>
  The dispatch of \<open>run_worker\<close> in \<open>crates/mxdx-worker/src/lib.rs\<close>: the events of one sync, then the sessions whose process has
  ended; the conversion of room events (\<open>matrix.rs\<close>) and the file of active sessions (\<open>session_persist.rs\<close>). It puts
  together the session manager, the multiplexer and the command validation. The world of one round
  (outcomes of room calls by their number, tmux, file system, clock) is a parameter. An \<open>Err\<close> is the error with
  which \<open>run_worker\<close> returns; what was done up to then remains in the state. Posted values are the typed events
  instead of their JSON.
\<close>

subsection \<open>State and world\<close>

record worker_setup =
  wl_config :: WorkerConfig
  wl_device_id :: str
  wl_room_id :: str

datatype worker_post =
  PostResult str SessionResult
| PostStart str SessionStart
| PostOutput str SessionOutput
| WriteActive str ActiveSessionState
| WriteCompleted str CompletedSessionState
| RemoveActive str

record PersistedSession =
  ps_uuid :: str
  ps_tmux_session :: str
  ps_bin :: str
  ps_args :: "str list"
  ps_started_at :: str
  ps_thread_root :: "str option"

record worker_state =
  ws_manager :: SessionManager
  ws_thread_roots :: "str \<rightharpoonup> str"
  ws_mux :: SessionMux
  ws_calls :: nat
  ws_posts :: "worker_post list"
  ws_spawned :: "(str \<times> ValidatedCommand) list"
  ws_killed :: "str list"
  ws_file :: "PersistedSession list option"

record 'v worker_world =
  ww_order :: key_order
  ww_fs :: file_system
  ww_lib :: crypto_lib
  ww_clock :: "u64 option"
  ww_call :: "nat \<Rightarrow> (str, unit) result"
  ww_tmux_create :: "str \<Rightarrow> ValidatedCommand \<Rightarrow> (str, TmuxSession) result"
  ww_tmux_kill :: "str \<Rightarrow> (str, unit) result"
  ww_tmux_alive :: "str \<Rightarrow> (str, bool) result"
  ww_tmux_capture :: "str \<Rightarrow> str option"
  ww_exit_code :: "str \<Rightarrow> 32 word option"
  ww_file_write :: bool
  ww_show_exec :: "ExecError \<Rightarrow> str"
  ww_show_session :: "SessionError \<Rightarrow> str"
  ww_de_task :: "'v \<Rightarrow> (str, SessionTask) result"

definition worker_start :: "worker_setup \<Rightarrow> worker_state" where
  "worker_start C =
     \<lparr>ws_manager = manager_new (wl_device_id C), ws_thread_roots = Map.empty, ws_mux = mux_new, ws_calls = 0, ws_posts = [],
      ws_spawned = [], ws_killed = [], ws_file = None\<rparr>"

text \<open>The question mark of the source.\<close>

definition and_then_s :: "('e, 'a) result \<times> 's \<Rightarrow> ('a \<Rightarrow> 's \<Rightarrow> ('e, 'b) result \<times> 's) \<Rightarrow> ('e, 'b) result \<times> 's" where
  "and_then_s r f = (case r of (Inl e, s) \<Rightarrow> (Err e, s) | (Inr a, s) \<Rightarrow> f a s)"

definition post :: "'v worker_world \<Rightarrow> worker_post \<Rightarrow> worker_state \<Rightarrow> (str, unit) result \<times> worker_state" where
  "post W p s =
     (let r = ww_call W (ws_calls s)
      in (r, s\<lparr>ws_calls := ws_calls s + 1, ws_posts := ws_posts s @ (case r of Inl _ \<Rightarrow> [] | Inr _ \<Rightarrow> [p])\<rparr>))"

subsection \<open>Events of the room\<close>

datatype 'v IncomingEvent =
  TaskSubmission str 'v
| SessionInput str 'v
| SessionSignalled str 'v
| SessionResized str 'v
| SessionCancelled str 'v

record 'v raw_api =
  raw_get :: "'v \<Rightarrow> str \<Rightarrow> 'v option"
  raw_str :: "'v \<Rightarrow> str option"
  raw_empty :: 'v

definition incoming :: "'v raw_api \<Rightarrow> 'v \<Rightarrow> 'v IncomingEvent option" where
  "incoming A event =
     (let fld = (\<lambda>v k. case Option.bind (raw_get A v k) (raw_str A) of Some t \<Rightarrow> t | None \<Rightarrow> '''');
          event_type = fld event ''type'';
          content = (case raw_get A event ''content'' of Some c \<Rightarrow> c | None \<Rightarrow> raw_empty A);
          session_uuid = fld content ''session_uuid''
      in if event_type = ''org.mxdx.session.task'' then Some (TaskSubmission (fld event ''event_id'') content)
         else if event_type = ''org.mxdx.session.input'' then Some (SessionInput session_uuid content)
         else if event_type = ''org.mxdx.session.signal'' then Some (SessionSignalled session_uuid content)
         else if event_type = ''org.mxdx.session.resize'' then Some (SessionResized session_uuid content)
         else if event_type = ''org.mxdx.session.cancel'' then Some (SessionCancelled session_uuid content)
         else None)"

definition worker_sync_events :: "'v raw_api \<Rightarrow> 'v list \<Rightarrow> 'v IncomingEvent list" where
  "worker_sync_events A raw_events = List.map_filter (incoming A) raw_events"

subsection \<open>The file of active sessions\<close>

definition persisted_session :: "(str \<rightharpoonup> str) \<Rightarrow> Session \<Rightarrow> PersistedSession" where
  "persisted_session roots s =
     \<lparr>ps_uuid = se_uuid s, ps_tmux_session = se_uuid s, ps_bin = st_bin (se_task s), ps_args = st_args (se_task s),
      ps_started_at = show_nat (unat (se_started_at s)), ps_thread_root = roots (se_uuid s)\<rparr>"

definition persist_active_sessions :: "'v worker_world \<Rightarrow> worker_state \<Rightarrow> worker_state" where
  "persist_active_sessions W s =
     (let persisted = map (persisted_session (ws_thread_roots s)) (active_sessions (ww_order W) (ws_manager s))
      in if \<not> ww_file_write W then s
         else if persisted = [] then s\<lparr>ws_file := None\<rparr>
         else s\<lparr>ws_file := Some persisted\<rparr>)"

text \<open>
  The file as \<open>load_sessions\<close> finds it: an \<open>Err\<close> when it cannot be read or decoded, \<open>None\<close> when there is none.
  A failed write leaves it as it was. \<open>recover_sessions\<close> keeps the sessions that still answer and writes them back.
\<close>

definition load_sessions :: "(str, PersistedSession list option) result \<Rightarrow> (str, PersistedSession list) result" where
  "load_sessions file = (case file of Inl e \<Rightarrow> Err e | Inr None \<Rightarrow> Okay [] | Inr (Some sessions) \<Rightarrow> Okay sessions)"

definition save_sessions ::
  "(str, unit) result \<Rightarrow> PersistedSession list \<Rightarrow> (str, PersistedSession list option) result \<Rightarrow>
   (str, unit) result \<times> (str, PersistedSession list option) result" where
  "save_sessions written sessions file =
     (case written of Inl e \<Rightarrow> (Err e, file) | Inr _ \<Rightarrow> (Okay (), Okay (Some sessions)))"

definition recover_sessions ::
  "(str \<Rightarrow> bool) \<Rightarrow> (str, unit) result \<Rightarrow> (str, PersistedSession list option) result \<Rightarrow>
   (str, PersistedSession list) result \<times> (str, PersistedSession list option) result" where
  "recover_sessions alive written file =
     (case load_sessions file of
        Inl e \<Rightarrow> (Err e, file)
      | Inr sessions \<Rightarrow>
          (let alive_sessions = filter (\<lambda>p. alive (ps_tmux_session p)) sessions
           in case save_sessions written alive_sessions file of
                (Inl e, f) \<Rightarrow> (Err e, f)
              | (Inr _, f) \<Rightarrow> (Okay alive_sessions, f)))"

lemma recover_sessions_idem:
  assumes "recover_sessions alive (Okay ()) file = (Okay ps, file')"
  shows "recover_sessions alive (Okay ()) file' = (Okay ps, file') \<and> list_all (\<lambda>p. alive (ps_tmux_session p)) ps"
  using assms by (auto simp: recover_sessions_def load_sessions_def save_sessions_def list_all_iff Let_def split: sum.splits option.splits)

subsection \<open>A task\<close>

definition rejection :: "worker_setup \<Rightarrow> SessionTask \<Rightarrow> str \<Rightarrow> SessionResult" where
  "rejection C task why =
     \<lparr>sr_session_uuid = st_uuid task, sr_worker_id = wl_device_id C, sr_status = StFailed, sr_exit_code = Some 1,
      sr_duration_seconds = 0, sr_tail = Some why\<rparr>"

definition authorized :: "worker_setup \<Rightarrow> SessionTask \<Rightarrow> bool" where
  "authorized C task \<longleftrightarrow> wc_authorized_users (wl_config C) = [] \<or> list_ex (\<lambda>u. u = st_sender_id task) (wc_authorized_users (wl_config C))"

definition validated :: "worker_setup \<Rightarrow> 'v worker_world \<Rightarrow> SessionTask \<Rightarrow> (ExecError, ValidatedCommand) result" where
  "validated C W task =
     validate_command (ww_fs W) (ww_order W) (st_bin task) (st_args task) (st_env task) (st_cwd task)
       (wc_allowed_commands (wl_config C)) (wc_allowed_cwd (wl_config C))"

definition announce_session ::
  "worker_setup \<Rightarrow> 'v worker_world \<Rightarrow> str \<Rightarrow> str \<Rightarrow> ActiveSessionState \<Rightarrow> worker_state \<Rightarrow> (str, unit) result \<times> worker_state" where
  "announce_session C W event_id uuid active_state s =
     and_then_s (post W (WriteActive uuid active_state) s) (\<lambda>_ s.
       case ww_clock W of
         None \<Rightarrow> (Err ''clock before epoch'', s)
       | Some now \<Rightarrow>
           post W (PostStart event_id \<lparr>sg_session_uuid = uuid, sg_worker_id = wl_device_id C, sg_tmux_session = Some uuid,
             sg_pid = None, sg_started_at = now, sg_dm_room_id = None\<rparr>) s)"

definition register_session :: "worker_setup \<Rightarrow> 'v worker_world \<Rightarrow> SessionTask \<Rightarrow> worker_state \<Rightarrow> worker_state" where
  "register_session C W task s =
     (let s = persist_active_sessions W s
      in if st_interactive task then s\<lparr>ws_mux := add_session (st_uuid task) (wl_room_id C) (st_sender_id task) (ws_mux s)\<rparr> else s)"

definition run_process ::
  "worker_setup \<Rightarrow> 'v worker_world \<Rightarrow> SessionTask \<Rightarrow> ValidatedCommand \<Rightarrow> worker_state \<Rightarrow> (str, unit) result \<times> worker_state" where
  "run_process C W task v s =
     (case ww_tmux_create W (st_uuid task) v of
        Inl e \<Rightarrow> (Err e, s)
      | Inr tmux \<Rightarrow>
          (let s = s\<lparr>ws_spawned := ws_spawned s @ [(st_uuid task, v)]\<rparr>
           in case mark_running (st_uuid task) None tmux (ws_manager s) of
                (Inl e, m) \<Rightarrow> (Err (ww_show_session W e), s\<lparr>ws_manager := m\<rparr>)
              | (Inr _, m) \<Rightarrow> (Okay (), register_session C W task (s\<lparr>ws_manager := m\<rparr>))))"

definition start_session ::
  "worker_setup \<Rightarrow> 'v worker_world \<Rightarrow> str \<Rightarrow> SessionTask \<Rightarrow> ValidatedCommand \<Rightarrow> worker_state \<Rightarrow> (str, unit) result \<times> worker_state" where
  "start_session C W event_id task v s =
     (case claim (ww_clock W) task (ws_manager s) of
        (Inl e, m) \<Rightarrow> (Err (ww_show_session W e), s\<lparr>ws_manager := m\<rparr>)
      | (Inr active_state, m) \<Rightarrow>
          and_then_s (announce_session C W event_id (st_uuid task) active_state (s\<lparr>ws_manager := m\<rparr>)) (\<lambda>_ s.
            run_process C W task v (s\<lparr>ws_thread_roots := (ws_thread_roots s)(st_uuid task \<mapsto> event_id)\<rparr>)))"

definition handle_task_submission ::
  "worker_setup \<Rightarrow> 'v worker_world \<Rightarrow> str \<Rightarrow> SessionTask \<Rightarrow> worker_state \<Rightarrow> (str, unit) result \<times> worker_state" where
  "handle_task_submission C W event_id task s =
     (if \<not> authorized C task then post W (PostResult event_id (rejection C task ''Unauthorized sender'')) s
      else if length (active_sessions (ww_order W) (ws_manager s)) \<ge> unat (wc_max_sessions (wl_config C)) then
        post W (PostResult event_id (rejection C task
          (''Session limit reached ('' @ show_nat (unat (wc_max_sessions (wl_config C))) @ '' max)''))) s
      else
        (case validated C W task of
           Inl e \<Rightarrow> post W (PostResult event_id (rejection C task (''Command validation failed: '' @ ww_show_exec W e))) s
         | Inr v \<Rightarrow>
             if contains_session (ws_manager s) (st_uuid task) \<or> ws_thread_roots s (st_uuid task) \<noteq> None then (Okay (), s)
             else start_session C W event_id task v s))"

definition handle_cancel :: "'v worker_world \<Rightarrow> str \<Rightarrow> worker_state \<Rightarrow> (str, unit) result \<times> worker_state" where
  "handle_cancel W uuid s =
     (case Option.bind (manager_get (ws_manager s) uuid) se_tmux of
        None \<Rightarrow> (Okay (), s)
      | Some tmux \<Rightarrow> (ww_tmux_kill W uuid, s\<lparr>ws_killed := ws_killed s @ [uuid]\<rparr>))"

fun handle_incoming :: "worker_setup \<Rightarrow> 'v worker_world \<Rightarrow> 'v IncomingEvent \<Rightarrow> worker_state \<Rightarrow> (str, unit) result \<times> worker_state" where
  "handle_incoming C W (TaskSubmission event_id content) s =
     (case ww_de_task W content of Inl e \<Rightarrow> (Err e, s) | Inr task \<Rightarrow> handle_task_submission C W event_id task s)"
| "handle_incoming C W (SessionCancelled uuid _) s = handle_cancel W uuid s"
| "handle_incoming C W (SessionInput _ _) s = (Okay (), s)"
| "handle_incoming C W (SessionSignalled _ _) s = (Okay (), s)"
| "handle_incoming C W (SessionResized _ _) s = (Okay (), s)"

fun handle_all :: "('a \<Rightarrow> 's \<Rightarrow> (str, unit) result \<times> 's) \<Rightarrow> 'a list \<Rightarrow> 's \<Rightarrow> (str, unit) result \<times> 's" where
  "handle_all f [] s = (Okay (), s)"
| "handle_all f (x # xs) s = and_then_s (f x s) (\<lambda>_ s. handle_all f xs s)"

subsection \<open>Sessions whose process has ended\<close>

text \<open>\<open>chars().take(n)\<close> on UTF-8 bytes.\<close>

fun take_chars :: "nat \<Rightarrow> str \<Rightarrow> str" where
  "take_chars n [] = []"
| "take_chars n (c # cs) =
     (if cont_byte (of_char c) then c # take_chars n cs
      else (case n of 0 \<Rightarrow> [] | Suc k \<Rightarrow> c # take_chars k cs))"

definition post_final_output ::
  "worker_setup \<Rightarrow> 'v worker_world \<Rightarrow> str \<Rightarrow> str \<Rightarrow> worker_state \<Rightarrow> (str, unit) result \<times> worker_state" where
  "post_final_output C W uuid final_output s =
     (if trim final_output \<noteq> [] then
        (case ws_thread_roots s uuid of
           None \<Rightarrow> (Okay (), s)
         | Some thread_root \<Rightarrow>
             (case ww_clock W of
                None \<Rightarrow> (Err ''clock before epoch'', s)
              | Some now \<Rightarrow>
                  post W (PostOutput thread_root \<lparr>so_session_uuid = uuid, so_worker_id = wl_device_id C, so_stream = Stdout,
                    so_data = b64_encode (ww_lib W) (as_bytes final_output), so_seq = 0, so_timestamp = now\<rparr>) s))
      else (Okay (), s))"

definition post_session_result ::
  "worker_setup \<Rightarrow> 'v worker_world \<Rightarrow> str \<Rightarrow> SessionResult \<Rightarrow> worker_state \<Rightarrow> (str, unit) result \<times> worker_state" where
  "post_session_result C W uuid result s =
     (case ws_thread_roots s uuid of
        None \<Rightarrow> (Okay (), s)
      | Some thread_root \<Rightarrow> post W (PostResult thread_root result) s)"

definition record_completion ::
  "'v worker_world \<Rightarrow> str \<Rightarrow> CompletedSessionState \<Rightarrow> worker_state \<Rightarrow> (str, unit) result \<times> worker_state" where
  "record_completion W uuid completed s =
     and_then_s (post W (WriteCompleted uuid completed) s) (\<lambda>_ s.
       and_then_s (post W (RemoveActive uuid) s) (\<lambda>_ s.
         (Okay (), persist_active_sessions W (s\<lparr>ws_mux := remove_session uuid (ws_mux s)\<rparr>))))"

definition finish_session ::
  "worker_setup \<Rightarrow> 'v worker_world \<Rightarrow> str \<Rightarrow> worker_state \<Rightarrow> (str, unit) result \<times> worker_state" where
  "finish_session C W uuid s =
     (let final_output = (case ww_tmux_capture W uuid of Some t \<Rightarrow> t | None \<Rightarrow> '''');
          exit_code = (case ww_exit_code W uuid of Some c \<Rightarrow> Some c | None \<Rightarrow> Some 0);
          status = (if exit_code = Some 0 then StSuccess else StFailed)
      in and_then_s (post_final_output C W uuid final_output s) (\<lambda>_ s.
           case complete (ww_clock W) uuid status exit_code (ws_manager s) of
             (Inl e, m) \<Rightarrow> (Err (ww_show_session W e), s\<lparr>ws_manager := m\<rparr>)
           | (Inr completed, m) \<Rightarrow>
               and_then_s (post_session_result C W uuid \<lparr>sr_session_uuid = uuid, sr_worker_id = wl_device_id C, sr_status = status,
                   sr_exit_code = exit_code, sr_duration_seconds = cs_duration_seconds completed,
                   sr_tail = Some (take_chars 1024 final_output)\<rparr> (s\<lparr>ws_manager := m\<rparr>))
                 (\<lambda>_ s. record_completion W uuid completed s)))"

definition check_session ::
  "worker_setup \<Rightarrow> 'v worker_world \<Rightarrow> str \<Rightarrow> worker_state \<Rightarrow> (str, unit) result \<times> worker_state" where
  "check_session C W uuid s =
     (case Option.bind (manager_get (ws_manager s) uuid) se_tmux of
        None \<Rightarrow> (Okay (), s)
      | Some tmux \<Rightarrow>
          and_then_s (ww_tmux_alive W uuid, s) (\<lambda>alive s. if alive then (Okay (), s) else finish_session C W uuid s))"

definition worker_round ::
  "worker_setup \<Rightarrow> 'v worker_world \<Rightarrow> 'v IncomingEvent list \<Rightarrow> worker_state \<Rightarrow> (str, unit) result \<times> worker_state" where
  "worker_round C W events s =
     and_then_s (handle_all (handle_incoming C W) events s) (\<lambda>_ s.
       handle_all (check_session C W) (map se_uuid (active_sessions (ww_order W) (ws_manager s))) s)"

fun worker_run ::
  "worker_setup \<Rightarrow> ('v worker_world \<times> 'v IncomingEvent list) list \<Rightarrow> worker_state \<Rightarrow> (str, unit) result \<times> worker_state" where
  "worker_run C [] s = (Okay (), s)"
| "worker_run C ((W, events) # rounds) s = and_then_s (worker_round C W events s) (\<lambda>_ s. worker_run C rounds s)"

subsection \<open>What a worker starts\<close>

lemma and_then_s_simps [simp]: "and_then_s (Inl e, s) f = (Err e, s)" "and_then_s (Inr a, s) f = f a s"
  by (simp_all add: and_then_s_def)

text \<open>Every process that was started has a reason \<open>P\<close>, and no task was started twice.\<close>

definition starts_ok :: "(str \<Rightarrow> ValidatedCommand \<Rightarrow> bool) \<Rightarrow> worker_state \<Rightarrow> bool" where
  "starts_ok P s \<longleftrightarrow> distinct (map fst (ws_spawned s)) \<and> fst ` set (ws_spawned s) \<subseteq> dom (ws_thread_roots s)
     \<and> list_all (\<lambda>(uuid, v). P uuid v) (ws_spawned s)"

lemma starts_and_then:
  assumes "starts_ok P (snd r)" and "\<And>a s. starts_ok P s \<Longrightarrow> starts_ok P (snd (f a s))"
  shows "starts_ok P (snd (and_then_s r f))"
  using assms by (cases r; cases "fst r") (auto simp: and_then_s_def)

lemma starts_handle_all:
  "(\<And>x s. x \<in> set xs \<Longrightarrow> starts_ok P s \<Longrightarrow> starts_ok P (snd (f x s))) \<Longrightarrow>
   starts_ok P s \<Longrightarrow> starts_ok P (snd (handle_all f xs s))"
  by (induction xs arbitrary: s) (simp_all add: starts_and_then)

lemma starts_ok_same [simp]:
  "starts_ok P (s\<lparr>ws_manager := m\<rparr>) \<longleftrightarrow> starts_ok P s" "starts_ok P (s\<lparr>ws_mux := mx\<rparr>) \<longleftrightarrow> starts_ok P s"
  "starts_ok P (s\<lparr>ws_file := fl\<rparr>) \<longleftrightarrow> starts_ok P s" "starts_ok P (s\<lparr>ws_killed := ks\<rparr>) \<longleftrightarrow> starts_ok P s"
  "starts_ok P (snd (post W p s)) \<longleftrightarrow> starts_ok P s" "starts_ok P (persist_active_sessions W s) \<longleftrightarrow> starts_ok P s"
  by (simp_all add: starts_ok_def post_def persist_active_sessions_def Let_def)

lemma post_final_output_starts: "starts_ok P s \<Longrightarrow> starts_ok P (snd (post_final_output C' W uuid txt s))"
  by (simp add: post_final_output_def split: option.split)

lemma post_session_result_starts: "starts_ok P s \<Longrightarrow> starts_ok P (snd (post_session_result C' W uuid res s))"
  by (simp add: post_session_result_def split: option.split)

lemma record_completion_starts: "starts_ok P s \<Longrightarrow> starts_ok P (snd (record_completion W uuid completed s))"
  by (simp add: record_completion_def starts_and_then)

lemma finish_session_starts: "starts_ok P s \<Longrightarrow> starts_ok P (snd (finish_session C' W uuid s))"
  unfolding finish_session_def Let_def
  by (intro starts_and_then post_final_output_starts)
    (auto intro!: starts_and_then post_session_result_starts record_completion_starts split: prod.split sum.split)

lemma check_session_starts: "starts_ok P s \<Longrightarrow> starts_ok P (snd (check_session C' W uuid s))"
  by (simp add: check_session_def finish_session_starts starts_and_then split: option.split)

lemma announce_roots: "ws_thread_roots (snd (announce_session C W event_id uuid a s)) = ws_thread_roots s"
  by (auto simp: announce_session_def and_then_s_def post_def Let_def split: sum.split option.split)

lemma announce_spawned: "ws_spawned (snd (announce_session C W event_id uuid a s)) = ws_spawned s"
  by (auto simp: announce_session_def and_then_s_def post_def Let_def split: sum.split option.split)

lemma run_process_starts:
  assumes "starts_ok P s" and "st_uuid task \<notin> fst ` set (ws_spawned s)" and "st_uuid task \<in> dom (ws_thread_roots s)"
    and "P (st_uuid task) v"
  shows "starts_ok P (snd (run_process C' W task v s))"
proof -
  have "starts_ok P (s\<lparr>ws_spawned := ws_spawned s @ [(st_uuid task, v)]\<rparr>)"
    using assms by (auto simp: starts_ok_def)
  with assms(1) show ?thesis by (auto simp: run_process_def register_session_def Let_def split: sum.split prod.split)
qed

lemma start_session_starts:
  assumes "starts_ok P s" and "ws_thread_roots s (st_uuid task) = None" and "P (st_uuid task) v"
  shows "starts_ok P (snd (start_session C' W event_id task v s))"
proof (cases "claim (ww_clock W) task (ws_manager s)")
  case (Pair c m)
  show ?thesis
  proof (cases c)
    case (Inr active)
    obtain r s1 where an: "announce_session C' W event_id (st_uuid task) active (s\<lparr>ws_manager := m\<rparr>) = (r, s1)" by fastforce
    have s1: "ws_thread_roots s1 = ws_thread_roots s" "ws_spawned s1 = ws_spawned s"
      using announce_roots [of C' W event_id "st_uuid task" active "s\<lparr>ws_manager := m\<rparr>"]
        announce_spawned [of C' W event_id "st_uuid task" active "s\<lparr>ws_manager := m\<rparr>"] an by simp_all
    with assms(1) have ok: "starts_ok P s1" by (simp add: starts_ok_def)
    have "st_uuid task \<notin> fst ` set (ws_spawned s1)" using assms(1,2) s1 by (auto simp: starts_ok_def)
    moreover from ok have "starts_ok P (s1\<lparr>ws_thread_roots := (ws_thread_roots s1)(st_uuid task \<mapsto> event_id)\<rparr>)"
      by (auto simp: starts_ok_def)
    ultimately have "starts_ok P (snd (run_process C' W task v (s1\<lparr>ws_thread_roots := (ws_thread_roots s1)(st_uuid task \<mapsto> event_id)\<rparr>)))"
      by (intro run_process_starts) (simp_all add: assms(3))
    with ok Pair Inr an show ?thesis by (cases r) (simp_all add: start_session_def)
  qed (use assms(1) Pair in \<open>simp add: start_session_def\<close>)
qed

lemma handle_task_starts:
  assumes "starts_ok P s" and "\<And>v. authorized C task \<Longrightarrow> validated C W task = Okay v \<Longrightarrow> P (st_uuid task) v"
  shows "starts_ok P (snd (handle_task_submission C W event_id task s))"
proof -
  have "starts_ok P (snd (start_session C W event_id task v s))"
    if "authorized C task" "validated C W task = Okay v" "ws_thread_roots s (st_uuid task) = None" for v
    by (rule start_session_starts [where P = P, OF assms(1) that(3)]) (rule assms(2) [OF that(1,2)])
  with assms(1) show ?thesis by (auto simp: handle_task_submission_def split: sum.split)
qed

text \<open>The reason of a start: an event delivered in some round whose task passed both checks in that round.\<close>

definition delivered_start ::
  "worker_setup \<Rightarrow> ('v worker_world \<times> 'v IncomingEvent list) list \<Rightarrow> str \<Rightarrow> ValidatedCommand \<Rightarrow> bool" where
  "delivered_start C rounds uuid v \<longleftrightarrow>
     (\<exists>W events event_id content task. (W, events) \<in> set rounds \<and> TaskSubmission event_id content \<in> set events
        \<and> ww_de_task W content = Okay task \<and> st_uuid task = uuid \<and> authorized C task \<and> validated C W task = Okay v)"

lemma handle_incoming_starts:
  assumes "starts_ok (delivered_start C rounds) s" and "(W, events) \<in> set rounds" and "ev \<in> set events"
  shows "starts_ok (delivered_start C rounds) (snd (handle_incoming C W ev s))"
proof (cases ev)
  case (TaskSubmission event_id content)
  with assms have "starts_ok (delivered_start C rounds) (snd (handle_task_submission C W event_id task s))"
    if "ww_de_task W content = Okay task" for task
    using that by (intro handle_task_starts) (auto simp: delivered_start_def intro!: bexI exI)
  with assms(1) TaskSubmission show ?thesis by (simp split: sum.split)
qed (use assms(1) in \<open>simp_all add: handle_cancel_def split: option.split\<close>)

lemma worker_round_starts:
  "starts_ok (delivered_start C rounds) s \<Longrightarrow> (W, events) \<in> set rounds \<Longrightarrow>
   starts_ok (delivered_start C rounds) (snd (worker_round C W events s))"
  unfolding worker_round_def
  by (intro starts_and_then starts_handle_all) (auto intro: handle_incoming_starts check_session_starts)

lemma worker_run_starts:
  "starts_ok (delivered_start C rounds) s \<Longrightarrow> set rs \<subseteq> set rounds \<Longrightarrow>
   starts_ok (delivered_start C rounds) (snd (worker_run C rs s))"
proof (induction rs arbitrary: s)
  case (Cons r rs)
  obtain W events where r: "r = (W, events)" by (cases r)
  with Cons show ?case by (auto intro!: starts_and_then worker_round_starts)
qed simp

text \<open>
  C23. A worker starts only what it was asked for and may run, and everything at most once. Over any
  run, whatever the room delivers, however often, and whatever fails, each process that the worker
  has started belongs to a task event that the room delivered in one of the rounds: the content of
  that very event decodes to a task of this identifier, the sender that this task names is
  authorized, unless no senders are configured, and the command is the one that the validation
  accepted for this task with the file system of that round. No task has been started twice.
\<close>

theorem worker_starts_safely:
  "distinct (map fst (ws_spawned (snd (worker_run C rounds (worker_start C)))))
   \<and> list_all (\<lambda>(uuid, v). \<exists>W events event_id content task.
        (W, events) \<in> set rounds \<and> TaskSubmission event_id content \<in> set events
        \<and> ww_de_task W content = Okay task \<and> st_uuid task = uuid
        \<and> (wc_authorized_users (wl_config C) = [] \<or> st_sender_id task \<in> set (wc_authorized_users (wl_config C)))
        \<and> validate_command (ww_fs W) (ww_order W) (st_bin task) (st_args task) (st_env task) (st_cwd task)
            (wc_allowed_commands (wl_config C)) (wc_allowed_cwd (wl_config C)) = Okay v)
      (ws_spawned (snd (worker_run C rounds (worker_start C))))"
proof -
  have "starts_ok (delivered_start C rounds) (worker_start C)" by (simp add: starts_ok_def worker_start_def)
  from worker_run_starts [OF this order_refl] show ?thesis
    by (auto simp: starts_ok_def delivered_start_def validated_def authorized_def list_all_iff list_ex_iff)
qed


subsection \<open>The session limit\<close>

definition active_uuids :: "SessionManager \<Rightarrow> str set" where
  "active_uuids m = {u. \<exists>x. sm_sessions m u = Some x \<and> se_state x \<noteq> Completed}"

lemma active_sessions_card:
  assumes "iterates it" and "finite (dom (sm_sessions m))"
  shows "length (active_sessions it m) = card (active_uuids m)"
proof -
  let ?ks = "it (dom (sm_sessions m))"
  have ks: "set ?ks = dom (sm_sessions m)" "distinct ?ks" using assms by (auto simp: iterates_def)
  have "length (active_sessions it m) = length (filter (\<lambda>k. se_state (the (sm_sessions m k)) \<noteq> Completed) ?ks)"
    by (simp add: active_sessions_def filter_map comp_def)
  also have "\<dots> = card (set (filter (\<lambda>k. se_state (the (sm_sessions m k)) \<noteq> Completed) ?ks))"
    by (rule distinct_card [symmetric]) (simp add: ks(2))
  also have "set (filter (\<lambda>k. se_state (the (sm_sessions m k)) \<noteq> Completed) ?ks) = active_uuids m"
    using ks(1) by (auto simp: active_uuids_def)
  finally show ?thesis .
qed

lemma active_finite: "finite (dom (sm_sessions m)) \<Longrightarrow> finite (active_uuids m)"
  by (rule finite_subset [of _ "dom (sm_sessions m)"]) (auto simp: active_uuids_def)

definition within_limit :: "worker_setup \<Rightarrow> worker_state \<Rightarrow> bool" where
  "within_limit C s \<longleftrightarrow> finite (dom (sm_sessions (ws_manager s))) \<and> card (active_uuids (ws_manager s)) \<le> unat (wc_max_sessions (wl_config C))"

lemma within_limit_same [simp]:
  "within_limit C (s\<lparr>ws_mux := mx\<rparr>) \<longleftrightarrow> within_limit C s" "within_limit C (s\<lparr>ws_file := fl\<rparr>) \<longleftrightarrow> within_limit C s"
  "within_limit C (s\<lparr>ws_killed := ks\<rparr>) \<longleftrightarrow> within_limit C s" "within_limit C (s\<lparr>ws_thread_roots := r\<rparr>) \<longleftrightarrow> within_limit C s"
  "within_limit C (s\<lparr>ws_spawned := sp\<rparr>) \<longleftrightarrow> within_limit C s"
  "within_limit C (snd (post W p s)) \<longleftrightarrow> within_limit C s" "within_limit C (persist_active_sessions W s) \<longleftrightarrow> within_limit C s"
  by (simp_all add: within_limit_def post_def persist_active_sessions_def Let_def)

lemma limit_and_then:
  assumes "within_limit C (snd r)" and "\<And>a s. within_limit C s \<Longrightarrow> within_limit C (snd (f a s))"
  shows "within_limit C (snd (and_then_s r f))"
  using assms by (cases r; cases "fst r") (auto simp: and_then_s_def)

lemma limit_handle_all:
  assumes "\<And>x s. within_limit C s \<Longrightarrow> within_limit C (snd (f x s))"
  shows "within_limit C s \<Longrightarrow> within_limit C (snd (handle_all f xs s))"
  by (induction xs arbitrary: s) (simp_all add: limit_and_then assms)

text \<open>Completing and running a session do not make more sessions active.\<close>

lemma limit_mono:
  assumes "within_limit C s" and "active_uuids m \<subseteq> active_uuids (ws_manager s)" and "finite (dom (sm_sessions m))"
  shows "within_limit C (s\<lparr>ws_manager := m\<rparr>)"
  using card_mono [OF active_finite assms(2)] assms(1,3) by (simp add: within_limit_def)

lemma complete_limit:
  assumes "within_limit C s"
  shows "within_limit C (s\<lparr>ws_manager := snd (complete clk uuid st ec (ws_manager s))\<rparr>)"
proof (rule limit_mono [OF assms])
  show "active_uuids (snd (complete clk uuid st ec (ws_manager s))) \<subseteq> active_uuids (ws_manager s)"
    by (auto simp: complete_def active_uuids_def split: option.splits if_splits)
  show "finite (dom (sm_sessions (snd (complete clk uuid st ec (ws_manager s)))))"
    using assms by (auto simp: within_limit_def complete_def split: option.split)
qed

lemma mark_running_limit:
  assumes "within_limit C s"
  shows "within_limit C (s\<lparr>ws_manager := snd (mark_running uuid pid tmux (ws_manager s))\<rparr>)"
proof (rule limit_mono [OF assms])
  show "active_uuids (snd (mark_running uuid pid tmux (ws_manager s))) \<subseteq> active_uuids (ws_manager s)"
    by (auto simp: mark_running_def active_uuids_def split: option.splits if_splits)
  show "finite (dom (sm_sessions (snd (mark_running uuid pid tmux (ws_manager s)))))"
    using assms by (auto simp: within_limit_def mark_running_def split: option.split)
qed

lemma claim_limit:
  assumes "finite (dom (sm_sessions m))" and "card (active_uuids m) < n"
  shows "finite (dom (sm_sessions (snd (claim clk task m)))) \<and> card (active_uuids (snd (claim clk task m))) \<le> n"
proof -
  have "active_uuids (snd (claim clk task m)) \<subseteq> insert (st_uuid task) (active_uuids m)"
    by (auto simp: claim_def active_uuids_def Let_def split: option.splits if_splits)
  then have "card (active_uuids (snd (claim clk task m))) \<le> card (insert (st_uuid task) (active_uuids m))"
    by (intro card_mono) (simp_all add: active_finite assms(1))
  also have "\<dots> \<le> Suc (card (active_uuids m))" by (simp add: card_insert_if active_finite [OF assms(1)])
  moreover have "finite (dom (sm_sessions (snd (claim clk task m))))"
    using assms(1) by (auto simp: claim_def Let_def split: option.split)
  ultimately show ?thesis using assms(2) by simp
qed

lemma finish_session_limit:
  assumes "within_limit C s"
  shows "within_limit C (snd (finish_session C' W uuid s))"
proof -
  have rest: "within_limit C (snd (and_then_s (post_session_result C' W uuid res x) (\<lambda>_ y. record_completion W uuid completed y)))"
    if "within_limit C x" for x res completed
    using that
    by (intro limit_and_then) (auto simp: post_session_result_def record_completion_def intro!: limit_and_then split: option.split)
  obtain r x where out: "post_final_output C' W uuid (case ww_tmux_capture W uuid of Some t \<Rightarrow> t | None \<Rightarrow> '''') s = (r, x)"
    by fastforce
  have "within_limit C (snd (post_final_output C' W uuid (case ww_tmux_capture W uuid of Some t \<Rightarrow> t | None \<Rightarrow> '''') s))"
    using assms by (simp add: post_final_output_def split: option.split)
  then have x: "within_limit C x" by (simp add: out)
  note fin = complete_limit [OF x, of "ww_clock W" uuid]
  show ?thesis
    using x fin rest [OF fin]
    by (cases r) (simp_all add: finish_session_def Let_def out split_beta split: sum.split)
qed

lemma start_session_limit:
  assumes "within_limit C s" and "card (active_uuids (ws_manager s)) < unat (wc_max_sessions (wl_config C))"
  shows "within_limit C (snd (start_session C' W event_id task v s))"
proof -
  let ?m = "snd (claim (ww_clock W) task (ws_manager s))"
  have m: "within_limit C (s\<lparr>ws_manager := ?m\<rparr>)"
    using claim_limit [OF _ assms(2)] assms(1) by (simp add: within_limit_def)
  have run: "within_limit C (snd (run_process C' W task v x))" if "within_limit C x" for x
  proof -
    have "within_limit C (x\<lparr>ws_spawned := ws_spawned x @ [(st_uuid task, v)]\<rparr>)" using that by simp
    from mark_running_limit [OF this] that show ?thesis
      by (auto simp: run_process_def register_session_def Let_def split_beta split: sum.split)
  qed
  have "within_limit C (snd (announce_session C' W event_id uuid a x))" if "within_limit C x" for uuid a x
    using that by (auto simp: announce_session_def intro!: limit_and_then split: option.split)
  with m run show ?thesis
    by (auto simp: start_session_def split_beta intro!: limit_and_then split: sum.split)
qed

lemma handle_incoming_limit:
  assumes "iterates (ww_order W)" and "within_limit C s"
  shows "within_limit C (snd (handle_incoming C W ev s))"
proof -
  have count: "length (active_sessions (ww_order W) (ws_manager s)) = card (active_uuids (ws_manager s))"
    using assms by (intro active_sessions_card) (simp_all add: within_limit_def)
  have "within_limit C (snd (handle_task_submission C W event_id task s))" for event_id task
    using assms(2) start_session_limit [OF assms(2)] by (auto simp: handle_task_submission_def count not_le split: sum.split)
  then show ?thesis using assms(2) by (cases ev) (simp_all add: handle_cancel_def split: sum.split option.split)
qed

lemma check_session_limit: "within_limit C s \<Longrightarrow> within_limit C (snd (check_session C' W uuid s))"
  by (simp add: check_session_def finish_session_limit limit_and_then split: option.split)

lemma worker_round_limit:
  "iterates (ww_order W) \<Longrightarrow> within_limit C s \<Longrightarrow> within_limit C (snd (worker_round C W events s))"
  unfolding worker_round_def by (intro limit_and_then limit_handle_all handle_incoming_limit check_session_limit)

text \<open>No run makes more sessions active than the configuration allows.\<close>

lemma session_limit_kept:
  assumes "list_all (\<lambda>(W, _). iterates (ww_order W)) rounds"
  shows "within_limit C (snd (worker_run C rounds (worker_start C)))"
proof -
  have "within_limit C (snd (worker_run C rounds s))" if "within_limit C s" for s
    using assms that by (induction C rounds s rule: worker_run.induct) (auto intro: limit_and_then worker_round_limit)
  moreover have "within_limit C (worker_start C)"
    by (simp add: within_limit_def worker_start_def manager_new_def active_uuids_def)
  ultimately show ?thesis by blast
qed

subsection \<open>What a worker reports\<close>

text \<open>
  C24. A finished session is reported. When the process of an active session with a known thread has
  ended, the clock can be read and the room accepts every post, the worker posts the captured output,
  unless it is blank, and one result in the thread of the task, writes the completed state and
  removes the active one, in this order, and the session is neither active nor in the multiplexer
  any more. The exit code reported is the recorded one, and zero if none is recorded; the status is
  success for code zero and failed otherwise, and nothing else. In particular a cancelled session,
  whose exit file the kill removes, is reported as a success with code zero, not as cancelled.
\<close>

theorem finished_session_reported:
  assumes "sm_sessions (ws_manager s) uuid = Some x" and "se_state x \<noteq> Completed" and "se_tmux x = Some tmux"
    and "ww_tmux_alive W uuid = Okay False" and "ww_clock W = Some now" and "ww_call W = (\<lambda>_. Okay ())"
    and "ws_thread_roots s uuid = Some thread_root"
    and "code = (case ww_exit_code W uuid of Some c \<Rightarrow> c | None \<Rightarrow> 0)"
    and "final = (case ww_tmux_capture W uuid of Some t \<Rightarrow> t | None \<Rightarrow> [])"
  shows "\<exists>s'. check_session C W uuid s = (Okay (), s')
    \<and> ws_posts s' = ws_posts s
        @ (if trim final = [] then []
           else [PostOutput thread_root \<lparr>so_session_uuid = uuid, so_worker_id = wl_device_id C, so_stream = Stdout,
                   so_data = b64_encode (ww_lib W) (as_bytes final), so_seq = 0, so_timestamp = now\<rparr>])
        @ [PostResult thread_root \<lparr>sr_session_uuid = uuid, sr_worker_id = wl_device_id C,
             sr_status = (if code = 0 then StSuccess else StFailed), sr_exit_code = Some code,
             sr_duration_seconds = saturating_sub now (se_started_at x), sr_tail = Some (take_chars 1024 final)\<rparr>,
           WriteCompleted uuid \<lparr>cs_exit_code = Some code, cs_duration_seconds = saturating_sub now (se_started_at x),
             cs_completion_time = now\<rparr>,
           RemoveActive uuid]
    \<and> uuid \<notin> active_uuids (ws_manager s') \<and> mx_sessions (ws_mux s') uuid = None"
proof -
  have post: "post W p y = (Okay (), y\<lparr>ws_calls := ws_calls y + 1, ws_posts := ws_posts y @ [p]\<rparr>)" for p y
    by (simp add: post_def assms(6))
  have unlinked: "mx_sessions (remove_session uuid mx) uuid = None" for mx
    by (auto simp: remove_session_def Let_def split: option.split)
  have persist: "ws_posts (persist_active_sessions W y) = ws_posts y" "ws_manager (persist_active_sessions W y) = ws_manager y"
    "ws_mux (persist_active_sessions W y) = ws_mux y" for y
    by (simp_all add: persist_active_sessions_def Let_def)
  have code: "(case ww_exit_code W uuid of Some c \<Rightarrow> Some c | None \<Rightarrow> Some 0) = Some code"
    by (simp add: assms(8) split: option.split)
  show ?thesis
    using assms(1-7)
    by (simp add: check_session_def manager_get_def finish_session_def code assms(9) [symmetric] post_final_output_def
        complete_def post_session_result_def record_completion_def post Let_def persist active_uuids_def unlinked)
qed

text \<open>What the kill of a cancelled session leaves behind: no exit code, and so a success.\<close>

lemma cancelled_reported_success:
  assumes "sm_sessions (ws_manager s) uuid = Some x" and "se_tmux x = Some tmux" and "ww_exit_code W uuid = None"
    and "ww_tmux_kill W uuid = Okay ()" and "ww_tmux_alive W uuid = Okay False" and "ww_clock W = Some now"
    and "ww_call W = (\<lambda>_. Okay ())" and "ws_thread_roots s uuid = Some thread_root" and "se_state x \<noteq> Completed"
    and "final = (case ww_tmux_capture W uuid of Some t \<Rightarrow> t | None \<Rightarrow> [])"
  shows "\<exists>s1 s2. handle_incoming C W (SessionCancelled uuid content) s = (Okay (), s1)
    \<and> check_session C W uuid s1 = (Okay (), s2)
    \<and> PostResult thread_root \<lparr>sr_session_uuid = uuid, sr_worker_id = wl_device_id C, sr_status = StSuccess,
        sr_exit_code = Some 0, sr_duration_seconds = saturating_sub now (se_started_at x),
        sr_tail = Some (take_chars 1024 final)\<rparr> \<in> set (ws_posts s2)"
  using assms
  by (simp add: handle_cancel_def check_session_def manager_get_def finish_session_def post_final_output_def complete_def
      post_session_result_def record_completion_def post_def persist_active_sessions_def Let_def)

definition demo_world :: "str worker_world" where
  "demo_world =
     \<lparr>ww_order = sorted_list_of_set, ww_fs = \<lparr>path_exists = (\<lambda>_. True), path_is_dir = (\<lambda>_. True)\<rparr>, ww_lib = sample_crypto_lib,
      ww_clock = Some 160, ww_call = (\<lambda>_. Okay ()), ww_tmux_create = (\<lambda>u _. Okay \<lparr>session_name = u, socket_path = '''', exit_notify_path = ''''\<rparr>),
      ww_tmux_kill = (\<lambda>_. Okay ()), ww_tmux_alive = (\<lambda>_. Okay False), ww_tmux_capture = (\<lambda>_. Some ''hi''), ww_exit_code = (\<lambda>_. Some 3),
      ww_file_write = True, ww_show_exec = (\<lambda>_. ''exec''), ww_show_session = (\<lambda>_. ''session''), ww_de_task = (\<lambda>_. Err ''bad'')\<rparr>"

definition demo_running :: worker_state where
  "demo_running =
     \<lparr>ws_manager = snd (mark_running ''t'' None \<lparr>session_name = ''t'', socket_path = '''', exit_notify_path = ''''\<rparr> sample_manager),
      ws_thread_roots = [''t'' \<mapsto> ''$e''], ws_mux = mux_new, ws_calls = 0, ws_posts = [], ws_spawned = [], ws_killed = [], ws_file = None\<rparr>"

definition demo_config :: worker_setup where
  "demo_config =
     \<lparr>wl_config = worker_config_default\<lparr>wc_max_sessions := 1, wc_allowed_commands := [''echo''], wc_allowed_cwd := []\<rparr>,
      wl_device_id = ''w'', wl_room_id = ''!r''\<rparr>"

theorem finished_session_reported_witness:
  "\<exists>s' result completed outs. check_session demo_config demo_world ''t'' demo_running = (Okay (), s')
    \<and> ws_posts s' = outs @ [PostResult ''$e'' result, WriteCompleted ''t'' completed, RemoveActive ''t'']
    \<and> sr_exit_code result = Some 3 \<and> sr_status result \<noteq> StSuccess"
proof -
  have session: "\<exists>x. sm_sessions (ws_manager demo_running) ''t'' = Some x \<and> se_state x = Running
      \<and> se_tmux x = Some \<lparr>session_name = ''t'', socket_path = '''', exit_notify_path = ''''\<rparr>"
    by (simp add: demo_running_def mark_running_def sample_manager_session)
  then obtain x where x: "sm_sessions (ws_manager demo_running) ''t'' = Some x" "se_state x \<noteq> Completed"
    "se_tmux x = Some \<lparr>session_name = ''t'', socket_path = '''', exit_notify_path = ''''\<rparr>" by auto
  have w: "ww_tmux_alive demo_world ''t'' = Okay False" "ww_clock demo_world = Some 160" "ww_call demo_world = (\<lambda>_. Okay ())"
    "ws_thread_roots demo_running ''t'' = Some ''$e''" by (simp_all add: demo_world_def demo_running_def)
  from finished_session_reported [OF x w refl refl, of demo_config] show ?thesis
    by (fastforce simp: demo_world_def demo_running_def)
qed

text \<open>
  The limit is checked before the guard against duplicates: a task that the room delivers again
  while it is running, with as many sessions as allowed, is answered with a failed result in its
  own thread, although its session goes on. Signals, input and new sizes of a session are ignored,
  and an event that cannot be decoded ends the worker.
\<close>

lemma redelivery_reported_failed:
  assumes "authorized C task" and "length (active_sessions (ww_order W) (ws_manager s)) \<ge> unat (wc_max_sessions (wl_config C))"
    and "ww_call W (ws_calls s) = Okay ()"
  shows "\<exists>s' why. handle_task_submission C W event_id task s = (Okay (), s') \<and> ws_manager s' = ws_manager s
    \<and> ws_posts s' = ws_posts s @ [PostResult event_id (rejection C task why)]"
  using assms by (auto simp: handle_task_submission_def post_def)

lemma malformed_task_ends_worker:
  "ww_de_task W content = Err e \<Longrightarrow> worker_round C W (TaskSubmission event_id content # events) s = (Err e, s)"
  by (simp add: worker_round_def)

lemma signals_ignored: "handle_incoming C W (SessionSignalled uuid content) s = (Okay (), s)"
  by simp

end
