(* ===== verification/Matrix_Rooms.thy ===== *)
theory Matrix_Rooms
  imports Liveness
begin

section \<open>Rooms of the Matrix client\<close>

text \<open>
  The rooms mxdx creates and looks for: \<open>crates/mxdx-matrix/src/rooms.rs\<close> with the REST helpers of \<open>rest.rs\<close>, the errors of
  \<open>error.rs\<close> and the state events of \<open>client.rs\<close>. The Matrix SDK, HTTP and JSON are the record \<open>matrix_sdk\<close> over
  a state of the server. The client is logged in, as every caller of these functions is. A creation request is the data from which the code
  builds its JSON.
\<close>

subsection \<open>The SDK, HTTP and JSON\<close>

datatype MatrixClientError =
  MeSdk str
| MeHttp str
| MeRegistration str
| MeRoomNotFound str
| MeKeyExchangeTimeout str
| MeRoomCreationTimeout str
| MeStateRoomRejected str
| MeOther str

fun matrix_error_text :: "MatrixClientError \<Rightarrow> str" where
  "matrix_error_text (MeSdk e) = ''Matrix SDK error: '' @ e"
| "matrix_error_text (MeHttp e) = ''Matrix HTTP error: '' @ e"
| "matrix_error_text (MeRegistration e) = ''Registration error: '' @ e"
| "matrix_error_text (MeRoomNotFound e) = ''Room not found: '' @ e"
| "matrix_error_text (MeKeyExchangeTimeout e) = ''Key exchange timeout: '' @ e"
| "matrix_error_text (MeRoomCreationTimeout e) = ''Room creation timeout (server may be rate-limiting): '' @ e"
| "matrix_error_text (MeStateRoomRejected e) = ''State room rejected: '' @ e"
| "matrix_error_text (MeOther e) = e"

record 'v http_reply =
  hr_status :: nat
  hr_status_text :: str
  hr_json :: "(str, 'v) result"
  hr_text :: str

record creation_content =
  cc_space :: bool
  cc_launcher_id :: str
  cc_role :: str

record create_request =
  cr_name :: "str option"
  cr_alias :: "str option"
  cr_topic :: "str option"
  cr_encrypted :: bool
  cr_joined_history :: bool
  cr_invite :: "str list"
  cr_direct :: bool
  cr_creation :: "creation_content option"

record ('s, 'v) matrix_sdk =
  sdk_values :: "'v value_api"
  sdk_as_bool :: "'v \<Rightarrow> bool option"
  sdk_object_keys :: "'v \<Rightarrow> str list option"
  sdk_de_joined :: "'v \<Rightarrow> (str, str list) result"
  sdk_empty :: 'v
  sdk_via :: "str \<Rightarrow> 'v"
  sdk_tombstone :: "str \<Rightarrow> 'v"
  sdk_url_encode :: "str \<Rightarrow> str"
  sdk_valid_room :: "str \<Rightarrow> (str, unit) result"
  sdk_user_id :: str
  sdk_server_name :: str
  sdk_localpart :: "str \<Rightarrow> str"
  sdk_device_id :: "str option"
  sdk_homeserver :: str
  http_get :: "str \<Rightarrow> 's \<Rightarrow> (str, 'v http_reply) result"
  http_delete :: "str \<Rightarrow> 's \<Rightarrow> (str, 'v http_reply) result \<times> 's"
  http_put :: "str \<Rightarrow> 'v \<Rightarrow> 's \<Rightarrow> (str, 'v http_reply) result \<times> 's"
  http_post :: "str \<Rightarrow> 'v \<Rightarrow> 's \<Rightarrow> (str, 'v http_reply) result \<times> 's"
  sdk_get_room :: "str \<Rightarrow> 's \<Rightarrow> bool"
  sdk_send_state :: "str \<Rightarrow> str \<Rightarrow> str \<Rightarrow> 'v \<Rightarrow> 's \<Rightarrow> (str, unit) result \<times> 's"
  sdk_create_room :: "create_request \<Rightarrow> 's \<Rightarrow> (MatrixClientError, str) result \<times> 's"
  sdk_sync :: "'s \<Rightarrow> (str, unit) result \<times> 's"
  sdk_join :: "str \<Rightarrow> 's \<Rightarrow> (str, unit) result \<times> 's"
  sdk_joined :: "'s \<Rightarrow> (str \<times> str option) list"

definition is_success :: "'v http_reply \<Rightarrow> bool" where
  "is_success r \<longleftrightarrow> 200 \<le> hr_status r \<and> hr_status r < 300"

abbreviation json_str :: "('s, 'v) matrix_sdk \<Rightarrow> 'v \<Rightarrow> str \<Rightarrow> str option" where
  "json_str A \<equiv> str_field (sdk_values A)"

subsection \<open>REST helpers\<close>

record RestClient =
  rc_homeserver :: str

definition rest_new :: "str \<Rightarrow> RestClient" where
  "rest_new homeserver = \<lparr>rc_homeserver = trim_end_matches (CHR ''/'') homeserver\<rparr>"

definition rest_state_url :: "('s, 'v) matrix_sdk \<Rightarrow> RestClient \<Rightarrow> str \<Rightarrow> str \<Rightarrow> str" where
  "rest_state_url A rc room event_type =
     rc_homeserver rc @ ''/_matrix/client/v3/rooms/'' @ sdk_url_encode A room @ ''/state/'' @ event_type @ ''/''"

definition rest_get :: "('s, 'v) matrix_sdk \<Rightarrow> str \<Rightarrow> str \<Rightarrow> 's \<Rightarrow> (str, 'v option) result" where
  "rest_get A what url s =
     (case http_get A url s of
        Inl e \<Rightarrow> Err e
      | Inr r \<Rightarrow>
          if hr_status r = 404 then Okay None
          else if \<not> is_success r then Err (what @ '': HTTP '' @ hr_status_text r)
          else (case hr_json r of Inl e \<Rightarrow> Err e | Inr v \<Rightarrow> Okay (Some v)))"

definition get_room_topic :: "('s, 'v) matrix_sdk \<Rightarrow> RestClient \<Rightarrow> str \<Rightarrow> 's \<Rightarrow> (str, str option) result" where
  "get_room_topic A rc room s =
     map_sum id (\<lambda>v. Option.bind v (\<lambda>v. json_str A v ''topic''))
       (rest_get A ''get_room_topic'' (rest_state_url A rc room ''m.room.topic'') s)"

definition get_room_create :: "('s, 'v) matrix_sdk \<Rightarrow> RestClient \<Rightarrow> str \<Rightarrow> 's \<Rightarrow> (str, 'v option) result" where
  "get_room_create A rc room s = rest_get A ''get_room_create'' (rest_state_url A rc room ''m.room.create'') s"

definition get_room_name :: "('s, 'v) matrix_sdk \<Rightarrow> RestClient \<Rightarrow> str \<Rightarrow> 's \<Rightarrow> (str, str option) result" where
  "get_room_name A rc room s =
     map_sum id (\<lambda>v. Option.bind v (\<lambda>v. json_str A v ''name''))
       (rest_get A ''get_room_name'' (rest_state_url A rc room ''m.room.name'') s)"

record EncryptionState =
  es_algorithm :: str
  es_encrypt_state_events :: bool

definition get_room_encryption :: "('s, 'v) matrix_sdk \<Rightarrow> RestClient \<Rightarrow> str \<Rightarrow> 's \<Rightarrow> (str, EncryptionState option) result" where
  "get_room_encryption A rc room s =
     map_sum id (map_option (\<lambda>v.
         let flag = (\<lambda>k. Option.bind (value_get (sdk_values A) v k) (sdk_as_bool A))
         in \<lparr>es_algorithm = (case json_str A v ''algorithm'' of Some a \<Rightarrow> a | None \<Rightarrow> ''''),
             es_encrypt_state_events =
               (case flag ''encrypt_state_events'' of
                  Some b \<Rightarrow> b
                | None \<Rightarrow> (case flag ''io.element.msc4362.encrypt_state_events'' of Some b \<Rightarrow> b | None \<Rightarrow> False))\<rparr>))
       (rest_get A ''get_room_encryption'' (rest_state_url A rc room ''m.room.encryption'') s)"

definition get_room_tombstone :: "('s, 'v) matrix_sdk \<Rightarrow> RestClient \<Rightarrow> str \<Rightarrow> 's \<Rightarrow> (str, str option) result" where
  "get_room_tombstone A rc room s =
     (case rest_get A ''get_room_tombstone'' (rest_state_url A rc room ''m.room.tombstone'') s of
        Inl e \<Rightarrow> Err e
      | Inr None \<Rightarrow> Okay None
      | Inr (Some v) \<Rightarrow>
          (case json_str A v ''replacement_room'' of
             None \<Rightarrow> Okay None
           | Some r \<Rightarrow> (case sdk_valid_room A r of Inl e \<Rightarrow> Err e | Inr _ \<Rightarrow> Okay (Some r))))"

text \<open>The replies of the two lists are not allowed to be missing.\<close>

definition rest_get_ok :: "('s, 'v) matrix_sdk \<Rightarrow> str \<Rightarrow> str \<Rightarrow> 's \<Rightarrow> (str, 'v) result" where
  "rest_get_ok A what url s =
     (case http_get A url s of
        Inl e \<Rightarrow> Err e
      | Inr r \<Rightarrow> if \<not> is_success r then Err (what @ '': HTTP '' @ hr_status_text r) else hr_json r)"

fun parse_rooms :: "('s, 'v) matrix_sdk \<Rightarrow> str list \<Rightarrow> (str, str list) result" where
  "parse_rooms A [] = Okay []"
| "parse_rooms A (r # rs) =
     (case sdk_valid_room A r of
        Inl e \<Rightarrow> Err ''invalid room id''
      | Inr _ \<Rightarrow> map_sum id (\<lambda>ps. r # ps) (parse_rooms A rs))"

definition list_joined_rooms :: "('s, 'v) matrix_sdk \<Rightarrow> RestClient \<Rightarrow> 's \<Rightarrow> (str, str list) result" where
  "list_joined_rooms A rc s =
     (case rest_get_ok A ''list_joined_rooms'' (rc_homeserver rc @ ''/_matrix/client/v3/joined_rooms'') s of
        Inl e \<Rightarrow> Err e
      | Inr v \<Rightarrow> (case sdk_de_joined A v of Inl e \<Rightarrow> Err e | Inr rooms \<Rightarrow> parse_rooms A rooms))"

definition list_invited_rooms :: "('s, 'v) matrix_sdk \<Rightarrow> RestClient \<Rightarrow> 's \<Rightarrow> (str, str list) result" where
  "list_invited_rooms A rc s =
     (case rest_get_ok A ''list_invited_rooms (sync)'' (rc_homeserver rc @ ''/_matrix/client/v3/sync?timeout=0'') s of
        Inl e \<Rightarrow> Err e
      | Inr v \<Rightarrow>
          (let invite = Option.bind (Option.bind (value_get (sdk_values A) v ''rooms'')
                 (\<lambda>r. value_get (sdk_values A) r ''invite'')) (sdk_object_keys A)
           in Okay (case invite of None \<Rightarrow> [] | Some rooms \<Rightarrow> filter (\<lambda>r. \<not> isl (sdk_valid_room A r)) rooms)))"

definition get_room_full_state ::
  "('s, 'v) matrix_sdk \<Rightarrow> RestClient \<Rightarrow> str \<Rightarrow> 's \<Rightarrow> (str, 'v list) result" where
  "get_room_full_state A rc room s =
     (case rest_get_ok A ''get_room_full_state''
             (rc_homeserver rc @ ''/_matrix/client/v3/rooms/'' @ sdk_url_encode A room @ ''/state'') s of
        Inl e \<Rightarrow> Err e
      | Inr v \<Rightarrow> (case as_array (sdk_values A) v of None \<Rightarrow> Err ''invalid type'' | Some events \<Rightarrow> Okay events))"

definition rest_written :: "str \<Rightarrow> (str, 'v http_reply) result \<Rightarrow> (str, unit) result" where
  "rest_written what reply =
     (case reply of
        Inl e \<Rightarrow> Err e
      | Inr r \<Rightarrow> if is_success r then Okay () else Err (what @ '': HTTP '' @ hr_status_text r @ '': '' @ hr_text r))"

definition put_state_event ::
  "('s, 'v) matrix_sdk \<Rightarrow> RestClient \<Rightarrow> str \<Rightarrow> str \<Rightarrow> str \<Rightarrow> 'v \<Rightarrow> 's \<Rightarrow> (str, unit) result \<times> 's" where
  "put_state_event A rc room event_type state_key content s =
     apfst (rest_written (''put_state_event('' @ event_type @ '')''))
       (http_put A (rc_homeserver rc @ ''/_matrix/client/v3/rooms/'' @ sdk_url_encode A room @ ''/state/'' @ event_type @ ''/''
          @ sdk_url_encode A state_key) content s)"

definition rest_leave_room :: "('s, 'v) matrix_sdk \<Rightarrow> RestClient \<Rightarrow> str \<Rightarrow> 's \<Rightarrow> (str, unit) result \<times> 's" where
  "rest_leave_room A rc room s =
     apfst (rest_written ''leave_room'')
       (http_post A (rc_homeserver rc @ ''/_matrix/client/v3/rooms/'' @ sdk_url_encode A room @ ''/leave'') (sdk_empty A) s)"

subsection \<open>State events\<close>

definition send_state_event ::
  "('s, 'v) matrix_sdk \<Rightarrow> str \<Rightarrow> str \<Rightarrow> str \<Rightarrow> 'v \<Rightarrow> 's \<Rightarrow> (MatrixClientError, unit) result \<times> 's" where
  "send_state_event A room event_type state_key content s =
     (if \<not> sdk_get_room A room s then (Err (MeRoomNotFound room), s)
      else apfst (map_sum MeSdk id) (sdk_send_state A room event_type state_key content s))"

definition matrix_join_room :: "('s, 'v) matrix_sdk \<Rightarrow> str \<Rightarrow> 's \<Rightarrow> (MatrixClientError, unit) result \<times> 's" where
  "matrix_join_room A room s = apfst (map_sum MeSdk id) (sdk_join A room s)"

definition matrix_sync_once :: "('s, 'v) matrix_sdk \<Rightarrow> 's \<Rightarrow> (MatrixClientError, unit) result \<times> 's" where
  "matrix_sync_once A s = apfst (map_sum MeSdk id) (sdk_sync A s)"

definition tombstone_room ::
  "('s, 'v) matrix_sdk \<Rightarrow> str \<Rightarrow> str \<Rightarrow> 's \<Rightarrow> (MatrixClientError, unit) result \<times> 's" where
  "tombstone_room A room replacement s = send_state_event A room ''m.room.tombstone'' '''' (sdk_tombstone A replacement) s"

definition unreserved :: "char \<Rightarrow> bool" where
  "unreserved c \<longleftrightarrow> (CHR ''a'' \<le> c \<and> c \<le> CHR ''z'') \<or> (CHR ''A'' \<le> c \<and> c \<le> CHR ''Z'') \<or> (CHR ''0'' \<le> c \<and> c \<le> CHR ''9'')
     \<or> c = CHR ''-'' \<or> c = CHR ''_'' \<or> c = CHR ''.'' \<or> c = CHR ''~''"

definition hex_upper :: "nat \<Rightarrow> char" where
  "hex_upper d = (if d < 10 then char_of (48 + d) else char_of (55 + d))"

definition percent_encode_byte :: "char \<Rightarrow> str" where
  "percent_encode_byte c =
     (if unreserved c then [c] else [CHR ''%'', hex_upper (of_char c div 16), hex_upper (of_char c mod 16)])"

definition percent_encode_path_segment :: "str \<Rightarrow> str" where
  "percent_encode_path_segment input = concat (map percent_encode_byte input)"

text \<open>The reply is not looked at beyond its JSON: a missing event comes back as the error object of the server.\<close>

definition get_room_state_event ::
  "('s, 'v) matrix_sdk \<Rightarrow> str \<Rightarrow> str \<Rightarrow> str \<Rightarrow> 's \<Rightarrow> (MatrixClientError, 'v) result" where
  "get_room_state_event A room event_type state_key s =
     (case http_get A (sdk_homeserver A @ ''_matrix/client/v3/rooms/'' @ room @ ''/state/'' @ event_type @ ''/''
             @ percent_encode_path_segment state_key) s of
        Inl e \<Rightarrow> Err (MeOther e)
      | Inr r \<Rightarrow> map_sum MeOther id (hr_json r))"

definition get_room_state :: "('s, 'v) matrix_sdk \<Rightarrow> str \<Rightarrow> str \<Rightarrow> 's \<Rightarrow> (MatrixClientError, 'v) result" where
  "get_room_state A room event_type s =
     (case http_get A (sdk_homeserver A @ ''_matrix/client/v3/rooms/'' @ room @ ''/state/'' @ event_type) s of
        Inl e \<Rightarrow> Err (MeOther e)
      | Inr r \<Rightarrow> map_sum MeOther id (hr_json r))"

definition get_all_room_state :: "('s, 'v) matrix_sdk \<Rightarrow> str \<Rightarrow> 's \<Rightarrow> (MatrixClientError, 'v list) result" where
  "get_all_room_state A room s =
     (case http_get A (sdk_homeserver A @ ''_matrix/client/v3/rooms/'' @ room @ ''/state'') s of
        Inl e \<Rightarrow> Err (MeOther e)
      | Inr r \<Rightarrow>
          if \<not> is_success r then
            Err (MeOther (''Failed to fetch room state for '' @ room @ '' (HTTP '' @ hr_status_text r @ ''): '' @ hr_text r))
          else (case hr_json r of
                  Inl e \<Rightarrow> Err (MeOther e)
                | Inr body \<Rightarrow> Okay (case as_array (sdk_values A) body of Some events \<Rightarrow> events | None \<Rightarrow> [])))"

definition filter_state_events_by_type :: "('s, 'v) matrix_sdk \<Rightarrow> 'v list \<Rightarrow> str \<Rightarrow> (str \<times> 'v) list" where
  "filter_state_events_by_type A events event_type =
     map (\<lambda>e. (case json_str A e ''state_key'' of Some k \<Rightarrow> k | None \<Rightarrow> '''',
               case value_get (sdk_values A) e ''content'' of Some c \<Rightarrow> c | None \<Rightarrow> sdk_empty A))
       (filter (\<lambda>e. (case json_str A e ''type'' of Some t \<Rightarrow> t | None \<Rightarrow> '''') = event_type) events)"

definition get_all_state_events_of_type ::
  "('s, 'v) matrix_sdk \<Rightarrow> str \<Rightarrow> str \<Rightarrow> 's \<Rightarrow> (MatrixClientError, (str \<times> 'v) list) result" where
  "get_all_state_events_of_type A room event_type s =
     map_sum id (\<lambda>events. filter_state_events_by_type A events event_type) (get_all_room_state A room s)"

subsection \<open>Creating rooms\<close>

definition DASH :: str where "DASH = [CHR '' '', CHR 0xE2, CHR 0x80, CHR 0x94, CHR '' '']"

definition create_terminal_session_dm ::
  "('s, 'v) matrix_sdk \<Rightarrow> str \<Rightarrow> 's \<Rightarrow> (MatrixClientError, str) result \<times> 's" where
  "create_terminal_session_dm A user_id s =
     sdk_create_room A
       \<lparr>cr_name = Some (''mxdx: terminal'' @ DASH @ sdk_localpart A user_id), cr_alias = None,
        cr_topic = Some (''org.mxdx.terminal.session:'' @ sdk_localpart A user_id), cr_encrypted = True, cr_joined_history = True,
        cr_invite = [user_id], cr_direct = True, cr_creation = None\<rparr> s"

definition create_named_encrypted_room ::
  "('s, 'v) matrix_sdk \<Rightarrow> str \<Rightarrow> str \<Rightarrow> str list \<Rightarrow> 's \<Rightarrow> (MatrixClientError, str) result \<times> 's" where
  "create_named_encrypted_room A name topic invite s =
     sdk_create_room A
       \<lparr>cr_name = Some name, cr_alias = None, cr_topic = Some topic, cr_encrypted = True, cr_joined_history = False,
        cr_invite = invite, cr_direct = False, cr_creation = None\<rparr> s"

definition create_mxdx_encrypted_room ::
  "('s, 'v) matrix_sdk \<Rightarrow> str \<Rightarrow> str \<Rightarrow> str list \<Rightarrow> str \<Rightarrow> str \<Rightarrow> 's \<Rightarrow> (MatrixClientError, str) result \<times> 's" where
  "create_mxdx_encrypted_room A name topic invite launcher_id role s =
     sdk_create_room A
       \<lparr>cr_name = Some name, cr_alias = None, cr_topic = Some topic, cr_encrypted = True, cr_joined_history = False,
        cr_invite = invite, cr_direct = False,
        cr_creation = Some \<lparr>cc_space = False, cc_launcher_id = launcher_id, cc_role = role\<rparr>\<rparr> s"

definition create_named_unencrypted_room ::
  "('s, 'v) matrix_sdk \<Rightarrow> str \<Rightarrow> str \<Rightarrow> 's \<Rightarrow> (MatrixClientError, str) result \<times> 's" where
  "create_named_unencrypted_room A name topic s =
     sdk_create_room A
       \<lparr>cr_name = Some name, cr_alias = None, cr_topic = Some topic, cr_encrypted = False, cr_joined_history = False,
        cr_invite = [], cr_direct = False, cr_creation = None\<rparr> s"

definition state_room_name :: "str \<Rightarrow> str \<Rightarrow> str \<Rightarrow> str" where
  "state_room_name hostname os_user localpart = hostname @ ''.'' @ os_user @ ''.'' @ localpart"

definition create_worker_state_room ::
  "('s, 'v) matrix_sdk \<Rightarrow> str \<Rightarrow> str \<Rightarrow> str \<Rightarrow> 's \<Rightarrow> (MatrixClientError, str) result \<times> 's" where
  "create_worker_state_room A hostname os_user localpart s =
     (let name = state_room_name hostname os_user localpart
      in sdk_create_room A
           \<lparr>cr_name = Some (''mxdx: state'' @ DASH @ name), cr_alias = Some (''mxdx-state-'' @ name),
            cr_topic = Some (''org.mxdx.worker.state:'' @ name), cr_encrypted = True, cr_joined_history = True,
            cr_invite = [], cr_direct = False, cr_creation = None\<rparr> s)"

subsection \<open>The state room of a worker\<close>

definition state_room_alias :: "('s, 'v) matrix_sdk \<Rightarrow> str \<Rightarrow> str \<Rightarrow> str \<Rightarrow> str" where
  "state_room_alias A hostname os_user localpart =
     ''#mxdx-state-'' @ state_room_name hostname os_user localpart @ '':'' @ sdk_server_name A"

definition alias_url :: "('s, 'v) matrix_sdk \<Rightarrow> str \<Rightarrow> str" where
  "alias_url A alias = sdk_homeserver A @ ''_matrix/client/v3/directory/room/'' @ percent_encode_path_segment alias"

definition resolve_room_alias :: "('s, 'v) matrix_sdk \<Rightarrow> str \<Rightarrow> 's \<Rightarrow> (MatrixClientError, str option) result" where
  "resolve_room_alias A alias s =
     (case http_get A (alias_url A alias) s of
        Inl e \<Rightarrow> Err (MeOther e)
      | Inr r \<Rightarrow>
          if hr_status r = 404 then Okay None
          else if \<not> is_success r then
            Err (MeOther (''Room alias resolution failed (HTTP '' @ hr_status_text r @ ''): '' @ hr_text r))
          else (case hr_json r of
                  Inl e \<Rightarrow> Err (MeOther e)
                | Inr body \<Rightarrow>
                    (case json_str A body ''room_id'' of
                       None \<Rightarrow> Okay None
                     | Some room \<Rightarrow> (case sdk_valid_room A room of Inl e \<Rightarrow> Err (MeOther e) | Inr _ \<Rightarrow> Okay (Some room)))))"

definition delete_room_alias :: "('s, 'v) matrix_sdk \<Rightarrow> str \<Rightarrow> 's \<Rightarrow> (MatrixClientError, unit) result \<times> 's" where
  "delete_room_alias A alias s =
     apfst (\<lambda>reply. case reply of
         Inl e \<Rightarrow> Err (MeOther e)
       | Inr r \<Rightarrow>
           if hr_status r = 404 \<or> is_success r then Okay ()
           else Err (MeOther (''Room alias deletion failed (HTTP '' @ hr_status_text r @ ''): '' @ hr_text r)))
       (http_delete A (alias_url A alias) s)"

definition find_worker_state_room ::
  "('s, 'v) matrix_sdk \<Rightarrow> str \<Rightarrow> str \<Rightarrow> str \<Rightarrow> 's \<Rightarrow> (MatrixClientError, str option) result \<times> 's" where
  "find_worker_state_room A hostname os_user localpart s =
     (case resolve_room_alias A (state_room_alias A hostname os_user localpart) s of
        Inl e \<Rightarrow> (Err e, s)
      | Inr (Some room) \<Rightarrow> (Okay (Some room), s)
      | Inr None \<Rightarrow>
          (case matrix_sync_once A s of
             (Inl e, s) \<Rightarrow> (Err e, s)
           | (Inr _, s) \<Rightarrow>
               (Okay (map_option fst (find (\<lambda>(room, topic).
                  (case topic of Some t \<Rightarrow> t | None \<Rightarrow> '''') = ''org.mxdx.worker.state:'' @ state_room_name hostname os_user localpart)
                  (sdk_joined A s))), s)))"

definition extract_room_creator :: "('s, 'v) matrix_sdk \<Rightarrow> 'v \<Rightarrow> str" where
  "extract_room_creator A create_event =
     (case Option.bind (value_get (sdk_values A) create_event ''content'') (\<lambda>c. json_str A c ''creator'') of
        Some c \<Rightarrow> c
      | None \<Rightarrow> (case json_str A create_event ''sender'' of Some c \<Rightarrow> c | None \<Rightarrow> ''''))"

definition validate_state_room ::
  "('s, 'v) matrix_sdk \<Rightarrow> str \<Rightarrow> str \<Rightarrow> str list \<Rightarrow> 's \<Rightarrow> (MatrixClientError, unit) result" where
  "validate_state_room A room own_user_id trusted_coordinators s =
     (case get_all_room_state A room s of
        Inl e \<Rightarrow> Err e
      | Inr all_state \<Rightarrow>
          (case find (\<lambda>e. json_str A e ''type'' = Some ''m.room.create'') all_state of
             None \<Rightarrow> Err (MeStateRoomRejected ''m.room.create state event not found in room'')
           | Some create_event \<Rightarrow>
               (let creator = extract_room_creator A create_event
                in if creator \<noteq> own_user_id \<and> \<not> list_ex (\<lambda>c. c = creator) trusted_coordinators then
                     Err (MeStateRoomRejected (''Room creator '' @ [CHR 0x27] @ creator @ [CHR 0x27]
                       @ '' is neither own account nor a trusted coordinator''))
                   else if \<not> list_ex (\<lambda>e. json_str A e ''type'' = Some ''m.room.encryption'') all_state then
                     Err (MeStateRoomRejected (''Room is not encrypted'' @ DASH @ ''m.room.encryption state event missing''))
                   else Okay ())))"

subsection \<open>The rooms of a launcher\<close>

record LauncherTopology =
  lt_space_id :: str
  lt_exec_room_id :: str
  lt_logs_room_id :: str

definition create_launcher_space ::
  "('s, 'v) matrix_sdk \<Rightarrow> str \<Rightarrow> 's \<Rightarrow> (MatrixClientError, LauncherTopology) result \<times> 's" where
  "create_launcher_space A launcher_id s =
     (case sdk_create_room A
            \<lparr>cr_name = Some (''mxdx: '' @ launcher_id), cr_alias = None, cr_topic = Some (''org.mxdx.launcher.space:'' @ launcher_id),
             cr_encrypted = True, cr_joined_history = False, cr_invite = [], cr_direct = False,
             cr_creation = Some \<lparr>cc_space = True, cc_launcher_id = launcher_id, cc_role = ''space''\<rparr>\<rparr> s of
        (Inl e, s) \<Rightarrow> (Err e, s)
      | (Inr space, s) \<Rightarrow>
          (case create_mxdx_encrypted_room A (''mxdx: '' @ launcher_id @ DASH @ ''exec'')
                  (''org.mxdx.launcher.exec:'' @ launcher_id) [] launcher_id ''exec'' s of
             (Inl e, s) \<Rightarrow> (Err e, s)
           | (Inr exec, s) \<Rightarrow>
               (case create_mxdx_encrypted_room A (''mxdx: '' @ launcher_id @ DASH @ ''logs'')
                       (''org.mxdx.launcher.logs:'' @ launcher_id) [] launcher_id ''logs'' s of
                  (Inl e, s) \<Rightarrow> (Err e, s)
                | (Inr logs, s) \<Rightarrow>
                    (let via = sdk_via A (sdk_server_name A)
                     in case send_state_event A space ''m.space.child'' exec via s of
                          (Inl e, s) \<Rightarrow> (Err e, s)
                        | (Inr _, s) \<Rightarrow>
                            (case send_state_event A space ''m.space.child'' logs via s of
                               (Inl e, s) \<Rightarrow> (Err e, s)
                             | (Inr _, s) \<Rightarrow>
                                 (Okay \<lparr>lt_space_id = space, lt_exec_room_id = exec, lt_logs_room_id = logs\<rparr>, s))))))"

fun follow_tombstones :: "('s, 'v) matrix_sdk \<Rightarrow> RestClient \<Rightarrow> 's \<Rightarrow> nat \<Rightarrow> str \<Rightarrow> str" where
  "follow_tombstones A rc s 0 current = current"
| "follow_tombstones A rc s (Suc n) current =
     (case get_room_tombstone A rc current s of
        Inr (Some replacement) \<Rightarrow> follow_tombstones A rc s n replacement
      | _ \<Rightarrow> current)"

definition launcher_role :: "('s, 'v) matrix_sdk \<Rightarrow> RestClient \<Rightarrow> str \<Rightarrow> 's \<Rightarrow> str \<Rightarrow> str option" where
  "launcher_role A rc launcher_id s room =
     (case get_room_create A rc room s of
        Inr (Some create) \<Rightarrow>
          if json_str A create ''org.mxdx.launcher_id'' \<noteq> Some launcher_id then None else json_str A create ''org.mxdx.role''
      | _ \<Rightarrow> None)"

type_synonym found_rooms = "str option \<times> str option \<times> str option"

definition note_room :: "('s, 'v) matrix_sdk \<Rightarrow> RestClient \<Rightarrow> str \<Rightarrow> 's \<Rightarrow> str \<Rightarrow> found_rooms \<Rightarrow> found_rooms" where
  "note_room A rc launcher_id s rid found =
     (case found of
        (space, exec, logs) \<Rightarrow>
          (let current = follow_tombstones A rc s 10 rid; role = launcher_role A rc launcher_id s current
           in if role = Some ''space'' \<and> space = None then (Some current, exec, logs)
              else if role = Some ''exec'' \<and> exec = None then (space, Some current, logs)
              else if role = Some ''logs'' \<and> logs = None then (space, exec, Some current)
              else (space, exec, logs)))"

definition topology_of :: "found_rooms \<Rightarrow> LauncherTopology option" where
  "topology_of found =
     (case found of
        (Some space, Some exec, Some logs) \<Rightarrow> Some \<lparr>lt_space_id = space, lt_exec_room_id = exec, lt_logs_room_id = logs\<rparr>
      | (_, Some exec, _) \<Rightarrow> Some \<lparr>lt_space_id = exec, lt_exec_room_id = exec, lt_logs_room_id = exec\<rparr>
      | _ \<Rightarrow> None)"

definition find_launcher_space_via_rest ::
  "('s, 'v) matrix_sdk \<Rightarrow> str \<Rightarrow> str \<Rightarrow> 's \<Rightarrow> (MatrixClientError, LauncherTopology option) result \<times> 's" where
  "find_launcher_space_via_rest A launcher_id homeserver s =
     (let rc = rest_new homeserver;
          invited = (case list_invited_rooms A rc s of Inl _ \<Rightarrow> [] | Inr rooms \<Rightarrow> rooms);
          s = fold (\<lambda>room s. snd (matrix_join_room A room s)) invited s
      in case list_joined_rooms A rc s of
           Inl e \<Rightarrow> (Err (MeOther e), s)
         | Inr joined \<Rightarrow>
             (Okay (topology_of (fold (note_room A rc launcher_id s) joined (None, None, None))), s))"

definition get_or_create_launcher_space ::
  "('s, 'v) matrix_sdk \<Rightarrow> str \<Rightarrow> 's \<Rightarrow> (MatrixClientError, LauncherTopology) result \<times> 's" where
  "get_or_create_launcher_space A launcher_id s =
     (case find_launcher_space_via_rest A launcher_id (sdk_homeserver A) s of
        (Inl e, s) \<Rightarrow> (Err e, s)
      | (Inr (Some topology), s) \<Rightarrow> (Okay topology, s)
      | (Inr None, s) \<Rightarrow> create_launcher_space A launcher_id s)"

subsection \<open>What is shown of rooms\<close>

text \<open>No two path segments have the same encoding.\<close>

lemma unreserved_not_percent: "unreserved c \<Longrightarrow> c \<noteq> CHR ''%''"
  by (auto simp: unreserved_def less_eq_char_def)

lemma of_char_hex_upper: "d < 16 \<Longrightarrow> (of_char (hex_upper d) :: nat) = (if d < 10 then 48 + d else 55 + d)"
  by (simp add: hex_upper_def)

lemma hex_upper_inj: "a < 16 \<Longrightarrow> b < 16 \<Longrightarrow> hex_upper a = hex_upper b \<longleftrightarrow> a = b"
proof
  assume ab: "a < 16" "b < 16" and "hex_upper a = hex_upper b"
  then have "(of_char (hex_upper a) :: nat) = of_char (hex_upper b)" by simp
  then show "a = b" unfolding of_char_hex_upper [OF ab(1)] of_char_hex_upper [OF ab(2)] using ab by (simp split: if_splits)
qed simp

lemma hex_upper_unreserved: "d < 16 \<Longrightarrow> unreserved (hex_upper d)"
  by (simp add: unreserved_def less_eq_char_def of_char_hex_upper)

lemma char_div_mod_eq:
  assumes "(of_char c :: nat) div 16 = of_char d div 16" and "(of_char c :: nat) mod 16 = of_char d mod 16"
  shows "c = d"
proof -
  from assms have "(of_char c :: nat) = of_char d" by (metis div_mult_mod_eq)
  then show ?thesis by simp
qed

lemma char_div_16: "(of_char c :: nat) div 16 < 16" for c :: char
  by (rule less_mult_imp_div_less) simp

lemma percent_encode_Cons: "percent_encode_path_segment (c # s) = percent_encode_byte c @ percent_encode_path_segment s"
  by (simp add: percent_encode_path_segment_def)

lemma percent_encode_inj: "percent_encode_path_segment s = percent_encode_path_segment t \<longleftrightarrow> s = t"
proof (induction s arbitrary: t)
  case Nil
  show ?case by (cases t) (auto simp: percent_encode_path_segment_def percent_encode_byte_def split: if_splits)
next
  case (Cons c s)
  show ?case
  proof (cases t)
    case Nil
    then show ?thesis by (auto simp: percent_encode_path_segment_def percent_encode_byte_def split: if_splits)
  next
    case t: (Cons d u)
    have "c = d \<and> s = u" if "percent_encode_path_segment (c # s) = percent_encode_path_segment (d # u)"
      using that Cons.IH [of u] unreserved_not_percent [of c] unreserved_not_percent [of d] char_div_mod_eq [of c d]
      by (auto simp: percent_encode_Cons percent_encode_byte_def hex_upper_inj char_div_16 split: if_splits)
    with t show ?thesis by auto
  qed
qed

lemma percent_encode_safe: "list_all (\<lambda>c. unreserved c \<or> c = CHR ''%'') (percent_encode_path_segment s)"
  using char_div_16 hex_upper_unreserved
  by (auto simp: percent_encode_path_segment_def percent_encode_byte_def list_all_iff)

lemma validate_state_room_ok:
  "validate_state_room A room own coords s = Okay () \<longleftrightarrow>
     (\<exists>all_state create_event. get_all_room_state A room s = Okay all_state
        \<and> find (\<lambda>e. json_str A e ''type'' = Some ''m.room.create'') all_state = Some create_event
        \<and> extract_room_creator A create_event \<in> insert own (set coords)
        \<and> (\<exists>e\<in>set all_state. json_str A e ''type'' = Some ''m.room.encryption''))"
  by (auto simp: validate_state_room_def Let_def list_ex_iff split: sum.splits option.splits)

lemma note_room_exec:
  "fst (snd (note_room A rc launcher_id s rid found)) =
     (case fst (snd found) of
        Some exec \<Rightarrow> Some exec
      | None \<Rightarrow> if launcher_role A rc launcher_id s (follow_tombstones A rc s 10 rid) = Some ''exec''
                then Some (follow_tombstones A rc s 10 rid) else None)"
  by (cases found) (auto simp: note_room_def Let_def split: option.split)

lemma fold_note_exec:
  "fst (snd (fold (note_room A rc launcher_id s) joined found)) =
     (case fst (snd found) of
        Some exec \<Rightarrow> Some exec
      | None \<Rightarrow> find (\<lambda>room. launcher_role A rc launcher_id s room = Some ''exec'') (map (follow_tombstones A rc s 10) joined))"
  by (induction joined arbitrary: found) (auto simp: note_room_exec split: option.splits)

lemma topology_exec: "map_option lt_exec_room_id (topology_of found) = fst (snd found)"
  by (auto simp: topology_of_def split: prod.split option.split)

text \<open>
  The exec room a search finds is the first joined room, after its tombstones, that names the launcher and the role in its
  creation event. Who created the room is not asked, and invitations are accepted before: a room
  that anybody creates with these two fields and invites the account to is found, unless another
  comes first.
\<close>

lemma launcher_space_found:
  assumes "find_launcher_space_via_rest A launcher_id homeserver s = (r, s')"
    and "list_joined_rooms A (rest_new homeserver) s' = Okay joined"
  shows "\<exists>t. r = Okay t \<and> map_option lt_exec_room_id t =
    find (\<lambda>room. launcher_role A (rest_new homeserver) launcher_id s' room = Some ''exec'')
      (map (follow_tombstones A (rest_new homeserver) s' 10) joined)"
  using assms by (auto simp: find_launcher_space_via_rest_def Let_def topology_exec fold_note_exec split: sum.splits)

subsection \<open>Replacing rooms that are not encrypted\<close>

text \<open>\<open>crates/mxdx-matrix/src/reencrypt.rs\<close>.\<close>

datatype RoomRole = RoleSpace | RoleExec | RoleLogs

fun replacement_of :: "RoomRole \<Rightarrow> str \<Rightarrow> str \<times> str \<times> str" where
  "replacement_of RoleSpace launcher_id = (''mxdx: '' @ launcher_id, ''org.mxdx.launcher.space:'' @ launcher_id, ''space'')"
| "replacement_of RoleExec launcher_id =
     (''mxdx: '' @ launcher_id @ DASH @ ''exec'', ''org.mxdx.launcher.exec:'' @ launcher_id, ''exec'')"
| "replacement_of RoleLogs launcher_id =
     (''mxdx: '' @ launcher_id @ DASH @ ''logs'', ''org.mxdx.launcher.logs:'' @ launcher_id, ''logs'')"

definition properly_encrypted :: "EncryptionState option \<Rightarrow> bool" where
  "properly_encrypted enc \<longleftrightarrow>
     (case enc of None \<Rightarrow> False | Some e \<Rightarrow> \<not> (es_algorithm e \<noteq> ''m.megolm.v1.aes-sha2'' \<or> \<not> es_encrypt_state_events e))"

definition ensure_encrypted ::
  "('s, 'v) matrix_sdk \<Rightarrow> RestClient \<Rightarrow> str \<Rightarrow> RoomRole \<Rightarrow> str \<Rightarrow> str list \<Rightarrow> 's \<Rightarrow> (MatrixClientError, str) result \<times> 's" where
  "ensure_encrypted A rc room role launcher_id authorized_users s =
     (case get_room_encryption A rc room s of
        Inl e \<Rightarrow> (Err (MeOther e), s)
      | Inr enc \<Rightarrow>
          if properly_encrypted enc then (Okay room, s)
          else
            (case replacement_of role launcher_id of
               (name, topic, role_key) \<Rightarrow>
                 (case create_mxdx_encrypted_room A name topic authorized_users launcher_id role_key s of
                    (Inl e, s) \<Rightarrow> (Err e, s)
                  | (Inr new_id, s) \<Rightarrow>
                      (let s = snd (put_state_event A rc room ''m.room.tombstone'' '''' (sdk_tombstone A new_id) s);
                           s = snd (rest_leave_room A rc room s)
                       in (Okay new_id, s)))))"

definition verify_or_replace_topology ::
  "('s, 'v) matrix_sdk \<Rightarrow> RestClient \<Rightarrow> LauncherTopology \<Rightarrow> str \<Rightarrow> str list \<Rightarrow> 's \<Rightarrow> (MatrixClientError, LauncherTopology) result \<times> 's" where
  "verify_or_replace_topology A rc topology launcher_id authorized_users s =
     (case ensure_encrypted A rc (lt_space_id topology) RoleSpace launcher_id authorized_users s of
        (Inl e, s) \<Rightarrow> (Err e, s)
      | (Inr new_space, s) \<Rightarrow>
          (case ensure_encrypted A rc (lt_exec_room_id topology) RoleExec launcher_id authorized_users s of
             (Inl e, s) \<Rightarrow> (Err e, s)
           | (Inr new_exec, s) \<Rightarrow>
               (case ensure_encrypted A rc (lt_logs_room_id topology) RoleLogs launcher_id authorized_users s of
                  (Inl e, s) \<Rightarrow> (Err e, s)
                | (Inr new_logs, s) \<Rightarrow>
                    (Okay \<lparr>lt_space_id = new_space, lt_exec_room_id = new_exec, lt_logs_room_id = new_logs\<rparr>, s))))"

text \<open>A room is safe if the server reports it as encrypted with state events, or if it was created as an encrypted
  room of the launcher with that role.\<close>

definition safe_room :: "('s, 'v) matrix_sdk \<Rightarrow> RestClient \<Rightarrow> str \<Rightarrow> RoomRole \<Rightarrow> str \<Rightarrow> bool" where
  "safe_room A rc launcher_id role room \<longleftrightarrow>
     (\<exists>t e. get_room_encryption A rc room t = Okay (Some e) \<and> es_algorithm e = ''m.megolm.v1.aes-sha2'' \<and> es_encrypt_state_events e)
     \<or> (\<exists>t t' req. sdk_create_room A req t = (Okay room, t') \<and> cr_encrypted req
          \<and> cr_creation req = Some \<lparr>cc_space = False, cc_launcher_id = launcher_id, cc_role = snd (snd (replacement_of role launcher_id))\<rparr>)"

lemma ensure_encrypted_safe:
  assumes "ensure_encrypted A rc room role launcher_id users s = (Okay room', s')"
  shows "safe_room A rc launcher_id role room'"
proof (cases "\<exists>enc. get_room_encryption A rc room s = Okay enc \<and> properly_encrypted enc")
  case True
  with assms show ?thesis
    by (auto simp: ensure_encrypted_def safe_room_def properly_encrypted_def split: option.splits) blast+
next
  case False
  with assms obtain t t' where "create_mxdx_encrypted_room A (fst (replacement_of role launcher_id))
      (fst (snd (replacement_of role launcher_id))) users launcher_id (snd (snd (replacement_of role launcher_id))) t = (Okay room', t')"
    by (auto simp: ensure_encrypted_def Let_def split: sum.splits prod.splits if_splits)
  then show ?thesis by (fastforce simp: safe_room_def create_mxdx_encrypted_room_def)
qed

lemma topology_encrypted:
  assumes "verify_or_replace_topology A rc topology launcher_id users s = (Okay t, s')"
  shows "safe_room A rc launcher_id RoleSpace (lt_space_id t) \<and> safe_room A rc launcher_id RoleExec (lt_exec_room_id t)
    \<and> safe_room A rc launcher_id RoleLogs (lt_logs_room_id t)"
  using assms by (auto simp: verify_or_replace_topology_def split: sum.splits prod.splits dest: ensure_encrypted_safe)

lemma encrypted_topology_kept:
  assumes "\<And>room. room \<in> {lt_space_id t, lt_exec_room_id t, lt_logs_room_id t} \<Longrightarrow>
      \<exists>enc. get_room_encryption A rc room s = Okay enc \<and> properly_encrypted enc"
  shows "verify_or_replace_topology A rc t launcher_id users s = (Okay t, s)"
proof -
  have "ensure_encrypted A rc room role launcher_id users s = (Okay room, s)"
    if "room \<in> {lt_space_id t, lt_exec_room_id t, lt_logs_room_id t}" for room role
    using assms [OF that] by (auto simp: ensure_encrypted_def)
  then show ?thesis by (simp add: verify_or_replace_topology_def)
qed

text \<open>The replacement of a space is created like the other rooms: it is not a space.\<close>

lemma replaced_space_not_a_space:
  assumes "get_room_encryption A rc room s = Okay None"
    and "ensure_encrypted A rc room RoleSpace launcher_id users s = (Okay room', s')"
  shows "\<exists>t req. sdk_create_room A req s = (Okay room', t) \<and> (\<exists>c. cr_creation req = Some c \<and> \<not> cc_space c)"
  using assms
  by (fastforce simp: ensure_encrypted_def properly_encrypted_def create_mxdx_encrypted_room_def Let_def split: sum.splits prod.splits)

definition replaces ::
  "('s, 'v) matrix_sdk \<Rightarrow> RestClient \<Rightarrow> str \<Rightarrow> str list \<Rightarrow> str \<Rightarrow> RoomRole \<Rightarrow> str \<Rightarrow> 's \<Rightarrow> 's \<Rightarrow> bool" where
  "replaces A rc launcher_id users room role new s s' \<longleftrightarrow>
     (\<exists>u. create_mxdx_encrypted_room A (fst (replacement_of role launcher_id)) (fst (snd (replacement_of role launcher_id))) users
            launcher_id (snd (snd (replacement_of role launcher_id))) s = (Okay new, u)
        \<and> s' = snd (rest_leave_room A rc room (snd (put_state_event A rc room ''m.room.tombstone'' '''' (sdk_tombstone A new) u))))"

lemma ensure_encrypted_replaces:
  assumes "get_room_encryption A rc room s = Okay None" and "ensure_encrypted A rc room role launcher_id users s = (Okay new, s')"
  shows "replaces A rc launcher_id users room role new s s'"
  using assms by (auto simp: replaces_def ensure_encrypted_def properly_encrypted_def Let_def split: sum.splits prod.splits)

text \<open>A topology that a partial search returns, one room in all three roles, is replaced role by role: a room that is
  not encrypted gets three successors, and the last tombstone names the successor for the logs.\<close>

lemma partial_topology_replaced_thrice:
  assumes plain: "\<And>t. get_room_encryption A rc room t = Okay None"
    and "verify_or_replace_topology A rc \<lparr>lt_space_id = room, lt_exec_room_id = room, lt_logs_room_id = room\<rparr> launcher_id users s = (Okay t, s')"
  shows "\<exists>s1 s2. replaces A rc launcher_id users room RoleSpace (lt_space_id t) s s1
    \<and> replaces A rc launcher_id users room RoleExec (lt_exec_room_id t) s1 s2
    \<and> replaces A rc launcher_id users room RoleLogs (lt_logs_room_id t) s2 s'"
  using assms(2) ensure_encrypted_replaces [OF plain]
  by (auto simp: verify_or_replace_topology_def split: sum.splits prod.splits) blast

end
