(* ===== verification/State_Room.thy ===== *)
theory State_Room
  imports Matrix_Rooms Keychain
begin

section \<open>The state room of a worker\<close>

text \<open>
  \<open>crates/mxdx-worker/src/state_room.rs\<close> with its records (\<open>mxdx-types/src/events/state_room.rs\<close>), and its use by \<open>run_worker\<close>:
  finding or creating the room, its entries, and the lease by which one worker at a time owns it. The
  lease is shown exclusive, over all interleavings of the calls of several workers, as long as no lease
  runs out and no write falls between the two calls of an acquisition; that it is not exclusive
  otherwise is shown as well. Serde is the record \<open>state_codec\<close>.
\<close>

subsection \<open>Records\<close>

definition WORKER_STATE_CONFIG :: str where "WORKER_STATE_CONFIG = ''org.mxdx.worker.config''"
definition WORKER_STATE_IDENTITY :: str where "WORKER_STATE_IDENTITY = ''org.mxdx.worker.identity''"
definition WORKER_STATE_ROOM :: str where "WORKER_STATE_ROOM = ''org.mxdx.worker.room''"
definition WORKER_STATE_SESSION :: str where "WORKER_STATE_SESSION = ''org.mxdx.worker.session''"
definition WORKER_STATE_TOPOLOGY :: str where "WORKER_STATE_TOPOLOGY = ''org.mxdx.worker.topology''"
definition WORKER_STATE_ROOM_POINTER :: str where "WORKER_STATE_ROOM_POINTER = ''org.mxdx.worker.state_room''"
definition WORKER_STATE_TRUSTED_CLIENT :: str where "WORKER_STATE_TRUSTED_CLIENT = ''org.mxdx.worker.trusted_client''"
definition WORKER_STATE_TRUSTED_COORDINATOR :: str where
  "WORKER_STATE_TRUSTED_COORDINATOR = ''org.mxdx.worker.trusted_coordinator''"
definition WORKER_STATE_LOCK :: str where "WORKER_STATE_LOCK = ''org.mxdx.worker.lock''"

record WorkerStateConfig =
  wsc_room_name :: str
  wsc_trust_anchor :: "str option"
  wsc_capabilities :: "str list"
  wsc_created_at :: u64

record WorkerStateIdentity =
  wsi_device_id :: str
  wsi_host :: str
  wsi_os_user :: str

record StateRoomSession =
  srs_uuid :: str
  srs_bin :: str
  srs_args :: "str list"
  srs_tmux_session :: "str option"
  srs_started_at :: u64
  srs_thread_root :: str
  srs_exec_room_id :: str
  srs_state :: str

record StateRoomEntry =
  sre_room_id :: str
  sre_room_name :: "str option"
  sre_space_id :: "str option"
  sre_role :: str
  sre_joined_at :: u64

record TrustedEntity =
  tre_user_id :: str
  tre_verified_at :: u64
  tre_verified_by_device :: str

record StateRoomTopology =
  srt_space_id :: str
  srt_exec_room_id :: str
  srt_logs_room_id :: str

record StateRoomPointer =
  srp_room_id :: str
  srp_device_id :: str
  srp_hostname :: str
  srp_os_user :: str

record WorkerStateLock =
  wsl_device_id :: str
  wsl_worker_uuid :: str
  wsl_host :: str
  wsl_os_user :: str
  wsl_acquired_at :: u64
  wsl_expires_at :: u64

record 'v state_codec =
  ser_config :: "WorkerStateConfig \<Rightarrow> 'v"
  de_config :: "'v \<Rightarrow> (str, WorkerStateConfig) result"
  ser_identity :: "WorkerStateIdentity \<Rightarrow> 'v"
  ser_session :: "StateRoomSession \<Rightarrow> 'v"
  de_session :: "'v \<Rightarrow> (str, StateRoomSession) result"
  ser_entry :: "StateRoomEntry \<Rightarrow> 'v"
  de_entry :: "'v \<Rightarrow> (str, StateRoomEntry) result"
  ser_trusted :: "TrustedEntity \<Rightarrow> 'v"
  de_trusted :: "'v \<Rightarrow> (str, TrustedEntity) result"
  ser_topology :: "StateRoomTopology \<Rightarrow> 'v"
  de_topology :: "'v \<Rightarrow> (str, StateRoomTopology) result"
  ser_pointer :: "StateRoomPointer \<Rightarrow> 'v"
  ser_lock :: "WorkerStateLock \<Rightarrow> 'v"
  de_lock :: "'v \<Rightarrow> (str, WorkerStateLock) result"

subsection \<open>Finding or creating the room\<close>

text \<open>The errors of \<open>anyhow\<close> are their texts.\<close>

definition anyhow :: "(MatrixClientError, 'a) result \<Rightarrow> (str, 'a) result" where
  "anyhow r = map_sum matrix_error_text id r"

lemma anyhow_Okay [simp]: "anyhow r = Okay a \<longleftrightarrow> r = Okay a" "Okay a = anyhow r \<longleftrightarrow> r = Okay a"
  by (cases r; auto simp: anyhow_def)+

lemma apfst_Okay [simp]: "apfst anyhow p = (Okay a, t) \<longleftrightarrow> p = (Okay a, t)"
  by (cases p) auto

definition cached_state_room ::
  "('s, 'v) matrix_sdk \<Rightarrow> 'k keychain_ops \<Rightarrow> (KeychainError \<Rightarrow> str) \<Rightarrow> str list \<Rightarrow> 's \<Rightarrow> 'k \<Rightarrow> (str, str option) result" where
  "cached_state_room A K show_kc coords s k =
     (case kc_get K (state_room_key (sdk_user_id A)) k of
        Inl e \<Rightarrow> Err (show_kc e)
      | Inr None \<Rightarrow> Okay None
      | Inr (Some data) \<Rightarrow>
          Okay (case from_utf8 data of
                  None \<Rightarrow> None
                | Some room \<Rightarrow>
                    if isl (sdk_valid_room A room) then None
                    else (case validate_state_room A room (sdk_user_id A) coords s of Inl _ \<Rightarrow> None | Inr _ \<Rightarrow> Some room)))"

definition ensure_joined :: "('s, 'v) matrix_sdk \<Rightarrow> str \<Rightarrow> 's \<Rightarrow> (str, bool) result \<times> 's" where
  "ensure_joined A room s =
     (case matrix_sync_once A s of
        (Inl e, s) \<Rightarrow> (Err (matrix_error_text e), s)
      | (Inr _, s) \<Rightarrow>
          if list_ex (\<lambda>(r, _). r = room) (sdk_joined A s) then (Okay True, s)
          else (case matrix_join_room A room s of (Inl _, s) \<Rightarrow> (Okay False, s) | (Inr _, s) \<Rightarrow> (Okay True, s)))"

definition discovered_state_room ::
  "('s, 'v) matrix_sdk \<Rightarrow> str \<Rightarrow> str \<Rightarrow> str \<Rightarrow> str list \<Rightarrow> 's \<Rightarrow> (str, str option) result \<times> 's" where
  "discovered_state_room A hostname os_user localpart coords s =
     (case find_worker_state_room A hostname os_user localpart s of
        (Inl e, s) \<Rightarrow> (Err (matrix_error_text e), s)
      | (Inr None, s) \<Rightarrow> (Okay None, s)
      | (Inr (Some room), s) \<Rightarrow>
          (case ensure_joined A room s of
             (Inl e, s) \<Rightarrow> (Err e, s)
           | (Inr join_ok, s) \<Rightarrow>
               (Okay (if join_ok \<and> \<not> isl (validate_state_room A room (sdk_user_id A) coords s) then Some room else None), s)))"

definition new_state_room ::
  "('s, 'v) matrix_sdk \<Rightarrow> str \<Rightarrow> str \<Rightarrow> str \<Rightarrow> 's \<Rightarrow> (str, str) result \<times> 's" where
  "new_state_room A hostname os_user localpart s =
     (case create_worker_state_room A hostname os_user localpart s of
        (Inr room, s) \<Rightarrow> (Okay room, s)
      | (Inl e, s) \<Rightarrow>
          if contains_str (matrix_error_text e) ''M_ROOM_IN_USE'' then
            (case delete_room_alias A (state_room_alias A hostname os_user localpart) s of
               (Inl e, s) \<Rightarrow> (Err (matrix_error_text e), s)
             | (Inr _, s) \<Rightarrow> apfst anyhow (create_worker_state_room A hostname os_user localpart s))
          else (Err (matrix_error_text e), s))"

definition write_identity ::
  "('s, 'v) matrix_sdk \<Rightarrow> 'v state_codec \<Rightarrow> str \<Rightarrow> str \<Rightarrow> str \<Rightarrow> 's \<Rightarrow> (str, unit) result \<times> 's" where
  "write_identity A J room hostname os_user s =
     apfst anyhow (send_state_event A room WORKER_STATE_IDENTITY ''''
       (ser_identity J \<lparr>wsi_device_id = (case sdk_device_id A of Some d \<Rightarrow> d | None \<Rightarrow> ''''), wsi_host = hostname, wsi_os_user = os_user\<rparr>) s)"

definition get_or_create ::
  "('s, 'v) matrix_sdk \<Rightarrow> 'v state_codec \<Rightarrow> 'k keychain_ops \<Rightarrow> (KeychainError \<Rightarrow> str) \<Rightarrow> str \<Rightarrow> str \<Rightarrow> str \<Rightarrow> str list \<Rightarrow> 's \<times> 'k \<Rightarrow>
   (str, str) result \<times> 's \<times> 'k" where
  "get_or_create A J K show_kc hostname os_user localpart coords st =
     (case st of
        (s, k) \<Rightarrow>
          (case cached_state_room A K show_kc coords s k of
             Inl e \<Rightarrow> (Err e, s, k)
           | Inr (Some room) \<Rightarrow> (Okay room, s, k)
           | Inr None \<Rightarrow>
               (let cache = (\<lambda>room. snd (kc_set K (state_room_key (sdk_user_id A)) (as_bytes room) k))
                in case discovered_state_room A hostname os_user localpart coords s of
                     (Inl e, s) \<Rightarrow> (Err e, s, k)
                   | (Inr (Some room), s) \<Rightarrow> (Okay room, s, cache room)
                   | (Inr None, s) \<Rightarrow>
                       (case new_state_room A hostname os_user localpart s of
                          (Inl e, s) \<Rightarrow> (Err e, s, k)
                        | (Inr room, s) \<Rightarrow>
                            (case write_identity A J room hostname os_user s of
                               (Inl e, s) \<Rightarrow> (Err e, s, cache room)
                             | (Inr _, s) \<Rightarrow> (Okay room, s, cache room))))))"

subsection \<open>Entries\<close>

definition is_empty_content :: "'v value_api \<Rightarrow> 'v \<Rightarrow> bool" where
  "is_empty_content V v \<longleftrightarrow> object_len V v = Some 0 \<or> is_null V v"

definition deserialize_if_present ::
  "'v value_api \<Rightarrow> ('v \<Rightarrow> (str, 'a) result) \<Rightarrow> 'v \<Rightarrow> (str, 'a option) result" where
  "deserialize_if_present V de v =
     (if value_get V v ''errcode'' \<noteq> None then Okay None
      else if is_empty_content V v then Okay None
      else map_sum id Some (de v))"

definition state_entries :: "'v value_api \<Rightarrow> ('v \<Rightarrow> (str, 'a) result) \<Rightarrow> (str \<times> 'v) list \<Rightarrow> 'a list" where
  "state_entries V de entries =
     List.map_filter (\<lambda>(_, content).
       if is_empty_content V content then None else (case de content of Inl _ \<Rightarrow> None | Inr item \<Rightarrow> Some item)) entries"

definition deserialize_all_of_type ::
  "('s, 'v) matrix_sdk \<Rightarrow> ('v \<Rightarrow> (str, 'a) result) \<Rightarrow> str \<Rightarrow> str \<Rightarrow> 's \<Rightarrow> (str, 'a list) result" where
  "deserialize_all_of_type A de room event_type s =
     map_sum id (state_entries (sdk_values A) de) (anyhow (get_all_state_events_of_type A room event_type s))"

definition read_single ::
  "('s, 'v) matrix_sdk \<Rightarrow> ('v \<Rightarrow> (str, 'a) result) \<Rightarrow> str \<Rightarrow> str \<Rightarrow> 's \<Rightarrow> (str, 'a option) result" where
  "read_single A de room event_type s =
     (case get_room_state_event A room event_type '''' s of
        Inl e \<Rightarrow> Err (matrix_error_text e)
      | Inr v \<Rightarrow> deserialize_if_present (sdk_values A) de v)"

definition send_state :: "('s, 'v) matrix_sdk \<Rightarrow> str \<Rightarrow> str \<Rightarrow> str \<Rightarrow> 'v \<Rightarrow> 's \<Rightarrow> (str, unit) result \<times> 's" where
  "send_state A room event_type state_key content s = apfst anyhow (send_state_event A room event_type state_key content s)"

definition format_session_key :: "str \<Rightarrow> str \<Rightarrow> str" where
  "format_session_key device_id uuid = device_id @ ''/'' @ uuid"

definition write_config :: "('s, 'v) matrix_sdk \<Rightarrow> 'v state_codec \<Rightarrow> str \<Rightarrow> WorkerStateConfig \<Rightarrow> 's \<Rightarrow> (str, unit) result \<times> 's" where
  "write_config A J room config s = send_state A room WORKER_STATE_CONFIG '''' (ser_config J config) s"

definition read_config :: "('s, 'v) matrix_sdk \<Rightarrow> 'v state_codec \<Rightarrow> str \<Rightarrow> 's \<Rightarrow> (str, WorkerStateConfig option) result" where
  "read_config A J room s = read_single A (de_config J) room WORKER_STATE_CONFIG s"

definition write_session ::
  "('s, 'v) matrix_sdk \<Rightarrow> 'v state_codec \<Rightarrow> str \<Rightarrow> str \<Rightarrow> str \<Rightarrow> StateRoomSession \<Rightarrow> 's \<Rightarrow> (str, unit) result \<times> 's" where
  "write_session A J room device_id uuid session s =
     send_state A room WORKER_STATE_SESSION (format_session_key device_id uuid) (ser_session J session) s"

definition state_room_remove_session :: "('s, 'v) matrix_sdk \<Rightarrow> str \<Rightarrow> str \<Rightarrow> str \<Rightarrow> 's \<Rightarrow> (str, unit) result \<times> 's" where
  "state_room_remove_session A room device_id uuid s =
     send_state A room WORKER_STATE_SESSION (format_session_key device_id uuid) (sdk_empty A) s"

definition read_sessions :: "('s, 'v) matrix_sdk \<Rightarrow> 'v state_codec \<Rightarrow> str \<Rightarrow> 's \<Rightarrow> (str, StateRoomSession list) result" where
  "read_sessions A J room s = deserialize_all_of_type A (de_session J) room WORKER_STATE_SESSION s"

definition write_room ::
  "('s, 'v) matrix_sdk \<Rightarrow> 'v state_codec \<Rightarrow> str \<Rightarrow> str \<Rightarrow> StateRoomEntry \<Rightarrow> 's \<Rightarrow> (str, unit) result \<times> 's" where
  "write_room A J room room_id_key entry s = send_state A room WORKER_STATE_ROOM room_id_key (ser_entry J entry) s"

definition read_rooms :: "('s, 'v) matrix_sdk \<Rightarrow> 'v state_codec \<Rightarrow> str \<Rightarrow> 's \<Rightarrow> (str, StateRoomEntry list) result" where
  "read_rooms A J room s = deserialize_all_of_type A (de_entry J) room WORKER_STATE_ROOM s"

definition write_trusted_client ::
  "('s, 'v) matrix_sdk \<Rightarrow> 'v state_codec \<Rightarrow> str \<Rightarrow> str \<Rightarrow> TrustedEntity \<Rightarrow> 's \<Rightarrow> (str, unit) result \<times> 's" where
  "write_trusted_client A J room user_id entity s =
     send_state A room WORKER_STATE_TRUSTED_CLIENT user_id (ser_trusted J entity) s"

definition read_trusted_clients :: "('s, 'v) matrix_sdk \<Rightarrow> 'v state_codec \<Rightarrow> str \<Rightarrow> 's \<Rightarrow> (str, TrustedEntity list) result" where
  "read_trusted_clients A J room s = deserialize_all_of_type A (de_trusted J) room WORKER_STATE_TRUSTED_CLIENT s"

definition write_trusted_coordinator ::
  "('s, 'v) matrix_sdk \<Rightarrow> 'v state_codec \<Rightarrow> str \<Rightarrow> str \<Rightarrow> TrustedEntity \<Rightarrow> 's \<Rightarrow> (str, unit) result \<times> 's" where
  "write_trusted_coordinator A J room user_id entity s =
     send_state A room WORKER_STATE_TRUSTED_COORDINATOR user_id (ser_trusted J entity) s"

definition read_trusted_coordinators ::
  "('s, 'v) matrix_sdk \<Rightarrow> 'v state_codec \<Rightarrow> str \<Rightarrow> 's \<Rightarrow> (str, TrustedEntity list) result" where
  "read_trusted_coordinators A J room s = deserialize_all_of_type A (de_trusted J) room WORKER_STATE_TRUSTED_COORDINATOR s"

definition write_topology ::
  "('s, 'v) matrix_sdk \<Rightarrow> 'v state_codec \<Rightarrow> str \<Rightarrow> StateRoomTopology \<Rightarrow> 's \<Rightarrow> (str, unit) result \<times> 's" where
  "write_topology A J room topology s = send_state A room WORKER_STATE_TOPOLOGY '''' (ser_topology J topology) s"

definition read_topology :: "('s, 'v) matrix_sdk \<Rightarrow> 'v state_codec \<Rightarrow> str \<Rightarrow> 's \<Rightarrow> (str, StateRoomTopology option) result" where
  "read_topology A J room s = read_single A (de_topology J) room WORKER_STATE_TOPOLOGY s"

definition advertise_in_exec_room ::
  "('s, 'v) matrix_sdk \<Rightarrow> 'v state_codec \<Rightarrow> str \<Rightarrow> str \<Rightarrow> str \<Rightarrow> str \<Rightarrow> str \<Rightarrow> 's \<Rightarrow> (str, unit) result \<times> 's" where
  "advertise_in_exec_room A J room exec_room_id device_id hostname os_user s =
     send_state A exec_room_id WORKER_STATE_ROOM_POINTER device_id
       (ser_pointer J \<lparr>srp_room_id = room, srp_device_id = device_id, srp_hostname = hostname, srp_os_user = os_user\<rparr>) s"

text \<open>The primary must accept a write; the secondaries get it whatever the others answer.\<close>

definition write_state_confirmed ::
  "('s, 'v) matrix_sdk \<Rightarrow> ('s, 'v) matrix_sdk list \<Rightarrow> str \<Rightarrow> str \<Rightarrow> str \<Rightarrow> 'v \<Rightarrow> 's \<Rightarrow> (str, unit) result \<times> 's" where
  "write_state_confirmed primary secondaries room event_type state_key content s =
     (case send_state primary room event_type state_key content s of
        (Inl e, s) \<Rightarrow> (Err e, s)
      | (Inr _, s) \<Rightarrow>
          (Okay (), fold (\<lambda>secondary s. snd (send_state_event secondary room event_type state_key content s)) secondaries s))"

subsection \<open>The lease\<close>

definition read_lock :: "('s, 'v) matrix_sdk \<Rightarrow> 'v state_codec \<Rightarrow> str \<Rightarrow> 's \<Rightarrow> (str, WorkerStateLock option) result" where
  "read_lock A J room s = read_single A (de_lock J) room WORKER_STATE_LOCK s"

definition lock_free :: "WorkerStateLock option \<Rightarrow> WorkerStateLock \<Rightarrow> u64 \<Rightarrow> bool" where
  "lock_free existing lock now_ms \<longleftrightarrow>
     (case existing of
        None \<Rightarrow> True
      | Some l \<Rightarrow> wsl_device_id l = wsl_device_id lock \<or> \<not> wsl_expires_at l > now_ms)"

definition renew_lock :: "('s, 'v) matrix_sdk \<Rightarrow> 'v state_codec \<Rightarrow> str \<Rightarrow> WorkerStateLock \<Rightarrow> 's \<Rightarrow> (str, unit) result \<times> 's" where
  "renew_lock A J room lock s = send_state A room WORKER_STATE_LOCK '''' (ser_lock J lock) s"

text \<open>The two calls of \<open>try_acquire_lock\<close>: it reads the lock and decides, and then writes its own.\<close>

definition acquire_read ::
  "('s, 'v) matrix_sdk \<Rightarrow> 'v state_codec \<Rightarrow> str \<Rightarrow> WorkerStateLock \<Rightarrow> u64 \<Rightarrow> 's \<Rightarrow> (str, bool) result" where
  "acquire_read A J room lock now_ms s =
     map_sum id (\<lambda>existing. lock_free existing lock now_ms) (read_lock A J room s)"

definition acquire_write ::
  "('s, 'v) matrix_sdk \<Rightarrow> 'v state_codec \<Rightarrow> str \<Rightarrow> WorkerStateLock \<Rightarrow> 's \<Rightarrow> (str, bool) result \<times> 's" where
  "acquire_write A J room lock s =
     apfst (map_sum id (\<lambda>_. True)) (send_state A room WORKER_STATE_LOCK [] (ser_lock J lock) s)"

definition try_acquire_lock ::
  "('s, 'v) matrix_sdk \<Rightarrow> 'v state_codec \<Rightarrow> str \<Rightarrow> WorkerStateLock \<Rightarrow> u64 \<Rightarrow> 's \<Rightarrow> (str, bool) result \<times> 's" where
  "try_acquire_lock A J room lock now_ms s =
     (case acquire_read A J room lock now_ms s of
        Inl e \<Rightarrow> (Err e, s)
      | Inr False \<Rightarrow> (Okay False, s)
      | Inr True \<Rightarrow> acquire_write A J room lock s)"

definition release_lock :: "('s, 'v) matrix_sdk \<Rightarrow> str \<Rightarrow> 's \<Rightarrow> (str, unit) result \<times> 's" where
  "release_lock A room s = send_state A room WORKER_STATE_LOCK '''' (sdk_empty A) s"

subsection \<open>How a worker uses the room\<close>

record lease_owner =
  lo_device_id :: str
  lo_worker_uuid :: str
  lo_host :: str
  lo_os_user :: str
  lo_ttl_ms :: u64

definition lock_ttl_ms :: "u64 \<Rightarrow> u64" where
  "lock_ttl_ms refresh_seconds = (if 2 * unat refresh_seconds < 2 ^ 64 then refresh_seconds * 2 else - 1) * 1000"

definition lease_lock :: "lease_owner \<Rightarrow> u64 \<Rightarrow> WorkerStateLock" where
  "lease_lock W now_ms =
     \<lparr>wsl_device_id = lo_device_id W, wsl_worker_uuid = lo_worker_uuid W, wsl_host = lo_host W, wsl_os_user = lo_os_user W,
      wsl_acquired_at = now_ms, wsl_expires_at = now_ms + lo_ttl_ms W\<rparr>"

record lease_state =
  ls_lock_held :: bool
  ls_state_room :: "str option"
  ls_thread_roots :: "str \<rightharpoonup> str"

definition recover_thread_roots :: "(str, StateRoomSession list) result \<Rightarrow> (str \<rightharpoonup> str) \<Rightarrow> str \<rightharpoonup> str" where
  "recover_thread_roots sessions roots =
     (case sessions of
        Inl _ \<Rightarrow> roots
      | Inr ss \<Rightarrow> fold (\<lambda>x m. m(srs_uuid x \<mapsto> srs_thread_root x)) ss roots)"

definition setup_state_room ::
  "('s, 'v) matrix_sdk \<Rightarrow> 'v state_codec \<Rightarrow> 'k keychain_ops \<Rightarrow> (KeychainError \<Rightarrow> str) \<Rightarrow> lease_owner \<Rightarrow> str \<Rightarrow> str \<Rightarrow> u64 \<Rightarrow>
   (str \<rightharpoonup> str) \<Rightarrow> 's \<times> 'k \<Rightarrow> (str, lease_state) result \<times> 's \<times> 'k" where
  "setup_state_room A J K show_kc W localpart exec_room now_ms roots st =
     (case get_or_create A J K show_kc (lo_host W) (lo_os_user W) localpart [] st of
        (Inl e, s, k) \<Rightarrow> (Okay \<lparr>ls_lock_held = False, ls_state_room = None, ls_thread_roots = roots\<rparr>, s, k)
      | (Inr room, s, k) \<Rightarrow>
          (case try_acquire_lock A J room (lease_lock W now_ms) now_ms s of
             (acquired, s) \<Rightarrow>
               if acquired = Okay False then
                 (Err ''another worker holds the state room lock; refusing to start a second instance'', s, k)
               else
                 (let roots = recover_thread_roots (read_sessions A J room s) roots;
                      s = snd (write_topology A J room \<lparr>srt_space_id = '''', srt_exec_room_id = exec_room, srt_logs_room_id = ''''\<rparr> s);
                      s = snd (advertise_in_exec_room A J room exec_room (lo_device_id W) (lo_host W) (lo_os_user W) s)
                  in (Okay \<lparr>ls_lock_held = (acquired = Okay True), ls_state_room = Some room, ls_thread_roots = roots\<rparr>, s, k))))"

definition renew_tick ::
  "('s, 'v) matrix_sdk \<Rightarrow> 'v state_codec \<Rightarrow> lease_owner \<Rightarrow> u64 \<Rightarrow> lease_state \<Rightarrow> 's \<Rightarrow> 's" where
  "renew_tick A J W now_ms ls s =
     (if ls_lock_held ls then
        (case ls_state_room ls of None \<Rightarrow> s | Some room \<Rightarrow> snd (renew_lock A J room (lease_lock W now_ms) s))
      else s)"

definition release_on_shutdown :: "('s, 'v) matrix_sdk \<Rightarrow> lease_state \<Rightarrow> 's \<Rightarrow> 's" where
  "release_on_shutdown A ls s =
     (if ls_lock_held ls then (case ls_state_room ls of None \<Rightarrow> s | Some room \<Rightarrow> snd (release_lock A room s)) else s)"

subsection \<open>The room is trusted\<close>

definition demo_sdk :: "(WorkerStateLock option, WorkerStateLock option) matrix_sdk" where
  "demo_sdk =
     \<lparr>sdk_values = \<lparr>is_null = (\<lambda>v. v = None), object_len = (\<lambda>_. None), value_get = (\<lambda>_ _. None), as_str = (\<lambda>_. None),
        as_u64 = (\<lambda>_. None), as_array = (\<lambda>_. None)\<rparr>,
      sdk_as_bool = (\<lambda>_. None), sdk_object_keys = (\<lambda>_. None), sdk_de_joined = (\<lambda>_. Okay []), sdk_empty = None,
      sdk_via = (\<lambda>_. None), sdk_tombstone = (\<lambda>_. None), sdk_url_encode = (\<lambda>u. u), sdk_valid_room = (\<lambda>_. Okay ()),
      sdk_user_id = ''@w:h'', sdk_server_name = ''h'', sdk_localpart = (\<lambda>u. u), sdk_device_id = Some ''A'', sdk_homeserver = ''h/'',
      http_get = (\<lambda>_ s. Okay \<lparr>hr_status = 200, hr_status_text = '''', hr_json = Okay s, hr_text = ''''\<rparr>),
      http_delete = (\<lambda>_ s. (Err '''', s)), http_put = (\<lambda>_ _ s. (Err '''', s)), http_post = (\<lambda>_ _ s. (Err '''', s)),
      sdk_get_room = (\<lambda>_ _. True), sdk_send_state = (\<lambda>_ _ _ v _. (Okay (), v)),
      sdk_create_room = (\<lambda>_ s. (Okay ''!new'', s)), sdk_sync = (\<lambda>s. (Okay (), s)), sdk_join = (\<lambda>_ s. (Okay (), s)),
      sdk_joined = (\<lambda>_. [])\<rparr>"

definition demo_codec :: "WorkerStateLock option state_codec" where
  "demo_codec =
     \<lparr>ser_config = (\<lambda>_. None), de_config = (\<lambda>_. Err ''''), ser_identity = (\<lambda>_. None), ser_session = (\<lambda>_. None),
      de_session = (\<lambda>_. Err ''''), ser_entry = (\<lambda>_. None), de_entry = (\<lambda>_. Err ''''), ser_trusted = (\<lambda>_. None),
      de_trusted = (\<lambda>_. Err ''''), ser_topology = (\<lambda>_. None), de_topology = (\<lambda>_. Err ''''), ser_pointer = (\<lambda>_. None),
      ser_lock = Some, de_lock = (\<lambda>v. case v of Some l \<Rightarrow> Okay l | None \<Rightarrow> Err '''')\<rparr>"

lemma map_sum_left_Okay [simp]: "map_sum f id r = Okay a \<longleftrightarrow> r = Okay a"
  by (cases r) auto

text \<open>What a successful validation says about the answer of the server.\<close>

lemma validated_state:
  assumes "validate_state_room A room own coords t = Okay ()"
  shows "\<exists>r body all_state create_event.
          http_get A (sdk_homeserver A @ ''_matrix/client/v3/rooms/'' @ room @ ''/state'') t = Okay r
        \<and> 200 \<le> hr_status r \<and> hr_status r < 300 \<and> hr_json r = Okay body
        \<and> as_array (sdk_values A) body = Some all_state
        \<and> find (\<lambda>e. json_str A e ''type'' = Some ''m.room.create'') all_state = Some create_event
        \<and> (case Option.bind (value_get (sdk_values A) create_event ''content'') (\<lambda>c. json_str A c ''creator'') of
              Some creator \<Rightarrow> creator \<in> insert own (set coords)
            | None \<Rightarrow> (case json_str A create_event ''sender'' of
                Some sender \<Rightarrow> sender \<in> insert own (set coords) | None \<Rightarrow> [] \<in> insert own (set coords)))
        \<and> (\<exists>e\<in>set all_state. json_str A e ''type'' = Some ''m.room.encryption'')"
proof -
  obtain all_state create_event where st: "get_all_room_state A room t = Okay all_state"
    and found: "find (\<lambda>e. json_str A e ''type'' = Some ''m.room.create'') all_state = Some create_event"
    and creator: "extract_room_creator A create_event \<in> insert own (set coords)"
    and enc: "\<exists>e\<in>set all_state. json_str A e ''type'' = Some ''m.room.encryption''"
    using assms unfolding validate_state_room_ok by blast
  obtain r body where r: "http_get A (sdk_homeserver A @ ''_matrix/client/v3/rooms/'' @ room @ ''/state'') t = Okay r"
    "200 \<le> hr_status r" "hr_status r < 300" "hr_json r = Okay body"
    and all: "all_state = (case as_array (sdk_values A) body of Some events \<Rightarrow> events | None \<Rightarrow> [])"
    using st by (auto simp: get_all_room_state_def is_success_def split: sum.splits if_splits)
  have "as_array (sdk_values A) body = Some all_state" using all found by (auto split: option.splits)
  moreover have "case Option.bind (value_get (sdk_values A) create_event ''content'') (\<lambda>c. json_str A c ''creator'') of
              Some creator \<Rightarrow> creator \<in> insert own (set coords)
            | None \<Rightarrow> (case json_str A create_event ''sender'' of
                Some sender \<Rightarrow> sender \<in> insert own (set coords) | None \<Rightarrow> [] \<in> insert own (set coords))"
    using creator unfolding extract_room_creator_def by (simp split: option.splits)
  ultimately show ?thesis using r found enc by blast
qed

text \<open>
  C26. Which room a worker uses for its state. When the search for the state room ends with a room,
  then either this search created it, with encryption, without invitations, under the alias of this
  host, user and account, and wrote the identity of the worker into it; or the server answered the
  request for the state of the room, at the start or at the end of the search, with a successful
  list of events that has an encryption event and whose first creation event names the worker's
  own account or a trusted coordinator: in the field \<open>creator\<close> of its content, and only without that
  field as its sender. (Since room version 11 the server does not check the field.)
\<close>

theorem state_room_trusted:
  assumes "get_or_create A J K show_kc hostname os_user localpart coords (s, k) = (Okay room, s', k')"
    and "name = hostname @ ''.'' @ os_user @ ''.'' @ localpart"
    and "trusted = insert (sdk_user_id A) (set coords)"
  shows "(\<exists>t t'. sdk_create_room A
          \<lparr>cr_name = Some (''mxdx: state'' @ DASH @ name), cr_alias = Some (''mxdx-state-'' @ name),
           cr_topic = Some (''org.mxdx.worker.state:'' @ name), cr_encrypted = True, cr_joined_history = True,
           cr_invite = [], cr_direct = False, cr_creation = None\<rparr> t = (Okay room, t')
        \<and> sdk_get_room A room t'
        \<and> sdk_send_state A room ''org.mxdx.worker.identity'' []
            (ser_identity J \<lparr>wsi_device_id = (case sdk_device_id A of Some d \<Rightarrow> d | None \<Rightarrow> []),
               wsi_host = hostname, wsi_os_user = os_user\<rparr>) t' = (Okay (), s'))
    \<or> (\<exists>t\<in>{s, s'}. \<exists>r body all_state create_event.
          http_get A (sdk_homeserver A @ ''_matrix/client/v3/rooms/'' @ room @ ''/state'') t = Okay r
        \<and> 200 \<le> hr_status r \<and> hr_status r < 300 \<and> hr_json r = Okay body
        \<and> as_array (sdk_values A) body = Some all_state
        \<and> find (\<lambda>e. json_str A e ''type'' = Some ''m.room.create'') all_state = Some create_event
        \<and> (case Option.bind (value_get (sdk_values A) create_event ''content'') (\<lambda>c. json_str A c ''creator'') of
              Some creator \<Rightarrow> creator \<in> trusted
            | None \<Rightarrow> (case json_str A create_event ''sender'' of Some sender \<Rightarrow> sender \<in> trusted | None \<Rightarrow> [] \<in> trusted))
        \<and> (\<exists>e\<in>set all_state. json_str A e ''type'' = Some ''m.room.encryption''))"
proof -
  consider (cached) "cached_state_room A K show_kc coords s k = Okay (Some room)"
    | (found) "discovered_state_room A hostname os_user localpart coords s = (Okay (Some room), s')"
    | (created) t t' where "new_state_room A hostname os_user localpart t = (Okay room, t')"
        "write_identity A J room hostname os_user t' = (Okay (), s')"
    using assms by (auto simp: get_or_create_def Let_def split: sum.splits option.splits prod.splits)
  then show ?thesis
  proof cases
    case cached
    then have "validate_state_room A room (sdk_user_id A) coords s = Okay ()"
      by (auto simp: cached_state_room_def split: sum.splits option.splits if_splits)
    from validated_state [OF this] show ?thesis unfolding assms(3) by blast
  next
    case found
    then have "validate_state_room A room (sdk_user_id A) coords s' = Okay ()"
      by (auto simp: discovered_state_room_def isl_def split: sum.splits option.splits prod.splits if_splits)
        (metis old.unit.exhaust sum.exhaust)
    from validated_state [OF this] show ?thesis unfolding assms(3) by blast
  next
    case created
    then obtain u where u: "create_worker_state_room A hostname os_user localpart u = (Okay room, t')"
      by (auto simp: new_state_room_def split: sum.splits prod.splits if_splits)
    from created(2) have "sdk_get_room A room t'"
      and "sdk_send_state A room ''org.mxdx.worker.identity'' []
            (ser_identity J \<lparr>wsi_device_id = (case sdk_device_id A of Some d \<Rightarrow> d | None \<Rightarrow> []),
               wsi_host = hostname, wsi_os_user = os_user\<rparr>) t' = (Okay (), s')"
      by (auto simp: write_identity_def WORKER_STATE_IDENTITY_def send_state_event_def apfst_def map_prod_def
          split: prod.splits if_splits)
    with u show ?thesis
      unfolding create_worker_state_room_def state_room_name_def Let_def assms(2) [symmetric] by blast
  qed
qed

theorem state_room_trusted_witness:
  "\<exists>t t'. sdk_create_room demo_sdk
      \<lparr>cr_name = Some (''mxdx: state'' @ DASH @ ''h.o.w''), cr_alias = Some (''mxdx-state-'' @ ''h.o.w''),
       cr_topic = Some (''org.mxdx.worker.state:'' @ ''h.o.w''), cr_encrypted = True, cr_joined_history = True,
       cr_invite = [], cr_direct = False, cr_creation = None\<rparr> t = (Okay ''!new'', t')"
proof -
  have "\<exists>s' k'. get_or_create demo_sdk demo_codec memory_ops (\<lambda>_. []) ''h'' ''o'' ''w'' [] (None, Map.empty) = (Okay ''!new'', s', k')"
    by (simp add: get_or_create_def cached_state_room_def discovered_state_room_def find_worker_state_room_def resolve_room_alias_def
        matrix_sync_once_def new_state_room_def create_worker_state_room_def write_identity_def send_state_event_def anyhow_def
        memory_ops_def memory_get_def memory_set_def is_success_def str_field_def demo_sdk_def demo_codec_def)
  then obtain s' k' where "get_or_create demo_sdk demo_codec memory_ops (\<lambda>_. []) ''h'' ''o'' ''w'' [] (None, Map.empty) = (Okay ''!new'', s', k')"
    by blast
  from state_room_trusted [OF this, of "''h.o.w''"] show ?thesis
    by (auto simp: demo_sdk_def)
qed

text \<open>What was found is remembered: with a keychain that accepts writes, the next search returns the same
  room as long as it passes validation, and changes nothing.\<close>

context keychain_backend
begin

lemma state_room_remembered:
  assumes first: "get_or_create A J K show_kc hostname os_user localpart coords (s, k) = (Okay room, s', k')"
    and writes: "\<And>key v t. fst (kc_set K key v t) = Okay ()"
    and valid: "utf8_valid (as_bytes room)" "sdk_valid_room A room = Okay ()"
    and trusted: "validate_state_room A room (sdk_user_id A) coords t = Okay ()"
  shows "get_or_create A J K show_kc hostname os_user localpart coords (t, k') = (Okay room, t, k')"
proof -
  have "(\<exists>data. kc_get K (state_room_key (sdk_user_id A)) k' = Okay (Some data) \<and> from_utf8 data = Some room)"
  proof (cases "cached_state_room A K show_kc coords s k = Okay (Some room)")
    case True
    with first have "k' = k" by (simp add: get_or_create_def)
    with True show ?thesis by (auto simp: cached_state_room_def split: sum.splits option.splits if_splits)
  next
    case False
    with first have "k' = snd (kc_set K (state_room_key (sdk_user_id A)) (as_bytes room) k)"
      by (auto simp: get_or_create_def Let_def split: sum.splits option.splits prod.splits)
    with get_set [OF writes] valid show ?thesis by (auto simp: from_utf8_def)
  qed
  with valid trusted show ?thesis by (auto simp: get_or_create_def cached_state_room_def)
qed

end

subsection \<open>The lease is exclusive\<close>

text \<open>
  What the lease needs of the server and of serde: a lock that is read is the last one stored; a write that succeeds
  is stored and one that fails may or may not be; locks are decoded as they were encoded. \<open>view\<close> is
  the content of the lock event.
\<close>

definition lease_server :: "('s, 'v) matrix_sdk \<Rightarrow> 'v state_codec \<Rightarrow> str \<Rightarrow> ('s \<Rightarrow> 'v) \<Rightarrow> bool" where
  "lease_server A J room view \<longleftrightarrow>
     (\<forall>s v. get_room_state_event A room WORKER_STATE_LOCK '''' s = Okay v \<longrightarrow> v = view s)
     \<and> (\<forall>v s s'. send_state_event A room WORKER_STATE_LOCK '''' v s = (Okay (), s') \<longrightarrow> view s' = v)
     \<and> (\<forall>v s e s'. send_state_event A room WORKER_STATE_LOCK '''' v s = (Err e, s') \<longrightarrow> view s' = v \<or> view s' = view s)
     \<and> (\<forall>l. de_lock J (ser_lock J l) = Okay l \<and> value_get (sdk_values A) (ser_lock J l) ''errcode'' = None
            \<and> \<not> is_empty_content (sdk_values A) (ser_lock J l))"

text \<open>
  Several workers with one state room. A worker that has read the lock and found it free is \<open>pending\<close>
  until it writes; its entry is marked when some other write to the lock comes first. Two ghost
  flags record what went wrong so far: \<open>lw_raced\<close> that a worker wrote although it had been
  overtaken, \<open>lw_overrun\<close> that a worker found the lease of a running holder expired by its own clock.
\<close>

record 's lease_world =
  lw_server :: 's
  lw_held :: "str set"
  lw_pending :: "(WorkerStateLock \<times> bool) list"
  lw_raced :: bool
  lw_overrun :: bool

definition overtaken :: "(WorkerStateLock \<times> bool) list \<Rightarrow> (WorkerStateLock \<times> bool) list" where
  "overtaken ps = map (\<lambda>p. (fst p, True)) ps"

definition lease_read_step ::
  "('s, 'v) matrix_sdk \<Rightarrow> 'v state_codec \<Rightarrow> str \<Rightarrow> lease_owner \<Rightarrow> u64 \<Rightarrow> 's lease_world \<Rightarrow> 's lease_world" where
  "lease_read_step A J room W now w =
     (let lock = lease_lock W now
      in w\<lparr>lw_pending := (if acquire_read A J room lock now (lw_server w) = Okay True
                          then (lock, False) # lw_pending w else lw_pending w),
           lw_overrun := lw_overrun w \<or> (\<exists>l. read_lock A J room (lw_server w) = Okay (Some l)
               \<and> wsl_device_id l \<in> lw_held w \<and> wsl_device_id l \<noteq> lo_device_id W \<and> wsl_expires_at l \<le> now)\<rparr>)"

definition lease_write_step ::
  "('s, 'v) matrix_sdk \<Rightarrow> 'v state_codec \<Rightarrow> str \<Rightarrow> WorkerStateLock \<times> bool \<Rightarrow> 's lease_world \<Rightarrow> 's lease_world" where
  "lease_write_step A J room p w =
     (case acquire_write A J room (fst p) (lw_server w) of
        (r, s') \<Rightarrow>
          w\<lparr>lw_server := s',
            lw_held := (if r = Okay True then insert (wsl_device_id (fst p)) (lw_held w) else lw_held w),
            lw_pending := overtaken (remove1 p (lw_pending w)), lw_raced := lw_raced w \<or> snd p\<rparr>)"

text \<open>
  The steps in any order: a worker reads with its own clock, a pending worker writes, a holder renews
  or releases, and a worker stops without a word.
\<close>

inductive lease_run :: "('s, 'v) matrix_sdk \<Rightarrow> 'v state_codec \<Rightarrow> str \<Rightarrow> 's lease_world \<Rightarrow> bool"
  for A :: "('s, 'v) matrix_sdk" and J :: "'v state_codec" and room :: str where
  lease_start:
    "lease_run A J room \<lparr>lw_server = s, lw_held = {}, lw_pending = [], lw_raced = False, lw_overrun = False\<rparr>"
| lease_reads: "lease_run A J room w \<Longrightarrow> lease_run A J room (lease_read_step A J room W now w)"
| lease_writes:
    "lease_run A J room w \<Longrightarrow> p \<in> set (lw_pending w) \<Longrightarrow> lease_run A J room (lease_write_step A J room p w)"
| lease_renews:
    "lease_run A J room w \<Longrightarrow> lo_device_id W \<in> lw_held w
     \<Longrightarrow> lease_run A J room (w\<lparr>lw_server := snd (renew_lock A J room (lease_lock W now) (lw_server w)),
                            lw_pending := overtaken (lw_pending w)\<rparr>)"
| lease_releases:
    "lease_run A J room w \<Longrightarrow> d \<in> lw_held w
     \<Longrightarrow> lease_run A J room (w\<lparr>lw_server := snd (release_lock A room (lw_server w)), lw_held := lw_held w - {d},
                            lw_pending := overtaken (lw_pending w)\<rparr>)"
| lease_stops:
    "lease_run A J room w
     \<Longrightarrow> lease_run A J room (w\<lparr>lw_held := lw_held w - {d},
                            lw_pending := filter (\<lambda>p. wsl_device_id (fst p) \<noteq> d) (lw_pending w)\<rparr>)"

text \<open>
  As long as nothing went wrong, the lock in the room names every holder, and a worker that may
  still write without having been overtaken is the only one that may hold the lock.
\<close>

definition lease_ok :: "'v state_codec \<Rightarrow> ('s \<Rightarrow> 'v) \<Rightarrow> 's lease_world \<Rightarrow> bool" where
  "lease_ok J view w \<longleftrightarrow>
     (\<forall>d\<in>lw_held w. \<exists>l. view (lw_server w) = ser_lock J l \<and> wsl_device_id l = d)
   \<and> (\<forall>l. (l, False) \<in> set (lw_pending w) \<longrightarrow> lw_held w \<subseteq> {wsl_device_id l})"

lemma overtaken_stale [simp]: "(l, False) \<notin> set (overtaken ps)"
  by (auto simp: overtaken_def)

lemma lease_read:
  assumes "lease_server A J room view" and "view s = ser_lock J l" and "read_lock A J room s = Okay x"
  shows "x = Some l"
  using assms by (auto simp: lease_server_def read_lock_def read_single_def deserialize_if_present_def split: sum.splits)

lemma lease_sent:
  assumes "lease_server A J room view" and "send_state A room WORKER_STATE_LOCK '''' v s = (r, s')"
  shows "view s' = v \<or> (view s' = view s \<and> r \<noteq> Okay ())"
proof -
  obtain r0 where r0: "send_state_event A room WORKER_STATE_LOCK '''' v s = (r0, s')" "r = anyhow r0"
    using assms(2) by (cases "send_state_event A room WORKER_STATE_LOCK '''' v s") (auto simp: send_state_def)
  show ?thesis
  proof (cases r0)
    case (Inl e)
    with assms(1) r0 have "view s' = v \<or> view s' = view s" unfolding lease_server_def by blast
    with r0 Inl show ?thesis by (auto simp: anyhow_def)
  next
    case (Inr u)
    with assms(1) r0 show ?thesis unfolding lease_server_def by (metis old.unit.exhaust)
  qed
qed

lemma lease_codec_inj:
  assumes "lease_server A J room view" and "ser_lock J l = ser_lock J l'"
  shows "l = l'"
  using assms unfolding lease_server_def by (metis Inr_inject)

lemma lease_ok_unique:
  assumes "lease_server A J room view" and "lease_ok J view w" and "d \<in> lw_held w" and "d' \<in> lw_held w"
  shows "d = d'"
proof -
  from assms(2-4) obtain l l' where l: "view (lw_server w) = ser_lock J l" "wsl_device_id l = d"
    "view (lw_server w) = ser_lock J l'" "wsl_device_id l' = d'" unfolding lease_ok_def by blast
  then have "l = l'" using lease_codec_inj [OF assms(1), of l l'] by simp
  with l show ?thesis by simp
qed

text \<open>A write to the lock whose device is the only one that may hold it keeps the lock named after its holders.\<close>

lemma lease_named:
  assumes "lease_server A J room view" and "send_state A room WORKER_STATE_LOCK [] (ser_lock J l) s = (r, s')"
    and "\<forall>d\<in>held. \<exists>k. view s = ser_lock J k \<and> wsl_device_id k = d" and "held \<subseteq> {wsl_device_id l}"
  shows "\<forall>d\<in>held. \<exists>k. view s' = ser_lock J k \<and> wsl_device_id k = d"
    and "r = Okay () \<Longrightarrow> view s' = ser_lock J l"
  using lease_sent [OF assms(1,2)] assms(3,4) by (fastforce, blast)

lemma lease_write_ok:
  assumes "lease_server A J room view" and "lease_ok J view w" and "(l, False) \<in> set (lw_pending w)"
  shows "lease_ok J view (lease_write_step A J room (l, False) w)"
proof -
  obtain r s' where sent: "send_state A room WORKER_STATE_LOCK [] (ser_lock J l) (lw_server w) = (r, s')" by force
  have "\<forall>d\<in>lw_held w. \<exists>k. view (lw_server w) = ser_lock J k \<and> wsl_device_id k = d" "lw_held w \<subseteq> {wsl_device_id l}"
    using assms(2,3) by (auto simp: lease_ok_def)
  note named = lease_named [OF assms(1) sent this]
  then show ?thesis
    by (cases r) (auto simp: lease_ok_def lease_write_step_def acquire_write_def sent)
qed

lemma lease_read_ok:
  assumes server: "lease_server A J room view" and ok: "lease_ok J view w"
    and fair: "\<not> lw_overrun (lease_read_step A J room W now w)"
  shows "lease_ok J view (lease_read_step A J room W now w)"
proof -
  have "d = lo_device_id W"
    if free: "acquire_read A J room (lease_lock W now) now (lw_server w) = Okay True" and held: "d \<in> lw_held w" for d
  proof -
    from ok held obtain l where l: "view (lw_server w) = ser_lock J l" "wsl_device_id l = d"
      by (auto simp: lease_ok_def)
    obtain x where x: "read_lock A J room (lw_server w) = Okay x" "lock_free x (lease_lock W now) now"
      using free by (cases "read_lock A J room (lw_server w)") (auto simp: acquire_read_def)
    with lease_read [OF server l(1) x(1)] l(2) held fair show ?thesis
      by (auto simp: lock_free_def lease_lock_def lease_read_step_def Let_def not_less)
  qed
  with ok show ?thesis
    by (auto simp: lease_ok_def lease_read_step_def Let_def lease_lock_def)
qed

lemma lease_run_ok:
  assumes server: "lease_server A J room view" and "lease_run A J room w"
  shows "lw_raced w \<or> lw_overrun w \<or> lease_ok J view w"
  using assms(2)
proof (induction rule: lease_run.induct)
  case (lease_start s)
  show ?case by (simp add: lease_ok_def)
next
  case (lease_reads w W now)
  have "lw_raced (lease_read_step A J room W now w) = lw_raced w"
    "lw_overrun w \<longrightarrow> lw_overrun (lease_read_step A J room W now w)" by (simp_all add: lease_read_step_def Let_def)
  with lease_reads.IH lease_read_ok [OF server, of w W now] show ?case by auto
next
  case (lease_writes w p)
  obtain l late where p: "p = (l, late)" by (cases p)
  have "lw_raced (lease_write_step A J room p w) \<longleftrightarrow> lw_raced w \<or> late"
    "lw_overrun (lease_write_step A J room p w) = lw_overrun w" by (simp_all add: p lease_write_step_def split: prod.split)
  with lease_writes lease_write_ok [OF server, of w l] p show ?case by (cases late) auto
next
  case (lease_renews w W now)
  obtain r s' where sent: "renew_lock A J room (lease_lock W now) (lw_server w) = (r, s')" by force
  have "lease_ok J view (w\<lparr>lw_server := s', lw_pending := overtaken (lw_pending w)\<rparr>)" if ok: "lease_ok J view w"
  proof -
    have "lw_held w \<subseteq> {wsl_device_id (lease_lock W now)}"
      using lease_ok_unique [OF server ok _ lease_renews.hyps(2)] by (auto simp: lease_lock_def)
    from lease_named(1) [OF server sent [unfolded renew_lock_def] _ this] ok show ?thesis by (simp add: lease_ok_def)
  qed
  with lease_renews.IH sent show ?case by auto
next
  case (lease_releases w d)
  have "lw_held w \<subseteq> {d}" if "lease_ok J view w"
    using lease_ok_unique [OF server that _ lease_releases.hyps(2)] by auto
  with lease_releases.IH show ?case by (auto simp: lease_ok_def)
next
  case (lease_stops w d)
  then show ?case by (auto simp: lease_ok_def)
qed

text \<open>
  C25. When the lock of a state room is exclusive. Workers read the lock, write it, renew and release
  it or stop, each with its own clock, in any interleaving of their single calls to the server, which may
  fail. Two of them hold the lock at once only if something of two kinds has happened before: a
  worker found the lease of a running holder expired, or a worker wrote the lock although some
  other write to it had come between its read and its write. As long as neither has happened, at
  most one device holds the lock, and the lock in the room names it. Both provisos are needed.
\<close>

theorem lease_exclusive:
  assumes "lease_server A J room view" and "lease_run A J room w"
    and "\<not> lw_raced w" and "\<not> lw_overrun w" and "d \<in> lw_held w"
  shows "lw_held w = {d} \<and> (\<exists>l. view (lw_server w) = ser_lock J l \<and> wsl_device_id l = d)"
proof -
  from lease_run_ok [OF assms(1,2)] assms(3,4) have ok: "lease_ok J view w" by blast
  have "d' = d" if "d' \<in> lw_held w" for d'
    using lease_ok_unique [OF assms(1) ok that assms(5)] .
  with assms(5) have "lw_held w = {d}" by blast
  with ok assms(5) show ?thesis by (auto simp: lease_ok_def)
qed

definition demo_owner :: "str \<Rightarrow> lease_owner" where
  "demo_owner d = \<lparr>lo_device_id = d, lo_worker_uuid = ''u'', lo_host = ''h'', lo_os_user = ''o'', lo_ttl_ms = 120000\<rparr>"

lemma demo_lease_server: "lease_server demo_sdk demo_codec room (\<lambda>s. s)"
  by (auto simp: lease_server_def demo_sdk_def demo_codec_def get_room_state_event_def send_state_event_def is_empty_content_def)

lemma demo_calls:
  "acquire_read demo_sdk demo_codec room lock now s = Okay (lock_free s lock now)"
  "acquire_write demo_sdk demo_codec room lock s = (Okay True, Some lock)"
  "read_lock demo_sdk demo_codec room s = Okay s"
  by (cases s; simp add: acquire_read_def acquire_write_def read_lock_def read_single_def get_room_state_event_def
      deserialize_if_present_def is_empty_content_def send_state_def send_state_event_def anyhow_def demo_sdk_def demo_codec_def)+

text \<open>One worker takes the lock, another is refused.\<close>

theorem lease_exclusive_witness:
  "let la = lease_lock (demo_owner ''A'') 1000;
       w = \<lparr>lw_server = Some la, lw_held = {''A''}, lw_pending = [], lw_raced = False, lw_overrun = False\<rparr>
   in lease_run demo_sdk demo_codec ''!r'' w \<and> lw_held w = {''A''} \<and> wsl_device_id la = ''A''"
proof -
  let ?A = "lease_lock (demo_owner ''A'') 1000"
  let ?run = "lease_run demo_sdk demo_codec ''!r''"
  let ?w = "\<lparr>lw_server = Some ?A, lw_held = {''A''}, lw_pending = [], lw_raced = False, lw_overrun = False\<rparr>"
  have "?run \<lparr>lw_server = None, lw_held = {}, lw_pending = [], lw_raced = False, lw_overrun = False\<rparr>" by (rule lease_start)
  from lease_reads [OF this, of "demo_owner ''A''" 1000]
  have "?run \<lparr>lw_server = None, lw_held = {}, lw_pending = [(?A, False)], lw_raced = False, lw_overrun = False\<rparr>"
    by (simp add: lease_read_step_def demo_calls lock_free_def)
  from lease_writes [OF this, of "(?A, False)"]
  have "?run ?w" by (simp add: lease_write_step_def demo_calls overtaken_def) (simp add: lease_lock_def demo_owner_def)
  from lease_reads [OF this, of "demo_owner ''B''" 2000]
  have run: "?run ?w"
    by (simp add: lease_read_step_def demo_calls lock_free_def) (simp add: lease_lock_def demo_owner_def)
  from lease_exclusive [OF demo_lease_server run, of "''A''"] run show ?thesis by (auto simp: demo_codec_def)
qed

text \<open>
  The lock does not exclude by itself. Two workers that read it before either writes both hold it; and
  a worker whose clock says that the lease of a running holder has run out takes the lock beside
  it. A holder that renews after its lock was taken writes over the lock of its successor without
  noticing; when it stops it releases the lock of the other.
\<close>

lemma race_two_holders:
  "\<exists>w. lease_run demo_sdk demo_codec ''!r'' w \<and> lw_held w = {''A'', ''B''} \<and> lw_raced w \<and> \<not> lw_overrun w"
proof -
  let ?A = "lease_lock (demo_owner ''A'') 1000" and ?B = "lease_lock (demo_owner ''B'') 1000"
  let ?run = "lease_run demo_sdk demo_codec ''!r''"
  have "?run \<lparr>lw_server = None, lw_held = {}, lw_pending = [], lw_raced = False, lw_overrun = False\<rparr>" by (rule lease_start)
  from lease_reads [OF lease_reads [OF this, of "demo_owner ''A''" 1000], of "demo_owner ''B''" 1000]
  have "?run \<lparr>lw_server = None, lw_held = {}, lw_pending = [(?B, False), (?A, False)], lw_raced = False, lw_overrun = False\<rparr>"
    by (simp add: lease_read_step_def demo_calls lock_free_def)
  from lease_writes [OF this, of "(?A, False)"]
  have "?run \<lparr>lw_server = Some ?A, lw_held = {''A''}, lw_pending = [(?B, True)], lw_raced = False, lw_overrun = False\<rparr>"
    by (simp add: lease_write_step_def demo_calls overtaken_def) (simp add: lease_lock_def demo_owner_def)
  from lease_writes [OF this, of "(?B, True)"]
  have "?run \<lparr>lw_server = Some ?B, lw_held = {''B'', ''A''}, lw_pending = [], lw_raced = True, lw_overrun = False\<rparr>"
    by (simp add: lease_write_step_def demo_calls overtaken_def) (simp add: lease_lock_def demo_owner_def)
  then show ?thesis by (intro exI conjI) auto
qed

lemma overrun_two_holders:
  "\<exists>w. lease_run demo_sdk demo_codec ''!r'' w \<and> lw_held w = {''A'', ''B''} \<and> lw_overrun w \<and> \<not> lw_raced w"
proof -
  let ?A = "lease_lock (demo_owner ''A'') 1000" and ?B = "lease_lock (demo_owner ''B'') 130000"
  let ?run = "lease_run demo_sdk demo_codec ''!r''"
  have "?run \<lparr>lw_server = None, lw_held = {}, lw_pending = [], lw_raced = False, lw_overrun = False\<rparr>" by (rule lease_start)
  from lease_reads [OF this, of "demo_owner ''A''" 1000]
  have "?run \<lparr>lw_server = None, lw_held = {}, lw_pending = [(?A, False)], lw_raced = False, lw_overrun = False\<rparr>"
    by (simp add: lease_read_step_def demo_calls lock_free_def)
  from lease_writes [OF this, of "(?A, False)"]
  have "?run \<lparr>lw_server = Some ?A, lw_held = {''A''}, lw_pending = [], lw_raced = False, lw_overrun = False\<rparr>"
    by (simp add: lease_write_step_def demo_calls overtaken_def) (simp add: lease_lock_def demo_owner_def)
  from lease_reads [OF this, of "demo_owner ''B''" 130000]
  have "?run \<lparr>lw_server = Some ?A, lw_held = {''A''}, lw_pending = [(?B, False)], lw_raced = False, lw_overrun = True\<rparr>"
    by (simp add: lease_read_step_def demo_calls lock_free_def) (simp add: lease_lock_def demo_owner_def)
  from lease_writes [OF this, of "(?B, False)"]
  have "?run \<lparr>lw_server = Some ?B, lw_held = {''B'', ''A''}, lw_pending = [], lw_raced = False, lw_overrun = True\<rparr>"
    by (simp add: lease_write_step_def demo_calls overtaken_def) (simp add: lease_lock_def demo_owner_def)
  then show ?thesis by (intro exI conjI) auto
qed

lemma acquired_Okay [simp]: "map_sum id (\<lambda>_. True) r = Okay b \<longleftrightarrow> r = Okay () \<and> b"
  by (cases r) auto

lemma acquired_sent:
  assumes "try_acquire_lock A J room lock now s = (Okay True, s')"
  shows "send_state A room WORKER_STATE_LOCK [] (ser_lock J lock) s = (Okay (), s')"
  using assms by (auto simp: try_acquire_lock_def acquire_write_def apfst_def map_prod_def split: sum.splits bool.splits prod.splits)

lemma late_renewal_overwrites:
  assumes server: "lease_server A J room view" and taken: "try_acquire_lock A J room l2 now s = (Okay True, s2)"
    and renewed: "renew_lock A J room l3 s2 = (Okay (), s3)"
  shows "view s2 = ser_lock J l2 \<and> view s3 = ser_lock J l3"
  using lease_sent [OF server acquired_sent [OF taken]] lease_sent [OF server renewed [unfolded renew_lock_def]] by auto

text \<open>A worker that sets up its room refuses to start exactly when the lock is held by another, and believes to hold
  the lock exactly when it took it. The lease lasts two refreshes, up to the width of the product.\<close>

lemma setup_state_room_outcome:
  assumes "get_or_create A J K show_kc (lo_host W) (lo_os_user W) localpart [] st = (Okay room, s, k)"
    and "try_acquire_lock A J room (lease_lock W now) now s = (acquired, s1)"
  shows "case fst (setup_state_room A J K show_kc W localpart exec_room now roots st) of
      Inl _ \<Rightarrow> acquired = Okay False
    | Inr ls \<Rightarrow> acquired \<noteq> Okay False \<and> ls_state_room ls = Some room \<and> (ls_lock_held ls \<longleftrightarrow> acquired = Okay True)"
  using assms by (auto simp: setup_state_room_def Let_def)

lemma lock_ttl_two_refreshes:
  assumes "2000 * unat refresh < 2 ^ 64"
  shows "unat (lock_ttl_ms refresh) = 2000 * unat refresh"
  using assms by (simp add: lock_ttl_ms_def unat_word_ariths)

lemma lock_ttl_wraps: "lock_ttl_ms 9223372036854776 = 384"
  by (simp add: lock_ttl_ms_def)

end
