(* ===== verification/Matrix_Session.thy ===== *)
theory Matrix_Session
  imports Matrix_Rooms Keychain Multi_Hs
begin

section \<open>Sessions of the Matrix client\<close>

text \<open>
  \<open>crates/mxdx-matrix/src/session.rs\<close>: the keys under which a session is kept, the passphrase of the crypto store, and
  \<open>connect_with_session\<close>, which restores a stored session or logs in again; \<open>export_session\<close> of \<open>client.rs\<close>; and the
  enrolment in the key backup (\<open>backup.rs\<close>). The login calls of the SDK, serde and the crypto store on disk
  are parameters; the keychain is any backend of theory \<open>Keychain\<close>.
\<close>

record SessionData =
  sd_user_id :: str
  sd_device_id :: str
  sd_access_token :: str
  sd_homeserver_url :: str

definition normalize_server :: "str \<Rightarrow> str" where
  "normalize_server server =
     trim_end_matches (CHR ''/'') (trim_start_matches ''http://'' (trim_start_matches ''https://'' server))"

definition login_key :: "str \<Rightarrow> str \<Rightarrow> str \<Rightarrow> str" where
  "login_key username server what = ''mxdx:'' @ username @ ''@'' @ normalize_server server @ '':'' @ what"

definition session_key :: "str \<Rightarrow> str \<Rightarrow> str" where
  "session_key username server = login_key username server ''session''"

definition password_key :: "str \<Rightarrow> str \<Rightarrow> str" where
  "password_key username server = login_key username server ''password''"

definition store_key_key :: "str \<Rightarrow> str \<Rightarrow> str" where
  "store_key_key username server = login_key username server ''store_key''"

record entropy =
  en_nanos :: nat
  en_hostname :: str
  en_pid :: nat

definition passphrase_material :: "entropy \<Rightarrow> str \<Rightarrow> str" where
  "passphrase_material E username =
     show_nat (en_nanos E) @ '':'' @ en_hostname E @ '':'' @ show_nat (en_pid E) @ '':'' @ username"

definition passphrase_hash2 :: "bytes \<Rightarrow> u64" where
  "passphrase_hash2 bs = fold (\<lambda>b h. (xor h (ucast b)) * (1099511628211 + 2)) bs (14695981039346656037 + 1)"

definition new_passphrase :: "entropy \<Rightarrow> str \<Rightarrow> str" where
  "new_passphrase E username =
     (let material = as_bytes (passphrase_material E username) in hex16 (fnv1a material) @ hex16 (passphrase_hash2 material))"

definition get_or_create_store_passphrase :: "'k keychain_ops \<Rightarrow> entropy \<Rightarrow> str \<Rightarrow> str \<Rightarrow> 'k \<Rightarrow> str option \<times> 'k" where
  "get_or_create_store_passphrase K E username server k =
     (let key = store_key_key username server;
          stored = (case kc_get K key k of
                      Inr (Some data) \<Rightarrow> (case from_utf8 data of Some p \<Rightarrow> if p \<noteq> [] then Some p else None | None \<Rightarrow> None)
                    | _ \<Rightarrow> None)
      in case stored of
           Some p \<Rightarrow> (Some p, k)
         | None \<Rightarrow>
             (case kc_set K key (as_bytes (new_passphrase E username)) k of
                (Inl _, k) \<Rightarrow> (None, k)
              | (Inr _, k) \<Rightarrow> (Some (new_passphrase E username), k)))"

subsection \<open>Connecting\<close>

record ('s, 'c) login_api =
  la_restore :: "SessionData \<Rightarrow> str \<Rightarrow> str option \<Rightarrow> 's \<Rightarrow> (MatrixClientError, 'c) result \<times> 's"
  la_login :: "str \<Rightarrow> str \<Rightarrow> str \<Rightarrow> str \<Rightarrow> bool \<Rightarrow> str option \<Rightarrow> 's \<Rightarrow> (MatrixClientError, 'c) result \<times> 's"
  la_store_exists :: "str \<Rightarrow> 's \<Rightarrow> bool"
  la_remove_store :: "str \<Rightarrow> 's \<Rightarrow> 's"
  la_user_id :: "'c \<Rightarrow> str option"
  la_device_id :: "'c \<Rightarrow> str option"
  la_session :: "'c \<Rightarrow> str option option"
  la_ser :: "SessionData \<Rightarrow> (str, bytes) result"
  la_de :: "bytes \<Rightarrow> (str, SessionData) result"

text \<open>The inner \<open>None\<close> of \<open>la_session\<close> is an authentication other than Matrix.\<close>

definition export_session :: "('s, 'c) login_api \<Rightarrow> 'c \<Rightarrow> str \<Rightarrow> (MatrixClientError, SessionData) result" where
  "export_session A c homeserver_url =
     (case la_user_id A c of
        None \<Rightarrow> Err (MeOther ''not logged in'')
      | Some user_id \<Rightarrow>
          (case la_device_id A c of
             None \<Rightarrow> Err (MeOther ''no device id'')
           | Some device_id \<Rightarrow>
               (case la_session A c of
                  None \<Rightarrow> Err (MeOther ''no active session'')
                | Some None \<Rightarrow> Err (MeOther ''unsupported auth type (expected Matrix auth)'')
                | Some (Some token) \<Rightarrow>
                    Okay \<lparr>sd_user_id = user_id, sd_device_id = device_id, sd_access_token = token, sd_homeserver_url = homeserver_url\<rparr>)))"

definition stored_session :: "('s, 'c) login_api \<Rightarrow> 'k keychain_ops \<Rightarrow> str \<Rightarrow> str \<Rightarrow> 'k \<Rightarrow> SessionData option" where
  "stored_session A K server username k =
     (case kc_get K (session_key username server) k of
        Inr (Some data) \<Rightarrow> (case la_de A data of Inr session \<Rightarrow> Some session | Inl _ \<Rightarrow> None)
      | _ \<Rightarrow> None)"

definition restore_session ::
  "('s, 'c) login_api \<Rightarrow> 'k keychain_ops \<Rightarrow> str \<Rightarrow> str \<Rightarrow> str \<Rightarrow> str option \<Rightarrow> bool \<Rightarrow> 's \<Rightarrow> 'k \<Rightarrow> 'c option \<times> 's" where
  "restore_session A K server username store_path pass force_new_device s k =
     (case (if force_new_device then None else stored_session A K server username k) of
        None \<Rightarrow> (None, s)
      | Some session \<Rightarrow>
          (case la_restore A session store_path pass s of (Inr c, s) \<Rightarrow> (Some c, s) | (Inl _, s) \<Rightarrow> (None, s)))"

definition save_login ::
  "('s, 'c) login_api \<Rightarrow> 'k keychain_ops \<Rightarrow> str \<Rightarrow> str \<Rightarrow> str \<Rightarrow> 'c \<Rightarrow> 'k \<Rightarrow> (MatrixClientError, unit) result \<times> 'k" where
  "save_login A K server username password c k =
     (case export_session A c server of
        Inl e \<Rightarrow> (Err e, k)
      | Inr session \<Rightarrow>
          (case la_ser A session of
             Inl e \<Rightarrow> (Err (MeOther e), k)
           | Inr json \<Rightarrow>
               (let k = snd (kc_set K (session_key username server) json k);
                    k = snd (kc_set K (password_key username server) (as_bytes password) k)
                in (Okay (), k))))"

definition connect_with_session ::
  "('s, 'c) login_api \<Rightarrow> 'k keychain_ops \<Rightarrow> entropy \<Rightarrow> str \<Rightarrow> str \<Rightarrow> str \<Rightarrow> str \<Rightarrow> bool \<Rightarrow> bool \<Rightarrow> 's \<times> 'k \<Rightarrow>
   (MatrixClientError, 'c \<times> bool) result \<times> 's \<times> 'k" where
  "connect_with_session A K E server username password store_path danger force_new_device st =
     (case st of
        (s, k) \<Rightarrow>
          (case get_or_create_store_passphrase K E username server k of
             (pass, k) \<Rightarrow>
               (case restore_session A K server username store_path pass force_new_device s k of
                  (Some c, s) \<Rightarrow> (Okay (c, False), s, k)
                | (None, s) \<Rightarrow>
                    (let s = (if la_store_exists A store_path s then la_remove_store A store_path s else s)
                     in case la_login A server username password store_path danger pass s of
                          (Inl e, s) \<Rightarrow> (Err e, s, k)
                        | (Inr c, s) \<Rightarrow>
                            (case save_login A K server username password c k of
                               (Inl e, k) \<Rightarrow> (Err e, s, k)
                             | (Inr _, k) \<Rightarrow> (Okay (c, True), s, k))))))"

subsection \<open>The key backup\<close>

record BackupState =
  bk_enabled :: bool
  bk_version :: "str option"
  bk_keys_downloaded :: u64
  bk_degraded :: bool
  bk_error :: "str option"

definition backup_on :: BackupState where
  "backup_on = \<lparr>bk_enabled = True, bk_version = None, bk_keys_downloaded = 0, bk_degraded = False, bk_error = None\<rparr>"

definition backup_degraded :: "str \<Rightarrow> BackupState" where
  "backup_degraded msg = \<lparr>bk_enabled = False, bk_version = None, bk_keys_downloaded = 0, bk_degraded = True, bk_error = Some msg\<rparr>"

record 's backup_api =
  ba_init :: "'s \<Rightarrow> 's"
  ba_enabled :: "'s \<Rightarrow> bool"
  ba_exists :: "'s \<Rightarrow> (str, bool) result"
  ba_delete :: "'s \<Rightarrow> (str, unit) result \<times> 's"
  ba_create :: "'s \<Rightarrow> (str, unit) result \<times> 's"

definition create_backup :: "'s backup_api \<Rightarrow> bool \<Rightarrow> 's \<Rightarrow> (str, BackupState) result \<times> 's" where
  "create_backup B is_first_run s =
     (case ba_create B s of
        (Inr _, s) \<Rightarrow> (Okay backup_on, s)
      | (Inl e, s) \<Rightarrow>
          (let msg = ''backup creation failed: '' @ e
           in if is_first_run then (Err msg, s) else (Okay (backup_degraded msg), s)))"

definition ensure_backup :: "'s backup_api \<Rightarrow> bool \<Rightarrow> 's \<Rightarrow> (str, BackupState) result \<times> 's" where
  "ensure_backup B is_first_run s =
     (let s = ba_init B s
      in if ba_enabled B s then (Okay backup_on, s)
         else if \<not> (case ba_exists B s of Inr b \<Rightarrow> b | Inl _ \<Rightarrow> False) then create_backup B is_first_run s
         else (case ba_delete B s of
                 (Inl e, s) \<Rightarrow>
                   (let msg = ''failed to delete stale backup: '' @ e
                    in if is_first_run then (Err msg, s) else (Okay (backup_degraded msg), s))
               | (Inr _, s) \<Rightarrow> create_backup B is_first_run s))"

fun download_all_keys :: "('s \<Rightarrow> str \<Rightarrow> (str, unit) result \<times> 's) \<Rightarrow> str list \<Rightarrow> u64 \<Rightarrow> 's \<Rightarrow> u64 \<times> 's" where
  "download_all_keys dl [] n s = (n, s)"
| "download_all_keys dl (room # rooms) n s =
     (case dl s room of (Inr _, s) \<Rightarrow> download_all_keys dl rooms (n + 1) s | (Inl _, s) \<Rightarrow> download_all_keys dl rooms n s)"

subsection \<open>A session outlives its process\<close>

lemma ascii_utf8: "list_all (\<lambda>b. b < 0x80) bs \<Longrightarrow> utf8_valid bs"
  by (induction bs) auto

lemma hex_digit_ascii: "d < 16 \<Longrightarrow> (of_char (hex_digit d) :: u8) < 0x80"
proof -
  assume "d < 16"
  then have "(of_char (hex_digit d) :: nat) < 0x80" by (simp add: hex_digit_def)
  moreover have "(of_char (hex_digit d) :: u8) = of_nat (of_char (hex_digit d))" by (simp only: of_nat_of_char)
  ultimately show ?thesis by (simp only: word_less_nat_alt unat_of_nat) simp
qed

lemma hex16_ascii: "list_all (\<lambda>b. b < 0x80) (as_bytes (hex16 w))"
  by (auto simp: hex16_def as_bytes_def list_all_iff hex_digit_ascii)

lemma new_passphrase_utf8: "utf8_valid (as_bytes (new_passphrase E username))" "new_passphrase E username \<noteq> []"
  using hex16_ascii by (auto intro!: ascii_utf8 simp: new_passphrase_def Let_def as_bytes_def list_all_iff hex16_def)

lemma login_keys_distinct:
  "session_key u server \<noteq> store_key_key u server" "password_key u server \<noteq> store_key_key u server"
  "password_key u server \<noteq> session_key u server"
  by (simp_all add: session_key_def password_key_def store_key_key_def login_key_def)

lemma file_path_append: "file_path (s @ t) = sanitize_key s @ sanitize_key t @ ''.enc''"
  by (simp add: file_path_def sanitize_key_def)

lemma login_files_distinct:
  "file_path (session_key u server) \<noteq> file_path (store_key_key u server)"
  "file_path (password_key u server) \<noteq> file_path (store_key_key u server)"
  "file_path (password_key u server) \<noteq> file_path (session_key u server)"
proof -
  have keys: "sanitize_key ''session'' = ''session''" "sanitize_key ''password'' = ''password''" "sanitize_key ''store_key'' = ''store_key''"
    by code_simp+
  have "login_key u server x = (''mxdx:'' @ u @ ''@'' @ normalize_server server @ '':'') @ x" for x
    by (simp add: login_key_def)
  then show "file_path (session_key u server) \<noteq> file_path (store_key_key u server)"
    "file_path (password_key u server) \<noteq> file_path (store_key_key u server)"
    "file_path (password_key u server) \<noteq> file_path (session_key u server)"
    by (simp_all only: session_key_def password_key_def store_key_key_def file_path_append append_same_eq same_append_eq keys)
      simp_all
qed

context keychain_backend
begin

lemma passphrase_kept:
  assumes "get_or_create_store_passphrase K E username server k = (Some p, k1)"
    and "kc_get K (store_key_key username server) k' = kc_get K (store_key_key username server) k1"
  shows "get_or_create_store_passphrase K E' username server k' = (Some p, k')"
proof -
  have "\<exists>data. kc_get K (store_key_key username server) k1 = Okay (Some data) \<and> from_utf8 data = Some p \<and> p \<noteq> []"
  proof (cases "kc_set K (store_key_key username server) (as_bytes (new_passphrase E username)) k")
    case (Pair r k2)
    show ?thesis
      using assms(1) Pair get_set [of "store_key_key username server" "as_bytes (new_passphrase E username)" k] new_passphrase_utf8
      by (auto simp: get_or_create_store_passphrase_def Let_def from_utf8_def split: sum.splits option.splits if_splits)
  qed
  with assms(2) show ?thesis by (auto simp: get_or_create_store_passphrase_def)
qed

lemma login_remembered:
  assumes apart: "\<not> clash (session_key username server) (store_key_key username server)"
      "\<not> clash (password_key username server) (store_key_key username server)"
      "\<not> clash (password_key username server) (session_key username server)"
    and law: "\<And>d json. la_ser A d = Okay json \<Longrightarrow> la_de A json = Okay d"
    and saves: "\<And>d json t. la_ser A d = Okay json \<Longrightarrow> fst (kc_set K (session_key username server) json t) = Okay ()"
    and pass: "get_or_create_store_passphrase K E username server k = (Some p, k1)"
    and first: "connect_with_session A K E server username password store_path danger force (s, k) = (Okay (c, True), s', k')"
    and export: "export_session A c server = Okay d"
    and restore: "la_restore A d store_path (Some p) t = (Okay c2, t')"
  shows "connect_with_session A K E' server username password' store_path danger' False (t, k') = (Okay (c2, False), t', k')"
proof -
  from first pass export obtain json where ser: "la_ser A d = Okay json"
    and k': "k' = snd (kc_set K (password_key username server) (as_bytes password)
      (snd (kc_set K (session_key username server) json k1)))"
    by (auto simp: connect_with_session_def save_login_def Let_def split: prod.splits option.splits sum.splits)
  have "kc_get K (session_key username server) k' = Okay (Some json)"
    unfolding k' using apart get_set_other get_set [OF saves [OF ser]] by simp
  then have stored: "stored_session A K server username k' = Some d"
    using law [OF ser] by (simp add: stored_session_def)
  have "kc_get K (store_key_key username server) k' = kc_get K (store_key_key username server) k1"
    unfolding k' using apart get_set_other by simp
  from passphrase_kept [OF pass this] stored restore show ?thesis
    by (simp add: connect_with_session_def restore_session_def)
qed

end

text \<open>
  C27. A login outlives its process. On any keychain that keeps what it accepts under keys that do not clash, the start
  after a fresh login that succeeded restores exactly the exported session, with the same passphrase of the crypto
  store, whatever its own entropy; it does not log in again and changes nothing in the keychain.
\<close>

theorem session_survives_restart:
  assumes "keychain_backend K clash"
    and "\<not> clash (session_key username server) (store_key_key username server)"
    and "\<not> clash (password_key username server) (store_key_key username server)"
    and "\<not> clash (password_key username server) (session_key username server)"
    and "\<forall>d json. la_ser A d = Okay json \<longrightarrow> la_de A json = Okay d"
    and "\<forall>d json t. la_ser A d = Okay json \<longrightarrow> fst (kc_set K (session_key username server) json t) = Okay ()"
    and "get_or_create_store_passphrase K E username server k = (Some p, k1)"
    and "connect_with_session A K E server username password store_path danger force (s, k) = (Okay (c, True), s', k')"
    and "export_session A c server = Okay d"
    and "la_restore A d store_path (Some p) t = (Okay c2, t')"
  shows "connect_with_session A K E' server username password' store_path danger' False (t, k') = (Okay (c2, False), t', k')"
  by (rule keychain_backend.login_remembered [OF assms(1-4) _ _ assms(7-10)]) (use assms(5,6) in simp_all)

definition demo_session :: SessionData where
  "demo_session = \<lparr>sd_user_id = ''@u:h'', sd_device_id = ''D1'', sd_access_token = ''t'', sd_homeserver_url = ''https://h''\<rparr>"

definition demo_login :: "(nat, str) login_api" where
  "demo_login =
     \<lparr>la_restore = (\<lambda>d _ _ n. (Okay (sd_device_id d), n)), la_login = (\<lambda>_ _ _ _ _ _ n. (Okay ''D1'', n + 1)),
      la_store_exists = (\<lambda>_ _. False), la_remove_store = (\<lambda>_ n. n), la_user_id = (\<lambda>_. Some ''@u:h''), la_device_id = Some,
      la_session = (\<lambda>_. Some (Some ''t'')), la_ser = (\<lambda>d. if d = demo_session then Okay [1] else Err ''''),
      la_de = (\<lambda>b. if b = [1] then Okay demo_session else Err '''')\<rparr>"

theorem session_survives_restart_witness:
  "\<exists>k'. connect_with_session demo_login memory_ops \<lparr>en_nanos = 1, en_hostname = ''x'', en_pid = 2\<rparr> ''https://h'' ''u'' ''pw'' ''store'' False False
       (0, Map.empty) = (Okay (''D1'', True), 1, k')
     \<and> connect_with_session demo_login memory_ops \<lparr>en_nanos = 5, en_hostname = ''x'', en_pid = 7\<rparr> ''https://h'' ''u'' ''pw'' ''store'' False False
       (1, k') = (Okay (''D1'', False), 1, k')"
proof -
  let ?E = "\<lparr>en_nanos = 1, en_hostname = ''x'', en_pid = 2\<rparr>"
  obtain p k1 where pass: "get_or_create_store_passphrase memory_ops ?E ''u'' ''https://h'' Map.empty = (Some p, k1)"
    by (simp add: get_or_create_store_passphrase_def memory_ops_def memory_get_def memory_set_def)
  have export: "export_session demo_login ''D1'' ''https://h'' = Okay demo_session"
    by (simp add: export_session_def demo_login_def demo_session_def)
  have none: "stored_session demo_login memory_ops ''https://h'' ''u'' k1 = None"
    using pass login_keys_distinct(1) [of "''u''" "''https://h''"]
    by (auto simp: stored_session_def get_or_create_store_passphrase_def memory_ops_def memory_get_def memory_set_def)
  have sdk: "la_ser demo_login demo_session = Okay [1]" "la_store_exists demo_login x n = False"
    "la_login demo_login a b pw x y q 0 = (Okay ''D1'', 1)" for x n a b pw y q
    by (simp_all add: demo_login_def)
  obtain k' where "save_login demo_login memory_ops ''https://h'' ''u'' ''pw'' ''D1'' k1 = (Okay (), k')"
    by (simp add: save_login_def export sdk)
  with pass none have first: "connect_with_session demo_login memory_ops ?E ''https://h'' ''u'' ''pw'' ''store'' False False (0, Map.empty)
      = (Okay (''D1'', True), 1, k')"
    by (simp add: connect_with_session_def restore_session_def sdk)
  have apart: "session_key ''u'' ''https://h'' \<noteq> store_key_key ''u'' ''https://h''"
    "password_key ''u'' ''https://h'' \<noteq> store_key_key ''u'' ''https://h''"
    "password_key ''u'' ''https://h'' \<noteq> session_key ''u'' ''https://h''" by (rule login_keys_distinct)+
  have law: "\<forall>d json. la_ser demo_login d = Okay json \<longrightarrow> la_de demo_login json = Okay d"
    and saves: "\<forall>d json t. la_ser demo_login d = Okay json \<longrightarrow>
      fst (kc_set memory_ops (session_key ''u'' ''https://h'') json t) = Okay ()"
    by (auto simp: demo_login_def memory_ops_def memory_set_def split: if_splits)
  have restore: "la_restore demo_login demo_session ''store'' (Some p) 1 = (Okay ''D1'', 1)"
    by (simp add: demo_login_def demo_session_def)
  from session_survives_restart [OF memory.keychain_backend_axioms apart law saves pass first export restore] first
  show ?thesis by blast
qed

text \<open>A second start of another account or of another server has keys of its own, but the scheme of the server is not
  part of them.\<close>

lemma session_key_scheme: "session_key u ''https://h/'' = session_key u ''http://h''"
proof -
  have "normalize_server ''https://h/'' = normalize_server ''http://h''" by code_simp
  then show ?thesis by (simp add: session_key_def login_key_def)
qed

text \<open>After the first run a backup that cannot be set up only degrades; a backup that this device cannot read is deleted.\<close>

lemma ensure_backup_degrades:
  "\<exists>b s'. ensure_backup B False s = (Okay b, s') \<and> bk_degraded b = (\<not> bk_enabled b) \<and> (bk_degraded b \<longleftrightarrow> bk_error b \<noteq> None)"
  by (auto simp: ensure_backup_def create_backup_def Let_def backup_on_def backup_degraded_def split: prod.split sum.split)

lemma ensure_backup_first_run:
  "\<exists>r s'. ensure_backup B True s = (r, s') \<and> (isl r \<or> r = Okay backup_on)"
  by (auto simp: ensure_backup_def create_backup_def Let_def split: prod.split sum.split)

end
