(* ===== verification/Client_Cleanup.thy ===== *)
theory Client_Cleanup
  imports Matrix_Rooms Keychain "HOL-Library.List_Lexorder" "HOL-Library.Char_ord"
begin

section \<open>Cleaning up an account\<close>

text \<open>
  \<open>crates/mxdx-client/src/cleanup.rs\<close>: deleting the other devices of an account and leaving its rooms. Requests are those of
  \<open>matrix_sdk\<close>; the one with a password in its body is a parameter of its own. What is printed is
  left out, apart from the counts.
\<close>

record DeviceInfo =
  dv_device_id :: str
  dv_display_name :: "str option"
  dv_last_seen_ts :: "u64 option"

record ('s, 'v) cleanup_api =
  cl_sdk :: "('s, 'v) matrix_sdk"
  cl_de_devices :: "'v \<Rightarrow> (str, DeviceInfo list) result"
  cl_delete_auth :: "str \<Rightarrow> str \<Rightarrow> str \<Rightarrow> str \<Rightarrow> 's \<Rightarrow> (str, 'v http_reply) result \<times> 's"

definition cleanup_base :: "str \<Rightarrow> str" where
  "cleanup_base homeserver = trim_end_matches (CHR ''/'') homeserver"

definition list_devices :: "('s, 'v) cleanup_api \<Rightarrow> str \<Rightarrow> 's \<Rightarrow> (str, DeviceInfo list) result" where
  "list_devices C homeserver s =
     (case http_get (cl_sdk C) (cleanup_base homeserver @ ''/_matrix/client/v3/devices'') s of
        Inl e \<Rightarrow> Err e
      | Inr r \<Rightarrow>
          if \<not> is_success r then Err (''Failed to list devices: '' @ hr_status_text r)
          else (case hr_json r of Inl e \<Rightarrow> Err e | Inr v \<Rightarrow> cl_de_devices C v))"

definition device_url :: "str \<Rightarrow> str \<Rightarrow> str" where
  "device_url homeserver device_id = cleanup_base homeserver @ ''/_matrix/client/v3/devices/'' @ device_id"

definition delete_device ::
  "('s, 'v) cleanup_api \<Rightarrow> str \<Rightarrow> str \<Rightarrow> str \<Rightarrow> str \<Rightarrow> 's \<Rightarrow> (str, unit) result \<times> 's" where
  "delete_device C homeserver device_id user_id password s =
     (case http_delete (cl_sdk C) (device_url homeserver device_id) s of
        (Inl e, s) \<Rightarrow> (Err e, s)
      | (Inr r, s) \<Rightarrow>
          if is_success r then (Okay (), s)
          else if hr_status r \<noteq> 401 then (Err (''Delete device failed: '' @ hr_status_text r), s)
          else
            (case hr_json r of
               Inl e \<Rightarrow> (Err e, s)
             | Inr uia_info \<Rightarrow>
                 (let session = (case json_str (cl_sdk C) uia_info ''session'' of Some t \<Rightarrow> t | None \<Rightarrow> '''');
                      localpart = trim_start_matches ''@'' (hd (split_on (CHR '':'') user_id))
                  in case cl_delete_auth C (device_url homeserver device_id) localpart password session s of
                       (Inl e, s) \<Rightarrow> (Err e, s)
                     | (Inr r2, s) \<Rightarrow>
                         if is_success r2 then (Okay (), s) else (Err (''UIA delete failed: '' @ hr_status_text r2), s))))"

text \<open>The replies to leaving and forgetting are not looked at.\<close>

definition leave_and_forget :: "('s, 'v) cleanup_api \<Rightarrow> str \<Rightarrow> str \<Rightarrow> 's \<Rightarrow> (str, unit) result \<times> 's" where
  "leave_and_forget C homeserver room_id s =
     (let A = cl_sdk C; rooms = cleanup_base homeserver @ ''/_matrix/client/v3/rooms/'' @ sdk_url_encode A room_id
      in case http_post A (rooms @ ''/leave'') (sdk_empty A) s of
           (Inl e, s) \<Rightarrow> (Err e, s)
         | (Inr _, s) \<Rightarrow>
             (case http_post A (rooms @ ''/forget'') (sdk_empty A) s of
                (Inl e, s) \<Rightarrow> (Err e, s)
              | (Inr _, s) \<Rightarrow> (Okay (), s)))"

definition logout_all :: "('s, 'v) cleanup_api \<Rightarrow> str \<Rightarrow> 's \<Rightarrow> (str, unit) result \<times> 's" where
  "logout_all C homeserver s =
     (case http_post (cl_sdk C) (cleanup_base homeserver @ ''/_matrix/client/v3/logout/all'') (sdk_empty (cl_sdk C)) s of
        (Inl e, s) \<Rightarrow> (Err e, s)
      | (Inr r, s) \<Rightarrow> if is_success r then (Okay (), s) else (Err (''logout/all failed: '' @ hr_text r), s))"

text \<open>The rooms an account has joined or is invited to, sorted and without duplicates.\<close>

definition account_rooms :: "('s, 'v) cleanup_api \<Rightarrow> str \<Rightarrow> 's \<Rightarrow> (str, str list) result" where
  "account_rooms C homeserver s =
     (case list_joined_rooms (cl_sdk C) (rest_new homeserver) s of
        Inl e \<Rightarrow> Err e
      | Inr joined \<Rightarrow>
          (let invited = (case list_invited_rooms (cl_sdk C) (rest_new homeserver) s of Inl _ \<Rightarrow> [] | Inr rooms \<Rightarrow> rooms)
           in Okay (remdups_adj (sort (joined @ invited)))))"

fun count_each :: "('a \<Rightarrow> 's \<Rightarrow> (str, unit) result \<times> 's) \<Rightarrow> 'a list \<Rightarrow> nat \<times> nat \<Rightarrow> 's \<Rightarrow> (nat \<times> nat) \<times> 's" where
  "count_each f [] n s = (n, s)"
| "count_each f (x # xs) (done_n, errors) s =
     (case f x s of
        (Inr _, s) \<Rightarrow> count_each f xs (done_n + 1, errors) s
      | (Inl _, s) \<Rightarrow> count_each f xs (done_n, errors + 1) s)"

definition cleanup_devices ::
  "('s, 'v) cleanup_api \<Rightarrow> str \<Rightarrow> str \<Rightarrow> str \<Rightarrow> str \<Rightarrow> bool \<Rightarrow> 's \<Rightarrow> (str, (nat \<times> nat) option) result \<times> 's" where
  "cleanup_devices C homeserver current_device_id user_id password force s =
     (case list_devices C homeserver s of
        Inl e \<Rightarrow> (Err e, s)
      | Inr devices \<Rightarrow>
          (let to_delete = filter (\<lambda>d. dv_device_id d \<noteq> current_device_id) devices
           in if \<not> force \<and> to_delete \<noteq> [] then (Okay None, s)
              else apfst (\<lambda>n. Okay (Some n))
                     (count_each (\<lambda>d. delete_device C homeserver (dv_device_id d) user_id password) to_delete (0, 0) s)))"

definition cleanup_rooms ::
  "('s, 'v) cleanup_api \<Rightarrow> str \<Rightarrow> bool \<Rightarrow> 's \<Rightarrow> (str, (nat \<times> nat) option) result \<times> 's" where
  "cleanup_rooms C homeserver force s =
     (case account_rooms C homeserver s of
        Inl e \<Rightarrow> (Err e, s)
      | Inr rooms \<Rightarrow>
          if \<not> force \<and> rooms \<noteq> [] then (Okay None, s)
          else apfst (\<lambda>n. Okay (Some n)) (count_each (leave_and_forget C homeserver) rooms (0, 0) s))"

definition logout_everything :: "('s, 'v) cleanup_api \<Rightarrow> str \<Rightarrow> 's \<Rightarrow> (str, unit) result \<times> 's" where
  "logout_everything C homeserver s =
     (case account_rooms C homeserver s of
        Inl e \<Rightarrow> (Err e, s)
      | Inr rooms \<Rightarrow> logout_all C homeserver (snd (count_each (leave_and_forget C homeserver) rooms (0, 0) s)))"

definition run_cleanup ::
  "('s, 'v) cleanup_api \<Rightarrow> str \<Rightarrow> str \<Rightarrow> str \<Rightarrow> str \<Rightarrow> str \<Rightarrow> bool \<Rightarrow> bool \<Rightarrow> 's \<Rightarrow> (str, unit) result \<times> 's" where
  "run_cleanup C homeserver current_device_id user_id password targets force delete_all_sessions s =
     (let target_list = map trim (split_on (CHR '','') targets);
          do_devices = list_ex (\<lambda>t. t = ''devices'' \<or> t = ''all'') target_list;
          do_rooms = list_ex (\<lambda>t. t = ''rooms'' \<or> t = ''all'') target_list
      in if delete_all_sessions then
           (if \<not> force then (Okay (), s) else logout_everything C homeserver s)
         else
           (case (if do_devices then cleanup_devices C homeserver current_device_id user_id password force s else (Okay None, s)) of
              (Inl e, s) \<Rightarrow> (Err e, s)
            | (Inr _, s) \<Rightarrow>
                (case (if do_rooms then cleanup_rooms C homeserver force s else (Okay None, s)) of
                   (Inl e, s) \<Rightarrow> (Err e, s)
                 | (Inr _, s) \<Rightarrow> (Okay (), s))))"

subsection \<open>What a cleanup leaves alone\<close>

lemma count_each_keeps:
  assumes "\<And>x s. x \<in> set xs \<Longrightarrow> P s \<Longrightarrow> P (snd (f x s))" and "P s"
  shows "P (snd (count_each f xs n s))"
  using assms
proof (induction xs arbitrary: n s)
  case (Cons x xs)
  obtain a b where n: "n = (a, b)" by force
  obtain r t where f: "f x s = (r, t)" by force
  have "P t" using Cons.prems(1) [of x s] Cons.prems(2) f by simp
  with Cons.IH [of t] Cons.prems(1) show ?case by (cases r) (simp_all add: n f)
qed simp

lemma delete_device_keeps:
  assumes "\<And>s. P s \<Longrightarrow> P (snd (http_delete (cl_sdk C) (device_url homeserver d) s))"
    and "\<And>l q t s. P s \<Longrightarrow> P (snd (cl_delete_auth C (device_url homeserver d) l q t s))" and "P s"
  shows "P (snd (delete_device C homeserver d user_id password s))"
proof -
  obtain r t where del: "http_delete (cl_sdk C) (device_url homeserver d) s = (r, t)" by force
  have t: "P t" using assms(1,3) del by (metis snd_conv)
  have auth: "P (snd (cl_delete_auth C (device_url homeserver d) l q u t))" for l q u using assms(2) [OF t] .
  show ?thesis
    using t auth by (auto simp: delete_device_def del Let_def split: sum.split prod.split) (metis snd_conv)+
qed

lemma leave_and_forget_keeps:
  assumes "\<And>u v s. P s \<Longrightarrow> P (snd (http_post (cl_sdk C) u v s))" and "P s"
  shows "P (snd (leave_and_forget C homeserver room s))"
  using assms by (auto simp: leave_and_forget_def Let_def split: sum.split prod.split) (metis snd_conv)+

lemma run_cleanup_keeps:
  assumes "P s" and devices: "\<And>s. P s \<Longrightarrow> P (snd (cleanup_devices C homeserver current user_id password force s))"
    and rooms: "\<And>s. P s \<Longrightarrow> P (snd (cleanup_rooms C homeserver force s))"
  shows "P (snd (run_cleanup C homeserver current user_id password targets force False s))"
proof -
  define do_devices do_rooms where "do_devices = list_ex (\<lambda>t. t = ''devices'' \<or> t = ''all'') (map trim (split_on (CHR '','') targets))"
    and "do_rooms = list_ex (\<lambda>t. t = ''rooms'' \<or> t = ''all'') (map trim (split_on (CHR '','') targets))"
  obtain r1 s1 where one: "(if do_devices then cleanup_devices C homeserver current user_id password force s else (Okay None, s)) = (r1, s1)"
    by (cases "if do_devices then cleanup_devices C homeserver current user_id password force s else (Okay None, s)")
  obtain r2 s2 where two: "(if do_rooms then cleanup_rooms C homeserver force s1 else (Okay None, s1)) = (r2, s2)"
    by (cases "if do_rooms then cleanup_rooms C homeserver force s1 else (Okay None, s1)")
  have "P s1" using devices [OF \<open>P s\<close>] one \<open>P s\<close> by (cases do_devices) auto
  moreover from this have "P s2" using rooms [of s1] two by (cases do_rooms) auto
  moreover have "snd (run_cleanup C homeserver current user_id password targets force False s) \<in> {s1, s2}"
    unfolding run_cleanup_def Let_def do_devices_def [symmetric] do_rooms_def [symmetric] one
    by (cases r1; cases r2) (simp_all add: two)
  ultimately show ?thesis by auto
qed

text \<open>
  A cleanup asks first and keeps the device it runs on. Without the force flag it changes nothing. With
  it, and unless all sessions are to be logged out, whatever deletions of other devices, leaving and forgetting of rooms keep true of the
  account stays true; the current device is not among the devices it deletes.
\<close>

lemma cleanup_confined:
  "(\<not> force \<longrightarrow> snd (run_cleanup C homeserver current user_id password targets force all_sessions s) = s)
   \<and> ((\<forall>d s. d \<noteq> current \<longrightarrow> P s \<longrightarrow> P (snd (http_delete (cl_sdk C) (device_url homeserver d) s))
          \<and> (\<forall>l q t. P (snd (cl_delete_auth C (device_url homeserver d) l q t s))))
      \<longrightarrow> (\<forall>u v s. P s \<longrightarrow> P (snd (http_post (cl_sdk C) u v s)))
      \<longrightarrow> P s \<longrightarrow> P (snd (run_cleanup C homeserver current user_id password targets force False s)))"
proof -
  have devices: "P (snd (cleanup_devices C homeserver current user_id password force s))"
    if del: "\<forall>d s. d \<noteq> current \<longrightarrow> P s \<longrightarrow> P (snd (http_delete (cl_sdk C) (device_url homeserver d) s))
          \<and> (\<forall>l q t. P (snd (cl_delete_auth C (device_url homeserver d) l q t s)))" and "P s" for s
  proof -
    have "P (snd (count_each (\<lambda>d. delete_device C homeserver (dv_device_id d) user_id password)
        (filter (\<lambda>d. dv_device_id d \<noteq> current) ds) n s))" for ds n
      by (rule count_each_keeps) (use del \<open>P s\<close> in \<open>auto intro!: delete_device_keeps [where P = P]\<close>)
    with \<open>P s\<close> show ?thesis by (auto simp: cleanup_devices_def Let_def split: sum.split)
  qed
  have rooms: "P (snd (cleanup_rooms C homeserver force s))"
    if post: "\<forall>u v s. P s \<longrightarrow> P (snd (http_post (cl_sdk C) u v s))" and "P s" for s
  proof -
    have "P (snd (count_each (leave_and_forget C homeserver) rs n s))" for rs n
      by (rule count_each_keeps) (use post \<open>P s\<close> in \<open>auto intro!: leave_and_forget_keeps [where P = P]\<close>)
    with \<open>P s\<close> show ?thesis by (auto simp: cleanup_rooms_def split: sum.split)
  qed
  have quiet: "snd (cleanup_devices C homeserver current user_id password False s) = s" "snd (cleanup_rooms C homeserver False s) = s" for s
    by (auto simp: cleanup_devices_def cleanup_rooms_def Let_def split: sum.split)
  show ?thesis
  proof (intro conjI impI)
    assume f: "\<not> force"
    show "snd (run_cleanup C homeserver current user_id password targets force all_sessions s) = s"
    proof (cases all_sessions)
      case True
      with f show ?thesis by (simp add: run_cleanup_def)
    next
      case False
      from run_cleanup_keeps [where P = "\<lambda>t. t = s" and force = False and s = s and C = C] quiet f False show ?thesis by simp
    qed
  next
    assume hyps: "\<forall>d s. d \<noteq> current \<longrightarrow> P s \<longrightarrow> P (snd (http_delete (cl_sdk C) (device_url homeserver d) s))
          \<and> (\<forall>l q t. P (snd (cl_delete_auth C (device_url homeserver d) l q t s)))"
      "\<forall>u v s. P s \<longrightarrow> P (snd (http_post (cl_sdk C) u v s))" "P s"
    show "P (snd (run_cleanup C homeserver current user_id password targets force False s))"
      by (rule run_cleanup_keeps [where P = P, OF hyps(3)]) (use devices [OF hyps(1)] rooms [OF hyps(2)] in blast)+
  qed
qed

definition demo_cleanup :: "(str list, str list) cleanup_api" where
  "demo_cleanup =
     \<lparr>cl_sdk =
        \<lparr>sdk_values = \<lparr>is_null = (\<lambda>_. False), object_len = (\<lambda>_. None), value_get = (\<lambda>_ _. None), as_str = (\<lambda>_. None),
           as_u64 = (\<lambda>_. None), as_array = (\<lambda>_. None)\<rparr>,
         sdk_as_bool = (\<lambda>_. None), sdk_object_keys = (\<lambda>_. None), sdk_de_joined = (\<lambda>_. Okay []), sdk_empty = [],
         sdk_via = (\<lambda>_. []), sdk_tombstone = (\<lambda>_. []), sdk_url_encode = (\<lambda>u. u), sdk_valid_room = (\<lambda>_. Okay ()),
         sdk_user_id = ''@w:h'', sdk_server_name = ''h'', sdk_localpart = (\<lambda>u. u), sdk_device_id = None, sdk_homeserver = ''h/'',
         http_get = (\<lambda>_ s. Okay \<lparr>hr_status = 200, hr_status_text = '''', hr_json = Okay s, hr_text = ''''\<rparr>),
         http_delete = (\<lambda>u s. (Okay \<lparr>hr_status = 200, hr_status_text = '''', hr_json = Okay s, hr_text = ''''\<rparr>,
           filter (\<lambda>d. device_url ''h'' d \<noteq> u) s)),
         http_put = (\<lambda>_ _ s. (Err '''', s)), http_post = (\<lambda>_ _ s. (Err '''', s)),
         sdk_get_room = (\<lambda>_ _. True), sdk_send_state = (\<lambda>_ _ _ _ s. (Okay (), s)),
         sdk_create_room = (\<lambda>_ s. (Okay ''!new'', s)), sdk_sync = (\<lambda>s. (Okay (), s)), sdk_join = (\<lambda>_ s. (Okay (), s)),
         sdk_joined = (\<lambda>_. [])\<rparr>,
      cl_de_devices = (\<lambda>ds. Okay (map (\<lambda>d. \<lparr>dv_device_id = d, dv_display_name = None, dv_last_seen_ts = None\<rparr>) ds)),
      cl_delete_auth = (\<lambda>_ _ _ _ s. (Err '''', s))\<rparr>"

lemma cleanup_confined_example:
  "''cur'' \<in> set (snd (run_cleanup demo_cleanup ''h'' ''cur'' ''@w:h'' ''pw'' ''devices'' True False [''old'', ''cur'']))
   \<and> snd (run_cleanup demo_cleanup ''h'' ''cur'' ''@w:h'' ''pw'' ''devices'' False False [''old'', ''cur'']) = [''old'', ''cur'']"
proof -
  have del: "\<forall>d s. d \<noteq> ''cur'' \<longrightarrow> ''cur'' \<in> set s \<longrightarrow> ''cur'' \<in> set (snd (http_delete (cl_sdk demo_cleanup) (device_url ''h'' d) s))
      \<and> (\<forall>l q t. ''cur'' \<in> set (snd (cl_delete_auth demo_cleanup (device_url ''h'' d) l q t s)))"
    by (simp add: demo_cleanup_def) (simp add: device_url_def)
  have post: "\<forall>u v s. ''cur'' \<in> set s \<longrightarrow> ''cur'' \<in> set (snd (http_post (cl_sdk demo_cleanup) u v s))"
    by (simp add: demo_cleanup_def)
  from cleanup_confined [where P = "\<lambda>s. ''cur'' \<in> set s" and C = demo_cleanup and homeserver = "''h''" and current = "''cur''"
      and user_id = "''@w:h''" and password = "''pw''" and targets = "''devices''" and force = True and s = "[''old'', ''cur'']"] del post
  have "''cur'' \<in> set (snd (run_cleanup demo_cleanup ''h'' ''cur'' ''@w:h'' ''pw'' ''devices'' True False [''old'', ''cur'']))" by simp
  moreover from cleanup_confined [where C = demo_cleanup and homeserver = "''h''" and current = "''cur''" and force = False
      and all_sessions = False and s = "[''old'', ''cur'']" and user_id = "''@w:h''" and password = "''pw''" and targets = "''devices''"]
  have "snd (run_cleanup demo_cleanup ''h'' ''cur'' ''@w:h'' ''pw'' ''devices'' False False [''old'', ''cur'']) = [''old'', ''cur'']" by simp
  ultimately show ?thesis by blast
qed

text \<open>A room counts as left whatever the server answers, and an unknown target is no error.\<close>

lemma refused_leave_counts:
  assumes "http_post (cl_sdk C) (cleanup_base homeserver @ ''/_matrix/client/v3/rooms/'' @ sdk_url_encode (cl_sdk C) room @ ''/leave'')
      (sdk_empty (cl_sdk C)) s = (Okay r, s1)"
    and "http_post (cl_sdk C) (cleanup_base homeserver @ ''/_matrix/client/v3/rooms/'' @ sdk_url_encode (cl_sdk C) room @ ''/forget'')
      (sdk_empty (cl_sdk C)) s1 = (Okay r', s2)"
  shows "leave_and_forget C homeserver room s = (Okay (), s2)"
  using assms by (simp add: leave_and_forget_def Let_def)

lemma unknown_target_ignored: "run_cleanup C homeserver current user_id password ''device'' force False s = (Okay (), s)"
proof -
  have "trim ''device'' = ''device''" by (rule trim_graphic) (simp add: graphic_def)
  then have "map trim (split_on (CHR '','') ''device'') = [''device'']" by simp
  then show ?thesis by (simp add: run_cleanup_def)
qed


end
