(* ===== verification/Launcher_Failover.thy ===== *)
theory Launcher_Failover
  imports Prelude
begin

section \<open>Failover of the launcher\<close>

text \<open>
  \<open>crates/mxdx-launcher/src/multi_hs.rs\<close>: the homeservers of a launcher, the choice of the primary by latency and the health
  checks. What the connections, probes and checks return are arguments; a panic is \<open>None\<close>.
\<close>

definition FAIL_THRESHOLD :: u32 where "FAIL_THRESHOLD = 3"

datatype FailoverState = FoActive | FoFailing | FoFailover | FoUnavailable

record 'c MultiHsLauncher =
  ml_clients :: "'c list"
  ml_homeserver_urls :: "str list"
  ml_primary_index :: nat
  ml_state :: FailoverState
  ml_consecutive_failures :: u32

text \<open>\<open>Duration::MAX\<close> in milliseconds.\<close>

definition DURATION_MAX :: duration where "DURATION_MAX = (2 ^ 64 - 1) * 1000 + 999"

text \<open>The connections in the order in which they complete: the first error ends the start.\<close>

fun join_all :: "(nat \<times> (str, 'c) result) list \<Rightarrow> (str, (nat \<times> 'c) list) result" where
  "join_all [] = Okay []"
| "join_all ((i, r) # rs) =
     (case r of Inl e \<Rightarrow> Err e | Inr c \<Rightarrow> map_sum id (\<lambda>cs. (i, c) # cs) (join_all rs))"

fun min_by_latency :: "(nat \<times> duration) list \<Rightarrow> nat option" where
  "min_by_latency [] = None"
| "min_by_latency ((i, d) # ls) = Some (fst (fold (\<lambda>(j, e) (b, m). if e < m then (j, e) else (b, m)) ls (i, d)))"

definition launcher_start ::
  "str list \<Rightarrow> (nat \<times> (str, 'c) result) list \<Rightarrow> (nat \<Rightarrow> duration option) \<Rightarrow> (str, 'c MultiHsLauncher) result" where
  "launcher_start homeserver_urls completed probe =
     (if homeserver_urls = [] then Err ''At least one homeserver URL is required''
      else
        (case join_all completed of
           Inl e \<Rightarrow> Err e
         | Inr indexed \<Rightarrow>
             (let clients = map snd (sort_key fst indexed);
                  latencies = map (\<lambda>i. (i, case probe i of None \<Rightarrow> DURATION_MAX | Some d \<Rightarrow> d)) [0..<length clients]
              in Okay \<lparr>ml_clients = clients, ml_homeserver_urls = homeserver_urls,
                   ml_primary_index = (case min_by_latency latencies of Some i \<Rightarrow> i | None \<Rightarrow> 0),
                   ml_state = FoActive, ml_consecutive_failures = 0\<rparr>)))"

definition launcher_primary :: "'c MultiHsLauncher \<Rightarrow> 'c option" where
  "launcher_primary l = (if ml_primary_index l < length (ml_clients l) then Some (ml_clients l ! ml_primary_index l) else None)"

definition failover_candidate ::
  "(nat \<Rightarrow> duration option) \<Rightarrow> nat \<Rightarrow> nat \<Rightarrow> (nat \<times> duration) option \<Rightarrow> (nat \<times> duration) option" where
  "failover_candidate probe primary i best =
     (if i = primary then best
      else (case probe i of
              None \<Rightarrow> best
            | Some elapsed \<Rightarrow> (case best of None \<Rightarrow> Some (i, elapsed) | Some (_, b) \<Rightarrow> if elapsed < b then Some (i, elapsed) else best)))"

definition failover :: "(nat \<Rightarrow> duration option) \<Rightarrow> 'c MultiHsLauncher \<Rightarrow> 'c MultiHsLauncher" where
  "failover probe l =
     (case fold (failover_candidate probe (ml_primary_index l)) [0..<length (ml_clients l)] None of
        Some (new_index, _) \<Rightarrow> l\<lparr>ml_primary_index := new_index, ml_consecutive_failures := 0, ml_state := FoActive\<rparr>
      | None \<Rightarrow> l\<lparr>ml_state := FoUnavailable\<rparr>)"

definition health_check :: "bool \<Rightarrow> (nat \<Rightarrow> duration option) \<Rightarrow> 'c MultiHsLauncher \<Rightarrow> 'c MultiHsLauncher option" where
  "health_check primary_ok probe l =
     (if \<not> ml_primary_index l < length (ml_clients l) then None
      else if primary_ok then Some (l\<lparr>ml_consecutive_failures := 0, ml_state := FoActive\<rparr>)
      else
        (let l = l\<lparr>ml_consecutive_failures := ml_consecutive_failures l + 1\<rparr>
         in Some (if ml_consecutive_failures l \<ge> FAIL_THRESHOLD then failover probe (l\<lparr>ml_state := FoFailover\<rparr>)
                  else l\<lparr>ml_state := FoFailing\<rparr>)))"

fun health_run :: "(bool \<times> (nat \<Rightarrow> duration option)) list \<Rightarrow> 'c MultiHsLauncher \<Rightarrow> 'c MultiHsLauncher option" where
  "health_run [] l = Some l"
| "health_run ((ok, probe) # cs) l = (case health_check ok probe l of None \<Rightarrow> None | Some l \<Rightarrow> health_run cs l)"

subsection \<open>The primary after a start\<close>

lemma fold_min_by:
  assumes "fold (\<lambda>(j, e) (b, m). if e < m then (j, e) else (b, m)) ls (i, d) = (k, x)"
  shows "(k, x) \<in> insert (i, d) (set ls) \<and> x \<le> d \<and> (\<forall>(j, e)\<in>set ls. x \<le> (e :: nat))"
  using assms
proof (induction ls arbitrary: i d)
  case (Cons a ls)
  obtain j e where a: "a = (j, e)" by force
  show ?case using Cons.IH [of "if e < d then j else i" "if e < d then e else d"] Cons.prems
    by (cases "e < d") (fastforce simp: a)+
qed simp

lemma min_by_latency_least:
  assumes "min_by_latency ls = Some k"
  shows "\<exists>x. (k, x) \<in> set ls \<and> (\<forall>(j, e)\<in>set ls. x \<le> e)"
proof (cases ls)
  case (Cons a rest)
  obtain i d where a: "a = (i, d)" by force
  obtain k' x where f: "fold (\<lambda>(j, e) (b, m). if e < m then (j, e) else (b, m)) rest (i, d) = (k', x)" by force
  with assms Cons a have "k' = k" by simp
  with fold_min_by [OF f] Cons a show ?thesis by (intro exI [of _ x]) auto
qed (use assms in simp)

lemma join_all_length: "join_all rs = Okay cs \<Longrightarrow> length cs = length rs"
proof (induction rs arbitrary: cs)
  case (Cons r rs)
  then show ?case by (cases r; cases "join_all rs") (auto split: sum.splits)
qed simp

lemma launcher_start_primary:
  assumes "launcher_start urls completed probe = Okay l" and "length completed = length urls"
  shows "ml_primary_index l < length (ml_clients l) \<and> length (ml_clients l) = length urls \<and> ml_state l = FoActive
    \<and> ml_consecutive_failures l = 0
    \<and> (\<forall>j < length (ml_clients l). \<forall>d. probe j = Some d \<longrightarrow> d < DURATION_MAX \<longrightarrow>
         (\<exists>x. probe (ml_primary_index l) = Some x \<and> x \<le> d))"
proof -
  let ?lat = "\<lambda>n. map (\<lambda>i. (i, case probe i of None \<Rightarrow> DURATION_MAX | Some d \<Rightarrow> d)) [0..<n]"
  from assms(1) obtain indexed where j: "join_all completed = Okay indexed" and urls: "urls \<noteq> []"
    and l: "l = \<lparr>ml_clients = map snd (sort_key fst indexed), ml_homeserver_urls = urls,
      ml_primary_index = (case min_by_latency (?lat (length indexed)) of Some i \<Rightarrow> i | None \<Rightarrow> 0),
      ml_state = FoActive, ml_consecutive_failures = 0\<rparr>"
    by (auto simp: launcher_start_def Let_def split: if_splits sum.splits)
  have len: "length indexed = length urls" using join_all_length [OF j] assms(2) by simp
  then have ne: "?lat (length indexed) \<noteq> []" using urls by simp
  then obtain k where k: "min_by_latency (?lat (length indexed)) = Some k"
    by (cases "?lat (length indexed)") (auto simp del: upt_Suc split: prod.splits)
  from min_by_latency_least [OF k] obtain x where x: "(k, x) \<in> set (?lat (length indexed))"
    "\<forall>(j, e)\<in>set (?lat (length indexed)). x \<le> e" by blast
  then have kx: "k < length indexed" "x = (case probe k of None \<Rightarrow> DURATION_MAX | Some d \<Rightarrow> d)" by auto
  have "\<exists>y. probe k = Some y \<and> y \<le> d" if "j < length indexed" "probe j = Some d" "d < DURATION_MAX" for j d
  proof -
    from that(1,2) have "(j, d) \<in> set (?lat (length indexed))" by (auto simp: image_iff)
    with x(2) have "x \<le> d" by blast
    with kx(2) that(3) show ?thesis by (cases "probe k") auto
  qed
  with kx k len show ?thesis by (simp add: l)
qed

subsection \<open>Health checks\<close>

lemma fold_candidates:
  assumes "fold (failover_candidate probe primary) js best = r"
  shows "case r of
      None \<Rightarrow> best = None \<and> (\<forall>i\<in>set js. i \<noteq> primary \<longrightarrow> probe i = None)
    | Some (k, d) \<Rightarrow> (best = Some (k, d) \<or> (k \<in> set js \<and> k \<noteq> primary \<and> probe k = Some d))
        \<and> (\<forall>i\<in>set js. \<forall>e. i \<noteq> primary \<longrightarrow> probe i = Some e \<longrightarrow> d \<le> e) \<and> (\<forall>b. best = Some b \<longrightarrow> d \<le> snd b)"
  using assms
proof (induction js arbitrary: best)
  case (Cons i js)
  from Cons.IH [of "failover_candidate probe primary i best"] Cons.prems show ?case
    by (cases r) (force simp: failover_candidate_def split: if_splits option.splits)+
qed (auto split: option.splits)

definition launcher_ok :: "nat \<Rightarrow> 'c MultiHsLauncher \<Rightarrow> bool" where
  "launcher_ok n l \<longleftrightarrow> ml_primary_index l < length (ml_clients l) \<and> unat (ml_consecutive_failures l) \<le> n
     \<and> (case ml_state l of
          FoActive \<Rightarrow> ml_consecutive_failures l = 0
        | FoFailing \<Rightarrow> ml_consecutive_failures l = 1 \<or> ml_consecutive_failures l = 2
        | FoFailover \<Rightarrow> False
        | FoUnavailable \<Rightarrow> 3 \<le> ml_consecutive_failures l)"

text \<open>What a check does: it keeps the primary while it answers or has failed less than three times, then moves to the
  fastest of the others that answer, or reports that none does.\<close>

lemma health_check_outcome:
  assumes "launcher_ok n l" and "n + 1 < 2 ^ 32"
  shows "\<exists>l'. health_check ok probe l = Some l' \<and> launcher_ok (n + 1) l' \<and> ml_clients l' = ml_clients l
    \<and> (if ok then ml_state l' = FoActive \<and> ml_primary_index l' = ml_primary_index l
       else if unat (ml_consecutive_failures l) + 1 < 3 then ml_state l' = FoFailing \<and> ml_primary_index l' = ml_primary_index l
       else if (\<forall>i < length (ml_clients l). i \<noteq> ml_primary_index l \<longrightarrow> probe i = None)
         then ml_state l' = FoUnavailable \<and> ml_primary_index l' = ml_primary_index l
       else ml_state l' = FoActive \<and> ml_primary_index l' \<noteq> ml_primary_index l
         \<and> (\<exists>d. probe (ml_primary_index l') = Some d
              \<and> (\<forall>i < length (ml_clients l). \<forall>e. i \<noteq> ml_primary_index l \<longrightarrow> probe i = Some e \<longrightarrow> d \<le> e)))"
proof -
  let ?f = "ml_consecutive_failures l + 1"
  have range: "ml_primary_index l < length (ml_clients l)" and le: "unat (ml_consecutive_failures l) \<le> n"
    using assms(1) by (simp_all add: launcher_ok_def)
  have inc: "unat ?f = unat (ml_consecutive_failures l) + 1"
    using le assms(2) by (simp add: unat_word_ariths)
  show ?thesis
  proof (cases "ok \<or> unat ?f < 3")
    case True
    have small: "?f = 1 \<or> ?f = 2" if "\<not> ok"
    proof -
      have "unat ?f = 1 \<or> unat ?f = 2" using True that inc by auto
      then show ?thesis by (auto simp: word_unat_eq_iff)
    qed
    with True range le inc show ?thesis
      by (auto simp: health_check_def launcher_ok_def Let_def FAIL_THRESHOLD_def word_le_nat_alt)
  next
    case False
    let ?l = "l\<lparr>ml_consecutive_failures := ?f, ml_state := FoFailover\<rparr>"
    have check: "health_check ok probe l = Some (failover probe ?l)"
      using False range by (simp add: health_check_def Let_def FAIL_THRESHOLD_def word_le_nat_alt)
    have three: "3 \<le> ?f" using False by (simp add: word_le_nat_alt)
    show ?thesis
    proof (cases "fold (failover_candidate probe (ml_primary_index l)) [0..<length (ml_clients l)] None")
      case None
      from fold_candidates [OF None] have "\<forall>i < length (ml_clients l). i \<noteq> ml_primary_index l \<longrightarrow> probe i = None" by simp
      with None check three range le inc False show ?thesis by (simp add: failover_def launcher_ok_def)
    next
      case (Some b)
      obtain k d where b: "b = (k, d)" by force
      from fold_candidates [OF Some [unfolded b]]
      have k: "k < length (ml_clients l)" "k \<noteq> ml_primary_index l" "probe k = Some d"
        "\<forall>i < length (ml_clients l). \<forall>e. i \<noteq> ml_primary_index l \<longrightarrow> probe i = Some e \<longrightarrow> d \<le> e" by auto
      with Some b check range le inc False show ?thesis by (auto simp: failover_def launcher_ok_def)
    qed
  qed
qed

text \<open>Over any run of fewer than two to the thirty-two checks the launcher neither panics nor loses its primary, and its state
  says how many checks have failed in a row.\<close>

lemma health_run_ok:
  assumes "launcher_ok n l" and "n + length checks < 2 ^ 32"
  shows "\<exists>l'. health_run checks l = Some l' \<and> launcher_ok (n + length checks) l' \<and> ml_clients l' = ml_clients l"
  using assms
proof (induction checks arbitrary: n l)
  case (Cons c cs)
  obtain ok probe where c: "c = (ok, probe)" by force
  from health_check_outcome [OF Cons.prems(1), of ok probe] Cons.prems(2)
  obtain l1 where l1: "health_check ok probe l = Some l1" "launcher_ok (n + 1) l1" "ml_clients l1 = ml_clients l" by auto
  from Cons.IH [OF l1(2)] Cons.prems(2) l1 show ?case by (simp add: c)
qed simp

end
