(* ===== verification/Matrix_Client.thy ===== *)
theory Matrix_Client
  imports Matrix_Rooms "HOL-Library.AList"
begin

section \<open>The Matrix client\<close>

text \<open>
  \<open>crates/mxdx-matrix/src/client.rs\<close>: connecting, sending, receiving, keys and cross-signing. What the SDK does is a
  record of functions per group of methods, over a state of client and server; the SDK's own types for events are their JSON text.
  A client is logged in wherever the code reads its user. Waiting times are left out.
\<close>

subsection \<open>Results with state\<close>

text \<open>The question mark operator: go on with the value, stop with the error.\<close>

definition attempt ::
  "('s \<Rightarrow> ('e, 'a) result \<times> 's) \<Rightarrow> ('a \<Rightarrow> 's \<Rightarrow> ('e, 'b) result \<times> 's) \<Rightarrow> 's \<Rightarrow> ('e, 'b) result \<times> 's" where
  "attempt m f s = (case m s of (Inl e, s) \<Rightarrow> (Err e, s) | (Inr a, s) \<Rightarrow> f a s)"

definition map_err :: "('e \<Rightarrow> 'f) \<Rightarrow> ('s \<Rightarrow> ('e, 'a) result \<times> 's) \<Rightarrow> 's \<Rightarrow> ('f, 'a) result \<times> 's" where
  "map_err f m s = apfst (map_sum f id) (m s)"

lemma attempt_Okay:
  "attempt m f s = (Okay b, s') \<longleftrightarrow> (\<exists>a t. m s = (Okay a, t) \<and> f a t = (Okay b, s'))"
  by (auto simp: attempt_def split: prod.splits sum.splits)

lemma map_err_Okay: "map_err g m s = (Okay b, s') \<longleftrightarrow> m s = (Okay b, s')"
  by (cases "m s"; cases "fst (m s)") (auto simp: map_err_def)

lemma map_sum_Okay: "map_sum f g r = Okay b \<longleftrightarrow> (\<exists>a. r = Okay a \<and> b = g a)"
  by (cases r) auto

lemma map_err_snd [simp]: "snd (map_err g m s) = snd (m s)"
  by (simp add: map_err_def)

subsection \<open>Connecting\<close>

datatype StoreDir = StoreTemp str | StorePersistent str

fun store_path :: "StoreDir \<Rightarrow> str" where
  "store_path (StoreTemp p) = p"
| "store_path (StorePersistent p) = p"

definition default_store_base_path :: "str option \<Rightarrow> str option \<Rightarrow> str \<Rightarrow> str option" where
  "default_store_base_path store_dir_env home role =
     (case store_dir_env of
        Some dir \<Rightarrow> Some (dir @ ''/'' @ role)
      | None \<Rightarrow> map_option (\<lambda>h. h @ ''/.mxdx/crypto/'' @ role) home)"

record 'c MatrixClient =
  mc_client :: 'c
  mc_store_dir :: StoreDir
  mc_room_creation_delay :: "duration option"
  mc_room_creation_timeout :: duration

datatype server_target = HomeserverUrl str | ServerNameOrUrl str

record ('s, 'c) connect_api =
  cn_temp_dir :: "'s \<Rightarrow> (str, str) result \<times> 's"
  cn_create_dir :: "str \<Rightarrow> 's \<Rightarrow> (str, unit) result \<times> 's"
  cn_private_dir :: "str \<Rightarrow> 's \<Rightarrow> (str, unit) result \<times> 's"
  cn_build :: "server_target \<Rightarrow> str \<Rightarrow> str option \<Rightarrow> bool \<Rightarrow> 's \<Rightarrow> (str, 'c) result \<times> 's"
  cn_login :: "'c \<Rightarrow> str \<Rightarrow> str \<Rightarrow> str \<Rightarrow> 's \<Rightarrow> (str, unit) result \<times> 's"
  cn_parse_user :: "str \<Rightarrow> (str, unit) result"
  cn_restore :: "'c \<Rightarrow> str \<Rightarrow> str \<Rightarrow> str \<Rightarrow> 's \<Rightarrow> (str, unit) result \<times> 's"
  cn_sync :: "'c \<Rightarrow> 's \<Rightarrow> (str, unit) result \<times> 's"
  cn_register :: "str \<Rightarrow> str \<Rightarrow> str \<Rightarrow> str \<Rightarrow> 's \<Rightarrow> (str, bool \<times> str option) result \<times> 's"

definition matrix_client :: "'c \<Rightarrow> StoreDir \<Rightarrow> 'c MatrixClient" where
  "matrix_client client store = \<lparr>mc_client = client, mc_store_dir = store, mc_room_creation_delay = None,
     mc_room_creation_timeout = from_secs 30\<rparr>"

definition ensure_store_dir :: "('s, 'c) connect_api \<Rightarrow> str \<Rightarrow> 's \<Rightarrow> (MatrixClientError, unit) result \<times> 's" where
  "ensure_store_dir C path =
     attempt (map_err (\<lambda>e. MeOther (''Failed to create crypto store directory '' @ path @ '': '' @ e)) (cn_create_dir C path))
       (\<lambda>_. map_err (\<lambda>e. MeOther (''Failed to set permissions on '' @ path @ '': '' @ e)) (cn_private_dir C path))"

definition server_of :: "str \<Rightarrow> server_target" where
  "server_of server = (if contains_str server ''://'' then HomeserverUrl server else ServerNameOrUrl server)"

text \<open>Build, log in, and one sync that uploads the keys of the device.\<close>

definition log_in ::
  "('s, 'c) connect_api \<Rightarrow> server_target \<Rightarrow> StoreDir \<Rightarrow> str option \<Rightarrow> bool \<Rightarrow> str \<Rightarrow> str \<Rightarrow> str \<Rightarrow> 's \<Rightarrow> (MatrixClientError, 'c MatrixClient) result \<times> 's" where
  "log_in C server store passphrase danger username password display =
     attempt (map_err MeOther (cn_build C server (store_path store) passphrase danger)) (\<lambda>client.
     attempt (map_err MeSdk (cn_login C client username password display)) (\<lambda>_.
     attempt (map_err MeSdk (cn_sync C client)) (\<lambda>_ s. (Okay (matrix_client client store), s))))"

definition restore_with_token ::
  "('s, 'c) connect_api \<Rightarrow> str \<Rightarrow> StoreDir \<Rightarrow> str option \<Rightarrow> str \<Rightarrow> str \<Rightarrow> str \<Rightarrow> 's \<Rightarrow> (MatrixClientError, 'c MatrixClient) result \<times> 's" where
  "restore_with_token C homeserver_url store passphrase access_token user_id device_id =
     attempt (map_err MeOther (cn_build C (HomeserverUrl homeserver_url) (store_path store) passphrase False)) (\<lambda>client.
     attempt (map_err MeOther (\<lambda>s. (cn_parse_user C user_id, s))) (\<lambda>_.
     attempt (map_err MeOther (cn_restore C client user_id device_id access_token)) (\<lambda>_.
     attempt (map_err MeSdk (cn_sync C client)) (\<lambda>_ s. (Okay (matrix_client client store), s)))))"

definition login_and_connect_opts ::
  "('s, 'c) connect_api \<Rightarrow> str \<Rightarrow> str \<Rightarrow> str \<Rightarrow> bool \<Rightarrow> 's \<Rightarrow> (MatrixClientError, 'c MatrixClient) result \<times> 's" where
  "login_and_connect_opts C server username password danger =
     attempt (map_err MeOther (cn_temp_dir C)) (\<lambda>tmp.
       log_in C (server_of server) (StoreTemp tmp) None danger username password ''mxdx'')"

definition login_and_connect ::
  "('s, 'c) connect_api \<Rightarrow> str \<Rightarrow> str \<Rightarrow> str \<Rightarrow> 's \<Rightarrow> (MatrixClientError, 'c MatrixClient) result \<times> 's" where
  "login_and_connect C server username password = login_and_connect_opts C server username password False"

definition login_and_connect_persistent_with_passphrase ::
  "('s, 'c) connect_api \<Rightarrow> str \<Rightarrow> str \<Rightarrow> str \<Rightarrow> str \<Rightarrow> bool \<Rightarrow> str option \<Rightarrow> 's \<Rightarrow> (MatrixClientError, 'c MatrixClient) result \<times> 's" where
  "login_and_connect_persistent_with_passphrase C server username password path danger passphrase =
     attempt (ensure_store_dir C path) (\<lambda>_.
       log_in C (server_of server) (StorePersistent path) passphrase danger username password ''mxdx'')"

definition login_and_connect_persistent ::
  "('s, 'c) connect_api \<Rightarrow> str \<Rightarrow> str \<Rightarrow> str \<Rightarrow> str \<Rightarrow> bool \<Rightarrow> 's \<Rightarrow> (MatrixClientError, 'c MatrixClient) result \<times> 's" where
  "login_and_connect_persistent C server username password path danger =
     login_and_connect_persistent_with_passphrase C server username password path danger None"

definition connect_with_token_persistent_with_passphrase ::
  "('s, 'c) connect_api \<Rightarrow> str \<Rightarrow> str \<Rightarrow> str \<Rightarrow> str \<Rightarrow> str \<Rightarrow> str option \<Rightarrow> 's \<Rightarrow> (MatrixClientError, 'c MatrixClient) result \<times> 's" where
  "connect_with_token_persistent_with_passphrase C homeserver_url access_token user_id device_id path passphrase =
     attempt (ensure_store_dir C path) (\<lambda>_.
       restore_with_token C homeserver_url (StorePersistent path) passphrase access_token user_id device_id)"

definition connect_with_token_persistent ::
  "('s, 'c) connect_api \<Rightarrow> str \<Rightarrow> str \<Rightarrow> str \<Rightarrow> str \<Rightarrow> str \<Rightarrow> 's \<Rightarrow> (MatrixClientError, 'c MatrixClient) result \<times> 's" where
  "connect_with_token_persistent C homeserver_url access_token user_id device_id path =
     connect_with_token_persistent_with_passphrase C homeserver_url access_token user_id device_id path None"

definition connect_with_token ::
  "('s, 'c) connect_api \<Rightarrow> str \<Rightarrow> str \<Rightarrow> str \<Rightarrow> str \<Rightarrow> 's \<Rightarrow> (MatrixClientError, 'c MatrixClient) result \<times> 's" where
  "connect_with_token C homeserver_url access_token user_id device_id =
     attempt (map_err MeOther (cn_temp_dir C)) (\<lambda>tmp.
       restore_with_token C homeserver_url (StoreTemp tmp) None access_token user_id device_id)"

definition register_and_connect ::
  "('s, 'c) connect_api \<Rightarrow> str \<Rightarrow> str \<Rightarrow> str \<Rightarrow> str \<Rightarrow> 's \<Rightarrow> (MatrixClientError, 'c MatrixClient) result \<times> 's" where
  "register_and_connect C homeserver_url username password registration_token =
     attempt (map_err MeRegistration (cn_register C (homeserver_url @ ''/_matrix/client/v3/register'') username password registration_token))
       (\<lambda>(success, body).
          if \<not> success then
            (\<lambda>s. (Err (MeRegistration (''Registration failed: '' @ (case body of Some b \<Rightarrow> b | None \<Rightarrow> ''unknown error''))), s))
          else
            attempt (map_err MeOther (cn_temp_dir C)) (\<lambda>tmp.
              log_in C (HomeserverUrl homeserver_url) (StoreTemp tmp) None False username password ''mxdx-test''))"

subsection \<open>Sending\<close>

record ('s, 'v) message_api =
  ma_sdk :: "('s, 'v) matrix_sdk"
  ma_as_object :: "'v \<Rightarrow> (str \<times> 'v) list option"
  ma_object :: "(str \<times> 'v) list \<Rightarrow> 'v"
  ma_string :: "str \<Rightarrow> 'v"
  ma_null :: 'v
  ma_encrypted :: "str \<Rightarrow> 's \<Rightarrow> bool"
  ma_send_raw :: "str \<Rightarrow> str \<Rightarrow> 'v \<Rightarrow> 's \<Rightarrow> (str, str) result \<times> 's"
  ma_sync_members :: "str \<Rightarrow> 's \<Rightarrow> (str, unit) result \<times> 's"
  ma_olm_ready :: "'s \<Rightarrow> bool"
  ma_olm_encrypt :: "str \<Rightarrow> str \<Rightarrow> 'v \<Rightarrow> 's \<Rightarrow> (str, bytes) result \<times> 's"
  ma_raw_json :: "bytes \<Rightarrow> (str, unit) result"
  ma_post_encrypted :: "str \<Rightarrow> bytes \<Rightarrow> 's \<Rightarrow> (str, str) result \<times> 's"
  ma_invite :: "str \<Rightarrow> str \<Rightarrow> 's \<Rightarrow> (str, unit) result \<times> 's"
  ma_leave :: "str \<Rightarrow> 's \<Rightarrow> (str, unit) result \<times> 's"
  ma_forget :: "str \<Rightarrow> 's \<Rightarrow> (str, unit) result \<times> 's"

text \<open>\<open>Megolm\<close>, whose constructor is private to the crate: here the result of \<open>encrypt_for_room\<close>.\<close>

datatype Megolm = Megolm (ciphertext_bytes: bytes)

definition in_room ::
  "('s, 'v) message_api \<Rightarrow> str \<Rightarrow> ('s \<Rightarrow> (MatrixClientError, 'a) result \<times> 's) \<Rightarrow> 's \<Rightarrow> (MatrixClientError, 'a) result \<times> 's" where
  "in_room M room f s = (if sdk_get_room (ma_sdk M) room s then f s else (Err (MeRoomNotFound room), s))"

definition in_encrypted_room ::
  "('s, 'v) message_api \<Rightarrow> str \<Rightarrow> str \<Rightarrow> ('s \<Rightarrow> (MatrixClientError, 'a) result \<times> 's) \<Rightarrow> 's \<Rightarrow> (MatrixClientError, 'a) result \<times> 's" where
  "in_encrypted_room M who room f =
     in_room M room (\<lambda>s. if ma_encrypted M room s then f s else (Err (MeOther (who @ '' refused: room '' @ room @ '' is not E2EE'' @ DASH @ ''cardinal rule requires encrypted rooms'')), s))"

definition create_room_with_timeout ::
  "duration \<Rightarrow> (create_request \<Rightarrow> 's \<Rightarrow> (str, str) result option \<times> 's) \<Rightarrow> create_request \<Rightarrow> 's \<Rightarrow> (MatrixClientError, str) result \<times> 's" where
  "create_room_with_timeout timeout create request s =
     (case create request s of
        (Some r, s) \<Rightarrow> (map_sum MeSdk id r, s)
      | (None, s) \<Rightarrow> (Err (MeRoomCreationTimeout (''Room creation timed out after '' @ show_nat (timeout div 1000) @ ''s'' @ DASH @ ''server may be rate-limiting'')), s))"

definition plain_request :: "str list \<Rightarrow> bool \<Rightarrow> create_request" where
  "plain_request invite direct =
     \<lparr>cr_name = None, cr_alias = None, cr_topic = None, cr_encrypted = True, cr_joined_history = False, cr_invite = invite,
      cr_direct = direct, cr_creation = None\<rparr>"

definition create_encrypted_room :: "('s, 'v) message_api \<Rightarrow> str list \<Rightarrow> 's \<Rightarrow> (MatrixClientError, str) result \<times> 's" where
  "create_encrypted_room M invite = sdk_create_room (ma_sdk M) (plain_request invite False)"

definition create_dm :: "('s, 'v) message_api \<Rightarrow> str \<Rightarrow> 's \<Rightarrow> (MatrixClientError, str) result \<times> 's" where
  "create_dm M user_id = sdk_create_room (ma_sdk M) (plain_request [user_id] True)"

definition invite_user :: "('s, 'v) message_api \<Rightarrow> str \<Rightarrow> str \<Rightarrow> 's \<Rightarrow> (MatrixClientError, unit) result \<times> 's" where
  "invite_user M room user_id = in_room M room (map_err MeSdk (ma_invite M room user_id))"

definition leave_and_forget_room :: "('s, 'v) message_api \<Rightarrow> str \<Rightarrow> 's \<Rightarrow> (MatrixClientError, unit) result \<times> 's" where
  "leave_and_forget_room M room s =
     (Okay (), if sdk_get_room (ma_sdk M) room s then snd (ma_forget M room (snd (ma_leave M room s))) else s)"

definition send_event :: "('s, 'v) message_api \<Rightarrow> str \<Rightarrow> 'v \<Rightarrow> 's \<Rightarrow> (MatrixClientError, str) result \<times> 's" where
  "send_event M room payload =
     (let event_type = (case json_str (ma_sdk M) payload ''type'' of Some t \<Rightarrow> t | None \<Rightarrow> ''org.mxdx.unknown'');
          content = (case value_get (sdk_values (ma_sdk M)) payload ''content'' of Some c \<Rightarrow> c | None \<Rightarrow> ma_null M)
      in in_room M room (map_err MeSdk (ma_send_raw M room event_type content)))"

definition send_threaded_event ::
  "('s, 'v) message_api \<Rightarrow> str \<Rightarrow> str \<Rightarrow> str \<Rightarrow> 'v \<Rightarrow> 's \<Rightarrow> (MatrixClientError, str) result \<times> 's" where
  "send_threaded_event M room event_type in_reply_to content =
     (let body = (case ma_as_object M content of Some m \<Rightarrow> m | None \<Rightarrow> []);
          relation = ma_object M [(''rel_type'', ma_string M ''m.thread''), (''event_id'', ma_string M in_reply_to)]
      in in_room M room (map_err MeSdk (ma_send_raw M room event_type (ma_object M (AList.update ''m.relates_to'' relation body)))))"

definition send_call_event ::
  "('s, 'v) message_api \<Rightarrow> str \<Rightarrow> str \<Rightarrow> 'v \<Rightarrow> 's \<Rightarrow> (MatrixClientError, str) result \<times> 's" where
  "send_call_event M room event_type content s =
     (if \<not> starts_with event_type ''m.call.'' then
        (Err (MeOther (''send_call_event refused: event type `'' @ event_type @ ''` is not an m.call.* type'')), s)
      else in_encrypted_room M ''send_call_event'' room (map_err MeSdk (ma_send_raw M room event_type content)) s)"

definition encrypt_for_room ::
  "('s, 'v) message_api \<Rightarrow> str \<Rightarrow> str \<Rightarrow> 'v \<Rightarrow> 's \<Rightarrow> (MatrixClientError, Megolm) result \<times> 's" where
  "encrypt_for_room M room event_type content =
     in_encrypted_room M ''encrypt_for_room'' room
       (attempt (map_err MeOther (ma_sync_members M room)) (\<lambda>_ s.
          if \<not> ma_olm_ready M s then (Err (MeOther (''OlmMachine not initialized'' @ DASH @ ''E2EE not ready'')), s)
          else attempt (map_err (\<lambda>e. MeOther (''Megolm encrypt: '' @ e)) (ma_olm_encrypt M room event_type content))
                 (\<lambda>c s. (Okay (Megolm c), s)) s))"

text \<open>The event type is not used: what is posted is an \<open>m.room.encrypted\<close> event.\<close>

definition send_megolm :: "('s, 'v) message_api \<Rightarrow> str \<Rightarrow> str \<Rightarrow> Megolm \<Rightarrow> 's \<Rightarrow> (MatrixClientError, str) result \<times> 's" where
  "send_megolm M room event_type payload =
     in_encrypted_room M ''send_megolm'' room
       (attempt (map_err (\<lambda>e. MeOther (''parse encrypted payload: '' @ e)) (\<lambda>s. (ma_raw_json M (ciphertext_bytes payload), s)))
          (\<lambda>_. map_err MeOther (ma_post_encrypted M room (ciphertext_bytes payload))))"

text \<open>
  What carries a session key or a payload never enters a room that is not encrypted: the call
  fails, and nothing has happened. The general methods for events have no such check.
\<close>

lemma refused_unencrypted:
  assumes "\<not> ma_encrypted M room s"
  shows "\<exists>e. send_call_event M room event_type content s = (Err e, s)"
    and "\<exists>e. encrypt_for_room M room event_type content s = (Err e, s)"
    and "\<exists>e. send_megolm M room event_type payload s = (Err e, s)"
  using assms by (auto simp: send_call_event_def encrypt_for_room_def send_megolm_def in_encrypted_room_def in_room_def)

lemma send_event_unchecked:
  assumes "sdk_get_room (ma_sdk M) room s" and "json_str (ma_sdk M) payload ''type'' = Some t"
    and "value_get (sdk_values (ma_sdk M)) payload ''content'' = Some c"
  shows "send_event M room payload s = map_err MeSdk (ma_send_raw M room t c) s"
  using assms by (simp add: send_event_def in_room_def)

text \<open>What \<open>encrypt_for_room\<close> sealed is posted as it is: the room gets the ciphertext of the SDK.\<close>

lemma megolm_posted_unchanged:
  assumes "encrypt_for_room M room event_type content s = (Okay m, s1)" and "send_megolm M room event_type' m s2 = (Okay eid, s3)"
  obtains c t where "m = Megolm c" and "ma_olm_encrypt M room event_type content t = (Okay c, s1)"
    and "ma_post_encrypted M room c s2 = (Okay eid, s3)" and "ma_encrypted M room s" and "ma_encrypted M room s2"
  using assms
  by (auto simp: encrypt_for_room_def send_megolm_def in_encrypted_room_def in_room_def attempt_Okay map_err_Okay split: if_splits)

subsection \<open>Receiving\<close>

datatype SyncFilterDecision = SfEncrypted | SfInfraIgnored | SfDeliver

definition classify_sync_event :: "str option \<Rightarrow> bool \<Rightarrow> SyncFilterDecision" where
  "classify_sync_event event_type is_state =
     (if event_type = Some ''m.room.encrypted'' then (if is_state then SfInfraIgnored else SfEncrypted)
      else if event_type \<in> {Some ''m.room.encryption'', Some ''m.room.member'', Some ''m.room.power_levels''} then SfInfraIgnored
      else SfDeliver)"

text \<open>
  What a sync returns for the room and what a page of its messages holds, newest first, as JSON texts that
  may fail to parse; the state of a room in the store of the SDK, where stripped events are those of invitations.
\<close>

datatype raw_state = RawSync str | RawStripped str

record ('s, 'v) receive_api =
  ra_sdk :: "('s, 'v) matrix_sdk"
  ra_parse :: "str \<Rightarrow> 'v option"
  ra_sync_room :: "str \<Rightarrow> 's \<Rightarrow> (str, str list option) result \<times> 's"
  ra_sync_full :: "'s \<Rightarrow> (str, unit) result \<times> 's"
  ra_messages :: "str \<Rightarrow> 's \<Rightarrow> (str, str list) result \<times> 's"
  ra_state_events :: "str \<Rightarrow> str \<Rightarrow> 's \<Rightarrow> (str, raw_state list) result"
  ra_decrypt :: "str \<Rightarrow> str \<Rightarrow> 's \<Rightarrow> (str, str) result"
  ra_default :: 'v
  ra_synthetic :: "str \<Rightarrow> 'v"
  ra_access_token :: "'s \<Rightarrow> str option"

abbreviation ra_str :: "('s, 'v) receive_api \<Rightarrow> 'v \<Rightarrow> str \<Rightarrow> str option" where
  "ra_str R \<equiv> json_str (ra_sdk R)"

definition sync_full_state :: "('s, 'v) receive_api \<Rightarrow> 's \<Rightarrow> (MatrixClientError, unit) result \<times> 's" where
  "sync_full_state R = map_err MeSdk (ra_sync_full R)"

definition decision :: "('s, 'v) receive_api \<Rightarrow> 'v \<Rightarrow> SyncFilterDecision" where
  "decision R json = classify_sync_event (ra_str R json ''type'') (value_get (sdk_values (ra_sdk R)) json ''state_key'' \<noteq> None)"

text \<open>The two passes: over the timeline of the sync, and over a page of messages without what was seen.\<close>

fun collect_timeline :: "('s, 'v) receive_api \<Rightarrow> str list \<Rightarrow> 'v list \<times> str set \<times> bool \<Rightarrow> 'v list \<times> str set \<times> bool" where
  "collect_timeline R [] acc = acc"
| "collect_timeline R (t # ts) (collected, seen_ids, saw_encrypted) =
     (case ra_parse R t of
        None \<Rightarrow> collect_timeline R ts (collected, seen_ids, saw_encrypted)
      | Some json \<Rightarrow>
          (case decision R json of
             SfEncrypted \<Rightarrow> collect_timeline R ts (collected, seen_ids, True)
           | SfInfraIgnored \<Rightarrow> collect_timeline R ts (collected, seen_ids, saw_encrypted)
           | SfDeliver \<Rightarrow>
               collect_timeline R ts
                 (collected @ [json], (case ra_str R json ''event_id'' of Some eid \<Rightarrow> insert eid seen_ids | None \<Rightarrow> seen_ids), saw_encrypted)))"

fun collect_messages :: "('s, 'v) receive_api \<Rightarrow> str list \<Rightarrow> 'v list \<times> str set \<Rightarrow> 'v list \<times> str set" where
  "collect_messages R [] acc = acc"
| "collect_messages R (t # ts) (collected, seen_ids) =
     (case ra_parse R t of
        None \<Rightarrow> collect_messages R ts (collected, seen_ids)
      | Some json \<Rightarrow>
          (if decision R json \<noteq> SfDeliver then collect_messages R ts (collected, seen_ids)
           else
             (case ra_str R json ''event_id'' of
                None \<Rightarrow> collect_messages R ts (collected @ [json], seen_ids)
              | Some eid \<Rightarrow>
                  if eid \<in> seen_ids then collect_messages R ts (collected, seen_ids)
                  else collect_messages R ts (collected @ [json], insert eid seen_ids))))"

definition client_sync_and_collect ::
  "('s, 'v) receive_api \<Rightarrow> str \<Rightarrow> 's \<Rightarrow> (MatrixClientError, 'v list) result \<times> 's" where
  "client_sync_and_collect R room =
     attempt (map_err MeSdk (ra_sync_room R room)) (\<lambda>joined s.
       (case collect_timeline R (case joined of Some ts \<Rightarrow> ts | None \<Rightarrow> []) ([], {}, False) of
          (collected, seen_ids, saw_encrypted) \<Rightarrow>
            if \<not> saw_encrypted then (Okay collected, s)
            else
              (let s = snd (ra_sync_room R room s)
               in if \<not> sdk_get_room (ra_sdk R) room s then (Okay collected, s)
                  else (case ra_messages R room s of
                          (Inl _, s) \<Rightarrow> (Okay collected, s)
                        | (Inr chunk, s) \<Rightarrow> (Okay (fst (collect_messages R chunk (collected, seen_ids))), s)))))"

text \<open>The state events of the store, and those that were stored encrypted.\<close>

definition state_pair :: "('s, 'v) receive_api \<Rightarrow> 'v \<Rightarrow> str \<times> 'v" where
  "state_pair R v =
     (case ra_str R v ''state_key'' of Some k \<Rightarrow> k | None \<Rightarrow> '''',
      case value_get (sdk_values (ra_sdk R)) v ''content'' of Some c \<Rightarrow> c | None \<Rightarrow> ra_default R)"

definition of_type :: "('s, 'v) receive_api \<Rightarrow> str \<Rightarrow> 'v \<Rightarrow> bool" where
  "of_type R event_type v \<longleftrightarrow> (case ra_str R v ''type'' of Some t \<Rightarrow> t | None \<Rightarrow> '''') = event_type"

fun raw_text :: "raw_state \<Rightarrow> str" where
  "raw_text (RawSync t) = t"
| "raw_text (RawStripped t) = t"

fun decrypted_state :: "('s, 'v) receive_api \<Rightarrow> str \<Rightarrow> str \<Rightarrow> 's \<Rightarrow> raw_state \<Rightarrow> (str \<times> 'v) option" where
  "decrypted_state R room event_type s (RawSync t) =
     (case ra_decrypt R room t s of
        Inl _ \<Rightarrow> None
      | Inr text \<Rightarrow> Option.bind (ra_parse R text) (\<lambda>v. if of_type R event_type v then Some (state_pair R v) else None))"
| "decrypted_state R room event_type s (RawStripped t) =
     Option.bind (ra_parse R t) (\<lambda>v. if of_type R event_type v then Some (state_pair R v) else None)"

definition get_state_events_cached ::
  "('s, 'v) receive_api \<Rightarrow> str \<Rightarrow> str \<Rightarrow> 's \<Rightarrow> (MatrixClientError, (str \<times> 'v) list) result" where
  "get_state_events_cached R room event_type s =
     (if \<not> sdk_get_room (ra_sdk R) room s then Err (MeRoomNotFound room)
      else
        (case ra_state_events R room event_type s of
           Inl e \<Rightarrow> Err (MeOther e)
         | Inr raws \<Rightarrow>
             (let results = List.map_filter (\<lambda>r. map_option (state_pair R) (ra_parse R (raw_text r))) raws
              in if results \<noteq> [] then Okay results
                 else (case ra_state_events R room ''m.room.encrypted'' s of
                         Inl e \<Rightarrow> Err (MeOther e)
                       | Inr raws \<Rightarrow> Okay (List.map_filter (decrypted_state R room event_type s) raws)))))"

text \<open>Telemetry over REST: an encrypted state event cannot be read, only its time.\<close>

definition iso8601_ms :: "u64 \<Rightarrow> str" where
  "iso8601_ms origin_ts =
     (let secs = origin_ts div 1000; millis = origin_ts mod 1000; day_secs = secs mod 86400;
          (y, m, d) = days_to_ymd (secs div 86400)
      in pad 4 (unat y) @ ''-'' @ pad 2 (unat m) @ ''-'' @ pad 2 (unat d) @ ''T''
        @ pad 2 (unat (day_secs div 3600)) @ '':'' @ pad 2 (unat (day_secs mod 3600 div 60)) @ '':'' @ pad 2 (unat (day_secs mod 60))
        @ ''.'' @ pad 3 (unat millis) @ ''Z'')"

definition rest_telemetry_entry :: "('s, 'v) receive_api \<Rightarrow> str \<Rightarrow> 'v \<Rightarrow> (str \<times> 'v) option" where
  "rest_telemetry_entry R event_type event =
     (let ev_type = (case ra_str R event ''type'' of Some t \<Rightarrow> t | None \<Rightarrow> '''');
          state_key = (case ra_str R event ''state_key'' of Some k \<Rightarrow> k | None \<Rightarrow> '''');
          prefix = event_type @ '':''
      in if ev_type = event_type then Some (state_pair R event)
         else if ev_type = ''m.room.encrypted'' \<and> starts_with state_key prefix then
           (let origin_ts = (case Option.bind (value_get (sdk_values (ra_sdk R)) event ''origin_server_ts'') (as_u64 (sdk_values (ra_sdk R))) of
                               Some n \<Rightarrow> n | None \<Rightarrow> 0)
            in if origin_ts = 0 then None else Some (drop (length prefix) state_key, ra_synthetic R (iso8601_ms origin_ts)))
         else None)"

definition get_telemetry_via_rest ::
  "('s, 'v) receive_api \<Rightarrow> str \<Rightarrow> str \<Rightarrow> 's \<Rightarrow> (MatrixClientError, (str \<times> 'v) list) result" where
  "get_telemetry_via_rest R room event_type s =
     (case ra_access_token R s of
        None \<Rightarrow> Err (MeOther ''not logged in'')
      | Some _ \<Rightarrow>
          (case get_room_full_state (ra_sdk R) (rest_new (sdk_homeserver (ra_sdk R))) room s of
             Inl e \<Rightarrow> Err (MeOther e)
           | Inr all_state \<Rightarrow> Okay (List.map_filter (rest_telemetry_entry R event_type) all_state)))"

subsection \<open>What is shown of receiving\<close>

text \<open>
  What the consumers are meant to get: events that are neither encrypted nor about the
  infrastructure of the room; and what could not be decrypted.
\<close>

definition readable :: "('s, 'v) receive_api \<Rightarrow> 'v \<Rightarrow> bool" where
  "readable R json \<longleftrightarrow> ra_str R json ''type'' \<notin>
     {Some ''m.room.encrypted'', Some ''m.room.encryption'', Some ''m.room.member'', Some ''m.room.power_levels''}"

definition undecrypted :: "('s, 'v) receive_api \<Rightarrow> 'v \<Rightarrow> bool" where
  "undecrypted R json \<longleftrightarrow> ra_str R json ''type'' = Some ''m.room.encrypted''
     \<and> value_get (sdk_values (ra_sdk R)) json ''state_key'' = None"

definition deliverable :: "('s, 'v) receive_api \<Rightarrow> str list \<Rightarrow> 'v list" where
  "deliverable R ts = filter (readable R) (List.map_filter (ra_parse R) ts)"

definition event_ids :: "('s, 'v) receive_api \<Rightarrow> 'v list \<Rightarrow> str list" where
  "event_ids R = List.map_filter (\<lambda>json. ra_str R json ''event_id'')"

definition has_encrypted :: "('s, 'v) receive_api \<Rightarrow> str list \<Rightarrow> bool" where
  "has_encrypted R ts \<longleftrightarrow> list_ex (undecrypted R) (List.map_filter (ra_parse R) ts)"

lemma decision_iff:
  "readable R json \<longleftrightarrow> decision R json = SfDeliver" "undecrypted R json \<longleftrightarrow> decision R json = SfEncrypted"
  by (auto simp: readable_def undecrypted_def decision_def classify_sync_event_def)

lemma event_ids_append: "event_ids R (xs @ ys) = event_ids R xs @ event_ids R ys"
  by (simp add: event_ids_def List.map_filter_def)

lemma collect_timeline_eq:
  "collect_timeline R ts (c, seen, enc) = (c @ deliverable R ts, seen \<union> set (event_ids R (deliverable R ts)), enc \<or> has_encrypted R ts)"
proof (induction ts arbitrary: c seen enc)
  case Nil
  show ?case by (simp add: deliverable_def event_ids_def has_encrypted_def List.map_filter_def)
next
  case (Cons t ts)
  show ?case
  proof (cases "ra_parse R t")
    case None
    then have "deliverable R (t # ts) = deliverable R ts" "has_encrypted R (t # ts) = has_encrypted R ts"
      by (auto simp: deliverable_def has_encrypted_def decision_iff List.map_filter_def)
    then show ?thesis using Cons.IH None by simp
  next
    case (Some json)
    then have del: "deliverable R (t # ts) = (if decision R json = SfDeliver then [json] else []) @ deliverable R ts"
      and enc: "has_encrypted R (t # ts) \<longleftrightarrow> decision R json = SfEncrypted \<or> has_encrypted R ts"
      by (auto simp: deliverable_def has_encrypted_def decision_iff List.map_filter_def)
    show ?thesis
      by (cases "decision R json")
         (auto simp: Some Cons.IH del enc event_ids_append event_ids_def List.map_filter_def split: option.split)
  qed
qed

text \<open>Of a list of events, those whose identifier is new; events without one are kept.\<close>

fun fresh :: "('s, 'v) receive_api \<Rightarrow> str set \<Rightarrow> 'v list \<Rightarrow> 'v list" where
  "fresh R seen [] = []"
| "fresh R seen (json # jsons) =
     (case ra_str R json ''event_id'' of
        None \<Rightarrow> json # fresh R seen jsons
      | Some eid \<Rightarrow> if eid \<in> seen then fresh R seen jsons else json # fresh R (insert eid seen) jsons)"

lemma event_ids_Cons:
  "event_ids R (json # jsons) = (case ra_str R json ''event_id'' of Some eid \<Rightarrow> [eid] | None \<Rightarrow> []) @ event_ids R jsons"
  by (simp add: event_ids_def List.map_filter_def split: option.split)

lemma event_ids_Nil: "event_ids R [] = []"
  by (simp add: event_ids_def List.map_filter_def)

lemma deliverable_Cons:
  "deliverable R (t # ts) =
     (case ra_parse R t of Some json \<Rightarrow> if decision R json = SfDeliver then [json] else [] | None \<Rightarrow> []) @ deliverable R ts"
  by (simp add: deliverable_def decision_iff List.map_filter_def split: option.split)

lemma collect_messages_eq: "fst (collect_messages R ts (c, seen)) = c @ fresh R seen (deliverable R ts)"
proof (induction ts arbitrary: c seen)
  case Nil
  show ?case by (simp add: deliverable_def List.map_filter_def)
next
  case (Cons t ts)
  show ?case by (auto simp: deliverable_Cons Cons.IH split: option.split)
qed

lemma fresh_subseq: "subseq (fresh R seen jsons) jsons"
  by (induction jsons arbitrary: seen) (auto split: option.split)

lemma fresh_without_id:
  "filter (\<lambda>json. ra_str R json ''event_id'' = None) (fresh R seen jsons) = filter (\<lambda>json. ra_str R json ''event_id'' = None) jsons"
  by (induction jsons arbitrary: seen) (auto split: option.split)

lemma fresh_ids: "distinct (event_ids R (fresh R seen jsons)) \<and> set (event_ids R (fresh R seen jsons)) \<inter> seen = {}"
  by (induction jsons arbitrary: seen) (auto simp: event_ids_Cons event_ids_Nil split: option.split)

lemma fresh_complete:
  "json \<in> set jsons \<Longrightarrow> json \<in> set (fresh R seen jsons)
     \<or> (\<exists>eid. ra_str R json ''event_id'' = Some eid \<and> eid \<in> seen \<union> set (event_ids R (fresh R seen jsons)))"
proof (induction jsons arbitrary: seen)
  case (Cons j jsons)
  show ?case
  proof (cases "ra_str R j ''event_id''")
    case None
    with Cons.prems Cons.IH [of seen] show ?thesis by (auto simp: event_ids_Cons)
  next
    case (Some eid)
    show ?thesis
    proof (cases "eid \<in> seen")
      case True
      with Cons.prems Cons.IH [of seen] Some show ?thesis by auto
    next
      case False
      with Cons.prems Cons.IH [of "insert eid seen"] Some show ?thesis by (auto simp: event_ids_Cons)
    qed
  qed
qed simp

text \<open>
  C37. What a call of the collecting sync hands on, exactly. It starts with the readable events of
  the sync, in their order. If one of the events could not be decrypted, the room is known and a page of
  its messages can be read after a second sync, then events of that page follow, and nothing else:
  a subsequence of its readable events in which no identifier occurs twice or was in the sync, and which
  leaves out only events whose identifier was there before; events without an identifier are all
  kept. Otherwise nothing follows, and without an encrypted event nothing more is fetched. What the second
  sync itself returned is dropped: its events count only as far as the page has them.
\<close>

theorem sync_hands_on:
  assumes "ra_sync_room R room s = (Okay joined, s1)"
    and "timeline = (case joined of Some ts \<Rightarrow> ts | None \<Rightarrow> [])" and "t = snd (ra_sync_room R room s1)"
  shows "\<exists>more. fst (client_sync_and_collect R room s) = Okay (deliverable R timeline @ more)
    \<and> (\<not> has_encrypted R timeline \<longrightarrow> snd (client_sync_and_collect R room s) = s1)
    \<and> (if has_encrypted R timeline \<and> sdk_get_room (ra_sdk R) room t
       then (case fst (ra_messages R room t) of
               Inl _ \<Rightarrow> more = []
             | Inr chunk \<Rightarrow>
                 subseq more (deliverable R chunk)
               \<and> distinct (event_ids R more) \<and> set (event_ids R more) \<inter> set (event_ids R (deliverable R timeline)) = {}
               \<and> filter (\<lambda>json. ra_str R json ''event_id'' = None) more
                   = filter (\<lambda>json. ra_str R json ''event_id'' = None) (deliverable R chunk)
               \<and> (\<forall>json \<in> set (deliverable R chunk). json \<in> set more
                    \<or> (\<exists>eid. ra_str R json ''event_id'' = Some eid
                         \<and> eid \<in> set (event_ids R (deliverable R timeline)) \<union> set (event_ids R more))))
       else more = [])"
proof -
  let ?D = "deliverable R timeline"
  let ?seen = "set (event_ids R ?D)"
  have run: "client_sync_and_collect R room s =
      (if \<not> has_encrypted R timeline then (Okay ?D, s1)
       else if \<not> sdk_get_room (ra_sdk R) room t then (Okay ?D, t)
       else case ra_messages R room t of
              (Inl _, s) \<Rightarrow> (Okay ?D, s)
            | (Inr chunk, s) \<Rightarrow> (Okay (?D @ fresh R ?seen (deliverable R chunk)), s))"
    using assms(1)
    by (simp add: client_sync_and_collect_def attempt_def map_err_def assms(2,3) collect_timeline_eq collect_messages_eq Let_def split: prod.split sum.split)
  show ?thesis
  proof (cases "\<exists>chunk s2. has_encrypted R timeline \<and> sdk_get_room (ra_sdk R) room t \<and> ra_messages R room t = (Okay chunk, s2)")
    case True
    then obtain chunk s2 where page: "has_encrypted R timeline" "sdk_get_room (ra_sdk R) room t" "ra_messages R room t = (Okay chunk, s2)"
      by blast
    let ?more = "fresh R ?seen (deliverable R chunk)"
    have "fst (client_sync_and_collect R room s) = Okay (?D @ ?more)" using run page by simp
    with page fresh_subseq [of R ?seen "deliverable R chunk"] fresh_without_id [of R ?seen "deliverable R chunk"]
      fresh_ids [of R ?seen "deliverable R chunk"]
      fresh_complete [where R = R and seen = ?seen and jsons = "deliverable R chunk"]
    show ?thesis by (intro exI [of _ ?more]) simp
  next
    case False
    then show ?thesis unfolding run by (intro exI [of _ "[]"]) (auto split: prod.splits sum.splits)
  qed
qed

text \<open>A server over JSON trees, for the examples: the state is the number of syncs so far.\<close>

definition demo_matrix :: "(nat, json) matrix_sdk" where
  "demo_matrix =
     \<lparr>sdk_values = json_api, sdk_as_bool = (\<lambda>_. None), sdk_object_keys = (\<lambda>_. None), sdk_de_joined = (\<lambda>_. Err ''''), sdk_empty = JObj [],
      sdk_via = JStr, sdk_tombstone = JStr, sdk_url_encode = (\<lambda>u. u), sdk_valid_room = (\<lambda>_. Okay ()), sdk_user_id = ''@w:h'',
      sdk_server_name = ''h'', sdk_localpart = (\<lambda>u. u), sdk_device_id = None, sdk_homeserver = ''https://h/'', http_get = (\<lambda>_ _. Err ''''),
      http_delete = (\<lambda>_ s. (Err '''', s)), http_put = (\<lambda>_ _ s. (Err '''', s)), http_post = (\<lambda>_ _ s. (Err '''', s)), sdk_get_room = (\<lambda>_ _. True),
      sdk_send_state = (\<lambda>_ _ _ _ s. (Okay (), s)), sdk_create_room = (\<lambda>_ s. (Err (MeOther ''''), s)), sdk_sync = (\<lambda>s. (Okay (), Suc s)),
      sdk_join = (\<lambda>_ s. (Okay (), s)), sdk_joined = (\<lambda>_. [])\<rparr>"

definition demo_event :: "str \<Rightarrow> str \<Rightarrow> json" where
  "demo_event t eid = JObj [(''type'', JStr t), (''event_id'', JStr eid)]"

text \<open>The sync has a readable event and one that only the page of messages shows in clear.\<close>

definition demo_receive :: "(nat, json) receive_api" where
  "demo_receive =
     \<lparr>ra_sdk = demo_matrix,
      ra_parse = (\<lambda>t. if t = ''a'' then Some (demo_event ''org.mxdx.x'' ''$1'') else if t = ''e'' then Some (demo_event ''m.room.encrypted'' ''$2'')
        else if t = ''b'' then Some (demo_event ''m.call.invite'' ''$2'') else None),
      ra_sync_room = (\<lambda>_ s. (Okay (if s = 0 then Some [''a'', ''e''] else None), Suc s)), ra_sync_full = (\<lambda>s. (Okay (), s)),
      ra_messages = (\<lambda>_ s. (Okay [''b'', ''a''], s)), ra_state_events = (\<lambda>_ _ _. Okay []), ra_decrypt = (\<lambda>_ _ _. Err ''''),
      ra_default = JNull,
      ra_synthetic = (\<lambda>ts. JObj [(''timestamp'', JStr ts), (''heartbeat_interval_ms'', JNum 60000), (''status'', JStr ''online''), (''capabilities'', JArr []),
        (''_encrypted'', JNull)]),
      ra_access_token = (\<lambda>_. Some ''t'')\<rparr>"

theorem sync_hands_on_witness:
  "\<exists>more. fst (client_sync_and_collect demo_receive ''!r'' 0) = Okay (demo_event ''org.mxdx.x'' ''$1'' # more)
     \<and> demo_event ''m.call.invite'' ''$2'' \<in> set more \<and> demo_event ''org.mxdx.x'' ''$1'' \<notin> set more"
proof -
  have sync: "ra_sync_room demo_receive ''!r'' 0 = (Okay (Some [''a'', ''e'']), 1)" by code_simp
  have timeline: "deliverable demo_receive [''a'', ''e''] = [demo_event ''org.mxdx.x'' ''$1'']"
    "event_ids demo_receive [demo_event ''org.mxdx.x'' ''$1''] = [''$1'']" by code_simp+
  have page: "has_encrypted demo_receive [''a'', ''e'']"
    "sdk_get_room (ra_sdk demo_receive) ''!r'' 2" "fst (ra_messages demo_receive ''!r'' 2) = Okay [''b'', ''a'']"
    by code_simp+
  have second: "2 = snd (ra_sync_room demo_receive ''!r'' 1)" by code_simp
  have ids: "ra_str demo_receive (demo_event ''m.call.invite'' ''$2'') ''event_id'' = Some ''$2''"
    "ra_str demo_receive (demo_event ''org.mxdx.x'' ''$1'') ''event_id'' = Some ''$1''" by code_simp+
  have chunk: "deliverable demo_receive [''b'', ''a''] = [demo_event ''m.call.invite'' ''$2'', demo_event ''org.mxdx.x'' ''$1'']"
    by code_simp
  from sync_hands_on [OF sync _ second, of "[''a'', ''e'']"] obtain more where
      run: "fst (client_sync_and_collect demo_receive ''!r'' 0) = Okay (demo_event ''org.mxdx.x'' ''$1'' # more)"
    and sub: "subseq more [demo_event ''m.call.invite'' ''$2'', demo_event ''org.mxdx.x'' ''$1'']"
    and new: "''$1'' \<notin> set (event_ids demo_receive more)"
    and all: "demo_event ''m.call.invite'' ''$2'' \<in> set more \<or> ''$2'' \<in> set (event_ids demo_receive more)"
    by (auto simp: timeline page chunk ids)
  have "''$1'' \<in> set (event_ids demo_receive more)" if "demo_event ''org.mxdx.x'' ''$1'' \<in> set more"
    using that ids(2) by (force simp: event_ids_def List.map_filter_def)
  with new have gone: "demo_event ''org.mxdx.x'' ''$1'' \<notin> set more" by blast
  have "x = demo_event ''m.call.invite'' ''$2'' \<or> x = demo_event ''org.mxdx.x'' ''$1''" if "x \<in> set more" for x
    by (rule list_emb_set [OF sub that]) simp
  with gone all have "demo_event ''m.call.invite'' ''$2'' \<in> set more"
    by (cases more) (force simp: event_ids_Nil)+
  with gone run show ?thesis by blast
qed

text \<open>The printed time of an encrypted event is read back to the millisecond.\<close>

lemma show_nat_length: "k < 10 ^ Suc n \<Longrightarrow> length (show_nat k) \<le> Suc n"
proof (induction n arbitrary: k)
  case 0
  then show ?case by (simp add: show_nat.simps [of k])
next
  case (Suc n)
  from Suc.prems have "k div 10 < 10 ^ Suc n" by (simp add: less_mult_imp_div_less)
  from Suc.IH [OF this] show ?case by (simp add: show_nat.simps [of k])
qed

lemma digit_not_cont: "is_digit c \<Longrightarrow> \<not> cont_byte (of_char c)"
proof
  assume "is_digit c" "cont_byte (of_char c)"
  then have "(of_char c :: nat) < 128" "(0x80 :: u8) \<le> of_char c"
    by (simp_all add: is_digit_def less_eq_char_def cont_byte_def)
  moreover have "(of_char c :: u8) = of_nat (of_char c)" by (simp only: of_nat_of_char)
  ultimately show False by (simp only: word_le_nat_alt unat_of_nat) simp
qed

lemma frac_millis_pad:
  assumes "k < 1000"
  shows "frac_millis (pad 3 k) = Some (Some (of_nat k))"
proof -
  have len: "length (pad 3 k) = 3" using show_nat_length [of k 2] assms by (simp add: pad_def)
  have "filter (\<lambda>c. \<not> cont_byte (of_char c)) (pad 3 k) = pad 3 k"
    by (simp add: filter_id_conv) (blast dest: pad_digit digit_not_cont)
  with len assms show ?thesis by (simp add: frac_millis_def is_char_boundary_def chars_count_def)
qed

lemma iso8601_ms_now:
  "iso8601_ms w = butlast (iso8601_now (w div 1000)) @ ''.'' @ pad 3 (unat (w mod 1000)) @ ''Z''"
  by (simp add: iso8601_ms_def iso8601_now_def Let_def butlast_append split: prod.split)

lemma client_reads_ms:
  assumes "N < 2 ^ 64"
  shows "parse_iso8601_to_epoch_ms (iso8601_ms (of_nat N)) = Some (Some (of_nat N))"
proof -
  let ?n = "N div 1000" and ?ms = "N mod 1000"
  let ?h = "?n mod 86400 div 3600" and ?mi = "?n mod 3600 div 60" and ?s = "?n mod 60"
  have w: "(of_nat N :: u64) div 1000 = of_nat ?n" "unat ((of_nat N :: u64) mod 1000) = ?ms"
    using word_div_of_nat [OF assms, of 1000] by (simp_all add: unat_of_nat)
  have "?n < 2 ^ 64" using assms by simp
  then obtain Y M D where printed: "iso8601_now (of_nat ?n) = iso_text Y M D ?h ?mi ?s"
    and b: "1 \<le> M" "M \<le> 12" "1 \<le> D" "D \<le> 31" "Y < 2 ^ 50"
    and days: "days_from_civil (of_nat Y) (of_nat M) (of_nat D) = of_nat (?n div 86400)"
    by (rule iso8601_now_text)
  let ?date = "pad 4 Y @ ''-'' @ pad 2 M @ ''-'' @ pad 2 D" and ?time = "pad 2 ?h @ '':'' @ pad 2 ?mi @ '':'' @ pad 2 ?s"
  have "iso8601_ms (of_nat N) = (?date @ CHR ''T'' # ?time @ CHR ''.'' # pad 3 ?ms) @ ''Z''"
    by (simp add: iso8601_ms_now w printed iso_text_def butlast_append)
  then have strip: "strip_suffix ''Z'' (iso8601_ms (of_nat N)) = Some (?date @ CHR ''T'' # ?time @ CHR ''.'' # pad 3 ?ms)"
    by (simp only: strip_suffix_append)
  have split: "split_once (CHR ''T'') (?date @ CHR ''T'' # ?time @ CHR ''.'' # pad 3 ?ms) = Some (?date, ?time @ CHR ''.'' # pad 3 ?ms)"
    by (rule split_once_append) simp
  have frac: "split_once (CHR ''.'') (?time @ CHR ''.'' # pad 3 ?ms) = Some (?time, pad 3 ?ms)" by (rule split_once_append) simp
  have "?h \<le> 23" "?mi \<le> 59" "?s \<le> 59" by (simp_all add: less_mult_imp_div_less flip: less_Suc_eq_le)
  then have time: "parse_time ?time = Some (of_nat ?h, of_nat ?mi, of_nat ?s)" by (rule iso_text_parse_time)
  have ms: "frac_millis (pad 3 ?ms) = Some (Some (of_nat ?ms))" by (rule frac_millis_pad) simp
  have "parse_iso8601_to_epoch_ms (iso8601_ms (of_nat N)) = Some (Some (of_nat (?n div 86400) * 86400000 + of_nat ?h * 3600000
      + of_nat ?mi * 60000 + of_nat ?s * 1000 + of_nat ?ms))"
    by (simp only: parse_iso8601_to_epoch_ms_def strip split frac ms time iso_text_parse_date [OF b] days option.case option.map
        prod.case Let_def)
  also have "\<dots> = Some (Some (of_nat (?n div 86400 * 86400000 + ?h * 3600000 + ?mi * 60000 + ?s * 1000 + ?ms)))" by simp
  finally show ?thesis by (simp only: day_split mult_div_mod_eq)
qed

text \<open>
  An encrypted worker looks online whatever it says. Telemetry that the server shows only in encrypted form
  is read as online for exactly two minutes after the server received it, and as stale afterwards: also when
  the worker has just posted that it goes offline, because its status is inside the encrypted part.
\<close>

lemma encrypted_telemetry_online:
  assumes "ra_str R event ''type'' = Some ''m.room.encrypted''" and "event_type \<noteq> ''m.room.encrypted''"
    and "ra_str R event ''state_key'' = Some (event_type @ '':'' @ key)"
    and "Option.bind (value_get (sdk_values (ra_sdk R)) event ''origin_server_ts'') (as_u64 (sdk_values (ra_sdk R))) = Some (of_nat N)"
    and "0 < N" and "N < 2 ^ 64"
    and "v = ra_synthetic R (iso8601_ms (of_nat N))"
    and "object_len (sdk_values (ra_sdk R)) v = Some 5" and "\<not> is_null (sdk_values (ra_sdk R)) v"
    and "ra_str R v ''status'' = Some ''online''" and "ra_str R v ''timestamp'' = Some (iso8601_ms (of_nat N))"
    and "Option.bind (value_get (sdk_values (ra_sdk R)) v ''heartbeat_interval_ms'') (as_u64 (sdk_values (ra_sdk R))) = Some 60000"
    and "Option.bind (value_get (sdk_values (ra_sdk R)) v ''capabilities'') (as_array (sdk_values (ra_sdk R))) = Some []"
  shows "rest_telemetry_entry R event_type event = Some (key, v)
    \<and> check_worker_liveness (sdk_values (ra_sdk R)) now_ms v =
        Some (if unat now_ms > N + 120000 then LvStale (now_ms - of_nat N) else LvOnline [])"
proof -
  have N: "unat (of_nat N :: u64) = N" by (rule unat_of_nat_u64 [OF assms(6)])
  then have "(of_nat N :: u64) \<noteq> 0" using assms(5) by (metis unat_0 less_irrefl)
  then have "rest_telemetry_entry R event_type event = Some (key, v)"
    using assms(1-4,7) by (simp add: rest_telemetry_entry_def Let_def starts_with_def)
  moreover have "saturating_sub now_ms (of_nat N) > 120000 \<longleftrightarrow> unat now_ms > N + 120000"
    unfolding word_less_nat_alt unat_saturating_sub N by auto
  moreover have "unat now_ms > N + 120000 \<Longrightarrow> saturating_sub now_ms (of_nat N) = now_ms - of_nat N"
    unfolding saturating_sub_def word_le_nat_alt N by simp
  ultimately show ?thesis
    using assms(8-13) client_reads_ms [OF assms(6)] by (auto simp: check_worker_liveness_def Let_def)
qed

lemma encrypted_telemetry_online_example:
  "\<exists>v. rest_telemetry_entry demo_receive ''org.mxdx.t''
        (JObj [(''type'', JStr ''m.room.encrypted''), (''state_key'', JStr ''org.mxdx.t:w''), (''origin_server_ts'', JNum 1772366400000)]) = Some (''w'', v)
     \<and> check_worker_liveness json_api 1772366520000 v = Some (LvOnline [])
     \<and> check_worker_liveness json_api 1772366520001 v = Some (LvStale 120001)"
proof -
  let ?ev = "JObj [(''type'', JStr ''m.room.encrypted''), (''state_key'', JStr ''org.mxdx.t:w''), (''origin_server_ts'', JNum 1772366400000)]"
  let ?v = "ra_synthetic demo_receive (iso8601_ms (of_nat 1772366400000))"
  have "rest_telemetry_entry demo_receive ''org.mxdx.t'' ?ev = Some (''w'', ?v)
      \<and> check_worker_liveness (sdk_values (ra_sdk demo_receive)) now ?v =
        Some (if unat now > 1772366400000 + 120000 then LvStale (now - of_nat 1772366400000) else LvOnline [])" for now
    by (rule encrypted_telemetry_online) (simp_all add: demo_receive_def demo_matrix_def json_api_def str_field_def)
  from this [of 1772366520000] this [of 1772366520001] show ?thesis
    by (simp add: demo_receive_def demo_matrix_def)
qed

subsection \<open>Devices, keys and cross-signing\<close>

record device_info =
  dev_id :: str
  dev_cross_signed :: bool
  dev_ed25519 :: "bytes option"

text \<open>
  The crypto store and the identities. An error of the bootstrap carries its text and, when the server asks for
  interactive authentication, the session of it; the authentication names user, password and session.
\<close>

record ('s, 'v) key_api =
  ka_devices :: "str \<Rightarrow> 's \<Rightarrow> (str, device_info list) result"
  ka_members :: "str \<Rightarrow> 's \<Rightarrow> (str, str list) result"
  ka_joined_count :: "str \<Rightarrow> 's \<Rightarrow> nat"
  ka_identity :: "str \<Rightarrow> 's \<Rightarrow> (str, bool option) result"
  ka_verify :: "str \<Rightarrow> 's \<Rightarrow> (str, unit) result \<times> 's"
  ka_bootstrap :: "(str \<times> str \<times> str option) option \<Rightarrow> 's \<Rightarrow> (str \<times> str option option, unit) result \<times> 's"
  ka_bootstrap_if_needed :: "'s \<Rightarrow> (str, unit) result \<times> 's"
  ka_key_id :: "str \<Rightarrow> (str, unit) result"
  ka_olm_device :: "'s \<Rightarrow> str"
  ka_olm_sign :: "str \<Rightarrow> 's \<Rightarrow> (str, str \<Rightarrow> bytes option) result"
  ka_own_key :: "'s \<Rightarrow> bytes"
  ka_b64_encode :: "bytes \<Rightarrow> str"
  ka_b64_decode :: "str \<Rightarrow> bytes option"
  ka_ephemeral :: "str \<Rightarrow> u64 \<Rightarrow> 'v"

fun all_have_devices :: "('s, 'v) key_api \<Rightarrow> str list \<Rightarrow> 's \<Rightarrow> (MatrixClientError, bool) result" where
  "all_have_devices K [] s = Okay True"
| "all_have_devices K (user # users) s =
     (case ka_devices K user s of
        Inl e \<Rightarrow> Err (MeOther e)
      | Inr devices \<Rightarrow> if devices = [] then Okay False else all_have_devices K users s)"

definition has_cached_keys_for_room ::
  "('s, 'v) message_api \<Rightarrow> ('s, 'v) key_api \<Rightarrow> str \<Rightarrow> 's \<Rightarrow> (MatrixClientError, bool) result" where
  "has_cached_keys_for_room M K room s =
     (if \<not> sdk_get_room (ma_sdk M) room s then Okay False
      else if \<not> ma_encrypted M room s then Okay (ka_joined_count K room s \<le> 1)
      else (case ka_members K room s of
              Inl e \<Rightarrow> Err (MeOther e)
            | Inr members \<Rightarrow> if length members \<le> 1 then Okay True else all_have_devices K members s))"

text \<open>The clock is a parameter, read once per round.\<close>

fun key_exchange_loop ::
  "('s, 'v) message_api \<Rightarrow> ('s, 'v) key_api \<Rightarrow> str \<Rightarrow> (nat \<Rightarrow> instant) \<Rightarrow> instant \<Rightarrow> nat \<Rightarrow> nat \<Rightarrow> 's \<Rightarrow> ((MatrixClientError, unit) result \<times> 's) option" where
  "key_exchange_loop M K room clk deadline 0 i s = None"
| "key_exchange_loop M K room clk deadline (Suc fuel) i s =
     (if clk i < deadline then
        (case matrix_sync_once (ma_sdk M) s of
           (Inl e, s) \<Rightarrow> Some (Err e, s)
         | (Inr _, s) \<Rightarrow>
             (case has_cached_keys_for_room M K room s of
                Inl e \<Rightarrow> Some (Err e, s)
              | Inr True \<Rightarrow> Some (Okay (), s)
              | Inr False \<Rightarrow> key_exchange_loop M K room clk deadline fuel (Suc i) s))
      else Some (Err (MeKeyExchangeTimeout (''Timed out waiting for key exchange in room '' @ room)), s))"

definition wait_for_key_exchange ::
  "('s, 'v) message_api \<Rightarrow> ('s, 'v) key_api \<Rightarrow> str \<Rightarrow> (nat \<Rightarrow> instant) \<Rightarrow> duration \<Rightarrow> nat \<Rightarrow> 's \<Rightarrow> ((MatrixClientError, unit) result \<times> 's) option" where
  "wait_for_key_exchange M K room clk timeout fuel s =
     (case has_cached_keys_for_room M K room s of
        Inl e \<Rightarrow> Some (Err e, s)
      | Inr True \<Rightarrow> Some (Okay (), s)
      | Inr False \<Rightarrow> key_exchange_loop M K room clk (clk 0 + timeout) fuel 1 s)"

definition bootstrap_cross_signing ::
  "('s, 'v) message_api \<Rightarrow> ('s, 'v) key_api \<Rightarrow> str option \<Rightarrow> 's \<Rightarrow> (MatrixClientError, unit) result \<times> 's" where
  "bootstrap_cross_signing M K password s =
     (case ka_bootstrap K None s of
        (Inr _, s) \<Rightarrow> (Okay (), s)
      | (Inl (e, uiaa), s) \<Rightarrow>
          (case password of
             None \<Rightarrow> (Err (MeOther (''Cross-signing bootstrap requires UIA but no password provided: '' @ e)), s)
           | Some pw \<Rightarrow>
               (case uiaa of
                  None \<Rightarrow> (Err (MeOther (''Cross-signing bootstrap failed (not UIA): '' @ e)), s)
                | Some session \<Rightarrow>
                    map_err (\<lambda>(e, _). MeSdk e) (ka_bootstrap K (Some (sdk_localpart (ma_sdk M) (sdk_user_id (ma_sdk M)), pw, session))) s)))"

definition bootstrap_cross_signing_if_needed ::
  "('s, 'v) message_api \<Rightarrow> ('s, 'v) key_api \<Rightarrow> str option \<Rightarrow> 's \<Rightarrow> (MatrixClientError, unit) result \<times> 's" where
  "bootstrap_cross_signing_if_needed M K password s =
     (case ka_bootstrap_if_needed K s of
        (Inr _, s) \<Rightarrow> (Okay (), s)
      | (Inl _, s) \<Rightarrow> bootstrap_cross_signing M K password s)"

definition verify_identity :: "('s, 'v) key_api \<Rightarrow> str \<Rightarrow> str \<Rightarrow> 's \<Rightarrow> (MatrixClientError, unit) result \<times> 's" where
  "verify_identity K missing user s =
     (case ka_identity K user s of
        Inl e \<Rightarrow> (Err (MeOther e), s)
      | Inr None \<Rightarrow> (Err (MeOther missing), s)
      | Inr (Some _) \<Rightarrow> map_err MeOther (ka_verify K user) s)"

definition verify_own_identity :: "('s, 'v) message_api \<Rightarrow> ('s, 'v) key_api \<Rightarrow> 's \<Rightarrow> (MatrixClientError, unit) result \<times> 's" where
  "verify_own_identity M K =
     verify_identity K (''No identity found'' @ DASH @ ''bootstrap cross-signing first'') (sdk_user_id (ma_sdk M))"

definition verify_user :: "('s, 'v) key_api \<Rightarrow> str \<Rightarrow> 's \<Rightarrow> (MatrixClientError, unit) result \<times> 's" where
  "verify_user K user =
     verify_identity K (''No identity found for '' @ user @ DASH @ ''they may not have bootstrapped cross-signing'') user"

definition is_user_verified :: "('s, 'v) key_api \<Rightarrow> str \<Rightarrow> 's \<Rightarrow> (MatrixClientError, bool) result" where
  "is_user_verified K user s =
     (case ka_identity K user s of
        Inl e \<Rightarrow> Err (MeOther e)
      | Inr identity \<Rightarrow> Okay (case identity of Some verified \<Rightarrow> verified | None \<Rightarrow> False))"

fun verified_users :: "('s, 'v) key_api \<Rightarrow> str list \<Rightarrow> 's \<Rightarrow> (MatrixClientError, str list) result" where
  "verified_users K [] s = Okay []"
| "verified_users K (user # users) s =
     (case is_user_verified K user s of
        Inl e \<Rightarrow> Err e
      | Inr v \<Rightarrow> map_sum id (\<lambda>rest. if v then user # rest else rest) (verified_users K users s))"

definition get_verified_user_ids_in_room ::
  "('s, 'v) message_api \<Rightarrow> ('s, 'v) key_api \<Rightarrow> str \<Rightarrow> 's \<Rightarrow> (MatrixClientError, str list) result" where
  "get_verified_user_ids_in_room M K room s =
     (if \<not> sdk_get_room (ma_sdk M) room s then Err (MeRoomNotFound room)
      else (case ka_members K room s of Inl e \<Rightarrow> Err (MeOther e) | Inr members \<Rightarrow> verified_users K members s))"

text \<open>The signature under the key of the own device, from the signatures the crypto machine made.\<close>

definition sign_with_device_key ::
  "('s, 'v) message_api \<Rightarrow> ('s, 'v) key_api \<Rightarrow> 's \<Rightarrow> str \<Rightarrow> (MatrixClientError, bytes \<times> bytes) result" where
  "sign_with_device_key M K s message =
     (if \<not> ma_olm_ready M s then Err (MeOther (''OlmMachine not initialized'' @ DASH @ ''E2EE not ready''))
      else
        (case ka_olm_sign K message s of
           Inl e \<Rightarrow> Err (MeOther (''device sign: '' @ e))
         | Inr signatures \<Rightarrow>
             (let key_id = ''ed25519:'' @ ka_olm_device K s
              in case ka_key_id K key_id of
                   Inl e \<Rightarrow> Err (MeOther (''parse key_id: '' @ e))
                 | Inr _ \<Rightarrow>
                     (case signatures key_id of
                        None \<Rightarrow> Err (MeOther ''device Ed25519 signature not found in OlmMachine::sign result'')
                      | Some sig \<Rightarrow> Okay (sig, ka_own_key K s)))))"

text \<open>Only a device that its owner has cross-signed counts.\<close>

definition cross_signed_device :: "('s, 'v) key_api \<Rightarrow> str \<Rightarrow> str \<Rightarrow> 's \<Rightarrow> (MatrixClientError, device_info option) result" where
  "cross_signed_device K user device s =
     (case ka_devices K user s of
        Inl e \<Rightarrow> Err (MeOther e)
      | Inr devices \<Rightarrow>
          Okay (case find (\<lambda>d. dev_id d = device) devices of
                  None \<Rightarrow> None
                | Some d \<Rightarrow> if dev_cross_signed d then Some d else None))"

definition get_peer_device_ed25519 :: "('s, 'v) key_api \<Rightarrow> str \<Rightarrow> str \<Rightarrow> 's \<Rightarrow> (MatrixClientError, bytes option) result" where
  "get_peer_device_ed25519 K user device s =
     map_sum id (\<lambda>d. Option.bind d dev_ed25519) (cross_signed_device K user device s)"

definition publish_p2p_ephemeral_key ::
  "('s, 'v) message_api \<Rightarrow> ('s, 'v) key_api \<Rightarrow> str \<Rightarrow> str \<Rightarrow> bytes \<Rightarrow> u64 \<Rightarrow> 's \<Rightarrow> (MatrixClientError, unit) result \<times> 's" where
  "publish_p2p_ephemeral_key M K room device key now_ms =
     in_room M room (\<lambda>s.
       if \<not> ma_encrypted M room s then
         (Err (MeOther (''publish_p2p_ephemeral_key refused: room '' @ room @ '' is not E2EE'' @ DASH
            @ ''cardinal rule requires encrypted rooms (MSC4362 for state events)'')), s)
       else send_state_event (ma_sdk M) room ''m.mxdx.p2p.ephemeral_key'' device (ka_ephemeral K (ka_b64_encode K key) now_ms) s)"

definition ephemeral_entry :: "('s, 'v) receive_api \<Rightarrow> ('s, 'v) key_api \<Rightarrow> str \<Rightarrow> str \<times> 'v \<Rightarrow> bytes option" where
  "ephemeral_entry R K device entry =
     (case entry of
        (state_key, content) \<Rightarrow>
          if state_key \<noteq> device then None
          else Option.bind (ra_str R content ''ephemeral_ed25519_b64'') (\<lambda>b64.
                 Option.bind (ka_b64_decode K b64) (\<lambda>key. if length key \<noteq> 32 then None else Some key)))"

definition get_p2p_ephemeral_key ::
  "('s, 'v) receive_api \<Rightarrow> ('s, 'v) key_api \<Rightarrow> str \<Rightarrow> str \<Rightarrow> str \<Rightarrow> 's \<Rightarrow> (MatrixClientError, bytes option) result" where
  "get_p2p_ephemeral_key R K room user device s =
     (case cross_signed_device K user device s of
        Inl e \<Rightarrow> Err e
      | Inr None \<Rightarrow> Okay None
      | Inr (Some _) \<Rightarrow>
          (case get_state_events_cached R room ''m.mxdx.p2p.ephemeral_key'' s of
             Inl e \<Rightarrow> Err e
           | Inr events \<Rightarrow> Okay (case List.map_filter (ephemeral_entry R K device) events of [] \<Rightarrow> None | key # _ \<Rightarrow> Some key)))"

text \<open>The wait ends: one round more than the clock needs to pass the deadline is fuel enough.\<close>

lemma key_exchange_ends:
  assumes "deadline \<le> clk (i + n)"
  shows "\<exists>r. key_exchange_loop M K room clk deadline (Suc n) i s = Some r"
  using assms
proof (induction n arbitrary: i s)
  case (Suc n)
  then show ?case by (cases "matrix_sync_once (ma_sdk M) s") (auto split: sum.splits bool.splits)
qed simp

lemma wait_for_key_exchange_ends:
  assumes "clk 0 + timeout \<le> clk (Suc n)"
  shows "\<exists>r. wait_for_key_exchange M K room clk timeout (Suc n) s = Some r"
  using key_exchange_ends [of "clk 0 + timeout" clk 1 n] assms
  by (auto simp: wait_for_key_exchange_def split: sum.splits bool.splits)

text \<open>A key for a peer exists only for a cross-signed device of that peer.\<close>

lemma peer_key_cross_signed:
  "get_peer_device_ed25519 K user device s = Okay (Some key) \<longleftrightarrow>
     (\<exists>devices d. ka_devices K user s = Okay devices \<and> find (\<lambda>d. dev_id d = device) devices = Some d
        \<and> dev_cross_signed d \<and> dev_ed25519 d = Some key)"
  by (auto simp: get_peer_device_ed25519_def cross_signed_device_def split: sum.splits option.splits if_splits)

lemma verified_users_exact:
  "verified_users K users s = Okay us \<longleftrightarrow>
     (\<forall>u \<in> set users. \<exists>v. ka_identity K u s = Okay v) \<and> us = filter (\<lambda>u. ka_identity K u s = Okay (Some True)) users"
  by (induction users arbitrary: us) (auto simp: is_user_verified_def map_sum_Okay split: sum.splits option.splits)

text \<open>
  Who published an ephemeral key is not looked at: a member of the room that writes a state event under the
  name of a cross-signed device of another user provides its key.
\<close>

lemma ephemeral_key_of_any_sender:
  assumes "cross_signed_device K user device s = Okay (Some d)"
    and "get_state_events_cached R room ''m.mxdx.p2p.ephemeral_key'' s = Okay ((device, content) # rest)"
    and "ra_str R content ''ephemeral_ed25519_b64'' = Some b64" and "ka_b64_decode K b64 = Some key" and "length key = 32"
  shows "get_p2p_ephemeral_key R K room user device s = Okay (Some key)"
  using assms by (simp add: get_p2p_ephemeral_key_def ephemeral_entry_def List.map_filter_def)

end
