(* ===== verification/P2P_Integration.thy ===== *)
theory P2P_Integration
  imports Config P2P_Driver_Loop Verify Batched_Sender Matrix_Client
begin

section \<open>The peer-to-peer transport in worker and client\<close>

text \<open>
  \<open>crates/mxdx-p2p/src/transport/matrix_signer.rs\<close>, the signer and the key source that use the Matrix client, and
  \<open>p2p_integration.rs\<close> of \<open>crates/mxdx-worker/src\<close> and \<open>crates/mxdx-client/src\<close>, which choose for every payload between the
  transport and the room. The handle of a transport is the driver whose snapshot it reads; the queue to the driver is a
  parameter. Locks that another thread poisoned are left out.
\<close>

subsection \<open>Signer and key source\<close>

record MatrixHandshakeSigner =
  cached_pk :: "bytes option"

definition matrix_signer_new :: MatrixHandshakeSigner where
  "matrix_signer_new = \<lparr>cached_pk = None\<rparr>"

definition matrix_signer_init ::
  "('s, 'v) message_api \<Rightarrow> ('s, 'v) key_api \<Rightarrow> 's \<Rightarrow> MatrixHandshakeSigner \<Rightarrow> (MatrixClientError, unit) result \<times> MatrixHandshakeSigner" where
  "matrix_signer_init M K s signer =
     (case sign_with_device_key M K s ''init'' of
        Inl e \<Rightarrow> (Err e, signer)
      | Inr (_, pk) \<Rightarrow> (Okay (), signer\<lparr>cached_pk := Some pk\<rparr>))"

definition matrix_sign :: "crypto_lib \<Rightarrow> ('s, 'v) message_api \<Rightarrow> ('s, 'v) key_api \<Rightarrow> 's \<Rightarrow> HandshakeSigner" where
  "matrix_sign L M K s transcript =
     (case sign_with_device_key M K s (b64_encode L transcript) of
        Inr (sig, pk) \<Rightarrow> Okay (sig, pk)
      | Inl e \<Rightarrow> Err (VeSigningFailed (matrix_error_text e)))"

record MatrixPeerKeySource =
  mps_cache :: "str \<times> str \<rightharpoonup> bytes"

definition matrix_keys_new :: MatrixPeerKeySource where
  "matrix_keys_new = \<lparr>mps_cache = Map.empty\<rparr>"

definition matrix_keys_insert :: "str \<Rightarrow> str \<Rightarrow> bytes \<Rightarrow> MatrixPeerKeySource \<Rightarrow> MatrixPeerKeySource" where
  "matrix_keys_insert user device pk src = src\<lparr>mps_cache := (mps_cache src)((user, device) \<mapsto> pk)\<rparr>"

definition matrix_keys_refresh ::
  "('s, 'v) key_api \<Rightarrow> str \<Rightarrow> str \<Rightarrow> 's \<Rightarrow> MatrixPeerKeySource \<Rightarrow> (MatrixClientError, bool) result \<times> MatrixPeerKeySource" where
  "matrix_keys_refresh K user device s src =
     (case get_peer_device_ed25519 K user device s of
        Inl e \<Rightarrow> (Err e, src)
      | Inr (Some pk) \<Rightarrow> (Okay True, matrix_keys_insert user device pk src)
      | Inr None \<Rightarrow> (Okay False, src))"

definition matrix_keys_invalidate :: "str \<Rightarrow> str \<Rightarrow> MatrixPeerKeySource \<Rightarrow> MatrixPeerKeySource" where
  "matrix_keys_invalidate user device src = src\<lparr>mps_cache := (mps_cache src)((user, device) := None)\<rparr>"

definition matrix_peer_public_key :: "MatrixPeerKeySource \<Rightarrow> HandshakePeerKeySource" where
  "matrix_peer_public_key src user device = mps_cache src (user, device)"

text \<open>The cache is a key store in the sense of the handshake.\<close>

interpretation matrix_keys: key_store matrix_keys_new matrix_keys_insert matrix_peer_public_key
  by unfold_locales (auto simp: matrix_keys_new_def matrix_keys_insert_def matrix_peer_public_key_def)

subsection \<open>Sessions\<close>

record 'ch P2pSession =
  transport :: "'ch DriverTask option"

definition p2p_config :: "P2pConfig \<Rightarrow> str \<Rightarrow> str \<Rightarrow> str \<Rightarrow> P2PTransportConfig" where
  "p2p_config cfg user_id device_id room_id =
     (config_new user_id device_id room_id)\<lparr>idle_window := from_secs (unat (p2p_idle_timeout_seconds cfg))\<rparr>"

definition worker_new_if_enabled :: "P2pConfig \<Rightarrow> str \<Rightarrow> str \<Rightarrow> str \<Rightarrow> 'ch P2pSession option" where
  "worker_new_if_enabled cfg user_id device_id room_id =
     (if \<not> p2p_enabled cfg then None
      else Some \<lparr>transport = Some (spawn (p2p_config cfg user_id device_id room_id))\<rparr>)"

definition client_new_if_enabled :: "P2pConfig \<Rightarrow> bool \<Rightarrow> str \<Rightarrow> str \<Rightarrow> str \<Rightarrow> 'ch P2pSession option" where
  "client_new_if_enabled cfg no_p2p_cli user_id device_id room_id =
     (if \<not> p2p_enabled cfg \<or> no_p2p_cli then None
      else Some \<lparr>transport = Some (spawn (p2p_config cfg user_id device_id room_id))\<rparr>)"

definition session_disabled :: "'ch P2pSession" where
  "session_disabled = \<lparr>transport = None\<rparr>"

definition session_is_enabled :: "'ch P2pSession \<Rightarrow> bool" where
  "session_is_enabled session \<longleftrightarrow> transport session \<noteq> None"

definition session_state :: "'ch P2pSession \<Rightarrow> P2PStateSnapshot option" where
  "session_state session = map_option snapshot (transport session)"

type_synonym 'q enqueue = "OutboundRequest \<Rightarrow> 'q \<Rightarrow> TrySendResult \<times> 'q"

definition try_send_p2p :: "'ch P2pSession \<Rightarrow> 'q enqueue \<Rightarrow> str \<Rightarrow> Megolm \<Rightarrow> 'q \<Rightarrow> SendOutcome \<times> 'q" where
  "try_send_p2p session enqueue event_type payload q =
     (case transport session of
        None \<Rightarrow> (FallbackToMatrix, q)
      | Some d \<Rightarrow>
          (let r = enqueue \<lparr>req_event_type = event_type, req_payload = ciphertext_bytes payload\<rparr> q
           in case try_send (snapshot d) (\<lambda>_. fst r) of
                (outcome, touched) \<Rightarrow> (outcome, if touched then snd r else q)))"

definition send_matrix :: "('s, 'v) message_api \<Rightarrow> str \<Rightarrow> str \<Rightarrow> Megolm \<Rightarrow> 's \<Rightarrow> (MatrixClientError, str option) result \<times> 's" where
  "send_matrix M room event_type payload s = apfst (map_sum id Some) (send_megolm M room event_type payload s)"

definition try_send_via_p2p_or_matrix ::
  "('s, 'v) message_api \<Rightarrow> 'ch P2pSession option \<Rightarrow> 'q enqueue \<Rightarrow> str \<Rightarrow> str \<Rightarrow> Megolm \<Rightarrow> 's \<times> 'q \<Rightarrow>
   (MatrixClientError, str option) result \<times> 's \<times> 'q" where
  "try_send_via_p2p_or_matrix M p2p enqueue room event_type payload st =
     (case st of
        (s, q) \<Rightarrow>
          (case p2p of
             None \<Rightarrow> (case send_matrix M room event_type payload s of (r, s) \<Rightarrow> (r, s, q))
           | Some session \<Rightarrow>
               (case try_send_p2p session enqueue event_type payload q of
                  (SentP2P, q) \<Rightarrow> (Okay None, s, q)
                | (_, q) \<Rightarrow> (case send_matrix M room event_type payload s of (r, s) \<Rightarrow> (r, s, q)))))"

definition batch_window_for_p2p_state :: "P2PStateSnapshot option \<Rightarrow> duration" where
  "batch_window_for_p2p_state snap =
     (case snap of
        Some sn \<Rightarrow> if snap_is_open sn then P2P_OPEN_BATCH_WINDOW else DEFAULT_BATCH_WINDOW
      | None \<Rightarrow> DEFAULT_BATCH_WINDOW)"

definition client_batch_window_for_p2p_state :: "P2PStateSnapshot option \<Rightarrow> duration" where
  "client_batch_window_for_p2p_state snap =
     (case snap of Some sn \<Rightarrow> if snap_is_open sn then from_millis 10 else from_millis 200 | None \<Rightarrow> from_millis 200)"

record 'ch P2pSessionBundle =
  pb_session :: "'ch P2pSession option"
  pb_signer :: "MatrixHandshakeSigner option"
  pb_peer_keys :: "MatrixPeerKeySource option"
  pb_call_events :: bool
  pb_no_p2p_cli :: bool

definition worker_build_p2p_session :: "P2pConfig \<Rightarrow> str \<Rightarrow> str \<Rightarrow> str \<Rightarrow> 'ch P2pSessionBundle" where
  "worker_build_p2p_session cfg user_id device_id room_id =
     (let session = worker_new_if_enabled cfg user_id device_id room_id
      in \<lparr>pb_session = session, pb_signer = (if p2p_enabled cfg then Some matrix_signer_new else None),
          pb_peer_keys = (if p2p_enabled cfg then Some matrix_keys_new else None), pb_call_events = (session \<noteq> None), pb_no_p2p_cli = False\<rparr>)"

definition client_build_p2p_session :: "P2pConfig \<Rightarrow> bool \<Rightarrow> str \<Rightarrow> str \<Rightarrow> str \<Rightarrow> 'ch P2pSessionBundle" where
  "client_build_p2p_session cfg no_p2p_cli user_id device_id room_id =
     (let session = client_new_if_enabled cfg no_p2p_cli user_id device_id room_id;
          effectively_enabled = p2p_enabled cfg \<and> \<not> no_p2p_cli
      in \<lparr>pb_session = session, pb_signer = (if effectively_enabled then Some matrix_signer_new else None),
          pb_peer_keys = (if effectively_enabled then Some matrix_keys_new else None), pb_call_events = (session \<noteq> None),
          pb_no_p2p_cli = no_p2p_cli\<rparr>)"

definition bundle_is_enabled :: "'ch P2pSessionBundle \<Rightarrow> bool" where
  "bundle_is_enabled b \<longleftrightarrow> (case pb_session b of Some session \<Rightarrow> session_is_enabled session | None \<Rightarrow> False)"

subsection \<open>What is shown of the integration\<close>

text \<open>Client and worker use the same windows, and a bundle holds either all of its handles or none.\<close>

lemma windows_agree: "client_batch_window_for_p2p_state = batch_window_for_p2p_state"
  by (rule ext)
     (simp add: client_batch_window_for_p2p_state_def batch_window_for_p2p_state_def DEFAULT_BATCH_WINDOW_def P2P_OPEN_BATCH_WINDOW_def
       split: option.split)

lemma bundle_all_or_nothing:
  fixes b :: "'ch P2pSessionBundle"
  assumes "b = worker_build_p2p_session cfg u d r \<and> on = p2p_enabled cfg
    \<or> b = client_build_p2p_session cfg no_p2p u d r \<and> on = (p2p_enabled cfg \<and> \<not> no_p2p)"
  shows "bundle_is_enabled b = on \<and> (pb_session b \<noteq> None) = on \<and> (pb_signer b \<noteq> None) = on \<and> (pb_peer_keys b \<noteq> None) = on
    \<and> pb_call_events b = on"
  using assms
  by (auto simp: worker_build_p2p_session_def client_build_p2p_session_def worker_new_if_enabled_def client_new_if_enabled_def
      bundle_is_enabled_def session_is_enabled_def Let_def)

text \<open>Refreshing the key source only ever stores keys of cross-signed devices.\<close>

lemma refreshed_cross_signed:
  assumes "matrix_keys_refresh K user device s src = (r, src')"
    and "matrix_peer_public_key src' u d = Some pk"
  shows "matrix_peer_public_key src u d = Some pk \<or> u = user \<and> d = device
    \<and> (\<exists>devices i. ka_devices K user s = Okay devices \<and> find (\<lambda>i. dev_id i = device) devices = Some i
         \<and> dev_cross_signed i \<and> dev_ed25519 i = Some pk)"
proof (cases "src' = src")
  case False
  with assms(1) obtain k where k: "get_peer_device_ed25519 K user device s = Okay (Some k)" "src' = matrix_keys_insert user device k src"
    by (auto simp: matrix_keys_refresh_def split: sum.splits option.splits)
  from assms(2) show ?thesis unfolding k(2) matrix_keys.lookup_insert
    using k(1) [unfolded peer_key_cross_signed] by (auto split: if_splits)
qed (use assms in simp)

text \<open>
  C35. No handshake succeeds with the signer of worker and client. It signs the base64 text of the
  transcript, while the other end checks the signature against the transcript itself. With
  signatures that verify for the signed message alone, and base64 text without NUL bytes, no
  verifier accepts such a response, whatever its view of the call; the honest peer that
  has the right key of the device reports a signature mismatch.
\<close>

theorem matrix_handshake_rejected:
  assumes "sign_with_device_key M K s (b64_encode L (params_transcript p n party fp)) = Okay (sg, pk)"
    and "length sg = 64" and "length pk = 32"
    and "\<forall>t. ed_verify E pk t sg \<longrightarrow> t = as_bytes (b64_encode L (params_transcript p n party fp))"
    and "base64_law L" and "\<forall>b. CHR 0x00 \<notin> set (b64_encode L b)"
  shows "\<exists>msg. build_handshake_response L p n party fp (matrix_sign L M K s) = Okay msg
    \<and> (\<forall>q n' party' fp' peer_keys. verify_handshake_response L E q n' party' fp' msg peer_keys \<noteq> HoVerified
        \<and> (peer_keys (hp_peer_user_id q) (hp_our_device_id p) = Some pk \<longrightarrow>
            verify_handshake_response L E q n' party' fp' msg peer_keys = HoSignatureMismatch))"
proof (intro exI conjI allI impI)
  let ?msg = "Response (b64_encode L sg) (b64_encode L pk) (hp_our_device_id p)"
  show "build_handshake_response L p n party fp (matrix_sign L M K s) = Okay ?msg"
    using assms(1) by (simp add: build_handshake_response_def matrix_sign_def encode_signature_def encode_public_key_def)
  have dec: "b64_decode L (b64_encode L sg) = Okay sg" "b64_decode L (b64_encode L pk) = Okay pk"
    using assms(5) by (simp_all add: base64_law_def)
  have no: "\<not> ed_verify E pk (params_transcript q n' party' fp') sg" for q n' party' fp'
  proof -
    have "0 \<in> set (params_transcript q n' party' fp')"
      by (simp add: params_transcript_def canonical_ordering_def build_transcript_def FIELD_SEP_def)
    moreover have "0 \<notin> set (as_bytes (b64_encode L (params_transcript p n party fp)))"
      using assms(6) of_char_inj [of _ "CHR 0x00"] by (force simp: as_bytes_def)
    ultimately show ?thesis using assms(4) by metis
  qed
  show "verify_handshake_response L E q n' party' fp' ?msg peer_keys \<noteq> HoVerified" for q n' party' fp' peer_keys
    using no dec by (auto simp: verified_iff)
  show "verify_handshake_response L E q n' party' fp' ?msg peer_keys = HoSignatureMismatch"
    if "peer_keys (hp_peer_user_id q) (hp_our_device_id p) = Some pk" for q n' party' fp' peer_keys
    using that no dec assms(2,3)
    by (simp add: verify_handshake_response_def decode_public_key_b64_def decode_signature_b64_def verify_peer_signature_def
        ED25519_SIGNATURE_LEN_def ED25519_PUBLIC_KEY_LEN_def split: sum.split)
qed

text \<open>For the example: an encoding whose text has no NUL byte, two letters for a byte, and a client of the JSON server.\<close>

definition byte_pair :: "u8 \<Rightarrow> str" where
  "byte_pair w = [char_of (65 + unat w div 16), char_of (65 + unat w mod 16)]"

fun unpair :: "str \<Rightarrow> bytes" where
  "unpair (x # y # r) = of_nat ((of_char x - 65) * 16 + (of_char y - 65)) # unpair r"
| "unpair _ = []"

definition demo_crypto :: crypto_lib where
  "demo_crypto =
     \<lparr>b64_encode = (\<lambda>bs. concat (map byte_pair bs)), b64_decode = (\<lambda>s. Okay (unpair s)),
      aead_encrypt = (\<lambda>k n p. None), aead_decrypt = (\<lambda>k n c. None)\<rparr>"

lemma byte_pair_chars:
  "(of_char (char_of (65 + unat w div 16)) :: nat) = 65 + unat w div 16"
  "(of_char (char_of (65 + unat w mod 16)) :: nat) = 65 + unat w mod 16" for w :: u8
proof -
  have "unat w < 256" using unsigned_less [of w, where ?'a = nat] by simp
  then have "unat w div 16 < 16" by (simp add: less_mult_imp_div_less)
  then show "(of_char (char_of (65 + unat w div 16)) :: nat) = 65 + unat w div 16" by simp
  have "unat w mod 16 < 16" by simp
  then show "(of_char (char_of (65 + unat w mod 16)) :: nat) = 65 + unat w mod 16" by (simp del: mod_less_divisor)
qed

lemma unpair_byte_pair: "unpair (byte_pair w @ r) = w # unpair r"
proof -
  have "(65 + unat w div 16 - 65) * 16 + (65 + unat w mod 16 - 65) = unat w" by simp
  then show ?thesis by (simp only: byte_pair_def append_Cons append_Nil unpair.simps byte_pair_chars) simp
qed

lemma demo_crypto_laws: "base64_law demo_crypto" "\<forall>b. CHR 0x00 \<notin> set (b64_encode demo_crypto b)"
proof -
  have "unpair (concat (map byte_pair bs)) = bs" for bs
    by (induction bs) (simp_all add: unpair_byte_pair)
  then show "base64_law demo_crypto" by (simp add: base64_law_def demo_crypto_def)
  have "(of_char c :: nat) \<noteq> 0" if "c \<in> set (byte_pair w)" for c w
  proof -
    from that have "c = char_of (65 + unat w div 16) \<or> c = char_of (65 + unat w mod 16)" by (simp add: byte_pair_def)
    then have "(of_char c :: nat) = 65 + unat w div 16 \<or> (of_char c :: nat) = 65 + unat w mod 16" using byte_pair_chars [of w] by metis
    then show ?thesis by auto
  qed
  then have "CHR 0x00 \<notin> set (byte_pair w)" for w by fastforce
  then show "\<forall>b. CHR 0x00 \<notin> set (b64_encode demo_crypto b)" by (auto simp: demo_crypto_def)
qed

definition demo_message :: "(nat, json) message_api" where
  "demo_message =
     \<lparr>ma_sdk = demo_matrix, ma_as_object = (\<lambda>_. None), ma_object = JObj, ma_string = JStr, ma_null = JNull, ma_encrypted = (\<lambda>_ _. True),
      ma_send_raw = (\<lambda>_ _ _ s. (Okay ''$e'', s)), ma_sync_members = (\<lambda>_ s. (Okay (), s)), ma_olm_ready = (\<lambda>_. True),
      ma_olm_encrypt = (\<lambda>_ _ _ s. (Okay [1], s)), ma_raw_json = (\<lambda>_. Okay ()), ma_post_encrypted = (\<lambda>_ _ s. (Okay ''$e'', Suc s)),
      ma_invite = (\<lambda>_ _ s. (Okay (), s)), ma_leave = (\<lambda>_ s. (Okay (), s)), ma_forget = (\<lambda>_ s. (Okay (), s))\<rparr>"

definition demo_keys :: "(nat, json) key_api" where
  "demo_keys =
     \<lparr>ka_devices = (\<lambda>_ _. Okay []), ka_members = (\<lambda>_ _. Okay []), ka_joined_count = (\<lambda>_ _. 1), ka_identity = (\<lambda>_ _. Okay None),
      ka_verify = (\<lambda>_ s. (Okay (), s)), ka_bootstrap = (\<lambda>_ s. (Okay (), s)), ka_bootstrap_if_needed = (\<lambda>s. (Okay (), s)),
      ka_key_id = (\<lambda>_. Okay ()), ka_olm_device = (\<lambda>_. ''B''), ka_olm_sign = (\<lambda>_ _. Okay (\<lambda>_. Some (replicate 64 1))),
      ka_own_key = (\<lambda>_. replicate 32 5), ka_b64_encode = (\<lambda>_. ''''), ka_b64_decode = (\<lambda>_. None), ka_ephemeral = (\<lambda>_ _. JNull)\<rparr>"

theorem matrix_handshake_rejected_witness:
  "\<exists>msg E. ed_verify E (replicate 32 5)
        (as_bytes (b64_encode demo_crypto (params_transcript sample_answerer (replicate 32 1) ''a'' ''AA''))) (replicate 64 1)
     \<and> build_handshake_response demo_crypto sample_answerer (replicate 32 1) ''a'' ''AA'' (matrix_sign demo_crypto demo_message demo_keys 0) = Okay msg
     \<and> verify_handshake_response demo_crypto E sample_offerer (replicate 32 2) ''b'' ''BB'' msg
         (matrix_peer_public_key (matrix_keys_insert ''@u:x'' ''B'' (replicate 32 5) matrix_keys_new)) = HoSignatureMismatch"
proof -
  let ?text = "b64_encode demo_crypto (params_transcript sample_answerer (replicate 32 1) ''a'' ''AA'')"
  let ?E = "(sample_ed [])\<lparr>ed_verify := \<lambda>pk t sg. t = as_bytes ?text\<rparr>"
  have sign: "sign_with_device_key demo_message demo_keys 0 ?text = Okay (replicate 64 1, replicate 32 5)"
    by (simp add: sign_with_device_key_def demo_message_def demo_keys_def)
  have "\<forall>t. ed_verify ?E (replicate 32 5) t (replicate 64 1) \<longrightarrow> t = as_bytes ?text" by simp
  from matrix_handshake_rejected [OF sign _ _ this demo_crypto_laws] obtain msg where
      "build_handshake_response demo_crypto sample_answerer (replicate 32 1) ''a'' ''AA'' (matrix_sign demo_crypto demo_message demo_keys 0) = Okay msg"
      "verify_handshake_response demo_crypto ?E sample_offerer (replicate 32 2) ''b'' ''BB'' msg
         (matrix_peer_public_key (matrix_keys_insert ''@u:x'' ''B'' (replicate 32 5) matrix_keys_new)) = HoSignatureMismatch"
    by (auto simp: matrix_keys.lookup_insert sample_offerer_def sample_answerer_def)
  then show ?thesis by (intro exI [of _ msg] exI [of _ ?E]) simp
qed

text \<open>
  C36. Every payload takes exactly one way. Sending either puts the ciphertext into the queue of an open
  transport, once and behind what is there, and the room sees nothing; or it leaves the queue as it
  was and posts the same ciphertext in the room, with the outcome of that. For a transport whose driver has only run
  its own loop it is always the room, and the window for batches stays the default.
\<close>

theorem payload_one_way:
  fixes items :: "'q \<Rightarrow> OutboundRequest list" and p2p :: "'ch P2pSession option"
  assumes "\<forall>req q. case enqueue req q of (res, q') \<Rightarrow> items q' = (if res = QueueOk then items q @ [req] else items q)"
    and "try_send_via_p2p_or_matrix M p2p enqueue room event_type payload (s, q) = (r, s', q')"
  shows "((\<exists>session d. p2p = Some session \<and> transport session = Some d \<and> snap_is_open (snapshot d)) \<and> r = Okay None \<and> s' = s
            \<and> items q' = items q @ [\<lparr>req_event_type = event_type, req_payload = ciphertext_bytes payload\<rparr>]
          \<or> items q' = items q \<and> (r, s') = send_matrix M room event_type payload s)
    \<and> (\<forall>env cfg session d. p2p = Some session \<and> transport session = Some d \<and> loop_reach env cfg d \<longrightarrow>
         (r, s', q') = (case send_matrix M room event_type payload s of (r, s') \<Rightarrow> (r, s', q))
         \<and> batch_window_for_p2p_state (session_state session) = DEFAULT_BATCH_WINDOW)"
proof
  obtain r0 s0 where post: "send_matrix M room event_type payload s = (r0, s0)" by fastforce
  let ?req = "\<lparr>req_event_type = event_type, req_payload = ciphertext_bytes payload\<rparr>"
  obtain res q1 where enq: "enqueue ?req q = (res, q1)" by fastforce
  have q1: "items q1 = (if res = QueueOk then items q @ [?req] else items q)"
    using spec [OF spec [OF assms(1), of ?req], of q] by (simp add: enq)
  show "(\<exists>session d. p2p = Some session \<and> transport session = Some d \<and> snap_is_open (snapshot d)) \<and> r = Okay None \<and> s' = s
          \<and> items q' = items q @ [?req]
        \<or> items q' = items q \<and> (r, s') = send_matrix M room event_type payload s"
    using assms(2) q1
    by (cases res)
       (auto simp: try_send_via_p2p_or_matrix_def try_send_p2p_def try_send_def Let_def post enq split: option.splits if_splits)
  have "snap_is_open (snapshot d) = False" if "loop_reach env cfg d" for env cfg and d :: "'ch DriverTask"
    using loop_unconnected [OF that] dormant_not_open [of "state d"] by (simp add: unconnected_def dormant_def snapshot_from_def)
  then show "\<forall>env cfg session d. p2p = Some session \<and> transport session = Some d \<and> loop_reach env cfg d \<longrightarrow>
      (r, s', q') = (case send_matrix M room event_type payload s of (r, s') \<Rightarrow> (r, s', q))
      \<and> batch_window_for_p2p_state (session_state session) = DEFAULT_BATCH_WINDOW"
    using assms(2)
    by (auto simp: try_send_via_p2p_or_matrix_def try_send_p2p_def try_send_def Let_def post batch_window_for_p2p_state_def session_state_def)
qed

theorem payload_one_way_witness:
  "\<exists>d :: unit DriverTask. snap_is_open (snapshot d) \<and>
     try_send_via_p2p_or_matrix demo_message (Some \<lparr>transport = Some d\<rparr>) (\<lambda>req q. (QueueOk, q @ [req])) ''!r'' ''t'' (Megolm [1]) (0, [])
       = (Okay None, 0, [\<lparr>req_event_type = ''t'', req_payload = [1]\<rparr>])"
proof -
  let ?d = "(spawn (config_new ''u'' ''d'' ''r''))\<lparr>snapshot := \<lparr>snap_name = ''Open'', snap_is_open = True\<rparr>\<rparr> :: unit DriverTask"
  let ?enq = "\<lambda>req q. (QueueOk, q @ [req])"
  obtain r s' q' where run: "try_send_via_p2p_or_matrix demo_message (Some \<lparr>transport = Some ?d\<rparr>) ?enq ''!r'' ''t'' (Megolm [1]) (0, []) = (r, s', q')"
    by (metis prod_cases3)
  have "r = Okay None" using run by (simp add: try_send_via_p2p_or_matrix_def try_send_p2p_def try_send_def Let_def)
  moreover have "(Okay None, t) \<noteq> send_matrix demo_message ''!r'' ''t'' (Megolm [1]) 0" for t
    by (simp add: send_matrix_def send_megolm_def in_encrypted_room_def in_room_def attempt_def map_err_def demo_message_def demo_matrix_def)
  ultimately have "s' = 0 \<and> q' = [\<lparr>req_event_type = ''t'', req_payload = [1]\<rparr>]"
    using payload_one_way [where items = "\<lambda>q. q", OF _ run] by auto
  then show ?thesis using run \<open>r = Okay None\<close> by (intro exI [of _ ?d]) simp
qed

end
