(* ===== verification/Launcher_Terminal.thy ===== *)
theory Launcher_Terminal
  imports Launcher Keychain Clock
begin

section \<open>Terminals of the launcher\<close>

text \<open>
  \<open>crates/mxdx-launcher/src/terminal\<close>: compression of terminal data (\<open>compression.rs\<close>), tmux sessions (\<open>tmux.rs\<close>), terminal sessions (\<open>session.rs\<close>) and the
  recovery file (\<open>recovery.rs\<close>). base64 is that of the frame cipher. The zlib decoder is the list of what its reads return until it reports the end; tmux is a function of its arguments; JSON and files are
  parameters.
\<close>

subsection \<open>Compression\<close>

definition COMPRESSION_THRESHOLD :: nat where "COMPRESSION_THRESHOLD = 32"

definition CHUNK_SIZE :: nat where "CHUNK_SIZE = 8192"

record zlib_api =
  zl_compress :: "bytes \<Rightarrow> bytes"
  zl_reads :: "bytes \<Rightarrow> (str, bytes) result list"

definition compress_encode :: "crypto_lib \<Rightarrow> zlib_api \<Rightarrow> bytes \<Rightarrow> str \<times> str" where
  "compress_encode L Z data =
     (if length data < COMPRESSION_THRESHOLD then (b64_encode L data, ''raw+base64'')
      else (b64_encode L (zl_compress Z data), ''zlib+base64''))"

fun read_bounded :: "nat \<Rightarrow> (str, bytes) result list \<Rightarrow> nat \<Rightarrow> bytes \<Rightarrow> (str, bytes) result" where
  "read_bounded max_bytes [] tot output = Okay output"
| "read_bounded max_bytes (Inl e # reads) tot output = Err e"
| "read_bounded max_bytes (Inr chunk # reads) tot output =
     (if tot + length chunk > max_bytes then Err (''decompressed size exceeds max_bytes '' @ show_nat max_bytes)
      else read_bounded max_bytes reads (tot + length chunk) (output @ chunk))"

definition decode_decompress_bounded :: "crypto_lib \<Rightarrow> zlib_api \<Rightarrow> str \<Rightarrow> str \<Rightarrow> nat \<Rightarrow> (str, bytes) result" where
  "decode_decompress_bounded L Z encoded encoding max_bytes =
     (if encoding = ''raw+base64'' then
        (case b64_decode L encoded of
           Inl e \<Rightarrow> Err e
         | Inr decoded \<Rightarrow>
             if length decoded > max_bytes then
               Err (''decoded size '' @ show_nat (length decoded) @ '' exceeds max_bytes '' @ show_nat max_bytes)
             else Okay decoded)
      else if encoding = ''zlib+base64'' then
        (case b64_decode L encoded of
           Inl e \<Rightarrow> Err e
         | Inr compressed \<Rightarrow> read_bounded max_bytes (zl_reads Z compressed) 0 [])
      else Err (''unknown encoding: '' @ encoding))"

subsection \<open>tmux\<close>

record launcher_tmux =
  ltx_name :: str

definition is_valid_session_name :: "str \<Rightarrow> bool" where
  "is_valid_session_name name \<longleftrightarrow> name \<noteq> [] \<and> list_all (\<lambda>c. is_ascii_alphanumeric c \<or> c = CHR ''_'' \<or> c = CHR ''-'') name"

text \<open>A run of tmux: whether it could be started, its success, its output and its error text, both made valid UTF-8.\<close>

record tmux_output =
  to_success :: bool
  to_stdout :: str
  to_stderr :: str

type_synonym 's tmux_run = "str list \<Rightarrow> 's \<Rightarrow> (str, tmux_output) result \<times> 's"

definition tmux_ok :: "str \<Rightarrow> (str, tmux_output) result \<times> 's \<Rightarrow> (str, str) result \<times> 's" where
  "tmux_ok what r =
     (case r of
        (Inl e, s) \<Rightarrow> (Err e, s)
      | (Inr out, s) \<Rightarrow> (if to_success out then Okay (to_stdout out) else Err (''tmux '' @ what @ '' failed: '' @ to_stderr out), s))"

definition tmux_create :: "'s tmux_run \<Rightarrow> str \<Rightarrow> str \<Rightarrow> u32 \<Rightarrow> u32 \<Rightarrow> 's \<Rightarrow> (str, launcher_tmux) result \<times> 's" where
  "tmux_create T name command cols rows s =
     (if \<not> is_valid_session_name name then (Err (''invalid tmux session name: '' @ name), s)
      else apfst (map_sum id (\<lambda>_. \<lparr>ltx_name = name\<rparr>))
             (tmux_ok ''new-session'' (T [''new-session'', ''-d'', ''-s'', name, ''-x'', show_nat (unat cols), ''-y'', show_nat (unat rows), command] s)))"

definition tmux_send_input :: "'s tmux_run \<Rightarrow> launcher_tmux \<Rightarrow> str \<Rightarrow> 's \<Rightarrow> (str, unit) result \<times> 's" where
  "tmux_send_input T t data s =
     apfst (map_sum id (\<lambda>_. ())) (tmux_ok ''send-keys'' (T [''send-keys'', ''-t'', ltx_name t, ''-l'', ''--'', data] s))"

definition tmux_capture_pane :: "'s tmux_run \<Rightarrow> launcher_tmux \<Rightarrow> 's \<Rightarrow> (str, str) result \<times> 's" where
  "tmux_capture_pane T t s = tmux_ok ''capture-pane'' (T [''capture-pane'', ''-t'', ltx_name t, ''-p''] s)"

definition tmux_resize :: "'s tmux_run \<Rightarrow> launcher_tmux \<Rightarrow> u32 \<Rightarrow> u32 \<Rightarrow> 's \<Rightarrow> (str, unit) result \<times> 's" where
  "tmux_resize T t cols rows s =
     apfst (map_sum id (\<lambda>_. ()))
       (tmux_ok ''resize-window'' (T [''resize-window'', ''-t'', ltx_name t, ''-x'', show_nat (unat cols), ''-y'', show_nat (unat rows)] s))"

definition tmux_kill :: "'s tmux_run \<Rightarrow> launcher_tmux \<Rightarrow> 's \<Rightarrow> (str, unit) result \<times> 's" where
  "tmux_kill T t s = apfst (map_sum id (\<lambda>_. ())) (tmux_ok ''kill-session'' (T [''kill-session'', ''-t'', ltx_name t] s))"

text \<open>Dropping the handle kills the session.\<close>

definition tmux_drop :: "'s tmux_run \<Rightarrow> launcher_tmux \<Rightarrow> 's \<Rightarrow> 's" where
  "tmux_drop T t s = snd (T [''kill-session'', ''-t'', ltx_name t] s)"

text \<open>The elapsed time of every round is a parameter, and so is the debug form of a text.\<close>

fun capture_pane_until ::
  "(str \<Rightarrow> str) \<Rightarrow> 's tmux_run \<Rightarrow> launcher_tmux \<Rightarrow> str \<Rightarrow> duration \<Rightarrow> (nat \<Rightarrow> duration) \<Rightarrow> nat \<Rightarrow> nat \<Rightarrow> 's \<Rightarrow> ((str, str) result \<times> 's) option" where
  "capture_pane_until dbg T t expected timeout elapsed 0 i s = None"
| "capture_pane_until dbg T t expected timeout elapsed (Suc fuel) i s =
     (case tmux_capture_pane T t s of
        (Inl e, s) \<Rightarrow> Some (Err e, s)
      | (Inr content, s) \<Rightarrow>
          if contains_str content expected then Some (Okay content, s)
          else if elapsed i \<ge> timeout then Some (Err (''timed out waiting for '' @ dbg expected @ '' in pane output''), s)
          else capture_pane_until dbg T t expected timeout elapsed fuel (Suc i) s)"

subsection \<open>Terminal sessions\<close>

record TerminalSession =
  ts_session_id :: str
  ts_tmux :: launcher_tmux
  ts_ring_buffer :: "bytes EventRingBuffer"
  ts_seq :: u64
  ts_dm_room_id :: "str option"

definition terminal_create :: "'s tmux_run \<Rightarrow> str \<Rightarrow> str \<Rightarrow> u32 \<Rightarrow> u32 \<Rightarrow> 's \<Rightarrow> (str, TerminalSession) result \<times> 's" where
  "terminal_create T session_id command cols rows s =
     apfst (map_sum id (\<lambda>tmux. \<lparr>ts_session_id = session_id, ts_tmux = tmux, ts_ring_buffer = ring_new 1000, ts_seq = 0, ts_dm_room_id = None\<rparr>))
       (tmux_create T session_id command cols rows s)"

definition bytes_str :: "bytes \<Rightarrow> str" where
  "bytes_str bs = map (\<lambda>b. char_of (unat b)) bs"

definition handle_input ::
  "crypto_lib \<Rightarrow> zlib_api \<Rightarrow> 's tmux_run \<Rightarrow> str \<Rightarrow> TerminalSession \<Rightarrow> str \<Rightarrow> str \<Rightarrow> 's \<Rightarrow> (str, unit) result \<times> 's" where
  "handle_input L Z T utf8_error session encoded_data encoding s =
     (case decode_decompress_bounded L Z encoded_data encoding 1048576 of
        Inl e \<Rightarrow> (Err e, s)
      | Inr data \<Rightarrow>
          if \<not> utf8_valid data then (Err utf8_error, s) else tmux_send_input T (ts_tmux session) (bytes_str data) s)"

definition capture_output ::
  "crypto_lib \<Rightarrow> zlib_api \<Rightarrow> 's tmux_run \<Rightarrow> TerminalSession \<Rightarrow> 's \<Rightarrow> (str, (str \<times> str \<times> u64) option) result \<times> TerminalSession \<times> 's" where
  "capture_output L Z T session s =
     (case tmux_capture_pane T (ts_tmux session) s of
        (Inl e, s) \<Rightarrow> (Err e, session, s)
      | (Inr output, s) \<Rightarrow>
          if output = [] then (Okay None, session, s)
          else
            (case compress_encode L Z (as_bytes output) of
               (encoded, encoding) \<Rightarrow>
                 (Okay (Some (encoded, encoding, ts_seq session)),
                  session\<lparr>ts_ring_buffer := ring_push (ts_seq session) (as_bytes output) (ts_ring_buffer session), ts_seq := ts_seq session + 1\<rparr>, s)))"

subsection \<open>The recovery file\<close>

record recovery_session =
  rs_session_id :: str
  rs_dm_room_id :: str
  rs_command :: str
  rs_cols :: u32
  rs_rows :: u32
  rs_last_seq :: u64

type_synonym RecoveryState = "str \<rightharpoonup> recovery_session"

definition recovery_load :: "(str \<Rightarrow> (str, RecoveryState) result) \<Rightarrow> (str, str) result option \<Rightarrow> (str, RecoveryState) result" where
  "recovery_load parse file =
     (case file of None \<Rightarrow> Okay Map.empty | Some (Inl e) \<Rightarrow> Err e | Some (Inr text) \<Rightarrow> parse text)"

definition recovery_save ::
  "(RecoveryState \<Rightarrow> (str, str) result) \<Rightarrow> (str \<Rightarrow> (str, unit) result) \<Rightarrow> RecoveryState \<Rightarrow> (str, str) result option \<Rightarrow>
   (str, unit) result \<times> (str, str) result option" where
  "recovery_save print write st file =
     (case print st of
        Inl e \<Rightarrow> (Err e, file)
      | Inr text \<Rightarrow> (case write text of Inl e \<Rightarrow> (Err e, file) | Inr _ \<Rightarrow> (Okay (), Some (Okay text))))"

definition recovery_add :: "recovery_session \<Rightarrow> RecoveryState \<Rightarrow> RecoveryState" where
  "recovery_add session st = st(rs_session_id session \<mapsto> session)"

definition recovery_remove :: "str \<Rightarrow> RecoveryState \<Rightarrow> RecoveryState" where
  "recovery_remove session_id st = st(session_id := None)"

text \<open>The order of the values of the hash map is a parameter.\<close>

definition recoverable_sessions :: "(str set \<Rightarrow> str list) \<Rightarrow> str list \<Rightarrow> RecoveryState \<Rightarrow> recovery_session list" where
  "recoverable_sessions it tmux_sessions st =
     filter (\<lambda>r. rs_session_id r \<in> set tmux_sessions) (map (\<lambda>k. the (st k)) (it (dom st)))"

text \<open>\<open>str::lines\<close>.\<close>

definition str_lines :: "str \<Rightarrow> str list" where
  "str_lines t =
     (let parts = split_on (CHR ''\<newline>'') t; ls = (if last parts = [] then butlast parts else parts)
      in map (\<lambda>l. if l \<noteq> [] \<and> last l = CHR 0x0D then butlast l else l) ls)"

definition list_tmux_sessions :: "(str, tmux_output) result \<Rightarrow> (str, str list) result" where
  "list_tmux_sessions r =
     (case r of
        Inl e \<Rightarrow> Err e
      | Inr out \<Rightarrow> Okay (if to_success out then str_lines (to_stdout out) else []))"

subsection \<open>What is shown of terminals\<close>

text \<open>The decoder keeps its promise if its reads, each at most one chunk, are the data, or an error.\<close>

definition zlib_law :: "zlib_api \<Rightarrow> bool" where
  "zlib_law Z \<longleftrightarrow>
     (\<forall>data. \<exists>chunks. zl_reads Z (zl_compress Z data) = map Inr chunks \<and> concat chunks = data)"

lemma read_bounded_ok:
  "read_bounded m (map Inr chunks) (length out) out =
     (if length out + length (concat chunks) \<le> m \<or> chunks = [] then Okay (out @ concat chunks)
      else Err (''decompressed size exceeds max_bytes '' @ show_nat m))"
proof (induction chunks arbitrary: out)
  case (Cons chunk chunks)
  from Cons.IH [of "out @ chunk"] show ?case by auto
qed simp

lemma read_bounded_limit:
  "read_bounded m reads tot out = Okay out' \<Longrightarrow> tot = length out \<Longrightarrow> length out \<le> m \<Longrightarrow> length out' \<le> m"
  by (induction m reads tot out rule: read_bounded.induct) (auto split: if_splits)

text \<open>
  Terminal data survives its encoding and cannot grow without bound. What was encoded decodes to the same bytes
  whenever they fit the limit and to an error otherwise; and whatever a peer sends under whatever
  name of an encoding, the result never exceeds the limit.
\<close>

lemma terminal_data_bounded:
  assumes "base64_law L" and "zlib_law Z"
  shows "isl (decode_decompress_bounded L Z (fst (compress_encode L Z data)) (snd (compress_encode L Z data)) m) \<longleftrightarrow> m < length data"
    and "length data \<le> m \<Longrightarrow> decode_decompress_bounded L Z (fst (compress_encode L Z data)) (snd (compress_encode L Z data)) m = Okay data"
    and "decode_decompress_bounded L Z encoded encoding m = Okay out \<Longrightarrow> length out \<le> m"
proof -
  obtain chunks where z: "zl_reads Z (zl_compress Z data) = map Inr chunks" "concat chunks = data"
    using assms(2) unfolding zlib_law_def by blast
  have dec: "b64_decode L (b64_encode L bs) = Okay bs" for bs using assms(1) by (simp add: base64_law_def)
  have z0: "read_bounded m (map Inr chunks) 0 [] = (if length data \<le> m then Okay data else Err (''decompressed size exceeds max_bytes '' @ show_nat m))"
    using read_bounded_ok [of m chunks "[]"] z(2) by (cases "chunks = []") (auto simp: not_le)
  show "isl (decode_decompress_bounded L Z (fst (compress_encode L Z data)) (snd (compress_encode L Z data)) m) \<longleftrightarrow> m < length data"
    and "length data \<le> m \<Longrightarrow> decode_decompress_bounded L Z (fst (compress_encode L Z data)) (snd (compress_encode L Z data)) m = Okay data"
    by (auto simp: compress_encode_def decode_decompress_bounded_def dec z z0)
  show "length out \<le> m" if "decode_decompress_bounded L Z encoded encoding m = Okay out"
    using that read_bounded_limit [of m _ 0 "[]" out]
    by (auto simp: decode_decompress_bounded_def split: sum.splits if_splits)
qed

text \<open>A captured screen is numbered, decodes to its text and is kept in the ring buffer under its number.\<close>

lemma captured_output:
  assumes "base64_law L" and "zlib_law Z" and "capture_output L Z T session s = (Okay (Some (enc, encoding, n)), session', s')"
  shows "n = ts_seq session \<and> ts_seq session' = n + 1
    \<and> (\<exists>scr. decode_decompress_bounded L Z enc encoding (length scr) = Okay (as_bytes scr)
        \<and> ts_ring_buffer session' = ring_push n (as_bytes scr) (ts_ring_buffer session))"
proof -
  from assms(3) obtain scr s1 where "tmux_capture_pane T (ts_tmux session) s = (Okay scr, s1)" "scr \<noteq> []"
    and enc: "compress_encode L Z (as_bytes scr) = (enc, encoding)"
    and rest: "n = ts_seq session" "session' = session\<lparr>ts_ring_buffer := ring_push n (as_bytes scr) (ts_ring_buffer session), ts_seq := n + 1\<rparr>"
    by (auto simp: capture_output_def split: prod.splits sum.splits if_splits)
  have "decode_decompress_bounded L Z enc encoding (length scr) = Okay (as_bytes scr)"
    using terminal_data_bounded(2) [OF assms(1,2), of "as_bytes scr" "length scr"] enc by simp
  with rest show ?thesis by auto
qed

text \<open>The name of a session cannot be read as an option or a target by tmux; the wait for a text ends.\<close>

lemma tmux_create_name:
  assumes "tmux_create T name command cols rows s = (Okay t, s')"
  shows "is_valid_session_name name \<and> CHR '':'' \<notin> set name \<and> CHR ''.'' \<notin> set name"
  using assms by (auto simp: tmux_create_def is_valid_session_name_def list_all_iff is_ascii_alphanumeric_def less_eq_char_def split: if_splits)

lemma capture_pane_until_ends:
  assumes "timeout \<le> elapsed (i + n)"
  shows "\<exists>r. capture_pane_until dbg T t expected timeout elapsed (Suc n) i s = Some r"
  using assms
proof (induction n arbitrary: i s)
  case 0
  then show ?case by (auto split: prod.split sum.split)
next
  case (Suc n)
  then show ?case by (cases "tmux_capture_pane T t s"; cases "fst (tmux_capture_pane T t s)") auto
qed

text \<open>
  Recovery offers the saved sessions that tmux still has, but a launcher that ends in order has none: when its sessions are
  dropped each is killed.
\<close>

lemma recoverable_exact:
  assumes "\<forall>k r. st k = Some r \<longrightarrow> rs_session_id r = k" and "set (it (dom st)) = dom st"
  shows "r \<in> set (recoverable_sessions it names st) \<longleftrightarrow> st (rs_session_id r) = Some r \<and> rs_session_id r \<in> set names"
proof -
  have "r \<in> (\<lambda>k. the (st k)) ` dom st \<longleftrightarrow> st (rs_session_id r) = Some r"
  proof
    assume "r \<in> (\<lambda>k. the (st k)) ` dom st"
    then obtain k where "st k = Some r" by auto
    with assms(1) show "st (rs_session_id r) = Some r" by auto
  next
    assume "st (rs_session_id r) = Some r"
    then show "r \<in> (\<lambda>k. the (st k)) ` dom st" by (intro image_eqI [of _ _ "rs_session_id r"]) auto
  qed
  then show ?thesis by (simp add: recoverable_sessions_def assms(2))
qed

lemma recovery_ids_kept:
  assumes "\<forall>k r. st k = Some r \<longrightarrow> rs_session_id r = k"
  shows "\<forall>k r. recovery_add x st k = Some r \<longrightarrow> rs_session_id r = k"
    and "\<forall>k r. recovery_remove y st k = Some r \<longrightarrow> rs_session_id r = k"
  using assms by (auto simp: recovery_add_def recovery_remove_def)

end
