(* ===== verification/Legacy.thy ===== *)
theory Legacy
  imports Fabric Liveness
begin

section \<open>Legacy tasks\<close>

text \<open>
  \<open>crates/mxdx-worker/src/compat.rs\<close>: tasks of the fabric as tasks of sessions. The payload is JSON; its command is one text, split at white space.
\<close>

text \<open>\<open>str::split_whitespace\<close>.\<close>

function split_ws :: "str \<Rightarrow> str \<Rightarrow> str list" where
  "split_ws cur [] = (if cur = [] then [] else [cur])"
| "split_ws cur (c # s) =
     (case find (\<lambda>w. starts_with (c # s) w) WHITESPACE of
        Some w \<Rightarrow> (if cur = [] then [] else [cur]) @ split_ws [] (drop (length w) (c # s))
      | None \<Rightarrow> split_ws (cur @ [c]) s)"
  by pat_completeness auto
termination
proof (relation "measure (\<lambda>(cur, s). length s)")
  fix cur c s w
  assume "find (\<lambda>w. starts_with (c # s) w) WHITESPACE = Some w"
  then have "w \<in> set WHITESPACE" by (auto simp: find_Some_iff)
  then have "w \<noteq> []" by (rule WHITESPACE_nonempty)
  then show "(([], drop (length w) (c # s)), cur, c # s) \<in> measure (\<lambda>(cur, s). length s)" by (cases w) auto
qed auto

definition split_whitespace :: "str \<Rightarrow> str list" where
  "split_whitespace s = split_ws [] s"

definition extract_bin_args :: "'v value_api \<Rightarrow> 'v \<Rightarrow> str \<times> str list" where
  "extract_bin_args A payload =
     (case str_field A payload ''cmd'' of
        Some cmd \<Rightarrow> (case split_whitespace cmd of [] \<Rightarrow> ('''', []) | bin # args \<Rightarrow> (bin, args))
      | None \<Rightarrow> ('''', []))"

definition translate_legacy_task :: "'v value_api \<Rightarrow> 'v TaskEvent \<Rightarrow> SessionTask" where
  "translate_legacy_task A task =
     (case extract_bin_args A (te_payload task) of
        (bin, args) \<Rightarrow>
          \<lparr>st_uuid = te_uuid task, st_sender_id = te_sender_id task, st_bin = bin, st_args = args, st_env = None, st_cwd = None,
           st_interactive = te_p2p_stream task, st_no_room_output = False, st_timeout_seconds = Some (te_timeout_seconds task),
           st_heartbeat_interval_seconds = te_heartbeat_interval_seconds task, st_plan = te_plan task,
           st_required_capabilities = te_required_capabilities task, st_routing_mode = Some (te_routing_mode task),
           st_on_timeout = Some (te_on_timeout task), st_on_heartbeat_miss = Some (te_on_heartbeat_miss task)\<rparr>)"

subsection \<open>What is shown of legacy tasks\<close>

lemma graphic_no_whitespace:
  assumes "graphic c"
  shows "find (\<lambda>w. starts_with (c # s) w) WHITESPACE = None"
proof -
  have "\<not> starts_with (c # s) w" if "w \<in> set WHITESPACE" for w
    using WHITESPACE_nonempty [OF that] whitespace_not_graphic(1) [OF that] assms by (cases w) (auto simp: starts_with_append)
  then show ?thesis by (auto simp: find_None_iff)
qed

lemma split_ws_word: "\<forall>c \<in> set p. graphic c \<Longrightarrow> split_ws cur (p @ s) = split_ws (cur @ p) s"
  by (induction p arbitrary: cur) (simp_all add: graphic_no_whitespace)

lemma find_append_None: "find P xs = None \<Longrightarrow> find P (xs @ ys) = find P ys"
  by (induction xs) (auto split: if_splits)

lemma space_is_char_of: "char_of (32 :: nat) = CHR '' ''"
proof -
  have "char_of (of_char (CHR '' '') :: nat) = CHR '' ''" by (rule char_of_char)
  then show ?thesis by simp
qed

lemma find_space: "find (\<lambda>w. starts_with (CHR '' '' # s) w) WHITESPACE = Some '' ''"
proof -
  have "CHR '' '' \<noteq> char_of n" if "n < 14" for n :: nat
  proof
    assume "CHR '' '' = char_of n"
    then have "of_char (CHR '' '') = (of_char (char_of n :: char) :: nat)" by (rule arg_cong)
    with that show False by (simp add: of_char_of)
  qed
  then have "find (\<lambda>w. starts_with (CHR '' '' # s) w) (map (\<lambda>n. [char_of n]) [9..<14]) = None"
    by (auto simp: find_None_iff starts_with_append)
  then show ?thesis
    by (simp add: WHITESPACE_def find_append_None space_is_char_of starts_with_append del: upt_rec_numeral)
qed

lemma split_ws_space: "split_ws cur (CHR '' '' # s) = (if cur = [] then [] else [cur]) @ split_ws [] s"
  by (simp only: split_ws.simps find_space) simp

text \<open>
  A command line of words without white space, joined by spaces, comes back as its words: the first is the binary and the
  others are its arguments. Quotes have no meaning.
\<close>

lemma legacy_command:
  assumes "str_field A (te_payload task) ''cmd'' = Some (join '' '' (bin # args))"
    and "\<forall>w \<in> set (bin # args). w \<noteq> [] \<and> (\<forall>c \<in> set w. graphic c)"
  shows "st_bin (translate_legacy_task A task) = bin \<and> st_args (translate_legacy_task A task) = args"
proof -
  have "split_ws [] (join '' '' ws) = ws" if "\<forall>w \<in> set ws. w \<noteq> [] \<and> (\<forall>c \<in> set w. graphic c)" for ws
    using that
  proof (induction "'' ''" ws rule: join.induct)
    case (2 p)
    then show ?case using split_ws_word [of p "[]" "[]"] by simp
  next
    case (3 p q ps)
    then show ?case using split_ws_word [of p "[]" "'' '' @ join '' '' (q # ps)"] by (simp add: split_ws_space del: split_ws.simps)
  qed simp
  from this [OF assms(2)] show ?thesis
    using assms(1) by (simp add: translate_legacy_task_def extract_bin_args_def split_whitespace_def)
qed

text \<open>A payload without a command gives a task with an empty binary, not an error.\<close>

lemma legacy_without_command:
  "str_field A (te_payload task) ''cmd'' = None \<Longrightarrow>
     st_bin (translate_legacy_task A task) = '''' \<and> st_args (translate_legacy_task A task) = []"
  by (simp add: translate_legacy_task_def extract_bin_args_def)

end
