(* ===== verification/Channel.thy ===== *)
theory Channel
  imports P2P_Driver_Safety Clock
begin

section \<open>The WebRTC channels\<close>

text \<open>
  \<open>crates/mxdx-p2p/src/channel/native.rs\<close> and \<open>channel/wasm.rs\<close>: the two implementations of the trait \<open>WebRtcChannel\<close>, on
  libdatachannel and on the peer connection of the browser. Each is a record of its fields with a log of
  the calls it makes to its library; what the library answers is a parameter, a function of the log up to
  and with the call. Callbacks of the library are operations of their own and come at any time. The locale
  \<open>candidate_channel\<close> has what both promise for ICE candidates.
\<close>

subsection \<open>The event queue\<close>

text \<open>\<open>mpsc::Sender::try_send\<close> on the bounded channel of \<open>event_channel\<close>: a full queue drops the event.\<close>

definition try_send_event :: "ChannelEvent \<Rightarrow> ChannelEvent list \<Rightarrow> ChannelEvent list" where
  "try_send_event e q = (if length q < EVENT_QUEUE_DEPTH then q @ [e] else q)"

text \<open>An inbound frame as an event; both backends check its size in the same way.\<close>

definition message_event :: "bytes \<Rightarrow> ChannelEvent" where
  "message_event msg =
     (if length msg > MAX_INBOUND_FRAME_SIZE
      then ChFailure (''inbound frame exceeds '' @ show_nat MAX_INBOUND_FRAME_SIZE @ ''-byte cap ('' @ show_nat (length msg) @ '' bytes)'')
      else ChMessage msg)"

fun kind_debug :: "SdpKind \<Rightarrow> str" where
  "kind_debug Offer = ''Offer''"
| "kind_debug Answer = ''Answer''"

definition wrong_kind :: "str \<Rightarrow> SdpKind \<Rightarrow> ChannelError" where
  "wrong_kind expected k = InvalidSdp (''expected '' @ expected @ '', got '' @ kind_debug k)"

definition DATA_CHANNEL_LABEL :: str where
  "DATA_CHANNEL_LABEL = ''mxdx-terminal''"

subsection \<open>The native channel\<close>

text \<open>The values of libdatachannel that the code tells apart; the others carry their name or nothing.\<close>

datatype SdpType = SdOffer | SdAnswer | SdOther str

datatype ConnectionState = CsFailed | CsClosed | CsDisconnected | CsOther

datatype IceState = IsFailed | IsOther

type_synonym 'd session_desc = "'d \<times> SdpType"

text \<open>A candidate of libdatachannel: its text and its media id.\<close>

type_synonym raw_candidate = "str \<times> str"

datatype 'd NativeCall =
    NewPeer "str list"
  | NewChannel str
  | SetRemote "'d session_desc"
  | AddCandidate raw_candidate
  | SendFrame bytes
  | DropChannel
  | DropPeer

record 'd native_api =
  na_answer :: "'d NativeCall list \<Rightarrow> (str, unit) result"
  na_parse_sdp :: "str \<Rightarrow> (str, 'd) result"
  na_sdp_text :: "'d \<Rightarrow> str"

text \<open>
  The fields of \<open>NativeWebRtcChannel\<close> with those of \<open>PcShared\<close>. The oneshot of the local description is
  its sender, its receiver and the value in between.
\<close>

record 'd NativeWebRtcChannel =
  nc_pc :: bool
  nc_dc :: bool
  nc_rx :: "ChannelEvent list"
  nc_local_desc_tx :: bool
  nc_local_desc :: "'d session_desc option"
  nc_local_desc_rx :: bool
  nc_pending_candidates :: "IceCandidate list"
  nc_remote_desc_set :: bool
  nc_closed :: bool
  nc_calls :: "'d NativeCall list"

definition native_new :: "'d NativeWebRtcChannel" where
  "native_new =
     \<lparr>nc_pc = False, nc_dc = False, nc_rx = [], nc_local_desc_tx = True, nc_local_desc = None, nc_local_desc_rx = True,
      nc_pending_candidates = [], nc_remote_desc_set = False, nc_closed = False, nc_calls = []\<rparr>"

definition native_call :: "'d native_api \<Rightarrow> 'd NativeCall \<Rightarrow> 'd NativeWebRtcChannel \<Rightarrow> (str, unit) result \<times> 'd NativeWebRtcChannel" where
  "native_call A c ch = (na_answer A (nc_calls ch @ [c]), ch\<lparr>nc_calls := nc_calls ch @ [c]\<rparr>)"

definition native_emit :: "ChannelEvent \<Rightarrow> 'd NativeWebRtcChannel \<Rightarrow> 'd NativeWebRtcChannel" where
  "native_emit e ch = ch\<lparr>nc_rx := try_send_event e (nc_rx ch)\<rparr>"

text \<open>Replacing or taking the boxed data channel drops the old one, which closes it.\<close>

definition drop_data_channel :: "'d NativeWebRtcChannel \<Rightarrow> 'd NativeWebRtcChannel" where
  "drop_data_channel ch = (if nc_dc ch then ch\<lparr>nc_dc := False, nc_calls := nc_calls ch @ [DropChannel]\<rparr> else ch)"

definition store_data_channel :: "'d NativeWebRtcChannel \<Rightarrow> 'd NativeWebRtcChannel" where
  "store_data_channel ch = (drop_data_channel ch)\<lparr>nc_dc := True\<rparr>"

subsubsection \<open>Callbacks\<close>

datatype 'd NativeCallback =
    OnDescription "'d session_desc"
  | OnCandidate raw_candidate
  | OnConnectionState ConnectionState
  | OnIceState IceState
  | OnDataChannel
  | OnOpen
  | OnClosed
  | OnError str
  | OnMessage bytes

definition on_description :: "'d session_desc \<Rightarrow> 'd NativeWebRtcChannel \<Rightarrow> 'd NativeWebRtcChannel" where
  "on_description sess_desc ch =
     (if nc_local_desc_tx ch then ch\<lparr>nc_local_desc_tx := False, nc_local_desc := Some sess_desc\<rparr> else ch)"

fun on_connection_state_change :: "ConnectionState \<Rightarrow> 'd NativeWebRtcChannel \<Rightarrow> 'd NativeWebRtcChannel" where
  "on_connection_state_change CsFailed ch = native_emit (ChFailure ''connection state: Failed'') ch"
| "on_connection_state_change CsClosed ch = native_emit (ChClosed ''connection state: Closed'') ch"
| "on_connection_state_change CsDisconnected ch = native_emit (ChClosed ''connection state: Disconnected'') ch"
| "on_connection_state_change CsOther ch = ch"

fun native_callback :: "'d NativeCallback \<Rightarrow> 'd NativeWebRtcChannel \<Rightarrow> 'd NativeWebRtcChannel" where
  "native_callback (OnDescription sd) ch = on_description sd ch"
| "native_callback (OnCandidate (cand, mid)) ch =
     native_emit (ChLocalIce \<lparr>candidate = cand, sdp_mid = Some mid, sdp_mline_index = None\<rparr>) ch"
| "native_callback (OnConnectionState st) ch = on_connection_state_change st ch"
| "native_callback (OnIceState st) ch = (if st = IsFailed then native_emit (ChFailure ''ICE state: Failed'') ch else ch)"
| "native_callback OnDataChannel ch = store_data_channel ch"
| "native_callback OnOpen ch = native_emit ChOpen ch"
| "native_callback OnClosed ch = native_emit (ChClosed ''remote closed data channel'') ch"
| "native_callback (OnError err) ch = native_emit (ChFailure (''data channel error: '' @ err)) ch"
| "native_callback (OnMessage msg) ch = native_emit (message_event msg) ch"

subsubsection \<open>Operations\<close>

definition ice_url :: "IceServer \<Rightarrow> str \<Rightarrow> str option" where
  "ice_url s u =
     (if \<not> starts_with u ''stun:'' \<and> \<not> starts_with u ''turn:'' \<and> \<not> starts_with u ''turns:'' then None
      else if starts_with u ''stun:'' then Some u
      else
        (case (ice_username s, ice_credential s) of
           (Some user, Some pass) \<Rightarrow>
             if CHR ''@'' \<notin> set u
             then (case split_once (CHR '':'') u of
                     Some (scheme, rest) \<Rightarrow> Some (scheme @ '':'' @ user @ '':'' @ pass @ ''@'' @ rest)
                   | None \<Rightarrow> Some u)
             else Some u
         | _ \<Rightarrow> Some u))"

definition native_build_config :: "IceServer list \<Rightarrow> str list" where
  "native_build_config servers = concat (map (\<lambda>s. List.map_filter (ice_url s) (urls s)) servers)"

definition native_ensure_pc :: "'d native_api \<Rightarrow> IceServer list \<Rightarrow> 'd NativeWebRtcChannel \<Rightarrow> (ChannelError, unit) result \<times> 'd NativeWebRtcChannel" where
  "native_ensure_pc A servers ch =
     (if nc_pc ch then (Okay (), ch)
      else
        (case native_call A (NewPeer (native_build_config servers)) ch of
           (Inl e, ch) \<Rightarrow> (Err (IceInitFailed e), ch)
         | (Inr _, ch) \<Rightarrow> (Okay (), ch\<lparr>nc_pc := True\<rparr>)))"

definition raw_of :: "IceCandidate \<Rightarrow> raw_candidate" where
  "raw_of c = (candidate c, case sdp_mid c of Some mid \<Rightarrow> mid | None \<Rightarrow> '''')"

definition native_drain_pending :: "'d native_api \<Rightarrow> 'd NativeWebRtcChannel \<Rightarrow> 'd NativeWebRtcChannel" where
  "native_drain_pending A ch =
     (let pending = nc_pending_candidates ch;
          ch1 = ch\<lparr>nc_pending_candidates := []\<rparr>
      in if pending = [] then ch1
         else if \<not> nc_pc ch1 then ch1
         else fold (\<lambda>cand ch. snd (native_call A (AddCandidate (raw_of cand)) ch)) pending ch1)"

definition to_session_description :: "'d native_api \<Rightarrow> Sdp \<Rightarrow> (ChannelError, 'd session_desc) result" where
  "to_session_description A sdp =
     (case na_parse_sdp A (sdp_text sdp) of
        Inl e \<Rightarrow> Err (InvalidSdp e)
      | Inr parsed \<Rightarrow> Okay (parsed, case sdp_kind sdp of Offer \<Rightarrow> SdOffer | Answer \<Rightarrow> SdAnswer))"

definition from_session_description :: "'d native_api \<Rightarrow> 'd session_desc \<Rightarrow> (ChannelError, Sdp) result" where
  "from_session_description A sd =
     (case snd sd of
        SdOffer \<Rightarrow> Okay \<lparr>sdp_kind = Offer, sdp_text = na_sdp_text A (fst sd)\<rparr>
      | SdAnswer \<Rightarrow> Okay \<lparr>sdp_kind = Answer, sdp_text = na_sdp_text A (fst sd)\<rparr>
      | SdOther name \<Rightarrow> Err (InvalidSdp (''unsupported sdp type: '' @ name)))"

text \<open>
  The wait for the local description. The callbacks of the library during the wait are an argument; when the
  description is not among what arrived, the wait does not end, which is \<open>None\<close>. Its sender lives as long as the channel
  itself, so the wait never ends with the error of a dropped sender.
\<close>

definition await_description ::
  "'d native_api \<Rightarrow> str \<Rightarrow> str \<Rightarrow> SdpKind \<Rightarrow> 'd NativeCallback list \<Rightarrow> 'd NativeWebRtcChannel \<Rightarrow>
     (ChannelError, Sdp) result option \<times> 'd NativeWebRtcChannel" where
  "await_description A twice expected kind during ch =
     (if \<not> nc_local_desc_rx ch then (Some (Err (Backend twice)), ch)
      else
        let ch1 = fold native_callback during (ch\<lparr>nc_local_desc_rx := False\<rparr>)
        in case nc_local_desc ch1 of
             None \<Rightarrow> (None, ch1)
           | Some sd \<Rightarrow>
               (Some (case from_session_description A sd of
                        Inl e \<Rightarrow> Err e
                      | Inr sdp \<Rightarrow> if sdp_kind sdp \<noteq> kind then Err (wrong_kind expected (sdp_kind sdp)) else Okay sdp),
                ch1\<lparr>nc_local_desc := None\<rparr>))"

definition native_create_offer ::
  "'d native_api \<Rightarrow> IceServer list \<Rightarrow> 'd NativeCallback list \<Rightarrow> 'd NativeWebRtcChannel \<Rightarrow>
     (ChannelError, Sdp) result option \<times> 'd NativeWebRtcChannel" where
  "native_create_offer A ice_servers during ch =
     (if nc_closed ch then (Some (Err ChannelIsClosed), ch)
      else
        case native_ensure_pc A ice_servers ch of
          (Inl e, ch) \<Rightarrow> (Some (Err e), ch)
        | (Inr _, ch) \<Rightarrow>
            (case native_call A (NewChannel DATA_CHANNEL_LABEL) ch of
               (Inl e, ch) \<Rightarrow> (Some (Err (IceInitFailed (''create_data_channel: '' @ e))), ch)
             | (Inr _, ch) \<Rightarrow> await_description A ''create_offer called twice'' ''offer'' Offer during (store_data_channel ch)))"

text \<open>The remote description and the candidates that waited for it, shared by both ways to accept one.\<close>

definition native_set_remote :: "'d native_api \<Rightarrow> Sdp \<Rightarrow> 'd NativeWebRtcChannel \<Rightarrow> (ChannelError, unit) result \<times> 'd NativeWebRtcChannel" where
  "native_set_remote A remote ch =
     (case to_session_description A remote of
        Inl e \<Rightarrow> (Err e, ch)
      | Inr sd \<Rightarrow>
          (case native_call A (SetRemote sd) ch of
             (Inl e, ch) \<Rightarrow> (Err (InvalidSdp (''set_remote_description: '' @ e)), ch)
           | (Inr _, ch) \<Rightarrow> (Okay (), native_drain_pending A (ch\<lparr>nc_remote_desc_set := True\<rparr>))))"

definition native_accept_offer ::
  "'d native_api \<Rightarrow> IceServer list \<Rightarrow> Sdp \<Rightarrow> 'd NativeCallback list \<Rightarrow> 'd NativeWebRtcChannel \<Rightarrow>
     (ChannelError, Sdp) result option \<times> 'd NativeWebRtcChannel" where
  "native_accept_offer A ice_servers remote during ch =
     (if nc_closed ch then (Some (Err ChannelIsClosed), ch)
      else if sdp_kind remote \<noteq> Offer then (Some (Err (wrong_kind ''offer'' (sdp_kind remote))), ch)
      else
        case native_ensure_pc A ice_servers ch of
          (Inl e, ch) \<Rightarrow> (Some (Err e), ch)
        | (Inr _, ch) \<Rightarrow>
            (case native_set_remote A remote ch of
               (Inl e, ch) \<Rightarrow> (Some (Err e), ch)
             | (Inr _, ch) \<Rightarrow> await_description A ''accept_offer called twice'' ''answer'' Answer during ch))"

definition native_accept_answer :: "'d native_api \<Rightarrow> Sdp \<Rightarrow> 'd NativeWebRtcChannel \<Rightarrow> (ChannelError, unit) result \<times> 'd NativeWebRtcChannel" where
  "native_accept_answer A remote ch =
     (if nc_closed ch then (Err ChannelIsClosed, ch)
      else if sdp_kind remote \<noteq> Answer then (Err (wrong_kind ''answer'' (sdp_kind remote)), ch)
      else if \<not> nc_pc ch then (Err (Backend ''accept_answer before create_offer''), ch)
      else native_set_remote A remote ch)"

definition native_add_ice_candidate :: "'d native_api \<Rightarrow> IceCandidate \<Rightarrow> 'd NativeWebRtcChannel \<Rightarrow> (ChannelError, unit) result \<times> 'd NativeWebRtcChannel" where
  "native_add_ice_candidate A c ch =
     (if nc_closed ch then (Err ChannelIsClosed, ch)
      else if \<not> nc_remote_desc_set ch \<or> \<not> nc_pc ch
      then (Okay (), ch\<lparr>nc_pending_candidates := nc_pending_candidates ch @ [c]\<rparr>)
      else
        case native_call A (AddCandidate (raw_of c)) ch of
          (Inl e, ch) \<Rightarrow> (Err (InvalidCandidate e), ch)
        | (Inr _, ch) \<Rightarrow> (Okay (), ch))"

definition native_restart_ice :: "IceServer list \<Rightarrow> 'd NativeWebRtcChannel \<Rightarrow> (ChannelError, Sdp) result \<times> 'd NativeWebRtcChannel" where
  "native_restart_ice new_ice_servers ch = (Err RestartIceUnsupported, ch)"

definition native_send :: "'d native_api \<Rightarrow> bytes \<Rightarrow> 'd NativeWebRtcChannel \<Rightarrow> (ChannelError, unit) result \<times> 'd NativeWebRtcChannel" where
  "native_send A frame ch =
     (if nc_closed ch then (Err ChannelIsClosed, ch)
      else if \<not> nc_dc ch then (Err (Backend ''data channel not yet open''), ch)
      else
        case native_call A (SendFrame frame) ch of
          (Inl e, ch) \<Rightarrow> (Err (Backend (''send: '' @ e)), ch)
        | (Inr _, ch) \<Rightarrow> (Okay (), ch))"

definition native_close :: "str \<Rightarrow> 'd NativeWebRtcChannel \<Rightarrow> (ChannelError, unit) result \<times> 'd NativeWebRtcChannel" where
  "native_close reason ch =
     (if nc_closed ch then (Okay (), ch)
      else
        let ch1 = drop_data_channel (ch\<lparr>nc_closed := True\<rparr>);
            ch2 = (if nc_pc ch1 then ch1\<lparr>nc_pc := False, nc_calls := nc_calls ch1 @ [DropPeer]\<rparr> else ch1)
        in (Okay (), native_emit (ChClosed reason) ch2))"

text \<open>\<open>events().recv()\<close>: the oldest event, if there is one.\<close>

definition native_recv :: "'d NativeWebRtcChannel \<Rightarrow> ChannelEvent option \<times> 'd NativeWebRtcChannel" where
  "native_recv ch = (case nc_rx ch of [] \<Rightarrow> (None, ch) | e # q \<Rightarrow> (Some e, ch\<lparr>nc_rx := q\<rparr>))"

text \<open>A run of the channel: operations and callbacks in any order.\<close>

datatype 'd NativeOp =
    NCreateOffer "IceServer list" "'d NativeCallback list"
  | NAcceptOffer "IceServer list" Sdp "'d NativeCallback list"
  | NAcceptAnswer Sdp
  | NAddCandidate IceCandidate
  | NRestartIce "IceServer list"
  | NSend bytes
  | NClose str
  | NCallback "'d NativeCallback"
  | NRecv

fun native_step :: "'d native_api \<Rightarrow> 'd NativeOp \<Rightarrow> 'd NativeWebRtcChannel \<Rightarrow> 'd NativeWebRtcChannel" where
  "native_step A (NCreateOffer servers during) ch = snd (native_create_offer A servers during ch)"
| "native_step A (NAcceptOffer servers remote during) ch = snd (native_accept_offer A servers remote during ch)"
| "native_step A (NAcceptAnswer remote) ch = snd (native_accept_answer A remote ch)"
| "native_step A (NAddCandidate c) ch = snd (native_add_ice_candidate A c ch)"
| "native_step A (NRestartIce servers) ch = snd (native_restart_ice servers ch)"
| "native_step A (NSend frame) ch = snd (native_send A frame ch)"
| "native_step A (NClose reason) ch = snd (native_close reason ch)"
| "native_step A (NCallback cb) ch = native_callback cb ch"
| "native_step A NRecv ch = snd (native_recv ch)"

definition native_run :: "'d native_api \<Rightarrow> 'd NativeOp list \<Rightarrow> 'd NativeWebRtcChannel" where
  "native_run A ops = fold (native_step A) ops native_new"

subsection \<open>The channel of the browser\<close>

text \<open>
  The browser reports a created description as an object \<open>'j\<close>, whose field \<open>sdp\<close> is read from it. Its answers come back to
  operations that borrow the channel, so that only callbacks come in between; they only add to the queue, and
  are operations of their own here too. A candidate is its text, media id and line index.
\<close>

type_synonym init_candidate = "str \<times> str option \<times> u16 option"

datatype 'j WasmCall =
    WNewPeer "IceServer list"
  | WNewChannel str
  | WCreateOffer
  | WCreateAnswer
  | WSetLocal 'j
  | WSetRemote Sdp
  | WMakeCandidate init_candidate
  | WAddCandidate init_candidate
  | WSendFrame bytes
  | WCloseChannel
  | WClosePeer

record 'j wasm_api =
  wa_answer :: "'j WasmCall list \<Rightarrow> (str, unit) result"
  wa_created :: "'j WasmCall list \<Rightarrow> (str, 'j) result"
  wa_sdp :: "'j \<Rightarrow> str option"

record 'j WasmWebRtcChannel =
  wc_pc :: bool
  wc_dc :: bool
  wc_rx :: "ChannelEvent list"
  wc_pending_candidates :: "IceCandidate list"
  wc_remote_desc_set :: bool
  wc_closed :: bool
  wc_closures :: bool
  wc_calls :: "'j WasmCall list"

definition wasm_new :: "'j WasmWebRtcChannel" where
  "wasm_new =
     \<lparr>wc_pc = False, wc_dc = False, wc_rx = [], wc_pending_candidates = [], wc_remote_desc_set = False, wc_closed = False,
      wc_closures = False, wc_calls = []\<rparr>"

definition wasm_call :: "'j wasm_api \<Rightarrow> 'j WasmCall \<Rightarrow> 'j WasmWebRtcChannel \<Rightarrow> (str, unit) result \<times> 'j WasmWebRtcChannel" where
  "wasm_call A c ch = (wa_answer A (wc_calls ch @ [c]), ch\<lparr>wc_calls := wc_calls ch @ [c]\<rparr>)"

definition wasm_create :: "'j wasm_api \<Rightarrow> 'j WasmCall \<Rightarrow> 'j WasmWebRtcChannel \<Rightarrow> (str, 'j) result \<times> 'j WasmWebRtcChannel" where
  "wasm_create A c ch = (wa_created A (wc_calls ch @ [c]), ch\<lparr>wc_calls := wc_calls ch @ [c]\<rparr>)"

definition wasm_emit :: "ChannelEvent \<Rightarrow> 'j WasmWebRtcChannel \<Rightarrow> 'j WasmWebRtcChannel" where
  "wasm_emit e ch = ch\<lparr>wc_rx := try_send_event e (wc_rx ch)\<rparr>"

subsubsection \<open>Callbacks\<close>

text \<open>
  The closures of the peer connection are kept in the channel and end with it; those of a data channel are leaked. The
  data channel of the other end is wired and not kept. A message without bytes is one of unknown type.
\<close>

datatype WasmCallback =
    OnIceCandidate "(str \<times> str option \<times> u16 option) option"
  | OnIceConnectionState ConnectionState
  | OnRemoteDataChannel
  | OnDcOpen
  | OnDcClose
  | OnDcError str
  | OnDcMessage "bytes option"

fun ice_connection_event :: "ConnectionState \<Rightarrow> ChannelEvent option" where
  "ice_connection_event CsFailed = Some (ChFailure ''ICE connection state: failed'')"
| "ice_connection_event CsClosed = Some (ChClosed ''ICE connection state: Closed'')"
| "ice_connection_event CsDisconnected = Some (ChClosed ''ICE connection state: Disconnected'')"
| "ice_connection_event CsOther = None"

fun wasm_callback :: "WasmCallback \<Rightarrow> 'j WasmWebRtcChannel \<Rightarrow> 'j WasmWebRtcChannel" where
  "wasm_callback (OnIceCandidate c) ch =
     (case c of
        Some (cand, mid, idx) \<Rightarrow>
          if wc_closures ch
          then wasm_emit (ChLocalIce \<lparr>candidate = cand, sdp_mid = mid, sdp_mline_index = map_option ucast idx\<rparr>) ch
          else ch
      | None \<Rightarrow> ch)"
| "wasm_callback (OnIceConnectionState st) ch =
     (case ice_connection_event st of Some e \<Rightarrow> if wc_closures ch then wasm_emit e ch else ch | None \<Rightarrow> ch)"
| "wasm_callback OnRemoteDataChannel ch = ch"
| "wasm_callback OnDcOpen ch = wasm_emit ChOpen ch"
| "wasm_callback OnDcClose ch = wasm_emit (ChClosed ''remote closed data channel'') ch"
| "wasm_callback (OnDcError msg) ch = wasm_emit (ChFailure (''data channel error: '' @ msg)) ch"
| "wasm_callback (OnDcMessage data) ch = (case data of Some bs \<Rightarrow> wasm_emit (message_event bs) ch | None \<Rightarrow> ch)"

subsubsection \<open>Operations\<close>

definition wasm_build_config :: "IceServer list \<Rightarrow> IceServer list" where
  "wasm_build_config servers =
     map (\<lambda>s. \<lparr>urls = urls s, ice_username = ice_username s, ice_credential = ice_credential s\<rparr>) servers"

definition wasm_ensure_pc :: "'j wasm_api \<Rightarrow> IceServer list \<Rightarrow> 'j WasmWebRtcChannel \<Rightarrow> (ChannelError, unit) result \<times> 'j WasmWebRtcChannel" where
  "wasm_ensure_pc A servers ch =
     (if wc_pc ch then (Okay (), ch)
      else
        (case wasm_call A (WNewPeer (wasm_build_config servers)) ch of
           (Inl e, ch) \<Rightarrow> (Err (IceInitFailed e), ch)
         | (Inr _, ch) \<Rightarrow> (Okay (), ch\<lparr>wc_pc := True, wc_closures := True\<rparr>)))"

definition init_of :: "IceCandidate \<Rightarrow> init_candidate" where
  "init_of c = (candidate c, sdp_mid c, map_option ucast (sdp_mline_index c))"

definition give_candidate :: "'j wasm_api \<Rightarrow> IceCandidate \<Rightarrow> 'j WasmWebRtcChannel \<Rightarrow> 'j WasmWebRtcChannel" where
  "give_candidate A cand ch =
     (case wasm_call A (WMakeCandidate (init_of cand)) ch of
        (Inr _, ch) \<Rightarrow> snd (wasm_call A (WAddCandidate (init_of cand)) ch)
      | (Inl _, ch) \<Rightarrow> ch)"

definition wasm_drain_pending :: "'j wasm_api \<Rightarrow> 'j WasmWebRtcChannel \<Rightarrow> 'j WasmWebRtcChannel" where
  "wasm_drain_pending A ch =
     (let pending = wc_pending_candidates ch;
          ch1 = ch\<lparr>wc_pending_candidates := []\<rparr>
      in if pending = [] then ch1
         else if \<not> wc_pc ch1 then ch1
         else fold (give_candidate A) pending ch1)"

text \<open>A created description, its text, and its use as the local description, shared by offer and answer.\<close>

definition wasm_local_description ::
  "'j wasm_api \<Rightarrow> 'j WasmCall \<Rightarrow> str \<Rightarrow> str \<Rightarrow> SdpKind \<Rightarrow> 'j WasmWebRtcChannel \<Rightarrow> (ChannelError, Sdp) result \<times> 'j WasmWebRtcChannel" where
  "wasm_local_description A c what no_sdp kind ch =
     (case wasm_create A c ch of
        (Inl e, ch) \<Rightarrow> (Err (IceInitFailed (what @ '': '' @ e)), ch)
      | (Inr js, ch) \<Rightarrow>
          (case wa_sdp A js of
             None \<Rightarrow> (Err (InvalidSdp no_sdp), ch)
           | Some text \<Rightarrow>
               (case wasm_call A (WSetLocal js) ch of
                  (Inl e, ch) \<Rightarrow> (Err (IceInitFailed (''setLocalDescription: '' @ e)), ch)
                | (Inr _, ch) \<Rightarrow> (Okay \<lparr>sdp_kind = kind, sdp_text = text\<rparr>, ch))))"

definition wasm_create_offer :: "'j wasm_api \<Rightarrow> IceServer list \<Rightarrow> 'j WasmWebRtcChannel \<Rightarrow> (ChannelError, Sdp) result \<times> 'j WasmWebRtcChannel" where
  "wasm_create_offer A ice_servers ch =
     (if wc_closed ch then (Err ChannelIsClosed, ch)
      else
        case wasm_ensure_pc A ice_servers ch of
          (Inl e, ch) \<Rightarrow> (Err e, ch)
        | (Inr _, ch) \<Rightarrow>
            wasm_local_description A WCreateOffer ''createOffer'' ''offer has no sdp field'' Offer
              ((snd (wasm_call A (WNewChannel DATA_CHANNEL_LABEL) ch))\<lparr>wc_dc := True\<rparr>))"

definition wasm_set_remote :: "'j wasm_api \<Rightarrow> Sdp \<Rightarrow> 'j WasmWebRtcChannel \<Rightarrow> (ChannelError, unit) result \<times> 'j WasmWebRtcChannel" where
  "wasm_set_remote A remote ch =
     (case wasm_call A (WSetRemote remote) ch of
        (Inl e, ch) \<Rightarrow> (Err (InvalidSdp (''setRemoteDescription: '' @ e)), ch)
      | (Inr _, ch) \<Rightarrow> (Okay (), wasm_drain_pending A (ch\<lparr>wc_remote_desc_set := True\<rparr>)))"

definition wasm_accept_offer ::
  "'j wasm_api \<Rightarrow> IceServer list \<Rightarrow> Sdp \<Rightarrow> 'j WasmWebRtcChannel \<Rightarrow> (ChannelError, Sdp) result \<times> 'j WasmWebRtcChannel" where
  "wasm_accept_offer A ice_servers remote ch =
     (if wc_closed ch then (Err ChannelIsClosed, ch)
      else if sdp_kind remote \<noteq> Offer then (Err (wrong_kind ''offer'' (sdp_kind remote)), ch)
      else
        case wasm_ensure_pc A ice_servers ch of
          (Inl e, ch) \<Rightarrow> (Err e, ch)
        | (Inr _, ch) \<Rightarrow>
            (case wasm_set_remote A remote ch of
               (Inl e, ch) \<Rightarrow> (Err e, ch)
             | (Inr _, ch) \<Rightarrow> wasm_local_description A WCreateAnswer ''createAnswer'' ''answer has no sdp field'' Answer ch))"

definition wasm_accept_answer :: "'j wasm_api \<Rightarrow> Sdp \<Rightarrow> 'j WasmWebRtcChannel \<Rightarrow> (ChannelError, unit) result \<times> 'j WasmWebRtcChannel" where
  "wasm_accept_answer A remote ch =
     (if wc_closed ch then (Err ChannelIsClosed, ch)
      else if sdp_kind remote \<noteq> Answer then (Err (wrong_kind ''answer'' (sdp_kind remote)), ch)
      else if \<not> wc_pc ch then (Err (Backend ''accept_answer before create_offer''), ch)
      else wasm_set_remote A remote ch)"

definition wasm_add_ice_candidate :: "'j wasm_api \<Rightarrow> IceCandidate \<Rightarrow> 'j WasmWebRtcChannel \<Rightarrow> (ChannelError, unit) result \<times> 'j WasmWebRtcChannel" where
  "wasm_add_ice_candidate A c ch =
     (if wc_closed ch then (Err ChannelIsClosed, ch)
      else if \<not> wc_remote_desc_set ch \<or> \<not> wc_pc ch
      then (Okay (), ch\<lparr>wc_pending_candidates := wc_pending_candidates ch @ [c]\<rparr>)
      else
        case wasm_call A (WMakeCandidate (init_of c)) ch of
          (Inl e, ch) \<Rightarrow> (Err (InvalidCandidate e), ch)
        | (Inr _, ch) \<Rightarrow>
            (case wasm_call A (WAddCandidate (init_of c)) ch of
               (Inl e, ch) \<Rightarrow> (Err (InvalidCandidate e), ch)
             | (Inr _, ch) \<Rightarrow> (Okay (), ch)))"

definition wasm_restart_ice :: "IceServer list \<Rightarrow> 'j WasmWebRtcChannel \<Rightarrow> (ChannelError, Sdp) result \<times> 'j WasmWebRtcChannel" where
  "wasm_restart_ice new_ice_servers ch = (Err RestartIceUnsupported, ch)"

definition wasm_send :: "'j wasm_api \<Rightarrow> bytes \<Rightarrow> 'j WasmWebRtcChannel \<Rightarrow> (ChannelError, unit) result \<times> 'j WasmWebRtcChannel" where
  "wasm_send A frame ch =
     (if wc_closed ch then (Err ChannelIsClosed, ch)
      else if \<not> wc_dc ch then (Err (Backend ''data channel not yet open''), ch)
      else
        case wasm_call A (WSendFrame frame) ch of
          (Inl e, ch) \<Rightarrow> (Err (Backend (''send: '' @ e)), ch)
        | (Inr _, ch) \<Rightarrow> (Okay (), ch))"

definition wasm_close :: "str \<Rightarrow> 'j WasmWebRtcChannel \<Rightarrow> (ChannelError, unit) result \<times> 'j WasmWebRtcChannel" where
  "wasm_close reason ch =
     (if wc_closed ch then (Okay (), ch)
      else
        let ch1 = ch\<lparr>wc_closed := True\<rparr>;
            ch2 = (if wc_dc ch1 then ch1\<lparr>wc_dc := False, wc_calls := wc_calls ch1 @ [WCloseChannel]\<rparr> else ch1);
            ch3 = (if wc_pc ch2 then ch2\<lparr>wc_pc := False, wc_calls := wc_calls ch2 @ [WClosePeer]\<rparr> else ch2)
        in (Okay (), wasm_emit (ChClosed reason) (ch3\<lparr>wc_closures := False\<rparr>)))"

definition wasm_recv :: "'j WasmWebRtcChannel \<Rightarrow> ChannelEvent option \<times> 'j WasmWebRtcChannel" where
  "wasm_recv ch = (case wc_rx ch of [] \<Rightarrow> (None, ch) | e # q \<Rightarrow> (Some e, ch\<lparr>wc_rx := q\<rparr>))"

datatype WasmOp =
    WopCreateOffer "IceServer list"
  | WopAcceptOffer "IceServer list" Sdp
  | WopAcceptAnswer Sdp
  | WopAddCandidate IceCandidate
  | WopRestartIce "IceServer list"
  | WopSend bytes
  | WopClose str
  | WopCallback WasmCallback
  | WopRecv

fun wasm_step :: "'j wasm_api \<Rightarrow> WasmOp \<Rightarrow> 'j WasmWebRtcChannel \<Rightarrow> 'j WasmWebRtcChannel" where
  "wasm_step A (WopCreateOffer servers) ch = snd (wasm_create_offer A servers ch)"
| "wasm_step A (WopAcceptOffer servers remote) ch = snd (wasm_accept_offer A servers remote ch)"
| "wasm_step A (WopAcceptAnswer remote) ch = snd (wasm_accept_answer A remote ch)"
| "wasm_step A (WopAddCandidate c) ch = snd (wasm_add_ice_candidate A c ch)"
| "wasm_step A (WopRestartIce servers) ch = snd (wasm_restart_ice servers ch)"
| "wasm_step A (WopSend frame) ch = snd (wasm_send A frame ch)"
| "wasm_step A (WopClose reason) ch = snd (wasm_close reason ch)"
| "wasm_step A (WopCallback cb) ch = wasm_callback cb ch"
| "wasm_step A WopRecv ch = snd (wasm_recv ch)"

definition wasm_run :: "'j wasm_api \<Rightarrow> WasmOp list \<Rightarrow> 'j WasmWebRtcChannel" where
  "wasm_run A ops = fold (wasm_step A) ops wasm_new"

subsection \<open>Candidates\<close>

text \<open>
  What a backend promises for the candidates of the peer: an operation on an open channel adds what it offers to
  those given to the library or waiting, in order, and nothing else changes them; a closed channel takes none. Over a
  run those given and waiting are then all that were offered before the close.
\<close>

definition offered_until :: "('op \<Rightarrow> bool) \<Rightarrow> ('op \<Rightarrow> 'c list) \<Rightarrow> 'op list \<Rightarrow> 'c list" where
  "offered_until closes offers ops = concat (map offers (takeWhile (\<lambda>op. \<not> closes op) ops))"

locale candidate_channel =
  fixes step :: "'op \<Rightarrow> 's \<Rightarrow> 's"
    and good :: "'s \<Rightarrow> bool"
    and is_closed :: "'s \<Rightarrow> bool"
    and given :: "'s \<Rightarrow> 'c list"
    and waiting :: "'s \<Rightarrow> 'c list"
    and closes :: "'op \<Rightarrow> bool"
    and offers :: "'op \<Rightarrow> 'c list"
  assumes good_step: "good s \<Longrightarrow> good (step op s)"
    and closed_step: "good s \<Longrightarrow> is_closed (step op s) \<longleftrightarrow> is_closed s \<or> closes op"
    and keeps: "good s \<Longrightarrow> given (step op s) @ waiting (step op s) = given s @ waiting s @ (if is_closed s then [] else offers op)"
    and closing_offers_nothing: "closes op \<Longrightarrow> offers op = []"
begin

lemma run_good: "good s \<Longrightarrow> good (fold step ops s)"
  by (induction ops arbitrary: s) (simp_all add: good_step)

lemma closed_keeps: "good s \<Longrightarrow> is_closed s \<Longrightarrow> given (fold step ops s) @ waiting (fold step ops s) = given s @ waiting s"
  by (induction ops arbitrary: s) (simp_all add: good_step closed_step keeps)

lemma run_keeps:
  assumes "good s" and "\<not> is_closed s"
  shows "given (fold step ops s) @ waiting (fold step ops s) = given s @ waiting s @ offered_until closes offers ops"
  using assms
proof (induction ops arbitrary: s)
  case (Cons op ops)
  have now: "good (step op s)" "given (step op s) @ waiting (step op s) = given s @ waiting s @ offers op"
    using good_step keeps [of s op] Cons.prems by auto
  show ?case
  proof (cases "closes op")
    case True
    then have "is_closed (step op s)" using closed_step Cons.prems by simp
    from closed_keeps [OF now(1) this, of ops] now(2) closing_offers_nothing [OF True] True
    show ?thesis by (simp add: offered_until_def)
  next
    case False
    then have "\<not> is_closed (step op s)" using closed_step Cons.prems by simp
    from Cons.IH [OF now(1) this] now(2) False show ?thesis by (simp add: offered_until_def)
  qed
qed (simp add: offered_until_def)

end

text \<open>
  Order in the log of calls: the library has accepted a call of some kind (\<open>accepted\<close>), and calls of one kind come only
  after an accepted call of another (\<open>only_after\<close>).
\<close>

definition accepted :: "('c \<Rightarrow> bool) \<Rightarrow> ('c list \<Rightarrow> (str, unit) result) \<Rightarrow> 'c list \<Rightarrow> bool" where
  "accepted kind answer calls \<longleftrightarrow> (\<exists>n < length calls. kind (calls ! n) \<and> \<not> isl (answer (take (Suc n) calls)))"

definition only_after :: "('c \<Rightarrow> bool) \<Rightarrow> ('c \<Rightarrow> bool) \<Rightarrow> ('c list \<Rightarrow> (str, unit) result) \<Rightarrow> 'c list \<Rightarrow> bool" where
  "only_after late kind answer calls \<longleftrightarrow> (\<forall>n < length calls. late (calls ! n) \<longrightarrow> accepted kind answer (take n calls))"

lemma accepted_mono: "accepted kind answer calls \<Longrightarrow> accepted kind answer (calls @ rest)"
  unfolding accepted_def by (metis append_take_drop_id length_append nth_append take_append trans_less_add1 Suc_leI diff_is_0_eq take0 append_Nil2)

lemma accepted_now: "kind c \<Longrightarrow> \<not> isl (answer (calls @ [c])) \<Longrightarrow> accepted kind answer (calls @ [c])"
  unfolding accepted_def by (rule exI [of _ "length calls"]) simp

lemma only_after_snoc:
  "only_after late kind answer (calls @ [c]) \<longleftrightarrow> only_after late kind answer calls \<and> (late c \<longrightarrow> accepted kind answer calls)"
  by (auto simp: only_after_def nth_append less_Suc_eq)

lemma only_after_append:
  "only_after late kind answer calls \<Longrightarrow> accepted kind answer calls \<Longrightarrow> only_after late kind answer (calls @ rest)"
proof (induction rest rule: rev_induct)
  case (snoc c rest)
  then show ?case by (simp add: only_after_snoc accepted_mono flip: append_assoc)
qed simp

lemma map_filter_append: "List.map_filter f (xs @ ys) = List.map_filter f xs @ List.map_filter f ys"
  by (simp add: List.map_filter_def)

subsubsection \<open>Candidates of the native channel\<close>

fun added :: "'d NativeCall \<Rightarrow> raw_candidate option" where
  "added (AddCandidate c) = Some c"
| "added _ = None"

definition native_given :: "'d NativeWebRtcChannel \<Rightarrow> raw_candidate list" where
  "native_given ch = List.map_filter added (nc_calls ch)"

definition native_waiting :: "'d NativeWebRtcChannel \<Rightarrow> raw_candidate list" where
  "native_waiting ch = map raw_of (nc_pending_candidates ch)"

fun sets_remote :: "'d NativeCall \<Rightarrow> bool" where
  "sets_remote (SetRemote sd) = True"
| "sets_remote _ = False"

abbreviation remote_accepted :: "'d native_api \<Rightarrow> 'd NativeCall list \<Rightarrow> bool" where
  "remote_accepted A \<equiv> accepted sets_remote (na_answer A)"

abbreviation added_after_remote :: "'d native_api \<Rightarrow> 'd NativeCall list \<Rightarrow> bool" where
  "added_after_remote A \<equiv> only_after (\<lambda>c. added c \<noteq> None) sets_remote (na_answer A)"

definition native_good :: "'d native_api \<Rightarrow> 'd NativeWebRtcChannel \<Rightarrow> bool" where
  "native_good A ch \<longleftrightarrow>
     (nc_remote_desc_set ch \<and> \<not> nc_closed ch \<longrightarrow> nc_pc ch \<and> nc_pending_candidates ch = [])
     \<and> (nc_remote_desc_set ch \<longrightarrow> remote_accepted A (nc_calls ch)) \<and> added_after_remote A (nc_calls ch)"

text \<open>A step that keeps the channel good, does not close it and adds the candidates \<open>cs\<close>.\<close>

definition native_adds :: "'d native_api \<Rightarrow> raw_candidate list \<Rightarrow> 'd NativeWebRtcChannel \<Rightarrow> 'd NativeWebRtcChannel \<Rightarrow> bool" where
  "native_adds A cs ch ch' \<longleftrightarrow>
     (native_good A ch \<longrightarrow> native_good A ch' \<and> nc_closed ch' = nc_closed ch
        \<and> native_given ch' @ native_waiting ch' = native_given ch @ native_waiting ch @ cs)"

lemmas native_adds_defs = native_adds_def native_good_def native_given_def native_waiting_def

lemma native_adds_refl [simp]: "native_adds A [] ch ch"
  by (simp add: native_adds_def)

lemma native_adds_trans: "native_adds A cs ch ch1 \<Longrightarrow> native_adds A ds ch1 ch2 \<Longrightarrow> native_adds A (cs @ ds) ch ch2"
  by (auto simp: native_adds_def)

lemmas native_adds_after = native_adds_trans [where cs = "[]", simplified]

text \<open>Calls other than adding a candidate, and fields that no candidate depends on.\<close>

lemma native_call_adds: "added c = None \<Longrightarrow> native_adds A [] ch (snd (native_call A c ch))"
  by (simp add: native_adds_defs native_call_def map_filter_append List.map_filter_simps only_after_snoc accepted_mono)

lemma native_fields_adds [simp]:
  "native_adds A [] ch (ch\<lparr>nc_rx := q\<rparr>)" "native_adds A [] ch (ch\<lparr>nc_dc := b\<rparr>)" "native_adds A [] ch (ch\<lparr>nc_local_desc := sd\<rparr>)"
  "native_adds A [] ch (ch\<lparr>nc_local_desc_rx := b\<rparr>)" "native_adds A [] ch (ch\<lparr>nc_local_desc_tx := b, nc_local_desc := sd\<rparr>)"
  "native_adds A [] ch (ch\<lparr>nc_pc := True\<rparr>)"
  by (simp_all add: native_adds_defs)

lemma native_emit_adds [simp]: "native_adds A [] ch (native_emit e ch)"
  by (simp add: native_emit_def)

lemma drop_data_channel_adds [simp]: "native_adds A [] ch (drop_data_channel ch)"
  by (simp add: drop_data_channel_def native_adds_defs map_filter_append List.map_filter_simps only_after_snoc accepted_mono)

lemma store_data_channel_adds [simp]: "native_adds A [] ch (store_data_channel ch)"
  unfolding store_data_channel_def by (rule native_adds_after [OF drop_data_channel_adds]) simp

lemma native_callback_adds: "native_adds A [] ch (native_callback cb ch)"
proof (cases cb)
  case (OnConnectionState st)
  then show ?thesis by (cases st) simp_all
next
  case (OnCandidate c)
  then show ?thesis by (cases c) simp
qed (simp_all add: on_description_def)

lemma native_callbacks_adds: "native_adds A [] ch (fold native_callback cbs ch)"
proof (induction cbs arbitrary: ch)
  case (Cons cb cbs)
  show ?case using native_adds_after [OF native_callback_adds Cons.IH] by simp
qed simp

lemma native_ensure_pc_adds: "native_adds A [] ch (snd (native_ensure_pc A servers ch))"
  using native_call_adds [of "NewPeer (native_build_config servers)" A ch]
  by (auto simp: native_ensure_pc_def native_call_def split: sum.splits intro: native_adds_after)

lemma native_ensure_pc_present: "native_ensure_pc A servers ch = (Inr u, ch') \<Longrightarrow> nc_pc ch' \<and> nc_closed ch' = nc_closed ch"
  by (auto simp: native_ensure_pc_def native_call_def split: if_splits sum.splits)

lemma await_description_adds: "native_adds A [] ch (snd (await_description A twice expected kind during ch))"
proof -
  have "native_adds A [] ch (fold native_callback during (ch\<lparr>nc_local_desc_rx := False\<rparr>))"
    by (rule native_adds_after [OF _ native_callbacks_adds]) simp
  then show ?thesis
    by (auto simp: await_description_def Let_def split: option.splits intro: native_adds_after)
qed

lemma drain_fold:
  "fold (\<lambda>cand ch. snd (native_call A (AddCandidate (raw_of cand)) ch)) cs ch
     = ch\<lparr>nc_calls := nc_calls ch @ map (\<lambda>c. AddCandidate (raw_of c)) cs\<rparr>"
  by (induction cs arbitrary: ch) (simp_all add: native_call_def)

lemma added_all: "List.map_filter added (map (\<lambda>c. AddCandidate (raw_of c)) cs) = map raw_of cs"
  by (induction cs) (simp_all add: List.map_filter_simps)

lemma native_set_remote_adds:
  assumes "nc_pc ch"
  shows "native_adds A [] ch (snd (native_set_remote A remote ch))"
proof (cases "to_session_description A remote")
  case (Inr sd)
  show ?thesis
  proof (cases "na_answer A (nc_calls ch @ [SetRemote sd])")
    case (Inl e)
    with Inr show ?thesis
      using native_call_adds [of "SetRemote sd" A ch] by (simp add: native_set_remote_def native_call_def)
  next
    case ok: (Inr u)
    then have acc: "remote_accepted A (nc_calls ch @ [SetRemote sd])" by (simp add: accepted_now)
    let ?calls = "nc_calls ch @ [SetRemote sd] @ map (\<lambda>c. AddCandidate (raw_of c)) (nc_pending_candidates ch)"
    have eq: "snd (native_set_remote A remote ch) = ch\<lparr>nc_calls := ?calls, nc_remote_desc_set := True, nc_pending_candidates := []\<rparr>"
      using Inr ok assms
      by (simp add: native_set_remote_def native_call_def native_drain_pending_def Let_def drain_fold [unfolded native_call_def, simplified])
    have "added_after_remote A ?calls" if "added_after_remote A (nc_calls ch)"
      using that only_after_append [OF _ acc, of "\<lambda>c. added c \<noteq> None"] by (simp add: only_after_snoc)
    then show ?thesis
      using assms accepted_mono [OF acc]
      unfolding eq native_adds_defs by (simp add: map_filter_append List.map_filter_simps added_all)
  qed
qed (simp add: native_set_remote_def)

lemma native_add_candidate_adds:
  "native_adds A (if nc_closed ch then [] else [raw_of c]) ch (snd (native_add_ice_candidate A c ch))"
  by (auto simp: native_add_ice_candidate_def native_call_def native_adds_defs map_filter_append List.map_filter_simps only_after_snoc
      accepted_mono split: sum.splits)

fun native_closes :: "'d NativeOp \<Rightarrow> bool" where
  "native_closes (NClose reason) = True"
| "native_closes _ = False"

fun native_offers :: "'d NativeOp \<Rightarrow> raw_candidate list" where
  "native_offers (NAddCandidate c) = [raw_of c]"
| "native_offers _ = []"

lemma native_create_offer_adds: "native_adds A [] ch (snd (native_create_offer A servers during ch))"
proof (cases "native_ensure_pc A servers ch")
  case (Pair r ch1)
  then have one: "native_adds A [] ch ch1" using native_ensure_pc_adds [of A ch servers] by simp
  show ?thesis
  proof (cases r)
    case (Inr u)
    have two: "native_adds A [] ch (snd (native_call A (NewChannel DATA_CHANNEL_LABEL) ch1))"
      by (rule native_adds_after [OF one native_call_adds]) simp
    then have "native_adds A [] ch (store_data_channel (snd (native_call A (NewChannel DATA_CHANNEL_LABEL) ch1)))"
      by (rule native_adds_after) simp
    from native_adds_after [OF this await_description_adds] two Pair Inr show ?thesis
      by (auto simp: native_create_offer_def native_call_def split: sum.splits)
  qed (use Pair one in \<open>simp add: native_create_offer_def\<close>)
qed

lemma native_accept_offer_adds: "native_adds A [] ch (snd (native_accept_offer A servers remote during ch))"
proof (cases "native_ensure_pc A servers ch")
  case (Pair r ch1)
  then have one: "native_adds A [] ch ch1" using native_ensure_pc_adds [of A ch servers] by simp
  show ?thesis
  proof (cases r)
    case (Inr u)
    with Pair have "nc_pc ch1" using native_ensure_pc_present by blast
    from native_adds_after [OF one native_set_remote_adds [OF this]]
    have two: "native_adds A [] ch (snd (native_set_remote A remote ch1))" .
    from native_adds_after [OF this await_description_adds] two Pair Inr show ?thesis
      by (auto simp: native_accept_offer_def split: prod.splits sum.splits)
  qed (use Pair one in \<open>simp add: native_accept_offer_def\<close>)
qed

lemma native_close_good:
  assumes "native_good A ch"
  shows "native_good A (snd (native_close reason ch)) \<and> nc_closed (snd (native_close reason ch))
     \<and> native_given (snd (native_close reason ch)) @ native_waiting (snd (native_close reason ch)) = native_given ch @ native_waiting ch"
  using assms
  by (auto simp: native_close_def Let_def native_emit_def drop_data_channel_def native_good_def native_given_def native_waiting_def
      map_filter_append List.map_filter_simps only_after_snoc accepted_mono)

lemma native_step_adds:
  "\<not> native_closes op \<Longrightarrow> native_adds A (if nc_closed ch then [] else native_offers op) ch (native_step A op ch)"
  using native_create_offer_adds [of A ch] native_accept_offer_adds [of A ch] native_set_remote_adds [of ch A]
    native_add_candidate_adds [of A ch] native_callback_adds [of A ch] native_call_adds [of "SendFrame frame" A ch for frame]
  by (cases op)
     (auto simp: native_accept_answer_def native_restart_ice_def native_send_def native_recv_def native_call_def split: list.splits sum.splits)

interpretation native: candidate_channel "native_step A" "native_good A" nc_closed native_given native_waiting native_closes native_offers
  for A :: "'d native_api"
proof
  fix s :: "'d NativeWebRtcChannel" and op :: "'d NativeOp"
  assume good: "native_good A s"
  have closing: "\<exists>reason. op = NClose reason" if "native_closes op" using that by (cases op) auto
  show "native_good A (native_step A op s)" "nc_closed (native_step A op s) \<longleftrightarrow> nc_closed s \<or> native_closes op"
    "native_given (native_step A op s) @ native_waiting (native_step A op s)
       = native_given s @ native_waiting s @ (if nc_closed s then [] else native_offers op)"
    using good native_close_good [OF good] native_step_adds [of op A s] closing
    by (cases "native_closes op"; force simp: native_adds_def)+
qed (auto elim: native_closes.elims)

text \<open>
  C38. The candidates of the peer. Whatever the order of calls and callbacks, and whatever the library answers, the candidates given to
  the peer connection followed by those still waiting are exactly those handed to the channel before its close, each once and
  in order, and none is given before the library has accepted a remote description. A channel that has one and
  is open has none waiting.
\<close>

theorem candidates_in_order:
  "native_given (native_run A ops) @ native_waiting (native_run A ops) = offered_until native_closes native_offers ops
   \<and> only_after (\<lambda>c. added c \<noteq> None) sets_remote (na_answer A) (nc_calls (native_run A ops))
   \<and> (nc_remote_desc_set (native_run A ops) \<and> \<not> nc_closed (native_run A ops) \<longrightarrow> native_waiting (native_run A ops) = [])"
proof -
  have new: "native_good A native_new" "\<not> nc_closed (native_new :: 'a NativeWebRtcChannel)"
    "native_given (native_new :: 'a NativeWebRtcChannel) = []" "native_waiting (native_new :: 'a NativeWebRtcChannel) = []"
    by (simp_all add: native_good_def native_new_def only_after_def native_given_def native_waiting_def List.map_filter_simps)
  from native.run_good [OF new(1), of ops] have "native_good A (native_run A ops)" by (simp add: native_run_def)
  then show ?thesis
    using native.run_keeps [OF new(1,2), of ops] new(3,4)
    by (simp add: native_run_def native_good_def native_waiting_def)
qed

definition demo_native :: "nat native_api" where
  "demo_native = \<lparr>na_answer = (\<lambda>_. Okay ()), na_parse_sdp = (\<lambda>_. Okay 1), na_sdp_text = (\<lambda>_. ''v=0'')\<rparr>"

definition demo_candidate :: "str \<Rightarrow> IceCandidate" where
  "demo_candidate c = \<lparr>candidate = c, sdp_mid = None, sdp_mline_index = None\<rparr>"

theorem candidates_in_order_witness:
  "native_given (native_run demo_native [NAddCandidate (demo_candidate ''a''),
       NAcceptOffer [] \<lparr>sdp_kind = Offer, sdp_text = ''v=0''\<rparr> [], NAddCandidate (demo_candidate ''b'')]) = [(''a'', ''''), (''b'', '''')]"
  (is "native_given ?ch = _")
proof -
  have "nc_remote_desc_set ?ch \<and> \<not> nc_closed ?ch"
    by (simp add: native_run_def native_new_def demo_native_def native_add_ice_candidate_def native_accept_offer_def native_ensure_pc_def
        native_call_def native_set_remote_def to_session_description_def native_drain_pending_def await_description_def Let_def)
  then show ?thesis
    using candidates_in_order [of demo_native "[NAddCandidate (demo_candidate ''a''),
       NAcceptOffer [] \<lparr>sdp_kind = Offer, sdp_text = ''v=0''\<rparr> [], NAddCandidate (demo_candidate ''b'')]"]
    by (auto simp: offered_until_def raw_of_def demo_candidate_def)
qed

subsubsection \<open>Candidates in the browser\<close>

fun made :: "'j WasmCall \<Rightarrow> init_candidate option" where
  "made (WMakeCandidate c) = Some c"
| "made _ = None"

definition wasm_given :: "'j WasmWebRtcChannel \<Rightarrow> init_candidate list" where
  "wasm_given ch = List.map_filter made (wc_calls ch)"

definition wasm_waiting :: "'j WasmWebRtcChannel \<Rightarrow> init_candidate list" where
  "wasm_waiting ch = map init_of (wc_pending_candidates ch)"

definition wasm_good :: "'j WasmWebRtcChannel \<Rightarrow> bool" where
  "wasm_good ch \<longleftrightarrow> (wc_remote_desc_set ch \<and> \<not> wc_closed ch \<longrightarrow> wc_pc ch \<and> wc_pending_candidates ch = [])"

definition wasm_adds :: "init_candidate list \<Rightarrow> 'j WasmWebRtcChannel \<Rightarrow> 'j WasmWebRtcChannel \<Rightarrow> bool" where
  "wasm_adds cs ch ch' \<longleftrightarrow>
     (wasm_good ch \<longrightarrow> wasm_good ch' \<and> wc_closed ch' = wc_closed ch \<and> wasm_given ch' @ wasm_waiting ch' = wasm_given ch @ wasm_waiting ch @ cs)"

lemmas wasm_adds_defs = wasm_adds_def wasm_good_def wasm_given_def wasm_waiting_def

lemma wasm_adds_refl [simp]: "wasm_adds [] ch ch"
  by (simp add: wasm_adds_def)

lemma wasm_adds_after: "wasm_adds [] ch ch1 \<Longrightarrow> wasm_adds ds ch1 ch2 \<Longrightarrow> wasm_adds ds ch ch2"
  by (auto simp: wasm_adds_def)

lemma wasm_call_adds: "made c = None \<Longrightarrow> wasm_adds [] ch (ch\<lparr>wc_calls := wc_calls ch @ [c]\<rparr>)"
  by (simp add: wasm_adds_defs map_filter_append List.map_filter_simps)

lemma wasm_fields_adds [simp]:
  "wasm_adds [] ch (ch\<lparr>wc_rx := q\<rparr>)" "wasm_adds [] ch (ch\<lparr>wc_dc := b\<rparr>)" "wasm_adds [] ch (ch\<lparr>wc_pc := True, wc_closures := b\<rparr>)"
  by (simp_all add: wasm_adds_defs)

lemma wasm_emit_adds [simp]: "wasm_adds [] ch (wasm_emit e ch)"
  by (simp add: wasm_emit_def)

lemma wasm_callback_adds: "wasm_adds [] ch (wasm_callback cb ch)"
  by (cases cb) (auto split: option.splits)

lemma wasm_ensure_pc_adds: "wasm_adds [] ch (snd (wasm_ensure_pc A servers ch))"
  using wasm_call_adds [of "WNewPeer (wasm_build_config servers)" ch]
  by (auto simp: wasm_ensure_pc_def wasm_call_def split: sum.splits intro: wasm_adds_after)

lemma wasm_ensure_pc_present: "wasm_ensure_pc A servers ch = (Inr u, ch') \<Longrightarrow> wc_pc ch'"
  by (auto simp: wasm_ensure_pc_def wasm_call_def split: if_splits sum.splits)

lemma wasm_local_description_adds: "made c = None \<Longrightarrow> wasm_adds [] ch (snd (wasm_local_description A c what no_sdp kind ch))"
  using wasm_call_adds [of c ch] wasm_call_adds [of "WSetLocal js" "ch\<lparr>wc_calls := wc_calls ch @ [c]\<rparr>" for js]
  by (auto simp: wasm_local_description_def wasm_create_def wasm_call_def split: sum.splits option.splits intro: wasm_adds_after)

text \<open>Giving one candidate, and all that wait.\<close>

lemma wasm_drain_fold:
  "\<exists>calls. fold (give_candidate A) cs ch = ch\<lparr>wc_calls := wc_calls ch @ calls\<rparr> \<and> List.map_filter made calls = map init_of cs"
proof (induction cs arbitrary: ch)
  case Nil
  show ?case by (rule exI [of _ "[]"]) (simp add: List.map_filter_simps)
next
  case (Cons c cs)
  have "\<exists>one. give_candidate A c ch = ch\<lparr>wc_calls := wc_calls ch @ one\<rparr> \<and> List.map_filter made one = [init_of c]"
    by (cases "wa_answer A (wc_calls ch @ [WMakeCandidate (init_of c)])")
       (auto simp: give_candidate_def wasm_call_def List.map_filter_simps
         intro: exI [of _ "[WMakeCandidate (init_of c)]"] exI [of _ "[WMakeCandidate (init_of c), WAddCandidate (init_of c)]"])
  then obtain one where one: "give_candidate A c ch = ch\<lparr>wc_calls := wc_calls ch @ one\<rparr>" "List.map_filter made one = [init_of c]" by blast
  from Cons.IH [of "give_candidate A c ch"] obtain rest where
    "fold (give_candidate A) cs (give_candidate A c ch) = (give_candidate A c ch)\<lparr>wc_calls := wc_calls (give_candidate A c ch) @ rest\<rparr>" "List.map_filter made rest = map init_of cs"
    by blast
  then show ?case using one by (intro exI [of _ "one @ rest"]) (simp add: map_filter_append)
qed

lemma wasm_set_remote_adds:
  assumes "wc_pc ch"
  shows "wasm_adds [] ch (snd (wasm_set_remote A remote ch))"
proof (cases "wa_answer A (wc_calls ch @ [WSetRemote remote])")
  case (Inl e)
  then show ?thesis using wasm_call_adds [of "WSetRemote remote" ch] by (simp add: wasm_set_remote_def wasm_call_def)
next
  case (Inr u)
  let ?ch = "ch\<lparr>wc_calls := wc_calls ch @ [WSetRemote remote], wc_remote_desc_set := True, wc_pending_candidates := []\<rparr>"
  from wasm_drain_fold [of A "wc_pending_candidates ch" ?ch] obtain calls where
    "snd (wasm_set_remote A remote ch) = ?ch\<lparr>wc_calls := wc_calls ?ch @ calls\<rparr>"
    and "List.map_filter made calls = map init_of (wc_pending_candidates ch)"
    using Inr assms by (cases "wc_pending_candidates ch = []")
      (auto simp: wasm_set_remote_def wasm_call_def wasm_drain_pending_def Let_def)
  then show ?thesis using assms by (simp add: wasm_adds_defs map_filter_append List.map_filter_simps)
qed

lemma wasm_add_candidate_adds: "wasm_adds (if wc_closed ch then [] else [init_of c]) ch (snd (wasm_add_ice_candidate A c ch))"
  by (auto simp: wasm_add_ice_candidate_def wasm_call_def wasm_adds_defs map_filter_append List.map_filter_simps split: sum.splits)

lemma wasm_create_offer_adds: "wasm_adds [] ch (snd (wasm_create_offer A servers ch))"
proof (cases "wasm_ensure_pc A servers ch")
  case (Pair r ch1)
  then have one: "wasm_adds [] ch ch1" using wasm_ensure_pc_adds [of ch A servers] by simp
  let ?ch2 = "(ch1\<lparr>wc_calls := wc_calls ch1 @ [WNewChannel DATA_CHANNEL_LABEL]\<rparr>)\<lparr>wc_dc := True\<rparr>"
  have "wasm_adds [] ch1 ?ch2" by (rule wasm_adds_after [OF wasm_call_adds [of "WNewChannel DATA_CHANNEL_LABEL"]]) simp_all
  from wasm_adds_after [OF wasm_adds_after [OF one this] wasm_local_description_adds] one Pair show ?thesis
    by (cases r) (auto simp: wasm_create_offer_def wasm_call_def)
qed

lemma wasm_accept_offer_adds: "wasm_adds [] ch (snd (wasm_accept_offer A servers remote ch))"
proof (cases "wasm_ensure_pc A servers ch")
  case (Pair r ch1)
  then have one: "wasm_adds [] ch ch1" using wasm_ensure_pc_adds [of ch A servers] by simp
  show ?thesis
  proof (cases r)
    case (Inr u)
    with Pair have "wc_pc ch1" using wasm_ensure_pc_present by blast
    from wasm_adds_after [OF one wasm_set_remote_adds [OF this]]
    have two: "wasm_adds [] ch (snd (wasm_set_remote A remote ch1))" .
    from wasm_adds_after [OF this wasm_local_description_adds] two Pair Inr show ?thesis
      by (auto simp: wasm_accept_offer_def split: prod.splits sum.splits)
  qed (use Pair one in \<open>simp add: wasm_accept_offer_def\<close>)
qed

fun wasm_closes :: "WasmOp \<Rightarrow> bool" where
  "wasm_closes (WopClose reason) = True"
| "wasm_closes _ = False"

fun wasm_offers :: "WasmOp \<Rightarrow> init_candidate list" where
  "wasm_offers (WopAddCandidate c) = [init_of c]"
| "wasm_offers _ = []"

lemma wasm_close_good:
  assumes "wasm_good ch"
  shows "wasm_good (snd (wasm_close reason ch)) \<and> wc_closed (snd (wasm_close reason ch))
     \<and> wasm_given (snd (wasm_close reason ch)) @ wasm_waiting (snd (wasm_close reason ch)) = wasm_given ch @ wasm_waiting ch"
  using assms
  by (auto simp: wasm_close_def Let_def wasm_emit_def wasm_good_def wasm_given_def wasm_waiting_def map_filter_append List.map_filter_simps)

lemma wasm_step_adds: "\<not> wasm_closes op \<Longrightarrow> wasm_adds (if wc_closed ch then [] else wasm_offers op) ch (wasm_step A op ch)"
  using wasm_create_offer_adds [of ch A] wasm_accept_offer_adds [of ch A] wasm_set_remote_adds [of ch A]
    wasm_add_candidate_adds [of ch _ A] wasm_callback_adds [of ch] wasm_call_adds [of "WSendFrame frame" ch for frame]
  by (cases op)
     (auto simp: wasm_accept_answer_def wasm_restart_ice_def wasm_send_def wasm_recv_def wasm_call_def split: list.splits sum.splits)

interpretation wasm: candidate_channel "wasm_step A" wasm_good wc_closed wasm_given wasm_waiting wasm_closes wasm_offers
  for A :: "'j wasm_api"
proof
  fix s :: "'j WasmWebRtcChannel" and op
  assume good: "wasm_good s"
  have closing: "\<exists>reason. op = WopClose reason" if "wasm_closes op" using that by (cases op) auto
  show "wasm_good (wasm_step A op s)" "wc_closed (wasm_step A op s) \<longleftrightarrow> wc_closed s \<or> wasm_closes op"
    "wasm_given (wasm_step A op s) @ wasm_waiting (wasm_step A op s)
       = wasm_given s @ wasm_waiting s @ (if wc_closed s then [] else wasm_offers op)"
    using good wasm_close_good [OF good] wasm_step_adds [of op s A] closing
    by (cases "wasm_closes op"; force simp: wasm_adds_def)+
qed (auto elim: wasm_closes.elims)

text \<open>The browser is given the same candidates in the same order; their line index is cut to 16 bits.\<close>

lemma wasm_candidates_in_order:
  "wasm_given (wasm_run A ops) @ wasm_waiting (wasm_run A ops) = offered_until wasm_closes wasm_offers ops"
  using wasm.run_keeps [of "wasm_new :: 'a WasmWebRtcChannel" A ops]
  by (simp add: wasm_run_def wasm_good_def wasm_new_def wasm_given_def wasm_waiting_def List.map_filter_simps)

subsection \<open>Sending\<close>

text \<open>Only an offer gives a channel of the browser its data channel.\<close>

fun makes_offer :: "WasmOp \<Rightarrow> bool" where
  "makes_offer (WopCreateOffer servers) = True"
| "makes_offer _ = False"

definition no_channel :: "'j WasmWebRtcChannel \<Rightarrow> bool" where
  "no_channel ch \<longleftrightarrow> \<not> wc_dc ch \<and> (\<forall>frame. WSendFrame frame \<notin> set (wc_calls ch))"

lemma no_channel_fields [simp]:
  "no_channel (ch\<lparr>wc_rx := q\<rparr>) \<longleftrightarrow> no_channel ch" "no_channel (ch\<lparr>wc_pending_candidates := cs\<rparr>) \<longleftrightarrow> no_channel ch"
  "no_channel (ch\<lparr>wc_remote_desc_set := b\<rparr>) \<longleftrightarrow> no_channel ch" "no_channel (ch\<lparr>wc_pc := b, wc_closures := b'\<rparr>) \<longleftrightarrow> no_channel ch"
  by (simp_all add: no_channel_def)

lemma no_channel_call [simp]:
  "(\<forall>frame. c \<noteq> WSendFrame frame) \<Longrightarrow> no_channel (ch\<lparr>wc_calls := wc_calls ch @ [c]\<rparr>) \<longleftrightarrow> no_channel ch"
  by (auto simp: no_channel_def)

lemma no_channel_set_remote: "no_channel ch \<Longrightarrow> no_channel (snd (wasm_set_remote A remote ch))"
proof -
  have one: "no_channel (give_candidate A c ch)" if "no_channel ch" for c and ch :: "'a WasmWebRtcChannel"
    using that by (auto simp: give_candidate_def wasm_call_def no_channel_def split: sum.splits)
  have "no_channel (fold (give_candidate A) cs ch)" if "no_channel ch" for cs and ch :: "'a WasmWebRtcChannel"
    using that by (induction cs arbitrary: ch) (simp_all add: one)
  then show "no_channel (snd (wasm_set_remote A remote ch))" if "no_channel ch"
    using that by (auto simp: wasm_set_remote_def wasm_drain_pending_def wasm_call_def Let_def split: sum.splits)
qed

lemma no_channel_ensure_pc: "no_channel ch \<Longrightarrow> no_channel (snd (wasm_ensure_pc A servers ch))"
  by (auto simp: wasm_ensure_pc_def wasm_call_def split: sum.splits)

lemma no_channel_local_description:
  "no_channel ch \<Longrightarrow> (\<forall>frame. c \<noteq> WSendFrame frame) \<Longrightarrow> no_channel (snd (wasm_local_description A c what no_sdp kind ch))"
  by (auto simp: wasm_local_description_def wasm_create_def wasm_call_def no_channel_def split: sum.splits option.splits)

lemma no_channel_accept_offer: "no_channel ch \<Longrightarrow> no_channel (snd (wasm_accept_offer A servers remote ch))"
  using no_channel_ensure_pc [of ch A servers] no_channel_set_remote [of "snd (wasm_ensure_pc A servers ch)" A remote]
    no_channel_local_description [of "snd (wasm_set_remote A remote (snd (wasm_ensure_pc A servers ch)))" WCreateAnswer A]
  by (auto simp: wasm_accept_offer_def split: prod.splits sum.splits)

lemma no_channel_step:
  assumes "no_channel ch" and "\<not> makes_offer op"
  shows "no_channel (wasm_step A op ch)"
proof (cases op)
  case (WopAcceptOffer servers remote)
  then show ?thesis using assms by (simp add: no_channel_accept_offer)
next
  case (WopAcceptAnswer remote)
  then show ?thesis using assms by (simp add: wasm_accept_answer_def no_channel_set_remote)
next
  case (WopCallback cb)
  then show ?thesis using assms by (cases cb) (auto simp: wasm_emit_def split: option.splits)
next
  case (WopClose reason)
  then show ?thesis using assms by (auto simp: wasm_close_def wasm_emit_def no_channel_def Let_def)
qed (use assms in \<open>auto simp: wasm_add_ice_candidate_def wasm_restart_ice_def wasm_send_def wasm_recv_def wasm_call_def
      no_channel_def split: sum.splits list.splits\<close>)

text \<open>
  C39. The answering browser is mute. A channel of the browser that did not make the offer never gets hold of a data channel: whatever
  it accepts and whatever the browser reports, also that the channel is open, every attempt to send
  fails, and no frame ever reaches the browser. The native channel keeps the data channel that is reported
  to it and sends on it.
\<close>

theorem wasm_answerer_mute:
  assumes "\<forall>op \<in> set ops. \<not> makes_offer op"
  shows "fst (wasm_send A frame (wasm_run A ops)) \<in> {Err ChannelIsClosed, Err (Backend ''data channel not yet open'')}
    \<and> (\<forall>frame. WSendFrame frame \<notin> set (wc_calls (wasm_run A ops)))
    \<and> (\<forall>N ch. \<not> nc_closed ch \<and> \<not> isl (na_answer N (nc_calls (native_callback OnDataChannel ch) @ [SendFrame frame])) \<longrightarrow>
         fst (native_send N frame (native_callback OnDataChannel ch)) = Okay ())"
proof -
  have "no_channel (fold (wasm_step A) ops ch)" if "no_channel ch" for ch
    using that assms by (induction ops arbitrary: ch) (simp_all add: no_channel_step)
  then have "no_channel (wasm_run A ops)" by (simp add: wasm_run_def wasm_new_def no_channel_def)
  then show ?thesis
    by (auto simp: no_channel_def wasm_send_def native_send_def native_call_def store_data_channel_def drop_data_channel_def
        split: sum.splits)
qed

definition demo_wasm :: "nat wasm_api" where
  "demo_wasm = \<lparr>wa_answer = (\<lambda>_. Okay ()), wa_created = (\<lambda>_. Okay 1), wa_sdp = (\<lambda>_. Some ''v=0'')\<rparr>"

theorem wasm_answerer_mute_witness:
  "fst (wasm_send demo_wasm [1] (wasm_run demo_wasm
      [WopAcceptOffer [] \<lparr>sdp_kind = Offer, sdp_text = ''v=0''\<rparr>, WopCallback OnRemoteDataChannel, WopCallback OnDcOpen]))
    = Err (Backend ''data channel not yet open'')"
proof -
  let ?ops = "[WopAcceptOffer [] \<lparr>sdp_kind = Offer, sdp_text = ''v=0''\<rparr>, WopCallback OnRemoteDataChannel, WopCallback OnDcOpen]"
  have "fst (wasm_send demo_wasm [1] (wasm_run demo_wasm ?ops)) \<in> {Err ChannelIsClosed, Err (Backend ''data channel not yet open'')}"
    by (rule conjunct1 [OF wasm_answerer_mute]) simp
  moreover have "fst (wasm_send demo_wasm [1] (wasm_run demo_wasm ?ops)) \<noteq> Err ChannelIsClosed"
    by (simp add: wasm_send_def wasm_run_def wasm_new_def demo_wasm_def wasm_accept_offer_def wasm_ensure_pc_def wasm_call_def wasm_set_remote_def
        wasm_drain_pending_def wasm_local_description_def wasm_create_def wasm_emit_def Let_def)
  ultimately show ?thesis by simp
qed

subsection \<open>Events\<close>

text \<open>The queue keeps its depth and holds no frame above the limit, whatever is reported.\<close>

definition queue_ok :: "ChannelEvent list \<Rightarrow> bool" where
  "queue_ok q \<longleftrightarrow> length q \<le> EVENT_QUEUE_DEPTH \<and> (\<forall>frame. ChMessage frame \<in> set q \<longrightarrow> length frame \<le> MAX_INBOUND_FRAME_SIZE)"

lemma queue_ok_send: "queue_ok q \<Longrightarrow> (\<forall>frame. e = ChMessage frame \<longrightarrow> length frame \<le> MAX_INBOUND_FRAME_SIZE) \<Longrightarrow> queue_ok (try_send_event e q)"
  by (auto simp: queue_ok_def try_send_event_def)

lemma message_event_ok: "message_event bs = ChMessage frame \<Longrightarrow> length frame \<le> MAX_INBOUND_FRAME_SIZE"
  by (auto simp: message_event_def split: if_splits)

lemma native_callback_queue: "queue_ok (nc_rx ch) \<Longrightarrow> queue_ok (nc_rx (native_callback cb ch))"
proof (cases cb)
  case (OnConnectionState st)
  then show "queue_ok (nc_rx ch) \<Longrightarrow> queue_ok (nc_rx (native_callback cb ch))"
    by (cases st) (simp_all add: native_emit_def queue_ok_send)
next
  case (OnCandidate c)
  then show "queue_ok (nc_rx ch) \<Longrightarrow> queue_ok (nc_rx (native_callback cb ch))"
    by (cases c) (simp add: native_emit_def queue_ok_send)
qed (auto simp: native_emit_def queue_ok_send message_event_ok on_description_def store_data_channel_def drop_data_channel_def)

lemma native_callbacks_queue: "queue_ok (nc_rx ch) \<Longrightarrow> queue_ok (nc_rx (fold native_callback cbs ch))"
  by (induction cbs arbitrary: ch) (simp_all add: native_callback_queue)

lemma native_rx_calls:
  "nc_rx (snd (native_ensure_pc A servers ch)) = nc_rx ch" "nc_rx (snd (native_set_remote A remote ch)) = nc_rx ch"
  "nc_rx (store_data_channel ch) = nc_rx ch"
  by (auto simp: native_ensure_pc_def native_call_def native_set_remote_def native_drain_pending_def Let_def
      drain_fold [unfolded native_call_def, simplified] store_data_channel_def drop_data_channel_def split: sum.splits)

lemma await_description_queue: "queue_ok (nc_rx ch) \<Longrightarrow> queue_ok (nc_rx (snd (await_description A twice expected kind during ch)))"
  using native_callbacks_queue [of "ch\<lparr>nc_local_desc_rx := False\<rparr>" during]
  by (auto simp: await_description_def Let_def split: option.splits)

lemma native_step_queue:
  assumes "queue_ok (nc_rx ch)"
  shows "queue_ok (nc_rx (native_step A op ch))"
proof (cases op)
  case (NCreateOffer servers during)
  then show ?thesis using assms native_rx_calls(1) [of A servers ch]
    by (auto simp: native_create_offer_def native_call_def native_rx_calls(3) split: prod.splits sum.splits intro!: await_description_queue)
next
  case (NAcceptOffer servers remote during)
  then show ?thesis using assms native_rx_calls(1) [of A servers ch] native_rx_calls(2) [of A remote]
    by (auto simp: native_accept_offer_def split: prod.splits sum.splits intro!: await_description_queue) (metis snd_conv)+
next
  case (NClose reason)
  then show ?thesis using assms
    by (auto simp: native_close_def native_emit_def drop_data_channel_def Let_def intro!: queue_ok_send)
next
  case NRecv
  then show ?thesis using assms by (auto simp: native_recv_def queue_ok_def split: list.splits)
qed (use assms in \<open>auto simp: native_accept_answer_def native_rx_calls native_add_ice_candidate_def native_restart_ice_def native_send_def native_call_def
      native_callback_queue split: sum.splits\<close>)

lemma native_queue_bounded: "queue_ok (nc_rx (native_run A ops))"
proof -
  have "queue_ok (nc_rx (fold (native_step A) ops ch))" if "queue_ok (nc_rx ch)" for ch
    using that by (induction ops arbitrary: ch) (simp_all add: native_step_queue)
  moreover have "queue_ok (nc_rx (native_new :: 'a NativeWebRtcChannel))" by (simp add: native_new_def queue_ok_def)
  ultimately show ?thesis by (simp add: native_run_def)
qed

text \<open>
  A full queue drops what comes next, also the end of the channel: its consumer is not told that the channel closed or failed. The
  module comment leaves it to the consumer to notice the overflow, but nothing marks it.
\<close>

lemma full_queue_loses_close:
  "length (nc_rx ch) = EVENT_QUEUE_DEPTH \<Longrightarrow>
     native_callback OnClosed ch = ch \<and> native_callback (OnConnectionState CsFailed) ch = ch \<and> nc_rx (snd (native_close reason ch)) = nc_rx ch"
  by (simp add: native_emit_def try_send_event_def native_close_def Let_def drop_data_channel_def)

text \<open>With room in the queue the events arrive, one for each callback and in order.\<close>

lemma messages_in_order:
  assumes "length (nc_rx ch) + length msgs \<le> EVENT_QUEUE_DEPTH"
  shows "nc_rx (fold native_callback (map OnMessage msgs) ch) = nc_rx ch @ map message_event msgs"
  using assms by (induction msgs arbitrary: ch) (simp_all add: native_emit_def try_send_event_def)

text \<open>
  A second \<open>create_offer\<close> is refused only after it has put a new data channel in the place of the first, which is
  dropped and so closed.
\<close>

lemma second_offer_drops_channel:
  assumes "\<not> nc_closed ch" "nc_pc ch" "nc_dc ch" "\<not> nc_local_desc_rx ch" "na_answer A (nc_calls ch @ [NewChannel DATA_CHANNEL_LABEL]) = Okay ()"
  shows "fst (native_create_offer A servers during ch) = Some (Err (Backend ''create_offer called twice''))
    \<and> last (nc_calls (snd (native_create_offer A servers during ch))) = DropChannel"
  using assms
  by (simp add: native_create_offer_def native_ensure_pc_def native_call_def await_description_def store_data_channel_def drop_data_channel_def)

text \<open>
  The credentials of a TURN server go into its URL as they are, so different ones give the same URL; and a
  user name in the usual form of an expiry time, a colon and a Matrix identifier adds colons and an at sign of its own.
\<close>

lemma turn_url_ambiguous:
  "ice_url \<lparr>urls = us, ice_username = Some ''1'', ice_credential = Some ''2:3''\<rparr> ''turn:t:3478''
     = ice_url \<lparr>urls = us, ice_username = Some ''1:2'', ice_credential = Some ''3''\<rparr> ''turn:t:3478''
   \<and> ice_url \<lparr>urls = us, ice_username = Some ''17:@a:x'', ice_credential = Some ''p''\<rparr> ''turn:t:3478'' = Some ''turn:17:@a:x:p@t:3478''"
  by (simp add: ice_url_def starts_with_def)

subsection \<open>The driver on a channel\<close>

text \<open>Neither backend restarts ICE, so in an open call new TURN servers always end the call.\<close>

locale no_ice_restart =
  fixes env :: "'ch driver_env"
  assumes unsupported: "fst (driver_env.restart_ice env ch servers) = Err RestartIceUnsupported"
begin

lemma refresh_ends_call:
  assumes "is_open (state d)" and "channel d = Some ch"
  shows "state (handle_configure_ice_servers env servers d) = Idle \<and> erased (handle_configure_ice_servers env servers d)"
  using assms unsupported [of ch servers]
  by (auto simp: handle_configure_ice_servers_def teardown_for_turn_refresh_def tear_down_def erased_def Let_def emit_telemetry_def effect_def
      update_snapshot_def split: prod.splits)

end

definition native_env :: "'d native_api \<Rightarrow> (EncryptedFrame \<Rightarrow> (str, bytes) result) \<Rightarrow> crypto_lib \<Rightarrow> (nat \<Rightarrow> bytes) \<Rightarrow> 'd NativeWebRtcChannel driver_env" where
  "native_env A to_vec L nonces =
     \<lparr>restart_ice = (\<lambda>ch servers. native_restart_ice servers ch), channel_send = (\<lambda>ch frame. fst (native_send A frame ch)),
      frame_to_vec = to_vec, lib = L, ivs = nonces\<rparr>"

definition wasm_env :: "'j wasm_api \<Rightarrow> (EncryptedFrame \<Rightarrow> (str, bytes) result) \<Rightarrow> crypto_lib \<Rightarrow> (nat \<Rightarrow> bytes) \<Rightarrow> 'j WasmWebRtcChannel driver_env" where
  "wasm_env A to_vec L nonces =
     \<lparr>restart_ice = (\<lambda>ch servers. wasm_restart_ice servers ch), channel_send = (\<lambda>ch frame. fst (wasm_send A frame ch)),
      frame_to_vec = to_vec, lib = L, ivs = nonces\<rparr>"

interpretation native_driver: no_ice_restart "native_env A to_vec L nonces" for A :: "'d native_api" and to_vec L nonces
  by unfold_locales (simp add: native_env_def native_restart_ice_def)

interpretation wasm_driver: no_ice_restart "wasm_env A to_vec L nonces" for A :: "'j wasm_api" and to_vec L nonces
  by unfold_locales (simp add: wasm_env_def wasm_restart_ice_def)

end
