(* ===== verification/Web_Client.thy ===== *)
theory Web_Client
  imports Matrix_Client State_Room P2P_Crypto
begin

section \<open>The client of the browser\<close>

text \<open>
  \<open>crates/mxdx-core-wasm/src/lib.rs\<close>: the Matrix client that web pages and the npm packages use. It repeats parts of the native
  client on its own: sessions in a store of the browser, rooms of launchers, reading events, the state room of a worker,
  session tasks, the frame cipher and TURN credentials. The SDK, the browser and HTTP are parameters; a result that the
  code prints as JSON is the value it prints, an error is its text.
\<close>

subsection \<open>Sessions\<close>

definition web_store_name :: "str \<Rightarrow> str \<Rightarrow> str" where
  "web_store_name user server = ''mxdx_'' @ user @ ''_'' @ map (\<lambda>c. if c \<in> set '':/.'' then CHR ''_'' else c) server"

record web_session =
  ws_user_id :: str
  ws_device_id :: str
  ws_access_token :: str

record ('s, 'v, 'c) login_api =
  wl_delete_database :: "str \<Rightarrow> 's \<Rightarrow> 's"
  wl_build :: "server_target \<Rightarrow> str \<Rightarrow> 's \<Rightarrow> (str, 'c) result \<times> 's"
  wl_register :: "str \<Rightarrow> str \<Rightarrow> str \<Rightarrow> str \<Rightarrow> 's \<Rightarrow> (str, bool \<times> str option) result \<times> 's"
  wl_login :: "'c \<Rightarrow> str \<Rightarrow> str \<Rightarrow> str \<Rightarrow> 's \<Rightarrow> (str, unit) result \<times> 's"
  wl_restore :: "'c \<Rightarrow> web_session \<Rightarrow> 's \<Rightarrow> (str, unit) result \<times> 's"
  wl_sync :: "'c \<Rightarrow> 's \<Rightarrow> (str, unit) result \<times> 's"
  wl_session :: "'c \<Rightarrow> 's \<Rightarrow> web_session option"
  wl_homeserver :: "'c \<Rightarrow> 's \<Rightarrow> str"
  wl_parse_user :: "str \<Rightarrow> (str, unit) result"
  wl_values :: "'v value_api"
  wl_object :: "(str \<times> str) list \<Rightarrow> 'v"
  wl_print :: "'v \<Rightarrow> str"
  wl_parse :: "str \<Rightarrow> (str, 'v) result"

record 'c WasmMatrixClient =
  wm_client :: 'c
  wm_store_name :: str

text \<open>The databases of a store; what became of each deletion is only logged.\<close>

definition delete_indexeddb_store :: "('s, 'v, 'c) login_api \<Rightarrow> str \<Rightarrow> 's \<Rightarrow> 's" where
  "delete_indexeddb_store B name =
     fold (\<lambda>suffix. wl_delete_database B (name @ suffix)) ['''', ''::matrix-sdk-crypto'', ''::matrix-sdk-state'']"

definition web_first_sync :: "('s, 'v, 'c) login_api \<Rightarrow> str \<Rightarrow> 'c \<Rightarrow> 's \<Rightarrow> (str, 'c WasmMatrixClient) result \<times> 's" where
  "web_first_sync B store client =
     attempt (wl_sync B client) (\<lambda>_ s. (Okay \<lparr>wm_client = client, wm_store_name = store\<rparr>, s))"

definition web_login_user :: "('s, 'v, 'c) login_api \<Rightarrow> str \<Rightarrow> str \<Rightarrow> str \<Rightarrow> 'c \<Rightarrow> 's \<Rightarrow> (str, 'c WasmMatrixClient) result \<times> 's" where
  "web_login_user B store username password client =
     attempt (wl_login B client username password ''mxdx'') (\<lambda>_. web_first_sync B store client)"

definition web_register ::
  "('s, 'v, 'c) login_api \<Rightarrow> str \<Rightarrow> str \<Rightarrow> str \<Rightarrow> str \<Rightarrow> 's \<Rightarrow> (str, 'c WasmMatrixClient) result \<times> 's" where
  "web_register B homeserver_url username password token =
     (let store = web_store_name username homeserver_url
      in attempt (wl_build B (HomeserverUrl homeserver_url) store) (\<lambda>client.
         attempt (map_err (\<lambda>e. ''Registration request failed: '' @ e)
           (wl_register B (homeserver_url @ ''/_matrix/client/v3/register'') username password token)) (\<lambda>(success, body) s.
             if \<not> success
             then (Err (''Registration failed: '' @ (case body of Some b \<Rightarrow> b | None \<Rightarrow> ''unknown error'')), s)
             else web_login_user B store username password client s)))"

definition web_login :: "('s, 'v, 'c) login_api \<Rightarrow> str \<Rightarrow> str \<Rightarrow> str \<Rightarrow> 's \<Rightarrow> (str, 'c WasmMatrixClient) result \<times> 's" where
  "web_login B server_name username password s =
     (let store = web_store_name username server_name
      in attempt (wl_build B (server_of server_name) store) (web_login_user B store username password)
           (delete_indexeddb_store B store s))"

definition web_export_session :: "('s, 'v, 'c) login_api \<Rightarrow> 'c WasmMatrixClient \<Rightarrow> 's \<Rightarrow> (str, str) result" where
  "web_export_session B c s =
     (case wl_session B (wm_client c) s of
        None \<Rightarrow> Err ''No active session to export''
      | Some session \<Rightarrow>
          Okay (wl_print B (wl_object B
            [(''user_id'', ws_user_id session), (''device_id'', ws_device_id session), (''access_token'', ws_access_token session),
             (''homeserver_url'', wl_homeserver B (wm_client c) s), (''store_name'', wm_store_name c)])))"

definition web_field :: "('s, 'v, 'c) login_api \<Rightarrow> 'v \<Rightarrow> str \<Rightarrow> 's \<Rightarrow> (str, str) result \<times> 's" where
  "web_field B v k s =
     (case str_field (wl_values B) v k of Some x \<Rightarrow> (Okay x, s) | None \<Rightarrow> (Err (''Missing '' @ k @ '' in session data''), s))"

definition web_restore_session :: "('s, 'v, 'c) login_api \<Rightarrow> str \<Rightarrow> 's \<Rightarrow> (str, 'c WasmMatrixClient) result \<times> 's" where
  "web_restore_session B session_json =
     attempt (\<lambda>s. (wl_parse B session_json, s)) (\<lambda>parsed.
     attempt (web_field B parsed ''homeserver_url'') (\<lambda>homeserver_url.
     attempt (web_field B parsed ''user_id'') (\<lambda>user_id.
     attempt (web_field B parsed ''device_id'') (\<lambda>device_id.
     attempt (web_field B parsed ''access_token'') (\<lambda>access_token.
       let store = (case str_field (wl_values B) parsed ''store_name'' of
                      Some n \<Rightarrow> n
                    | None \<Rightarrow> web_store_name user_id homeserver_url)
       in attempt (wl_build B (HomeserverUrl homeserver_url) store) (\<lambda>client.
          attempt (\<lambda>s. (wl_parse_user B user_id, s)) (\<lambda>_.
          attempt (wl_restore B client \<lparr>ws_user_id = user_id, ws_device_id = device_id, ws_access_token = access_token\<rparr>) (\<lambda>_.
            web_first_sync B store client))))))))"

subsection \<open>Rooms and events\<close>

datatype RoomPreset = TrustedPrivateChat | PrivateChat | PublicChat

record web_request =
  wq_name :: "str option"
  wq_alias :: "str option"
  wq_topic :: "str option"
  wq_encryption :: bool
  wq_encrypted_state :: bool
  wq_joined_history :: bool
  wq_invite :: "str list"
  wq_direct :: bool
  wq_preset :: "RoomPreset option"
  wq_creation :: "creation_content option"

definition web_request_new :: web_request where
  "web_request_new =
     \<lparr>wq_name = None, wq_alias = None, wq_topic = None, wq_encryption = False, wq_encrypted_state = False, wq_joined_history = False,
      wq_invite = [], wq_direct = False, wq_preset = None, wq_creation = None\<rparr>"

record 'v web_reply =
  wr_status :: nat
  wr_text :: "(str, str) result"
  wr_json :: "(str, 'v) result"

record RoomConfig =
  rcf_invite :: "str list"
  rcf_topic :: "str option"
  rcf_preset :: "str option"
  rcf_is_direct :: bool

record ('s, 'v) web_api =
  wb_sdk :: "('s, 'v) matrix_sdk"
  wb_server_name :: "'s \<Rightarrow> str option"
  wb_access_token :: "'s \<Rightarrow> str option"
  wb_parse :: "str \<Rightarrow> (str, 'v) result"
  wb_object :: "(str \<times> str) list \<Rightarrow> (str \<times> nat) list \<Rightarrow> 'v"
  wb_room_config :: "str \<Rightarrow> (str, RoomConfig) result"
  wb_valid_user :: "str \<Rightarrow> (str, unit) result"
  wb_create :: "web_request \<Rightarrow> 's \<Rightarrow> (str, str) result \<times> 's"
  wb_create_event :: "str \<Rightarrow> 's \<Rightarrow> (str, str option) result"
  wb_messages :: "str \<Rightarrow> 's \<Rightarrow> (str, str list) result \<times> 's"
  wb_send :: "str \<Rightarrow> str \<Rightarrow> 'v \<Rightarrow> 's \<Rightarrow> (str, unit) result \<times> 's"
  wb_encode_uri :: "str \<Rightarrow> str"
  wb_get :: "str \<Rightarrow> str option \<Rightarrow> 's \<Rightarrow> (str, 'v web_reply) result"

abbreviation wb_values :: "('s, 'v) web_api \<Rightarrow> 'v value_api" where
  "wb_values W \<equiv> sdk_values (wb_sdk W)"

abbreviation wb_str :: "('s, 'v) web_api \<Rightarrow> 'v \<Rightarrow> str \<Rightarrow> str option" where
  "wb_str W \<equiv> str_field (wb_values W)"

definition web_success :: "'v web_reply \<Rightarrow> bool" where
  "web_success r \<longleftrightarrow> 200 \<le> wr_status r \<and> wr_status r < 300"

definition web_valid_room :: "('s, 'v) web_api \<Rightarrow> str \<Rightarrow> 's \<Rightarrow> (str, unit) result \<times> 's" where
  "web_valid_room W room s = (sdk_valid_room (wb_sdk W) room, s)"

definition web_room :: "('s, 'v) web_api \<Rightarrow> str \<Rightarrow> 's \<Rightarrow> (str, unit) result \<times> 's" where
  "web_room W room =
     attempt (web_valid_room W room) (\<lambda>_ s. if sdk_get_room (wb_sdk W) room s then (Okay (), s) else (Err (''Room not found: '' @ room), s))"

definition web_send_event :: "('s, 'v) web_api \<Rightarrow> str \<Rightarrow> str \<Rightarrow> str \<Rightarrow> 's \<Rightarrow> (str, unit) result \<times> 's" where
  "web_send_event W room event_type content_json =
     attempt (web_room W room) (\<lambda>_. attempt (\<lambda>s. (wb_parse W content_json, s)) (\<lambda>content. wb_send W room event_type content))"

definition web_send_state_event :: "('s, 'v) web_api \<Rightarrow> str \<Rightarrow> str \<Rightarrow> str \<Rightarrow> str \<Rightarrow> 's \<Rightarrow> (str, unit) result \<times> 's" where
  "web_send_state_event W room event_type state_key content_json =
     attempt (web_room W room) (\<lambda>_.
     attempt (\<lambda>s. (wb_parse W content_json, s)) (\<lambda>content. sdk_send_state (wb_sdk W) room event_type state_key content))"

definition web_encrypted_mxdx_room :: "('s, 'v) web_api \<Rightarrow> str \<Rightarrow> str \<Rightarrow> str \<Rightarrow> str \<Rightarrow> 's \<Rightarrow> (str, str) result \<times> 's" where
  "web_encrypted_mxdx_room W name topic launcher_id role =
     wb_create W (web_request_new\<lparr>wq_name := Some name, wq_topic := Some topic, wq_encryption := True, wq_encrypted_state := True,
       wq_creation := Some \<lparr>cc_space = False, cc_launcher_id = launcher_id, cc_role = role\<rparr>\<rparr>)"

definition web_link_child :: "('s, 'v) web_api \<Rightarrow> str \<Rightarrow> 'v \<Rightarrow> str \<Rightarrow> 's \<Rightarrow> (str, unit) result \<times> 's" where
  "web_link_child W space via child s =
     (if \<not> sdk_get_room (wb_sdk W) space s then (Err ''Space room not found'', s)
      else sdk_send_state (wb_sdk W) space ''m.space.child'' child via s)"

definition web_create_launcher_space :: "('s, 'v) web_api \<Rightarrow> str \<Rightarrow> 's \<Rightarrow> (str, LauncherTopology) result \<times> 's" where
  "web_create_launcher_space W launcher_id s =
     (case wb_server_name W s of
        None \<Rightarrow> (Err ''Not logged in'', s)
      | Some server \<Rightarrow>
          attempt (wb_create W (web_request_new\<lparr>wq_name := Some (''mxdx: '' @ launcher_id),
            wq_topic := Some (''org.mxdx.launcher.space:'' @ launcher_id),
            wq_creation := Some \<lparr>cc_space = True, cc_launcher_id = launcher_id, cc_role = ''space''\<rparr>\<rparr>)) (\<lambda>space.
          attempt (web_encrypted_mxdx_room W (''mxdx: '' @ launcher_id @ DASH @ ''exec'') (''org.mxdx.launcher.exec:'' @ launcher_id)
            launcher_id ''exec'') (\<lambda>exec.
          attempt (web_encrypted_mxdx_room W (''mxdx: '' @ launcher_id @ DASH @ ''logs'') (''org.mxdx.launcher.logs:'' @ launcher_id)
            launcher_id ''logs'') (\<lambda>logs.
          attempt (web_link_child W space (sdk_via (wb_sdk W) server) exec) (\<lambda>_.
          attempt (web_link_child W space (sdk_via (wb_sdk W) server) logs) (\<lambda>_ s.
            (Okay \<lparr>lt_space_id = space, lt_exec_room_id = exec, lt_logs_room_id = logs\<rparr>, s)))))) s)"

text \<open>Launcher and role of a joined room, from its creation event.\<close>

definition web_room_marks :: "('s, 'v) web_api \<Rightarrow> 's \<Rightarrow> str \<Rightarrow> (str \<times> str option) option" where
  "web_room_marks W s room =
     (case wb_create_event W room s of
        Inr (Some raw) \<Rightarrow>
          (case wb_parse W raw of
             Inl _ \<Rightarrow> None
           | Inr v \<Rightarrow>
               (let content = (case value_get (wb_values W) v ''content'' of Some c \<Rightarrow> c | None \<Rightarrow> v)
                in map_option (\<lambda>l. (l, wb_str W content ''org.mxdx.role'')) (wb_str W content ''org.mxdx.launcher_id'')))
      | _ \<Rightarrow> None)"

definition web_note_room :: "('s, 'v) web_api \<Rightarrow> str \<Rightarrow> 's \<Rightarrow> str \<Rightarrow> found_rooms \<Rightarrow> found_rooms" where
  "web_note_room W launcher_id s rid found =
     (case found of
        (space, exec, logs) \<Rightarrow>
          (case web_room_marks W s rid of
             Some (l, role) \<Rightarrow>
               if l \<noteq> launcher_id then found
               else if role = Some ''space'' \<and> space = None then (Some rid, exec, logs)
               else if role = Some ''exec'' \<and> exec = None then (space, Some rid, logs)
               else if role = Some ''logs'' \<and> logs = None then (space, exec, Some rid)
               else found
           | None \<Rightarrow> found))"

definition web_topology :: "found_rooms \<Rightarrow> LauncherTopology option" where
  "web_topology found =
     (case found of
        (space, Some e, logs) \<Rightarrow>
          Some \<lparr>lt_space_id = (case space of Some r \<Rightarrow> r | None \<Rightarrow> e), lt_exec_room_id = e, lt_logs_room_id = (case logs of Some r \<Rightarrow> r | None \<Rightarrow> e)\<rparr>
      | (_, None, _) \<Rightarrow> None)"

definition web_find_launcher_space :: "('s, 'v) web_api \<Rightarrow> str \<Rightarrow> 's \<Rightarrow> (str, LauncherTopology option) result \<times> 's" where
  "web_find_launcher_space W launcher_id =
     attempt (sdk_sync (wb_sdk W)) (\<lambda>_ s.
       (Okay (web_topology (fold (web_note_room W launcher_id s) (map fst (sdk_joined (wb_sdk W) s)) (None, None, None))), s))"

definition web_get_or_create_launcher_space :: "('s, 'v) web_api \<Rightarrow> str \<Rightarrow> 's \<Rightarrow> (str, LauncherTopology) result \<times> 's" where
  "web_get_or_create_launcher_space W launcher_id =
     attempt (web_find_launcher_space W launcher_id) (\<lambda>existing s.
       case existing of Some t \<Rightarrow> (Okay t, s) | None \<Rightarrow> web_create_launcher_space W launcher_id s)"

text \<open>All launchers: the spaces in order, and for each launcher the last exec and logs room that names it.\<close>

type_synonym listed_rooms = "(str \<times> str) list \<times> (str \<rightharpoonup> str) \<times> (str \<rightharpoonup> str)"

definition web_list_room :: "('s, 'v) web_api \<Rightarrow> 's \<Rightarrow> str \<Rightarrow> listed_rooms \<Rightarrow> listed_rooms" where
  "web_list_room W s rid acc =
     (case acc of
        (spaces, exec, logs) \<Rightarrow>
          (case web_room_marks W s rid of
             Some (l, role) \<Rightarrow>
               if role = Some ''space'' then (spaces @ [(l, rid)], exec, logs)
               else if role = Some ''exec'' then (spaces, exec(l \<mapsto> rid), logs)
               else if role = Some ''logs'' then (spaces, exec, logs(l \<mapsto> rid))
               else acc
           | None \<Rightarrow> acc))"

definition web_list_launcher_spaces :: "('s, 'v) web_api \<Rightarrow> 's \<Rightarrow> (str \<times> LauncherTopology) list" where
  "web_list_launcher_spaces W s =
     (case fold (web_list_room W s) (map fst (sdk_joined (wb_sdk W) s)) ([], Map.empty, Map.empty) of
        (spaces, exec, logs) \<Rightarrow>
          List.map_filter (\<lambda>(l, space).
            case (exec l, logs l) of
              (Some e, Some g) \<Rightarrow> Some (l, \<lparr>lt_space_id = space, lt_exec_room_id = e, lt_logs_room_id = g\<rparr>)
            | _ \<Rightarrow> None) spaces)"

definition web_dm_request :: "str \<Rightarrow> web_request" where
  "web_dm_request user = web_request_new\<lparr>wq_encryption := True, wq_joined_history := True, wq_invite := [user], wq_direct := True\<rparr>"

definition web_create_dm_room :: "('s, 'v) web_api \<Rightarrow> str \<Rightarrow> 's \<Rightarrow> (str, str) result \<times> 's" where
  "web_create_dm_room W user_id =
     attempt (map_err (\<lambda>e. ''Invalid user ID '' @ [CHR 0x27] @ user_id @ [CHR 0x27] @ '': '' @ e) (\<lambda>s. (wb_valid_user W user_id, s)))
       (\<lambda>_. wb_create W (web_dm_request user_id))"

definition preset_of :: "str \<Rightarrow> RoomPreset option" where
  "preset_of p =
     (if p = ''trusted_private_chat'' then Some TrustedPrivateChat
      else if p = ''private_chat'' then Some PrivateChat
      else if p = ''public_chat'' then Some PublicChat
      else None)"

definition web_create_room :: "('s, 'v) web_api \<Rightarrow> str \<Rightarrow> 's \<Rightarrow> (str, str) result \<times> 's" where
  "web_create_room W config_json =
     attempt (map_err (\<lambda>e. ''Invalid room config: '' @ e) (\<lambda>s. (wb_room_config W config_json, s))) (\<lambda>config.
       wb_create W (web_request_new\<lparr>wq_encryption := True, wq_joined_history := True, wq_topic := rcf_topic config,
         wq_direct := rcf_is_direct config, wq_invite := filter (\<lambda>u. \<not> isl (wb_valid_user W u)) (rcf_invite config),
         wq_preset := Option.bind (rcf_preset config) preset_of\<rparr>))"

subsubsection \<open>Reading\<close>

text \<open>The events of one page of messages, newest first; what does not parse is skipped.\<close>

definition web_page :: "('s, 'v) web_api \<Rightarrow> str list \<Rightarrow> 'v list" where
  "web_page W chunk = List.map_filter (\<lambda>raw. case wb_parse W raw of Inr v \<Rightarrow> Some v | Inl _ \<Rightarrow> None) chunk"

definition shown_event :: "('s, 'v) web_api \<Rightarrow> 'v \<Rightarrow> bool" where
  "shown_event W e \<longleftrightarrow>
     wb_str W e ''type'' \<notin> {Some ''m.room.encrypted'', Some ''m.room.encryption'', Some ''m.room.member''}"

definition web_read_room_events :: "('s, 'v) web_api \<Rightarrow> str \<Rightarrow> 's \<Rightarrow> (str, 'v list) result \<times> 's" where
  "web_read_room_events W room =
     attempt (web_valid_room W room) (\<lambda>_ s.
       if sdk_get_room (wb_sdk W) room s
       then attempt (wb_messages W room) (\<lambda>chunk s. (Okay (filter (shown_event W) (web_page W chunk)), s)) s
       else (Okay [], s))"

text \<open>The clock is a parameter, read once per round, and the fuel bounds the rounds.\<close>

fun web_collect_loop :: "('s, 'v) web_api \<Rightarrow> str \<Rightarrow> (nat \<Rightarrow> instant) \<Rightarrow> instant \<Rightarrow> nat \<Rightarrow> nat \<Rightarrow> 's \<Rightarrow> ((str, 'v list) result \<times> 's) option" where
  "web_collect_loop W room clk deadline 0 i s = None"
| "web_collect_loop W room clk deadline (Suc fuel) i s =
     (if clk i < deadline then
        (case sdk_sync (wb_sdk W) s of
           (Inl e, s) \<Rightarrow> Some (Err e, s)
         | (Inr _, s) \<Rightarrow>
             if sdk_get_room (wb_sdk W) room s then
               (case wb_messages W room s of
                  (Inl e, s) \<Rightarrow> Some (Err e, s)
                | (Inr chunk, s) \<Rightarrow>
                    (let collected = filter (shown_event W) (web_page W chunk)
                     in if collected \<noteq> [] then Some (Okay collected, s) else web_collect_loop W room clk deadline fuel (Suc i) s))
             else web_collect_loop W room clk deadline fuel (Suc i) s)
      else Some (Okay [], s))"

definition web_collect_room_events ::
  "('s, 'v) web_api \<Rightarrow> str \<Rightarrow> (nat \<Rightarrow> instant) \<Rightarrow> u32 \<Rightarrow> nat \<Rightarrow> 's \<Rightarrow> ((str, 'v list) result \<times> 's) option" where
  "web_collect_room_events W room clk timeout_secs fuel s =
     (case sdk_valid_room (wb_sdk W) room of
        Inl e \<Rightarrow> Some (Err e, s)
      | Inr _ \<Rightarrow> web_collect_loop W room clk (clk 0 + from_secs (unat timeout_secs)) fuel 1 s)"

text \<open>The loop of \<open>find_room_events\<close> looks at the limit only after it has added an event.\<close>

fun take_matching :: "('s, 'v) web_api \<Rightarrow> str \<Rightarrow> nat \<Rightarrow> 'v list \<Rightarrow> 'v list \<Rightarrow> 'v list" where
  "take_matching W event_type limit results [] = results"
| "take_matching W event_type limit results (e # es) =
     (if wb_str W e ''type'' = Some event_type
      then if length (results @ [e]) \<ge> limit then results @ [e] else take_matching W event_type limit (results @ [e]) es
      else take_matching W event_type limit results es)"

definition web_find_room_events :: "('s, 'v) web_api \<Rightarrow> str \<Rightarrow> str \<Rightarrow> u32 \<Rightarrow> 's \<Rightarrow> (str, 'v list) result \<times> 's" where
  "web_find_room_events W room event_type limit =
     attempt (sdk_sync (wb_sdk W)) (\<lambda>_.
     attempt (web_valid_room W room) (\<lambda>_ s.
       if sdk_get_room (wb_sdk W) room s
       then attempt (wb_messages W room) (\<lambda>chunk s. (Okay (take_matching W event_type (unat limit) [] (web_page W chunk)), s)) s
       else (Okay [], s)))"

definition web_event_id :: "('s, 'v) web_api \<Rightarrow> 'v \<Rightarrow> str" where
  "web_event_id W e = (case wb_str W e ''event_id'' of Some i \<Rightarrow> i | None \<Rightarrow> '''')"

definition web_seen :: "('s, 'v) web_api \<Rightarrow> str list \<Rightarrow> str set" where
  "web_seen W chunk = set (List.map_filter (\<lambda>e. wb_str W e ''event_id'') (web_page W chunk))"

definition first_new :: "('s, 'v) web_api \<Rightarrow> str \<Rightarrow> str set \<Rightarrow> 'v list \<Rightarrow> 'v option" where
  "first_new W event_type seen es = find (\<lambda>e. wb_str W e ''type'' = Some event_type \<and> web_event_id W e \<notin> seen) es"

fun on_event_loop ::
  "('s, 'v) web_api \<Rightarrow> str \<Rightarrow> str \<Rightarrow> str set \<Rightarrow> (nat \<Rightarrow> instant) \<Rightarrow> instant \<Rightarrow> nat \<Rightarrow> nat \<Rightarrow> 's \<Rightarrow> ((str, 'v option) result \<times> 's) option" where
  "on_event_loop W room event_type seen clk deadline 0 i s = None"
| "on_event_loop W room event_type seen clk deadline (Suc fuel) i s =
     (if clk i < deadline then
        (case sdk_sync (wb_sdk W) s of
           (Inl e, s) \<Rightarrow> Some (Err e, s)
         | (Inr _, s) \<Rightarrow>
             if sdk_get_room (wb_sdk W) room s then
               (case wb_messages W room s of
                  (Inl e, s) \<Rightarrow> Some (Err e, s)
                | (Inr chunk, s) \<Rightarrow>
                    (case first_new W event_type seen (web_page W chunk) of
                       Some e \<Rightarrow> Some (Okay (Some e), s)
                     | None \<Rightarrow> on_event_loop W room event_type seen clk deadline fuel (Suc i) s))
             else on_event_loop W room event_type seen clk deadline fuel (Suc i) s)
      else Some (Okay None, s))"

definition web_on_room_event ::
  "('s, 'v) web_api \<Rightarrow> str \<Rightarrow> str \<Rightarrow> (nat \<Rightarrow> instant) \<Rightarrow> u32 \<Rightarrow> nat \<Rightarrow> 's \<Rightarrow> ((str, 'v option) result \<times> 's) option" where
  "web_on_room_event W room event_type clk timeout_secs fuel s =
     (case sdk_valid_room (wb_sdk W) room of
        Inl e \<Rightarrow> Some (Err e, s)
      | Inr _ \<Rightarrow>
          (let deadline = clk 0 + from_secs (unat timeout_secs);
               (seen, s) = (if sdk_get_room (wb_sdk W) room s
                            then (case wb_messages W room s of
                                    (Inr chunk, s) \<Rightarrow> (web_seen W chunk, s)
                                  | (Inl _, s) \<Rightarrow> ({}, s))
                            else ({}, s))
           in on_event_loop W room event_type seen clk deadline fuel 1 s))"

subsubsection \<open>Interactive sessions\<close>

text \<open>The content is built as JSON, printed and parsed again by \<open>send_event\<close>; here it is the object itself.\<close>

definition web_send_content :: "('s, 'v) web_api \<Rightarrow> str \<Rightarrow> str \<Rightarrow> 'v \<Rightarrow> 's \<Rightarrow> (str, unit) result \<times> 's" where
  "web_send_content W room event_type content = attempt (web_room W room) (\<lambda>_. wb_send W room event_type content)"

definition web_send_terminal_input :: "('s, 'v) web_api \<Rightarrow> str \<Rightarrow> str \<Rightarrow> str \<Rightarrow> 's \<Rightarrow> (str, unit) result \<times> 's" where
  "web_send_terminal_input W dm_room session_id data =
     web_send_content W dm_room ''org.mxdx.session.input'' (wb_object W [(''session_uuid'', session_id), (''data'', data)] [])"

definition web_send_terminal_resize :: "('s, 'v) web_api \<Rightarrow> str \<Rightarrow> str \<Rightarrow> u16 \<Rightarrow> u16 \<Rightarrow> 's \<Rightarrow> (str, unit) result \<times> 's" where
  "web_send_terminal_resize W dm_room session_id cols rows =
     web_send_content W dm_room ''org.mxdx.session.resize''
       (wb_object W [(''session_uuid'', session_id)] [(''cols'', unat cols), (''rows'', unat rows)])"

definition web_post_terminal_output :: "('s, 'v) web_api \<Rightarrow> str \<Rightarrow> str \<Rightarrow> str \<Rightarrow> u32 \<Rightarrow> 's \<Rightarrow> (str, unit) result \<times> 's" where
  "web_post_terminal_output W dm_room session_id data seq =
     web_send_content W dm_room ''org.mxdx.session.output''
       (wb_object W [(''session_uuid'', session_id), (''data'', data)] [(''seq'', unat seq)])"

subsection \<open>The state room\<close>

definition web_alias_room :: "('s, 'v) web_api \<Rightarrow> str \<Rightarrow> 's \<Rightarrow> str option" where
  "web_alias_room W alias s =
     (case wb_get W (trim_end_matches (CHR ''/'') (sdk_homeserver (wb_sdk W)) @ ''/_matrix/client/v3/directory/room/'' @ wb_encode_uri W alias) None s of
        Inr resp \<Rightarrow>
          if web_success resp
          then (case wr_json resp of Inr body \<Rightarrow> wb_str W body ''room_id'' | Inl _ \<Rightarrow> None)
          else None
      | Inl _ \<Rightarrow> None)"

definition web_state_room_request :: "str \<Rightarrow> web_request" where
  "web_state_room_request name =
     web_request_new\<lparr>wq_name := Some (''mxdx: state'' @ DASH @ name), wq_alias := Some (''mxdx-state-'' @ name),
       wq_topic := Some (''org.mxdx.worker.state:'' @ name), wq_encryption := True, wq_joined_history := True\<rparr>"

definition web_get_or_create_state_room :: "('s, 'v) web_api \<Rightarrow> str \<Rightarrow> str \<Rightarrow> str \<Rightarrow> 's \<Rightarrow> (str, str) result \<times> 's" where
  "web_get_or_create_state_room W hostname os_user localpart s =
     (let name = state_room_name hostname os_user localpart
      in case wb_server_name W s of
           None \<Rightarrow> (Err ''Not logged in'', s)
         | Some server \<Rightarrow>
             (case web_alias_room W (''#mxdx-state-'' @ name @ '':'' @ server) s of
                Some room \<Rightarrow>
                  (case sdk_valid_room (wb_sdk W) room of
                     Inl e \<Rightarrow> (Err e, s)
                   | Inr _ \<Rightarrow> (Okay room, snd (sdk_join (wb_sdk W) room s)))
              | None \<Rightarrow>
                  attempt (sdk_sync (wb_sdk W)) (\<lambda>_ s.
                    (case find (\<lambda>(room, topic). (case topic of Some t \<Rightarrow> t | None \<Rightarrow> '''') = ''org.mxdx.worker.state:'' @ name)
                            (sdk_joined (wb_sdk W) s) of
                       Some (room, _) \<Rightarrow> (Okay room, s)
                     | None \<Rightarrow> wb_create W (web_state_room_request name) s)) s))"

definition web_write_config :: "('s, 'v) web_api \<Rightarrow> str \<Rightarrow> str \<Rightarrow> 's \<Rightarrow> (str, unit) result \<times> 's" where
  "web_write_config W room config_json = web_send_state_event W room WORKER_STATE_CONFIG '''' config_json"

definition web_write_session :: "('s, 'v) web_api \<Rightarrow> str \<Rightarrow> str \<Rightarrow> str \<Rightarrow> str \<Rightarrow> 's \<Rightarrow> (str, unit) result \<times> 's" where
  "web_write_session W room device_id uuid session_json =
     web_send_state_event W room WORKER_STATE_SESSION (device_id @ ''/'' @ uuid) session_json"

definition web_remove_session :: "('s, 'v) web_api \<Rightarrow> str \<Rightarrow> str \<Rightarrow> str \<Rightarrow> 's \<Rightarrow> (str, unit) result \<times> 's" where
  "web_remove_session W room device_id uuid = web_send_state_event W room WORKER_STATE_SESSION (device_id @ ''/'' @ uuid) ''{}''"

definition web_write_room :: "('s, 'v) web_api \<Rightarrow> str \<Rightarrow> str \<Rightarrow> str \<Rightarrow> 's \<Rightarrow> (str, unit) result \<times> 's" where
  "web_write_room W room room_id_key entry_json = web_send_state_event W room WORKER_STATE_ROOM room_id_key entry_json"

definition entity_event_type :: "str \<Rightarrow> (str, str) result" where
  "entity_event_type entity =
     (if entity = ''client'' then Okay WORKER_STATE_TRUSTED_CLIENT
      else if entity = ''coordinator'' then Okay WORKER_STATE_TRUSTED_COORDINATOR
      else Err (''Unknown entity type: '' @ entity))"

definition web_write_trusted_entity :: "('s, 'v) web_api \<Rightarrow> str \<Rightarrow> str \<Rightarrow> str \<Rightarrow> str \<Rightarrow> 's \<Rightarrow> (str, unit) result \<times> 's" where
  "web_write_trusted_entity W room entity user_id entity_json =
     attempt (\<lambda>s. (entity_event_type entity, s)) (\<lambda>event_type. web_send_state_event W room event_type user_id entity_json)"

definition web_write_topology :: "('s, 'v) web_api \<Rightarrow> str \<Rightarrow> str \<Rightarrow> 's \<Rightarrow> (str, unit) result \<times> 's" where
  "web_write_topology W room topology_json = web_send_state_event W room WORKER_STATE_TOPOLOGY '''' topology_json"

definition web_state_url :: "('s, 'v) web_api \<Rightarrow> str \<Rightarrow> str" where
  "web_state_url W room =
     trim_end_matches (CHR ''/'') (sdk_homeserver (wb_sdk W)) @ ''/_matrix/client/v3/rooms/'' @ wb_encode_uri W room @ ''/state''"

definition web_read_single :: "('s, 'v) web_api \<Rightarrow> str \<Rightarrow> str \<Rightarrow> str \<Rightarrow> 's \<Rightarrow> (str, str option) result" where
  "web_read_single W room event_type state_key s =
     (case wb_access_token W s of
        None \<Rightarrow> Err ''No active session''
      | Some token \<Rightarrow>
          (case wb_get W (web_state_url W room @ ''/'' @ wb_encode_uri W event_type @ ''/'' @ wb_encode_uri W state_key) (Some token) s of
             Inl e \<Rightarrow> Err (''State event fetch failed: '' @ e)
           | Inr resp \<Rightarrow>
               if \<not> web_success resp then Okay None
               else
                 (case wr_text resp of
                    Inl e \<Rightarrow> Err e
                  | Inr body \<Rightarrow>
                      (case wb_parse W body of
                         Inr v \<Rightarrow>
                           if value_get (wb_values W) v ''errcode'' \<noteq> None \<or> object_len (wb_values W) v = Some 0 then Okay None
                           else Okay (Some body)
                       | Inl _ \<Rightarrow> Okay (Some body)))))"

definition web_state_contents :: "('s, 'v) web_api \<Rightarrow> str \<Rightarrow> 'v list \<Rightarrow> 'v list" where
  "web_state_contents W event_type events =
     List.map_filter (\<lambda>e.
       if (case wb_str W e ''type'' of Some t \<Rightarrow> t | None \<Rightarrow> '''') \<noteq> event_type then None
       else (case value_get (wb_values W) e ''content'' of
               Some c \<Rightarrow> if is_empty_content (wb_values W) c then None else Some c
             | None \<Rightarrow> None)) events"

definition web_read_all :: "('s, 'v) web_api \<Rightarrow> str \<Rightarrow> str \<Rightarrow> 's \<Rightarrow> (str, 'v list) result" where
  "web_read_all W room event_type s =
     (case wb_access_token W s of
        None \<Rightarrow> Err ''No active session''
      | Some token \<Rightarrow>
          (case wb_get W (web_state_url W room) (Some token) s of
             Inl e \<Rightarrow> Err (''State fetch failed: '' @ e)
           | Inr resp \<Rightarrow>
               if \<not> web_success resp then Okay []
               else
                 (case wr_json resp of
                    Inl e \<Rightarrow> Err e
                  | Inr body \<Rightarrow>
                      (case as_array (wb_values W) body of
                         None \<Rightarrow> Err ''invalid type''
                       | Some events \<Rightarrow> Okay (web_state_contents W event_type events)))))"

definition web_read_config :: "('s, 'v) web_api \<Rightarrow> str \<Rightarrow> 's \<Rightarrow> (str, str option) result" where
  "web_read_config W room s = web_read_single W room WORKER_STATE_CONFIG '''' s"

definition web_read_topology :: "('s, 'v) web_api \<Rightarrow> str \<Rightarrow> 's \<Rightarrow> (str, str option) result" where
  "web_read_topology W room s = web_read_single W room WORKER_STATE_TOPOLOGY '''' s"

definition web_read_sessions :: "('s, 'v) web_api \<Rightarrow> str \<Rightarrow> 's \<Rightarrow> (str, 'v list) result" where
  "web_read_sessions W room s = web_read_all W room WORKER_STATE_SESSION s"

definition web_read_rooms :: "('s, 'v) web_api \<Rightarrow> str \<Rightarrow> 's \<Rightarrow> (str, 'v list) result" where
  "web_read_rooms W room s = web_read_all W room WORKER_STATE_ROOM s"

definition web_read_trusted_entities :: "('s, 'v) web_api \<Rightarrow> str \<Rightarrow> str \<Rightarrow> 's \<Rightarrow> (str, 'v list) result" where
  "web_read_trusted_entities W room entity s =
     (case entity_event_type entity of Inl e \<Rightarrow> Err e | Inr event_type \<Rightarrow> web_read_all W room event_type s)"

subsection \<open>Cipher and TURN\<close>

text \<open>The wrapper of the frame cipher; frames are printed and parsed by serde, texts checked to be UTF-8.\<close>

record frame_json =
  fj_print :: "EncryptedFrame \<Rightarrow> (str, str) result"
  fj_parse :: "str \<Rightarrow> (str, EncryptedFrame) result"
  fj_utf8 :: "bytes \<Rightarrow> (str, str) result"
  fj_error :: "CryptoError \<Rightarrow> str"

definition web_generate_key :: "crypto_lib \<Rightarrow> bytes \<Rightarrow> P2PCrypto \<times> str" where
  "web_generate_key L raw = (case crypto_generate raw of (crypto, sealed) \<Rightarrow> (crypto, to_base64 L sealed))"

definition web_from_key :: "frame_json \<Rightarrow> crypto_lib \<Rightarrow> str \<Rightarrow> (str, P2PCrypto) result" where
  "web_from_key J L base64_key =
     (case from_base64 L base64_key of Inl e \<Rightarrow> Err (''invalid session key: '' @ fj_error J e) | Inr sealed \<Rightarrow> Okay (from_sealed sealed))"

definition web_encrypt :: "frame_json \<Rightarrow> crypto_lib \<Rightarrow> P2PCrypto \<Rightarrow> bytes \<Rightarrow> str \<Rightarrow> (str, str) result" where
  "web_encrypt J L c iv_bytes plaintext =
     (case encrypt L c iv_bytes (as_bytes plaintext) of
        Inl e \<Rightarrow> Err (''encrypt: '' @ fj_error J e)
      | Inr frame \<Rightarrow> map_sum (\<lambda>e. ''serialize: '' @ e) id (fj_print J frame))"

definition web_decrypt :: "frame_json \<Rightarrow> crypto_lib \<Rightarrow> P2PCrypto \<Rightarrow> str \<Rightarrow> (str, str) result" where
  "web_decrypt J L c ciphertext_json =
     (case fj_parse J ciphertext_json of
        Inl e \<Rightarrow> Err (''parse frame: '' @ e)
      | Inr frame \<Rightarrow>
          (case decrypt L c frame of
             Inl e \<Rightarrow> Err (''decrypt: '' @ fj_error J e)
           | Inr plaintext \<Rightarrow> map_sum (\<lambda>e. ''utf8: '' @ e) id (fj_utf8 J plaintext)))"

record 'u url_api =
  ua_parse :: "str \<Rightarrow> (str, 'u) result"
  ua_scheme :: "'u \<Rightarrow> str"
  ua_host :: "'u \<Rightarrow> str option"

text \<open>The body of the reply, or nothing where the code returns the text \<open>null\<close>; with it the requests that were sent.\<close>

definition web_fetch_turn ::
  "('s, 'v) web_api \<Rightarrow> 'u url_api \<Rightarrow> str \<Rightarrow> str \<Rightarrow> 's \<Rightarrow> (str, str option) result \<times> (str \<times> str) list" where
  "web_fetch_turn W U homeserver_url access_token s =
     (case ua_parse U homeserver_url of
        Inl e \<Rightarrow> (Err (''invalid homeserver URL: '' @ e), [])
      | Inr parsed \<Rightarrow>
          if ua_scheme U parsed = ''https''
             \<or> ua_scheme U parsed = ''http''
               \<and> (case ua_host U parsed of Some h \<Rightarrow> h | None \<Rightarrow> '''') \<in> set [''localhost'', ''127.0.0.1'', ''::1'', ''[::1]'']
          then
            (let url = trim_end_matches (CHR ''/'') homeserver_url @ ''/_matrix/client/v3/voip/turnServer''
             in (case wb_get W url (Some access_token) s of
                   Inl _ \<Rightarrow> Okay None
                 | Inr resp \<Rightarrow>
                     if \<not> web_success resp then Okay None
                     else
                       (case wr_text resp of
                          Inl _ \<Rightarrow> Okay None
                        | Inr body \<Rightarrow>
                            (case wb_parse W body of
                               Inr v \<Rightarrow>
                                 (case Option.bind (value_get (wb_values W) v ''uris'') (as_array (wb_values W)) of
                                    None \<Rightarrow> Okay None
                                  | Some us \<Rightarrow> Okay (if us = [] then None else Some body))
                             | Inl _ \<Rightarrow> Okay (Some body))),
                 [(url, access_token)]))
          else (Okay None, []))"

text \<open>The fields of the single server of the result; a missing one is the JSON null, here \<open>None\<close>.\<close>

definition web_turn_to_ice_servers :: "('s, 'v) web_api \<Rightarrow> str \<Rightarrow> (str, ('v option \<times> 'v option \<times> 'v option) list) result" where
  "web_turn_to_ice_servers W turn_json =
     (case wb_parse W turn_json of
        Inl e \<Rightarrow> Err (''parse TURN response: '' @ e)
      | Inr v \<Rightarrow>
          (let field = value_get (wb_values W) v
           in case Option.bind (field ''uris'') (as_array (wb_values W)) of
                None \<Rightarrow> Okay []
              | Some us \<Rightarrow> Okay (if us = [] then [] else [(field ''uris'', field ''username'', field ''password'')])))"

subsection \<open>What is shown of sessions\<close>

definition web_json_law :: "('s, 'v, 'c) login_api \<Rightarrow> bool" where
  "web_json_law B \<longleftrightarrow>
     (\<forall>v. wl_parse B (wl_print B v) = Okay v) \<and> (\<forall>kvs k. str_field (wl_values B) (wl_object B kvs) k = map_of kvs k)"

text \<open>
  An exported session is restored with its own user, device and token, on its own server and in the
  store it was made with, whatever name that store has.
\<close>

lemma attempt_pure: "attempt (\<lambda>s. (Okay a, s)) f = f a"
  by (simp add: attempt_def fun_eq_iff)

lemma web_field_Some: "str_field (wl_values B) v k = Some x \<Longrightarrow> web_field B v k = (\<lambda>s. (Okay x, s))"
  by (simp add: web_field_def fun_eq_iff)

lemma web_session_roundtrip:
  assumes "web_json_law B" and "wl_session B (wm_client c) s = Some session"
  shows "\<exists>exported. web_export_session B c s = Okay exported
    \<and> web_restore_session B exported =
        attempt (wl_build B (HomeserverUrl (wl_homeserver B (wm_client c) s)) (wm_store_name c)) (\<lambda>client.
        attempt (\<lambda>s. (wl_parse_user B (ws_user_id session), s)) (\<lambda>_.
        attempt (wl_restore B client session) (\<lambda>_. web_first_sync B (wm_store_name c) client)))"
  using assms by (cases session) (simp add: web_export_session_def web_restore_session_def web_field_Some web_json_law_def attempt_pure Let_def)

text \<open>
  Stores of different accounts may share a name, and a login deletes the store of that name before anything
  else; the other account then loses its keys.
\<close>

lemma web_store_collides:
  "web_store_name ''a'' ''b.c'' = web_store_name ''a_b'' ''c''
   \<and> web_login B ''c'' ''a_b'' pw s =
       attempt (wl_build B (server_of ''c'') (web_store_name ''a'' ''b.c'')) (web_login_user B (web_store_name ''a'' ''b.c'') ''a_b'' pw)
         (delete_indexeddb_store B (web_store_name ''a'' ''b.c'') s)"
  by (simp add: web_login_def Let_def web_store_name_def)

subsection \<open>What is shown of launchers\<close>

definition rooms_of :: "('s, 'v) web_api \<Rightarrow> 's \<Rightarrow> str \<Rightarrow> str \<Rightarrow> str list \<Rightarrow> str list" where
  "rooms_of W s l role rids = filter (\<lambda>rid. web_room_marks W s rid = Some (l, Some role)) rids"

definition first_of :: "'a list \<Rightarrow> 'a option" where
  "first_of xs = (case xs of [] \<Rightarrow> None | x # _ \<Rightarrow> Some x)"

definition last_of :: "'a list \<Rightarrow> 'a option" where
  "last_of xs = first_of (rev xs)"

definition or_first :: "'a option \<Rightarrow> 'a list \<Rightarrow> 'a option" where
  "or_first r xs = (case r of Some x \<Rightarrow> Some x | None \<Rightarrow> first_of xs)"

lemma or_first_simps [simp]:
  "or_first r [] = r" "or_first (Some x) xs = Some x" "or_first None (x # xs) = Some x" "or_first None xs = first_of xs"
  by (auto simp: or_first_def first_of_def split: option.splits)

lemma last_of_Cons: "last_of (x # xs) = (case last_of xs of None \<Rightarrow> Some x | Some y \<Rightarrow> Some y)"
  by (cases xs rule: rev_cases) (simp_all add: last_of_def first_of_def)

lemma web_note_rooms:
  "fold (web_note_room W l s) rids (space, exec, logs)
     = (or_first space (rooms_of W s l ''space'' rids), or_first exec (rooms_of W s l ''exec'' rids), or_first logs (rooms_of W s l ''logs'' rids))"
  by (induction rids arbitrary: space exec logs)
     (auto simp: rooms_of_def web_note_room_def or_first_def first_of_def split: option.splits prod.splits)

lemma web_list_rooms:
  "fold (web_list_room W s) rids (spaces, exec, logs) = (spaces', exec', logs') \<Longrightarrow>
     set spaces' = set spaces \<union> {(l, r). r \<in> set (rooms_of W s l ''space'' rids)}
     \<and> exec' l = (case last_of (rooms_of W s l ''exec'' rids) of Some r \<Rightarrow> Some r | None \<Rightarrow> exec l)
     \<and> logs' l = (case last_of (rooms_of W s l ''logs'' rids) of Some r \<Rightarrow> Some r | None \<Rightarrow> logs l)"
proof (induction rids arbitrary: spaces exec logs)
  case Nil
  then show ?case by (simp add: rooms_of_def last_of_def first_of_def)
next
  case (Cons rid rids)
  obtain sp ex lo where one: "web_list_room W s rid (spaces, exec, logs) = (sp, ex, lo)" by (metis prod_cases3)
  with Cons.prems have "fold (web_list_room W s) rids (sp, ex, lo) = (spaces', exec', logs')" by simp
  from Cons.IH [OF this] one show ?case
    by (auto simp: rooms_of_def web_list_room_def last_of_Cons split: option.splits prod.splits if_splits)
qed

text \<open>
  Finding a launcher takes its first exec room, and its first space and logs room or else the exec room; listing
  has an entry for each of its spaces, with its last exec and logs room, and none unless it has both.
\<close>

lemma web_find_rooms:
  "fst (web_find_launcher_space W l s) = Okay t \<longleftrightarrow>
     (\<exists>s'. sdk_sync (wb_sdk W) s = (Okay (), s')
       \<and> t = (let rids = map fst (sdk_joined (wb_sdk W) s')
              in map_option (\<lambda>e. \<lparr>lt_space_id = (case first_of (rooms_of W s' l ''space'' rids) of Some r \<Rightarrow> r | None \<Rightarrow> e), lt_exec_room_id = e,
                   lt_logs_room_id = (case first_of (rooms_of W s' l ''logs'' rids) of Some r \<Rightarrow> r | None \<Rightarrow> e)\<rparr>)
                   (first_of (rooms_of W s' l ''exec'' rids))))"
  by (auto simp: web_find_launcher_space_def attempt_def web_note_rooms web_topology_def Let_def split: prod.splits sum.splits option.splits)

lemma web_list_spaces:
  fixes W :: "('s, 'v) web_api" and s
  defines "rooms l role \<equiv> rooms_of W s l role (map fst (sdk_joined (wb_sdk W) s))"
  shows "(l, t) \<in> set (web_list_launcher_spaces W s) \<longleftrightarrow>
     (\<exists>space \<in> set (rooms l ''space''). \<exists>e g. last_of (rooms l ''exec'') = Some e \<and> last_of (rooms l ''logs'') = Some g
        \<and> t = \<lparr>lt_space_id = space, lt_exec_room_id = e, lt_logs_room_id = g\<rparr>)"
proof -
  obtain spaces exec logs where run:
    "fold (web_list_room W s) (map fst (sdk_joined (wb_sdk W) s)) ([], Map.empty, Map.empty) = (spaces, exec, logs)" by (metis prod_cases3)
  note facts = web_list_rooms [OF run, of l, folded rooms_def]
  show ?thesis
    using facts
    by (auto simp: web_list_launcher_spaces_def run List.map_filter_def rooms_def split: option.splits) force+
qed

text \<open>With two exec rooms of one launcher the two differ: the first is found, the last is listed.\<close>

lemma web_exec_rooms_differ:
  assumes "sdk_sync (wb_sdk W) s = (Okay (), s')" and "(l, listed) \<in> set (web_list_launcher_spaces W s')"
    and "rooms_of W s' l ''exec'' (map fst (sdk_joined (wb_sdk W) s')) = [a, b]"
  shows "lt_exec_room_id listed = b \<and> (\<exists>t. fst (web_find_launcher_space W l s) = Okay (Some t) \<and> lt_exec_room_id t = a)"
  using assms(2,3) unfolding web_list_spaces web_find_rooms assms(1) by (auto simp: Let_def first_of_def last_of_def)

subsection \<open>What is shown of reading\<close>

text \<open>A search returns the newest matching events up to the limit, but at least one: the limit 0 gives one event.\<close>

lemma take_matching_eq:
  "length results < max 1 limit \<Longrightarrow>
     take_matching W event_type limit results es
       = results @ take (max 1 limit - length results) (filter (\<lambda>e. wb_str W e ''type'' = Some event_type) es)"
proof (induction es arbitrary: results)
  case (Cons e es)
  show ?case
  proof (cases "length results + 1 \<ge> limit")
    case True
    with Cons.prems have "max 1 limit - length results = 1" by auto
    with True Cons show ?thesis by auto
  next
    case False
    then have "max 1 limit - length results = Suc (max 1 limit - length (results @ [e]))" by auto
    with False Cons show ?thesis by auto
  qed
qed simp

text \<open>Both loops end: the fuel suffices once it covers the reading of the clock that reaches the deadline.\<close>

lemma web_collect_loop_ends: "deadline \<le> clk (i + n) \<Longrightarrow> web_collect_loop W room clk deadline (Suc n) i s \<noteq> None"
proof (induction n arbitrary: i s)
  case (Suc n)
  then have "web_collect_loop W room clk deadline (Suc n) (Suc i) s \<noteq> None" for s by simp
  then show ?case
    by (subst web_collect_loop.simps(2)) (simp add: Let_def del: web_collect_loop.simps(2) split: prod.split sum.split)
qed simp

lemma on_event_loop_ends: "deadline \<le> clk (i + n) \<Longrightarrow> on_event_loop W room event_type seen clk deadline (Suc n) i s \<noteq> None"
proof (induction n arbitrary: i s)
  case (Suc n)
  then have "on_event_loop W room event_type seen clk deadline (Suc n) (Suc i) s \<noteq> None" for s by simp
  then show ?case
    by (subst on_event_loop.simps(2)) (simp del: on_event_loop.simps(2) split: prod.split sum.split option.split)
qed simp

text \<open>An event that is waited for has the type asked for, and was not there when the wait began.\<close>

lemma on_event_loop_new:
  "on_event_loop W room event_type seen clk deadline fuel i s = Some (Okay (Some e), s') \<Longrightarrow>
     wb_str W e ''type'' = Some event_type \<and> web_event_id W e \<notin> seen"
proof (induction fuel arbitrary: i s)
  case (Suc fuel)
  from Suc.prems Suc.IH show ?case
    by (auto simp: first_new_def find_Some_iff split: if_splits prod.splits sum.splits option.splits)
qed simp

text \<open>
  So of two new events of one type that arrive between two looks at the room only the newer is ever returned: the
  wait takes the newest, and the next one starts by counting the whole page as seen.
\<close>

lemma web_event_skipped:
  assumes "web_page W chunk = newer # older # es"
    and "wb_str W newer ''type'' = Some event_type" and "web_event_id W newer \<notin> seen"
    and "wb_str W older ''event_id'' = Some oid"
    and "sdk_get_room (wb_sdk W) room s" and "wb_messages W room s = (Okay chunk, s1)"
    and "web_on_room_event W room event_type clk timeout fuel s = Some (Okay (Some e), s2)"
  shows "first_new W event_type seen (web_page W chunk) = Some newer \<and> wb_str W e ''event_id'' \<noteq> Some oid"
proof -
  from assms(7) have valid: "\<not> isl (sdk_valid_room (wb_sdk W) room)"
    by (auto simp: web_on_room_event_def split: sum.splits)
  with assms(5-7) obtain deadline where
    "on_event_loop W room event_type (web_seen W chunk) clk deadline fuel 1 s1 = Some (Okay (Some e), s2)"
    by (auto simp: web_on_room_event_def Let_def split: sum.splits)
  from on_event_loop_new [OF this] have "web_event_id W e \<notin> web_seen W chunk" by simp
  moreover have "oid \<in> web_seen W chunk" using assms(1,4) by (auto simp: web_seen_def List.map_filter_def image_iff)
  ultimately show ?thesis using assms(1-3) by (auto simp: first_new_def web_event_id_def)
qed

subsection \<open>What is shown of the state room\<close>

text \<open>
  A room that the alias resolves to is taken as it is: neither its creator nor its encryption is looked at, and a failed
  join does not matter. The worker refuses such a room when its check fails (\<open>get_or_create\<close> of theory \<open>State_Room\<close>), so
  the two may keep their state in different rooms, and whoever owns the alias owns the state the browser reads.
\<close>

lemma web_state_room_unchecked:
  assumes "wb_server_name W s = Some server" and "sdk_valid_room (wb_sdk W) room = Okay ()"
    and "web_alias_room W (''#mxdx-state-'' @ state_room_name hostname os_user localpart @ '':'' @ server) s = Some room"
  shows "web_get_or_create_state_room W hostname os_user localpart s = (Okay room, snd (sdk_join (wb_sdk W) room s))"
  using assms by (simp add: web_get_or_create_state_room_def Let_def)

text \<open>
  The browser reads the entries of a state room as the worker does, content that is empty or missing left out; the
  worker also drops what it cannot decode.
\<close>

lemma web_reads_as_worker:
  assumes "is_empty_content (wb_values W) (sdk_empty (wb_sdk W))"
  shows "state_entries (wb_values W) de (filter_state_events_by_type (wb_sdk W) events event_type)
     = List.map_filter (\<lambda>c. case de c of Inl _ \<Rightarrow> None | Inr item \<Rightarrow> Some item) (web_state_contents W event_type events)"
  using assms
  by (induction events)
     (auto simp: state_entries_def filter_state_events_by_type_def web_state_contents_def List.map_filter_simps split: option.splits)

subsection \<open>What is shown of cipher and TURN\<close>

lemma web_frame_roundtrip:
  assumes "base64_law L" and "aead_law L" and "length raw = 32" and "length iv_bytes = 12"
    and "\<And>frame j. fj_print J frame = Okay j \<Longrightarrow> fj_parse J j = Okay frame" and "\<And>t. fj_utf8 J (as_bytes t) = Okay t"
    and "web_generate_key L raw = (ours, key)" and "web_encrypt J L ours iv_bytes text1 = Okay wire"
  shows "\<exists>theirs. web_from_key J L key = Okay theirs \<and> web_decrypt J L theirs wire = Okay text1"
proof -
  from assms(7) have ours: "ours = \<lparr>cipher = raw\<rparr>" and key: "key = to_base64 L (SealedKey raw)"
    by (simp_all add: web_generate_key_def crypto_generate_def sealed_random_def)
  have from_key: "web_from_key J L key = Okay ours"
    unfolding key web_from_key_def using from_base64_to_base64 [OF assms(1), of "SealedKey raw"] assms(3) by (simp add: from_sealed_def ours)
  obtain frame where frame: "encrypt L ours iv_bytes (as_bytes text1) = Okay frame" "fj_print J frame = Okay wire"
    using assms(8) by (auto simp: web_encrypt_def map_sum_Okay split: sum.splits)
  then have "decrypt L ours frame = Okay (as_bytes text1)"
    using assms(1,2,4) by (auto simp: encrypt_def decrypt_def decode_encode aead_law_def split: option.splits)
  then show ?thesis using from_key assms(5) [OF frame(2)] assms(6) by (simp add: web_decrypt_def)
qed

text \<open>
  The access token leaves only for the TURN endpoint of an https or loopback server, and at most once. A body that is not JSON is
  handed on unchecked, though the code means to make sure that it has servers.
\<close>

lemma web_turn_guarded:
  "(\<forall>url token. (url, token) \<in> set (snd (web_fetch_turn W U homeserver_url access_token s)) \<longrightarrow>
      token = access_token \<and> url = trim_end_matches (CHR ''/'') homeserver_url @ ''/_matrix/client/v3/voip/turnServer''
      \<and> (\<exists>u. ua_parse U homeserver_url = Okay u
           \<and> (ua_scheme U u = ''https'' \<or> ua_scheme U u = ''http'' \<and> ua_host U u \<in> Some ` {''localhost'', ''127.0.0.1'', ''::1'', ''[::1]''})))
   \<and> length (snd (web_fetch_turn W U homeserver_url access_token s)) \<le> 1"
  by (auto simp: web_fetch_turn_def Let_def split: sum.splits option.splits if_splits)

lemma web_turn_not_json:
  assumes "ua_parse U homeserver_url = Okay u" and "ua_scheme U u = ''https''" and "wr_text resp = Okay body" and "web_success resp"
    and "wb_get W (trim_end_matches (CHR ''/'') homeserver_url @ ''/_matrix/client/v3/voip/turnServer'') (Some token) s = Okay resp"
    and "wb_parse W body = Err e"
  shows "fst (web_fetch_turn W U homeserver_url token s) = Okay (Some body)
    \<and> web_turn_to_ice_servers W body = Err (''parse TURN response: '' @ e)"
  using assms by (simp add: web_fetch_turn_def web_turn_to_ice_servers_def Let_def)

end
