(* ===== verification/Startup.thy ===== *)
theory Startup
  imports Config Matrix_Client Matrix_Session
begin

section \<open>Connecting worker and client\<close>

text \<open>
  What worker and client do before their loops: \<open>connect\<close> of \<open>crates/mxdx-worker/src/lib.rs\<close> and \<open>connect_multi\<close> of
  \<open>crates/mxdx-client/src/matrix.rs\<close>. The accounts are those of theory \<open>Config\<close>, discovery, creation and repair of rooms those of
  \<open>Matrix_Rooms\<close> on the preferred client, the key backup that of \<open>Matrix_Session\<close>. The operations of the pool of
  homeservers (theory \<open>Multi_Hs\<close>) enter by their results, as functions on the state of client and server.
\<close>

record ('s, 'v) startup_api =
  su_messages :: "('s, 'v) message_api"
  su_backup :: "'s backup_api"
  su_key_rooms :: "'s \<Rightarrow> str list"
  su_download :: "'s \<Rightarrow> str \<Rightarrow> (str, unit) result \<times> 's"
  su_store_base :: "str \<Rightarrow> str option"
  su_parse_user :: "str \<Rightarrow> (str, unit) result"
  su_connect :: "ServerAccount list \<Rightarrow> str option \<Rightarrow> bool \<Rightarrow> 's \<Rightarrow> (str, bool list) result \<times> 's"
  su_remove_passwords :: "'s \<Rightarrow> (str, unit) result \<times> 's"
  su_access_token :: "'s \<Rightarrow> str option"
  su_sync :: "'s \<Rightarrow> (str, unit) result \<times> 's"
  su_join :: "str \<Rightarrow> 's \<Rightarrow> (str, unit) result \<times> 's"
  su_wait_for_keys :: "str \<Rightarrow> duration \<Rightarrow> 's \<Rightarrow> (str, unit) result \<times> 's"
  su_find_launcher_space :: "str \<Rightarrow> 's \<Rightarrow> (str, LauncherTopology option) result \<times> 's"
  su_sync_trust :: "str \<Rightarrow> 's \<Rightarrow> 's"

abbreviation su_sdk :: "('s, 'v) startup_api \<Rightarrow> ('s, 'v) matrix_sdk" where
  "su_sdk A \<equiv> ma_sdk (su_messages A)"

definition no_accounts :: str where
  "no_accounts = ''No Matrix accounts configured (use --homeserver/--username/--password or config file)''"

definition quoted :: "str \<Rightarrow> str" where
  "quoted s = [CHR 0x27] @ s @ [CHR 0x27]"

text \<open>After a fresh login the room is joined, a failure to join notwithstanding, and its keys are waited for.\<close>

definition settle_room :: "('s, 'v) startup_api \<Rightarrow> bool \<Rightarrow> str \<Rightarrow> 's \<Rightarrow> (str, unit) result \<times> 's" where
  "settle_room A any_fresh room =
     attempt (su_sync A) (\<lambda>_ s.
       if any_fresh then su_wait_for_keys A room (from_secs 90) (snd (su_join A room s)) else (Okay (), s))"

definition direct_room :: "('s, 'v) startup_api \<Rightarrow> bool \<Rightarrow> str \<Rightarrow> 's \<Rightarrow> (str, str) result \<times> 's" where
  "direct_room A any_fresh room =
     attempt (\<lambda>s. (map_sum (\<lambda>e. ''Invalid room ID '' @ quoted room @ '': '' @ e) id (sdk_valid_room (su_sdk A) room), s)) (\<lambda>_.
     attempt (settle_room A any_fresh room) (\<lambda>_ s. (Okay room, s)))"

definition remove_passwords_after :: "('s, 'v) startup_api \<Rightarrow> bool \<Rightarrow> 's \<Rightarrow> 's" where
  "remove_passwords_after A any_fresh s = (if any_fresh then snd (su_remove_passwords A s) else s)"

subsection \<open>The client\<close>

definition discovered_room :: "('s, 'v) startup_api \<Rightarrow> bool \<Rightarrow> str \<Rightarrow> 's \<Rightarrow> (str, str) result \<times> 's" where
  "discovered_room A any_fresh worker_room =
     attempt (su_find_launcher_space A worker_room) (\<lambda>topology s.
       case topology of
         None \<Rightarrow> (Err (''No worker room found for '' @ quoted worker_room @ ''. Has the worker started and invited this client?''), s)
       | Some t \<Rightarrow> attempt (settle_room A any_fresh (lt_exec_room_id t)) (\<lambda>_ s. (Okay (lt_exec_room_id t), s)) s)"

definition connect_multi ::
  "('s, 'v) startup_api \<Rightarrow> bool \<Rightarrow> ServerAccount list \<Rightarrow> str \<Rightarrow> str option \<Rightarrow> bool \<Rightarrow> 's \<Rightarrow> (str, str) result \<times> 's" where
  "connect_multi A keep_passwords accounts worker_room direct force_new_device s =
     (if accounts = [] then (Err no_accounts, s)
      else
        attempt (su_connect A accounts (su_store_base A ''client'') force_new_device) (\<lambda>fresh_logins s.
          (let any_fresh = list_ex (\<lambda>f. f) fresh_logins
           in attempt (case direct of Some room \<Rightarrow> direct_room A any_fresh room | None \<Rightarrow> discovered_room A any_fresh worker_room)
                (\<lambda>room s. (Okay room, su_sync_trust A room s))
                (remove_passwords_after A (\<not> keep_passwords \<and> any_fresh) s))) s)"

definition client_connect :: "('s, 'v) startup_api \<Rightarrow> bool \<Rightarrow> str \<Rightarrow> str \<Rightarrow> str \<Rightarrow> str \<Rightarrow> str option \<Rightarrow> 's \<Rightarrow> (str, str) result \<times> 's" where
  "client_connect A keep_passwords homeserver username password worker_room direct =
     connect_multi A keep_passwords
       [\<lparr>sa_homeserver = homeserver, sa_username = username, sa_password = password, sa_danger_accept_invalid_certs = False\<rparr>]
       worker_room direct False"

subsection \<open>The worker\<close>

definition worker_backup :: "('s, 'v) startup_api \<Rightarrow> 's \<Rightarrow> 's" where
  "worker_backup A s =
     (case ensure_backup (su_backup A) False s of
        (Inl e, s) \<Rightarrow> s
      | (Inr st, s) \<Rightarrow> if bk_enabled st then snd (download_all_keys (su_download A) (su_key_rooms A s) 0 s) else s)"

text \<open>The server that the REST calls of the discovery go to.\<close>

definition rest_homeserver :: "WorkerRuntimeConfig \<Rightarrow> str option" where
  "rest_homeserver config =
     (case wr_credentials config of
        Some c \<Rightarrow> Some (crd_homeserver c)
      | None \<Rightarrow> (case df_accounts (wr_defaults config) of a # _ \<Rightarrow> Some (ac_homeserver a) | [] \<Rightarrow> None))"

definition authorized_ids :: "('s, 'v) startup_api \<Rightarrow> WorkerRuntimeConfig \<Rightarrow> str list" where
  "authorized_ids A config = filter (\<lambda>u. \<not> isl (su_parse_user A u)) (wc_authorized_users (wr_worker config))"

definition worker_topology :: "('s, 'v) startup_api \<Rightarrow> WorkerRuntimeConfig \<Rightarrow> 's \<Rightarrow> (str, LauncherTopology) result \<times> 's" where
  "worker_topology A config s =
     (case rest_homeserver config of
        None \<Rightarrow> (Err ''no homeserver configured for REST discovery'', s)
      | Some homeserver \<Rightarrow>
          (case su_access_token A s of
             None \<Rightarrow> (Err ''no access token available on preferred client'', s)
           | Some token \<Rightarrow>
               (let launcher_id = wr_resolved_room_name config
                in attempt (map_err matrix_error_text (find_launcher_space_via_rest (su_sdk A) launcher_id homeserver)) (\<lambda>found.
                   attempt (case found of Some t \<Rightarrow> (\<lambda>s. (Okay t, s)) | None \<Rightarrow> map_err matrix_error_text (create_launcher_space (su_sdk A) launcher_id)) (\<lambda>t.
                     map_err matrix_error_text (verify_or_replace_topology (su_sdk A) (rest_new homeserver) t launcher_id (authorized_ids A config)))) s)))"

definition invite_authorized :: "('s, 'v) startup_api \<Rightarrow> WorkerRuntimeConfig \<Rightarrow> LauncherTopology \<Rightarrow> 's \<Rightarrow> 's" where
  "invite_authorized A config t s =
     fold (\<lambda>user s. fold (\<lambda>room s. snd (invite_user (su_messages A) room user s)) [lt_space_id t, lt_exec_room_id t, lt_logs_room_id t] s)
       (authorized_ids A config) s"

definition worker_room :: "('s, 'v) startup_api \<Rightarrow> bool \<Rightarrow> WorkerRuntimeConfig \<Rightarrow> 's \<Rightarrow> (str, str) result \<times> 's" where
  "worker_room A any_fresh config =
     (case wr_room_id config of
        Some room \<Rightarrow> direct_room A any_fresh room
      | None \<Rightarrow>
          attempt (worker_topology A config) (\<lambda>t.
          attempt (settle_room A any_fresh (lt_exec_room_id t)) (\<lambda>_ s. (Okay (lt_exec_room_id t), invite_authorized A config t s))))"

definition worker_connect :: "('s, 'v) startup_api \<Rightarrow> WorkerRuntimeConfig \<Rightarrow> 's \<Rightarrow> (str, str) result \<times> 's" where
  "worker_connect A config s =
     (if worker_resolve_accounts config = [] then (Err no_accounts, s)
      else
        attempt (su_connect A (worker_resolve_accounts config) (su_store_base A ''worker'') (wr_force_new_device config)) (\<lambda>fresh_logins s.
          (let any_fresh = list_ex (\<lambda>f. f) fresh_logins
           in attempt (worker_room A any_fresh config) (\<lambda>room s. (Okay room, su_sync_trust A room s))
                (worker_backup A (remove_passwords_after A any_fresh s)))) s)"

subsection \<open>What is shown of the start\<close>

text \<open>
  The client never creates a room: a property of the state that its login, the removal of passwords, syncs, joins, waits,
  searches and the exchange of trust keep is kept by the whole start. Neither the creation of rooms
  nor any event it could send is among them.
\<close>

definition kept_by_client :: "('s, 'v) startup_api \<Rightarrow> ('s \<Rightarrow> bool) \<Rightarrow> bool" where
  "kept_by_client A P \<longleftrightarrow>
     (\<forall>s. P s \<longrightarrow>
        (\<forall>accounts base new. P (snd (su_connect A accounts base new s))) \<and> P (snd (su_remove_passwords A s)) \<and> P (snd (su_sync A s))
        \<and> (\<forall>room. P (snd (su_join A room s))) \<and> (\<forall>room d. P (snd (su_wait_for_keys A room d s)))
        \<and> (\<forall>name. P (snd (su_find_launcher_space A name s))) \<and> (\<forall>room. P (su_sync_trust A room s)))"

lemma attempt_keeps: "P (snd (m s)) \<Longrightarrow> (\<And>a s. P s \<Longrightarrow> P (snd (f a s))) \<Longrightarrow> P (snd (attempt m f s))"
  by (cases "m s"; cases "fst (m s)") (auto simp: attempt_def)

lemma settle_room_keeps: "kept_by_client A P \<Longrightarrow> P s \<Longrightarrow> P (snd (settle_room A any_fresh room s))"
  unfolding settle_room_def by (rule attempt_keeps) (auto simp: kept_by_client_def)

lemma direct_room_keeps: "kept_by_client A P \<Longrightarrow> P s \<Longrightarrow> P (snd (direct_room A any_fresh room s))"
  unfolding direct_room_def by (rule attempt_keeps, simp, rule attempt_keeps) (auto intro: settle_room_keeps)

lemma discovered_room_keeps:
  assumes "kept_by_client A P" and "P s"
  shows "P (snd (discovered_room A any_fresh room s))"
  unfolding discovered_room_def
proof (rule attempt_keeps)
  show "P (snd (su_find_launcher_space A room s))" using assms by (simp add: kept_by_client_def)
  fix t s assume "P s"
  then show "P (snd (case t of None \<Rightarrow> (Err (''No worker room found for '' @ quoted room @ ''. Has the worker started and invited this client?''), s)
      | Some t \<Rightarrow> attempt (settle_room A any_fresh (lt_exec_room_id t)) (\<lambda>_ s. (Okay (lt_exec_room_id t), s)) s))"
  proof (cases t)
    case (Some u)
    have "P (snd (attempt (settle_room A any_fresh (lt_exec_room_id u)) (\<lambda>_ s. (Okay (lt_exec_room_id u), s)) s))"
      by (rule attempt_keeps, rule settle_room_keeps [OF assms(1) \<open>P s\<close>]) simp
    with Some show ?thesis by simp
  qed simp
qed

lemma client_never_creates:
  assumes "kept_by_client A P" and "P s"
  shows "P (snd (connect_multi A keep accounts worker_room1 direct new s))"
proof -
  have room: "P (snd ((case direct of Some room \<Rightarrow> direct_room A f room | None \<Rightarrow> discovered_room A f worker_room1) s))" if "P s" for f s
    using that by (cases direct) (simp_all add: direct_room_keeps [OF assms(1)] discovered_room_keeps [OF assms(1)])
  have passwords: "P (remove_passwords_after A f s)" if "P s" for f s
    using that assms(1) by (simp add: remove_passwords_after_def kept_by_client_def)
  have trust: "P (su_sync_trust A r s)" "P (snd (su_connect A accounts base f s))" if "P s" for r s base f
    using that assms(1) by (simp_all add: kept_by_client_def)
  show ?thesis
  proof (cases "accounts = []")
    case False
    have "P (snd (attempt (su_connect A accounts (su_store_base A ''client'') new) (\<lambda>fresh_logins s.
        attempt (case direct of Some room \<Rightarrow> direct_room A (list_ex (\<lambda>f. f) fresh_logins) room
                 | None \<Rightarrow> discovered_room A (list_ex (\<lambda>f. f) fresh_logins) worker_room1)
          (\<lambda>room s. (Okay room, su_sync_trust A room s))
          (remove_passwords_after A (\<not> keep \<and> list_ex (\<lambda>f. f) fresh_logins) s)) s))"
      by (rule attempt_keeps, rule trust(2) [OF assms(2)], rule attempt_keeps, rule room, rule passwords) (simp_all add: trust)
    with False show ?thesis by (simp add: connect_multi_def Let_def)
  qed (use assms in \<open>simp add: connect_multi_def\<close>)
qed

text \<open>The room a client ends up with is the one it was given, or the exec room of the launcher that was found.\<close>

lemma client_room:
  assumes "connect_multi A keep accounts worker_room1 direct new s = (Okay room, s')"
  shows "accounts \<noteq> [] \<and> (case direct of
       Some r \<Rightarrow> room = r \<and> \<not> isl (sdk_valid_room (su_sdk A) r)
     | None \<Rightarrow> \<exists>t s1 s2. su_find_launcher_space A worker_room1 s1 = (Okay (Some t), s2) \<and> room = lt_exec_room_id t)"
proof -
  have some: "accounts \<noteq> []" using assms by (auto simp: connect_multi_def)
  with assms obtain f s1 s2 where
    run: "(case direct of Some r \<Rightarrow> direct_room A f r | None \<Rightarrow> discovered_room A f worker_room1) s1 = (Okay room, s2)"
    by (auto simp: connect_multi_def Let_def attempt_Okay)
  show ?thesis
  proof (cases direct)
    case None
    with run obtain t s3 where found: "su_find_launcher_space A worker_room1 s1 = (Okay t, s3)"
      and rest: "(case t of None \<Rightarrow> (Err (''No worker room found for '' @ quoted worker_room1 @ ''. Has the worker started and invited this client?''), s3)
        | Some t \<Rightarrow> attempt (settle_room A f (lt_exec_room_id t)) (\<lambda>_ s. (Okay (lt_exec_room_id t), s)) s3) = (Okay room, s2)"
      by (auto simp: discovered_room_def attempt_Okay)
    then show ?thesis using some None by (cases t) (auto simp: attempt_Okay)
  next
    case (Some r)
    with run some show ?thesis by (auto simp: direct_room_def attempt_Okay map_sum_Okay)
  qed
qed

text \<open>
  A worker without an account refuses to start. So does one that runs a second time with the accounts of its file only, since
  the first start has removed their passwords (\<open>remove_passwords_after\<close>).
\<close>

lemma worker_restart_refused:
  assumes "wr_credentials config = None" and "list_all (\<lambda>a. ac_password a = None) (df_accounts (wr_defaults config))"
  shows "worker_connect A config s = (Err no_accounts, s)"
  using assms by (simp add: worker_connect_def worker_resolve_accounts_def accounts_one_per_server first_per_server_none creds_account_def)

text \<open>
  The REST calls of the discovery go to the server of the credentials or of the first account, with the token of the preferred
  client. The pool prefers the fastest server, so with two accounts the token of one server is sent to the
  other.
\<close>

lemma token_crosses_servers:
  assumes "wr_credentials config = None" and "df_accounts (wr_defaults config) = [a, b]"
    and "from_clients [(ac_homeserver a, c1, Num 9), (ac_homeserver b, c2, Num 1)] None = Some pool"
  shows "rest_homeserver config = Some (ac_homeserver a) \<and> preferred_server pool = Some (ac_homeserver b) \<and> preferred pool = Some c2"
  using assms
  by (auto simp: rest_homeserver_def from_clients_def from_entries_def select_preferred_def preferred_server_def preferred_def partial_cmp_def
      f64_lt_def)

end
