(* ===== verification/Spec2Isabelle.thy ===== *)
theory Spec2Isabelle
  imports P2P_Driver_Loop Verify Turn Coordinator Worker_Session Launcher Multi_Hs_Trust Keychain Batched_Sender Client_Daemon Fabric_Worker Policy Secrets Worker_Loop State_Room Matrix_Session Client_Cleanup Launcher_Failover P2P_Integration Launcher_Terminal Legacy Channel Web_Client Startup
begin

text \<open>
  A verification development of mxdx, a fabric that runs terminal sessions and tasks on
  remote workers over Matrix rooms, with a peer-to-peer fast path between two devices.

  \<^bold>\<open>The program and its parts.\<close> A client posts a task; the coordinator routes it to a worker
  that offers the required capabilities, tracks which worker has claimed it, watches its
  heartbeats and applies a failure policy; the worker tracks its sessions, routes the
  input of interactive ones and sweeps old results. In parallel, two devices may open a
  WebRTC channel: they exchange call events through Matrix, a pure state machine decides
  what to do next, a driver task carries out its commands and seals every frame with
  AES-GCM, a signed transcript authenticates the peer, and TURN credentials are refreshed
  while the call lasts.

  \<^bold>\<open>Theories and sources\<close> (paths under \<open>src/crates\<close>).
  \<^item> \<open>Prelude\<close>: types (strings as UTF-8 bytes, code points where the code looks at characters,
    milliseconds, words), three-way comparison, separators, and the contract of bounded
    windows (locale \<open>bounded_window\<close>).
  \<^item> \<open>Glare\<close>: \<open>mxdx-p2p/src/signaling/glare.rs\<close>, which of two concurrent calls wins.
  \<^item> \<open>Signaling\<close>: \<open>signaling/events.rs\<close>, \<open>signaling/parse.rs\<close> and the data of \<open>channel/mod.rs\<close>.
  \<^item> \<open>P2P_State\<close>: \<open>transport/state.rs\<close>, one function per state for the arms of \<open>transition\<close>;
    runs and reachable states of the machine.
  \<^item> \<open>P2P_Crypto\<close>: \<open>crypto.rs\<close>, session keys and frames.
  \<^item> \<open>P2P_Driver\<close>: \<open>transport/driver.rs\<close> and \<open>transport/mod.rs\<close>, the driver's state as a record
    with a log of its effects, one function per method, one round of its loop.
    \<open>P2P_Driver_Safety\<close> states what the driver needs of the machine as the locale
    \<open>machine_contract\<close>, interprets it on the table, and proves the driver's invariant, its
    refinement of the machine, what leaves through the channel, lockout and replay
    detection. \<open>P2P_Driver_Loop\<close> has the states the loop can reach and the rate limit.
  \<^item> \<open>Verify\<close>: \<open>transport/verify.rs\<close>, transcript, fingerprints and both sides of the handshake;
    locales \<open>handshake_signer\<close> and \<open>key_store\<close>, interpreted on the ephemeral signer and on the
    in-memory key source.
  \<^item> \<open>Turn\<close>: \<open>turn.rs\<close>, credentials, the guarded fetch and the refresh loop.
  \<^item> \<open>Session_Types\<close>: the events of \<open>mxdx-types/src/events\<close> that sessions use, and the locale
    \<open>exclusive_table\<close> of tables in which a key has one owner.
  \<^item> \<open>Coordinator\<close>: \<open>mxdx-coordinator/src\<close>, index, router, claims, watchlist and failure
    policies; the locale \<open>worker_registry\<close> is interpreted on the index and on the router, and
    \<open>exclusive_table\<close> on the claim tracker.
  \<^item> \<open>Worker_Session\<close>: \<open>mxdx-worker/src\<close>, session manager (another \<open>exclusive_table\<close>), session
    multiplexer, retention and heartbeats.
  \<^item> \<open>Paths\<close>: the text operations of the command validators and the components of a path.
    \<open>Worker_Exec\<close>: \<open>mxdx-worker/src/executor.rs\<close> and \<open>output.rs\<close>, validation of commands and the
    router that numbers and chunks output. \<open>Launcher\<close>: \<open>mxdx-launcher/src\<close>, validation in
    \<open>executor.rs\<close>, ring buffer (another \<open>bounded_window\<close>) and batcher of \<open>terminal\<close>.
  \<^item> \<open>Multi_Hs\<close> and \<open>Multi_Hs_Trust\<close>: \<open>mxdx-matrix/src/multi_hs.rs\<close>, the pool of homeservers with its
    circuit breakers, failover, deduplication and trust synchronisation; latencies are \<open>f64\<close>
    values with infinities and NaN, and a panic is \<open>None\<close>.
  \<^item> \<open>Keychain\<close>: \<open>identity.rs\<close>, \<open>keychain_file.rs\<close>, \<open>keychain_chain.rs\<close> and \<open>trust.rs\<close> of \<open>mxdx-types/src\<close> and their users in
    worker and client; the contract of a backend is the locale \<open>keychain_backend\<close>, met by the
    in-memory, the file and, through a sublocale, the chained keychain.
  \<^item> \<open>Clock\<close> and \<open>Liveness\<close>: the timestamps and dates of \<open>mxdx-worker/src/telemetry.rs\<close>, \<open>mxdx-client/src/liveness.rs\<close> and
    \<open>mxdx-worker/src/lib.rs\<close>, telemetry, liveness, the check for a second instance, sync back-off and
    reconnection.
  \<^item> \<open>Batched_Sender\<close>: \<open>mxdx-worker/src/batched_sender.rs\<close>, the batch loop over what its waits return.
  \<^item> \<open>Client_Views\<close>: \<open>submit.rs\<close>, \<open>cancel.rs\<close>, \<open>tail.rs\<close>, \<open>logs.rs\<close>, \<open>ls.rs\<close> and \<open>attach.rs\<close> of \<open>mxdx-client/src\<close>.
  \<^item> \<open>Daemon_Tables\<close> and \<open>Client_Daemon\<close>: the daemon of the client in \<open>mxdx-client/src/daemon\<close> and \<open>protocol\<close>: tables of
    sessions and subscriptions, every request handler, the follower of a session, the loops of a
    connection and of the daemon, and the telemetry it reads (\<open>matrix.rs\<close>).
  \<^item> \<open>Worker_Loop\<close>: the rounds of \<open>run_worker\<close> in \<open>mxdx-worker/src/lib.rs\<close> over the session manager, the multiplexer
    and the command validation, with \<open>matrix.rs\<close> and \<open>session_persist.rs\<close>.
  \<^item> \<open>Fabric\<close> and \<open>Fabric_Worker\<close>: \<open>mxdx-fabric/src\<close>, the coordinator bot with its capability rooms and failure policies,
    the worker client with its claims, the process worker and the sender.
  \<^item> \<open>Policy\<close>: \<open>mxdx-policy/src\<close>, replay cache, users and registration, and the idle watchdog of
    \<open>mxdx-p2p/src/transport/idle.rs\<close>. \<open>Secrets\<close>: \<open>mxdx-secrets/src\<close>, the store and the coordinator of secrets.
  \<^item> \<open>Matrix_Rooms\<close>: \<open>rooms.rs\<close>, \<open>rest.rs\<close>, \<open>reencrypt.rs\<close> and \<open>error.rs\<close> of \<open>mxdx-matrix/src\<close> over one record of what the SDK and HTTP
    answer: rooms of launchers and workers, their discovery, checks and replacement.
    \<open>Matrix_Session\<close>: \<open>session.rs\<close> and \<open>backup.rs\<close>, logins that outlive the process, on any keychain that
    meets \<open>keychain_backend\<close>. \<open>Matrix_Client\<close>: \<open>client.rs\<close> and \<open>crypto_envelope.rs\<close>: logins and their stores, rooms and
    events with and without the encryption check, one sync with the messages it fetches after an
    undecryptable event, cached state, key exchange, cross-signing and the keys of devices.
  \<^item> \<open>P2P_Integration\<close>: \<open>mxdx-p2p/src/transport/matrix_signer.rs\<close> and the \<open>p2p_integration.rs\<close> of worker and client, which join
    the transport, the handshake and the Matrix client; the key source is one more \<open>key_store\<close>.
  \<^item> \<open>Channel\<close>: \<open>mxdx-p2p/src/channel/native.rs\<close> and \<open>wasm.rs\<close>, the two backends of the channel as records with a log of their
    calls, their callbacks and the event queue; the locale \<open>candidate_channel\<close> is interpreted on both, and \<open>no_ice_restart\<close> on
    the driver with either. \<open>Web_Client\<close>: \<open>mxdx-core-wasm/src/lib.rs\<close>, the client of the browser.
  \<^item> \<open>Launcher_Terminal\<close>: \<open>compression.rs\<close>, \<open>tmux.rs\<close>, \<open>session.rs\<close> and \<open>recovery.rs\<close> of \<open>mxdx-launcher/src/terminal\<close>. \<open>Legacy\<close>:
    \<open>mxdx-worker/src/compat.rs\<close>, tasks of the fabric as tasks of sessions.
  \<^item> \<open>State_Room\<close>: \<open>mxdx-worker/src/state_room.rs\<close> with its use in \<open>lib.rs\<close>: the room in which a worker keeps its state, and
    the lock that keeps a second worker out, as a step relation over all workers of the room.
  \<^item> \<open>Config\<close>: \<open>mxdx-types/src/config.rs\<close> and the \<open>config.rs\<close> of worker and client: defaults, files, command line,
    accounts and profiles. \<open>Startup\<close>: how worker (\<open>lib.rs\<close>) and client (\<open>matrix.rs\<close>) connect before their
    loops. \<open>Client_Cleanup\<close>: \<open>mxdx-client/src/cleanup.rs\<close>. \<open>Launcher_Failover\<close>:
    \<open>mxdx-launcher/src/multi_hs.rs\<close>.
  This theory holds what spans the loop of a worker and the validation of its commands.

  \<^bold>\<open>How code becomes definitions.\<close> A struct is a record, an enum a datatype, a method that
  changes state returns the new state; an error is the left value of a sum; asynchronous
  code is the sequence of its effects. Clock readings and random bytes are arguments, so a
  theorem holds for all of them. Third-party code (AES-GCM, Ed25519, base64, JSON, HTTP,
  the WebRTC channel, URLs) is a record of functions passed to the definitions that use
  it; what the code relies on is a named law, and every theorem that assumes a law comes
  with a witness that instantiates it. The iteration order of hash maps is a parameter.
  Integers keep their width where it matters: counters, lifetimes and terminal sizes are
  words. Times of the P2P code are natural numbers of milliseconds.

  \<^bold>\<open>What is shown.\<close> No session is open without a verified handshake, and nothing but sealed
  payloads leaves through the channel; an accepted response of an ephemeral signer binds room, call,
  and, between opposite roles, nonces, parties and certificates of both ends, when its fields have no NUL
  byte and signatures cannot be forged; the driver implements the pure machine, but for a failed
  restart of ICE, which leaves it idle, and keeps its snapshot and its watchdog in step with it; a call that ends is erased, with one
  exception that is proved too; lockout, replay window and rate limit behave as bounded
  windows; the refresh loop keeps to its schedule and ends; router and index agree, claims
  are exclusive, alerts are exact, retries bounded; sessions move only forward (their states are linearly ordered), complete
  once and are routed only while live; a validated command is allow-listed and its directory
  confined, and output is neither lost nor reordered on its way through chunks, batches and
  the ring buffer, from the worker's chunks to the client's log. A pool of homeservers panics
  only when a caller names a server it does not have, fails over to the fastest server and does not
  deliver an event twice within a window;
  a device keeps its identity and its trust over restarts; the client's dates are the calendar and
  its liveness window is exact. The daemon runs a task only for a worker that is online, and its
  followers forward every output once; a worker starts a process only for a validated command of a
  new task that the room delivered and reports every process that ends; the fabric routes a task once and ends its respawns;
  the policy engine refuses replays; a secret reaches the worker it was sealed for. A worker keeps its
  state in a room it has created or whose creation event names an account it trusts, and at most one
  worker holds the lock of that room while leases are kept and no write falls between the read and
  the write of a worker that takes it; a login is restored after a restart; a cleanup asks first and spares the device it runs on. One
  sync hands on what it and the page of messages behind it can read, and no identifier of the page twice; call events and Megolm payloads go only into encrypted
  rooms; a payload takes the channel or the room and never both; a peer key comes from a cross-signed
  device; what a terminal sends is bounded when it is unpacked. A channel gives every candidate of the
  peer to its library once and in order, after the remote description, and its event queue is
  bounded; the browser restores the session it exported and reads a state room as the worker does. A starting
  client never creates a room. Where the code departs from what its comments say,
  the departure is a theorem: the glare state and the placeholders of the table, the loop
  that never connects, the expiry that refreshes do not extend, the reflected response and
  the ambiguity of transcripts with NUL bytes, the stale room of a moved session, the sibling
  directories that the launcher admits, the lost day of leap years, the lost batch after a
  rate limit, the stale value of a chained keychain, the server that is never tried again, the
  detached session that keeps a daemon alive, claims of the fabric that do not exclude each other,
  tasks that are lost when their routing fails, signals that workers ignore, cancelled sessions that are reported as
  a success, the race for the lock of a state room, spaces whose replacement is no space, accounts that vanish with their passwords,
  the signer whose handshakes never verify, encrypted telemetry that always reads as online, ephemeral
  keys of any sender, the answering browser that cannot send, the state room that the browser takes unchecked,
  the token that goes to another server.

  \<^bold>\<open>Bounds and fuel.\<close> Nothing is bounded in advance. Loops over lists are recursions on the
  list; the refresh loop runs over the list of its rounds and is shown to end after one
  round per five seconds left; the retry chain takes fuel, and any fuel above the number
  of retries left gives the same result. Loops that wait for a deadline take the clock as a function of the round
  and fuel, and end once the fuel covers the round at which the clock reaches the deadline; a wait for a
  callback that does not come is \<open>None\<close>.

  \<^bold>\<open>Not modelled.\<close> Matrix itself, HTTP, tokio, process and terminal I/O are parameters or left out, as are
  the web front end (HTTP routes), command line parsing, the diagnosis of the client (printing), logging, zeroization and redacted printing.
\<close>

section \<open>From an event of the room to a process\<close>

text \<open>
  The loop of a worker and the validation of commands together: every process that a worker has
  started over any run has a binary of the allow-list and, unless no directories are
  configured, a working directory below an allowed one.
\<close>

lemma started_process_confined:
  fixes rounds :: "('v worker_world \<times> 'v IncomingEvent list) list"
  assumes "(uuid, v) \<in> set (ws_spawned (snd (worker_run C rounds (worker_start C))))"
  shows "vc_bin v \<in> set (wc_allowed_commands (wl_config C))
    \<and> (case vc_cwd v of None \<Rightarrow> wc_allowed_cwd (wl_config C) = []
       | Some c \<Rightarrow> \<exists>dir \<in> set (wc_allowed_cwd (wl_config C)). confined dir c)"
proof -
  have "starts_ok (delivered_start C rounds) (worker_start C)" by (simp add: starts_ok_def worker_start_def)
  from worker_run_starts [OF this order_refl] assms have "delivered_start C rounds uuid v"
    by (auto simp: starts_ok_def list_all_iff)
  then obtain W :: "'v worker_world" and task where "validated C W task = Okay v" unfolding delivered_start_def by blast
  then have gates: "validate_allowlist (st_bin task) (wc_allowed_commands (wl_config C)) = Okay ()"
    "(case st_cwd task of Some c \<Rightarrow> validate_cwd_allowlist c (wc_allowed_cwd (wl_config C))
       | None \<Rightarrow> if wc_allowed_cwd (wl_config C) \<noteq> [] then Err CwdRequired else Okay ()) = Okay ()"
    "(case st_cwd task of Some c \<Rightarrow> validate_cwd (ww_fs W) c | None \<Rightarrow> Okay ()) = Okay ()"
    and v: "vc_bin v = st_bin task" "vc_cwd v = st_cwd task"
    unfolding validated_def validate_command_def and_then_Okay by auto
  have "vc_bin v \<in> set (wc_allowed_commands (wl_config C))"
    using gates(1) v by (auto simp: validate_allowlist_def list_ex_iff split: if_splits)
  moreover have "case vc_cwd v of None \<Rightarrow> wc_allowed_cwd (wl_config C) = []
       | Some c \<Rightarrow> \<exists>dir \<in> set (wc_allowed_cwd (wl_config C)). confined dir c"
    using gates(2,3) v validated_cwd_confined [of _ "wc_allowed_cwd (wl_config C)" "ww_fs W"]
    by (auto split: option.splits if_splits)
  ultimately show ?thesis by blast
qed

end
